(* ===== verification/Prelude.thy ===== *)
theory Prelude
  imports Complex_Main "HOL-Library.Sublist" "HOL-Library.List_Lexorder" "HOL-Library.Char_ord"
begin

text \<open>
  The vocabulary every component of the development shares.

  \<^item> Results: a fallible Rust function returns \<open>'e + 'a\<close>, with \<open>Inl\<close> the error; \<open>bind_r\<close> is
    the question mark operator, \<open>ensure\<close> an early return, \<open>traverse_r\<close> is \<open>collect\<close> into a
    \<open>Result\<close> and \<open>fold_r\<close> a \<open>for\<close> loop whose body may return early.
  \<^item> Text: a Rust \<open>&str\<close> is the list of the bytes of its UTF-8 encoding (\<open>string\<close>, a list of
    8-bit \<open>char\<close>s), so that \<open>len\<close>, slicing by byte index and comparison are those of Rust.
    The operations of the standard library the program uses are defined here on bytes;
    \<open>trim\<close> knows the multi-byte encodings of every Unicode White_Space character.
  \<^item> Ordered lists of insertions into a list of lines, shared by the two patch engines, are
    in the theory \<open>Splice\<close>.
\<close>

named_theorems result_simps \<open>evaluation of results and their elimination\<close>
named_theorems text_simps \<open>evaluation of text operations\<close>

section \<open>Results\<close>

definition bind_r :: "'e + 'a \<Rightarrow> ('a \<Rightarrow> 'e + 'b) \<Rightarrow> 'e + 'b" where
  "bind_r m f = (case m of Inl e \<Rightarrow> Inl e | Inr x \<Rightarrow> f x)"

definition ensure :: "bool \<Rightarrow> 'e \<Rightarrow> 'e + unit" where
  "ensure b e = (if b then Inr () else Inl e)"

definition ok_or :: "'a option \<Rightarrow> 'e \<Rightarrow> 'e + 'a" where
  "ok_or x e = (case x of None \<Rightarrow> Inl e | Some y \<Rightarrow> Inr y)"

definition is_ok :: "'e + 'a \<Rightarrow> bool" where
  "is_ok r = (case r of Inl _ \<Rightarrow> False | Inr _ \<Rightarrow> True)"

definition map_ok :: "('a \<Rightarrow> 'b) \<Rightarrow> 'e + 'a \<Rightarrow> 'e + 'b" where
  "map_ok f r = (case r of Inl e \<Rightarrow> Inl e | Inr x \<Rightarrow> Inr (f x))"

fun traverse_r :: "('a \<Rightarrow> 'e + 'b) \<Rightarrow> 'a list \<Rightarrow> 'e + 'b list" where
  "traverse_r f [] = Inr []"
| "traverse_r f (x # xs) =
     bind_r (f x) (\<lambda>y. bind_r (traverse_r f xs) (\<lambda>ys. Inr (y # ys)))"

fun fold_r :: "('a \<Rightarrow> 's \<Rightarrow> 'e + 's) \<Rightarrow> 'a list \<Rightarrow> 's \<Rightarrow> 'e + 's" where
  "fold_r f [] s = Inr s"
| "fold_r f (x # xs) s = bind_r (f x s) (\<lambda>s'. fold_r f xs s')"

text \<open>A loop that only checks.\<close>

definition check_all :: "('a \<Rightarrow> 'e + unit) \<Rightarrow> 'a list \<Rightarrow> 'e + unit" where
  "check_all f xs = map_ok (\<lambda>_. ()) (traverse_r f xs)"

lemma bind_r_Inl [simp, result_simps]: "bind_r (Inl e) f = Inl e"
  by (simp add: bind_r_def)

lemma bind_r_Inr [simp, result_simps]: "bind_r (Inr x) f = f x"
  by (simp add: bind_r_def)

lemma bind_r_eq_Inr [result_simps]:
  "bind_r m f = Inr y \<longleftrightarrow> (\<exists>x. m = Inr x \<and> f x = Inr y)"
  by (cases m) auto

lemma bind_r_eq_Inl:
  "bind_r m f = Inl e \<longleftrightarrow> m = Inl e \<or> (\<exists>x. m = Inr x \<and> f x = Inl e)"
  by (cases m) auto

text \<open>Taking apart a chain of calls that succeeded.\<close>

lemma bind_rE:
  assumes "bind_r m f = Inr y"
  obtains x where "m = Inr x" "f x = Inr y"
  using assms by (auto simp: bind_r_eq_Inr)

lemma guard_InrE:
  assumes "(if b then Inl e else r) = Inr y"
  obtains "\<not> b" "r = Inr y"
  using assms by (cases b) auto

lemma case_prod_InrE:
  assumes "(case p of (a, b) \<Rightarrow> f a b) = Inr y"
  obtains a b where "p = (a, b)" "f a b = Inr y"
  using assms by (cases p) auto

lemma ensure_eq_Inr [simp, result_simps]: "ensure b e = Inr u \<longleftrightarrow> b"
  by (simp add: ensure_def)

lemma ensure_eq_Inl [simp]: "ensure b e = Inl e' \<longleftrightarrow> \<not> b \<and> e' = e"
  by (auto simp: ensure_def)

lemma ensure_True [simp]: "ensure True e = Inr ()"
  by (simp add: ensure_def)

lemma ensure_False [simp]: "ensure False e = Inl e"
  by (simp add: ensure_def)

lemma ok_or_simps [simp]: "ok_or None e = Inl e" "ok_or (Some x) e = Inr x"
  by (simp_all add: ok_or_def)

lemma ok_or_eq_Inr [simp, result_simps]: "ok_or x e = Inr y \<longleftrightarrow> x = Some y"
  by (cases x) auto

lemma ok_or_eq_Inl [simp]: "ok_or x e = Inl e' \<longleftrightarrow> x = None \<and> e' = e"
  by (cases x) auto

lemma is_ok_simps [simp]: "is_ok (Inr x) = True" "is_ok (Inl e) = False"
  by (simp_all add: is_ok_def)

lemma is_ok_iff: "is_ok r \<longleftrightarrow> (\<exists>x. r = Inr x)"
  by (cases r) auto

lemma map_ok_simps [simp]: "map_ok f (Inl e) = Inl e" "map_ok f (Inr x) = Inr (f x)"
  by (simp_all add: map_ok_def)

lemma map_ok_eq_Inr [simp, result_simps]: "map_ok f r = Inr y \<longleftrightarrow> (\<exists>x. r = Inr x \<and> y = f x)"
  by (cases r) auto

lemma bind_r_cong [fundef_cong]:
  "m = m' \<Longrightarrow> (\<And>x. m' = Inr x \<Longrightarrow> f x = f' x) \<Longrightarrow> bind_r m f = bind_r m' f'"
  by (cases m') auto

lemma traverse_r_cong [fundef_cong]:
  "xs = ys \<Longrightarrow> (\<And>x. x \<in> set ys \<Longrightarrow> f x = g x) \<Longrightarrow> traverse_r f xs = traverse_r g ys"
  by (induction ys arbitrary: xs) auto

lemma fold_r_cong [fundef_cong]:
  assumes "xs = ys" "s = t" "\<And>x s. x \<in> set ys \<Longrightarrow> f x s = g x s"
  shows "fold_r f xs s = fold_r g ys t"
proof -
  have "\<forall>x \<in> set ys. \<forall>s. f x s = g x s" using assms(3) by blast
  then have "fold_r f ys s = fold_r g ys s" for s
  proof (induction ys arbitrary: s)
    case Nil then show ?case by simp
  next
    case (Cons y ys)
    then show ?case by (cases "g y s") auto
  qed
  with assms(1,2) show ?thesis by simp
qed

lemma traverse_r_Inr:
  "traverse_r f xs = Inr ys \<longleftrightarrow> list_all2 (\<lambda>x y. f x = Inr y) xs ys"
proof (induction xs arbitrary: ys)
  case Nil then show ?case by auto
next
  case (Cons x xs)
  then show ?case by (cases ys) (auto simp: bind_r_eq_Inr)
qed

lemma traverse_r_set:
  assumes "traverse_r f xs = Inr ys" "y \<in> set ys"
  obtains x where "x \<in> set xs" "f x = Inr y"
proof -
  from assms obtain i where "i < length ys" "ys ! i = y" "length xs = length ys"
    "f (xs ! i) = Inr (ys ! i)"
    by (auto simp: traverse_r_Inr list_all2_conv_all_nth in_set_conv_nth)
  then show ?thesis using that [of "xs ! i"] by simp
qed

lemma traverse_r_mem:
  assumes "traverse_r f xs = Inr ys" "x \<in> set xs"
  shows "\<exists>y \<in> set ys. f x = Inr y"
proof -
  have all: "list_all2 (\<lambda>x y. f x = Inr y) xs ys" using assms(1) by (simp add: traverse_r_Inr)
  obtain i where i: "i < length xs" "xs ! i = x" using assms(2) by (auto simp: in_set_conv_nth)
  show ?thesis
    using list_all2_nthD [OF all i(1)] list_all2_lengthD [OF all] i by (auto intro: nth_mem)
qed

lemma traverse_r_ok: "is_ok (traverse_r f xs) \<longleftrightarrow> (\<forall>x \<in> set xs. is_ok (f x))"
  by (induction xs) (auto simp: is_ok_def bind_r_eq_Inr split: sum.splits)

lemma check_all_ok: "is_ok (check_all f xs) \<longleftrightarrow> (\<forall>x \<in> set xs. is_ok (f x))"
proof -
  have "is_ok (check_all f xs) \<longleftrightarrow> is_ok (traverse_r f xs)"
    by (cases "traverse_r f xs") (simp_all add: check_all_def)
  then show ?thesis by (simp add: traverse_r_ok)
qed

lemma check_all_Nil [simp]: "check_all f [] = Inr ()"
  by (simp add: check_all_def)

lemma is_ok_ensure [simp]: "is_ok (ensure b e) \<longleftrightarrow> b"
  by (cases b) simp_all

lemma is_ok_then: "is_ok (bind_r m (\<lambda>_. n)) \<longleftrightarrow> is_ok m \<and> is_ok n"
  by (cases m) simp_all

lemma check_all_cong [fundef_cong]:
  "xs = ys \<Longrightarrow> (\<And>x. x \<in> set ys \<Longrightarrow> f x = g x) \<Longrightarrow> check_all f xs = check_all g ys"
  unfolding check_all_def using traverse_r_cong [of xs ys f g] by simp

lemma traverse_r_total:
  "(\<And>x. x \<in> set xs \<Longrightarrow> f x = Inr (g x)) \<Longrightarrow> traverse_r f xs = Inr (map g xs)"
  by (induction xs) auto

lemma traverse_r_length: "traverse_r f xs = Inr ys \<Longrightarrow> length ys = length xs"
  by (auto simp: traverse_r_Inr dest: list_all2_lengthD)

lemma fold_r_invariant:
  assumes "fold_r f xs s = Inr t" "P s"
    and "\<And>x s s'. x \<in> set xs \<Longrightarrow> P s \<Longrightarrow> f x s = Inr s' \<Longrightarrow> P s'"
  shows "P t"
  using assms
proof (induction xs arbitrary: s)
  case Nil then show ?case by simp
next
  case (Cons x xs)
  from Cons.prems(1) obtain s' where s': "f x s = Inr s'" "fold_r f xs s' = Inr t"
    by (auto simp: bind_r_eq_Inr)
  have "P s'" using Cons.prems(2,3) s'(1) by auto
  then show ?case using Cons.IH [OF s'(2)] Cons.prems(3) by auto
qed

lemma fold_r_append:
  "fold_r f (xs @ ys) s = bind_r (fold_r f xs s) (\<lambda>s'. fold_r f ys s')"
proof (induction xs arbitrary: s)
  case Nil then show ?case by simp
next
  case (Cons x xs) then show ?case by (cases "f x s") auto
qed

lemma set_map_filter: "set (List.map_filter f xs) = {y. \<exists>x \<in> set xs. f x = Some y}"
  by (induction xs) (auto simp: map_filter_simps split: option.splits)

lemma find_Some_mem: "List.find P xs = Some y \<Longrightarrow> y \<in> set xs \<and> P y"
  by (auto simp: find_Some_iff)

section \<open>Text\<close>

subsection \<open>Single bytes\<close>

abbreviation nl :: char where "nl \<equiv> CHR 0x0A"
abbreviation cr :: char where "cr \<equiv> CHR 0x0D"
abbreviation nul :: char where "nul \<equiv> CHR 0x00"
abbreviation backslash :: char where "backslash \<equiv> CHR 0x5C"
abbreviation squote :: char where "squote \<equiv> CHR 0x27"
abbreviation dquote :: char where "dquote \<equiv> CHR 0x22"
abbreviation backtick :: char where "backtick \<equiv> CHR 0x60"

definition byte_of :: "char \<Rightarrow> nat" where
  "byte_of c = of_char c"

definition is_ascii_lower :: "char \<Rightarrow> bool" where
  "is_ascii_lower c \<longleftrightarrow> 97 \<le> byte_of c \<and> byte_of c \<le> 122"

definition is_ascii_upper :: "char \<Rightarrow> bool" where
  "is_ascii_upper c \<longleftrightarrow> 65 \<le> byte_of c \<and> byte_of c \<le> 90"

definition is_ascii_digit :: "char \<Rightarrow> bool" where
  "is_ascii_digit c \<longleftrightarrow> 48 \<le> byte_of c \<and> byte_of c \<le> 57"

definition is_ascii_alphabetic :: "char \<Rightarrow> bool" where
  "is_ascii_alphabetic c \<longleftrightarrow> is_ascii_lower c \<or> is_ascii_upper c"

definition is_ascii_alphanumeric :: "char \<Rightarrow> bool" where
  "is_ascii_alphanumeric c \<longleftrightarrow> is_ascii_alphabetic c \<or> is_ascii_digit c"

definition is_ascii_hexdigit :: "char \<Rightarrow> bool" where
  "is_ascii_hexdigit c \<longleftrightarrow>
     is_ascii_digit c \<or> (97 \<le> byte_of c \<and> byte_of c \<le> 102) \<or> (65 \<le> byte_of c \<and> byte_of c \<le> 70)"

definition to_lower :: "char \<Rightarrow> char" where
  "to_lower c = (if is_ascii_upper c then char_of (byte_of c + 32) else c)"

definition to_upper :: "char \<Rightarrow> char" where
  "to_upper c = (if is_ascii_lower c then char_of (byte_of c - 32) else c)"

lemmas eval_ascii =
  to_lower_def to_upper_def is_ascii_alphanumeric_def is_ascii_alphabetic_def is_ascii_digit_def
  is_ascii_upper_def is_ascii_lower_def is_ascii_hexdigit_def byte_of_def

text \<open>A continuation byte of UTF-8 starts no character.\<close>

definition is_continuation :: "char \<Rightarrow> bool" where
  "is_continuation c \<longleftrightarrow> 128 \<le> byte_of c \<and> byte_of c < 192"

definition char_count :: "string \<Rightarrow> nat" where
  "char_count s = length (filter (\<lambda>c. \<not> is_continuation c) s)"

text \<open>\<open>s.chars().take(n)\<close>: the bytes of the first \<open>n\<close> characters.\<close>

fun take_chars :: "nat \<Rightarrow> string \<Rightarrow> string" where
  "take_chars n [] = []"
| "take_chars n (c # cs) =
     (if is_continuation c then c # take_chars n cs
      else case n of 0 \<Rightarrow> [] | Suc m \<Rightarrow> c # take_chars m cs)"

subsection \<open>White space\<close>

text \<open>
  The number of bytes of the White_Space character a text starts with, 0 if it starts with
  another character or is empty: U+0009 to U+000D and U+0020 are one byte, U+0085 and U+00A0
  two, U+1680, U+2000 to U+200A, U+2028, U+2029, U+202F, U+205F and U+3000 three.
\<close>

definition ws1 :: "char \<Rightarrow> bool" where
  "ws1 a \<longleftrightarrow> a = CHR 0x20 \<or> (9 \<le> byte_of a \<and> byte_of a \<le> 13)"

definition ws2 :: "char \<Rightarrow> char \<Rightarrow> bool" where
  "ws2 a b \<longleftrightarrow> a = CHR 0xC2 \<and> (b = CHR 0x85 \<or> b = CHR 0xA0)"

definition ws3 :: "char \<Rightarrow> char \<Rightarrow> char \<Rightarrow> bool" where
  "ws3 a b c \<longleftrightarrow>
     (a = CHR 0xE1 \<and> b = CHR 0x9A \<and> c = CHR 0x80) \<or>
     (a = CHR 0xE2 \<and> b = CHR 0x80 \<and>
       ((128 \<le> byte_of c \<and> byte_of c \<le> 138) \<or> c = CHR 0xA8 \<or> c = CHR 0xA9 \<or> c = CHR 0xAF)) \<or>
     (a = CHR 0xE2 \<and> b = CHR 0x81 \<and> c = CHR 0x9F) \<or>
     (a = CHR 0xE3 \<and> b = CHR 0x80 \<and> c = CHR 0x80)"

fun ws_prefix :: "string \<Rightarrow> nat" where
  "ws_prefix [] = 0"
| "ws_prefix [a] = (if ws1 a then 1 else 0)"
| "ws_prefix [a, b] = (if ws1 a then 1 else if ws2 a b then 2 else 0)"
| "ws_prefix (a # b # c # s) =
     (if ws1 a then 1 else if ws2 a b then 2 else if ws3 a b c then 3 else 0)"

text \<open>The same for the character a reversed text starts with.\<close>

fun ws_suffix :: "string \<Rightarrow> nat" where
  "ws_suffix [] = 0"
| "ws_suffix [a] = (if ws1 a then 1 else 0)"
| "ws_suffix [a, b] = (if ws1 a then 1 else if ws2 b a then 2 else 0)"
| "ws_suffix (a # b # c # s) =
     (if ws1 a then 1 else if ws2 b a then 2 else if ws3 c b a then 3 else 0)"

lemma ws_prefix_le: "ws_prefix s \<le> length s"
  by (induction s rule: ws_prefix.induct) auto

lemma ws_suffix_le: "ws_suffix s \<le> length s"
  by (induction s rule: ws_suffix.induct) auto

function trim_start :: "string \<Rightarrow> string" where
  "trim_start s = (if ws_prefix s = 0 then s else trim_start (drop (ws_prefix s) s))"
  by pat_completeness auto
termination
proof (relation "measure length", goal_cases)
  case 1 show ?case by simp
next
  case (2 s)
  then show ?case using ws_prefix_le [of s] by auto
qed

function trim_rev :: "string \<Rightarrow> string" where
  "trim_rev s = (if ws_suffix s = 0 then s else trim_rev (drop (ws_suffix s) s))"
  by pat_completeness auto
termination
proof (relation "measure length", goal_cases)
  case 1 show ?case by simp
next
  case (2 s)
  then show ?case using ws_suffix_le [of s] by auto
qed

declare trim_start.simps [simp del] trim_rev.simps [simp del]

definition trim_end :: "string \<Rightarrow> string" where
  "trim_end s = rev (trim_rev (rev s))"

definition trim :: "string \<Rightarrow> string" where
  "trim s = trim_end (trim_start s)"

definition is_blank :: "string \<Rightarrow> bool" where
  "is_blank s \<longleftrightarrow> trim s = []"

text \<open>For evaluating on concrete texts.\<close>

lemmas eval_trim =
  is_blank_def trim_def trim_end_def trim_start.simps trim_rev.simps ws1_def ws2_def ws3_def byte_of_def

lemma ws_prefix_trim_start: "ws_prefix (trim_start s) = 0"
proof (induction s rule: trim_start.induct)
  case (1 s)
  then show ?case by (cases "ws_prefix s = 0") (simp_all add: trim_start.simps [of s])
qed

lemma ws_suffix_trim_rev: "ws_suffix (trim_rev s) = 0"
proof (induction s rule: trim_rev.induct)
  case (1 s)
  then show ?case by (cases "ws_suffix s = 0") (simp_all add: trim_rev.simps [of s])
qed

lemma trim_start_id: "ws_prefix s = 0 \<Longrightarrow> trim_start s = s"
  by (simp add: trim_start.simps)

lemma trim_rev_id: "ws_suffix s = 0 \<Longrightarrow> trim_rev s = s"
  by (simp add: trim_rev.simps)

lemma trim_start_suffix: "suffix (trim_start s) s"
proof (induction s rule: trim_start.induct)
  case (1 s)
  show ?case
  proof (cases "ws_prefix s = 0")
    case True then show ?thesis by (simp add: trim_start.simps [of s])
  next
    case False
    then have "suffix (trim_start (drop (ws_prefix s) s)) (drop (ws_prefix s) s)"
      using 1 by simp
    then show ?thesis using False
      by (metis suffix_drop suffix_order.order_trans trim_start.simps)
  qed
qed

lemma trim_rev_suffix: "suffix (trim_rev s) s"
proof (induction s rule: trim_rev.induct)
  case (1 s)
  show ?case
  proof (cases "ws_suffix s = 0")
    case True then show ?thesis by (simp add: trim_rev.simps [of s])
  next
    case False
    then have "suffix (trim_rev (drop (ws_suffix s) s)) (drop (ws_suffix s) s)"
      using 1 by simp
    then show ?thesis using False
      by (metis suffix_drop suffix_order.order_trans trim_rev.simps)
  qed
qed

lemma trim_end_prefix: "prefix (trim_end s) s"
  using trim_rev_suffix [of "rev s"] by (simp add: trim_end_def suffix_to_prefix)

lemma trim_subset: "set (trim s) \<subseteq> set s"
proof -
  have "set (trim_end (trim_start s)) \<subseteq> set (trim_start s)"
    using trim_end_prefix by (rule set_mono_prefix)
  also have "\<dots> \<subseteq> set s"
    using trim_start_suffix by (rule set_mono_suffix)
  finally show ?thesis by (simp add: trim_def)
qed

text \<open>
  Cutting white space off the end leaves the start alone: a proper prefix of a text that
  starts with no white space character starts with none.
\<close>

lemma ws_prefix_prefix: "prefix t s \<Longrightarrow> ws_prefix s = 0 \<Longrightarrow> ws_prefix t = 0"
  by (induction t rule: ws_prefix.induct; cases s rule: ws_prefix.cases)
     (auto split: if_splits)

lemma trim_idem [simp]: "trim (trim s) = trim s"
proof -
  have "ws_prefix (trim s) = 0"
    unfolding trim_def using trim_end_prefix ws_prefix_trim_start by (rule ws_prefix_prefix)
  then have "trim (trim s) = trim_end (trim s)"
    by (simp add: trim_def [of "trim s"] trim_start_id)
  also have "\<dots> = trim s"
    by (simp add: trim_def trim_end_def trim_rev_id ws_suffix_trim_rev)
  finally show ?thesis .
qed

text \<open>A printing ASCII character is no part of any white space, so trimming keeps it.\<close>

lemma drop_ws_keeps:
  assumes "\<not> ws1 c" "byte_of c < 128"
  shows "c \<in> set s \<Longrightarrow> c \<in> set (drop (ws_prefix s) s)"
    and "c \<in> set s \<Longrightarrow> c \<in> set (drop (ws_suffix s) s)"
proof -
  have "\<not> ws2 c a" "\<not> ws2 a c" "\<not> ws3 c a b" "\<not> ws3 a c b" "\<not> ws3 a b c" for a b
    using assms(2) by (auto simp: ws2_def ws3_def byte_of_def)
  then show "c \<in> set s \<Longrightarrow> c \<in> set (drop (ws_prefix s) s)" "c \<in> set s \<Longrightarrow> c \<in> set (drop (ws_suffix s) s)"
    using assms(1) by (induction s rule: ws_prefix.induct) auto
qed

lemma trim_keeps:
  assumes "\<not> ws1 c" "byte_of c < 128" "c \<in> set s"
  shows "c \<in> set (trim s)"
proof -
  have "c \<in> set t \<Longrightarrow> c \<in> set (trim_start t)" for t
    by (induction t rule: trim_start.induct) (metis drop_ws_keeps(1) [OF assms(1,2)] trim_start.simps)
  moreover have "c \<in> set t \<Longrightarrow> c \<in> set (trim_rev t)" for t
    by (induction t rule: trim_rev.induct) (metis drop_ws_keeps(2) [OF assms(1,2)] trim_rev.simps)
  ultimately show ?thesis using assms(3) by (simp add: trim_def trim_end_def)
qed

lemma not_blank: "\<not> ws1 c \<Longrightarrow> byte_of c < 128 \<Longrightarrow> c \<in> set s \<Longrightarrow> \<not> is_blank s"
  using trim_keeps by (fastforce simp: is_blank_def)

lemma trim_Nil [simp]: "trim [] = []"
  by (simp add: trim_def trim_end_def trim_start.simps trim_rev.simps)

subsection \<open>Prefixes, splitting and joining\<close>

definition starts_with :: "string \<Rightarrow> string \<Rightarrow> bool" where
  "starts_with p s \<longleftrightarrow> take (length p) s = p"

definition strip_prefix :: "string \<Rightarrow> string \<Rightarrow> string option" where
  "strip_prefix p s = (if starts_with p s then Some (drop (length p) s) else None)"

lemma strip_prefix_append [simp]: "strip_prefix p (p @ s) = Some s"
  by (simp add: strip_prefix_def starts_with_def)

lemma starts_with_append [simp]: "starts_with p (p @ s)"
  by (simp add: starts_with_def)

lemma strip_prefix_SomeD: "strip_prefix p s = Some r \<Longrightarrow> s = p @ r"
  by (auto simp: strip_prefix_def starts_with_def split: if_splits)
     (metis append_take_drop_id)

fun split_on :: "char \<Rightarrow> string \<Rightarrow> string list" where
  "split_on c [] = [[]]"
| "split_on c (x # xs) =
     (if x = c then [] # split_on c xs
      else case split_on c xs of [] \<Rightarrow> [[x]] | y # ys \<Rightarrow> (x # y) # ys)"

fun join :: "string \<Rightarrow> string list \<Rightarrow> string" where
  "join sep [] = []"
| "join sep [s] = s"
| "join sep (s # t # ss) = s @ sep @ join sep (t # ss)"

lemma split_on_not_Nil [simp]: "split_on c s \<noteq> []"
  by (induction s) (auto split: list.splits)

lemma split_on_no_sep: "p \<in> set (split_on c s) \<Longrightarrow> c \<notin> set p"
  by (induction s arbitrary: p) (auto split: list.splits if_splits)

lemma join_split_on [simp]: "join [c] (split_on c s) = s"
proof (induction s)
  case Nil then show ?case by simp
next
  case (Cons x xs)
  obtain y ys where y: "split_on c xs = y # ys"
    using split_on_not_Nil by (cases "split_on c xs") auto
  show ?case
  proof (cases ys)
    case Nil then show ?thesis using Cons y by auto
  next
    case Cons2: (Cons z zs)
    then show ?thesis using Cons y by auto
  qed
qed

lemma split_on_append:
  "c \<notin> set p \<Longrightarrow> split_on c (p @ c # s) = p # split_on c s"
  by (induction p) auto

lemma split_on_app_sep: "split_on c (s @ c # t) = split_on c s @ split_on c t"
proof (induction s)
  case Nil then show ?case by simp
next
  case (Cons x s)
  obtain y ys where "split_on c s = y # ys"
    using split_on_not_Nil by (cases "split_on c s") auto
  then show ?case using Cons by simp
qed

lemma split_on_single: "c \<notin> set p \<Longrightarrow> split_on c p = [p]"
  by (induction p) auto

lemma split_on_join:
  "ss \<noteq> [] \<Longrightarrow> \<forall>s \<in> set ss. c \<notin> set s \<Longrightarrow> split_on c (join [c] ss) = ss"
proof (induction ss rule: induct_list012)
  case (3 x y zs)
  then have "split_on c (join [c] (y # zs)) = y # zs" by simp
  with 3 show ?case by (simp add: split_on_append)
qed (auto simp: split_on_single)

lemma set_split_on: "p \<in> set (split_on c s) \<Longrightarrow> set p \<subseteq> set s"
  by (induction s arbitrary: p) (fastforce split: list.splits if_splits)+

lemma set_join: "set (join sep ss) \<subseteq> set sep \<union> (\<Union>s \<in> set ss. set s)"
  by (induction sep ss rule: join.induct) auto

lemma not_in_join: "\<forall>s \<in> set ss. c \<notin> set s \<Longrightarrow> c \<notin> set sep \<Longrightarrow> c \<notin> set (join sep ss)"
  using set_join [of sep ss] by blast

lemma strip_prefix_None: "strip_prefix p s = None \<longleftrightarrow> (\<forall>t. s \<noteq> p @ t)"
  by (metis not_Some_eq strip_prefix_SomeD strip_prefix_append)

text \<open>\<open>str::split_once\<close> on a single byte.\<close>

fun split_once :: "char \<Rightarrow> string \<Rightarrow> (string \<times> string) option" where
  "split_once c [] = None"
| "split_once c (x # xs) =
     (if x = c then Some ([], xs) else map_option (\<lambda>(a, b). (x # a, b)) (split_once c xs))"

lemma split_once_Some: "split_once c s = Some (a, b) \<Longrightarrow> s = a @ c # b \<and> c \<notin> set a"
  by (induction s arbitrary: a b) (auto split: if_splits)

lemma split_once_None: "split_once c s = None \<longleftrightarrow> c \<notin> set s"
  by (induction s) auto

text \<open>\<open>split_whitespace\<close>: the runs of bytes between White_Space characters.\<close>

function ws_tokens :: "string \<Rightarrow> string \<Rightarrow> string list" where
  "ws_tokens cur [] = (if cur = [] then [] else [cur])"
| "ws_tokens cur (c # s) =
     (if ws_prefix (c # s) = 0 then ws_tokens (cur @ [c]) s
      else (if cur = [] then [] else [cur]) @ ws_tokens [] (drop (ws_prefix (c # s)) (c # s)))"
  by pat_completeness auto
termination
  by (relation "measure (\<lambda>(cur, s). length s)") auto

definition split_whitespace :: "string \<Rightarrow> string list" where
  "split_whitespace s = ws_tokens [] s"

subsection \<open>Line endings\<close>

text \<open>\<open>replace("\r\n", "\n")\<close> and \<open>replace('\r', "\n")\<close>, one after the other.\<close>

fun replace_crlf :: "string \<Rightarrow> string" where
  "replace_crlf [] = []"
| "replace_crlf [a] = [a]"
| "replace_crlf (a # b # s) =
     (if a = cr \<and> b = nl then nl # replace_crlf s else a # replace_crlf (b # s))"

definition replace_byte :: "char \<Rightarrow> string \<Rightarrow> string \<Rightarrow> string" where
  "replace_byte c r s = concat (map (\<lambda>x. if x = c then r else [x]) s)"

definition normalize_newlines :: "string \<Rightarrow> string" where
  "normalize_newlines s = replace_byte cr [nl] (replace_crlf s)"

fun has_crlf :: "string \<Rightarrow> bool" where
  "has_crlf [] = False"
| "has_crlf [a] = False"
| "has_crlf (a # b # s) = ((a = cr \<and> b = nl) \<or> has_crlf (b # s))"

lemma replace_byte_absent: "c \<notin> set s \<Longrightarrow> replace_byte c r s = s"
  by (induction s) (auto simp: replace_byte_def)

lemma set_replace_byte: "set (replace_byte c r s) \<subseteq> (set s - {c}) \<union> set r"
  by (auto simp: replace_byte_def split: if_splits)

lemma normalize_newlines_no_cr: "cr \<notin> set (normalize_newlines s)"
  using set_replace_byte [of cr "[nl]"] by (fastforce simp: normalize_newlines_def)

lemma replace_crlf_no_cr: "cr \<notin> set s \<Longrightarrow> replace_crlf s = s"
  by (induction s rule: replace_crlf.induct) auto

lemma normalize_newlines_id: "cr \<notin> set s \<Longrightarrow> normalize_newlines s = s"
  by (simp add: normalize_newlines_def replace_crlf_no_cr replace_byte_absent)

text \<open>\<open>split_inclusive('\n')\<close> with the line feed cut off each piece.\<close>

fun text_lines :: "string \<Rightarrow> string list" where
  "text_lines [] = []"
| "text_lines (x # xs) =
     (if x = nl then [] # text_lines xs
      else case text_lines xs of [] \<Rightarrow> [[x]] | y # ys \<Rightarrow> (x # y) # ys)"

lemma text_lines_no_nl: "l \<in> set (text_lines s) \<Longrightarrow> nl \<notin> set l"
  by (induction s arbitrary: l) (auto split: list.splits if_splits)

lemma text_lines_eq_Nil [simp]: "text_lines s = [] \<longleftrightarrow> s = []"
  by (cases s) (auto split: list.splits)

subsection \<open>Decimal numerals\<close>

definition digit_char :: "nat \<Rightarrow> char" where
  "digit_char d = char_of (48 + d)"

fun show_nat :: "nat \<Rightarrow> string" where
  "show_nat n = (if n < 10 then [digit_char n] else show_nat (n div 10) @ [digit_char (n mod 10)])"

declare show_nat.simps [simp del]

definition show_int :: "int \<Rightarrow> string" where
  "show_int i = (if i < 0 then CHR ''-'' # show_nat (nat (- i)) else show_nat (nat i))"

section \<open>Machine arithmetic\<close>

text \<open>
  \<open>u64\<close> and \<open>usize\<close> values are naturals; the saturating operations of \<open>u64\<close> stop at the
  largest value of the type.
\<close>

definition u64_max :: nat where
  "u64_max = 2 ^ 64 - 1"

definition sat_add :: "nat \<Rightarrow> nat \<Rightarrow> nat" where
  "sat_add a b = min (a + b) u64_max"

definition sat_mul :: "nat \<Rightarrow> nat \<Rightarrow> nat" where
  "sat_mul a b = min (a * b) u64_max"

lemma sat_add_le: "sat_add a b \<le> u64_max"
  by (simp add: sat_add_def)

lemma sat_mul_le: "sat_mul a b \<le> u64_max"
  by (simp add: sat_mul_def)

section \<open>Maps with ordered keys\<close>

text \<open>
  A \<open>BTreeMap\<close> is the association list of its entries in the order of its keys, which is the
  order its iterators visit; keys of type \<open>String\<close> are compared by their bytes.
\<close>

definition sorted_keys :: "('k::linorder \<times> 'v) list \<Rightarrow> bool" where
  "sorted_keys m \<longleftrightarrow> sorted_wrt (<) (map fst m)"

fun bt_insert :: "'k::linorder \<Rightarrow> 'v \<Rightarrow> ('k \<times> 'v) list \<Rightarrow> ('k \<times> 'v) list" where
  "bt_insert k v [] = [(k, v)]"
| "bt_insert k v ((k', v') # m) =
     (if k < k' then (k, v) # (k', v') # m
      else if k = k' then (k, v) # m else (k', v') # bt_insert k v m)"

fun bs_insert :: "'k::linorder \<Rightarrow> 'k list \<Rightarrow> 'k list" where
  "bs_insert k [] = [k]"
| "bs_insert k (x # xs) =
     (if k < x then k # x # xs else if k = x then x # xs else x # bs_insert k xs)"

lemma map_of_bt_insert [simp]: "map_of (bt_insert k v m) = (map_of m)(k \<mapsto> v)"
  by (induction k v m rule: bt_insert.induct) (auto simp: fun_eq_iff)

lemma keys_bt_insert: "set (map fst (bt_insert k v m)) = insert k (set (map fst m))"
  by (induction k v m rule: bt_insert.induct) auto

lemma sorted_bt_insert: "sorted_keys m \<Longrightarrow> sorted_keys (bt_insert k v m)"
proof (induction k v m rule: bt_insert.induct)
  case (2 k v k' v' m)
  then show ?case
    using keys_bt_insert [of k v m] by (fastforce simp: sorted_keys_def)
qed (simp add: sorted_keys_def)

lemma sorted_keys_distinct: "sorted_keys m \<Longrightarrow> distinct (map fst m)"
  by (simp add: sorted_keys_def strict_sorted_iff)

lemma set_bs_insert [simp]: "set (bs_insert k xs) = insert k (set xs)"
  by (induction xs) auto

lemma sorted_bs_insert: "sorted_wrt (<) xs \<Longrightarrow> sorted_wrt (<) (bs_insert k xs)"
  by (induction xs) auto

end
