(* ===== verification/Json.thy ===== *)
theory Json
  imports Prelude
begin

text \<open>
  JSON values as \<open>serde_json\<close> holds them in this program (no \<open>preserve_order\<close> and no
  \<open>arbitrary_precision\<close> feature in \<open>Cargo.lock\<close>). An object is a \<open>BTreeMap\<close>, so its entries
  are sorted by key without duplicates; that is the predicate \<open>wf_json\<close>, kept apart from the
  type. A number is a \<open>u64\<close>, a negative \<open>i64\<close> or a finite \<open>f64\<close>; the latter is the rational
  it denotes.

  The accessors are the ones the program calls. \<open>sort_json\<close> is the canonical form that
  \<open>crates/mtm-core/src/native_permission.rs\<close> hashes.
\<close>

datatype number = PosInt nat | NegInt int | Float rat

datatype json =
    JNull
  | JBool bool
  | JNumber number
  | JString string
  | JArray "json list"
  | JObject "(string \<times> json) list"

type_synonym object = "(string \<times> json) list"

definition f64_finite :: "rat \<Rightarrow> bool" where
  "f64_finite q \<longleftrightarrow> \<bar>q\<bar> < 2 ^ 1024"

fun wf_number :: "number \<Rightarrow> bool" where
  "wf_number (PosInt n) = (n < 2 ^ 64)"
| "wf_number (NegInt i) = (- (2 ^ 63) \<le> i \<and> i < 0)"
| "wf_number (Float q) = f64_finite q"

fun wf_json :: "json \<Rightarrow> bool" where
  "wf_json (JNumber n) = wf_number n"
| "wf_json (JArray xs) = list_all wf_json xs"
| "wf_json (JObject kvs) =
     (sorted_keys kvs \<and> list_all (\<lambda>kv. wf_json (snd kv)) kvs)"
| "wf_json _ = True"

section \<open>Accessors\<close>

abbreviation obj_get :: "object \<Rightarrow> string \<Rightarrow> json option" where
  "obj_get obj k \<equiv> map_of obj k"

definition contains_key :: "object \<Rightarrow> string \<Rightarrow> bool" where
  "contains_key obj k \<longleftrightarrow> map_of obj k \<noteq> None"

fun as_object :: "json \<Rightarrow> object option" where
  "as_object (JObject kvs) = Some kvs"
| "as_object _ = None"

fun as_array :: "json \<Rightarrow> json list option" where
  "as_array (JArray xs) = Some xs"
| "as_array _ = None"

fun as_str :: "json \<Rightarrow> string option" where
  "as_str (JString s) = Some s"
| "as_str _ = None"

fun as_number :: "json \<Rightarrow> number option" where
  "as_number (JNumber n) = Some n"
| "as_number _ = None"

fun number_as_u64 :: "number \<Rightarrow> nat option" where
  "number_as_u64 (PosInt n) = Some n"
| "number_as_u64 _ = None"

fun number_as_i64 :: "number \<Rightarrow> int option" where
  "number_as_i64 (PosInt n) = (if n < 2 ^ 63 then Some (int n) else None)"
| "number_as_i64 (NegInt i) = Some i"
| "number_as_i64 (Float _) = None"

fun as_u64 :: "json \<Rightarrow> nat option" where
  "as_u64 (JNumber n) = number_as_u64 n"
| "as_u64 _ = None"

fun as_i64 :: "json \<Rightarrow> int option" where
  "as_i64 (JNumber n) = number_as_i64 n"
| "as_i64 _ = None"

text \<open>\<open>Value::get\<close> answers \<open>None\<close> for a value that is no object.\<close>

fun json_get :: "json \<Rightarrow> string \<Rightarrow> json option" where
  "json_get (JObject obj) k = obj_get obj k"
| "json_get _ k = None"

definition is_object :: "json \<Rightarrow> bool" where
  "is_object v \<longleftrightarrow> as_object v \<noteq> None"

lemma as_object_eq_Some [simp]: "as_object v = Some kvs \<longleftrightarrow> v = JObject kvs"
  by (cases v) auto

lemma as_array_eq_Some [simp]: "as_array v = Some xs \<longleftrightarrow> v = JArray xs"
  by (cases v) auto

lemma as_str_eq_Some [simp]: "as_str v = Some s \<longleftrightarrow> v = JString s"
  by (cases v) auto

lemma as_number_eq_Some [simp]: "as_number v = Some n \<longleftrightarrow> v = JNumber n"
  by (cases v) auto

lemma number_as_u64_eq_Some [simp]: "number_as_u64 m = Some n \<longleftrightarrow> m = PosInt n"
  by (cases m) auto

lemma as_u64_eq_Some [simp]: "as_u64 v = Some n \<longleftrightarrow> v = JNumber (PosInt n)"
  by (cases v) auto

lemma is_object_iff: "is_object v \<longleftrightarrow> (\<exists>kvs. v = JObject kvs)"
  by (cases v) (auto simp: is_object_def)

text \<open>The value of an entry of an object is smaller than the object: every recursive
  function over JSON that goes through a lookup terminates by this.\<close>

lemma size_obj_get [termination_simp]: "map_of kvs k = Some v \<Longrightarrow> size v < size (JObject kvs)"
proof -
  assume "map_of kvs k = Some v"
  then have "(k, v) \<in> set kvs" by (rule map_of_SomeD)
  then have "size_prod (\<lambda>_. 0) size (k, v) \<le> size_list (size_prod (\<lambda>_. 0) size) kvs"
    by (intro size_list_estimation') auto
  then show ?thesis by simp
qed

lemma size_array_member: "v \<in> set xs \<Longrightarrow> size v < size (JArray xs)"
proof -
  assume "v \<in> set xs"
  then have "size v \<le> size_list size xs" by (intro size_list_estimation') auto
  then show ?thesis by simp
qed

section \<open>Canonical order of keys\<close>

text \<open>\<open>collect::<BTreeMap>\<close>: later entries replace earlier ones with the same key.\<close>

definition bt_collect :: "('k::linorder \<times> 'v) list \<Rightarrow> ('k \<times> 'v) list" where
  "bt_collect kvs = fold (\<lambda>(k, v) m. bt_insert k v m) kvs []"

fun sort_json :: "json \<Rightarrow> json" where
  "sort_json (JObject kvs) = JObject (bt_collect (map (\<lambda>(k, v). (k, sort_json v)) kvs))"
| "sort_json (JArray xs) = JArray (map sort_json xs)"
| "sort_json v = v"

lemma sorted_bt_fold:
  "sorted_keys m \<Longrightarrow> sorted_keys (fold (\<lambda>(k, v) m. bt_insert k v m) kvs m)"
  by (induction kvs arbitrary: m) (auto simp: sorted_bt_insert)

lemma sorted_bt_collect: "sorted_keys (bt_collect kvs)"
  unfolding bt_collect_def by (rule sorted_bt_fold) (simp add: sorted_keys_def)

lemma map_of_bt_fold:
  "map_of (fold (\<lambda>(k, v) m. bt_insert k v m) kvs m) = map_of m ++ map_of (rev kvs)"
  by (induction kvs arbitrary: m) (auto simp: fun_eq_iff map_add_def split: option.splits)

lemma map_of_bt_collect: "map_of (bt_collect kvs) = map_of (rev kvs)"
  by (simp add: bt_collect_def map_of_bt_fold)

lemma keys_sorted_eq:
  assumes "sorted_keys m" "sorted_keys (m' :: ('k::linorder \<times> 'v) list)" "map_of m = map_of m'"
  shows "m = m'"
proof -
  have d: "distinct (map fst m)" "distinct (map fst m')"
    using assms by (simp_all add: sorted_keys_distinct)
  have mem: "x \<in> set m \<longleftrightarrow> x \<in> set m'" for x
    using map_of_eq_Some_iff [OF d(1), of "fst x" "snd x"]
      map_of_eq_Some_iff [OF d(2), of "fst x" "snd x"] assms(3) by simp
  then have eq: "set m = set m'" by blast
  have "inj_on fst (set m \<union> set m')" using d(1) eq by (simp add: distinct_map)
  then show ?thesis
    using assms(1,2) eq unfolding sorted_keys_def strict_sorted_iff
    by (intro map_sorted_distinct_set_unique [of fst]) auto
qed

lemma bt_insert_last: "\<forall>k' \<in> set (map fst m). k' < k \<Longrightarrow> bt_insert k v m = m @ [(k, v)]"
  by (induction m) (auto simp: order.strict_implies_not_eq less_not_sym)

lemma bt_fold_sorted:
  "sorted_keys (m @ kvs) \<Longrightarrow> fold (\<lambda>(k, v) m. bt_insert k v m) kvs m = m @ kvs"
proof (induction kvs arbitrary: m)
  case Nil then show ?case by simp
next
  case (Cons kv kvs)
  obtain k v where kv: "kv = (k, v)" by (cases kv)
  have "\<forall>k' \<in> set (map fst m). k' < k"
    using Cons.prems by (auto simp: sorted_keys_def sorted_wrt_append kv)
  then have "bt_insert k v m = m @ [(k, v)]" by (rule bt_insert_last)
  moreover have "sorted_keys ((m @ [(k, v)]) @ kvs)" using Cons.prems by (simp add: kv)
  ultimately show ?case using Cons.IH [of "m @ [(k, v)]"] by (simp add: kv)
qed

lemma bt_collect_sorted: "sorted_keys kvs \<Longrightarrow> bt_collect kvs = kvs"
  using bt_fold_sorted [of "[]" kvs] by (simp add: bt_collect_def)

lemma sort_json_wf: "wf_json v \<Longrightarrow> sort_json v = v"
proof (induction v rule: sort_json.induct)
  case (1 kvs)
  have "map (\<lambda>(k, v). (k, sort_json v)) kvs = kvs"
    using 1 by (intro map_idI) (auto simp: list_all_iff)
  with 1 show ?case by (simp add: bt_collect_sorted)
next
  case (2 xs)
  then show ?case by (simp add: list_all_iff map_idI)
qed simp_all

end
