(* ===== verification/Contracts.thy ===== *)
theory Contracts
  imports Json
begin

text \<open>
  The stable contract types of \<open>crates/mtm-contracts/src\<close>: the error value every fallible
  operation returns (\<open>error.rs\<close>), the enumerations with their wire names (\<open>enums.rs\<close>) and the
  contract snapshot (\<open>lib.rs\<close>).

  An enumeration whose names travel on the wire has a list of its values, a name for each and
  a parser of names. The locale \<open>wire_enum\<close> states that contract once; it is interpreted for
  every enumeration of the crate, which gives each its round trip.
\<close>

section \<open>Errors\<close>

datatype error_category =
  Validation | Permission | Security | Conflict | Runtime | NotFound | Internal

fun category_as_str :: "error_category \<Rightarrow> string" where
  "category_as_str Validation = ''validation''"
| "category_as_str Permission = ''permission''"
| "category_as_str Security = ''security''"
| "category_as_str Conflict = ''conflict''"
| "category_as_str Runtime = ''runtime''"
| "category_as_str NotFound = ''not_found''"
| "category_as_str Internal = ''internal''"

record re_ctm_error =
  code :: string
  message :: string
  category :: error_category
  retryable :: bool
  details :: object

type_synonym 'a result = "re_ctm_error + 'a"

definition error_new :: "string \<Rightarrow> string \<Rightarrow> re_ctm_error" where
  "error_new c m =
     \<lparr>code = c, message = m, category = Runtime, retryable = False, details = []\<rparr>"

definition with_category :: "error_category \<Rightarrow> re_ctm_error \<Rightarrow> re_ctm_error" where
  "with_category c e = e\<lparr>category := c\<rparr>"

definition with_retryable :: "bool \<Rightarrow> re_ctm_error \<Rightarrow> re_ctm_error" where
  "with_retryable b e = e\<lparr>retryable := b\<rparr>"

fun into_details_map :: "json \<Rightarrow> object" where
  "into_details_map (JObject m) = m"
| "into_details_map v = [(''value'', v)]"

definition with_details :: "json \<Rightarrow> re_ctm_error \<Rightarrow> re_ctm_error" where
  "with_details d e = e\<lparr>details := into_details_map d\<rparr>"

definition to_payload :: "re_ctm_error \<Rightarrow> json" where
  "to_payload e = JObject
     [(''category'', JString (category_as_str (category e))),
      (''code'', JString (code e)),
      (''details'', JObject (details e)),
      (''message'', JString (message e)),
      (''retryable'', JBool (retryable e))]"

definition error_display :: "re_ctm_error \<Rightarrow> string" where
  "error_display e = code e @ '': '' @ message e"

definition invalid_argument :: "string \<Rightarrow> re_ctm_error" where
  "invalid_argument m = with_category Validation (error_new ''INVALID_ARGUMENT'' m)"

definition permission_denied :: "string \<Rightarrow> re_ctm_error" where
  "permission_denied m = with_category Permission (error_new ''PERMISSION_DENIED'' m)"

named_theorems error_simps \<open>fields of the errors the program builds\<close>

lemma error_new_fields [error_simps]:
  "code (error_new c m) = c" "message (error_new c m) = m"
  "category (error_new c m) = Runtime" "retryable (error_new c m) = False"
  "details (error_new c m) = []"
  by (simp_all add: error_new_def)

lemma with_category_fields [error_simps]:
  "code (with_category k e) = code e" "message (with_category k e) = message e"
  "category (with_category k e) = k" "retryable (with_category k e) = retryable e"
  "details (with_category k e) = details e"
  by (simp_all add: with_category_def)

lemma with_retryable_fields [error_simps]:
  "code (with_retryable b e) = code e" "message (with_retryable b e) = message e"
  "category (with_retryable b e) = category e" "retryable (with_retryable b e) = b"
  "details (with_retryable b e) = details e"
  by (simp_all add: with_retryable_def)

lemma with_details_fields [error_simps]:
  "code (with_details d e) = code e" "message (with_details d e) = message e"
  "category (with_details d e) = category e" "retryable (with_details d e) = retryable e"
  "details (with_details d e) = into_details_map d"
  by (simp_all add: with_details_def)

lemma invalid_argument_fields [error_simps]:
  "code (invalid_argument m) = ''INVALID_ARGUMENT''" "message (invalid_argument m) = m"
  "category (invalid_argument m) = Validation" "retryable (invalid_argument m) = False"
  by (simp_all add: invalid_argument_def error_simps)

section \<open>Enumerations on the wire\<close>

locale wire_enum =
  fixes all_values :: "'a list"
    and name_of :: "'a \<Rightarrow> string"
    and parse_name :: "string \<Rightarrow> 'a option"
  assumes names_distinct: "distinct (map name_of all_values)"
    and exhaustive: "x \<in> set all_values"
    and parse_find: "parse_name s = find (\<lambda>x. name_of x = s) all_values"
begin

lemma name_inj: "name_of x = name_of y \<longleftrightarrow> x = y"
  using names_distinct exhaustive by (metis distinct_map inj_onD)

lemma parse_sound: "parse_name s = Some x \<Longrightarrow> name_of x = s"
  by (auto simp: parse_find find_Some_iff)

lemma parse_name_of [simp]: "parse_name (name_of x) = Some x"
proof (cases "parse_name (name_of x)")
  case None
  then show ?thesis using exhaustive [of x] by (auto simp: parse_find find_None_iff)
next
  case (Some y)
  then show ?thesis using parse_sound name_inj by metis
qed

lemma parse_iff: "parse_name s = Some x \<longleftrightarrow> name_of x = s"
  using parse_sound parse_name_of by metis

lemma parse_None: "parse_name s = None \<longleftrightarrow> s \<notin> range name_of"
  by (metis option.exhaust option.distinct(1) parse_iff rangeE rangeI)

end

datatype native_permission_kind =
    Network | DestructiveCommand | LongTimeout | SensitiveEnv | ShellExpansion
  | InlineScriptKind | PrivilegedExecutable | WriteGeneratedOrIgnored

definition kind_all :: "native_permission_kind list" where
  "kind_all = [Network, DestructiveCommand, LongTimeout, SensitiveEnv, ShellExpansion,
     InlineScriptKind, PrivilegedExecutable, WriteGeneratedOrIgnored]"

fun kind_as_str :: "native_permission_kind \<Rightarrow> string" where
  "kind_as_str Network = ''network''"
| "kind_as_str DestructiveCommand = ''destructive_command''"
| "kind_as_str LongTimeout = ''long_timeout''"
| "kind_as_str SensitiveEnv = ''sensitive_env''"
| "kind_as_str ShellExpansion = ''shell_expansion''"
| "kind_as_str InlineScriptKind = ''inline_script''"
| "kind_as_str PrivilegedExecutable = ''privileged_executable''"
| "kind_as_str WriteGeneratedOrIgnored = ''write_generated_or_ignored''"

definition kind_from_wire :: "string \<Rightarrow> native_permission_kind option" where
  "kind_from_wire s = find (\<lambda>k. kind_as_str k = s) kind_all"

datatype native_permission_scope = Once | Session

definition scope_all :: "native_permission_scope list" where
  "scope_all = [Once, Session]"

fun scope_as_str :: "native_permission_scope \<Rightarrow> string" where
  "scope_as_str Once = ''once''"
| "scope_as_str Session = ''session''"

definition scope_from_wire :: "string \<Rightarrow> native_permission_scope option" where
  "scope_from_wire s = find (\<lambda>k. scope_as_str k = s) scope_all"

datatype native_permission_tool = ExecCommand | ApplyPatch

definition tool_all :: "native_permission_tool list" where
  "tool_all = [ExecCommand, ApplyPatch]"

fun tool_as_str :: "native_permission_tool \<Rightarrow> string" where
  "tool_as_str ExecCommand = ''exec_command''"
| "tool_as_str ApplyPatch = ''apply_patch''"

definition tool_from_wire :: "string \<Rightarrow> native_permission_tool option" where
  "tool_from_wire s = find (\<lambda>k. tool_as_str k = s) tool_all"

datatype workflow_role =
  RoleGenerator | RoleBranch | RoleJoin | RoleAssembler | RoleVerifier | RoleRepair | RoleFinalizer

fun role_as_str :: "workflow_role \<Rightarrow> string" where
  "role_as_str RoleGenerator = ''generator''"
| "role_as_str RoleBranch = ''branch''"
| "role_as_str RoleJoin = ''join''"
| "role_as_str RoleAssembler = ''assembler''"
| "role_as_str RoleVerifier = ''verifier''"
| "role_as_str RoleRepair = ''repair''"
| "role_as_str RoleFinalizer = ''finalizer''"

datatype workflow_state =
    Created | Assess | Explore | ProposePlans | DirectProving | BranchPrepare | BranchRun
  | BranchJoin | IdentifyFailures | Replan | Assemble | LatexValidate | Verify | Repair
  | Finalize | Done | Cancelled | Failed

fun state_as_str :: "workflow_state \<Rightarrow> string" where
  "state_as_str Created = ''created''"
| "state_as_str Assess = ''assess''"
| "state_as_str Explore = ''explore''"
| "state_as_str ProposePlans = ''propose_plans''"
| "state_as_str DirectProving = ''direct_proving''"
| "state_as_str BranchPrepare = ''branch_prepare''"
| "state_as_str BranchRun = ''branch_run''"
| "state_as_str BranchJoin = ''branch_join''"
| "state_as_str IdentifyFailures = ''identify_failures''"
| "state_as_str Replan = ''replan''"
| "state_as_str Assemble = ''assemble''"
| "state_as_str LatexValidate = ''latex_validate''"
| "state_as_str Verify = ''verify''"
| "state_as_str Repair = ''repair''"
| "state_as_str Finalize = ''finalize''"
| "state_as_str Done = ''done''"
| "state_as_str Cancelled = ''cancelled''"
| "state_as_str Failed = ''failed''"

definition terminal :: "workflow_state \<Rightarrow> bool" where
  "terminal s \<longleftrightarrow> s = Done \<or> s = Cancelled \<or> s = Failed"

text \<open>The derived \<open>Deserialize\<close> accepts exactly the snake case names.\<close>

definition state_all :: "workflow_state list" where
  "state_all = [Created, Assess, Explore, ProposePlans, DirectProving, BranchPrepare, BranchRun,
     BranchJoin, IdentifyFailures, Replan, Assemble, LatexValidate, Verify, Repair, Finalize,
     Done, Cancelled, Failed]"

definition state_from_wire :: "string \<Rightarrow> workflow_state option" where
  "state_from_wire s = find (\<lambda>k. state_as_str k = s) state_all"

definition role_all :: "workflow_role list" where
  "role_all = [RoleGenerator, RoleBranch, RoleJoin, RoleAssembler, RoleVerifier, RoleRepair,
     RoleFinalizer]"

definition role_from_wire :: "string \<Rightarrow> workflow_role option" where
  "role_from_wire s = find (\<lambda>k. role_as_str k = s) role_all"

datatype domain_status = DomainOpen | DomainSealed | DomainCancelled

fun domain_as_str :: "domain_status \<Rightarrow> string" where
  "domain_as_str DomainOpen = ''open''"
| "domain_as_str DomainSealed = ''sealed''"
| "domain_as_str DomainCancelled = ''cancelled''"

definition domain_all :: "domain_status list" where
  "domain_all = [DomainOpen, DomainSealed, DomainCancelled]"

definition domain_from_wire :: "string \<Rightarrow> domain_status option" where
  "domain_from_wire s = find (\<lambda>k. domain_as_str k = s) domain_all"

datatype latex_policy = StaticOnly | IfAvailable | Required

fun latex_as_str :: "latex_policy \<Rightarrow> string" where
  "latex_as_str StaticOnly = ''static_only''"
| "latex_as_str IfAvailable = ''if_available''"
| "latex_as_str Required = ''required''"

definition latex_all :: "latex_policy list" where
  "latex_all = [StaticOnly, IfAvailable, Required]"

definition latex_from_wire :: "string \<Rightarrow> latex_policy option" where
  "latex_from_wire s = find (\<lambda>k. latex_as_str k = s) latex_all"

interpretation kind: wire_enum kind_all kind_as_str kind_from_wire
proof (unfold_locales, goal_cases)
  case (2 x) show ?case by (cases x) (simp_all add: kind_all_def)
qed (simp_all add: kind_all_def kind_from_wire_def)

interpretation scope: wire_enum scope_all scope_as_str scope_from_wire
proof (unfold_locales, goal_cases)
  case (2 x) show ?case by (cases x) (simp_all add: scope_all_def)
qed (simp_all add: scope_all_def scope_from_wire_def)

interpretation tool: wire_enum tool_all tool_as_str tool_from_wire
proof (unfold_locales, goal_cases)
  case (2 x) show ?case by (cases x) (simp_all add: tool_all_def)
qed (simp_all add: tool_all_def tool_from_wire_def)

interpretation state: wire_enum state_all state_as_str state_from_wire
proof (unfold_locales, goal_cases)
  case (2 x) show ?case by (cases x) (simp_all add: state_all_def)
qed (simp_all add: state_all_def state_from_wire_def)

interpretation role: wire_enum role_all role_as_str role_from_wire
proof (unfold_locales, goal_cases)
  case (2 x) show ?case by (cases x) (simp_all add: role_all_def)
qed (simp_all add: role_all_def role_from_wire_def)

interpretation domain: wire_enum domain_all domain_as_str domain_from_wire
proof (unfold_locales, goal_cases)
  case (2 x) show ?case by (cases x) (simp_all add: domain_all_def)
qed (simp_all add: domain_all_def domain_from_wire_def)

interpretation latex: wire_enum latex_all latex_as_str latex_from_wire
proof (unfold_locales, goal_cases)
  case (2 x) show ?case by (cases x) (simp_all add: latex_all_def)
qed (simp_all add: latex_all_def latex_from_wire_def)

text \<open>The derived order of permission kinds is the order of declaration.\<close>

fun kind_index :: "native_permission_kind \<Rightarrow> nat" where
  "kind_index Network = 0"
| "kind_index DestructiveCommand = 1"
| "kind_index LongTimeout = 2"
| "kind_index SensitiveEnv = 3"
| "kind_index ShellExpansion = 4"
| "kind_index InlineScriptKind = 5"
| "kind_index PrivilegedExecutable = 6"
| "kind_index WriteGeneratedOrIgnored = 7"

lemma kind_index_inj: "kind_index x = kind_index y \<Longrightarrow> x = y"
  by (cases x; cases y) simp_all

instantiation native_permission_kind :: linorder
begin

definition less_eq_native_permission_kind where
  "x \<le> y \<longleftrightarrow> kind_index x \<le> kind_index y"

definition less_native_permission_kind where
  "x < y \<longleftrightarrow> kind_index x < kind_index y"

instance
  by standard
     (auto simp: less_eq_native_permission_kind_def less_native_permission_kind_def
        intro: kind_index_inj)

end

section \<open>Native mode\<close>

datatype native_mode = Dangerous

definition retired_modes :: "string list" where
  "retired_modes = [''safe'', ''trusted'']"

fun mode_as_str :: "native_mode \<Rightarrow> string" where
  "mode_as_str Dangerous = ''dangerous''"

definition mode_parse :: "string \<Rightarrow> string + native_mode" where
  "mode_parse value =
     (if value = ''dangerous'' then Inr Dangerous
      else if value \<in> set retired_modes
      then Inl (''Native mode '' @ [squote] @ value @ [squote] @
                '' was removed in MTM-017; only '' @ [squote] @ ''dangerous'' @ [squote] @
                '' is supported.'')
      else Inl (''Native mode must be '' @ [squote] @ ''dangerous'' @ [squote] @ ''.''))"

lemma mode_parse_Inr: "mode_parse v = Inr m \<longleftrightarrow> v = ''dangerous''"
  by (cases m) (simp add: mode_parse_def)

section \<open>Contract snapshot\<close>

datatype runtime_authority = Python | RustShadow | Rust | Retired

fun authority_as_str :: "runtime_authority \<Rightarrow> string" where
  "authority_as_str Python = ''python''"
| "authority_as_str RustShadow = ''rust-shadow''"
| "authority_as_str Rust = ''rust''"
| "authority_as_str Retired = ''retired''"

record contract_snapshot =
  native_tools :: nat
  rethlas_tools :: nat
  hidden_aliases :: nat
  state_schema :: nat
  workflow_protocol :: nat
  authority :: runtime_authority

definition contract_current :: contract_snapshot where
  "contract_current = \<lparr>native_tools = 19, rethlas_tools = 6, hidden_aliases = 0,
     state_schema = 8, workflow_protocol = 3, authority = Rust\<rparr>"

definition contract_source_baseline :: contract_snapshot where
  "contract_source_baseline = \<lparr>native_tools = 18, rethlas_tools = 6, hidden_aliases = 11,
     state_schema = 2, workflow_protocol = 2, authority = Python\<rparr>"

definition quoted :: "string \<Rightarrow> string" where
  "quoted s = dquote # s @ [dquote]"

definition contract_to_json :: "contract_snapshot \<Rightarrow> string" where
  "contract_to_json c =
     ''{'' @ quoted ''schema_version'' @ '':'' @ quoted ''1.0.0'' @ '','' @
     quoted ''native_tools'' @ '':'' @ show_nat (native_tools c) @ '','' @
     quoted ''rethlas_tools'' @ '':'' @ show_nat (rethlas_tools c) @ '','' @
     quoted ''public_tools'' @ '':'' @ show_nat (native_tools c + rethlas_tools c) @ '','' @
     quoted ''hidden_aliases'' @ '':'' @ show_nat (hidden_aliases c) @ '','' @
     quoted ''state_schema'' @ '':'' @ show_nat (state_schema c) @ '','' @
     quoted ''workflow_protocol'' @ '':'' @ show_nat (workflow_protocol c) @ '','' @
     quoted ''authority'' @ '':'' @ quoted (authority_as_str (authority c)) @ ''}''"

end
