(* ===== verification/Path_Policy.thy ===== *)
theory Path_Policy
  imports Contracts
begin

text \<open>
  \<open>crates/mtm-core/src/path_policy.rs\<close>: the lexical check every path a client names passes
  before the runtime touches the file system.

  The specification of the check is \<open>walk\<close>: what following the components of a path from a
  directory does, with \<open>..\<close> going up. A path the check accepts is walked without ever going
  up, and its normal form leads to the same place.
\<close>

section \<open>The check\<close>

definition msg_empty_path :: string where
  "msg_empty_path = ''Path must be a non-empty string.''"

definition msg_nul_path :: string where
  "msg_nul_path = ''Path contains a NUL byte.''"

definition absolute_path_denied :: re_ctm_error where
  "absolute_path_denied =
     with_category Security (error_new ''ABSOLUTE_PATH_DENIED'' ''Absolute paths are denied.'')"

definition path_outside_workspace :: re_ctm_error where
  "path_outside_workspace = with_category Security
     (error_new ''PATH_OUTSIDE_WORKSPACE'' ''Path escapes the native workspace.'')"

fun has_windows_drive_prefix :: "string \<Rightarrow> bool" where
  "has_windows_drive_prefix (a # b # c # _) =
     (is_ascii_alphabetic a \<and> b = CHR '':'' \<and> (c = CHR ''/'' \<or> c = backslash))"
| "has_windows_drive_prefix _ = False"

fun collect_components :: "string list \<Rightarrow> string list \<Rightarrow> string list result" where
  "collect_components acc [] = Inr acc"
| "collect_components acc (c # cs) =
     (if c = ''..'' then Inl path_outside_workspace
      else if c = [] \<or> c = ''.'' then collect_components acc cs
      else collect_components (acc @ [c]) cs)"

definition validate_workspace_path :: "string \<Rightarrow> string result" where
  "validate_workspace_path raw =
     (if raw = [] then Inl (invalid_argument msg_empty_path)
      else if nul \<in> set raw then Inl (invalid_argument msg_nul_path)
      else if starts_with ''/'' raw \<or> has_windows_drive_prefix raw
      then Inl absolute_path_denied
      else bind_r (collect_components [] (split_on (CHR ''/'') raw))
        (\<lambda>cs. Inr (if cs = [] then ''.'' else join ''/'' cs)))"

section \<open>Walking a path\<close>

text \<open>\<open>None\<close>: the walk went above the directory it started in.\<close>

fun walk :: "string list \<Rightarrow> string list \<Rightarrow> string list option" where
  "walk here [] = Some here"
| "walk here (c # cs) =
     (if c = ''..'' then (if here = [] then None else walk (butlast here) cs)
      else if c = [] \<or> c = ''.'' then walk here cs
      else walk (here @ [c]) cs)"

definition plain :: "string \<Rightarrow> bool" where
  "plain c \<longleftrightarrow> c \<noteq> [] \<and> c \<noteq> ''.'' \<and> c \<noteq> ''..''"

lemma plain_special [simp]: "\<not> plain ''.''" "\<not> plain ''..''" "\<not> plain []"
  by (simp_all add: plain_def)

definition resolves_to :: "string \<Rightarrow> string list \<Rightarrow> bool" where
  "resolves_to p cs \<longleftrightarrow> walk [] (split_on (CHR ''/'') p) = Some cs"

lemma collect_components_Inr:
  "collect_components acc cs = Inr r \<longleftrightarrow>
     ''..'' \<notin> set cs \<and> r = acc @ filter plain cs"
  by (induction acc cs rule: collect_components.induct) (auto simp: plain_def)

lemma collect_components_Inl:
  "collect_components acc cs = Inl e \<longleftrightarrow> ''..'' \<in> set cs \<and> e = path_outside_workspace"
  by (induction acc cs rule: collect_components.induct) auto

lemma walk_without_parent:
  "''..'' \<notin> set cs \<Longrightarrow> walk here cs = Some (here @ filter plain cs)"
  by (induction here cs rule: walk.induct) (auto simp: plain_def)

lemma split_join_components:
  assumes "cs \<noteq> []" "\<forall>c \<in> set cs. CHR ''/'' \<notin> set c"
  shows "split_on (CHR ''/'') (join ''/'' cs) = cs"
  using split_on_join [OF assms(1), of "CHR ''/''"] assms(2) by simp

text \<open>The normal form of an accepted path and where it comes from.\<close>

lemma validate_workspace_path_InrD:
  assumes "validate_workspace_path raw = Inr p"
  defines "cs \<equiv> filter plain (split_on (CHR ''/'') raw)"
  shows "''..'' \<notin> set (split_on (CHR ''/'') raw)"
    and "p = (if cs = [] then ''.'' else join ''/'' cs)"
    and "raw \<noteq> []" "nul \<notin> set raw" "\<not> starts_with ''/'' raw" "\<not> has_windows_drive_prefix raw"
  using assms by (auto simp: validate_workspace_path_def bind_r_eq_Inr collect_components_Inr
      split: if_splits)

lemma split_normal_form:
  assumes "validate_workspace_path raw = Inr p"
  shows "split_on (CHR ''/'') p = (if filter plain (split_on (CHR ''/'') raw) = [] then [''.'']
    else filter plain (split_on (CHR ''/'') raw))"
proof -
  let ?cs = "filter plain (split_on (CHR ''/'') raw)"
  have "\<forall>c \<in> set ?cs. CHR ''/'' \<notin> set c" using split_on_no_sep by auto
  then have "?cs \<noteq> [] \<Longrightarrow> split_on (CHR ''/'') (join ''/'' ?cs) = ?cs"
    using split_join_components by blast
  then show ?thesis using validate_workspace_path_InrD(2) [OF assms]
    by (cases "?cs = []") (simp_all add: split_on_single)
qed

lemma filter_plain_normal_form:
  assumes "validate_workspace_path raw = Inr p"
  shows "filter plain (split_on (CHR ''/'') p) = filter plain (split_on (CHR ''/'') raw)"
  by (simp add: split_normal_form [OF assms])

lemma join_components_head:
  assumes "cs \<noteq> []" "\<forall>c \<in> set cs. c \<noteq> [] \<and> CHR ''/'' \<notin> set c"
  shows "\<not> starts_with ''/'' (join ''/'' cs)" "join ''/'' cs \<noteq> []"
proof -
  obtain c cs' where c: "cs = c # cs'" using assms(1) by (cases cs) auto
  then obtain x xs where x: "c = x # xs" "x \<noteq> CHR ''/''"
    using assms(2) by (cases c) auto
  have "\<exists>ys. join ''/'' cs = x # ys" using c x by (cases cs') auto
  then show "\<not> starts_with ''/'' (join ''/'' cs)" "join ''/'' cs \<noteq> []"
    using x(2) by (auto simp: starts_with_def)
qed

lemma nul_free_normal_form:
  assumes "validate_workspace_path raw = Inr p"
  shows "nul \<notin> set p"
proof -
  let ?cs = "filter plain (split_on (CHR ''/'') raw)"
  have "nul \<notin> set c" if "c \<in> set ?cs" for c
    using that set_split_on [of c "CHR ''/''" raw] validate_workspace_path_InrD(4) [OF assms] by auto
  then have "nul \<notin> set (join ''/'' ?cs)" using set_join [of "''/''" ?cs] by fastforce
  then show ?thesis using validate_workspace_path_InrD(2) [OF assms] by (auto split: if_splits)
qed

lemma relative_normal_form:
  assumes "validate_workspace_path raw = Inr p"
  shows "\<not> starts_with ''/'' p" "p \<noteq> []"
proof -
  let ?cs = "filter plain (split_on (CHR ''/'') raw)"
  have "\<forall>c \<in> set ?cs. c \<noteq> [] \<and> CHR ''/'' \<notin> set c"
    using split_on_no_sep by (auto simp: plain_def)
  then have "?cs \<noteq> [] \<Longrightarrow> \<not> starts_with ''/'' (join ''/'' ?cs) \<and> join ''/'' ?cs \<noteq> []"
    using join_components_head [of ?cs] by blast
  then show "\<not> starts_with ''/'' p" "p \<noteq> []"
    using validate_workspace_path_InrD(2) [OF assms]
    by (auto simp: starts_with_def split: if_splits)
qed

lemma no_parent_normal_form:
  assumes "validate_workspace_path raw = Inr p"
  shows "''..'' \<notin> set (split_on (CHR ''/'') p)"
  by (auto simp: split_normal_form [OF assms])

text \<open>
  C1. An accepted path is confined: following its components from the workspace root never
  leaves the workspace, the normal form that is returned leads to the same directory entry as
  the path the client wrote, and it is relative, non-empty, free of NUL and made of plain
  components only (or is the single dot).
\<close>

theorem accepted_path_is_confined:
  assumes "validate_workspace_path raw = Inr p"
  shows "\<exists>cs. resolves_to raw cs \<and> resolves_to p cs \<and> list_all plain cs \<and>
    p = (if cs = [] then ''.'' else join ''/'' cs) \<and>
    \<not> starts_with ''/'' p \<and> nul \<notin> set p"
proof -
  let ?cs = "filter plain (split_on (CHR ''/'') raw)"
  have "resolves_to raw ?cs"
    using validate_workspace_path_InrD(1) [OF assms]
    by (simp add: resolves_to_def walk_without_parent)
  moreover have "resolves_to p ?cs"
    using no_parent_normal_form [OF assms] filter_plain_normal_form [OF assms]
    by (simp add: resolves_to_def walk_without_parent)
  moreover have "list_all plain ?cs" by (simp add: list_all_iff)
  moreover note validate_workspace_path_InrD(2) [OF assms] relative_normal_form(1) [OF assms]
    nul_free_normal_form [OF assms]
  ultimately show ?thesis by blast
qed

theorem accepted_path_is_confined_witness:
  "\<exists>cs. resolves_to ''./a//b/'' cs \<and> resolves_to ''a/b'' cs \<and> list_all plain cs \<and>
    ''a/b'' = (if cs = [] then ''.'' else join ''/'' cs) \<and>
    \<not> starts_with ''/'' ''a/b'' \<and> nul \<notin> set ''a/b''"
  by (rule accepted_path_is_confined)
     (simp add: validate_workspace_path_def starts_with_def bind_r_def)

text \<open>
  The check is exact: it fails for precisely four reasons, tested in this order, and each
  has its own error; every other path is accepted.
\<close>

theorem path_check_outcomes:
  "validate_workspace_path raw =
     (if raw = [] then Inl (invalid_argument msg_empty_path)
      else if nul \<in> set raw then Inl (invalid_argument msg_nul_path)
      else if starts_with ''/'' raw \<or> has_windows_drive_prefix raw then Inl absolute_path_denied
      else if ''..'' \<in> set (split_on (CHR ''/'') raw) then Inl path_outside_workspace
      else Inr (if filter plain (split_on (CHR ''/'') raw) = [] then ''.''
        else join ''/'' (filter plain (split_on (CHR ''/'') raw))))"
proof (cases "''..'' \<in> set (split_on (CHR ''/'') raw)")
  case True
  then have "collect_components [] (split_on (CHR ''/'') raw) = Inl path_outside_workspace"
    by (simp add: collect_components_Inl)
  then show ?thesis using True by (simp add: validate_workspace_path_def)
next
  case False
  then have "collect_components [] (split_on (CHR ''/'') raw)
      = Inr (filter plain (split_on (CHR ''/'') raw))"
    by (simp add: collect_components_Inr)
  then show ?thesis using False by (simp add: validate_workspace_path_def)
qed

text \<open>Normal forms are stable, unless a drive prefix came to the front of one.\<close>

lemma validate_normal_form:
  assumes "validate_workspace_path raw = Inr p" "\<not> has_windows_drive_prefix p"
  shows "validate_workspace_path p = Inr p"
proof -
  have "validate_workspace_path p =
     Inr (if filter plain (split_on (CHR ''/'') p) = [] then ''.''
       else join ''/'' (filter plain (split_on (CHR ''/'') p)))"
    using assms(2) relative_normal_form [OF assms(1)] nul_free_normal_form [OF assms(1)]
      no_parent_normal_form [OF assms(1)]
    by (simp add: path_check_outcomes)
  then show ?thesis
    unfolding filter_plain_normal_form [OF assms(1)]
    using validate_workspace_path_InrD(2) [OF assms(1)] by simp
qed

end
