(* ===== verification/Splice.thy ===== *)
theory Splice
  imports Prelude
begin

text \<open>
  Edits of a list of lines. Both patch engines of \<open>crates/mtm-core\<close> compute a list of
  placements \<open>(start, end, new)\<close> against the original lines and then call \<open>Vec::splice\<close> for
  each, last placement first. \<open>splice_all\<close> is that loop. \<open>weave\<close> is what it should amount to:
  one pass over the original that copies what lies between placements.

  The locale \<open>placement_engine\<close> is the contract between the search for placements and the
  loop: the placements are in order, do not overlap and lie inside the file. It gives the
  meaning of the edit, its length, and that no call of \<open>splice\<close> can panic.
\<close>

type_synonym placement = "nat \<times> nat \<times> string list"

definition splice :: "placement \<Rightarrow> string list \<Rightarrow> string list" where
  "splice p xs = (case p of (s, e, new) \<Rightarrow> take s xs @ new @ drop e xs)"

definition splice_all :: "placement list \<Rightarrow> string list \<Rightarrow> string list" where
  "splice_all ps xs = foldr splice ps xs"

fun weave :: "string list \<Rightarrow> nat \<Rightarrow> placement list \<Rightarrow> string list" where
  "weave xs pos [] = drop pos xs"
| "weave xs pos ((s, e, new) # ps) = take (s - pos) (drop pos xs) @ new @ weave xs e ps"

fun ordered_from :: "nat \<Rightarrow> nat \<Rightarrow> placement list \<Rightarrow> bool" where
  "ordered_from pos n [] = (pos \<le> n)"
| "ordered_from pos n ((s, e, new) # ps) = (pos \<le> s \<and> s \<le> e \<and> ordered_from e n ps)"

definition added_lines :: "placement list \<Rightarrow> nat" where
  "added_lines ps = sum_list (map (\<lambda>(s, e, new). length new) ps)"

definition removed_lines :: "placement list \<Rightarrow> nat" where
  "removed_lines ps = sum_list (map (\<lambda>(s, e, new). e - s) ps)"

lemma added_lines_simps [simp]:
  "added_lines [] = 0" "added_lines ((s, e, new) # ps) = length new + added_lines ps"
  "added_lines (ps @ qs) = added_lines ps + added_lines qs"
  by (simp_all add: added_lines_def)

lemma removed_lines_simps [simp]:
  "removed_lines [] = 0" "removed_lines ((s, e, new) # ps) = e - s + removed_lines ps"
  "removed_lines (ps @ qs) = removed_lines ps + removed_lines qs"
  by (simp_all add: removed_lines_def)

lemma ordered_from_le: "ordered_from pos n ps \<Longrightarrow> pos \<le> n"
  by (induction ps arbitrary: pos) force+

lemma ordered_from_weaken: "ordered_from pos n ps \<Longrightarrow> pos' \<le> pos \<Longrightarrow> ordered_from pos' n ps"
  by (cases ps) auto

lemma ordered_from_append:
  "ordered_from pos n (ps @ (s, e, new) # qs) \<longleftrightarrow>
     ordered_from pos s ps \<and> s \<le> e \<and> ordered_from e n qs"
  by (induction ps arbitrary: pos) auto

lemma ordered_from_snoc:
  "ordered_from pos m ps \<Longrightarrow> m \<le> s \<Longrightarrow> s \<le> e \<Longrightarrow> e \<le> n \<Longrightarrow>
     ordered_from pos n (ps @ [(s, e, new)])"
  by (induction ps arbitrary: pos) auto

lemma ordered_from_upper: "ordered_from pos n ps \<Longrightarrow> n \<le> n' \<Longrightarrow> ordered_from pos n' ps"
  by (induction ps arbitrary: pos) auto

lemma removed_le: "ordered_from pos n ps \<Longrightarrow> pos + removed_lines ps \<le> n"
  by (induction ps arbitrary: pos) force+

lemma take_splice_all:
  "ordered_from pos (length xs) ps \<Longrightarrow> splice_all ps xs = take pos xs @ weave xs pos ps"
proof (induction ps arbitrary: pos)
  case Nil
  then show ?case by (simp add: splice_all_def)
next
  case (Cons p ps)
  obtain s e new where p: "p = (s, e, new)" by (cases p)
  have le: "pos \<le> s" "s \<le> e" "ordered_from e (length xs) ps" using Cons.prems p by auto
  then have "e \<le> length xs" by (auto dest: ordered_from_le)
  have IH: "foldr splice ps xs = take e xs @ weave xs e ps"
    using Cons.IH [OF le(3)] by (simp add: splice_all_def)
  have "splice_all (p # ps) xs = take s xs @ new @ weave xs e ps"
    using le \<open>e \<le> length xs\<close> by (simp add: splice_all_def p IH splice_def min_def)
  also have "take s xs = take pos xs @ take (s - pos) (drop pos xs)"
    using le by (metis le_add_diff_inverse take_add)
  finally show ?case by (simp add: p)
qed

lemma splice_all_weave:
  "ordered_from 0 (length xs) ps \<Longrightarrow> splice_all ps xs = weave xs 0 ps"
  using take_splice_all [of 0 xs ps] by simp

lemma length_weave:
  "ordered_from pos (length xs) ps \<Longrightarrow>
     length (weave xs pos ps) + removed_lines ps = length xs - pos + added_lines ps"
proof (induction ps arbitrary: pos)
  case Nil then show ?case by simp
next
  case (Cons p ps)
  obtain s e new where p: "p = (s, e, new)" by (cases p)
  have le: "pos \<le> s" "s \<le> e" "ordered_from e (length xs) ps" using Cons.prems p by auto
  then have "e \<le> length xs" by (auto dest: ordered_from_le)
  with Cons.IH [OF le(3)] le show ?case by (simp add: p)
qed

lemma weave_append:
  "ordered_from pos s ps \<Longrightarrow> s \<le> e \<Longrightarrow> s \<le> length xs \<Longrightarrow>
     weave xs pos (ps @ (s, e, new) # qs) =
       weave (take s xs) pos ps @ new @ weave xs e qs"
proof (induction ps arbitrary: pos)
  case Nil
  then show ?case by (simp add: drop_take)
next
  case (Cons p ps)
  obtain s' e' new' where p: "p = (s', e', new')" by (cases p)
  have "e' \<le> s" using Cons.prems p by (auto dest: ordered_from_le)
  then have "take (s' - pos) (drop pos xs) = take (s' - pos) (drop pos (take s xs))"
    using Cons.prems p by (simp add: drop_take min_absorb1 diff_le_mono)
  with Cons show ?case by (simp add: p)
qed

text \<open>Where the lines of one placement end up.\<close>

lemma weave_block:
  assumes "ordered_from 0 (length xs) (ps @ (s, e, new) # qs)"
  defines "start \<equiv> s + added_lines ps - removed_lines ps"
  shows "take (length new) (drop start (weave xs 0 (ps @ (s, e, new) # qs))) = new"
    and "removed_lines ps \<le> s"
proof -
  have ord: "ordered_from 0 s ps" "s \<le> e" "ordered_from e (length xs) qs"
    using assms(1) by (auto simp: ordered_from_append)
  then have s: "s \<le> length xs" by (meson le_trans ordered_from_le)
  show "removed_lines ps \<le> s" using removed_le [OF ord(1)] by simp
  have "ordered_from 0 (length (take s xs)) ps" using ord(1) s by simp
  then have "length (weave (take s xs) 0 ps) + removed_lines ps = s + added_lines ps"
    using length_weave [of 0 "take s xs" ps] s by simp
  then have "length (weave (take s xs) 0 ps) = start" by (simp add: start_def)
  then show "take (length new) (drop start (weave xs 0 (ps @ (s, e, new) # qs))) = new"
    using weave_append [OF ord(1,2) s, of new qs] by simp
qed

text \<open>Weaving up to a line and from it on.\<close>

lemma weave_skip:
  "pos \<le> m \<Longrightarrow> m \<le> length xs \<Longrightarrow> ordered_from m (length xs) ps \<Longrightarrow>
     weave xs pos ps = take (m - pos) (drop pos xs) @ weave xs m ps"
proof (cases ps)
  case Nil
  assume "pos \<le> m"
  then show ?thesis
    using Nil by (metis append_take_drop_id drop_drop le_add_diff_inverse2 weave.simps(1))
next
  case (Cons p qs)
  assume le: "pos \<le> m" and ord: "ordered_from m (length xs) ps"
  obtain s e new where p: "p = (s, e, new)" by (cases p)
  have "m \<le> s" using ord Cons p by simp
  then have "s - pos = (m - pos) + (s - m)" using le by simp
  then have "take (s - pos) (drop pos xs) = take (m - pos) (drop pos xs) @ take (s - m) (drop m xs)"
    using le take_add [of "m - pos" "s - m" "drop pos xs"] by simp
  then show ?thesis using Cons p by simp
qed

lemma weave_compose:
  "ordered_from pos m ps \<Longrightarrow> m \<le> length xs \<Longrightarrow> ordered_from m (length xs) qs \<Longrightarrow>
     weave xs pos (ps @ qs) = weave (take m xs) pos ps @ weave xs m qs"
proof (induction ps arbitrary: pos)
  case Nil
  then show ?case using weave_skip [of pos m xs qs] by (simp add: drop_take)
next
  case (Cons p ps)
  obtain s e new where p: "p = (s, e, new)" by (cases p)
  have "s - pos \<le> m - pos" using Cons.prems p by (auto dest: ordered_from_le)
  then have "take (s - pos) (drop pos (take m xs)) = take (s - pos) (drop pos xs)"
    by (simp add: drop_take min_absorb1)
  with Cons show ?case by (simp add: p)
qed

lemma ordered_from_compose:
  "ordered_from pos m ps \<Longrightarrow> ordered_from m n qs \<Longrightarrow> ordered_from pos n (ps @ qs)"
  by (induction ps arbitrary: pos) (auto intro: ordered_from_weaken)

section \<open>The contract of an engine\<close>

locale placement_engine =
  fixes plan :: "'h \<Rightarrow> string list \<Rightarrow> 'e + placement list"
  assumes plan_ordered: "plan h xs = Inr ps \<Longrightarrow> ordered_from 0 (length xs) ps"
begin

lemma edit_is_weave: "plan h xs = Inr ps \<Longrightarrow> splice_all ps xs = weave xs 0 ps"
  by (simp add: splice_all_weave plan_ordered)

lemma edit_length:
  "plan h xs = Inr ps \<Longrightarrow>
     length (splice_all ps xs) + removed_lines ps = length xs + added_lines ps"
  using length_weave [OF plan_ordered] edit_is_weave by fastforce

lemma edit_block:
  assumes "plan h xs = Inr (ps @ (s, e, new) # qs)"
  shows "take (length new) (drop (s + added_lines ps - removed_lines ps)
      (splice_all (ps @ (s, e, new) # qs) xs)) = new"
    and "removed_lines ps \<le> s" and "s \<le> e" and "e \<le> length xs"
proof -
  note ord = plan_ordered [OF assms]
  show "take (length new) (drop (s + added_lines ps - removed_lines ps)
      (splice_all (ps @ (s, e, new) # qs) xs)) = new"
    using weave_block(1) [OF ord] edit_is_weave [OF assms] by simp
  show "removed_lines ps \<le> s" by (rule weave_block(2) [OF ord])
  show "s \<le> e" "e \<le> length xs"
    using ord by (auto simp: ordered_from_append dest: ordered_from_le)
qed

end

end
