(* ===== verification/Patch_Parse.thy ===== *)
theory Patch_Parse
  imports Contracts
begin

text \<open>
  The patch grammar: \<open>parse_patch_current\<close> of \<open>crates/mtm-core/src/patch.rs\<close> and the frozen
  \<open>parse_patch\<close> of \<open>patch_legacy.rs\<close>. The two differ only in how the lines of an update are
  cut into hunks, which is the flag of \<open>take_hunks\<close>: the current parser keeps the \<open>@@\<close> line
  as the first of its hunk and lets \<open>*** End of File\<close> belong to one.

  The index the Rust loops advance over the lines between the envelope is the list of the
  lines that remain. \<open>render_patch\<close> prints a patch; the parser inverts it.
\<close>

record patch_operation =
  op_kind :: string
  op_path :: string
  add_content :: "string option"
  hunks :: "string list list"
  move_to :: "string option"

definition op_add :: "string \<Rightarrow> string \<Rightarrow> patch_operation" where
  "op_add path content = \<lparr>op_kind = ''add'', op_path = path, add_content = Some content,
     hunks = [], move_to = None\<rparr>"

definition op_delete :: "string \<Rightarrow> patch_operation" where
  "op_delete path = \<lparr>op_kind = ''delete'', op_path = path, add_content = None,
     hunks = [], move_to = None\<rparr>"

definition op_update :: "string \<Rightarrow> string list list \<Rightarrow> string option \<Rightarrow> patch_operation" where
  "op_update path hs mv = \<lparr>op_kind = ''update'', op_path = path, add_content = None,
     hunks = hs, move_to = mv\<rparr>"

definition patch_failed :: "string \<Rightarrow> re_ctm_error" where
  "patch_failed m = with_category Validation (error_new ''PATCH_FAILED'' m)"

definition msg_envelope :: string where
  "msg_envelope = ''Patch must use *** Begin Patch / *** End Patch envelope.''"

definition msg_add_line :: string where
  "msg_add_line = ''Add file lines must start with '' @ [squote] @ ''+'' @ [squote] @ ''.''"

definition kw_add :: string where "kw_add = ''*** Add File: ''"
definition kw_delete :: string where "kw_delete = ''*** Delete File: ''"
definition kw_update :: string where "kw_update = ''*** Update File: ''"
definition kw_move :: string where "kw_move = ''*** Move to: ''"
definition kw_eof :: string where "kw_eof = ''*** End of File''"

section \<open>The parser\<close>

fun take_add_lines :: "string list \<Rightarrow> (string list \<times> string list) result" where
  "take_add_lines [] = Inr ([], [])"
| "take_add_lines (l # ls) =
     (if starts_with ''*** '' l then Inr ([], l # ls)
      else case strip_prefix ''+'' l of
          None \<Rightarrow> Inl (patch_failed msg_add_line)
        | Some v \<Rightarrow> bind_r (take_add_lines ls) (\<lambda>(vs, rest). Inr (v # vs, rest)))"

definition take_move :: "string list \<Rightarrow> string option \<times> string list" where
  "take_move ls = (case ls of [] \<Rightarrow> (None, [])
     | l # ls' \<Rightarrow> (case strip_prefix kw_move l of
           None \<Rightarrow> (None, l # ls') | Some t \<Rightarrow> (Some (trim t), ls')))"

definition flush :: "string list \<Rightarrow> string list list" where
  "flush cur = (if cur = [] then [] else [cur])"

fun take_hunks :: "bool \<Rightarrow> string list \<Rightarrow> string list \<Rightarrow> string list list \<times> string list" where
  "take_hunks legacy cur [] = (flush cur, [])"
| "take_hunks legacy cur (l # ls) =
     (if starts_with ''*** '' l \<and> (legacy \<or> l \<noteq> kw_eof) then (flush cur, l # ls)
      else if starts_with ''@@'' l
      then (case take_hunks legacy (if legacy then [] else [l]) ls of
          (hs, rest) \<Rightarrow> (flush cur @ hs, rest))
      else take_hunks legacy (cur @ [l]) ls)"

lemma take_add_lines_length: "take_add_lines ls = Inr (vs, rest) \<Longrightarrow> length rest \<le> length ls"
  by (induction ls arbitrary: vs)
     (auto simp: bind_r_eq_Inr split: if_splits option.splits)

lemma take_move_length: "take_move ls = (mv, rest) \<Longrightarrow> length rest \<le> length ls"
  by (auto simp: take_move_def split: list.splits option.splits)

lemma take_hunks_length: "take_hunks legacy cur ls = (hs, rest) \<Longrightarrow> length rest \<le> length ls"
proof (induction ls arbitrary: cur hs)
  case Nil then show ?case by simp
next
  case (Cons l ls)
  then show ?case by (fastforce simp: le_SucI split: if_splits prod.splits)
qed

definition take_update ::
  "bool \<Rightarrow> string list \<Rightarrow> string option \<times> string list list \<times> string list" where
  "take_update legacy ls =
     (case take_move ls of (mv, ls') \<Rightarrow>
        (case take_hunks legacy [] ls' of (hs, rest) \<Rightarrow> (mv, hs, rest)))"

lemma take_update_length: "take_update legacy ls = (mv, hs, rest) \<Longrightarrow> length rest \<le> length ls"
  by (auto simp: take_update_def split: prod.splits
      dest!: take_move_length take_hunks_length)

function parse_ops :: "bool \<Rightarrow> string list \<Rightarrow> patch_operation list result" where
  "parse_ops legacy [] = Inr []"
| "parse_ops legacy (l # ls) =
     (if l = [] then parse_ops legacy ls
      else case strip_prefix kw_add l of
        Some path \<Rightarrow> bind_r (take_add_lines ls) (\<lambda>(vs, rest).
          bind_r (parse_ops legacy rest) (\<lambda>ops.
            Inr (op_add (trim path) (join [nl] vs @ [nl]) # ops)))
      | None \<Rightarrow> (case strip_prefix kw_delete l of
        Some path \<Rightarrow> bind_r (parse_ops legacy ls) (\<lambda>ops. Inr (op_delete (trim path) # ops))
      | None \<Rightarrow> (case strip_prefix kw_update l of
        Some path \<Rightarrow>
          (case take_update legacy ls of (mv, hs, rest) \<Rightarrow>
             bind_r (parse_ops legacy rest) (\<lambda>ops. Inr (op_update (trim path) hs mv # ops)))
      | None \<Rightarrow> Inl (patch_failed (''Unrecognized patch line: '' @ l)))))"
  by pat_completeness auto
termination
  by (relation "measure (\<lambda>(legacy, ls). length ls)")
     (auto simp: less_Suc_eq_le dest: take_add_lines_length take_update_length [OF sym])

declare parse_ops.simps(2) [simp del]

definition drop_trailing_empty :: "string list \<Rightarrow> string list" where
  "drop_trailing_empty ls = rev (dropWhile (\<lambda>l. l = []) (rev ls))"

definition patch_body :: "string \<Rightarrow> string list result" where
  "patch_body patch =
     (let ls = drop_trailing_empty (split_on nl (normalize_newlines patch))
      in if ls = [] \<or> trim (hd ls) \<noteq> ''*** Begin Patch'' \<or> trim (last ls) \<noteq> ''*** End Patch''
         then Inl (patch_failed msg_envelope)
         else Inr (tl (butlast ls)))"

definition parse_patch_current :: "string \<Rightarrow> patch_operation list result" where
  "parse_patch_current patch = bind_r (patch_body patch) (parse_ops False)"

definition parse_patch :: "string \<Rightarrow> patch_operation list result" where
  "parse_patch patch = bind_r (patch_body patch) (parse_ops True)"

section \<open>Printing\<close>

text \<open>A patch as its author means it; \<open>item_op\<close> is the operation it stands for.\<close>

datatype patch_item =
    AddFile string "string list"
  | DeleteFile string
  | UpdateFile string "string option" "string list list"

fun item_op :: "patch_item \<Rightarrow> patch_operation" where
  "item_op (AddFile p ls) = op_add p (join [nl] ls @ [nl])"
| "item_op (DeleteFile p) = op_delete p"
| "item_op (UpdateFile p mv hs) = op_update p hs mv"

fun render_item :: "patch_item \<Rightarrow> string list" where
  "render_item (AddFile p ls) = (kw_add @ p) # map (\<lambda>l. CHR ''+'' # l) ls"
| "render_item (DeleteFile p) = [kw_delete @ p]"
| "render_item (UpdateFile p mv hs) =
     (kw_update @ p) # (case mv of None \<Rightarrow> [] | Some t \<Rightarrow> [kw_move @ t]) @ concat hs"

definition render_patch :: "patch_item list \<Rightarrow> string" where
  "render_patch its =
     join [nl] (''*** Begin Patch'' # concat (map render_item its) @ [''*** End Patch'']) @ [nl]"

definition wf_line :: "string \<Rightarrow> bool" where
  "wf_line l \<longleftrightarrow> nl \<notin> set l \<and> cr \<notin> set l"

definition wf_path :: "string \<Rightarrow> bool" where
  "wf_path p \<longleftrightarrow> wf_line p \<and> trim p = p"

definition wf_hunk_line :: "string \<Rightarrow> bool" where
  "wf_hunk_line l \<longleftrightarrow> wf_line l \<and> \<not> starts_with ''@@'' l \<and> (starts_with ''*** '' l \<longrightarrow> l = kw_eof)"

fun wf_hunk :: "string list \<Rightarrow> bool" where
  "wf_hunk [] = False"
| "wf_hunk (h # ls) = (wf_line h \<and> starts_with ''@@'' h \<and> list_all wf_hunk_line ls)"

fun wf_item :: "patch_item \<Rightarrow> bool" where
  "wf_item (AddFile p ls) = (wf_path p \<and> list_all wf_line ls)"
| "wf_item (DeleteFile p) = wf_path p"
| "wf_item (UpdateFile p mv hs) =
     (wf_path p \<and> (case mv of None \<Rightarrow> True | Some t \<Rightarrow> wf_path t) \<and> list_all wf_hunk hs)"

definition boundary :: "string list \<Rightarrow> bool" where
  "boundary ls \<longleftrightarrow> ls = [] \<or> (starts_with ''*** '' (hd ls) \<and> hd ls \<noteq> kw_eof)"

lemmas keyword_defs = kw_add_def kw_delete_def kw_update_def kw_move_def kw_eof_def

lemma keywords_disjoint [simp]:
  "strip_prefix kw_add (kw_delete @ p) = None" "strip_prefix kw_add (kw_update @ p) = None"
  "strip_prefix kw_delete (kw_update @ p) = None"
  by (simp_all add: strip_prefix_def starts_with_def keyword_defs)

lemma keywords_nonempty [simp]: "kw_add \<noteq> []" "kw_delete \<noteq> []" "kw_update \<noteq> []"
  by (simp_all add: keyword_defs)

lemma keywords_boundary [simp]:
  "boundary ((kw_add @ p) # ls)" "boundary ((kw_delete @ p) # ls)" "boundary ((kw_update @ p) # ls)"
  by (simp_all add: boundary_def starts_with_def keyword_defs)

lemma boundary_items: "boundary (concat (map render_item its))"
proof (cases its)
  case Nil then show ?thesis by (simp add: boundary_def)
next
  case (Cons it its')
  then show ?thesis by (cases it) simp_all
qed

lemma take_add_lines_render:
  "boundary rest \<Longrightarrow> take_add_lines (map (\<lambda>l. CHR ''+'' # l) vs @ rest) = Inr (vs, rest)"
proof (induction vs)
  case Nil
  then show ?case by (cases rest) (auto simp: boundary_def)
next
  case (Cons v vs)
  then show ?case by (simp add: starts_with_def strip_prefix_def)
qed

lemma take_hunks_boundary: "boundary rest \<Longrightarrow> take_hunks False cur rest = (flush cur, rest)"
  by (cases rest) (auto simp: boundary_def)

lemma take_hunks_lines:
  "list_all wf_hunk_line ts \<Longrightarrow> take_hunks False cur (ts @ rest) = take_hunks False (cur @ ts) rest"
  by (induction ts arbitrary: cur) (auto simp: wf_hunk_line_def)

lemma at_not_stars: "starts_with ''@@'' l \<Longrightarrow> \<not> starts_with ''*** '' l"
  by (cases l; cases "tl l") (auto simp: starts_with_def)

lemma take_hunks_render:
  "boundary rest \<Longrightarrow> list_all wf_hunk hs \<Longrightarrow>
     take_hunks False cur (concat hs @ rest) = (flush cur @ hs, rest)"
proof (induction hs arbitrary: cur)
  case Nil
  then show ?case by (simp add: take_hunks_boundary)
next
  case (Cons h hs)
  obtain l ls where h: "h = l # ls" "starts_with ''@@'' l" "list_all wf_hunk_line ls"
    using Cons.prems by (cases h) auto
  have "take_hunks False [l] (ls @ concat hs @ rest) = (flush (l # ls) @ hs, rest)"
    using Cons h(3) by (simp add: take_hunks_lines)
  then show ?case using h at_not_stars [OF h(2)] by (simp add: flush_def)
qed

lemma take_move_boundary:
  "list_all wf_hunk hs \<Longrightarrow> boundary rest \<Longrightarrow> \<not> (\<exists>t. hd rest = kw_move @ t) \<or> concat hs \<noteq> [] \<or> rest = [] \<Longrightarrow>
     take_move (concat hs @ rest) = (None, concat hs @ rest)"
proof (cases hs)
  case Nil
  assume "\<not> (\<exists>t. hd rest = kw_move @ t) \<or> concat hs \<noteq> [] \<or> rest = []"
  then show ?thesis
    using Nil by (cases rest) (auto simp: take_move_def strip_prefix_None split: option.split)
next
  case (Cons h hs')
  assume "list_all wf_hunk hs"
  then obtain l ls where h: "h = l # ls" "starts_with ''@@'' l" using Cons by (cases h) auto
  have "strip_prefix kw_move l = None"
    using h(2) by (cases l; cases "tl l") (auto simp: strip_prefix_def starts_with_def kw_move_def)
  then show ?thesis using h Cons by (simp add: take_move_def)
qed

lemma items_not_move: "its \<noteq> [] \<Longrightarrow> hd (concat (map render_item its)) \<noteq> kw_move @ t"
  by (cases its; cases "hd its") (auto simp: keyword_defs)

lemma take_update_render:
  assumes "wf_item (UpdateFile p mv hs)"
  shows "take_update False ((case mv of None \<Rightarrow> [] | Some t \<Rightarrow> [kw_move @ t]) @
      concat hs @ concat (map render_item its)) = (mv, hs, concat (map render_item its))"
proof (cases mv)
  case None
  have "take_move (concat hs @ concat (map render_item its)) =
      (None, concat hs @ concat (map render_item its))"
    using assms items_not_move [of its] boundary_items [of its]
    by (intro take_move_boundary) (cases "its = []"; auto)+
  then show ?thesis
    using assms None
    by (simp add: take_update_def take_hunks_render boundary_items flush_def)
next
  case (Some t)
  then show ?thesis
    using assms
    by (simp add: take_update_def take_move_def take_hunks_render boundary_items flush_def
        wf_path_def)
qed

lemma parse_ops_render:
  "list_all wf_item its \<Longrightarrow>
     parse_ops False (concat (map render_item its)) = Inr (map item_op its)"
proof (induction its)
  case Nil then show ?case by simp
next
  case (Cons it its)
  then have IH: "parse_ops False (concat (map render_item its)) = Inr (map item_op its)" by simp
  show ?case
  proof (cases it)
    case (AddFile p ls)
    then show ?thesis
      using Cons.prems IH
      by (simp add: parse_ops.simps(2) take_add_lines_render boundary_items wf_path_def)
  next
    case (DeleteFile p)
    then show ?thesis using Cons.prems IH by (simp add: parse_ops.simps(2) wf_path_def)
  next
    case (UpdateFile p mv hs)
    then show ?thesis
      using Cons.prems IH take_update_render [of p mv hs its]
      by (simp add: parse_ops.simps(2) wf_path_def)
  qed
qed

section \<open>The envelope\<close>

lemma wf_line_keyword [simp]:
  "wf_line (kw_add @ p) = wf_line p" "wf_line (kw_delete @ p) = wf_line p"
  "wf_line (kw_update @ p) = wf_line p" "wf_line (kw_move @ p) = wf_line p"
  "wf_line (CHR ''+'' # p) = wf_line p"
  by (simp_all add: wf_line_def keyword_defs)

lemma wf_hunk_lines: "wf_hunk h \<Longrightarrow> l \<in> set h \<Longrightarrow> wf_line l"
  by (cases h) (auto simp: list_all_iff wf_hunk_line_def)

lemma wf_item_lines: "wf_item it \<Longrightarrow> l \<in> set (render_item it) \<Longrightarrow> wf_line l"
  by (cases it) (auto simp: wf_path_def list_all_iff dest: wf_hunk_lines split: option.splits)

lemma drop_trailing_empty_snoc [simp]: "l \<noteq> [] \<Longrightarrow> drop_trailing_empty (ls @ [l]) = ls @ [l]"
  by (simp add: drop_trailing_empty_def)

lemma drop_trailing_empty_Nil [simp]: "drop_trailing_empty (ls @ [[]]) = drop_trailing_empty ls"
  by (simp add: drop_trailing_empty_def)

lemma trim_envelope [simp]:
  "trim ''*** Begin Patch'' = ''*** Begin Patch''" "trim ''*** End Patch'' = ''*** End Patch''"
  by (simp_all add: trim_def trim_end_def trim_start_id trim_rev_id ws1_def ws2_def ws3_def byte_of_def)

lemma patch_body_render:
  assumes "list_all wf_item its"
  shows "patch_body (render_patch its) = Inr (concat (map render_item its))"
proof -
  let ?ls = "''*** Begin Patch'' # concat (map render_item its) @ [''*** End Patch'']"
  have wf: "\<forall>l \<in> set ?ls. nl \<notin> set l \<and> cr \<notin> set l"
    using assms wf_item_lines by (fastforce simp: list_all_iff wf_line_def)
  then have "cr \<notin> set (render_patch its)"
    using not_in_join [of ?ls cr "[nl]"] by (simp add: render_patch_def)
  moreover have "split_on nl (render_patch its) = ?ls @ [[]]"
    using wf split_on_join [of ?ls nl] by (simp add: render_patch_def split_on_app_sep [of _ _ "[]", simplified])
  moreover have "drop_trailing_empty (?ls @ [[]]) = ?ls"
    using drop_trailing_empty_snoc [of "''*** End Patch''" "''*** Begin Patch'' # concat (map render_item its)"]
      drop_trailing_empty_Nil [of ?ls] by simp
  ultimately show ?thesis
    by (simp add: patch_body_def normalize_newlines_id)
qed

text \<open>
  C26. The current patch parser inverts the printer: every well-formed patch (paths without
  surrounding white space, no line breaks inside lines, each hunk headed by an @@ line) is read
  back as exactly the operations it was printed from, in order.
\<close>

theorem parse_patch_roundtrip:
  assumes "list_all wf_item its"
  shows "parse_patch_current (render_patch its) = Inr (map item_op its)"
  by (simp add: parse_patch_current_def patch_body_render [OF assms] parse_ops_render [OF assms])

theorem parse_patch_roundtrip_witness:
  "parse_patch_current (render_patch
      [AddFile ''a'' [''x''], UpdateFile ''b'' (Some ''c'') [[''@@'', ''-o'', ''+n'']]])
    = Inr [op_add ''a'' (''x'' @ [nl]), op_update ''b'' [[''@@'', ''-o'', ''+n'']] (Some ''c'')]"
proof -
  have "list_all wf_item
      [AddFile ''a'' [''x''], UpdateFile ''b'' (Some ''c'') [[''@@'', ''-o'', ''+n'']]]"
    by (simp add: wf_path_def wf_line_def wf_hunk_line_def starts_with_def trim_def trim_end_def
        trim_start_id trim_rev_id ws1_def byte_of_def)
  from parse_patch_roundtrip [OF this] show ?thesis by simp
qed

end
