(* ===== verification/Patch_Update.thy ===== *)
theory Patch_Update
  imports Patch_Parse Splice
begin

text \<open>
  The patch engine of the runtime, \<open>apply_update_hunks_detailed\<close> of
  \<open>crates/mtm-core/src/patch_update.rs\<close>. A hunk is looked for from a cursor that only moves
  forward, first byte for byte, then ignoring trailing and at last ignoring all surrounding
  white space; it must have one match at the first grade that has any. The state of the loop
  over the hunks is the record \<open>search\<close>.

  \<open>applies_to\<close> is the specification: what it means for the hunks of a patch to apply to a file,
  without the trimming of common lines the code does, so that the code is shown to refine it.
\<close>

record hunk =
  anchor :: "string option"
  old_lines :: "string list"
  new_lines :: "string list"
  has_context :: bool
  at_eof :: bool

record changed_range =
  start_line :: nat
  end_line :: nat
  range_added :: nat
  range_removed :: nat

record patch_update =
  updated_content :: string
  changed_ranges :: "changed_range list"
  match_quality :: string
  already_applied :: bool
  additions :: nat
  removals :: nat

section \<open>Failures\<close>

definition nearby_text :: "string list \<Rightarrow> nat \<Rightarrow> string" where
  "nearby_text ls cursor =
     join [nl] (map (\<lambda>(i, s). show_nat (i + 1) @ '': '' @ take_chars 240 s)
       (take 12 (drop (cursor - 3) (List.enumerate 0 ls))))"

definition failure ::
  "string \<Rightarrow> string \<Rightarrow> nat \<Rightarrow> string list \<Rightarrow> nat \<Rightarrow> nat list \<Rightarrow> re_ctm_error" where
  "failure c m index ls cursor candidates =
     with_details (JObject
       [(''candidate_lines'', JArray (map (\<lambda>n. JNumber (PosInt (n + 1))) candidates)),
        (''hunk_index'', JNumber (PosInt index)),
        (''nearby_text'', JString (nearby_text ls cursor)),
        (''total_lines'', JNumber (PosInt (length ls)))])
     (with_retryable True (with_category Validation (error_new c m)))"

definition msg_marker :: string where
  "msg_marker = ''Update lines need a context/add/remove marker''"

definition msg_bounds :: string where
  "msg_bounds = ''Patch text or hunk bound exceeded''"

definition msg_budget :: string where
  "msg_budget =
     ''Patch matching exceeds its comparison budget; use smaller hunks or apply_changes''"

definition msg_anchor :: "string \<Rightarrow> string" where
  "msg_anchor path = ''Forward anchor not found in '' @ path"

definition msg_ambiguous :: "string \<Rightarrow> string" where
  "msg_ambiguous path = ''Patch context is ambiguous in '' @ path"

definition msg_no_match :: "string \<Rightarrow> string" where
  "msg_no_match path = ''Patch context did not match in '' @ path"

section \<open>Hunks\<close>

definition empty_hunk :: hunk where
  "empty_hunk = \<lparr>anchor = None, old_lines = [], new_lines = [], has_context = False,
     at_eof = False\<rparr>"

fun parse_hunk_lines :: "string list \<Rightarrow> hunk \<Rightarrow> hunk result" where
  "parse_hunk_lines [] h = Inr h"
| "parse_hunk_lines (l # ls) h =
     (case strip_prefix ''@@'' l of
        Some a \<Rightarrow> parse_hunk_lines ls
          (h\<lparr>anchor := (if trim a = [] then None else Some (trim a))\<rparr>)
      | None \<Rightarrow>
        if l = kw_eof then parse_hunk_lines ls (h\<lparr>at_eof := True\<rparr>)
        else (case l of
          [] \<Rightarrow> parse_hunk_lines ls
            (h\<lparr>old_lines := old_lines h @ [[]], new_lines := new_lines h @ [[]],
               has_context := True\<rparr>)
        | c # rest \<Rightarrow>
            if c = CHR '' '' then parse_hunk_lines ls
              (h\<lparr>old_lines := old_lines h @ [rest], new_lines := new_lines h @ [rest],
                 has_context := True\<rparr>)
            else if c = CHR ''-'' then parse_hunk_lines ls
              (h\<lparr>old_lines := old_lines h @ [rest]\<rparr>)
            else if c = CHR ''+'' then parse_hunk_lines ls
              (h\<lparr>new_lines := new_lines h @ [rest]\<rparr>)
            else Inl (failure ''PATCH_FAILED'' msg_marker 0 [] 0 [])))"

definition parse_hunk :: "string list \<Rightarrow> hunk result" where
  "parse_hunk raw = parse_hunk_lines raw empty_hunk"

section \<open>Matching\<close>

definition equal_at :: "nat \<Rightarrow> string \<Rightarrow> string \<Rightarrow> bool" where
  "equal_at grade a b =
     (if grade = 0 then a = b
      else if grade = 1 then trim_end a = trim_end b
      else trim a = trim b)"

definition matches_at :: "nat \<Rightarrow> string list \<Rightarrow> string list \<Rightarrow> nat \<Rightarrow> bool" where
  "matches_at grade ls needle i \<longleftrightarrow>
     list_all2 (equal_at grade) (take (length needle) (drop i ls)) needle"

definition positions :: "string list \<Rightarrow> string list \<Rightarrow> nat \<Rightarrow> bool \<Rightarrow> nat \<Rightarrow> nat list" where
  "positions ls needle cursor eof grade =
     (if needle = [] \<or> length ls < length needle then []
      else let final = length ls - length needle in
        if final < cursor then []
        else take 9 (filter (\<lambda>i. (\<not> eof \<or> i = final) \<and> matches_at grade ls needle i)
               [cursor ..< Suc final]))"

fun find_map :: "('a \<Rightarrow> 'b option) \<Rightarrow> 'a list \<Rightarrow> 'b option" where
  "find_map f [] = None"
| "find_map f (x # xs) = (case f x of None \<Rightarrow> find_map f xs | Some y \<Rightarrow> Some y)"

lemma find_map_Some: "find_map f xs = Some y \<Longrightarrow> \<exists>x \<in> set xs. f x = Some y"
  by (induction xs) (auto split: option.splits)

definition find_anchor :: "string list \<Rightarrow> string \<Rightarrow> nat \<Rightarrow> (nat \<times> nat) option" where
  "find_anchor ls a cursor =
     find_map (\<lambda>grade. map_option (\<lambda>i. (i, grade))
         (find (\<lambda>i. equal_at grade (ls ! i) a) [cursor ..< length ls])) [0, 1, 2]"

section \<open>The work budget\<close>

definition work_estimate :: "nat \<Rightarrow> string list \<Rightarrow> hunk \<Rightarrow> nat" where
  "work_estimate content_len ls h =
     (let span = max (max (length (old_lines h)) (length (new_lines h))) 1;
          needle_bytes = sum_list (map length (old_lines h @ new_lines h));
          scan = sat_mul (sat_add (sat_mul content_len span) (sat_mul needle_bytes (length ls))) 5
      in sat_add scan (case anchor h of None \<Rightarrow> 0
           | Some a \<Rightarrow> sat_mul (sat_add content_len (sat_mul (length a) (length ls))) 3))"

definition work_budget :: nat where
  "work_budget = 512 * 1024 * 1024"

record search =
  cursor :: nat
  placed :: "placement list"
  max_grade :: nat
  work_remaining :: nat

definition charge :: "nat \<Rightarrow> string list \<Rightarrow> hunk \<Rightarrow> search \<Rightarrow> search result" where
  "charge content_len ls h s =
     (let estimate = work_estimate content_len ls h in
      if work_remaining s < estimate
      then Inl (with_category Validation (error_new ''PATCH_LIMIT'' msg_budget))
      else Inr (s\<lparr>work_remaining := work_remaining s - estimate\<rparr>))"

section \<open>Placing one hunk\<close>

definition seek_anchor :: "string list \<Rightarrow> string \<Rightarrow> nat \<Rightarrow> hunk \<Rightarrow> search \<Rightarrow> search result" where
  "seek_anchor ls path index h s =
     (case anchor h of None \<Rightarrow> Inr s
      | Some a \<Rightarrow> (case find_anchor ls a (cursor s) of
          None \<Rightarrow> Inl (failure ''PATCH_CONTEXT_NOT_FOUND'' (msg_anchor path) index ls (cursor s) [])
        | Some (line, grade) \<Rightarrow>
            Inr (s\<lparr>cursor := line + 1, max_grade := max (max_grade s) grade\<rparr>)))"

text \<open>A pure addition goes to the end of the file, unless its lines already end the file.\<close>

definition place_addition :: "string list \<Rightarrow> hunk \<Rightarrow> search \<Rightarrow> search" where
  "place_addition ls h s =
     (let safe_repeat = (2 \<le> length (new_lines h) \<and> list_ex (\<lambda>l. \<not> is_blank l) (new_lines h));
          repeat_grade = (if safe_repeat
            then find (\<lambda>g. length (positions ls (new_lines h) (cursor s) True g) = 1) [0, 1]
            else None);
          s = (case repeat_grade of None \<Rightarrow> s
               | Some g \<Rightarrow> s\<lparr>max_grade := max (max_grade s) g\<rparr>);
          s = (if repeat_grade = None \<and> new_lines h \<noteq> []
               then s\<lparr>placed := placed s @ [(length ls, length ls, new_lines h)]\<rparr> else s)
      in s\<lparr>cursor := length ls\<rparr>)"

text \<open>The lines the old and the new text share at the front, then those at the back.\<close>

definition common_prefix :: "string list \<Rightarrow> string list \<Rightarrow> nat" where
  "common_prefix xs ys = length (takeWhile (\<lambda>(a, b). a = b) (zip xs ys))"

function trim_back :: "string list \<Rightarrow> nat \<Rightarrow> nat \<Rightarrow> string list \<Rightarrow> nat \<times> string list" where
  "trim_back ls start end new =
     (if start < end \<and> new \<noteq> [] \<and> ls ! (end - 1) = last new
      then trim_back ls start (end - 1) (butlast new) else (end, new))"
  by pat_completeness auto
termination
  by (relation "measure (\<lambda>(ls, start, end, new). end)") auto

declare trim_back.simps [simp del]

definition trim_common :: "string list \<Rightarrow> placement \<Rightarrow> placement" where
  "trim_common ls p = (case p of (start, end, new) \<Rightarrow>
     (let k = common_prefix (take (end - start) (drop start ls)) new;
          (end', new') = trim_back ls (start + k) end (drop k new)
      in (start + k, end', new')))"

definition add_placement :: "placement \<Rightarrow> placement list \<Rightarrow> placement list" where
  "add_placement p ps =
     (case p of (start, end, new) \<Rightarrow> if start \<noteq> end \<or> new \<noteq> [] then ps @ [p] else ps)"

definition locate :: "string list \<Rightarrow> hunk \<Rightarrow> nat \<Rightarrow> (nat list \<times> nat) option" where
  "locate ls h c =
     find_map (\<lambda>grade. (let found = positions ls (old_lines h) c (at_eof h) grade in
        if found = [] then None else Some (found, grade))) [0, 1, 2]"

definition locate_repeat :: "string list \<Rightarrow> hunk \<Rightarrow> nat \<Rightarrow> (nat \<times> nat) option" where
  "locate_repeat ls h c =
     (if (has_context h \<or> 2 \<le> length (new_lines h)) \<and> list_ex (\<lambda>l. \<not> is_blank l) (new_lines h)
      then find_map (\<lambda>grade. (case positions ls (new_lines h) c (at_eof h) grade of
             [i] \<Rightarrow> Some (i, grade) | _ \<Rightarrow> None)) [0, 1]
      else None)"

definition place_replacement :: "string list \<Rightarrow> string \<Rightarrow> nat \<Rightarrow> hunk \<Rightarrow> search \<Rightarrow> search result" where
  "place_replacement ls path index h s =
     (case locate ls h (cursor s) of
        Some (found, grade) \<Rightarrow>
          (case found of
             [start] \<Rightarrow>
               (let end = start + length (old_lines h) in
                Inr (s\<lparr>cursor := end,
                   placed := add_placement (trim_common ls (start, end, new_lines h)) (placed s),
                   max_grade := max (max_grade s) grade\<rparr>))
           | _ \<Rightarrow> Inl (failure ''PATCH_CONTEXT_AMBIGUOUS'' (msg_ambiguous path) index ls
                  (cursor s) found))
      | None \<Rightarrow>
          (case locate_repeat ls h (cursor s) of
             Some (i, grade) \<Rightarrow>
               Inr (s\<lparr>cursor := i + length (new_lines h), max_grade := max (max_grade s) grade\<rparr>)
           | None \<Rightarrow> Inl (failure ''PATCH_CONTEXT_NOT_FOUND'' (msg_no_match path) index ls
                  (cursor s) [])))"

definition place_hunk ::
  "nat \<Rightarrow> string list \<Rightarrow> string \<Rightarrow> nat \<times> string list \<Rightarrow> search \<Rightarrow> search result" where
  "place_hunk content_len ls path iraw s = (case iraw of (index, raw) \<Rightarrow>
     bind_r (parse_hunk raw) (\<lambda>h.
     bind_r (charge content_len ls h s) (\<lambda>s.
     bind_r (seek_anchor ls path index h s) (\<lambda>s.
       if old_lines h = [] then Inr (place_addition ls h s)
       else place_replacement ls path index h s))))"

definition start_search :: search where
  "start_search = \<lparr>cursor = 0, placed = [], max_grade = 0, work_remaining = work_budget\<rparr>"

definition place_hunks ::
  "nat \<Rightarrow> string list \<Rightarrow> string \<Rightarrow> string list list \<Rightarrow> search result" where
  "place_hunks content_len ls path hs =
     fold_r (place_hunk content_len ls path) (List.enumerate 0 hs) start_search"

section \<open>The report and the new text\<close>

fun report_ranges :: "nat \<Rightarrow> nat \<Rightarrow> placement list \<Rightarrow> changed_range list" where
  "report_ranges added removed [] = []"
| "report_ranges added removed ((s, e, new) # ps) =
     (let first = s + added + 1 - removed in
      \<lparr>start_line = first, end_line = first + length new - 1,
       range_added = length new, range_removed = e - s\<rparr>
      # report_ranges (added + length new) (removed + (e - s)) ps)"

definition render_text :: "string \<Rightarrow> string list \<Rightarrow> string" where
  "render_text content updated =
     (let trailing = (normalize_newlines content \<noteq> [] \<and> last (normalize_newlines content) = nl);
          text = join [nl] updated;
          text = (if updated \<noteq> [] \<and> (trailing \<or> content = []) then text @ [nl] else text)
      in if has_crlf content then replace_byte nl [cr, nl] text else text)"

definition quality_name :: "nat \<Rightarrow> string" where
  "quality_name grade = [''exact'', ''trailing_whitespace'', ''indentation''] ! grade"

definition apply_update_hunks_detailed ::
  "string \<Rightarrow> string list list \<Rightarrow> string \<Rightarrow> patch_update result" where
  "apply_update_hunks_detailed content hs path =
     (if 64 * 1024 * 1024 < length content \<or> 200 < length hs
      then Inl (failure ''PATCH_LIMIT'' msg_bounds 0 [] 0 [])
      else let ls = text_lines (normalize_newlines content) in
        bind_r (place_hunks (length content) ls path hs) (\<lambda>s.
          Inr \<lparr>updated_content = (if placed s = [] then content
                 else render_text content (splice_all (placed s) ls)),
               changed_ranges = report_ranges 0 0 (placed s),
               match_quality = quality_name (max_grade s),
               already_applied = (placed s = []),
               additions = added_lines (placed s),
               removals = removed_lines (placed s)\<rparr>))"

section \<open>What it means for a patch to apply\<close>

definition occurs :: "nat \<Rightarrow> string list \<Rightarrow> string list \<Rightarrow> nat \<Rightarrow> bool \<Rightarrow> nat \<Rightarrow> bool" where
  "occurs g ls needle c eof i \<longleftrightarrow>
     needle \<noteq> [] \<and> c \<le> i \<and> i + length needle \<le> length ls \<and> matches_at g ls needle i \<and>
     (eof \<longrightarrow> i + length needle = length ls)"

definition occurs_once :: "nat \<Rightarrow> string list \<Rightarrow> string list \<Rightarrow> nat \<Rightarrow> bool \<Rightarrow> nat \<Rightarrow> bool" where
  "occurs_once g ls needle c eof i \<longleftrightarrow>
     occurs g ls needle c eof i \<and> (\<forall>j. occurs g ls needle c eof j \<longrightarrow> j = i)"

definition best_match :: "nat \<Rightarrow> string list \<Rightarrow> string list \<Rightarrow> nat \<Rightarrow> bool \<Rightarrow> nat \<Rightarrow> bool" where
  "best_match g ls needle c eof i \<longleftrightarrow>
     g \<le> 2 \<and> occurs_once g ls needle c eof i \<and> (\<forall>g' < g. \<forall>j. \<not> occurs g' ls needle c eof j)"

inductive anchored :: "string list \<Rightarrow> nat \<Rightarrow> hunk \<Rightarrow> nat \<Rightarrow> bool" for ls c h where
  no_anchor: "anchor h = None \<Longrightarrow> anchored ls c h c"
| at_anchor: "anchor h = Some a \<Longrightarrow> g \<le> 2 \<Longrightarrow> c \<le> i \<Longrightarrow> i < length ls \<Longrightarrow>
    equal_at g (ls ! i) a \<Longrightarrow> \<forall>j. c \<le> j \<and> j < i \<longrightarrow> \<not> equal_at g (ls ! j) a \<Longrightarrow>
    anchored ls c h (Suc i)"

text \<open>The new lines are there already, once and not blank, from line \<open>i\<close> on.\<close>

definition already_there :: "string list \<Rightarrow> hunk \<Rightarrow> nat \<Rightarrow> bool \<Rightarrow> nat \<Rightarrow> bool" where
  "already_there ls h c eof i \<longleftrightarrow>
     (\<exists>g \<le> 1. occurs_once g ls (new_lines h) c eof i) \<and>
     (has_context h \<or> 2 \<le> length (new_lines h)) \<and> (\<exists>l \<in> set (new_lines h). \<not> is_blank l)"

inductive applies_to :: "string list \<Rightarrow> nat \<Rightarrow> hunk list \<Rightarrow> placement list \<Rightarrow> bool" for ls where
  applies_done: "applies_to ls c [] []"
| applies_replace: "anchored ls c h c1 \<Longrightarrow> best_match g ls (old_lines h) c1 (at_eof h) i \<Longrightarrow>
    applies_to ls (i + length (old_lines h)) hs ps \<Longrightarrow>
    applies_to ls c (h # hs) ((i, i + length (old_lines h), new_lines h) # ps)"
| applies_append: "anchored ls c h c1 \<Longrightarrow> old_lines h = [] \<Longrightarrow> applies_to ls (length ls) hs ps \<Longrightarrow>
    applies_to ls c (h # hs) ((length ls, length ls, new_lines h) # ps)"
| applies_repeated: "anchored ls c h c1 \<Longrightarrow> old_lines h \<noteq> [] \<Longrightarrow>
    already_there ls h c1 (at_eof h) i \<Longrightarrow>
    applies_to ls (i + length (new_lines h)) hs ps \<Longrightarrow> applies_to ls c (h # hs) ps"
| applies_appended: "anchored ls c h c1 \<Longrightarrow> old_lines h = [] \<Longrightarrow>
    already_there ls h c1 True i \<Longrightarrow>
    applies_to ls (length ls) hs ps \<Longrightarrow> applies_to ls c (h # hs) ps"

inductive_cases applies_to_NilE: "applies_to ls c [] ps"
inductive_cases applies_to_ConsE: "applies_to ls c (h # hs) ps"

section \<open>The search refines the specification\<close>

lemma positions_occurs:
  "positions ls needle c eof g =
     (if needle = [] \<or> length ls < length needle \<or> length ls < c + length needle then []
      else take 9 (filter (occurs g ls needle c eof) [c ..< Suc (length ls - length needle)]))"
proof -
  have "filter (\<lambda>i. (\<not> eof \<or> i = length ls - length needle) \<and> matches_at g ls needle i)
      [c ..< Suc (length ls - length needle)]
    = filter (occurs g ls needle c eof) [c ..< Suc (length ls - length needle)]"
    if "needle \<noteq> []" "length needle \<le> length ls"
    using that by (intro filter_cong) (auto simp: occurs_def)
  then show ?thesis
    by (cases "needle = [] \<or> length ls < length needle")
       (auto simp: positions_def Let_def simp del: upt_Suc)
qed

lemma positions_mem: "i \<in> set (positions ls needle c eof g) \<Longrightarrow> occurs g ls needle c eof i"
  by (auto simp: positions_occurs dest: in_set_takeD split: if_splits)

lemma positions_empty: "positions ls needle c eof g = [] \<longleftrightarrow> (\<forall>i. \<not> occurs g ls needle c eof i)"
  by (auto simp: positions_occurs filter_empty_conv occurs_def)

lemma positions_single:
  assumes "positions ls needle c eof g = [i]"
  shows "occurs_once g ls needle c eof i"
proof -
  let ?f = "filter (occurs g ls needle c eof) [c ..< Suc (length ls - length needle)]"
  have "take 9 ?f = [i]" and n: "needle \<noteq> []" "c + length needle \<le> length ls"
    using assms by (auto simp: positions_occurs split: if_splits)
  then have "min 9 (length ?f) = 1" by (metis length_take min.commute One_nat_def length_Cons list.size(3))
  then have "?f = [i]" using \<open>take 9 ?f = [i]\<close> by simp
  then have "set ?f = {i}" by simp
  moreover have "j \<in> set ?f" if "occurs g ls needle c eof j" for j
    using that by (auto simp: occurs_def)
  ultimately show ?thesis by (auto simp: occurs_once_def)
qed

lemma locate_best:
  assumes "locate ls h c = Some ([i], g)"
  shows "best_match g ls (old_lines h) c (at_eof h) i"
proof -
  have "g \<le> 2 \<and> positions ls (old_lines h) c (at_eof h) g = [i] \<and>
      (\<forall>g' < g. positions ls (old_lines h) c (at_eof h) g' = [])"
    using assms by (auto simp: locate_def Let_def less_Suc_eq numeral_2_eq_2 split: if_splits)
  then show ?thesis by (auto simp: best_match_def positions_empty dest: positions_single)
qed

lemma locate_repeat_there:
  assumes "locate_repeat ls h c = Some (i, g)"
  shows "already_there ls h c (at_eof h) i" "g \<le> 1"
proof -
  have "(\<exists>g' \<in> {0, 1}. g' = g \<and> positions ls (new_lines h) c (at_eof h) g' = [i]) \<and>
      (has_context h \<or> 2 \<le> length (new_lines h)) \<and> (\<exists>l \<in> set (new_lines h). \<not> is_blank l)"
    using assms unfolding locate_repeat_def
    by (auto simp: list_ex_iff dest!: find_map_Some split: if_splits list.splits)
  then show "already_there ls h c (at_eof h) i" "g \<le> 1"
    by (auto simp: already_there_def dest: positions_single)
qed

lemma find_anchor_anchored:
  assumes "anchor h = Some a" "find_anchor ls a c = Some (i, g)"
  shows "anchored ls c h (Suc i)" "i < length ls" "g \<le> 2" "c \<le> i"
proof -
  obtain g' where "g' \<in> {0, 1, 2 :: nat}"
    "find (\<lambda>i. equal_at g' (ls ! i) a) [c ..< length ls] = Some i" "g' = g"
    using find_map_Some [OF assms(2) [unfolded find_anchor_def]] by auto
  then have "g \<le> 2" and f: "find (\<lambda>i. equal_at g (ls ! i) a) [c ..< length ls] = Some i" by auto
  then obtain k where k: "k < length ls - c" "equal_at g (ls ! i) a" "i = c + k"
    "\<forall>j < k. \<not> equal_at g (ls ! (c + j)) a"
    by (auto simp: find_Some_iff)
  have "\<not> equal_at g (ls ! j) a" if "c \<le> j" "j < i" for j
    using k(3,4) that by (metis add_diff_inverse_nat linorder_not_less nat_add_left_cancel_less)
  then show "anchored ls c h (Suc i)"
    using assms(1) k \<open>g \<le> 2\<close> by (intro at_anchor [of h a g]) auto
  show "i < length ls" "g \<le> 2" "c \<le> i" using k \<open>g \<le> 2\<close> by auto
qed

subsection \<open>Leaving out common lines\<close>

lemma common_prefix_take: "take (common_prefix xs ys) xs = take (common_prefix xs ys) ys"
proof (induction xs arbitrary: ys)
  case Nil then show ?case by (simp add: common_prefix_def)
next
  case (Cons x xs)
  then show ?case by (cases ys) (auto simp: common_prefix_def)
qed

lemma common_prefix_le: "common_prefix xs ys \<le> length xs" "common_prefix xs ys \<le> length ys"
  unfolding common_prefix_def
  using length_takeWhile_le [of "\<lambda>(a, b). a = b" "zip xs ys"] by auto

lemma trim_back_correct:
  assumes "trim_back ls s e new = (e', new')" "s \<le> e" "e \<le> length ls"
  shows "s \<le> e' \<and> e' \<le> e \<and> new = new' @ take (e - e') (drop e' ls)"
  using assms
proof (induction ls s e new arbitrary: e' new' rule: trim_back.induct)
  case (1 ls s e new)
  show ?case
  proof (cases "s < e \<and> new \<noteq> [] \<and> ls ! (e - 1) = last new")
    case True
    then have step: "trim_back ls s (e - 1) (butlast new) = (e', new')"
      using 1(2) by (simp add: trim_back.simps [of ls s e new])
    have IH: "s \<le> e'" "e' \<le> e - 1" "butlast new = new' @ take (e - 1 - e') (drop e' ls)"
      using 1(1) [OF True step] True 1(4) by auto
    have n: "e - e' = Suc (e - 1 - e')" "e - 1 - e' < length (drop e' ls)"
      "drop e' ls ! (e - 1 - e') = ls ! (e - 1)"
      using True IH(2) 1(4) by auto
    have "take (e - e') (drop e' ls) = take (e - 1 - e') (drop e' ls) @ [ls ! (e - 1)]"
      unfolding n(1) take_Suc_conv_app_nth [OF n(2)] n(3) by simp
    then have "new = new' @ take (e - e') (drop e' ls)"
      using IH(3) True append_butlast_last_id [of new] by simp
    with IH show ?thesis by auto
  next
    case False
    then show ?thesis using 1(2,3) by (auto simp: trim_back.simps [of ls s e new])
  qed
qed

lemma trim_common_correct:
  assumes "trim_common ls (s, e, new) = (s', e', new')" "s \<le> e" "e \<le> length ls"
  shows "s \<le> s' \<and> s' \<le> e' \<and> e' \<le> e \<and>
    new = take (s' - s) (drop s ls) @ new' @ take (e - e') (drop e' ls)"
proof -
  let ?k = "common_prefix (take (e - s) (drop s ls)) new"
  have k: "?k \<le> e - s" "?k \<le> length new" "take ?k new = take ?k (drop s ls)"
    using common_prefix_le [of "take (e - s) (drop s ls)" new]
      common_prefix_take [of "take (e - s) (drop s ls)" new]
    by (auto simp: min_absorb1)
  have t: "s' = s + ?k" "trim_back ls (s + ?k) e (drop ?k new) = (e', new')"
    using assms(1) by (auto simp: trim_common_def Let_def split: prod.splits)
  have b: "s + ?k \<le> e'" "e' \<le> e" "drop ?k new = new' @ take (e - e') (drop e' ls)"
    using trim_back_correct [OF t(2)] k(1) assms(2,3) by auto
  have "new = take ?k new @ drop ?k new" by simp
  also have "\<dots> = take ?k (drop s ls) @ new' @ take (e - e') (drop e' ls)"
    by (simp only: k(3) b(3))
  finally show ?thesis using t(1) b by simp
qed

lemma weave_trim:
  assumes "trim_common ls (s, e, new) = (s', e', new')" "c \<le> s" "s \<le> e" "e \<le> length ls"
  shows "weave (take e ls) c (add_placement (s', e', new') []) = weave (take e ls) c [(s, e, new)]"
    and "ordered_from c e (add_placement (s', e', new') [])"
proof -
  note t = trim_common_correct [OF assms(1,3,4)]
  have le: "s \<le> s'" "s' \<le> e'" "e' \<le> e"
    and new: "new = take (s' - s) (drop s ls) @ new' @ take (e - e') (drop e' ls)"
    using t by blast+
  have ab: "take (s' - c) (drop c ls) = take (s - c) (drop c ls) @ take (s' - s) (drop s ls)"
    using le assms(2) take_add [of "s - c" "s' - s" "drop c ls"] by simp
  have abd: "take (e - c) (drop c ls) = take (s' - c) (drop c ls) @ take (e - s') (drop s' ls)"
    using le assms(2) take_add [of "s' - c" "e - s'" "drop c ls"] by simp
  have rhs: "weave (take e ls) c [(s, e, new)] = take (s - c) (drop c ls) @ new"
    using assms(2,3) by (simp add: drop_take min_absorb1)
  show "weave (take e ls) c (add_placement (s', e', new') []) = weave (take e ls) c [(s, e, new)]"
  proof (cases "s' \<noteq> e' \<or> new' \<noteq> []")
    case True
    have "s' - c \<le> e - c" using le by simp
    then have "weave (take e ls) c (add_placement (s', e', new') [])
        = take (s' - c) (drop c ls) @ new' @ take (e - e') (drop e' ls)"
      using True by (simp add: add_placement_def drop_take min_absorb1)
    also have "\<dots> = take (s - c) (drop c ls) @
        take (s' - s) (drop s ls) @ new' @ take (e - e') (drop e' ls)"
      by (simp only: ab append_assoc)
    also have "\<dots> = weave (take e ls) c [(s, e, new)]"
      by (simp only: rhs new [symmetric])
    finally show ?thesis .
  next
    case False
    then have "weave (take e ls) c (add_placement (s', e', new') [])
        = take (s' - c) (drop c ls) @ take (e - s') (drop s' ls)"
      using abd by (simp add: add_placement_def drop_take)
    also have "\<dots> = take (s - c) (drop c ls) @
        take (s' - s) (drop s ls) @ new' @ take (e - e') (drop e' ls)"
      using False ab by simp
    also have "\<dots> = weave (take e ls) c [(s, e, new)]"
      by (simp only: rhs new [symmetric])
    finally show ?thesis .
  qed
  show "ordered_from c e (add_placement (s', e', new') [])"
    using le assms(2) by (auto simp: add_placement_def)
qed

lemma add_placement_append: "add_placement p ps = ps @ add_placement p []"
  by (auto simp: add_placement_def split: prod.splits)

subsection \<open>One hunk\<close>

text \<open>
  What one round of the loop achieves. The search moves on to \<open>cursor t\<close>; it has placed \<open>qs\<close>,
  which changes the lines up to there as the placements \<open>ps\<close> of the specification do.
\<close>

definition hunk_placed ::
  "string list \<Rightarrow> search \<Rightarrow> hunk \<Rightarrow> search \<Rightarrow> placement list \<Rightarrow> placement list \<Rightarrow> bool" where
  "hunk_placed ls s h t ps qs \<longleftrightarrow>
     cursor s \<le> cursor t \<and> cursor t \<le> length ls \<and>
     (max_grade s \<le> 2 \<longrightarrow> max_grade t \<le> 2) \<and>
     work_remaining t \<le> work_remaining s \<and>
     placed t = placed s @ qs \<and>
     ordered_from (cursor s) (cursor t) ps \<and> ordered_from (cursor s) (cursor t) qs \<and>
     weave (take (cursor t) ls) (cursor s) qs = weave (take (cursor t) ls) (cursor s) ps \<and>
     (\<forall>hs rest. applies_to ls (cursor t) hs rest \<longrightarrow> applies_to ls (cursor s) (h # hs) (ps @ rest))"

lemma place_addition_placed:
  assumes "old_lines h = []" "anchored ls (cursor s0) h (cursor s)" "cursor s0 \<le> cursor s"
    "cursor s \<le> length ls" "max_grade s0 \<le> 2 \<longrightarrow> max_grade s \<le> 2"
    "work_remaining s \<le> work_remaining s0" "placed s = placed s0"
  shows "\<exists>ps qs. hunk_placed ls s0 h (place_addition ls h s) ps qs"
proof -
  let ?once = "\<lambda>g. length (positions ls (new_lines h) (cursor s) True g) = 1"
  define r where "r = (if 2 \<le> length (new_lines h) \<and> list_ex (\<lambda>l. \<not> is_blank l) (new_lines h)
      then find ?once [0, 1] else None)"
  show ?thesis
  proof (cases r)
    case None
    let ?p = "(length ls, length ls, new_lines h)"
    have ap: "applies_to ls (cursor s0) (h # hs) (?p # rest)" if "applies_to ls (length ls) hs rest"
      for hs rest
      using applies_append [OF assms(2,1) that] .
    have "hunk_placed ls s0 h (place_addition ls h s) [?p] (add_placement ?p [])"
      using assms None ap
      by (cases "new_lines h = []")
         (auto simp: hunk_placed_def place_addition_def Let_def r_def [symmetric] add_placement_def)
    then show ?thesis by blast
  next
    case (Some g)
    then have g: "?once g" "g \<le> 1" "2 \<le> length (new_lines h)" "\<exists>l \<in> set (new_lines h). \<not> is_blank l"
      by (auto simp: r_def list_ex_iff split: if_splits)
    then obtain i where "positions ls (new_lines h) (cursor s) True g = [i]"
      by (metis One_nat_def length_0_conv length_Suc_conv)
    then have "already_there ls h (cursor s) True i"
      using g positions_single by (auto simp: already_there_def)
    then have "hunk_placed ls s0 h (place_addition ls h s) [] []"
      using assms Some g(2)
      by (auto simp: hunk_placed_def place_addition_def Let_def r_def [symmetric]
          intro: applies_appended)
    then show ?thesis by blast
  qed
qed

lemma place_replacement_placed:
  assumes "place_replacement ls path index h s = Inr t" "old_lines h \<noteq> []"
    "anchored ls (cursor s0) h (cursor s)" "cursor s0 \<le> cursor s"
    "cursor s \<le> length ls" "max_grade s0 \<le> 2 \<longrightarrow> max_grade s \<le> 2"
    "work_remaining s \<le> work_remaining s0" "placed s = placed s0"
  shows "\<exists>ps qs. hunk_placed ls s0 h t ps qs"
proof (cases "locate ls h (cursor s)")
  case (Some fg)
  then obtain i g where l: "locate ls h (cursor s) = Some ([i], g)"
    using assms(1) by (cases fg) (auto simp: place_replacement_def split: list.splits)
  note best = locate_best [OF l]
  let ?e = "i + length (old_lines h)"
  obtain s' e' new' where tc: "trim_common ls (i, ?e, new_lines h) = (s', e', new')"
    by (metis prod_cases3)
  have t: "t = s\<lparr>cursor := ?e, placed := add_placement (s', e', new') (placed s),
      max_grade := max (max_grade s) g\<rparr>"
    using assms(1) by (simp add: place_replacement_def l Let_def tc)
  have occ: "cursor s \<le> i" "?e \<le> length ls" "g \<le> 2"
    using best by (auto simp: best_match_def occurs_once_def occurs_def)
  then have "hunk_placed ls s0 h t [(i, ?e, new_lines h)] (add_placement (s', e', new') [])"
    using assms weave_trim [OF tc, of "cursor s0"] best
    by (auto simp: hunk_placed_def t add_placement_append [of _ "placed s0"]
        intro: applies_replace)
  then show ?thesis by blast
next
  case None
  then obtain i g where l: "locate_repeat ls h (cursor s) = Some (i, g)"
    and t: "t = s\<lparr>cursor := i + length (new_lines h), max_grade := max (max_grade s) g\<rparr>"
    using assms(1) by (auto simp: place_replacement_def split: option.splits)
  note there = locate_repeat_there [OF l]
  then have "cursor s \<le> i" "i + length (new_lines h) \<le> length ls"
    by (auto simp: already_there_def occurs_once_def occurs_def)
  then have "hunk_placed ls s0 h t [] []"
    using assms there by (auto simp: hunk_placed_def t intro: applies_repeated)
  then show ?thesis by blast
qed

lemma place_hunk_placed:
  assumes "place_hunk n ls path (index, raw) s = Inr t" "cursor s \<le> length ls"
  shows "\<exists>h ps qs. parse_hunk raw = Inr h \<and> hunk_placed ls s h t ps qs"
proof -
  obtain h s1 s2 where h: "parse_hunk raw = Inr h" "charge n ls h s = Inr s1"
    "seek_anchor ls path index h s1 = Inr s2"
    and t: "(if old_lines h = [] then Inr (place_addition ls h s2)
             else place_replacement ls path index h s2) = Inr t"
    using assms(1) by (auto simp: place_hunk_def bind_r_eq_Inr)
  have s1: "cursor s1 = cursor s" "max_grade s1 = max_grade s" "placed s1 = placed s"
    "work_remaining s1 \<le> work_remaining s"
    using h(2) by (auto simp: charge_def Let_def split: if_splits)
  have "anchored ls (cursor s) h (cursor s2) \<and> cursor s \<le> cursor s2 \<and> cursor s2 \<le> length ls \<and>
      (max_grade s \<le> 2 \<longrightarrow> max_grade s2 \<le> 2) \<and> placed s2 = placed s \<and>
      work_remaining s2 \<le> work_remaining s"
    using h(3) s1 assms(2)
    by (auto simp: seek_anchor_def intro: no_anchor dest: find_anchor_anchored
        split: option.splits)
  then show ?thesis
    using t h(1) place_addition_placed [of h ls s s2] place_replacement_placed [of ls path index h s2 t s]
    by (auto split: if_splits)
qed

lemma place_all_placed:
  assumes "fold_r (place_hunk n ls path) ixs s = Inr t" "cursor s \<le> length ls"
  shows "\<exists>hs ps qs. traverse_r parse_hunk (map snd ixs) = Inr hs \<and>
    applies_to ls (cursor s) hs ps \<and> placed t = placed s @ qs \<and>
    ordered_from (cursor s) (length ls) ps \<and> ordered_from (cursor s) (length ls) qs \<and>
    weave ls (cursor s) qs = weave ls (cursor s) ps \<and> (max_grade s \<le> 2 \<longrightarrow> max_grade t \<le> 2)"
  using assms
proof (induction ixs arbitrary: s)
  case Nil
  then show ?case by (auto intro!: exI [of _ "[]"] applies_done)
next
  case (Cons ir ixs)
  obtain i raw where ir: "ir = (i, raw)" by (cases ir)
  obtain s1 where s1: "place_hunk n ls path (i, raw) s = Inr s1"
    "fold_r (place_hunk n ls path) ixs s1 = Inr t"
    using Cons.prems(1) by (auto simp: bind_r_eq_Inr ir)
  obtain h ps qs where h: "parse_hunk raw = Inr h" "hunk_placed ls s h s1 ps qs"
    using place_hunk_placed [OF s1(1) Cons.prems(2)] by blast
  then have c: "cursor s1 \<le> length ls" "ordered_from (cursor s) (cursor s1) ps"
    "ordered_from (cursor s) (cursor s1) qs"
    "weave (take (cursor s1) ls) (cursor s) qs = weave (take (cursor s1) ls) (cursor s) ps"
    by (auto simp: hunk_placed_def)
  obtain hs ps' qs' where IH: "traverse_r parse_hunk (map snd ixs) = Inr hs"
    "applies_to ls (cursor s1) hs ps'" "placed t = placed s1 @ qs'"
    "ordered_from (cursor s1) (length ls) ps'" "ordered_from (cursor s1) (length ls) qs'"
    "weave ls (cursor s1) qs' = weave ls (cursor s1) ps'" "max_grade s1 \<le> 2 \<longrightarrow> max_grade t \<le> 2"
    using Cons.IH [OF s1(2) c(1)] by blast
  have "weave ls (cursor s) (qs @ qs') = weave ls (cursor s) (ps @ ps')"
    using c IH by (simp add: weave_compose)
  moreover have "ordered_from (cursor s) (length ls) (ps @ ps')"
    "ordered_from (cursor s) (length ls) (qs @ qs')"
    using c IH by (auto intro: ordered_from_compose)
  moreover have "applies_to ls (cursor s) (h # hs) (ps @ ps')" "placed t = placed s @ qs @ qs'"
    "max_grade s \<le> 2 \<longrightarrow> max_grade t \<le> 2"
    using h(2) IH by (auto simp: hunk_placed_def)
  moreover have "traverse_r parse_hunk (map snd (ir # ixs)) = Inr (h # hs)"
    using h(1) IH(1) by (simp add: ir)
  ultimately show ?case by blast
qed


lemma start_search_cursor: "cursor start_search \<le> length ls" "max_grade start_search = 0"
  "placed start_search = []" "cursor start_search = 0"
  by (simp_all add: start_search_def)

lemma map_snd_enumerate: "map snd (List.enumerate n xs) = xs"
  by (induction xs arbitrary: n) auto

lemma place_hunks_placed:
  assumes "place_hunks n ls path raw = Inr t"
  shows "\<exists>hs ps. traverse_r parse_hunk raw = Inr hs \<and> applies_to ls 0 hs ps \<and>
    ordered_from 0 (length ls) ps \<and> ordered_from 0 (length ls) (placed t) \<and>
    weave ls 0 (placed t) = weave ls 0 ps \<and> max_grade t \<le> 2"
  using place_all_placed [OF assms [unfolded place_hunks_def] start_search_cursor(1)]
  by (auto simp: start_search_cursor map_snd_enumerate)

text \<open>The search for placements meets the contract of an engine.\<close>

interpretation runtime_engine: placement_engine
  "\<lambda>(n, path, raw) ls. map_ok placed (place_hunks n ls path raw)"
proof
  fix h :: "nat \<times> string \<times> string list list" and xs ps
  assume plan: "(case h of (n, path, raw) \<Rightarrow> \<lambda>ls. map_ok placed (place_hunks n ls path raw)) xs = Inr ps"
  obtain n path raw where h: "h = (n, path, raw)" by (cases h)
  with plan obtain t where "place_hunks n xs path raw = Inr t" "ps = placed t" by auto
  then show "ordered_from 0 (length xs) ps"
    using place_hunks_placed [of n xs path raw t] by blast
qed

lemma runtime_edit:
  assumes "place_hunks n ls path raw = Inr s"
  shows "splice_all (placed s) ls = weave ls 0 (placed s)"
    and "length (splice_all (placed s) ls) + removed_lines (placed s)
      = length ls + added_lines (placed s)"
  using runtime_engine.edit_is_weave [of "(n, path, raw)" ls "placed s"]
    runtime_engine.edit_length [of "(n, path, raw)" ls "placed s"] assms
  by auto

lemma runtime_block:
  assumes "place_hunks n ls path raw = Inr t" "placed t = ps @ (s, e, new) # qs"
  shows "take (length new) (drop (s + added_lines ps - removed_lines ps)
      (splice_all (placed t) ls)) = new"
    and "removed_lines ps \<le> s" and "s \<le> e" and "e \<le> length ls"
  using runtime_engine.edit_block [of "(n, path, raw)" ls ps s e new qs] assms
  by auto


section \<open>The report\<close>

lemma length_report_ranges [simp]: "length (report_ranges a r ps) = length ps"
  by (induction ps arbitrary: a r) (auto simp: Let_def)

lemma report_ranges_nth:
  "report_ranges a r (ps @ (s, e, new) # qs) ! length ps =
     (let first = s + (a + added_lines ps) + 1 - (r + removed_lines ps) in
      \<lparr>start_line = first, end_line = first + length new - 1,
       range_added = length new, range_removed = e - s\<rparr>)"
  by (induction ps arbitrary: a r) (auto simp: Let_def add.assoc)

section \<open>A hunk whose old lines stand at one place\<close>

definition swap_hunk :: "string list \<Rightarrow> string list \<Rightarrow> string list" where
  "swap_hunk old new = map (Cons (CHR ''-'')) old @ map (Cons (CHR ''+'')) new"

lemma parse_minus:
  "parse_hunk_lines (map (Cons (CHR ''-'')) old @ rest) h =
     parse_hunk_lines rest (h\<lparr>old_lines := old_lines h @ old\<rparr>)"
  by (induction old arbitrary: h) (auto simp: kw_eof_def strip_prefix_def starts_with_def)

lemma parse_plus:
  "parse_hunk_lines (map (Cons (CHR ''+'')) new) h = Inr (h\<lparr>new_lines := new_lines h @ new\<rparr>)"
  by (induction new arbitrary: h) (auto simp: kw_eof_def strip_prefix_def starts_with_def)

lemma parse_swap_hunk:
  "parse_hunk (swap_hunk old new) = Inr \<lparr>anchor = None, old_lines = old, new_lines = new,
     has_context = False, at_eof = False\<rparr>"
  by (simp add: parse_hunk_def swap_hunk_def parse_minus parse_plus empty_hunk_def)

lemma distinct_singleton: "set xs = {i} \<Longrightarrow> distinct xs \<Longrightarrow> xs = [i]"
  by (cases xs; cases "tl xs") auto

lemma occurs_once_positions:
  assumes "occurs_once g ls needle c eof i"
  shows "positions ls needle c eof g = [i]"
proof -
  let ?xs = "filter (occurs g ls needle c eof) [c ..< Suc (length ls - length needle)]"
  have n: "needle \<noteq> []" "length needle \<le> length ls" "c + length needle \<le> length ls"
    using assms by (auto simp: occurs_once_def occurs_def)
  have "set ?xs = {j. occurs g ls needle c eof j}"
    by (auto simp: occurs_def simp del: upt_Suc)
  also have "\<dots> = {i}"
    using assms unfolding occurs_once_def by blast
  finally have "?xs = [i]"
    by (rule distinct_singleton) simp
  then show ?thesis
    using n by (simp add: positions_occurs del: upt_Suc)
qed

lemma trim_common_same:
  assumes "i + length old \<le> length ls" "take (length old) (drop i ls) = old"
  shows "add_placement (trim_common ls (i, i + length old, old)) [] = []"
proof -
  have "common_prefix old old = length old"
    by (induction old) (auto simp: common_prefix_def)
  then show ?thesis
    using assms by (simp add: trim_common_def trim_back.simps add_placement_def Let_def)
qed

lemma matches_at_exact:
  "matches_at 0 ls needle i \<longleftrightarrow> take (length needle) (drop i ls) = needle"
proof -
  have "equal_at 0 = (=)" by (simp add: equal_at_def fun_eq_iff)
  then show ?thesis by (simp add: matches_at_def list.rel_eq)
qed

lemma place_swap_hunk:
  assumes "old \<noteq> []" "occurs_once 0 ls old 0 False i"
    "work_estimate n ls \<lparr>anchor = None, old_lines = old, new_lines = new,
       has_context = False, at_eof = False\<rparr> \<le> work_budget"
  shows "\<exists>s. place_hunks n ls path [swap_hunk old new] = Inr s \<and> max_grade s = 0 \<and>
    weave ls 0 (placed s) = take i ls @ new @ drop (i + length old) ls \<and>
    (placed s = [] \<longleftrightarrow> new = old)"
proof -
  obtain s' e' new' where tc: "trim_common ls (i, i + length old, new) = (s', e', new')"
    by (metis prod_cases3)
  have occ: "i + length old \<le> length ls" "take (length old) (drop i ls) = old"
    using assms(2) by (auto simp: occurs_once_def occurs_def matches_at_exact)
  define qs where "qs = add_placement (s', e', new') []"
  have w: "weave (take (i + length old) ls) 0 qs = take i ls @ new"
    and ord: "ordered_from 0 (i + length old) qs"
    using weave_trim [OF tc, of 0] occ(1) by (auto simp: qs_def)
  have full: "weave ls 0 qs = take i ls @ new @ drop (i + length old) ls"
    using weave_compose [OF ord, of ls "[]"] occ(1) w by simp
  have "qs = [] \<longleftrightarrow> new = old"
  proof
    assume "qs = []"
    then have "take i ls @ new = take (i + length old) ls" using w by simp
    then show "new = old" using occ by (simp add: take_add)
  next
    assume "new = old"
    then show "qs = []" using trim_common_same [OF occ] tc by (simp add: qs_def)
  qed
  moreover have "place_hunks n ls path [swap_hunk old new] =
      Inr \<lparr>cursor = i + length old, placed = qs, max_grade = 0,
        work_remaining = work_budget - work_estimate n ls \<lparr>anchor = None, old_lines = old,
          new_lines = new, has_context = False, at_eof = False\<rparr>\<rparr>"
    using assms occurs_once_positions [OF assms(2)]
    by (simp add: place_hunks_def place_hunk_def parse_swap_hunk charge_def Let_def start_search_def
        seek_anchor_def place_replacement_def locate_def tc qs_def)
  ultimately show ?thesis using full by simp
qed

text \<open>C22. A successful run is an application of the patch in the sense of the specification
  \<open>applies_to\<close>: every hunk parses, its old lines stand at the one place found for it at the best
  grade, in order and not overlapping, and the new file is the old lines with exactly these blocks
  exchanged; the lines the code leaves out of a placement change nothing. Where it reports that
  the patch was already applied, the patch amounts to no change.\<close>

theorem patch_update_refines_spec:
  assumes "apply_update_hunks_detailed content raw path = Inr u"
  shows "\<exists>hs ps. traverse_r parse_hunk raw = Inr hs \<and>
    applies_to (text_lines (normalize_newlines content)) 0 hs ps \<and>
    ordered_from 0 (length (text_lines (normalize_newlines content))) ps \<and>
    (if already_applied u
     then updated_content u = content \<and>
       weave (text_lines (normalize_newlines content)) 0 ps = text_lines (normalize_newlines content)
     else updated_content u =
       render_text content (weave (text_lines (normalize_newlines content)) 0 ps))"
proof -
  let ?ls = "text_lines (normalize_newlines content)"
  obtain s where s: "place_hunks (length content) ?ls path raw = Inr s"
    and u: "already_applied u = (placed s = [])"
      "updated_content u = (if placed s = [] then content
         else render_text content (splice_all (placed s) ?ls))"
    using assms by (auto simp: apply_update_hunks_detailed_def Let_def bind_r_eq_Inr split: if_splits)
  obtain hs ps where h: "traverse_r parse_hunk raw = Inr hs" "applies_to ?ls 0 hs ps"
    "ordered_from 0 (length ?ls) ps" "weave ?ls 0 (placed s) = weave ?ls 0 ps"
    using place_hunks_placed [OF s] by blast
  show ?thesis
  proof (intro exI conjI)
    show "if already_applied u then updated_content u = content \<and> weave ?ls 0 ps = ?ls
      else updated_content u = render_text content (weave ?ls 0 ps)"
    proof (cases "placed s = []")
      case True then show ?thesis using u(2) h(4) [symmetric] by (simp add: u(1))
    next
      case False then show ?thesis using u h(4) runtime_edit(1) [OF s] by simp
    qed
  qed (rule h)+
qed


theorem patch_update_refines_spec_witness:
  "\<exists>u. apply_update_hunks_detailed ''a'' [swap_hunk [''a''] [''b'']] ''f'' = Inr u \<and>
     \<not> already_applied u \<and>
     (\<exists>hs ps. applies_to [''a''] 0 hs ps \<and> updated_content u = render_text ''a'' (weave [''a''] 0 ps))"
proof -
  have lines: "text_lines (normalize_newlines ''a'') = [''a'']"
    by (simp add: normalize_newlines_def replace_byte_def)
  have "occurs_once 0 [''a''] [''a''] 0 False 0"
    by (auto simp: occurs_once_def occurs_def matches_at_exact)
  then obtain s where s: "place_hunks (length ''a'') [''a''] ''f'' [swap_hunk [''a''] [''b'']] = Inr s"
    "placed s \<noteq> []"
    using place_swap_hunk [of "[''a'']" "[''a'']" 0 "length ''a''" "[''b'']" "''f''"]
    by (auto simp: work_estimate_def work_budget_def sat_mul_def sat_add_def u64_max_def)
  then obtain u where u: "apply_update_hunks_detailed ''a'' [swap_hunk [''a''] [''b'']] ''f'' = Inr u"
    "\<not> already_applied u"
    by (simp add: apply_update_hunks_detailed_def lines Let_def)
  then show ?thesis
    using patch_update_refines_spec [OF u(1)] by (auto simp: lines)
qed

text \<open>C23. A patch of one hunk that only exchanges lines (no anchor, no context lines, not marked as
  the end of the file) and whose old lines stand at exactly one place of the file, byte for byte, is
  applied at that place and nowhere else: the search cannot miss it, call it ambiguous, or report a
  weaker match, as long as the file and the comparison work are within the limits.\<close>

theorem unique_text_is_replaced:
  assumes "old \<noteq> []"
    and "occurs_once 0 (text_lines (normalize_newlines content)) old 0 False i"
    and "length content \<le> 64 * 1024 * 1024"
    and "work_estimate (length content) (text_lines (normalize_newlines content))
      \<lparr>anchor = None, old_lines = old, new_lines = new, has_context = False, at_eof = False\<rparr>
      \<le> work_budget"
  shows "\<exists>u. apply_update_hunks_detailed content [swap_hunk old new] path = Inr u \<and>
    match_quality u = ''exact'' \<and> already_applied u = (new = old) \<and>
    updated_content u = (if new = old then content
      else render_text content (take i (text_lines (normalize_newlines content)) @ new @
        drop (i + length old) (text_lines (normalize_newlines content))))"
proof -
  let ?ls = "text_lines (normalize_newlines content)"
  obtain s where s: "place_hunks (length content) ?ls path [swap_hunk old new] = Inr s"
    "max_grade s = 0" "weave ?ls 0 (placed s) = take i ?ls @ new @ drop (i + length old) ?ls"
    "placed s = [] \<longleftrightarrow> new = old"
    using place_swap_hunk [OF assms(1,2,4)] by blast
  then show ?thesis
    using assms(3) runtime_edit(1) [OF s(1)]
    by (simp add: apply_update_hunks_detailed_def Let_def quality_name_def)
qed

lemma example_lines: "text_lines (normalize_newlines [CHR ''a'', nl, CHR ''b'', nl]) = [''a'', ''b'']"
  by (simp add: normalize_newlines_def replace_byte_def)

theorem unique_text_is_replaced_witness:
  "\<exists>u. apply_update_hunks_detailed [CHR ''a'', nl, CHR ''b'', nl] [swap_hunk [''b''] [''c'', ''d'']] ''f''
       = Inr u \<and>
     updated_content u = [CHR ''a'', nl, CHR ''c'', nl, CHR ''d'', nl]"
proof -
  have "occurs_once 0 [''a'', ''b''] [''b''] 0 False 1"
    by (auto simp: occurs_once_def occurs_def matches_at_exact less_Suc_eq drop_Cons'
        split: if_splits)
  then show ?thesis
    using unique_text_is_replaced [of "[''b'']" "[CHR ''a'', nl, CHR ''b'', nl]" 1 "[''c'', ''d'']" "''f''"]
    by (auto simp: example_lines work_estimate_def work_budget_def sat_mul_def sat_add_def u64_max_def
        render_text_def normalize_newlines_def replace_byte_def)
qed

text \<open>The report of a run is right. There is a range for every placement; the lines it counts
  as added are found in the new text at the line number it gives, its last line number is the last
  of them, no subtraction that computes these numbers can go below zero, and the totals account
  for the length of the new text.\<close>

theorem report_locates_every_change:
  assumes "apply_update_hunks_detailed content raw path = Inr u"
  shows "\<exists>s. place_hunks (length content) (text_lines (normalize_newlines content)) path raw = Inr s \<and>
    length (changed_ranges u) = length (placed s) \<and>
    (\<forall>ps qs st en new. placed s = ps @ (st, en, new) # qs \<longrightarrow>
      (let r = changed_ranges u ! length ps in
        range_added r = length new \<and> range_removed r = en - st \<and> st \<le> en \<and>
        removed_lines ps \<le> st \<and> 1 \<le> start_line r \<and> end_line r + 1 = start_line r + length new \<and>
        take (range_added r) (drop (start_line r - 1)
          (splice_all (placed s) (text_lines (normalize_newlines content)))) = new)) \<and>
    length (splice_all (placed s) (text_lines (normalize_newlines content))) + removals u
      = length (text_lines (normalize_newlines content)) + additions u"
proof -
  let ?ls = "text_lines (normalize_newlines content)"
  obtain s where s: "place_hunks (length content) ?ls path raw = Inr s"
    and u: "changed_ranges u = report_ranges 0 0 (placed s)" "additions u = added_lines (placed s)"
      "removals u = removed_lines (placed s)"
    using assms by (auto simp: apply_update_hunks_detailed_def Let_def bind_r_eq_Inr split: if_splits)
  have "let r = changed_ranges u ! length ps in
        range_added r = length new \<and> range_removed r = en - st \<and> st \<le> en \<and>
        removed_lines ps \<le> st \<and> 1 \<le> start_line r \<and> end_line r + 1 = start_line r + length new \<and>
        take (range_added r) (drop (start_line r - 1) (splice_all (placed s) ?ls)) = new"
    if p: "placed s = ps @ (st, en, new) # qs" for ps qs st en new
    using runtime_block [OF s p] by (auto simp: u p report_ranges_nth Let_def)
  then show ?thesis using s u runtime_edit(2) [OF s] by auto
qed

theorem report_locates_every_change_witness:
  "\<exists>u. apply_update_hunks_detailed [CHR ''a'', nl, CHR ''b'', nl] [swap_hunk [''b''] [''c'']] ''f'' = Inr u \<and> changed_ranges u \<noteq> [] \<and> length (changed_ranges u) \<noteq> 0"
proof -
  have "occurs_once 0 [''a'', ''b''] [''b''] 0 False 1"
    by (auto simp: occurs_once_def occurs_def matches_at_exact less_Suc_eq drop_Cons'
        split: if_splits)
  then obtain s where s: "place_hunks (length [CHR ''a'', nl, CHR ''b'', nl]) [''a'', ''b''] ''f'' [swap_hunk [''b''] [''c'']] = Inr s"
    "placed s \<noteq> []"
    using place_swap_hunk [of "[''b'']" "[''a'', ''b'']" 1 "length [CHR ''a'', nl, CHR ''b'', nl]" "[''c'']" "''f''"]
    by (auto simp: work_estimate_def work_budget_def sat_mul_def sat_add_def u64_max_def)
  then obtain u where u: "apply_update_hunks_detailed [CHR ''a'', nl, CHR ''b'', nl]
      [swap_hunk [''b''] [''c'']] ''f'' = Inr u"
    by (simp add: apply_update_hunks_detailed_def example_lines Let_def)
  then show ?thesis
    using report_locates_every_change [OF u] s
    by (auto simp: example_lines)
qed


section \<open>Text outside the placements\<close>

text \<open>Every line feed has its carriage return and every carriage return its line feed.\<close>

fun all_crlf :: "string \<Rightarrow> bool" where
  "all_crlf [] = True"
| "all_crlf [a] = (a \<noteq> cr \<and> a \<noteq> nl)"
| "all_crlf (a # b # s) = (if a = cr then b = nl \<and> all_crlf s else a \<noteq> nl \<and> all_crlf (b # s))"

lemma join_text_lines:
  "s \<noteq> [] \<Longrightarrow> join [nl] (text_lines s) @ (if last s = nl then [nl] else []) = s"
proof (induction s)
  case Nil then show ?case by simp
next
  case (Cons x s)
  show ?case
  proof (cases "s = []")
    case True then show ?thesis by simp
  next
    case False
    then obtain l ls where "text_lines s = l # ls" by (metis list.exhaust text_lines_eq_Nil)
    then show ?thesis using Cons False by (cases ls) auto
  qed
qed

lemma replace_byte_Cons: "replace_byte c r (x # s) = (if x = c then r else [x]) @ replace_byte c r s"
  by (simp add: replace_byte_def)

lemma all_crlf_restore: "all_crlf c \<Longrightarrow> replace_byte nl [cr, nl] (normalize_newlines c) = c"
  by (induction c rule: all_crlf.induct)
     (auto simp: normalize_newlines_def replace_byte_Cons replace_byte_def [of _ _ "[]"] split: if_splits)

lemma all_crlf_replace: "cr \<notin> set t \<Longrightarrow> all_crlf (replace_byte nl [cr, nl] t)"
proof (induction t)
  case (Cons x t)
  then show ?case
    by (cases "replace_byte nl [cr, nl] t") (auto simp: replace_byte_Cons)
qed (simp add: replace_byte_def)

lemma has_crlf_cr: "has_crlf c \<Longrightarrow> cr \<in> set c"
  by (induction c rule: has_crlf.induct) auto

lemma all_crlf_has: "all_crlf c \<Longrightarrow> cr \<in> set c \<Longrightarrow> has_crlf c"
  by (induction c rule: all_crlf.induct) (auto split: if_splits)

lemma render_normalized:
  "render_text c (text_lines (normalize_newlines c)) =
     (if has_crlf c then replace_byte nl [cr, nl] (normalize_newlines c) else normalize_newlines c)"
proof (cases "normalize_newlines c = []")
  case True
  then show ?thesis
    by (auto simp: render_text_def replace_byte_def Let_def)
next
  case False
  then have "c \<noteq> []" by (auto simp: normalize_newlines_def replace_byte_def)
  then show ?thesis
    using join_text_lines [OF False] False by (auto simp: render_text_def Let_def)
qed

text \<open>Splitting a file into lines and writing it back gives the same bytes exactly for the files
  that use one kind of line end: no carriage return at all, or a carriage return before every line
  feed and nowhere else. For these files, what a patch does not place stays as it was; in a file
  with mixed line ends, applying any placement also rewrites the ends of lines the patch does not
  mention.\<close>

theorem untouched_text_kept_iff_uniform:
  "render_text content (text_lines (normalize_newlines content)) = content \<longleftrightarrow>
     cr \<notin> set content \<or> all_crlf content"
proof (cases "has_crlf content")
  case True
  then have "replace_byte nl [cr, nl] (normalize_newlines content) = content \<longleftrightarrow> all_crlf content"
    using all_crlf_restore all_crlf_replace [OF normalize_newlines_no_cr, of content] by metis
  then show ?thesis using True has_crlf_cr by (simp add: render_normalized)
next
  case False
  then have "normalize_newlines content = content \<longleftrightarrow> cr \<notin> set content"
    using normalize_newlines_no_cr [of content] normalize_newlines_id by metis
  then show ?thesis using False all_crlf_has by (auto simp: render_normalized)
qed

theorem untouched_text_kept_iff_uniform_witness:
  "let content = [CHR ''a'', cr, nl, CHR ''b'', cr, nl] in
     render_text content (text_lines (normalize_newlines content)) = content"
  unfolding Let_def
  by (rule untouched_text_kept_iff_uniform [THEN iffD2]) simp

end
