(* ===== verification/Patch_Legacy.thy ===== *)
theory Patch_Legacy
  imports Patch_Update "HOL-Library.Product_Lexorder" "HOL-Library.Multiset"
begin

text \<open>
  The frozen patch engine, \<open>apply_update_hunks\<close> of \<open>crates/mtm-core/src/patch_legacy.rs\<close>. Every
  hunk is looked for in the whole file, byte for byte, and must stand there exactly once; the
  replacements are then sorted as tuples, checked for overlap and applied from the last to the
  first. A hunk without old lines is placed before the first line.
\<close>

definition msg_legacy_marker :: string where
  "msg_legacy_marker = ''Update lines must start with space, '' @ [squote] @ ''-'' @ [squote] @
     '' or '' @ [squote] @ ''+'' @ [squote] @ ''.''"

fun legacy_hunk_lines ::
  "string list \<Rightarrow> string list \<times> string list \<Rightarrow> (string list \<times> string list) result" where
  "legacy_hunk_lines [] (old, new) = Inr (old, new)"
| "legacy_hunk_lines (raw # rest) (old, new) =
     (if raw = kw_eof then legacy_hunk_lines rest (old, new)
      else case raw of
        [] \<Rightarrow> legacy_hunk_lines rest (old @ [[]], new @ [[]])
      | marker # text \<Rightarrow>
          if marker = CHR '' '' then legacy_hunk_lines rest (old @ [text], new @ [text])
          else if marker = CHR ''-'' then legacy_hunk_lines rest (old @ [text], new)
          else if marker = CHR ''+'' then legacy_hunk_lines rest (old, new @ [text])
          else Inl (patch_failed msg_legacy_marker))"

definition legacy_hunk :: "string list \<Rightarrow> (string list \<times> string list) result" where
  "legacy_hunk raw = legacy_hunk_lines raw ([], [])"

definition find_all :: "string list \<Rightarrow> string list \<Rightarrow> nat list" where
  "find_all ls needle =
     (if length ls < length needle then []
      else filter (\<lambda>i. take (length needle) (drop i ls) = needle)
        [0 ..< Suc (length ls - length needle)])"

definition legacy_not_found :: "string \<Rightarrow> nat \<Rightarrow> re_ctm_error" where
  "legacy_not_found path index =
     with_details (JObject [(''hunk_index'', JNumber (PosInt index))])
     (with_retryable True (with_category Validation (error_new ''PATCH_CONTEXT_NOT_FOUND''
       (''Patch context did not match in '' @ path @ ''.''))))"

definition legacy_ambiguous :: "string \<Rightarrow> nat \<Rightarrow> nat \<Rightarrow> re_ctm_error" where
  "legacy_ambiguous path index n =
     with_details (JObject [(''hunk_index'', JNumber (PosInt index)),
       (''match_count'', JNumber (PosInt n))])
     (with_retryable True (with_category Validation (error_new ''PATCH_CONTEXT_AMBIGUOUS''
       (''Patch context matched '' @ show_nat n @ '' locations in '' @ path @ ''.''))))"

definition legacy_overlap :: re_ctm_error where
  "legacy_overlap =
     with_category Validation (error_new ''PATCH_HUNKS_OVERLAP'' ''Patch hunks overlap.'')"

definition legacy_place ::
  "string list \<Rightarrow> string \<Rightarrow> nat \<times> string list \<times> string list \<Rightarrow> placement result" where
  "legacy_place ls path h = (case h of (index, old, new) \<Rightarrow>
     (let found = (if old = [] then [0] else find_all ls old) in
      if found = [] then Inl (legacy_not_found path index)
      else if 1 < length found then Inl (legacy_ambiguous path index (length found))
      else Inr (hd found, hd found + length old, new)))"

fun pairs_apart :: "placement list \<Rightarrow> bool" where
  "pairs_apart (p # q # ps) = (fst (snd p) \<le> fst q \<and> pairs_apart (q # ps))"
| "pairs_apart ps = True"

definition legacy_plan :: "string \<Rightarrow> string list list \<Rightarrow> string list \<Rightarrow> placement list result" where
  "legacy_plan path hs ls =
     bind_r (traverse_r legacy_hunk hs) (\<lambda>parsed.
     bind_r (traverse_r (legacy_place ls path) (List.enumerate 0 parsed)) (\<lambda>found.
       let replacements = sort found in
       if pairs_apart replacements then Inr replacements else Inl legacy_overlap))"

definition legacy_render :: "string \<Rightarrow> string list \<Rightarrow> string" where
  "legacy_render content updated =
     (let text = join [nl] updated in
      if has_crlf content then replace_byte nl [cr, nl] text else text)"

definition apply_update_hunks :: "string \<Rightarrow> string list list \<Rightarrow> string \<Rightarrow> string result" where
  "apply_update_hunks content hs path =
     (if hs = [] then Inr content
      else let ls = split_on nl (normalize_newlines content) in
        bind_r (legacy_plan path hs ls) (\<lambda>ps. Inr (legacy_render content (splice_all ps ls))))"

section \<open>The plan is a plan\<close>

text \<open>The old lines stand at line \<open>i\<close> and nowhere else.\<close>

definition sole_place :: "string list \<Rightarrow> string list \<Rightarrow> nat \<Rightarrow> bool" where
  "sole_place ls old i \<longleftrightarrow>
     {j. j + length old \<le> length ls \<and> take (length old) (drop j ls) = old} = {i}"

definition stands_at :: "string list \<Rightarrow> string list \<times> string list \<Rightarrow> placement \<Rightarrow> bool" where
  "stands_at ls h p \<longleftrightarrow> (case h of (old, new) \<Rightarrow>
     if old = [] then p = (0, 0, new)
     else \<exists>i. p = (i, i + length old, new) \<and> sole_place ls old i)"

lemma find_all_set:
  "set (find_all ls needle) = {j. j + length needle \<le> length ls \<and> take (length needle) (drop j ls) = needle}"
  by (auto simp: find_all_def simp del: upt_Suc)

lemma find_all_sole: "find_all ls old = [i] \<longleftrightarrow> sole_place ls old i"
proof
  assume "find_all ls old = [i]"
  then have "set (find_all ls old) = {i}" by simp
  then show "sole_place ls old i" by (simp only: sole_place_def find_all_set)
next
  assume "sole_place ls old i"
  then have "set (find_all ls old) = {i}" by (simp only: sole_place_def find_all_set)
  moreover have "distinct (find_all ls old)" by (simp add: find_all_def)
  ultimately show "find_all ls old = [i]" by (rule distinct_singleton)
qed

lemma legacy_place_stands: "legacy_place ls path (index, h) = Inr p \<longleftrightarrow> stands_at ls h p"
proof (cases h)
  case (Pair old new)
  show ?thesis
  proof (cases "find_all ls old")
    case Nil
    then have "\<not> sole_place ls old i" for i using find_all_sole [of ls old i] by simp
    then show ?thesis using Pair Nil by (auto simp: legacy_place_def stands_at_def)
  next
    case (Cons i js)
    have "sole_place ls old j \<longleftrightarrow> js = [] \<and> j = i" for j
      using find_all_sole [of ls old j] Cons by auto
    then show ?thesis using Pair Cons by (auto simp: legacy_place_def stands_at_def Let_def)
  qed
qed

lemma legacy_place_bounds: "legacy_place ls path h = Inr (s, e, new) \<Longrightarrow> s \<le> e \<and> e \<le> length ls"
proof -
  obtain index h' where Pair: "h = (index, h')" by (metis surj_pair)
  assume "legacy_place ls path h = Inr (s, e, new)"
  then have "stands_at ls h' (s, e, new)" by (simp add: Pair legacy_place_stands)
  moreover have "i + length old \<le> length ls" if "sole_place ls old i" for old i
    using that unfolding sole_place_def by blast
  ultimately show ?thesis by (auto simp: stands_at_def split: prod.splits if_splits)
qed

lemma pairs_apart_ordered:
  "pairs_apart ps \<Longrightarrow> \<forall>(s, e, new) \<in> set ps. s \<le> e \<and> e \<le> n \<Longrightarrow>
     (case ps of [] \<Rightarrow> True | (s, _) # _ \<Rightarrow> pos \<le> s) \<Longrightarrow> pos \<le> n \<Longrightarrow> ordered_from pos n ps"
proof (induction ps arbitrary: pos rule: pairs_apart.induct)
  case (1 p q ps)
  obtain s e new where p: "p = (s, e, new)" by (cases p)
  have "ordered_from e n (q # ps)"
    using 1 p by (intro 1(1)) (auto split: prod.splits)
  then show ?case using 1(3,4) p by simp
qed auto

lemma legacy_plan_Inr:
  assumes "legacy_plan path hs ls = Inr ps"
  obtains parsed found where "traverse_r legacy_hunk hs = Inr parsed"
    "traverse_r (legacy_place ls path) (List.enumerate 0 parsed) = Inr found"
    "ps = sort found" "pairs_apart ps" "\<forall>(s, e, new) \<in> set ps. s \<le> e \<and> e \<le> length ls"
proof -
  obtain parsed found where p: "traverse_r legacy_hunk hs = Inr parsed"
    "traverse_r (legacy_place ls path) (List.enumerate 0 parsed) = Inr found"
    "ps = sort found" "pairs_apart ps"
    using assms by (auto simp: legacy_plan_def bind_r_eq_Inr Let_def split: if_splits)
  moreover have "\<forall>(s, e, new) \<in> set ps. s \<le> e \<and> e \<le> length ls"
  proof (clarify)
    fix s e new assume "(s, e, new) \<in> set ps"
    then obtain h where "legacy_place ls path h = Inr (s, e, new)"
      using traverse_r_set [OF p(2), of "(s, e, new)"] p(3) by (metis set_sort)
    then show "s \<le> e \<and> e \<le> length ls" by (rule legacy_place_bounds)
  qed
  ultimately show ?thesis using that by blast
qed

lemma legacy_plan_ordered:
  assumes "legacy_plan path hs ls = Inr ps"
  shows "ordered_from 0 (length ls) ps"
  using assms
proof (rule legacy_plan_Inr)
  assume "pairs_apart ps" "\<forall>(s, e, new) \<in> set ps. s \<le> e \<and> e \<le> length ls"
  then show ?thesis by (rule pairs_apart_ordered) (auto split: list.splits)
qed

interpretation legacy_engine: placement_engine "\<lambda>(path, hs). legacy_plan path hs"
  by unfold_locales (auto intro: legacy_plan_ordered)

lemma legacy_edit: "legacy_plan path hs ls = Inr ps \<Longrightarrow> splice_all ps ls = weave ls 0 ps"
  using legacy_engine.edit_is_weave [of "(path, hs)" ls ps] by simp

lemma traverse_enumerate:
  "traverse_r f (List.enumerate n xs) = Inr ys \<Longrightarrow> list_all2 (\<lambda>x y. \<exists>i. f (i, x) = Inr y) xs ys"
  by (induction xs arbitrary: n ys) (auto simp: bind_r_eq_Inr)

text \<open>C31. A successful run of the frozen engine applies every hunk of the patch exactly once: the
  placements are a permutation of the hunks' own places, each of them the only place where the
  old lines of the hunk stand, they do not overlap, and the new text is the file's lines with just
  these blocks exchanged.\<close>

theorem legacy_refines_spec:
  assumes "apply_update_hunks content hs path = Inr new_text" "hs \<noteq> []"
  shows "\<exists>parsed found ps. traverse_r legacy_hunk hs = Inr parsed \<and>
    list_all2 (stands_at (split_on nl (normalize_newlines content))) parsed found \<and>
    mset ps = mset found \<and>
    ordered_from 0 (length (split_on nl (normalize_newlines content))) ps \<and>
    new_text = legacy_render content (weave (split_on nl (normalize_newlines content)) 0 ps)"
proof -
  let ?ls = "split_on nl (normalize_newlines content)"
  obtain ps where ps: "legacy_plan path hs ?ls = Inr ps"
    "new_text = legacy_render content (splice_all ps ?ls)"
    using assms by (auto simp: apply_update_hunks_def Let_def bind_r_eq_Inr)
  obtain parsed found where p: "traverse_r legacy_hunk hs = Inr parsed"
    "traverse_r (legacy_place ?ls path) (List.enumerate 0 parsed) = Inr found" "ps = sort found"
    using legacy_plan_Inr [OF ps(1)] by blast
  have "list_all2 (stands_at ?ls) parsed found"
    using traverse_enumerate [OF p(2)] by (simp add: legacy_place_stands)
  moreover have "new_text = legacy_render content (weave ?ls 0 (sort found))"
    "ordered_from 0 (length ?ls) (sort found)"
    using ps p(3) legacy_edit [OF ps(1)] legacy_plan_ordered [OF ps(1)] by simp_all
  ultimately show ?thesis
    using p(1) by (intro exI [of _ parsed] exI [of _ found] exI [of _ "sort found"]) simp
qed

lemma example_additions:
  "apply_update_hunks ''x'' [[''+b''], [''+a'']] path =
     Inr [CHR ''a'', nl, CHR ''b'', nl, CHR ''x'']"
  by (simp add: apply_update_hunks_def normalize_newlines_def replace_byte_def legacy_plan_def
      legacy_hunk_def kw_eof_def legacy_place_def splice_all_def splice_def legacy_render_def)

theorem legacy_refines_spec_witness:
  "\<exists>ps. mset ps = {#(0, 0, [''b'']), (0, 0, [''a''])#} \<and>
     [CHR ''a'', nl, CHR ''b'', nl, CHR ''x''] = legacy_render ''x'' (weave [''x''] 0 ps)"
  using legacy_refines_spec [OF example_additions [of "''f''"]]
  by (auto simp: normalize_newlines_def replace_byte_def legacy_hunk_def kw_eof_def stands_at_def
      list_all2_Cons1)

text \<open>Hunks that only add lines do not keep their order in the frozen engine: they all stand at
  line 0, and sorting the placements as tuples orders them by their text. A patch that adds first
  \<open>b\<close> and then \<open>a\<close> writes \<open>a\<close> before \<open>b\<close>, and the same text as the patch with its hunks exchanged.\<close>

theorem legacy_additions_sorted_by_text:
  "apply_update_hunks ''x'' [[''+b''], [''+a'']] path =
     Inr [CHR ''a'', nl, CHR ''b'', nl, CHR ''x''] \<and>
   apply_update_hunks ''x'' [[''+a''], [''+b'']] path =
     Inr [CHR ''a'', nl, CHR ''b'', nl, CHR ''x'']"
  by (simp add: example_additions)
     (simp add: apply_update_hunks_def normalize_newlines_def replace_byte_def legacy_plan_def
      legacy_hunk_def kw_eof_def legacy_place_def splice_all_def splice_def legacy_render_def)

end
