(* ===== verification/Shell_Segments.thy ===== *)
theory Shell_Segments
  imports Contracts
begin

text \<open>
  The scanner for command lists, \<open>crates/mtm-core/src/shell_segments.rs\<close>. It walks over the
  characters of a command with a quote, an escape flag and the start of the current segment, and
  gives up (\<open>None\<close>) on anything that is more than a list of simple commands.

  The model walks over bytes: every character the scanner looks at is ASCII, and the bytes of
  other characters take the same steps as the character they belong to. The current segment is
  kept as the bytes read since its start.

  The reference definition below is a lexer with five states that marks every byte with the
  quoting in force there; the scanner is shown equivalent to splitting at the bare separators.
\<close>

definition max_segments :: nat where "max_segments = 1024"
definition max_source_bytes :: nat where "max_source_bytes = 1048576"

definition kw_parse_limit :: string where "kw_parse_limit = ''NATIVE_EXECUTABLE_PARSE_LIMIT''"
definition kw_parse_failed :: string where "kw_parse_failed = ''NATIVE_EXECUTABLE_PARSE_FAILED''"

definition msg_boundaries :: string where
  "msg_boundaries = ''Literal shell command boundaries could not be safely collected.''"

definition segment_error :: "string \<Rightarrow> re_ctm_error" where
  "segment_error c = with_category Security (error_new c msg_boundaries)"

definition scalar_parameter_after :: "string \<Rightarrow> bool" where
  "scalar_parameter_after rest = (case rest of [] \<Rightarrow> False
     | b # _ \<Rightarrow> is_ascii_alphanumeric b \<or> b \<in> set ''_@*#?-$!'')"

text \<open>A finished segment is kept when it is not blank; one too many is an error.\<close>

definition push_segment :: "string \<Rightarrow> string list \<Rightarrow> string list result" where
  "push_segment cur segs =
     (if is_blank cur then Inr segs
      else if max_segments < length (segs @ [cur]) then Inl (segment_error kw_parse_limit)
      else Inr (segs @ [cur]))"

function scan ::
  "bool \<Rightarrow> char option \<Rightarrow> bool \<Rightarrow> string \<Rightarrow> string list \<Rightarrow> string \<Rightarrow> string list option result" where
  "scan parameters qt escaped cur segs [] =
     (if qt \<noteq> None \<or> escaped then Inl (segment_error kw_parse_failed)
      else if \<not> is_blank cur
      then (if length segs = max_segments then Inl (segment_error kw_parse_limit)
            else Inr (Some (segs @ [cur])))
      else Inr (Some segs))"
| "scan parameters qt escaped cur segs (c # rest) =
     (if qt = Some squote
      then scan parameters (if c = squote then None else qt) escaped (cur @ [c]) segs rest
      else if escaped
      then (if c = nl then Inr None else scan parameters qt False (cur @ [c]) segs rest)
      else if c = backslash then scan parameters qt True (cur @ [c]) segs rest
      else if c = backtick \<or> c = CHR ''$'' \<and> (\<not> parameters \<or> \<not> scalar_parameter_after rest)
      then Inr None
      else if qt \<noteq> None
      then scan parameters (if qt = Some c then None else qt) escaped (cur @ [c]) segs rest
      else if c = squote \<or> c = dquote then scan parameters (Some c) escaped (cur @ [c]) segs rest
      else if (c = nl \<or> c = cr) \<and> parameters
      then bind_r (push_segment cur segs) (\<lambda>segs. scan parameters qt escaped [] segs rest)
      else if c = nl \<or> c = cr \<or> c \<in> set ''<>(){}#'' then Inr None
      else if c \<in> set '';|&''
      then bind_r (push_segment cur segs) (\<lambda>segs. scan parameters qt escaped [] segs rest)
      else scan parameters qt escaped (cur @ [c]) segs rest)"
  by pat_completeness auto
termination
  by (relation "measure (\<lambda>(p, q, e, cur, segs, rest). length rest)") auto

definition command_segments :: "string \<Rightarrow> bool \<Rightarrow> string list option result" where
  "command_segments command parameters =
     (if max_source_bytes < length command then Inl (segment_error kw_parse_limit)
      else scan parameters None False [] [] command)"

definition literal_command_segments :: "string \<Rightarrow> string list option result" where
  "literal_command_segments command = command_segments command False"

definition executable_command_segments :: "string \<Rightarrow> string list option result" where
  "executable_command_segments command = command_segments command True"

section \<open>A lexer that marks every byte\<close>

datatype quoting = Bare | InSingle | InDouble | Escaped | EscapedInDouble

fun quoting_step :: "quoting \<Rightarrow> char \<Rightarrow> quoting" where
  "quoting_step Bare c =
     (if c = backslash then Escaped else if c = squote then InSingle
      else if c = dquote then InDouble else Bare)"
| "quoting_step InSingle c = (if c = squote then Bare else InSingle)"
| "quoting_step InDouble c =
     (if c = backslash then EscapedInDouble else if c = dquote then Bare else InDouble)"
| "quoting_step Escaped c = Bare"
| "quoting_step EscapedInDouble c = InDouble"

definition is_separator :: "bool \<Rightarrow> quoting \<Rightarrow> char \<Rightarrow> bool" where
  "is_separator parameters q c \<longleftrightarrow>
     q = Bare \<and> (c \<in> set '';|&'' \<or> parameters \<and> (c = nl \<or> c = cr))"

text \<open>What makes the scanner give up: grammar beyond a list of simple commands, an expansion, a
  line continuation.\<close>

definition is_refused :: "bool \<Rightarrow> quoting \<Rightarrow> char \<Rightarrow> string \<Rightarrow> bool" where
  "is_refused parameters q c rest \<longleftrightarrow>
     (case q of
        Bare \<Rightarrow> c = backtick \<or> c = CHR ''$'' \<and> \<not> (parameters \<and> scalar_parameter_after rest) \<or>
          c \<in> set ''<>(){}#'' \<or> \<not> parameters \<and> (c = nl \<or> c = cr)
      | InDouble \<Rightarrow> c = backtick \<or> c = CHR ''$'' \<and> \<not> (parameters \<and> scalar_parameter_after rest)
      | InSingle \<Rightarrow> False
      | _ \<Rightarrow> c = nl)"

fun end_quoting :: "quoting \<Rightarrow> string \<Rightarrow> quoting" where
  "end_quoting q [] = q"
| "end_quoting q (c # rest) = end_quoting (quoting_step q c) rest"

fun any_refused :: "bool \<Rightarrow> quoting \<Rightarrow> string \<Rightarrow> bool" where
  "any_refused parameters q [] = False"
| "any_refused parameters q (c # rest) =
     (is_refused parameters q c rest \<or> any_refused parameters (quoting_step q c) rest)"

fun split_bare :: "bool \<Rightarrow> quoting \<Rightarrow> string \<Rightarrow> string \<Rightarrow> string list" where
  "split_bare parameters q cur [] = [cur]"
| "split_bare parameters q cur (c # rest) =
     (if is_separator parameters q c
      then cur # split_bare parameters (quoting_step q c) [] rest
      else split_bare parameters (quoting_step q c) (cur @ [c]) rest)"

definition nonblank :: "string list \<Rightarrow> string list" where
  "nonblank ss = filter (\<lambda>s. \<not> is_blank s) ss"

fun quoting_of :: "char option \<Rightarrow> bool \<Rightarrow> quoting" where
  "quoting_of None False = Bare"
| "quoting_of None True = Escaped"
| "quoting_of (Some c) e = (if c = squote then InSingle else if e then EscapedInDouble else InDouble)"

section \<open>The scanner agrees with the lexer\<close>

lemma nonblank_simps [simp]:
  "nonblank [] = []" "nonblank (s # ss) = (if is_blank s then nonblank ss else s # nonblank ss)"
  by (simp_all add: nonblank_def)

lemma quoting_of_simps:
  "quoting_of (Some squote) e = InSingle"
  "quoting_of (Some dquote) False = InDouble" "quoting_of (Some dquote) True = EscapedInDouble"
  by simp_all

lemma push_segment_Inr:
  "length segs \<le> max_segments \<Longrightarrow>
     push_segment cur segs = Inr segs' \<longleftrightarrow> segs' = segs @ nonblank [cur] \<and> length segs' \<le> max_segments"
  by (auto simp: push_segment_def)

declare scan.simps [simp del]

definition scannable :: "char option \<Rightarrow> bool \<Rightarrow> bool" where
  "scannable q e \<longleftrightarrow> q = None \<or> q = Some dquote \<or> (q = Some squote \<and> \<not> e)"

lemma scannableE [consumes 1, case_names bare escaped single double escaped_double]:
  assumes "scannable q e"
  obtains "q = None" "\<not> e" | "q = None" "e" | "q = Some squote" "\<not> e" | "q = Some dquote" "\<not> e"
    | "q = Some dquote" "e"
  using assms by (auto simp: scannable_def)

lemma scan_iff:
  assumes "scannable q e" "length segs \<le> max_segments"
  shows "scan p q e cur segs rest = Inr (Some out) \<longleftrightarrow>
    \<not> any_refused p (quoting_of q e) rest \<and> end_quoting (quoting_of q e) rest = Bare \<and>
    out = segs @ nonblank (split_bare p (quoting_of q e) cur rest) \<and> length out \<le> max_segments"
  using assms
proof (induction rest arbitrary: q e cur segs)
  case Nil
  then show ?case by (cases rule: scannableE) (auto simp: scan.simps)
next
  case (Cons c rest)
  note step = scan.simps(2)
  show ?case
    using Cons.prems(1)
  proof (cases rule: scannableE)
    case single
    then show ?thesis
      using Cons.IH [of None False segs] Cons.IH [of "Some squote" False segs] Cons.prems(2)
      by (auto simp add: step is_refused_def is_separator_def scannable_def)
  next
    case escaped
    then show ?thesis using Cons.IH [of q False segs] Cons.prems(2)
      by (simp add: step is_refused_def is_separator_def scannable_def)
  next
    case escaped_double
    then show ?thesis using Cons.IH [of q False segs] Cons.prems(2)
      by (simp add: step is_refused_def is_separator_def scannable_def)
  next
    case double
    then show ?thesis
      using Cons.IH [of q True segs] Cons.IH [of "if q = Some c then None else q" e segs] Cons.prems(2)
      by (auto simp add: step is_refused_def is_separator_def scannable_def)
  next
    case bare
    show ?thesis
    proof (cases "is_separator p Bare c \<and> c \<noteq> backslash")
      case True
      have len: "length segs \<le> max_segments" by fact
      have IH: "length segs' \<le> max_segments \<Longrightarrow> scan p None False [] segs' rest = Inr (Some out) \<longleftrightarrow>
          \<not> any_refused p Bare rest \<and> end_quoting Bare rest = Bare \<and>
          out = segs' @ nonblank (split_bare p Bare [] rest) \<and> length out \<le> max_segments" for segs'
        using Cons.IH [of None False segs' "[]"] by (simp add: scannable_def)
      have "scan p q e cur segs (c # rest) =
          bind_r (push_segment cur segs) (\<lambda>segs. scan p None False [] segs rest)"
        using True bare by (auto simp: step is_separator_def)
      then have "scan p q e cur segs (c # rest) = Inr (Some out) \<longleftrightarrow>
          (\<exists>segs'. segs' = segs @ nonblank [cur] \<and> length segs' \<le> max_segments \<and>
             scan p None False [] segs' rest = Inr (Some out))"
        using push_segment_Inr [OF len] by (auto simp: bind_r_eq_Inr)
      also have "\<dots> \<longleftrightarrow> \<not> any_refused p Bare rest \<and> end_quoting Bare rest = Bare \<and>
          out = (segs @ nonblank [cur]) @ nonblank (split_bare p Bare [] rest) \<and>
          length out \<le> max_segments"
        using IH by auto
      finally show ?thesis
        using True bare by (auto simp: is_refused_def is_separator_def)
    next
      case False
      then show ?thesis
        using bare Cons.IH [of None False segs] Cons.IH [of None True segs]
          Cons.IH [of "Some squote" False segs] Cons.IH [of "Some dquote" False segs] Cons.prems(2)
        by (auto simp add: step is_refused_def is_separator_def scannable_def)
    qed
  qed
qed


text \<open>C24. The scanner finds the segments of a command exactly as the lexer describes them: it
  answers with a list if and only if the source is within its bound, nothing in it is refused, no
  quote or escape is left open and there are at most 1024 segments; and then the segments are the
  nonblank pieces between the separators that stand outside every quote and escape, all of them,
  in order and with their quotes still on.\<close>

theorem segments_split_at_bare_separators:
  "command_segments command parameters = Inr (Some segs) \<longleftrightarrow>
     length command \<le> max_source_bytes \<and> \<not> any_refused parameters Bare command \<and>
     end_quoting Bare command = Bare \<and>
     segs = nonblank (split_bare parameters Bare [] command) \<and> length segs \<le> max_segments"
  using scan_iff [of None False "[]" parameters "[]" command segs]
  by (auto simp: command_segments_def scannable_def)

text \<open>An unfinished quote or escape is an error in both modes, once nothing else was refused.\<close>

lemma is_refused_mono: "is_refused True q c s \<Longrightarrow> is_refused False q c s"
  by (cases q) (auto simp: is_refused_def)

lemma any_refused_mono: "any_refused True q s \<Longrightarrow> any_refused False q s"
proof (induction s arbitrary: q)
  case (Cons c s)
  then show ?case using is_refused_mono [of q c s] by (simp del: quoting_step.simps) blast
qed simp

lemma no_newline_separator:
  "\<not> any_refused False q s \<Longrightarrow> split_bare True q cur s = split_bare False q cur s"
proof (induction s arbitrary: q cur)
  case (Cons c s)
  have "is_separator True q c = is_separator False q c"
    using Cons.prems by (cases q) (auto simp: is_refused_def is_separator_def)
  then show ?case using Cons by (simp del: quoting_step.simps)
qed simp

text \<open>The two modes agree where the stricter one answers: what risk classification takes for
  the segments of a command is what the collection of its executables works on.\<close>

theorem literal_segments_are_executable_segments:
  assumes "literal_command_segments command = Inr (Some segs)"
  shows "executable_command_segments command = Inr (Some segs)"
proof -
  have l: "length command \<le> max_source_bytes" "\<not> any_refused False Bare command"
    "end_quoting Bare command = Bare" "segs = nonblank (split_bare False Bare [] command)"
    "length segs \<le> max_segments"
    using assms scan_iff [of None False "[]" False "[]" command segs]
    by (auto simp: literal_command_segments_def command_segments_def scannable_def split: if_splits)
  then show ?thesis
    using scan_iff [of None False "[]" True "[]" command segs] any_refused_mono
    by (auto simp: executable_command_segments_def command_segments_def scannable_def
        no_newline_separator)
qed

lemma example_literal:
  "literal_command_segments (''printf '' @ [squote] @ '';'' @ [squote] @ '';pwd|cat'') =
     Inr (Some [''printf '' @ [squote] @ '';'' @ [squote], ''pwd'', ''cat''])"
  by (simp add: literal_command_segments_def command_segments_def max_source_bytes_def scan.simps
      push_segment_def eval_trim max_segments_def)

theorem literal_segments_are_executable_segments_witness:
  "executable_command_segments (''printf '' @ [squote] @ '';'' @ [squote] @ '';pwd|cat'') =
     Inr (Some [''printf '' @ [squote] @ '';'' @ [squote], ''pwd'', ''cat''])"
  by (rule literal_segments_are_executable_segments [OF example_literal])

end
