(* ===== verification/Shell_Candidates.thy ===== *)
theory Shell_Candidates
  imports Shell_Segments
begin

text \<open>
  Which executables a command can run, for the inspection of their files: the functions
  \<open>shell_executable_candidates\<close>, \<open>append_segment_candidates\<close> and their helpers of
  \<open>crates/mtm-core/src/native_permission.rs\<close>, and \<open>crates/mtm-core/src/shell_candidates.rs\<close>.

  \<open>shell_words::split\<close> is code of another crate: it is the parameter \<open>split\<close>, \<open>None\<close> where the
  function returns an error. The functions call each other for the script of a nested shell, one
  level deeper; the model passes that call as the argument \<open>nested\<close> and ties the knot with fuel.
  Every call of it goes one level deeper and level 5 is an error, so fuel 6 is never used up
  (\<open>shell_executable_candidates_unfold\<close> is the source's recursion, without fuel).
\<close>

section \<open>Words\<close>

definition replace_backslash :: "string \<Rightarrow> string" where
  "replace_backslash s = replace_byte backslash ''/'' s"

definition executable_basename :: "string \<Rightarrow> string" where
  "executable_basename v = map to_lower (last (split_on (CHR ''/'') (replace_backslash v)))"

definition is_shell_executable :: "string \<Rightarrow> bool" where
  "is_shell_executable v \<longleftrightarrow>
     executable_basename v \<in> set [''sh'', ''bash'', ''zsh'', ''dash'', ''ksh'']"

definition shell_keywords :: "string list" where
  "shell_keywords = [''if'', ''then'', ''else'', ''elif'', ''fi'', ''for'', ''while'', ''until'',
     ''do'', ''done'', ''case'', ''esac'', ''in'', ''function'', ''{'', ''}'', ''('', '')'']"

definition is_shell_keyword :: "string \<Rightarrow> bool" where
  "is_shell_keyword name \<longleftrightarrow> name \<in> set shell_keywords"

definition is_assignment :: "string \<Rightarrow> bool" where
  "is_assignment token =
     (case split_once (CHR ''='') token of None \<Rightarrow> False
      | Some (name, _) \<Rightarrow> name \<noteq> [] \<and>
          (hd name = CHR ''_'' \<or> is_ascii_alphabetic (hd name)) \<and>
          list_all (\<lambda>b. b = CHR ''_'' \<or> is_ascii_alphanumeric b) (tl name))"

definition is_shell_control_operator :: "string \<Rightarrow> bool" where
  "is_shell_control_operator t \<longleftrightarrow> t \<in> set [''|'', ''||'', ''&'', ''&&'', '';'']"

fun shell_script_argument :: "string list \<Rightarrow> string option" where
  "shell_script_argument [] = None"
| "shell_script_argument (item # rest) =
     (if item \<in> set [''-c'', ''-ec'', ''-ce'', ''--command''] \<and> rest \<noteq> [] then Some (hd rest)
      else shell_script_argument rest)"

definition keyword_rest :: "string \<Rightarrow> string \<Rightarrow> string option" where
  "keyword_rest segment keyword =
     (case strip_prefix keyword segment of None \<Rightarrow> None
      | Some rest \<Rightarrow> if rest = [] \<or> ws_prefix rest \<noteq> 0 then Some rest else None)"

definition variable_name :: "string \<Rightarrow> bool" where
  "variable_name v \<longleftrightarrow> v \<noteq> [] \<and> (hd v = CHR ''_'' \<or> is_ascii_alphabetic (hd v)) \<and>
     list_all (\<lambda>b. b = CHR ''_'' \<or> is_ascii_alphabetic b \<or> is_ascii_digit b) (tl v)"

section \<open>One simple command\<close>

type_synonym nested_call = "string \<Rightarrow> nat \<Rightarrow> string list result"

definition nested_script :: "nested_call \<Rightarrow> nat \<Rightarrow> string list \<Rightarrow> string list result" where
  "nested_script nested depth ws =
     (if ws \<noteq> [] \<and> is_shell_executable (hd ws)
      then case shell_script_argument ws of None \<Rightarrow> Inr []
        | Some script \<Rightarrow> nested script (depth + 1)
      else Inr [])"

function skip_env :: "string list \<Rightarrow> string list" where
  "skip_env ws =
     (case ws of [] \<Rightarrow> []
      | w # rest \<Rightarrow>
          if starts_with ''-'' w \<or> is_assignment w
          then (if w = ''-u'' \<or> w = ''--unset'' then skip_env (drop 1 rest) else skip_env rest)
          else ws)"
  by pat_completeness auto
termination
  by (relation "measure length") auto

declare skip_env.simps [simp del]

lemma length_skip_env: "length (skip_env ws) \<le> length ws"
proof (induction ws rule: skip_env.induct)
  case (1 ws)
  then show ?case by (force simp: skip_env.simps [of ws] split: list.splits)
qed

definition wrappers :: "string list" where
  "wrappers = [''env'', ''command'', ''exec'', ''nohup'', ''setsid'', ''time'']"

function skip_wrappers :: "string list \<Rightarrow> string list" where
  "skip_wrappers [] = []"
| "skip_wrappers (w # ws) =
     (if executable_basename w \<in> set wrappers
      then skip_wrappers (if executable_basename w = ''env'' then skip_env ws else ws)
      else if is_shell_keyword (executable_basename w) then skip_wrappers ws
      else w # ws)"
  by pat_completeness auto
termination
  by (relation "measure length") (auto simp: le_imp_less_Suc length_skip_env)

definition append_segment_candidates ::
  "nested_call \<Rightarrow> string list \<Rightarrow> nat \<Rightarrow> string list \<Rightarrow> string list result" where
  "append_segment_candidates nested segment depth output =
     (case skip_wrappers (dropWhile is_assignment segment) of [] \<Rightarrow> Inr output
      | w # ws \<Rightarrow> bind_r (nested_script nested depth (w # ws)) (\<lambda>more. Inr (output @ [w] @ more)))"

definition msg_collection :: string where
  "msg_collection = ''Shell command collection requires supported literal lists, bounded for loops and command queries; use literal argv for unsupported syntax.''"

definition collection_error :: re_ctm_error where
  "collection_error = with_category Security (error_new kw_parse_failed msg_collection)"

text \<open>The options of the \<open>command\<close> builtin: whether one asks for a name only, whether one asks for
  the default \<open>PATH\<close>, and the words that follow.\<close>

fun command_options :: "bool \<Rightarrow> bool \<Rightarrow> string list \<Rightarrow> (bool \<times> bool \<times> string list) result" where
  "command_options query default_path [] = Inr (query, default_path, [])"
| "command_options query default_path (w # ws) =
     (if w = ''--'' then Inr (query, default_path, ws)
      else case strip_prefix ''-'' w of
        None \<Rightarrow> Inr (query, default_path, w # ws)
      | Some flags \<Rightarrow>
          if flags = [] \<or> \<not> list_all (\<lambda>b. b \<in> set ''pvV'') flags then Inl collection_error
          else command_options (query \<or> CHR ''v'' \<in> set flags \<or> CHR ''V'' \<in> set flags)
                 (default_path \<or> CHR ''p'' \<in> set flags) ws)"

lemma command_options_length:
  "command_options q d ws = Inr (q', d', rest) \<Longrightarrow> length rest \<le> length ws"
  by (induction q d ws rule: command_options.induct) (fastforce split: if_splits option.splits)+

function append_simple ::
  "nested_call \<Rightarrow> string list \<Rightarrow> nat \<Rightarrow> string list \<Rightarrow> string list result" where
  "append_simple nested [] depth output = Inr output"
| "append_simple nested (first # ws) depth output =
     (if first = ''command'' then
        (case command_options False False ws of Inl e \<Rightarrow> Inl e
         | Inr (query, default_path, rest) \<Rightarrow>
             if query then Inr output
             else if default_path then Inl collection_error
             else if rest = [] then Inr output
             else if 4 \<le> depth then Inl collection_error
             else append_simple nested rest (depth + 1) output)
      else if CHR ''/'' \<in> set first \<and>
        executable_basename first \<notin> set [''env'', ''exec'', ''nohup'', ''setsid'', ''time'']
      then bind_r (nested_script nested depth (first # ws)) (\<lambda>more. Inr (output @ [first] @ more))
      else append_segment_candidates nested (first # ws) depth output)"
  by pat_completeness auto
termination
  by (relation "measure (\<lambda>(n, ws, d, out). length ws)")
     (auto simp: le_imp_less_Suc dest: command_options_length)


declare append_simple.simps(2) [simp del]

section \<open>Lists and for loops\<close>

definition split_words :: "(string \<Rightarrow> string list option) \<Rightarrow> string \<Rightarrow> string list result" where
  "split_words split segment = ok_or (split segment) collection_error"

definition compound_keywords :: "string list" where
  "compound_keywords = [''if'', ''then'', ''elif'', ''else'', ''fi'', ''while'', ''until'', ''case'',
     ''esac'', ''select'', ''function'']"

definition body_keywords :: "string list" where
  "body_keywords = [''if'', ''while'', ''until'', ''case'', ''select'', ''function'']"

definition begins_with_any :: "string list \<Rightarrow> string \<Rightarrow> bool" where
  "begins_with_any keywords segment \<longleftrightarrow> list_ex (\<lambda>k. keyword_rest segment k \<noteq> None) keywords"

text \<open>The words of a loop header are its name, \<open>in\<close> and the list; the list is not run.\<close>

definition loop_header_ok :: "string list \<Rightarrow> nat \<Rightarrow> bool" where
  "loop_header_ok ws depth_of_loops \<longleftrightarrow>
     2 \<le> length ws \<and> variable_name (ws ! 1) \<and> (length ws = 2 \<or> ws ! 2 = ''in'') \<and>
     depth_of_loops < 32"

text \<open>One segment, after its \<open>do\<close> has been taken off. \<open>loops\<close> is the stack of open loops, the
  innermost first; \<open>True\<close> marks a header that awaits its \<open>do\<close>.\<close>

definition collect_segment ::
  "(string \<Rightarrow> string list option) \<Rightarrow> nested_call \<Rightarrow> nat \<Rightarrow> string \<Rightarrow> bool list \<Rightarrow> string list
    \<Rightarrow> (bool list \<times> string list) option result" where
  "collect_segment split nested depth segment loops candidates =
     (if begins_with_any body_keywords segment then Inr None
      else if keyword_rest segment ''for'' \<noteq> None
      then bind_r (split_words split segment) (\<lambda>ws.
        if loop_header_ok ws (length loops) then Inr (Some (True # loops, candidates))
        else Inl collection_error)
      else case keyword_rest segment ''done'' of
        Some rest \<Rightarrow>
          (case loops of False # loops' \<Rightarrow>
             if is_blank rest then Inr (Some (loops', candidates)) else Inl collection_error
           | _ \<Rightarrow> Inl collection_error)
      | None \<Rightarrow>
          if segment = [] then Inr (Some (loops, candidates))
          else bind_r (split_words split segment) (\<lambda>ws.
            map_ok (\<lambda>c. Some (loops, c)) (append_simple nested ws depth candidates)))"

fun collect ::
  "(string \<Rightarrow> string list option) \<Rightarrow> nested_call \<Rightarrow> nat \<Rightarrow> string list \<Rightarrow> bool list \<Rightarrow> string list
    \<Rightarrow> string list option result" where
  "collect split nested depth [] loops candidates =
     (if loops \<noteq> [] then Inl collection_error else Inr (Some candidates))"
| "collect split nested depth (raw # segments) loops candidates =
     bind_r (case keyword_rest (trim raw) ''do'' of
        Some rest \<Rightarrow> (case loops of True # loops' \<Rightarrow> Inr (False # loops', trim_start rest)
          | _ \<Rightarrow> Inl collection_error)
      | None \<Rightarrow> (case loops of True # _ \<Rightarrow> Inl collection_error | _ \<Rightarrow> Inr (loops, trim raw)))
     (\<lambda>(loops, segment).
        bind_r (collect_segment split nested depth segment loops candidates) (\<lambda>r. case r of
          None \<Rightarrow> Inr None
        | Some (loops, candidates) \<Rightarrow> collect split nested depth segments loops candidates))"

definition simple_candidates ::
  "(string \<Rightarrow> string list option) \<Rightarrow> nested_call \<Rightarrow> string \<Rightarrow> nat \<Rightarrow> string list option result" where
  "simple_candidates split nested command depth =
     bind_r (executable_command_segments command) (\<lambda>r. case r of
       None \<Rightarrow> Inr None
     | Some segments \<Rightarrow>
         if list_ex (\<lambda>s. begins_with_any compound_keywords (trim s)) segments then Inr None
         else collect split nested depth segments [] [])"

section \<open>The three ways to collect\<close>

definition msg_nested :: string where
  "msg_nested = ''Nested shell command parsing exceeded its fixed bound.''"
definition msg_literal_segment :: string where
  "msg_literal_segment = ''Invalid literal shell segment.''"
definition msg_fact_collection :: string where
  "msg_fact_collection = ''Command could not be parsed for executable fact collection.''"

definition limit_error :: re_ctm_error where
  "limit_error = with_category Security (error_new kw_parse_limit msg_nested)"
definition literal_error :: re_ctm_error where
  "literal_error = with_category Security (error_new kw_parse_failed msg_literal_segment)"
definition token_error :: re_ctm_error where
  "token_error = with_category Security (error_new kw_parse_failed msg_fact_collection)"

definition literal_candidates ::
  "(string \<Rightarrow> string list option) \<Rightarrow> nested_call \<Rightarrow> nat \<Rightarrow> string list \<Rightarrow> string list result" where
  "literal_candidates split nested depth segments =
     fold_r (\<lambda>segment out. bind_r (ok_or (split segment) literal_error) (\<lambda>ws.
       append_segment_candidates nested ws depth out)) segments []"

fun token_candidates ::
  "nested_call \<Rightarrow> nat \<Rightarrow> string list \<Rightarrow> string list \<Rightarrow> string list \<Rightarrow> string list result" where
  "token_candidates nested depth segment [] out = append_segment_candidates nested segment depth out"
| "token_candidates nested depth segment (t # ts) out =
     (if is_shell_control_operator t
      then bind_r (append_segment_candidates nested segment depth out)
        (\<lambda>out. token_candidates nested depth [] ts out)
      else token_candidates nested depth (segment @ [t]) ts out)"

definition candidates_body ::
  "(string \<Rightarrow> string list option) \<Rightarrow> nested_call \<Rightarrow> string \<Rightarrow> nat \<Rightarrow> string list result" where
  "candidates_body split nested command depth =
     (if 4 < depth then Inl limit_error
      else bind_r (simple_candidates split nested command depth) (\<lambda>simple. case simple of
        Some candidates \<Rightarrow> Inr candidates
      | None \<Rightarrow> bind_r (literal_command_segments command) (\<lambda>lit. case lit of
          Some segments \<Rightarrow> literal_candidates split nested depth segments
        | None \<Rightarrow> bind_r (ok_or (split command) token_error) (\<lambda>tokens.
            token_candidates nested depth [] tokens []))))"

fun candidates_fuel ::
  "nat \<Rightarrow> (string \<Rightarrow> string list option) \<Rightarrow> string \<Rightarrow> nat \<Rightarrow> string list result" where
  "candidates_fuel 0 split command depth = Inl limit_error"
| "candidates_fuel (Suc n) split command depth =
     candidates_body split (candidates_fuel n split) command depth"

definition shell_executable_candidates ::
  "(string \<Rightarrow> string list option) \<Rightarrow> string \<Rightarrow> nat \<Rightarrow> string list result" where
  "shell_executable_candidates split command depth = candidates_fuel 6 split command depth"

definition argv_executable_candidates ::
  "(string \<Rightarrow> string list option) \<Rightarrow> string list \<Rightarrow> string list result" where
  "argv_executable_candidates split argv =
     (if argv = [] \<or> hd argv = [] then Inl (invalid_argument ''argv must contain an executable'')
      else bind_r (nested_script (shell_executable_candidates split) 0 argv) (\<lambda>more.
        Inr (hd argv # more)))"

section \<open>Calls go one level deeper\<close>

text \<open>Two nested calls that agree below the current level give the same result.\<close>

definition agree_from :: "nat \<Rightarrow> nested_call \<Rightarrow> nested_call \<Rightarrow> bool" where
  "agree_from depth f g \<longleftrightarrow> (\<forall>script d. depth \<le> d \<longrightarrow> f script d = g script d)"

lemma agree_nested: "agree_from (Suc depth) f g \<Longrightarrow> nested_script f depth ws = nested_script g depth ws"
  by (auto simp: nested_script_def agree_from_def split: option.splits)

lemma agree_append:
  "agree_from (Suc depth) f g \<Longrightarrow>
     append_segment_candidates f ws depth out = append_segment_candidates g ws depth out"
  by (simp add: append_segment_candidates_def agree_nested cong: list.case_cong)

lemma agree_simple:
  "agree_from (Suc depth) f g \<Longrightarrow> append_simple f ws depth out = append_simple g ws depth out"
proof (induction f ws depth out rule: append_simple.induct)
  case (2 f first ws depth out)
  have "agree_from (Suc (depth + 1)) f g"
    using 2(2) by (simp add: agree_from_def)
  then show ?case
    using 2 agree_nested [OF 2(2)] agree_append [OF 2(2)]
    by (auto simp: append_simple.simps split: sum.splits)
qed simp

lemma agree_collect:
  "agree_from (Suc depth) f g \<Longrightarrow>
     collect split f depth segments loops out = collect split g depth segments loops out"
proof (induction segments arbitrary: loops out)
  case (Cons raw segments)
  have "collect_segment split f depth s ls cs = collect_segment split g depth s ls cs" for s ls cs
    using agree_simple [OF Cons.prems]
    by (auto simp: collect_segment_def cong: bind_r_cong split: option.splits)
  then show ?case
    using Cons by (simp cong: option.case_cong bind_r_cong prod.case_cong if_cong)
qed simp

lemma agree_tokens:
  "agree_from (Suc depth) f g \<Longrightarrow>
     token_candidates f depth segment ts out = token_candidates g depth segment ts out"
  by (induction ts arbitrary: segment out) (simp_all add: agree_append cong: bind_r_cong)

lemma agree_body:
  assumes "agree_from (Suc depth) f g"
  shows "candidates_body split f command depth = candidates_body split g command depth"
proof -
  have "simple_candidates split f command depth = simple_candidates split g command depth"
    using agree_collect [OF assms]
    by (simp add: simple_candidates_def cong: option.case_cong bind_r_cong prod.case_cong if_cong)
  moreover have "literal_candidates split f depth segments = literal_candidates split g depth segments"
    for segments
    using agree_append [OF assms] by (simp add: literal_candidates_def)
  ultimately show ?thesis
    using agree_tokens [OF assms]
    by (simp add: candidates_body_def cong: option.case_cong bind_r_cong prod.case_cong if_cong)
qed

lemma fuel_suffices:
  "5 \<le> n + depth \<Longrightarrow> 5 \<le> m + depth \<Longrightarrow>
     candidates_fuel n split command depth = candidates_fuel m split command depth"
proof (induction n arbitrary: m command depth)
  case 0
  then show ?case by (cases m) (simp_all add: candidates_body_def)
next
  case (Suc n)
  show ?case
  proof (cases "4 < depth")
    case True then show ?thesis by (cases m) (simp_all add: candidates_body_def)
  next
    case False
    then obtain k where m: "m = Suc k" using Suc.prems by (cases m) auto
    have "agree_from (Suc depth) (candidates_fuel n split) (candidates_fuel k split)"
      unfolding agree_from_def using Suc.prems m by (intro allI impI Suc.IH) auto
    then show ?thesis
      unfolding m candidates_fuel.simps(2) by (rule agree_body)
  qed
qed

lemma shell_executable_candidates_unfold:
  "shell_executable_candidates split command depth =
     candidates_body split (shell_executable_candidates split) command depth"
proof -
  have "candidates_fuel 6 split command depth =
      candidates_body split (candidates_fuel 5 split) command depth"
    using candidates_fuel.simps(2) [of 5] by (simp only: numeral_eq_Suc pred_numeral_simps) simp
  also have "\<dots> = candidates_body split (shell_executable_candidates split) command depth"
  proof (rule agree_body)
    show "agree_from (Suc depth) (candidates_fuel 5 split) (shell_executable_candidates split)"
      unfolding agree_from_def shell_executable_candidates_def
      using fuel_suffices [of 5 _ 6] by simp
  qed
  finally show ?thesis by (simp only: shell_executable_candidates_def)
qed

section \<open>No command of a list is missed\<close>

definition plain_word :: "string \<Rightarrow> bool" where
  "plain_word w \<longleftrightarrow> \<not> is_assignment w \<and> executable_basename w \<notin> set wrappers \<and>
     \<not> is_shell_keyword (executable_basename w)"

definition simple_command_of :: "string \<Rightarrow> string" where
  "simple_command_of raw = (case keyword_rest (trim raw) ''do'' of
     Some rest \<Rightarrow> trim_start rest | None \<Rightarrow> trim raw)"

lemma append_segment_mono:
  "append_segment_candidates nested ws depth out = Inr out' \<Longrightarrow> set out \<subseteq> set out'"
  by (auto simp: append_segment_candidates_def bind_r_eq_Inr split: list.splits)

lemma append_simple_mono: "append_simple nested ws depth out = Inr out' \<Longrightarrow> set out \<subseteq> set out'"
proof (induction nested ws depth out rule: append_simple.induct)
  case (2 nested first ws depth out)
  then show ?case
    using append_segment_mono [of nested "first # ws" depth out out']
    by (auto simp: append_simple.simps bind_r_eq_Inr split: sum.splits if_splits) blast+
qed simp

lemma append_simple_plain:
  assumes "append_simple nested (w # ws) depth out = Inr out'" "plain_word w"
  shows "w \<in> set out'"
proof -
  have "executable_basename ''command'' = ''command''"
    by (simp add: executable_basename_def replace_backslash_def replace_byte_def eval_ascii)
  then have "w \<noteq> ''command''" using assms(2) by (auto simp: plain_word_def wrappers_def)
  then show ?thesis
    using assms
    by (auto simp: append_simple.simps append_segment_candidates_def plain_word_def bind_r_eq_Inr
        split: if_splits)
qed

lemma collect_segment_mono:
  "collect_segment split nested depth s loops out = Inr (Some (loops', out')) \<Longrightarrow> set out \<subseteq> set out'"
  by (auto simp: collect_segment_def bind_r_eq_Inr dest: append_simple_mono
      split: if_splits option.splits list.splits bool.splits)

lemma collect_Cons:
  assumes "collect split nested depth (raw # segments) loops out = Inr (Some cs)"
  obtains loops1 loops2 out2 where
    "collect_segment split nested depth (simple_command_of raw) loops1 out = Inr (Some (loops2, out2))"
    "collect split nested depth segments loops2 out2 = Inr (Some cs)"
  using assms
  by (auto simp: bind_r_eq_Inr simple_command_of_def
      split: option.splits list.splits bool.splits)

lemma collect_mono:
  "collect split nested depth segments loops out = Inr (Some cs) \<Longrightarrow> set out \<subseteq> set cs"
proof (induction segments arbitrary: loops out)
  case (Cons raw segments)
  from Cons.prems show ?case
    by (rule collect_Cons) (blast dest: collect_segment_mono Cons.IH)
qed (simp split: if_splits)

lemma collect_plain:
  assumes "collect split nested depth segments loops out = Inr (Some cs)" "raw \<in> set segments"
    "keyword_rest (simple_command_of raw) ''for'' = None"
    "keyword_rest (simple_command_of raw) ''done'' = None"
    "simple_command_of raw \<noteq> []" "split (simple_command_of raw) = Some (w # ws)" "plain_word w"
  shows "w \<in> set cs"
  using assms(1,2)
proof (induction segments arbitrary: loops out)
  case (Cons raw' segments)
  from Cons.prems(1) show ?case
  proof (rule collect_Cons)
    fix loops1 loops2 out2
    assume c: "collect_segment split nested depth (simple_command_of raw') loops1 out = Inr (Some (loops2, out2))"
      "collect split nested depth segments loops2 out2 = Inr (Some cs)"
    show "w \<in> set cs"
    proof (cases "raw \<in> set segments")
      case True then show ?thesis using Cons.IH c(2) by blast
    next
      case False
      then have "w \<in> set out2"
        using Cons.prems(2) c(1) assms(3-7)
        by (auto simp: collect_segment_def split_words_def bind_r_eq_Inr
            dest: append_simple_plain split: if_splits)
      then show ?thesis using collect_mono [OF c(2)] by blast
    qed
  qed
qed simp

text \<open>When a command is collected as a list, no command of the list is missed: for every
  segment that is not the header or the end of a loop, after its \<open>do\<close> has been taken off, the first
  word is a candidate, unless it is an assignment, a wrapper such as \<open>env\<close>, or a shell keyword.\<close>

theorem list_commands_collected:
  assumes "simple_candidates split nested command depth = Inr (Some cs)"
    and "executable_command_segments command = Inr (Some segs)" and "raw \<in> set segs"
    and "keyword_rest (simple_command_of raw) ''for'' = None"
    and "keyword_rest (simple_command_of raw) ''done'' = None"
    and "simple_command_of raw \<noteq> []" and "split (simple_command_of raw) = Some (w # ws)"
    and "plain_word w"
  shows "w \<in> set cs"
  using assms collect_plain [of split nested depth segs "[]" "[]" cs raw w ws]
  by (simp add: simple_candidates_def split: if_splits)


text \<open>A list of two commands, with a splitter at blanks, which is right where no word is quoted.\<close>

definition nested_example :: nested_call where
  "nested_example script depth = Inl limit_error"

lemma example_segments: "executable_command_segments ''ls /x;pwd'' = Inr (Some [''ls /x'', ''pwd''])"
  by (simp add: executable_command_segments_def command_segments_def max_source_bytes_def
      max_segments_def scan.simps push_segment_def eval_trim)

lemma example_words:
  "executable_basename ''ls'' = ''ls''" "executable_basename ''pwd'' = ''pwd''"
  "\<not> is_assignment ''ls''" "\<not> is_assignment ''pwd''"
  by (simp_all add: executable_basename_def replace_backslash_def replace_byte_def eval_ascii
      is_assignment_def)

lemma example_keywords:
  "k \<in> {''do'', ''for'', ''done''} \<union> set compound_keywords \<Longrightarrow> keyword_rest ''ls /x'' k = None"
  "k \<in> {''do'', ''for'', ''done''} \<union> set compound_keywords \<Longrightarrow> keyword_rest ''pwd'' k = None"
  by (auto simp: keyword_rest_def strip_prefix_def starts_with_def compound_keywords_def)

lemma example_trim: "trim ''ls /x'' = ''ls /x''" "trim ''pwd'' = ''pwd''"
  by (simp_all add: eval_trim)

lemma example_list:
  "simple_candidates (\<lambda>s. Some (split_on (CHR '' '') s)) nested ''ls /x;pwd'' 0 = Inr (Some [''ls'', ''pwd''])"
  by (simp add: simple_candidates_def example_segments begins_with_any_def list_ex_iff example_trim
      example_keywords collect_segment_def body_keywords_def compound_keywords_def split_words_def
      append_simple.simps append_segment_candidates_def example_words wrappers_def
      is_shell_keyword_def shell_keywords_def nested_script_def is_shell_executable_def)

theorem list_commands_collected_witness:
  "\<exists>cs. simple_candidates (\<lambda>s. Some (split_on (CHR '' '') s)) nested_example ''ls /x;pwd'' 0
      = Inr (Some cs) \<and> ''pwd'' \<in> set cs"
proof -
  have w: "simple_command_of ''pwd'' = ''pwd''" "plain_word ''pwd''"
    by (simp_all add: simple_command_of_def plain_word_def example_words example_trim example_keywords
        wrappers_def is_shell_keyword_def shell_keywords_def)
  have "''pwd'' \<in> set [''ls'', ''pwd'']"
    using list_commands_collected [OF example_list [of nested_example] example_segments,
        of "''pwd''" "''pwd''" "[]"]
    by (simp add: w example_keywords)
  then show ?thesis by (simp add: example_list)
qed

text \<open>The script of a nested shell is collected when it follows \<open>-c\<close>, and is not looked at when
  it follows the same option combined with another one, as in \<open>bash -lc script\<close>: then only the shell
  itself is a candidate, whatever the script runs.\<close>

theorem combined_option_hides_script:
  "argv_executable_candidates split [''bash'', ''-c'', script] =
     bind_r (shell_executable_candidates split script 1) (\<lambda>more. Inr (''bash'' # more)) \<and>
   argv_executable_candidates split [''bash'', ''-lc'', script] = Inr [''bash'']"
proof -
  have "is_shell_executable ''bash''"
    by (simp add: is_shell_executable_def executable_basename_def replace_backslash_def
        replace_byte_def eval_ascii)
  then show ?thesis
    by (auto simp: argv_executable_candidates_def nested_script_def)
qed

end
