(* ===== verification/Command_Policy.thy ===== *)
theory Command_Policy
  imports Shell_Segments "HOL-Library.Sublist"
begin

text \<open>
  The risk dimensions of a command, \<open>crates/mtm-core/src/command_policy.rs\<close>.

  The regular expression engine and \<open>shell_words\<close> are code of other crates. They are the
  parameters of the record \<open>externals\<close>: \<open>compile\<close> takes the case-insensitivity flag and a
  pattern to a matching function, or to the text of an error; \<open>words_split\<close> is \<open>None\<close> on error.

  \<open>executable_name\<close> lowers the case of ASCII letters only. The name is compared with fixed ASCII
  names without the letters \<open>k\<close> and \<open>i\<close>, the only ones another character is lowered to, so
  \<open>str::to_lowercase\<close> gives the same answers.
\<close>

record externals =
  compile :: "bool \<Rightarrow> string \<Rightarrow> string + (string \<Rightarrow> bool)"
  words_split :: "string \<Rightarrow> string list option"
  words_join :: "string list \<Rightarrow> string"

section \<open>Patterns\<close>

text \<open>The patterns, with a tilde written for every backslash; none of them has a tilde.\<close>

definition pattern :: "string \<Rightarrow> string" where
  "pattern s = map (\<lambda>c. if c = CHR ''~'' then backslash else c) s"

definition network_pattern :: string where
  "network_pattern =
     pattern (''(https?://|urllib~.request|urllib3|requests~.|http~.client|~bHTTPCo'' @
     ''nnection~b|~bHTTPSConnection~b|socket~.|aiohttp|httpx|~bcurl~b|~b'' @
     ''wget~b|~bnc~b|~bnetcat~b|~bssh~b|~bscp~b|~bftp~b)'')"

definition shell_expansion_pattern :: string where
  "shell_expansion_pattern =
     pattern (''(`|~$~(|~$~{)'')"

definition destructive_pattern :: string where
  "destructive_pattern =
     pattern (''(^|~s)(sudo|su|chmod~s+-R|chown~s+-R|mkfs|mount|umount|find~b[^;&|]'' @
     ''*~s-delete~b|git~b[^;&|]*~breset~s+--hard~b|git~b[^;&|]*~bclean'' @
     ''~s+-[^~s]*[fx][^~s]*|rm~s+-[^~s]*r[^~s]*f|rm~s+-[^~s]*f[^~s]*r'' @
     '')~b'')"

definition sensitive_env_pattern :: string where
  "sensitive_env_pattern =
     pattern (''(token|secret|credential|api[_-]?key|password|passwd|private)'')"

definition sensitive_value_pattern :: string where
  "sensitive_value_pattern =
     pattern (''(COMPLIANCE_SHOULD_NOT_LEAK|-----BEGIN [A-Z ]*PRIVATE KEY-----|gh[pousr'' @
     '']_[A-Za-z0-9_]+|sk-[A-Za-z0-9_-]{16,}|AKIA[0-9A-Z]{16})'')"

definition risky_env_names :: "string list" where
  "risky_env_names = [''BASH_ENV'', ''ENV'', ''LD_PRELOAD'', ''LD_LIBRARY_PATH'',
     ''DYLD_INSERT_LIBRARIES'', ''PYTHONPATH'', ''PYTHONSTARTUP'', ''NODE_OPTIONS'', ''PERL5LIB'',
     ''PERL5OPT'', ''RUBYOPT'', ''RUBYLIB'']"

definition msg_pattern :: "string \<Rightarrow> string" where
  "msg_pattern error = ''Internal command policy pattern is invalid: '' @ error"

definition internal_regex_error :: "string \<Rightarrow> re_ctm_error" where
  "internal_regex_error error =
     with_category Internal (error_new ''INTERNAL_REGEX_ERROR'' (msg_pattern error))"

definition regex_new :: "externals \<Rightarrow> bool \<Rightarrow> string \<Rightarrow> (string \<Rightarrow> bool) result" where
  "regex_new x insensitive p =
     (case compile x insensitive p of Inl e \<Rightarrow> Inl (internal_regex_error e) | Inr m \<Rightarrow> Inr m)"

definition case_insensitive_regex :: "externals \<Rightarrow> string \<Rightarrow> (string \<Rightarrow> bool) result" where
  "case_insensitive_regex x p = regex_new x True p"

section \<open>Words of a command\<close>

text \<open>The last component of a path, if it names a file.\<close>

definition file_name :: "string \<Rightarrow> string option" where
  "file_name p =
     (let cs = filter (\<lambda>c. c \<noteq> [] \<and> c \<noteq> ''.'') (split_on (CHR ''/'') p) in
      if cs = [] \<or> last cs = ''..'' then None else Some (last cs))"

definition executable_name :: "string \<Rightarrow> string" where
  "executable_name v =
     (case file_name (replace_byte backslash ''/'' v) of None \<Rightarrow> [] | Some n \<Rightarrow> map to_lower n)"

definition breaks :: "string list" where
  "breaks = [''|'', ''||'', ''&'', ''&&'', '';'']"

fun group_tokens :: "string list \<Rightarrow> string list \<Rightarrow> string list list" where
  "group_tokens segment [] = [segment]"
| "group_tokens segment (t # ts) =
     (if t \<in> set breaks then segment # group_tokens [] ts else group_tokens (segment @ [t]) ts)"

definition existing_command_segments :: "externals \<Rightarrow> string \<Rightarrow> string list list" where
  "existing_command_segments x command =
     group_tokens [] (case words_split x command of
       Some ts \<Rightarrow> ts | None \<Rightarrow> split_whitespace command)"

section \<open>Inline scripts\<close>

record inline_script =
  inline_command :: string
  inline_option :: string

definition script :: "string \<Rightarrow> string \<Rightarrow> inline_script" where
  "script c opt = \<lparr>inline_command = c, inline_option = opt\<rparr>"

definition has_equals :: "string \<Rightarrow> bool" where
  "has_equals w \<longleftrightarrow> CHR ''='' \<in> set w"

definition env_target :: "string \<times> string list \<Rightarrow> string \<times> string list" where
  "env_target na = (case na of (name, args) \<Rightarrow>
     if name = ''env''
     then (case dropWhile (\<lambda>w. starts_with ''-'' w \<or> has_equals w) args of
         [] \<Rightarrow> (name, []) | e # rest \<Rightarrow> (executable_name e, rest))
     else (name, args))"

definition inline_of_args :: "string \<Rightarrow> string list \<Rightarrow> inline_script option" where
  "inline_of_args name args =
     (case (if name \<in> set [''bash'', ''sh'', ''zsh'']
            then find (\<lambda>a. starts_with ''-'' a \<and> CHR ''c'' \<in> set (dropWhile (\<lambda>c. c = CHR ''-'') a)) args
            else None) of
        Some opt \<Rightarrow> Some (script name opt)
      | None \<Rightarrow>
          if name \<in> set [''python'', ''python3''] \<and> ''-c'' \<in> set args then Some (script name ''-c'')
          else if name \<in> set [''python'', ''python3''] \<and> ''-'' \<in> set args then Some (script name ''-'')
          else case (if name = ''node''
              then find (\<lambda>opt. opt \<in> set args) [''-e'', ''--eval'', ''-p'', ''--print''] else None) of
            Some opt \<Rightarrow> Some (script name opt)
          | None \<Rightarrow>
              if name \<in> set [''ruby'', ''perl''] \<and> ''-e'' \<in> set args then Some (script name ''-e'')
              else None)"

definition inline_of_segment :: "string list \<Rightarrow> inline_script option" where
  "inline_of_segment segment =
     (case dropWhile (\<lambda>w. has_equals w \<and> \<not> starts_with ''='' w) segment of
        [] \<Rightarrow> None
      | w # args \<Rightarrow> (case env_target (executable_name w, args) of (name, args) \<Rightarrow>
          inline_of_args name args))"

fun first_inline :: "string list list \<Rightarrow> inline_script option" where
  "first_inline [] = None"
| "first_inline (s # ss) =
     (case inline_of_segment s of Some i \<Rightarrow> Some i | None \<Rightarrow> first_inline ss)"

fun split_all :: "externals \<Rightarrow> string list \<Rightarrow> string list list option" where
  "split_all x [] = Some []"
| "split_all x (s # ss) = (case words_split x s of None \<Rightarrow> None
     | Some ws \<Rightarrow> map_option (Cons ws) (split_all x ss))"

definition inline_segments :: "externals \<Rightarrow> string \<Rightarrow> string list list" where
  "inline_segments x command =
     (case literal_command_segments command of
        Inr (Some segments) \<Rightarrow> (case split_all x segments of
            Some words \<Rightarrow> words | None \<Rightarrow> existing_command_segments x command)
      | _ \<Rightarrow> existing_command_segments x command)"

definition inline_script_command :: "externals \<Rightarrow> string \<Rightarrow> inline_script option" where
  "inline_script_command x command = first_inline (inline_segments x command)"

section \<open>Classification\<close>

definition check_command_policy ::
  "native_mode \<Rightarrow> string \<Rightarrow> (string \<times> string) list \<Rightarrow> unit result" where
  "check_command_policy mode command environment = (case mode of Dangerous \<Rightarrow> Inr ())"

definition is_filtered_env_var :: "externals \<Rightarrow> string \<Rightarrow> string \<Rightarrow> bool result" where
  "is_filtered_env_var x name v =
     (let upper = map to_upper name;
          risky = upper \<in> set risky_env_names \<or> starts_with ''DYLD_'' upper in
      bind_r (case_insensitive_regex x sensitive_env_pattern) (\<lambda>m.
        if m name \<or> risky then Inr True
        else bind_r (regex_new x False sensitive_value_pattern) (\<lambda>m. Inr (m v))))"

fun any_segment_matches :: "externals \<Rightarrow> (string \<Rightarrow> bool) \<Rightarrow> string list \<Rightarrow> bool result" where
  "any_segment_matches x m [] = Inr False"
| "any_segment_matches x m (s # ss) =
     bind_r (ok_or (words_split x s)
       (with_category Security (error_new kw_parse_failed ''Invalid literal shell segment.'')))
     (\<lambda>ws. if m (words_join x ws) then Inr True else any_segment_matches x m ss)"

definition destructive_command :: "externals \<Rightarrow> string \<Rightarrow> bool result" where
  "destructive_command x command =
     bind_r (case_insensitive_regex x destructive_pattern) (\<lambda>m.
       if m command then Inr True
       else bind_r (literal_command_segments command) (\<lambda>lit. case lit of
         Some segments \<Rightarrow> any_segment_matches x m segments | None \<Rightarrow> Inr False))"

definition keep_if :: "bool \<Rightarrow> native_permission_kind \<Rightarrow> native_permission_kind list" where
  "keep_if b kind = (if b then [kind] else [])"

definition classify_command_permissions ::
  "externals \<Rightarrow> string \<Rightarrow> (string \<times> string) list \<Rightarrow> native_permission_kind list result" where
  "classify_command_permissions x command environment =
     bind_r (traverse_r (\<lambda>(k, v). is_filtered_env_var x k v) environment) (\<lambda>filtered.
     bind_r (destructive_command x command) (\<lambda>destructive.
     bind_r (regex_new x False shell_expansion_pattern) (\<lambda>expansion.
     bind_r (case_insensitive_regex x network_pattern) (\<lambda>network.
       Inr (keep_if (list_ex (\<lambda>b. b) filtered) SensitiveEnv @
            keep_if destructive DestructiveCommand @
            keep_if (expansion command) ShellExpansion @
            keep_if (inline_script_command x command \<noteq> None) InlineScriptKind @
            keep_if (network command) Network)))))"


section \<open>What the classification records\<close>

definition command_order :: "native_permission_kind list" where
  "command_order = [SensitiveEnv, DestructiveCommand, ShellExpansion, InlineScriptKind, Network]"

lemma keep_if_simps [simp]: "keep_if True k = [k]" "keep_if False k = []"
  by (simp_all add: keep_if_def)

lemma keep_if_subseq:
  "subseq (keep_if a k1 @ keep_if b k2 @ keep_if c k3 @ keep_if d k4 @ keep_if e k5)
     [k1, k2, k3, k4, k5]"
  by (cases a; cases b; cases c; cases d; cases e) simp_all

lemma classify_Inr:
  assumes "classify_command_permissions x command environment = Inr needs"
  obtains filtered destructive expansion network where
    "traverse_r (\<lambda>(k, v). is_filtered_env_var x k v) environment = Inr filtered"
    "destructive_command x command = Inr destructive"
    "needs = keep_if (list_ex (\<lambda>b. b) filtered) SensitiveEnv @
       keep_if destructive DestructiveCommand @ keep_if (expansion command) ShellExpansion @
       keep_if (inline_script_command x command \<noteq> None) InlineScriptKind @
       keep_if (network command) Network"
    "regex_new x False shell_expansion_pattern = Inr expansion"
    "case_insensitive_regex x network_pattern = Inr network"
  using assms by (auto simp: classify_command_permissions_def bind_r_eq_Inr)

lemma classify_command_order:
  assumes "classify_command_permissions x command environment = Inr needs"
  shows "subseq needs command_order"
  using assms
proof (rule classify_Inr)
  fix filtered destructive expansion network
  assume "needs = keep_if (list_ex (\<lambda>b. b) filtered) SensitiveEnv @
       keep_if destructive DestructiveCommand @ keep_if (expansion command) ShellExpansion @
       keep_if (inline_script_command x command \<noteq> None) InlineScriptKind @
       keep_if (network command) Network"
  then show ?thesis
    unfolding command_order_def by (simp only: keep_if_subseq)
qed

lemma risky_filtered:
  assumes "is_filtered_env_var x name v = Inr b" "map to_upper name \<in> set risky_env_names"
  shows "b"
  using assms by (auto simp: is_filtered_env_var_def bind_r_eq_Inr split: if_splits)

lemma inline_python:
  assumes "name \<in> {''python'', ''python3''}" "''-c'' \<in> set args"
  shows "inline_of_args name args = Some (script name ''-c'')"
  using assms by (auto simp: inline_of_args_def)

lemma first_inline_mem: "s \<in> set ss \<Longrightarrow> inline_of_segment s \<noteq> None \<Longrightarrow> first_inline ss \<noteq> None"
  by (induction ss) (auto split: option.splits)

lemma split_all_mem:
  "split_all x ss = Some wss \<Longrightarrow> s \<in> set ss \<Longrightarrow> \<exists>ws \<in> set wss. words_split x s = Some ws"
  by (induction ss arbitrary: wss) (auto split: option.splits)

lemma split_all_words:
  "split_all x ss = Some wss \<Longrightarrow> s \<in> set ss \<Longrightarrow> words_split x s = Some ws \<Longrightarrow> ws \<in> set wss"
  using split_all_mem [of x ss wss s] by auto

lemma inline_of_segment_plain:
  assumes "\<forall>a \<in> set assigns. has_equals a \<and> \<not> starts_with ''='' a"
    "\<not> has_equals w" "executable_name w = name" "name \<noteq> ''env''"
  shows "inline_of_segment (assigns @ w # args) = inline_of_args name args"
proof -
  have "dropWhile (\<lambda>w. has_equals w \<and> \<not> starts_with ''='' w) (assigns @ w # args) = w # args"
    using assms(1,2) by (induction assigns) auto
  then show ?thesis using assms(3,4) by (simp add: inline_of_segment_def env_target_def)
qed

lemma risky_environment_recorded:
  assumes "classify_command_permissions x command environment = Inr needs"
    and "(k, v) \<in> set environment" "map to_upper k \<in> set risky_env_names"
  shows "SensitiveEnv \<in> set needs"
  using assms(1)
proof (rule classify_Inr)
  fix filtered destructive expansion network
  assume c: "traverse_r (\<lambda>(k, v). is_filtered_env_var x k v) environment = Inr filtered"
    and needs: "needs = keep_if (list_ex (\<lambda>b. b) filtered) SensitiveEnv @
       keep_if destructive DestructiveCommand @ keep_if (expansion command) ShellExpansion @
       keep_if (inline_script_command x command \<noteq> None) InlineScriptKind @
       keep_if (network command) Network"
  have all: "list_all2 (\<lambda>y b. (case y of (k, v) \<Rightarrow> is_filtered_env_var x k v) = Inr b) environment filtered"
    using c by (simp add: traverse_r_Inr)
  obtain i where i: "i < length environment" "environment ! i = (k, v)"
    using assms(2) by (auto simp: in_set_conv_nth)
  have "is_filtered_env_var x k v = Inr (filtered ! i)" "i < length filtered"
    using list_all2_nthD [OF all i(1)] list_all2_lengthD [OF all] i by auto
  then have "filtered ! i" "filtered ! i \<in> set filtered"
    using risky_filtered [OF _ assms(3)] by auto
  then have "list_ex (\<lambda>b. b) filtered" by (auto simp: list_ex_iff)
  then show ?thesis by (simp add: needs)
qed

lemma inline_script_recorded:
  assumes "classify_command_permissions x command environment = Inr needs"
    and "inline_script_command x command \<noteq> None"
  shows "InlineScriptKind \<in> set needs"
  using assms(1) by (rule classify_Inr) (simp add: assms(2))

lemma python_segment_inline:
  assumes "literal_command_segments command = Inr (Some segs)" "s \<in> set segs"
    "split_all x segs \<noteq> None" "words_split x s = Some (assigns @ w # args)"
    "\<forall>a \<in> set assigns. has_equals a \<and> \<not> starts_with ''='' a" "\<not> has_equals w"
    "executable_name w \<in> {''python'', ''python3''}" "''-c'' \<in> set args"
  shows "inline_script_command x command \<noteq> None"
proof -
  obtain wss where wss: "split_all x segs = Some wss" using assms(3) by auto
  then have "assigns @ w # args \<in> set wss"
    using split_all_words assms(2,4) by blast
  moreover have "inline_of_segment (assigns @ w # args) \<noteq> None"
    using inline_of_segment_plain [OF assms(5,6) refl, of args] inline_python [OF assms(7,8)] assms(7)
    by auto
  ultimately show ?thesis
    using first_inline_mem wss assms(1) by (simp add: inline_script_command_def inline_segments_def)
qed

text \<open>A successful classification lists its kinds in the recorded order, each at most once;
  an environment variable that can inject code, in any case, is always recorded; and when the
  scanner takes the command for a literal list of which every segment splits into words, a Python
  program given on the command line is recorded in whatever segment it stands, behind assignments
  and under any path or case of the interpreter's name. (For other commands
  the code falls back on the words of the whole text and may see only the first command.)\<close>

theorem command_risks_recorded:
  assumes "classify_command_permissions x command environment = Inr needs"
  shows "subseq needs command_order \<and>
    (\<forall>(k, v) \<in> set environment. map to_upper k \<in> set risky_env_names \<longrightarrow> SensitiveEnv \<in> set needs) \<and>
    (\<forall>segs s assigns w args.
      literal_command_segments command = Inr (Some segs) \<and> s \<in> set segs \<and>
      split_all x segs \<noteq> None \<and> words_split x s = Some (assigns @ w # args) \<and>
      (\<forall>a \<in> set assigns. has_equals a \<and> \<not> starts_with ''='' a) \<and> \<not> has_equals w \<and>
      executable_name w \<in> {''python'', ''python3''} \<and> ''-c'' \<in> set args \<longrightarrow>
      InlineScriptKind \<in> set needs)"
  using classify_command_order [OF assms] risky_environment_recorded [OF assms]
    inline_script_recorded [OF assms python_segment_inline]
  by blast

definition example_externals :: externals where
  "example_externals = \<lparr>compile = (\<lambda>b p. Inr (\<lambda>s. False)),
     words_split = (\<lambda>s. Some (split_on (CHR '' '') s)), words_join = join '' ''\<rparr>"

lemma example_externals_simps:
  "compile example_externals b p = Inr (\<lambda>s. False)"
  "words_split example_externals s = Some (split_on (CHR '' '') s)"
  by (simp_all add: example_externals_def)

theorem command_risks_recorded_witness:
  "\<exists>needs. classify_command_permissions example_externals ''/bin/Python3 -c 1'' [(''ld_preload'', ''x'')]
      = Inr needs \<and> subseq needs command_order \<and> {SensitiveEnv, InlineScriptKind} \<subseteq> set needs"
proof -
  let ?c = "''/bin/Python3 -c 1''"
  have seg: "literal_command_segments ?c = Inr (Some [?c])"
    by (simp add: literal_command_segments_def command_segments_def max_source_bytes_def scan.simps
        eval_trim max_segments_def)
  have upper: "map to_upper ''ld_preload'' = ''LD_PRELOAD''"
    by code_simp
  have name: "executable_name ''/bin/Python3'' = ''python3''"
    by code_simp
  have filtered: "is_filtered_env_var example_externals ''ld_preload'' ''x'' = Inr True"
    by (simp only: is_filtered_env_var_def upper Let_def)
       (simp add: case_insensitive_regex_def regex_new_def example_externals_simps risky_env_names_def)
  obtain needs where needs: "classify_command_permissions example_externals ?c [(''ld_preload'', ''x'')] = Inr needs"
    by (simp add: classify_command_permissions_def filtered case_insensitive_regex_def
        regex_new_def destructive_command_def seg example_externals_simps)
  note risks = command_risks_recorded [OF needs]
  have "words_split example_externals ?c = Some ([] @ ''/bin/Python3'' # [''-c'', ''1''])"
    "split_all example_externals [?c] \<noteq> None" "\<not> has_equals ''/bin/Python3''"
    by (simp_all add: example_externals_simps has_equals_def)
  then have "InlineScriptKind \<in> set needs"
    using conjunct2 [OF conjunct2 [OF risks], rule_format,
        of "[?c]" ?c "[]" "''/bin/Python3''" "[''-c'', ''1'']"] seg name
    by simp
  moreover have "SensitiveEnv \<in> set needs"
    using risks upper by (simp add: risky_env_names_def)
  ultimately show ?thesis using needs risks by blast
qed

end
