(* ===== verification/Native_Arguments.thy ===== *)
theory Native_Arguments
  imports Path_Policy Patch_Parse Shell_Candidates Command_Policy
begin

text \<open>
  The validated forms of the native tools' arguments, from
  \<open>crates/mtm-core/src/native_permission.rs\<close>: \<open>NativePermissionRequest\<close>, \<open>ExecInvocation\<close>,
  \<open>PatchInvocation\<close> and \<open>NativeInvocation\<close>, with the helpers that read one argument each.

  SHA-256 and the JSON writer are code of other crates: the parameters \<open>sha256\<close>, which gives the
  bytes of a digest, and \<open>to_vec\<close>.
\<close>

record native_externals = externals +
  to_vec :: "json \<Rightarrow> string + string"
  sha256 :: "string \<Rightarrow> nat list"

section \<open>Constants\<close>

definition default_permission_ttl_seconds :: nat where "default_permission_ttl_seconds = 300"
definition max_permission_ttl_seconds :: nat where "max_permission_ttl_seconds = 3600"
definition default_exec_timeout_ms :: nat where "default_exec_timeout_ms = 300000"
definition max_exec_timeout_ms :: nat where "max_exec_timeout_ms = 600000"
definition default_exec_yield_time_ms :: nat where "default_exec_yield_time_ms = 10000"
definition max_exec_yield_time_ms :: nat where "max_exec_yield_time_ms = 30000"
definition default_exec_max_output_bytes :: nat where "default_exec_max_output_bytes = 65536"
definition max_exec_max_output_bytes :: nat where "max_exec_max_output_bytes = 1048576"
definition default_exec_preview_bytes :: nat where "default_exec_preview_bytes = 4096"
definition max_exec_preview_bytes :: nat where "max_exec_preview_bytes = 1048576"
definition long_timeout_threshold_ms_exclusive :: nat where
  "long_timeout_threshold_ms_exclusive = 30000"

lemmas exec_limits =
  default_exec_timeout_ms_def max_exec_timeout_ms_def default_exec_yield_time_ms_def
  max_exec_yield_time_ms_def default_exec_max_output_bytes_def max_exec_max_output_bytes_def
  default_exec_preview_bytes_def max_exec_preview_bytes_def

section \<open>Digests\<close>

definition hex_digit :: "nat \<Rightarrow> char" where
  "hex_digit n = (if n < 10 then char_of (48 + n) else char_of (87 + n))"

definition hex_byte :: "nat \<Rightarrow> string" where
  "hex_byte b = [hex_digit (b div 16), hex_digit (b mod 16)]"

definition is_sha256_hex :: "string \<Rightarrow> bool" where
  "is_sha256_hex v \<longleftrightarrow> length v = 64 \<and> list_all is_ascii_hexdigit v"

definition canonical_arguments_sha256 :: "native_externals \<Rightarrow> object \<Rightarrow> string result" where
  "canonical_arguments_sha256 x arguments =
     (case to_vec x (sort_json (JObject arguments)) of
        Inl e \<Rightarrow> Inl (invalid_argument (''arguments are not serializable: '' @ e))
      | Inr bytes \<Rightarrow> Inr (concat (map hex_byte (sha256 x bytes))))"

text \<open>What SHA-256 is documented to give: 32 bytes.\<close>

definition digests_ok :: "native_externals \<Rightarrow> bool" where
  "digests_ok x \<longleftrightarrow> (\<forall>s. length (sha256 x s) = 32 \<and> (\<forall>b \<in> set (sha256 x s). b < 256))"

section \<open>Single arguments\<close>

definition reject_unknown_keys :: "object \<Rightarrow> string list \<Rightarrow> unit result" where
  "reject_unknown_keys input allowed =
     (case find (\<lambda>k. k \<notin> set allowed) (map fst input) of
        Some k \<Rightarrow> Inl (invalid_argument (k @ '' is not a recognized argument''))
      | None \<Rightarrow> Inr ())"

definition optional_string :: "object \<Rightarrow> string \<Rightarrow> string \<Rightarrow> string option result" where
  "optional_string input key msg =
     (case obj_get input key of
        None \<Rightarrow> Inr None
      | Some (JString v) \<Rightarrow> Inr (Some v)
      | Some _ \<Rightarrow> Inl (invalid_argument msg))"

definition parse_workdir :: "object \<Rightarrow> string result" where
  "parse_workdir input =
     bind_r (optional_string input ''workdir'' ''workdir must be a string'') (\<lambda>workdir.
     bind_r (optional_string input ''cwd'' ''cwd must be a string'') (\<lambda>cwd.
       if workdir \<noteq> None \<and> cwd \<noteq> None \<and> workdir \<noteq> cwd
       then Inl (invalid_argument ''workdir and cwd refer to different directories'')
       else validate_workspace_path (case workdir of Some w \<Rightarrow> w
         | None \<Rightarrow> (case cwd of Some c \<Rightarrow> c | None \<Rightarrow> ''.''))))"

definition msg_env_object :: string where
  "msg_env_object = ''env must be an object whose values are strings''"

definition parse_variable :: "string \<times> json \<Rightarrow> (string \<times> string) result" where
  "parse_variable kv = (case kv of (k, v) \<Rightarrow>
     if k = [] \<or> nul \<in> set k \<or> CHR ''='' \<in> set k
     then Inl (invalid_argument ''env contains an invalid variable name'')
     else bind_r (ok_or (as_str v) (invalid_argument msg_env_object)) (\<lambda>v.
       if nul \<in> set v then Inl (invalid_argument ''env contains a NUL byte'') else Inr (k, v)))"

definition parse_environment :: "json option \<Rightarrow> (string \<times> string) list result" where
  "parse_environment input =
     (case input of None \<Rightarrow> Inr []
      | Some v \<Rightarrow> bind_r (ok_or (as_object v) (invalid_argument msg_env_object)) (\<lambda>obj.
          map_ok bt_collect (traverse_r parse_variable obj)))"

definition msg_between :: "string \<Rightarrow> nat \<Rightarrow> nat \<Rightarrow> string" where
  "msg_between name minimum maximum =
     name @ '' must be between '' @ show_nat minimum @ '' and '' @ show_nat maximum"

definition parse_bounded_u64 ::
  "json option \<Rightarrow> string \<Rightarrow> nat \<Rightarrow> nat \<Rightarrow> nat \<Rightarrow> nat result" where
  "parse_bounded_u64 v name dflt minimum maximum =
     bind_r (case v of
         None \<Rightarrow> Inr dflt
       | Some (JNumber n) \<Rightarrow> ok_or (number_as_u64 n)
           (invalid_argument (name @ '' must be a non-negative integer''))
       | Some _ \<Rightarrow> Inl (invalid_argument (name @ '' must be an integer''))) (\<lambda>n.
       if n < minimum \<or> maximum < n then Inl (invalid_argument (msg_between name minimum maximum))
       else Inr n)"

text \<open>\<open>usize\<close> is as wide as \<open>u64\<close>, so both conversions of the source succeed.\<close>

definition parse_bounded_usize ::
  "json option \<Rightarrow> string \<Rightarrow> nat \<Rightarrow> nat \<Rightarrow> nat \<Rightarrow> nat result" where
  "parse_bounded_usize v name dflt minimum maximum =
     bind_r (parse_bounded_u64 v name dflt minimum maximum) (\<lambda>n.
       if u64_max < n then Inl (invalid_argument (name @ '' is too large for this platform''))
       else Inr n)"

definition parse_bool :: "json option \<Rightarrow> string \<Rightarrow> bool \<Rightarrow> bool result" where
  "parse_bool v name dflt =
     (case v of None \<Rightarrow> Inr dflt | Some (JBool b) \<Rightarrow> Inr b
      | Some _ \<Rightarrow> Inl (invalid_argument (name @ '' must be a boolean'')))"

definition parse_verbosity :: "json option \<Rightarrow> string option result" where
  "parse_verbosity v =
     (case v of None \<Rightarrow> Inr None
      | Some (JString s) \<Rightarrow>
          if s \<in> set [''summary'', ''preview'', ''full''] then Inr (Some s)
          else Inl (invalid_argument ''verbosity must be summary, preview, or full'')
      | Some _ \<Rightarrow> Inl (invalid_argument ''verbosity must be a string''))"

section \<open>A permission request\<close>

record native_permission_request =
  req_tool :: native_permission_tool
  req_kind :: native_permission_kind
  req_reason :: string
  req_arguments_sha256 :: string
  req_scope :: native_permission_scope
  req_ttl_seconds :: nat

definition get_str :: "object \<Rightarrow> string \<Rightarrow> string option" where
  "get_str input key = Option.bind (obj_get input key) as_str"

definition msg_ttl :: string where
  "msg_ttl = ''ttl_seconds must be an integer between 1 and 3600''"

definition parse_scope :: "json option \<Rightarrow> native_permission_scope result" where
  "parse_scope v = (case v of None \<Rightarrow> Inr Once
     | Some (JString s) \<Rightarrow>
         ok_or (scope_from_wire s) (invalid_argument ''scope must be once or session'')
     | Some _ \<Rightarrow> Inl (invalid_argument ''scope must be once or session''))"

definition parse_ttl :: "json option \<Rightarrow> nat result" where
  "parse_ttl v = (case v of None \<Rightarrow> Inr default_permission_ttl_seconds
     | Some (JNumber n) \<Rightarrow> (case number_as_u64 n of
         Some t \<Rightarrow> if 1 \<le> t \<and> t \<le> max_permission_ttl_seconds then Inr t
           else Inl (invalid_argument msg_ttl)
       | None \<Rightarrow> Inl (invalid_argument msg_ttl))
     | Some _ \<Rightarrow> Inl (invalid_argument msg_ttl))"

definition request_parse :: "native_externals \<Rightarrow> object \<Rightarrow> native_permission_request result" where
  "request_parse x input =
     bind_r (ok_or (Option.bind (get_str input ''tool_name'') tool_from_wire)
       (invalid_argument ''tool_name must be exec_command or apply_patch'')) (\<lambda>tool.
     bind_r (ok_or (Option.bind (get_str input ''permission'') kind_from_wire)
       (invalid_argument ''permission is not a supported Native permission kind'')) (\<lambda>kind.
     bind_r (ok_or (Option.bind (get_str input ''reason'')
         (\<lambda>r. if trim r = [] then None else Some (trim r)))
       (invalid_argument ''reason must be a non-empty string'')) (\<lambda>reason.
     bind_r (ok_or (Option.bind (obj_get input ''arguments'') as_object)
       (invalid_argument ''arguments must be an object'')) (\<lambda>arguments.
     bind_r (parse_scope (obj_get input ''scope'')) (\<lambda>scope.
     bind_r (parse_ttl (obj_get input ''ttl_seconds'')) (\<lambda>ttl.
     bind_r (canonical_arguments_sha256 x arguments) (\<lambda>digest.
       Inr \<lparr>req_tool = tool, req_kind = kind, req_reason = reason,
         req_arguments_sha256 = digest, req_scope = scope, req_ttl_seconds = ttl\<rparr>)))))))"

definition native_mode_implicitly_grants :: "native_mode \<Rightarrow> native_permission_kind \<Rightarrow> bool" where
  "native_mode_implicitly_grants mode kind = (case mode of Dangerous \<Rightarrow> True)"

section \<open>A command invocation\<close>

datatype exec_invocation_form = Cmd | Argv

record exec_invocation =
  argv :: "string list"
  policy_text :: string
  form :: exec_invocation_form
  workdir :: string
  timeout_ms :: nat
  yield_time_ms :: nat
  max_output_bytes :: nat
  preview_bytes :: nat
  stdin_present :: bool
  tty :: bool
  verbosity :: "string option"
  environment :: "(string \<times> string) list"
  exec_sha256 :: string

definition exec_allowed :: "string list" where
  "exec_allowed = [''cmd'', ''argv'', ''cwd'', ''workdir'', ''env'', ''max_output_bytes'',
     ''preview_bytes'', ''stdin'', ''timeout_ms'', ''tty'', ''verbosity'', ''yield_time_ms'']"

definition parse_cmd :: "json \<Rightarrow> (string list \<times> string \<times> exec_invocation_form) result" where
  "parse_cmd v =
     (case as_str v of None \<Rightarrow> Inl (invalid_argument ''cmd must be a non-empty string'')
      | Some command \<Rightarrow>
          if command = [] then Inl (invalid_argument ''cmd must be a non-empty string'')
          else if nul \<in> set command then Inl (invalid_argument ''cmd contains a NUL byte'')
          else Inr ([''/bin/sh'', ''-c'', command], command, Cmd))"

definition parse_argument :: "json \<Rightarrow> string result" where
  "parse_argument item =
     bind_r (ok_or (as_str item) (invalid_argument ''argv must contain only strings'')) (\<lambda>text.
       if nul \<in> set text then Inl (invalid_argument ''argv contains a NUL byte'') else Inr text)"

definition parse_argv :: "json \<Rightarrow> (string list \<times> string \<times> exec_invocation_form) result" where
  "parse_argv v =
     bind_r (ok_or (as_array v) (invalid_argument ''argv must be an array of strings'')) (\<lambda>items.
     if items = [] then Inl (invalid_argument ''argv must contain an executable'')
     else bind_r (traverse_r parse_argument items) (\<lambda>parsed.
       if parsed = [] \<or> hd parsed = []
       then Inl (invalid_argument ''argv executable must be non-empty'')
       else Inr (parsed, join '' '' parsed, Argv)))"

definition parse_command_form ::
  "object \<Rightarrow> (string list \<times> string \<times> exec_invocation_form) result" where
  "parse_command_form input =
     (case (obj_get input ''cmd'', obj_get input ''argv'') of
        (Some _, Some _) \<Rightarrow>
          Inl (invalid_argument ''exec_command must provide cmd or argv, not both'')
      | (Some v, None) \<Rightarrow> parse_cmd v
      | (None, Some v) \<Rightarrow> parse_argv v
      | (None, None) \<Rightarrow> Inl (invalid_argument ''cmd or argv is required''))"

definition parse_stdin :: "json option \<Rightarrow> bool result" where
  "parse_stdin v = (case v of None \<Rightarrow> Inr False | Some (JString _) \<Rightarrow> Inr True
     | Some _ \<Rightarrow> Inl (invalid_argument ''stdin must be a string''))"

definition exec_parse :: "native_externals \<Rightarrow> object \<Rightarrow> exec_invocation result" where
  "exec_parse x input =
     bind_r (reject_unknown_keys input exec_allowed) (\<lambda>_.
     bind_r (parse_command_form input) (\<lambda>(av, text, fm).
     bind_r (parse_workdir input) (\<lambda>wd.
     bind_r (parse_environment (obj_get input ''env'')) (\<lambda>env.
     bind_r (parse_bounded_u64 (obj_get input ''timeout_ms'') ''timeout_ms''
       default_exec_timeout_ms 1 max_exec_timeout_ms) (\<lambda>timeout.
     bind_r (parse_bounded_u64 (obj_get input ''yield_time_ms'') ''yield_time_ms''
       default_exec_yield_time_ms 0 max_exec_yield_time_ms) (\<lambda>yield.
     bind_r (parse_bounded_usize (obj_get input ''max_output_bytes'') ''max_output_bytes''
       default_exec_max_output_bytes 1 max_exec_max_output_bytes) (\<lambda>output.
     bind_r (parse_bounded_usize (obj_get input ''preview_bytes'') ''preview_bytes''
       default_exec_preview_bytes 1 max_exec_preview_bytes) (\<lambda>preview.
     bind_r (parse_stdin (obj_get input ''stdin'')) (\<lambda>stdin.
     bind_r (parse_bool (obj_get input ''tty'') ''tty'' False) (\<lambda>is_tty.
     bind_r (parse_verbosity (obj_get input ''verbosity'')) (\<lambda>verb.
     bind_r (canonical_arguments_sha256 x input) (\<lambda>digest.
       Inr \<lparr>argv = av, policy_text = text, form = fm, workdir = wd, timeout_ms = timeout,
         yield_time_ms = yield, max_output_bytes = output, preview_bytes = preview,
         stdin_present = stdin, tty = is_tty, verbosity = verb, environment = env,
         exec_sha256 = digest\<rparr>))))))))))))"

definition executable_candidates :: "native_externals \<Rightarrow> exec_invocation \<Rightarrow> string list result" where
  "executable_candidates x i =
     (case form i of
        Cmd \<Rightarrow> shell_executable_candidates (words_split x) (policy_text i) 0
      | Argv \<Rightarrow> argv_executable_candidates (words_split x) (argv i))"

section \<open>A patch invocation\<close>

record patch_invocation =
  operations :: "patch_operation list"
  dry_run :: bool
  patch_sha256 :: string

definition scope_operation :: "string \<Rightarrow> patch_operation" where
  "scope_operation path = \<lparr>op_kind = ''update'', op_path = path, add_content = None, hunks = [],
     move_to = None\<rparr>"

definition structured_scope :: "string list \<Rightarrow> bool \<Rightarrow> string \<Rightarrow> patch_invocation result" where
  "structured_scope paths dry digest =
     (if paths = [] \<or> length digest \<noteq> 64 \<or> \<not> list_all is_ascii_hexdigit digest
      then Inl (invalid_argument ''Invalid structured change scope'')
      else bind_r (traverse_r (\<lambda>path. bind_r (validate_workspace_path path) (\<lambda>_.
          Inr (scope_operation path))) paths) (\<lambda>ops.
        Inr \<lparr>operations = ops, dry_run = dry, patch_sha256 = digest\<rparr>))"

definition idempotency_key_ok :: "json \<Rightarrow> bool" where
  "idempotency_key_ok v = (case as_str v of None \<Rightarrow> False
     | Some s \<Rightarrow> s \<noteq> [] \<and> length s \<le> 128 \<and> nul \<notin> set s)"

definition validate_operation :: "patch_operation \<Rightarrow> unit result" where
  "validate_operation op =
     bind_r (validate_workspace_path (op_path op)) (\<lambda>_.
       case move_to op of None \<Rightarrow> Inr ()
       | Some d \<Rightarrow> bind_r (validate_workspace_path d) (\<lambda>_. Inr ()))"

definition msg_idempotency :: string where
  "msg_idempotency =
     ''idempotency_key must be a nonempty string of at most 128 bytes without NUL''"

definition patch_text :: "object \<Rightarrow> string result" where
  "patch_text input =
     (case get_str input ''patch'' of
        None \<Rightarrow> Inl (invalid_argument ''patch must be a non-empty string'')
      | Some patch \<Rightarrow>
          if patch = [] then Inl (invalid_argument ''patch must be a non-empty string'')
          else if nul \<in> set patch then Inl (invalid_argument ''patch contains a NUL byte'')
          else if 1024 * 1024 < length patch then Inl (invalid_argument ''patch exceeds 1 MiB'')
          else Inr patch)"

definition checked_operations :: "string \<Rightarrow> patch_operation list result" where
  "checked_operations patch =
     bind_r (parse_patch_current patch) (\<lambda>ops.
       if 100 < length ops then Inl (invalid_argument ''patch exceeds 100 operations'')
       else if ops = [] then Inl (invalid_argument ''patch must contain at least one operation'')
       else bind_r (traverse_r validate_operation ops) (\<lambda>_. Inr ops))"

definition patch_parse :: "native_externals \<Rightarrow> object \<Rightarrow> patch_invocation result" where
  "patch_parse x input =
     bind_r (reject_unknown_keys input [''patch'', ''dry_run'', ''idempotency_key'']) (\<lambda>_.
     bind_r (ensure (case obj_get input ''idempotency_key'' of None \<Rightarrow> True
         | Some v \<Rightarrow> idempotency_key_ok v) (invalid_argument msg_idempotency)) (\<lambda>_.
     bind_r (patch_text input) (\<lambda>patch.
     bind_r (checked_operations patch) (\<lambda>ops.
     bind_r (parse_bool (obj_get input ''dry_run'') ''dry_run'' False) (\<lambda>dry.
     bind_r (canonical_arguments_sha256 x input) (\<lambda>digest.
       Inr \<lparr>operations = ops, dry_run = dry, patch_sha256 = digest\<rparr>))))))"

section \<open>Either invocation\<close>

datatype native_invocation = Exec exec_invocation | Patch patch_invocation

definition invocation_parse ::
  "native_externals \<Rightarrow> native_permission_tool \<Rightarrow> object \<Rightarrow> native_invocation result" where
  "invocation_parse x tool input =
     (case tool of
        ExecCommand \<Rightarrow> map_ok Exec (exec_parse x input)
      | ApplyPatch \<Rightarrow> map_ok Patch (patch_parse x input))"

fun invocation_tool :: "native_invocation \<Rightarrow> native_permission_tool" where
  "invocation_tool (Exec _) = ExecCommand"
| "invocation_tool (Patch _) = ApplyPatch"

fun invocation_sha256 :: "native_invocation \<Rightarrow> string" where
  "invocation_sha256 (Exec i) = exec_sha256 i"
| "invocation_sha256 (Patch i) = patch_sha256 i"


section \<open>What a parsed invocation satisfies\<close>

lemma hex_digit_hexdigit: "n < 16 \<Longrightarrow> is_ascii_hexdigit (hex_digit n)"
  by (auto simp: hex_digit_def eval_ascii)

lemma canonical_sha256_hex:
  assumes "canonical_arguments_sha256 x arguments = Inr d" "digests_ok x"
  shows "is_sha256_hex d"
proof -
  obtain bytes where d: "d = concat (map hex_byte (sha256 x bytes))"
    using assms(1) by (auto simp: canonical_arguments_sha256_def split: sum.splits)
  have len: "length (concat (map hex_byte bs)) = 2 * length bs" for bs
    by (induction bs) (auto simp: hex_byte_def)
  have "list_all is_ascii_hexdigit (concat (map hex_byte bs))" if "\<forall>b \<in> set bs. b < 256" for bs
    using that by (induction bs) (auto simp: hex_byte_def intro!: hex_digit_hexdigit)
  then show ?thesis
    using assms(2) len by (auto simp: is_sha256_hex_def d digests_ok_def)
qed

lemma reject_unknown_Inr: "reject_unknown_keys input allowed = Inr u \<longleftrightarrow> fst ` set input \<subseteq> set allowed"
proof (cases "find (\<lambda>k. k \<notin> set allowed) (map fst input)")
  case None
  then show ?thesis
    using None [unfolded find_None_iff] by (auto simp: reject_unknown_keys_def)
next
  case (Some k)
  then have "k \<in> fst ` set input" "k \<notin> set allowed" by (auto dest!: find_Some_mem)
  then show ?thesis using Some by (auto simp: reject_unknown_keys_def)
qed

lemma parse_bounded_u64_range:
  "parse_bounded_u64 v name d lo hi = Inr n \<Longrightarrow> lo \<le> n \<and> n \<le> hi"
  by (auto simp: parse_bounded_u64_def bind_r_eq_Inr split: if_splits)

lemma parse_bounded_usize_range:
  "parse_bounded_usize v name d lo hi = Inr n \<Longrightarrow> lo \<le> n \<and> n \<le> hi"
  by (auto simp: parse_bounded_usize_def bind_r_eq_Inr dest: parse_bounded_u64_range split: if_splits)

lemma parse_workdir_checked: "parse_workdir input = Inr p \<Longrightarrow> \<exists>raw. validate_workspace_path raw = Inr p"
  by (auto simp: parse_workdir_def bind_r_eq_Inr split: if_splits)

definition variable_ok :: "string \<times> string \<Rightarrow> bool" where
  "variable_ok kv \<longleftrightarrow> fst kv \<noteq> [] \<and> nul \<notin> set (fst kv) \<and> CHR ''='' \<notin> set (fst kv) \<and> nul \<notin> set (snd kv)"

lemma set_bt_collect: "set (bt_collect kvs) \<subseteq> set kvs"
proof
  fix kv assume "kv \<in> set (bt_collect kvs)"
  then have "map_of (bt_collect kvs) (fst kv) = Some (snd kv)"
    using sorted_keys_distinct [OF sorted_bt_collect [of kvs]] by (simp add: map_of_eq_Some_iff)
  then have "map_of (rev kvs) (fst kv) = Some (snd kv)" by (simp add: map_of_bt_collect)
  then show "kv \<in> set kvs" by (cases kv) (auto dest: map_of_SomeD)
qed

lemma parse_environment_ok:
  assumes "parse_environment v = Inr env"
  shows "sorted_keys env" "\<forall>kv \<in> set env. variable_ok kv"
proof -
  have "sorted_keys env \<and> (\<forall>kv \<in> set env. variable_ok kv)"
  proof (cases v)
    case None
    then show ?thesis using assms by (simp add: parse_environment_def sorted_keys_def)
  next
    case (Some j)
    then obtain obj kvs where e: "traverse_r parse_variable obj = Inr kvs" "env = bt_collect kvs"
      using assms by (auto simp: parse_environment_def bind_r_eq_Inr)
    have "variable_ok kv" if kv: "kv \<in> set kvs" for kv
    proof -
      obtain e where "parse_variable e = Inr kv" using traverse_r_set [OF e(1) kv] by blast
      then show ?thesis
        by (auto simp: parse_variable_def variable_ok_def bind_r_eq_Inr split: if_splits prod.splits)
    qed
    then show ?thesis using e(2) sorted_bt_collect [of kvs] set_bt_collect [of kvs] by auto
  qed
  then show "sorted_keys env" "\<forall>kv \<in> set env. variable_ok kv" by auto
qed

lemma parse_command_form_ok:
  assumes "parse_command_form input = Inr (av, ct, fm)"
  shows "av \<noteq> [] \<and> hd av \<noteq> [] \<and> (\<forall>a \<in> set av. nul \<notin> set a) \<and>
    (case fm of Cmd \<Rightarrow> av = [''/bin/sh'', ''-c'', ct] \<and> ct \<noteq> [] | Argv \<Rightarrow> ct = join '' '' av)"
proof (cases fm)
  case Cmd
  then have "av = [''/bin/sh'', ''-c'', ct] \<and> ct \<noteq> [] \<and> nul \<notin> set ct"
    using assms by (auto simp: parse_command_form_def parse_cmd_def parse_argv_def bind_r_eq_Inr
        split: option.splits if_splits)
  then show ?thesis using Cmd by auto
next
  case Argv
  then obtain items where i: "traverse_r parse_argument items = Inr av" "av \<noteq> []" "hd av \<noteq> []"
    "ct = join '' '' av"
    using assms by (auto simp: parse_command_form_def parse_cmd_def parse_argv_def bind_r_eq_Inr
        split: option.splits if_splits)
  have "nul \<notin> set a" if a: "a \<in> set av" for a
  proof -
    obtain item where "parse_argument item = Inr a" using traverse_r_set [OF i(1) a] by blast
    then show ?thesis by (auto simp: parse_argument_def bind_r_eq_Inr split: if_splits)
  qed
  then show ?thesis using Argv i by simp
qed

lemma exec_parse_Inr:
  assumes "exec_parse x input = Inr i"
  shows "reject_unknown_keys input exec_allowed = Inr ()"
    "parse_command_form input = Inr (argv i, policy_text i, form i)"
    "parse_workdir input = Inr (workdir i)"
    "parse_environment (obj_get input ''env'') = Inr (environment i)"
    "1 \<le> timeout_ms i \<and> timeout_ms i \<le> max_exec_timeout_ms"
    "yield_time_ms i \<le> max_exec_yield_time_ms"
    "1 \<le> max_output_bytes i \<and> max_output_bytes i \<le> max_exec_max_output_bytes"
    "1 \<le> preview_bytes i \<and> preview_bytes i \<le> max_exec_preview_bytes"
    "canonical_arguments_sha256 x input = Inr (exec_sha256 i)"
proof -
  obtain av ct fm wd env t y out pv st is_tty vb dg where
    p: "reject_unknown_keys input exec_allowed = Inr ()"
      "parse_command_form input = Inr (av, ct, fm)" "parse_workdir input = Inr wd"
      "parse_environment (obj_get input ''env'') = Inr env"
      "parse_bounded_u64 (obj_get input ''timeout_ms'') ''timeout_ms''
         default_exec_timeout_ms 1 max_exec_timeout_ms = Inr t"
      "parse_bounded_u64 (obj_get input ''yield_time_ms'') ''yield_time_ms''
         default_exec_yield_time_ms 0 max_exec_yield_time_ms = Inr y"
      "parse_bounded_usize (obj_get input ''max_output_bytes'') ''max_output_bytes''
         default_exec_max_output_bytes 1 max_exec_max_output_bytes = Inr out"
      "parse_bounded_usize (obj_get input ''preview_bytes'') ''preview_bytes''
         default_exec_preview_bytes 1 max_exec_preview_bytes = Inr pv"
      "canonical_arguments_sha256 x input = Inr dg"
    and i: "i = \<lparr>argv = av, policy_text = ct, form = fm, workdir = wd, timeout_ms = t,
      yield_time_ms = y, max_output_bytes = out, preview_bytes = pv, stdin_present = st, tty = is_tty,
      verbosity = vb, environment = env, exec_sha256 = dg\<rparr>"
    using assms unfolding exec_parse_def bind_r_eq_Inr by (fastforce simp: bind_r_eq_Inr)
  show "reject_unknown_keys input exec_allowed = Inr ()"
    "parse_command_form input = Inr (argv i, policy_text i, form i)"
    "parse_workdir input = Inr (workdir i)"
    "parse_environment (obj_get input ''env'') = Inr (environment i)"
    "canonical_arguments_sha256 x input = Inr (exec_sha256 i)"
    using p by (simp_all add: i)
  show "1 \<le> timeout_ms i \<and> timeout_ms i \<le> max_exec_timeout_ms"
    "yield_time_ms i \<le> max_exec_yield_time_ms"
    "1 \<le> max_output_bytes i \<and> max_output_bytes i \<le> max_exec_max_output_bytes"
    "1 \<le> preview_bytes i \<and> preview_bytes i \<le> max_exec_preview_bytes"
    using parse_bounded_u64_range [OF p(5)] parse_bounded_u64_range [OF p(6)]
      parse_bounded_usize_range [OF p(7)] parse_bounded_usize_range [OF p(8)] by (simp_all add: i)
qed

text \<open>An accepted \<open>exec_command\<close> has a program to run and no NUL byte in any argument or
  variable; a command string becomes exactly \<open>/bin/sh -c\<close> with that string; the working directory
  passed the path check; every limit is in its range; every key of the input is known; and the
  invocation is bound to a digest of 64 hexadecimal digits.\<close>

theorem exec_arguments_validated:
  assumes "exec_parse x input = Inr i" and "digests_ok x"
  shows "argv i \<noteq> [] \<and> hd (argv i) \<noteq> [] \<and> (\<forall>a \<in> set (argv i). nul \<notin> set a) \<and>
    (case form i of Cmd \<Rightarrow> argv i = [''/bin/sh'', ''-c'', policy_text i] \<and> policy_text i \<noteq> []
      | Argv \<Rightarrow> policy_text i = join '' '' (argv i)) \<and>
    sorted_keys (environment i) \<and> (\<forall>kv \<in> set (environment i). variable_ok kv) \<and>
    (\<exists>raw. validate_workspace_path raw = Inr (workdir i)) \<and>
    1 \<le> timeout_ms i \<and> timeout_ms i \<le> 600000 \<and> yield_time_ms i \<le> 30000 \<and>
    1 \<le> max_output_bytes i \<and> max_output_bytes i \<le> 1048576 \<and>
    1 \<le> preview_bytes i \<and> preview_bytes i \<le> 1048576 \<and>
    fst ` set input \<subseteq> set exec_allowed \<and> is_sha256_hex (exec_sha256 i)"
proof -
  note p = exec_parse_Inr [OF assms(1)]
  note cmd = parse_command_form_ok [OF p(2)]
  note env = parse_environment_ok [OF p(4)]
  show ?thesis
    using cmd env parse_workdir_checked [OF p(3)] p(1) p(5-8)
      canonical_sha256_hex [OF p(9) assms(2)]
    by (simp add: reject_unknown_Inr exec_limits)
qed


definition example_native :: native_externals where
  "example_native = \<lparr>compile = (\<lambda>b p. Inr (\<lambda>s. False)), words_split = (\<lambda>s. Some (split_on (CHR '' '') s)),
     words_join = join '' '', to_vec = (\<lambda>v. Inr []), sha256 = (\<lambda>s. replicate 32 171)\<rparr>"

lemma example_native_simps:
  "compile example_native b p = Inr (\<lambda>s. False)"
  "words_split example_native s = Some (split_on (CHR '' '') s)"
  "to_vec example_native v = Inr []" "sha256 example_native s = replicate 32 171"
  by (simp_all add: example_native_def)

lemma example_digests_ok: "digests_ok example_native"
  by (simp add: digests_ok_def example_native_simps)

lemma example_workdir: "validate_workspace_path ''.'' = Inr ''.''"
  by (simp add: validate_workspace_path_def starts_with_def)

theorem exec_arguments_validated_witness:
  "\<exists>i. exec_parse example_native [(''cmd'', JString ''pwd'')] = Inr i \<and>
     argv i = [''/bin/sh'', ''-c'', ''pwd''] \<and> timeout_ms i \<le> 600000 \<and> is_sha256_hex (exec_sha256 i)"
proof -
  let ?input = "[(''cmd'', JString ''pwd'')]"
  obtain i where i: "exec_parse example_native ?input = Inr i"
    "argv i = [''/bin/sh'', ''-c'', ''pwd'']"
    by (simp add: exec_parse_def reject_unknown_keys_def exec_allowed_def parse_command_form_def
        parse_cmd_def parse_workdir_def optional_string_def example_workdir parse_environment_def
        parse_bounded_u64_def parse_bounded_usize_def exec_limits u64_max_def parse_stdin_def
        parse_bool_def parse_verbosity_def canonical_arguments_sha256_def example_native_simps)
  then show ?thesis using exec_arguments_validated [OF i(1) example_digests_ok] by simp
qed

text \<open>An accepted \<open>apply_patch\<close> has between 1 and 100 operations, which are what the parser
  reads from the patch text; the text is at most 1 MiB and has no NUL byte; and every path in it, the
  destination of a move included, passed the path check.\<close>

theorem patch_arguments_validated:
  assumes "patch_parse x input = Inr i" and "digests_ok x"
  shows "\<exists>patch. obj_get input ''patch'' = Some (JString patch) \<and>
    parse_patch_current patch = Inr (operations i) \<and> length patch \<le> 1048576 \<and> nul \<notin> set patch \<and>
    1 \<le> length (operations i) \<and> length (operations i) \<le> 100 \<and>
    (\<forall>op \<in> set (operations i). \<forall>path. path = op_path op \<or> move_to op = Some path \<longrightarrow>
       (\<exists>p. validate_workspace_path path = Inr p)) \<and>
    is_sha256_hex (patch_sha256 i)"
proof -
  obtain patch ops dry dg where t: "patch_text input = Inr patch"
    and o: "checked_operations patch = Inr ops" and d: "canonical_arguments_sha256 x input = Inr dg"
    and i: "i = \<lparr>operations = ops, dry_run = dry, patch_sha256 = dg\<rparr>"
    using assms(1) by (auto simp: patch_parse_def bind_r_eq_Inr)
  have g: "get_str input ''patch'' = Some patch" "nul \<notin> set patch" "length patch \<le> 1024 * 1024"
    using t by (auto simp: patch_text_def split: option.splits if_splits)
  obtain us where p: "parse_patch_current patch = Inr ops" "length ops \<le> 100" "ops \<noteq> []"
    and v: "traverse_r validate_operation ops = Inr us"
    using o by (auto simp: checked_operations_def bind_r_eq_Inr split: if_splits)
  have get: "obj_get input ''patch'' = Some (JString patch)"
    using g(1) by (auto simp: get_str_def bind_eq_Some_conv)
  have valid: "\<exists>p. validate_workspace_path path = Inr p"
    if op: "op \<in> set ops" and path: "path = op_path op \<or> move_to op = Some path" for op path
  proof -
    obtain u where "validate_operation op = Inr u" using traverse_r_mem [OF v op] by blast
    then show ?thesis using path by (auto simp: validate_operation_def bind_r_eq_Inr)
  qed
  have "1 \<le> length ops" using p(3) by (cases ops) auto
  then show ?thesis
    using get g p valid canonical_sha256_hex [OF d assms(2)] by (intro exI [of _ patch]) (simp add: i)
qed


lemma example_patch_parses:
  "parse_patch_current (render_patch [DeleteFile ''a'']) = Inr [op_delete ''a'']"
proof -
  have "list_all wf_item [DeleteFile ''a'']"
    by (simp add: wf_path_def wf_line_def eval_trim)
  from patch_body_render [OF this] parse_ops_render [OF this]
  show ?thesis by (simp add: parse_patch_current_def)
qed

theorem patch_arguments_validated_witness:
  "\<exists>i. patch_parse example_native [(''patch'', JString (render_patch [DeleteFile ''a'']))] = Inr i \<and>
     operations i = [op_delete ''a''] \<and> is_sha256_hex (patch_sha256 i)"
proof -
  let ?text = "render_patch [DeleteFile ''a'']"
  let ?input = "[(''patch'', JString ?text)]"
  have tx: "?text \<noteq> []" "nul \<notin> set ?text" "length ?text \<le> 1024 * 1024"
    by (simp_all add: render_patch_def kw_delete_def)
  have path: "validate_workspace_path ''a'' = Inr ''a''"
    by (simp add: validate_workspace_path_def starts_with_def)
  obtain i where i: "patch_parse example_native ?input = Inr i" "operations i = [op_delete ''a'']"
    using tx path
    by (simp add: patch_parse_def reject_unknown_keys_def get_str_def patch_text_def
        checked_operations_def example_patch_parses validate_operation_def op_delete_def parse_bool_def canonical_arguments_sha256_def
        example_native_simps del: One_nat_def)
  then show ?thesis using patch_arguments_validated [OF i(1) example_digests_ok] by auto
qed


text \<open>The digest an invocation is bound to depends on the arguments and not on the order in which
  their keys were written: two argument objects with the same entries have the same digest, so a
  grant for one is a grant for the other.\<close>

theorem digest_ignores_key_order:
  assumes "distinct (map fst a)" "distinct (map fst b)" "map_of a = map_of b"
  shows "canonical_arguments_sha256 x a = canonical_arguments_sha256 x b"
proof -
  let ?g = "map (\<lambda>(k, v). (k, sort_json v))"
  have m: "map_of (bt_collect (?g kvs)) = map_option sort_json \<circ> map_of kvs"
    if "distinct (map fst kvs)" for kvs
  proof -
    have "map fst (?g kvs) = map fst kvs" by (induction kvs) auto
    then have d: "distinct (map fst (?g kvs))" using that by (simp only:)
    then have "distinct (map fst (rev (?g kvs)))" by (simp only: rev_map [symmetric] distinct_rev)
    then have "map_of (rev (?g kvs)) = map_of (?g kvs)"
      using d by (intro map_of_inject_set [THEN iffD2]) simp_all
    then show ?thesis by (simp add: map_of_bt_collect map_of_map comp_def fun_eq_iff)
  qed
  have "bt_collect (?g a) = bt_collect (?g b)"
    using m [OF assms(1)] m [OF assms(2)] assms(3) by (intro keys_sorted_eq) (simp_all add: sorted_bt_collect)
  then show ?thesis by (simp add: canonical_arguments_sha256_def)
qed

theorem digest_ignores_key_order_witness:
  "canonical_arguments_sha256 example_native [(''tty'', JBool True), (''cmd'', JString ''ls'')] =
   canonical_arguments_sha256 example_native [(''cmd'', JString ''ls''), (''tty'', JBool True)]"
  by (rule digest_ignores_key_order) (auto simp: fun_eq_iff)

end
