(* ===== verification/Native_Policy.thy ===== *)
theory Native_Policy
  imports Native_Arguments "HOL-Library.Word"
begin

unbundle bit_operations_syntax

text \<open>
  The facts a native invocation is judged by and the permissions it needs, from
  \<open>crates/mtm-core/src/native_permission.rs\<close>: \<open>ResolvedExecutableFact\<close>, \<open>PatchPathFact\<close>,
  \<open>ExecPermissionFacts\<close>, the two classifications and \<open>EffectiveNativePolicy\<close>. The facts come from
  the runtime; nothing here reads the file system.

  A mode of a file is a \<open>u32\<close>. A \<open>BTreeSet\<close> of kinds is a set, a \<open>BTreeMap\<close> of facts by path an
  association list with the entries the code looks up.
\<close>

section \<open>Facts\<close>

record resolved_executable =
  requested :: string
  resolved_path :: string
  device :: nat
  inode :: nat
  mode_bits :: "32 word"
  file_size :: nat
  modified_fingerprint :: "string option"

definition is_privileged :: "resolved_executable \<Rightarrow> bool" where
  "is_privileged f \<longleftrightarrow> mode_bits f AND 0xC00 \<noteq> 0"

record patch_path_fact =
  fact_path :: string
  canonical_generated :: bool
  git_ignored :: bool

definition generated_components :: "string list" where
  "generated_components = [''.git'', ''.venv'', ''venv'', ''node_modules'', ''dist'', ''build'',
     ''__pycache__'', ''.pytest_cache'', ''.mypy_cache'', ''.ruff_cache'', ''target'']"

text \<open>The normal components of a path are its parts other than the empty one, \<open>.\<close> and \<open>..\<close>.\<close>

definition has_canonical_generated_component :: "string \<Rightarrow> bool" where
  "has_canonical_generated_component path \<longleftrightarrow>
     list_ex (\<lambda>c. plain c \<and> c \<in> set generated_components) (split_on (CHR ''/'') path)"

definition patch_path_fact_new :: "string \<Rightarrow> bool \<Rightarrow> patch_path_fact result" where
  "patch_path_fact_new path ignored =
     (if path = [] \<or> nul \<in> set path
      then Inl (invalid_argument ''patch path fact must contain a valid path'')
      else bind_r (validate_workspace_path path) (\<lambda>_.
        Inr \<lparr>fact_path = path, canonical_generated = has_canonical_generated_component path,
          git_ignored = ignored\<rparr>))"

definition requires_generated_write_permission :: "patch_path_fact \<Rightarrow> bool" where
  "requires_generated_write_permission f \<longleftrightarrow> canonical_generated f \<or> git_ignored f"

record exec_permission_facts =
  facts_sha256 :: string
  resolved_executables :: "resolved_executable list"
  unresolved_executables :: "string list"

definition security_error :: "string \<Rightarrow> string \<Rightarrow> re_ctm_error" where
  "security_error c m = with_category Security (error_new c m)"

definition msg_incomplete :: string where
  "msg_incomplete =
     ''Executable facts did not cover every statically discoverable executable.''"

definition is_resolved :: "resolved_executable list \<Rightarrow> string \<Rightarrow> bool" where
  "is_resolved resolved candidate \<longleftrightarrow> list_ex (\<lambda>f. requested f = candidate) resolved"

definition facts_with_unresolved ::
  "native_externals \<Rightarrow> exec_invocation \<Rightarrow> resolved_executable list \<Rightarrow> string list
    \<Rightarrow> exec_permission_facts result" where
  "facts_with_unresolved x i resolved unresolved =
     (if list_ex (\<lambda>v. v = [] \<or> nul \<in> set v) unresolved
      then Inl (invalid_argument ''unresolved executable fact is invalid'')
      else bind_r (executable_candidates x i) (\<lambda>candidates.
        if list_ex (\<lambda>c. \<not> is_resolved resolved c \<and> c \<notin> set unresolved) candidates
        then Inl (security_error ''NATIVE_EXECUTABLE_FACTS_INCOMPLETE'' msg_incomplete)
        else Inr \<lparr>facts_sha256 = exec_sha256 i, resolved_executables = resolved,
          unresolved_executables = unresolved\<rparr>))"

definition facts_new ::
  "native_externals \<Rightarrow> exec_invocation \<Rightarrow> resolved_executable list \<Rightarrow> exec_permission_facts result" where
  "facts_new x i resolved =
     bind_r (executable_candidates x i) (\<lambda>candidates.
       facts_with_unresolved x i resolved (filter (\<lambda>c. \<not> is_resolved resolved c) candidates))"

section \<open>What a command needs\<close>

definition exec_permission_order :: "native_permission_kind list" where
  "exec_permission_order = [SensitiveEnv, DestructiveCommand, ShellExpansion, InlineScriptKind,
     Network, LongTimeout, PrivilegedExecutable]"

definition patch_permission_order :: "native_permission_kind list" where
  "patch_permission_order = [WriteGeneratedOrIgnored]"

definition msg_facts_mismatch :: string where
  "msg_facts_mismatch = ''Executable facts are bound to a different invocation.''"

definition msg_unresolved :: string where
  "msg_unresolved = ''A statically resolvable command executable could not be inspected.''"

definition msg_guidance :: string where
  "msg_guidance = ''Check available tools; prefer argv for a literal program and explicit workdir/env.PATH. Candidate indexes are zero-based parse order, not argv indexes. Do not repeat unchanged parameters or relax isolation.''"

definition recovery_details :: json where
  "recovery_details = JObject
     [(''action'', JString ''correct_command''), (''automatic_retry'', JBool False),
      (''guidance'', JString msg_guidance), (''next_tool'', JString ''check_exec_environment''),
      (''side_effects'', JString ''none'')]"

definition unresolved_error :: "string list \<Rightarrow> string list \<Rightarrow> re_ctm_error" where
  "unresolved_error candidates unresolved =
     with_details (JObject
       [(''recovery'', recovery_details),
        (''unresolved_candidate_indexes'', JArray (map (\<lambda>(i, _). JNumber (PosInt i))
          (filter (\<lambda>(_, c). c \<in> set unresolved) (List.enumerate 0 candidates)))),
        (''unresolved_count'', JNumber (PosInt (length unresolved)))])
     (security_error ''NATIVE_EXECUTABLE_UNRESOLVED'' msg_unresolved)"

definition classify_exec_permissions ::
  "native_externals \<Rightarrow> exec_invocation \<Rightarrow> exec_permission_facts \<Rightarrow> native_permission_kind list result" where
  "classify_exec_permissions x i facts =
     (if facts_sha256 facts \<noteq> exec_sha256 i
      then Inl (security_error ''NATIVE_PERMISSION_FACTS_ARGUMENT_MISMATCH'' msg_facts_mismatch)
      else if unresolved_executables facts \<noteq> []
      then bind_r (executable_candidates x i) (\<lambda>candidates.
        Inl (unresolved_error candidates (unresolved_executables facts)))
      else bind_r (classify_command_permissions (externals.truncate x) (policy_text i) (environment i))
        (\<lambda>needs. Inr (
           (if form i = Argv then filter (\<lambda>k. k \<noteq> ShellExpansion) needs else needs) @
           keep_if (long_timeout_threshold_ms_exclusive < timeout_ms i) LongTimeout @
           keep_if (list_ex is_privileged (resolved_executables facts)) PrivilegedExecutable)))"

section \<open>What a patch needs\<close>

definition patch_paths :: "patch_operation list \<Rightarrow> string list result" where
  "patch_paths ops =
     map_ok (\<lambda>ps. remdups_adj (sort (concat ps)))
       (traverse_r (\<lambda>op.
          if op_kind op \<notin> set [''add'', ''delete'', ''update'']
          then Inl (invalid_argument ''patch operation kind is unsupported'')
          else if op_path op = [] \<or> nul \<in> set (op_path op)
          then Inl (invalid_argument ''patch operation path is invalid'')
          else case move_to op of
            None \<Rightarrow> Inr [op_path op]
          | Some d \<Rightarrow>
              if d = [] \<or> nul \<in> set d
              then Inl (invalid_argument ''patch move destination is invalid'')
              else Inr [op_path op, d]) ops)"

definition msg_ambiguous_facts :: string where
  "msg_ambiguous_facts = ''Patch path facts contained duplicate paths.''"

definition msg_uncovered :: string where
  "msg_uncovered = ''Patch path facts did not cover exactly every affected path.''"

definition uncovered_error :: "nat \<Rightarrow> nat \<Rightarrow> re_ctm_error" where
  "uncovered_error missing_count extra_count =
     with_details (JObject [(''extra_count'', JNumber (PosInt extra_count)),
       (''missing_count'', JNumber (PosInt missing_count))])
     (security_error ''NATIVE_PATCH_AUTHORITY_FACTS_INCOMPLETE'' msg_uncovered)"

definition classify_patch_permissions ::
  "patch_invocation \<Rightarrow> patch_path_fact list \<Rightarrow> native_permission_kind list result" where
  "classify_patch_permissions i facts =
     bind_r (patch_paths (operations i)) (\<lambda>expected.
       if \<not> distinct (map fact_path facts)
       then Inl (security_error ''NATIVE_PATCH_AUTHORITY_FACTS_AMBIGUOUS'' msg_ambiguous_facts)
       else let by_path = map_of (map (\<lambda>f. (fact_path f, f)) facts);
                missing_count = length (filter (\<lambda>p. by_path p = None) expected);
                extra_count = length (filter (\<lambda>p. p \<notin> set expected) (map fact_path facts)) in
         if missing_count \<noteq> 0 \<or> extra_count \<noteq> 0
         then Inl (uncovered_error missing_count extra_count)
         else if dry_run i then Inr []
         else Inr (keep_if (list_ex (\<lambda>p. case by_path p of None \<Rightarrow> False
             | Some f \<Rightarrow> requires_generated_write_permission f) expected) WriteGeneratedOrIgnored))"

section \<open>The effective policy\<close>

record effective_native_policy =
  eff_tool :: native_permission_tool
  eff_sha256 :: string
  required :: "native_permission_kind list"
  implicitly_granted :: "native_permission_kind set"
  explicitly_granted :: "native_permission_kind set"
  missing :: "native_permission_kind list"

definition allowed_permissions_for_tool :: "native_permission_tool \<Rightarrow> native_permission_kind list" where
  "allowed_permissions_for_tool tool =
     (case tool of ExecCommand \<Rightarrow> exec_permission_order | ApplyPatch \<Rightarrow> patch_permission_order)"

definition msg_digest :: string where
  "msg_digest = ''Native invocation argument digest must be a SHA-256 hex value''"

definition msg_kind_repeated :: string where
  "msg_kind_repeated = ''An invocation listed the same permission kind more than once.''"

fun check_required ::
  "native_permission_kind list \<Rightarrow> native_permission_kind set \<Rightarrow> native_permission_kind list
    \<Rightarrow> native_permission_kind set result" where
  "check_required allowed seen [] = Inr seen"
| "check_required allowed seen (k # ks) =
     (if k \<notin> set allowed
      then Inl (invalid_argument ''permission kind is not valid for this Native tool'')
      else if k \<in> seen
      then Inl (security_error ''NATIVE_PERMISSION_SET_AMBIGUOUS'' msg_kind_repeated)
      else check_required allowed (insert k seen) ks)"

definition policy_from_parts ::
  "native_mode \<Rightarrow> native_permission_tool \<Rightarrow> string \<Rightarrow> native_permission_kind list
    \<Rightarrow> native_permission_kind set \<Rightarrow> effective_native_policy result" where
  "policy_from_parts mode tool digest needed explicit =
     (if \<not> is_sha256_hex digest then Inl (invalid_argument msg_digest)
      else bind_r (check_required (allowed_permissions_for_tool tool) {} needed) (\<lambda>seen.
        let req = filter (\<lambda>k. k \<in> seen) (allowed_permissions_for_tool tool);
            implicit = set (filter (native_mode_implicitly_grants mode) req);
            granted = Set.filter (\<lambda>k. k \<in> seen) explicit in
        Inr \<lparr>eff_tool = tool, eff_sha256 = digest, required = req, implicitly_granted = implicit,
          explicitly_granted = granted,
          missing = filter (\<lambda>k. k \<notin> implicit \<and> k \<notin> granted) req\<rparr>))"

definition policy_evaluate ::
  "native_mode \<Rightarrow> native_invocation \<Rightarrow> native_permission_kind list \<Rightarrow> native_permission_kind set
    \<Rightarrow> effective_native_policy result" where
  "policy_evaluate mode i needed explicit =
     policy_from_parts mode (invocation_tool i) (invocation_sha256 i) needed explicit"

definition is_authorized :: "effective_native_policy \<Rightarrow> bool" where
  "is_authorized p \<longleftrightarrow> missing p = []"


section \<open>Classification and policy fit together\<close>

lemma subseq_filter_left: "subseq xs ys \<Longrightarrow> subseq (filter P xs) ys"
  by (meson subseq_filter_left subseq_order.order_trans)

lemma keep_if_two: "subseq (keep_if a k1 @ keep_if b k2) [k1, k2]"
  by (cases a; cases b) simp_all

lemma classify_exec_order:
  assumes "classify_exec_permissions x i facts = Inr needs"
  shows "subseq needs exec_permission_order"
proof -
  obtain ns where ns: "classify_command_permissions (externals.truncate x) (policy_text i) (environment i) = Inr ns"
    and needs: "needs = (if form i = Argv then filter (\<lambda>k. k \<noteq> ShellExpansion) ns else ns) @
      keep_if (long_timeout_threshold_ms_exclusive < timeout_ms i) LongTimeout @
      keep_if (list_ex is_privileged (resolved_executables facts)) PrivilegedExecutable"
    using assms by (auto simp: classify_exec_permissions_def bind_r_eq_Inr split: if_splits)
  have "subseq (if form i = Argv then filter (\<lambda>k. k \<noteq> ShellExpansion) ns else ns) command_order"
    using classify_command_order [OF ns] by (simp add: subseq_filter_left)
  then have "subseq needs (command_order @ [LongTimeout, PrivilegedExecutable])"
    unfolding needs by (rule list_emb_append_mono) (rule keep_if_two)
  then show ?thesis by (simp add: command_order_def exec_permission_order_def)
qed

lemma check_required_Inr:
  "check_required allowed seen ks = Inr s \<longleftrightarrow>
     set ks \<subseteq> set allowed \<and> distinct ks \<and> set ks \<inter> seen = {} \<and> s = seen \<union> set ks"
  by (induction ks arbitrary: seen) auto

lemma filter_subseq_distinct:
  "subseq xs ys \<Longrightarrow> distinct ys \<Longrightarrow> filter (\<lambda>k. k \<in> set xs) ys = xs"
proof (induction rule: list_emb.induct)
  case (list_emb_Cons2 x y xs ys)
  then have "filter (\<lambda>k. k = x \<or> k \<in> set xs) ys = filter (\<lambda>k. k \<in> set xs) ys"
    by (intro filter_cong) auto
  with list_emb_Cons2 show ?case by simp
next
  case (list_emb_Cons xs ys y)
  then have "y \<notin> set xs" by (auto dest: list_emb_set)
  with list_emb_Cons show ?case by simp
qed simp

lemma subseq_distinct: "subseq xs ys \<Longrightarrow> distinct ys \<Longrightarrow> distinct xs"
  by (induction rule: list_emb.induct) (auto dest: list_emb_set)

lemma orders_distinct: "distinct (allowed_permissions_for_tool tool)"
  by (cases tool)
     (simp_all add: allowed_permissions_for_tool_def exec_permission_order_def patch_permission_order_def)

lemma policy_from_parts_accepts:
  assumes "is_sha256_hex digest" "subseq needs (allowed_permissions_for_tool tool)"
  shows "\<exists>p. policy_from_parts mode tool digest needs explicit = Inr p \<and> required p = needs \<and>
    explicitly_granted p = explicit \<inter> set needs \<and> missing p = []"
proof -
  let ?a = "allowed_permissions_for_tool tool"
  have "distinct needs" "set needs \<subseteq> set ?a"
    using assms(2) orders_distinct [of tool] subseq_distinct by (auto dest: list_emb_set)
  then have "check_required ?a {} needs = Inr (set needs)" by (simp add: check_required_Inr)
  then show ?thesis
    using assms filter_subseq_distinct [OF assms(2) orders_distinct]
    by (auto simp: policy_from_parts_def Let_def native_mode_implicitly_grants_def
        split: native_mode.splits)
qed


text \<open>C21. The path of an accepted command to execution fails closed. When its facts were collected
  and it was classified, every executable the command can be seen to run was resolved, none was left
  out; a timeout above the threshold and a setuid or setgid executable are recorded; an argument
  vector is never charged with shell expansion; and the policy takes the classification as it is,
  kind for kind, and authorizes the call.\<close>

theorem classified_command_is_authorized:
  assumes "exec_parse x input = Inr i" and "digests_ok x"
    and "facts_with_unresolved x i resolved unresolved = Inr facts"
    and "classify_exec_permissions x i facts = Inr needs"
  shows "(\<exists>candidates. executable_candidates x i = Inr candidates \<and>
      (\<forall>c \<in> set candidates. \<exists>f \<in> set resolved. requested f = c)) \<and>
    subseq needs exec_permission_order \<and>
    (LongTimeout \<in> set needs \<longleftrightarrow> 30000 < timeout_ms i) \<and>
    (PrivilegedExecutable \<in> set needs \<longleftrightarrow> (\<exists>f \<in> set resolved. is_privileged f)) \<and>
    (form i = Argv \<longrightarrow> ShellExpansion \<notin> set needs) \<and>
    (\<exists>p. policy_evaluate Dangerous (Exec i) needs {} = Inr p \<and> required p = needs \<and> is_authorized p)"
proof -
  obtain candidates where c: "executable_candidates x i = Inr candidates"
    "\<forall>c \<in> set candidates. is_resolved resolved c \<or> c \<in> set unresolved"
    and facts: "facts = \<lparr>facts_sha256 = exec_sha256 i, resolved_executables = resolved,
      unresolved_executables = unresolved\<rparr>"
    using assms(3) by (auto simp: facts_with_unresolved_def bind_r_eq_Inr list_ex_iff split: if_splits)
  obtain ns where un: "unresolved = []"
    and ns: "classify_command_permissions (externals.truncate x) (policy_text i) (environment i) = Inr ns"
    and needs: "needs = (if form i = Argv then filter (\<lambda>k. k \<noteq> ShellExpansion) ns else ns) @
      keep_if (long_timeout_threshold_ms_exclusive < timeout_ms i) LongTimeout @
      keep_if (list_ex is_privileged resolved) PrivilegedExecutable"
    using assms(4) by (auto simp: classify_exec_permissions_def bind_r_eq_Inr facts split: if_splits)
  have "set ns \<subseteq> set command_order"
    using classify_command_order [OF ns] by (auto dest: list_emb_set)
  then have extra: "LongTimeout \<notin> set ns" "PrivilegedExecutable \<notin> set ns"
    by (auto simp: command_order_def)
  have "\<forall>c \<in> set candidates. \<exists>f \<in> set resolved. requested f = c"
    using c(2) un by (simp add: is_resolved_def list_ex_iff)
  moreover have "subseq needs exec_permission_order" by (rule classify_exec_order [OF assms(4)])
  moreover have "LongTimeout \<in> set needs \<longleftrightarrow> 30000 < timeout_ms i"
    "PrivilegedExecutable \<in> set needs \<longleftrightarrow> (\<exists>f \<in> set resolved. is_privileged f)"
    "form i = Argv \<longrightarrow> ShellExpansion \<notin> set needs"
    using extra by (auto simp: needs keep_if_def list_ex_iff long_timeout_threshold_ms_exclusive_def)
  moreover have "is_sha256_hex (exec_sha256 i)"
    using canonical_sha256_hex [OF exec_parse_Inr(9) [OF assms(1)] assms(2)] .
  ultimately show ?thesis
    using c(1) policy_from_parts_accepts [of "exec_sha256 i" needs ExecCommand Dangerous "{}"]
    by (auto simp: policy_evaluate_def is_authorized_def allowed_permissions_for_tool_def)
qed

lemma truncate_simps [simp]:
  "compile (externals.truncate x) = compile x" "words_split (externals.truncate x) = words_split x"
  "words_join (externals.truncate x) = words_join x"
  by (simp_all add: externals.truncate_def)

definition example_executable :: resolved_executable where
  "example_executable = \<lparr>requested = ''ls'', resolved_path = ''/bin/ls'', device = 1, inode = 2,
     mode_bits = 0x9ED, file_size = 3, modified_fingerprint = None\<rparr>"

theorem classified_command_is_authorized_witness:
  "\<exists>i facts needs p. exec_parse example_native [(''argv'', JArray [JString ''ls''])] = Inr i \<and>
     facts_with_unresolved example_native i [example_executable] [] = Inr facts \<and>
     classify_exec_permissions example_native i facts = Inr needs \<and> {LongTimeout, PrivilegedExecutable} \<subseteq> set needs \<and>
     policy_evaluate Dangerous (Exec i) needs {} = Inr p \<and> is_authorized p"
proof -
  let ?input = "[(''argv'', JArray [JString ''ls''])]"
  obtain i where i: "exec_parse example_native ?input = Inr i" "argv i = [''ls'']" "form i = Argv"
    "policy_text i = ''ls''" "environment i = []" "timeout_ms i = 300000"
    by (simp add: exec_parse_def reject_unknown_keys_def exec_allowed_def parse_command_form_def
        parse_argv_def parse_argument_def parse_workdir_def optional_string_def example_workdir
        parse_environment_def parse_bounded_u64_def parse_bounded_usize_def exec_limits u64_max_def
        parse_stdin_def parse_bool_def parse_verbosity_def canonical_arguments_sha256_def
        example_native_simps)
  have "\<not> is_shell_executable ''ls''"
    by (simp add: is_shell_executable_def executable_basename_def replace_backslash_def
        replace_byte_def eval_ascii)
  then have cand: "executable_candidates example_native i = Inr [''ls'']"
    by (simp add: executable_candidates_def i argv_executable_candidates_def nested_script_def)
  obtain facts where f: "facts_with_unresolved example_native i [example_executable] [] = Inr facts"
    "facts = \<lparr>facts_sha256 = exec_sha256 i, resolved_executables = [example_executable],
       unresolved_executables = []\<rparr>"
    by (simp add: facts_with_unresolved_def cand is_resolved_def example_executable_def)
  have seg: "literal_command_segments ''ls'' = Inr (Some [''ls''])"
    by (simp add: literal_command_segments_def command_segments_def max_source_bytes_def scan.simps
        eval_trim max_segments_def)
  obtain needs where n: "classify_exec_permissions example_native i facts = Inr needs"
    by (simp add: classify_exec_permissions_def f(2) i classify_command_permissions_def
        case_insensitive_regex_def regex_new_def destructive_command_def seg example_native_simps)
  have "is_privileged example_executable"
    by (simp add: is_privileged_def example_executable_def)
  then show ?thesis
    using classified_command_is_authorized [OF i(1) example_digests_ok f(1) n] i f(1) n by auto
qed

text \<open>The privilege test of the code, a mask over the mode of a file, is the presence of the
  setuid or the setgid bit, and of nothing else in the 32 bits.\<close>

theorem privileged_iff_setuid_or_setgid:
  "is_privileged f \<longleftrightarrow> bit (mode_bits f) 11 \<or> bit (mode_bits f) 10"
proof -
  have mask: "(0xC00 :: 32 word) = push_bit 10 (mask 2)" by (simp add: mask_eq_exp_minus_1 push_bit_eq_mult)
  have "mode_bits f AND 0xC00 \<noteq> 0 \<longleftrightarrow> (\<exists>n. bit (mode_bits f AND 0xC00) n)"
    by (metis bit_0_eq bit_eq_iff bot_apply bot_bool_def)
  also have "\<dots> \<longleftrightarrow> (\<exists>n. bit (mode_bits f) n \<and> (n = 10 \<or> n = 11))"
    unfolding mask by (auto simp: bit_and_iff bit_push_bit_iff bit_mask_iff intro: exI [of _ "10::nat"] exI [of _ "11::nat"])
  finally show ?thesis by (auto simp: is_privileged_def)
qed

text \<open>C25. A policy is made exactly from a valid digest and a list of kinds without repetition that
  the tool knows. It requires those kinds, in the tool's order; explicit grants count only where they
  are required, so an unrelated grant never widens it; and what is missing is what is required and
  granted in neither way.\<close>

theorem policy_grants_only_what_is_required:
  "policy_from_parts mode tool digest needed explicit = Inr p \<longleftrightarrow>
     is_sha256_hex digest \<and> set needed \<subseteq> set (allowed_permissions_for_tool tool) \<and> distinct needed \<and>
     eff_tool p = tool \<and> eff_sha256 p = digest \<and>
     required p = filter (\<lambda>k. k \<in> set needed) (allowed_permissions_for_tool tool) \<and>
     implicitly_granted p = {k \<in> set needed. native_mode_implicitly_grants mode k} \<and>
     explicitly_granted p = explicit \<inter> set needed \<and>
     missing p = filter (\<lambda>k. k \<notin> implicitly_granted p \<and> k \<notin> explicitly_granted p) (required p)"
proof -
  let ?a = "allowed_permissions_for_tool tool" and ?g = "native_mode_implicitly_grants mode"
  have implicit: "set (filter ?g (filter (\<lambda>k. k \<in> set needed) ?a)) = {k \<in> set needed. ?g k}"
    if "set needed \<subseteq> set ?a"
    using that by auto
  have granted: "Set.filter (\<lambda>k. k \<in> set needed) explicit = explicit \<inter> set needed" by auto
  show ?thesis
    by (cases p) (auto simp: policy_from_parts_def bind_r_eq_Inr check_required_Inr Let_def implicit
        granted simp del: set_filter filter_filter)
qed

section \<open>Patches\<close>

definition known_kind :: "patch_operation \<Rightarrow> bool" where
  "known_kind op \<longleftrightarrow> op_kind op \<in> set [''add'', ''delete'', ''update'']"

lemma known_kinds [simp]:
  "known_kind (op_add p c)" "known_kind (op_delete p)" "known_kind (op_update p hs mv)"
  by (simp_all add: known_kind_def op_add_def op_delete_def op_update_def)

lemma parse_ops_kinds: "parse_ops legacy ls = Inr ops \<Longrightarrow> op \<in> set ops \<Longrightarrow> known_kind op"
proof (induction "length ls" arbitrary: ls ops rule: less_induct)
  case less
  show ?case
  proof (cases ls)
    case Nil then show ?thesis using less(2,3) by simp
  next
    case (Cons l ls')
    have IH: "known_kind op" if "parse_ops legacy rest = Inr ops'" "length rest \<le> length ls'" "op \<in> set ops'"
      for rest ops'
      using less(1) [of rest ops'] that Cons by simp
    show ?thesis
      using less(2,3) IH
      by (auto simp: Cons parse_ops.simps(2) bind_r_eq_Inr split: if_splits option.splits prod.splits)
         (blast intro: IH take_update_length take_add_lines_length)+
  qed
qed

definition operation_paths :: "patch_operation \<Rightarrow> string set" where
  "operation_paths op = insert (op_path op) (case move_to op of None \<Rightarrow> {} | Some d \<Rightarrow> {d})"

lemma validated_path_text: "validate_workspace_path raw = Inr p \<Longrightarrow> raw \<noteq> [] \<and> nul \<notin> set raw"
  using validate_workspace_path_InrD(3,4) by blast

lemma patch_paths_Inr:
  assumes "\<forall>op \<in> set ops. known_kind op \<and> validate_operation op = Inr ()"
  shows "\<exists>ps. patch_paths ops = Inr ps \<and> set ps = (\<Union>op \<in> set ops. operation_paths op)"
proof -
  let ?g = "\<lambda>op. case move_to op of None \<Rightarrow> [op_path op] | Some d \<Rightarrow> [op_path op, d]"
  have "patch_paths ops = Inr (remdups_adj (sort (concat (map ?g ops))))"
    unfolding patch_paths_def
    by (subst traverse_r_total [where g = ?g])
       (use assms in \<open>auto simp: known_kind_def validate_operation_def bind_r_eq_Inr
          dest: validated_path_text split: option.splits\<close>)
  moreover have "set (concat (map ?g ops)) = (\<Union>op \<in> set ops. operation_paths op)"
    by (auto simp: operation_paths_def split: option.splits)
  ultimately show ?thesis by simp
qed

text \<open>C27. The permission a patch needs is decided by facts about exactly the paths it touches: the
  classification of an accepted patch succeeds if and only if there is one fact for every path, moves
  included, and for no other; then it asks for the write permission exactly when the patch is not a
  dry run and one of these paths is ignored by git or has a generated directory in it.\<close>

theorem patch_classification_exact:
  assumes "patch_parse x input = Inr i"
  shows "classify_patch_permissions i facts = Inr needs \<longleftrightarrow>
    distinct (map fact_path facts) \<and>
    set (map fact_path facts) = (\<Union>op \<in> set (operations i). operation_paths op) \<and>
    needs = keep_if (\<not> dry_run i \<and> (\<exists>f \<in> set facts. requires_generated_write_permission f))
      WriteGeneratedOrIgnored"
proof -
  obtain patch ops where o: "checked_operations patch = Inr ops" "operations i = ops"
    using assms by (auto simp: patch_parse_def bind_r_eq_Inr)
  obtain us where p: "parse_patch_current patch = Inr ops" "traverse_r validate_operation ops = Inr us"
    using o(1) by (auto simp: checked_operations_def bind_r_eq_Inr split: if_splits)
  have "known_kind op \<and> validate_operation op = Inr ()" if op: "op \<in> set ops" for op
    using parse_ops_kinds [OF _ op] p(1) traverse_r_mem [OF p(2) op]
    by (auto simp: parse_patch_current_def bind_r_eq_Inr)
  then have "\<forall>op \<in> set ops. known_kind op \<and> validate_operation op = Inr ()" by blast
  from patch_paths_Inr [OF this] obtain ps where
    ps: "patch_paths ops = Inr ps" "set ps = (\<Union>op \<in> set ops. operation_paths op)"
    by (elim exE conjE)
  let ?m = "map_of (map (\<lambda>f. (fact_path f, f)) facts)"
  have dom: "?m p = None \<longleftrightarrow> p \<notin> set (map fact_path facts)" for p
    by (simp add: map_of_eq_None_iff image_image)
  have get: "?m (fact_path f) = Some f" if "distinct (map fact_path facts)" "f \<in> set facts" for f
    using that by (simp add: map_of_eq_Some_iff comp_def)
  have any: "list_ex (\<lambda>p. case ?m p of None \<Rightarrow> False | Some f \<Rightarrow> requires_generated_write_permission f) ps
      \<longleftrightarrow> (\<exists>f \<in> set facts. requires_generated_write_permission f)"
    if "distinct (map fact_path facts)" "set (map fact_path facts) = set ps"
  proof
    assume "list_ex (\<lambda>p. case ?m p of None \<Rightarrow> False | Some f \<Rightarrow> requires_generated_write_permission f) ps"
    then obtain p f where "?m p = Some f" "requires_generated_write_permission f"
      by (auto simp: list_ex_iff split: option.splits)
    moreover from this have "f \<in> set facts" by (auto dest: map_of_SomeD)
    ultimately show "\<exists>f \<in> set facts. requires_generated_write_permission f" by blast
  next
    assume "\<exists>f \<in> set facts. requires_generated_write_permission f"
    then obtain f where f: "f \<in> set facts" "requires_generated_write_permission f" by blast
    then have "fact_path f \<in> set ps" using that(2) by auto
    then show "list_ex (\<lambda>p. case ?m p of None \<Rightarrow> False | Some f \<Rightarrow> requires_generated_write_permission f) ps"
      unfolding list_ex_iff using get [OF that(1) f(1)] f(2) by (intro bexI [of _ "fact_path f"]) simp_all
  qed
  define mc where "mc = length (filter (\<lambda>p. ?m p = None) ps)"
  define ec where "ec = length (filter (\<lambda>p. p \<notin> set ps) (map fact_path facts))"
  define w where "w = list_ex (\<lambda>p. case ?m p of None \<Rightarrow> False
      | Some f \<Rightarrow> requires_generated_write_permission f) ps"
  have mc0: "mc = 0 \<longleftrightarrow> set ps \<subseteq> set (map fact_path facts)"
    unfolding mc_def length_0_conv filter_empty_conv dom by blast
  have ec0: "ec = 0 \<longleftrightarrow> set (map fact_path facts) \<subseteq> set ps"
    unfolding ec_def length_0_conv filter_empty_conv by blast
  have c: "classify_patch_permissions i facts =
      (if \<not> distinct (map fact_path facts)
       then Inl (security_error ''NATIVE_PATCH_AUTHORITY_FACTS_AMBIGUOUS'' msg_ambiguous_facts)
       else if mc \<noteq> 0 \<or> ec \<noteq> 0 then Inl (uncovered_error mc ec)
       else if dry_run i then Inr [] else Inr (keep_if w WriteGeneratedOrIgnored))"
    by (simp only: classify_patch_permissions_def o(2) ps(1) bind_r_Inr Let_def mc_def ec_def w_def)
  show ?thesis
  proof (cases "distinct (map fact_path facts) \<and> set (map fact_path facts) = set ps")
    case True
    then have "mc = 0" "ec = 0" "w = (\<exists>f \<in> set facts. requires_generated_write_permission f)"
      using any mc0 ec0 by (simp_all add: w_def)
    then show ?thesis using True unfolding c o(2) ps(2) [symmetric] by (auto simp: keep_if_def)
  next
    case False
    then show ?thesis using mc0 ec0 unfolding c o(2) ps(2) [symmetric] by auto
  qed
qed

theorem patch_classification_exact_witness:
  "\<exists>i. patch_parse example_native [(''patch'', JString (render_patch [DeleteFile ''a'']))] = Inr i \<and>
     classify_patch_permissions i
       [\<lparr>fact_path = ''a'', canonical_generated = False, git_ignored = True\<rparr>] = Inr [WriteGeneratedOrIgnored]"
proof -
  let ?text = "render_patch [DeleteFile ''a'']"
  let ?input = "[(''patch'', JString ?text)]"
  have tx: "?text \<noteq> []" "nul \<notin> set ?text" "length ?text \<le> 1024 * 1024"
    by (simp_all add: render_patch_def kw_delete_def)
  have path: "validate_workspace_path ''a'' = Inr ''a''"
    by (simp add: validate_workspace_path_def starts_with_def)
  obtain i where i: "patch_parse example_native ?input = Inr i" "operations i = [op_delete ''a'']"
    "\<not> dry_run i"
    using tx path
    by (simp add: patch_parse_def reject_unknown_keys_def get_str_def patch_text_def
        checked_operations_def example_patch_parses validate_operation_def op_delete_def parse_bool_def
        canonical_arguments_sha256_def example_native_simps del: One_nat_def)
  then show ?thesis
    using patch_classification_exact [OF i(1)]
    by (simp add: operation_paths_def op_delete_def requires_generated_write_permission_def)
qed

text \<open>A path needs the write permission for a generated directory when one whole component of it
  is the name of one; a name that merely contains such a name is not one.\<close>

theorem generated_component_is_whole:
  assumes "cs \<noteq> []" "\<forall>c \<in> set cs. CHR ''/'' \<notin> set c"
  shows "has_canonical_generated_component (join ''/'' cs) \<longleftrightarrow> (\<exists>c \<in> set cs. c \<in> set generated_components)"
proof -
  have "plain c" if "c \<in> set generated_components" for c
    using that by (auto simp: generated_components_def plain_def)
  then show ?thesis
    using split_join_components [OF assms]
    by (auto simp: has_canonical_generated_component_def list_ex_iff)
qed

theorem generated_component_is_whole_witness:
  "has_canonical_generated_component (join ''/'' [''a'', ''build'', ''x'']) \<and>
   \<not> has_canonical_generated_component (join ''/'' [''builder'', ''file.txt''])"
  using generated_component_is_whole [of "[''a'', ''build'', ''x'']"]
    generated_component_is_whole [of "[''builder'', ''file.txt'']"]
  by (auto simp: generated_components_def)

end
