(* ===== verification/Schema.thy ===== *)
theory Schema
  imports Contracts
begin

text \<open>
  The argument validator, \<open>crates/mtm-core/src/schema.rs\<close> and \<open>schema/numeric.rs\<close>: a subset of
  JSON Schema over \<open>serde_json\<close> values.

  The pattern engine and the texts of a number and of a compact JSON value, which only occur in
  messages, are the parameters of the record \<open>schema_externals\<close>. The functions for arrays and
  objects take the validator they call for the parts as an argument; every call of it is on a part
  of the schema, so the recursion ends (the \<open>fundef_cong\<close> rules below).
\<close>

record schema_externals =
  compile_full :: "string \<Rightarrow> string + (string \<Rightarrow> bool)"
  number_text :: "number \<Rightarrow> string"
  json_text :: "json \<Rightarrow> string"

definition schema_invalid :: "string \<Rightarrow> re_ctm_error" where
  "schema_invalid m = with_category Internal (error_new ''SCHEMA_INVALID'' m)"

section \<open>Numbers\<close>

datatype ordering = Less | Equal | Greater

fun reverse_ordering :: "ordering \<Rightarrow> ordering" where
  "reverse_ordering Less = Greater"
| "reverse_ordering Equal = Equal"
| "reverse_ordering Greater = Less"

definition ordering_of :: "'a::linorder \<Rightarrow> 'a \<Rightarrow> ordering" where
  "ordering_of a b = (if a < b then Less else if a = b then Equal else Greater)"

fun number_integer :: "number \<Rightarrow> int option" where
  "number_integer n = (case number_as_i64 n of Some i \<Rightarrow> Some i | None \<Rightarrow> map_option int (number_as_u64 n))"

text \<open>\<open>as_f64\<close> is exact on a float; the code calls it on nothing else.\<close>

fun number_finite :: "number \<Rightarrow> rat result" where
  "number_finite (Float q) =
     (if f64_finite q then Inr q
      else Inl (schema_invalid ''Numeric comparison requires finite numbers.''))"
| "number_finite (PosInt n) = Inr (of_nat n)"
| "number_finite (NegInt i) = Inr (of_int i)"

definition rat_trunc :: "rat \<Rightarrow> int" where
  "rat_trunc q = (if 0 \<le> q then \<lfloor>q\<rfloor> else \<lceil>q\<rceil>)"

definition integer_float :: "int \<Rightarrow> rat \<Rightarrow> ordering" where
  "integer_float i q =
     (if 18446744073709551616 \<le> q then Less
      else if q < - 9223372036854775808 then Greater
      else let t = rat_trunc q in
        case ordering_of i t of
          Equal \<Rightarrow> if of_int t < q then Less else if q < of_int t then Greater else Equal
        | other \<Rightarrow> other)"

definition compare_numbers :: "number \<Rightarrow> number \<Rightarrow> ordering result" where
  "compare_numbers left right =
     (case (number_integer left, number_integer right) of
        (Some a, Some b) \<Rightarrow> Inr (ordering_of a b)
      | (Some a, None) \<Rightarrow> map_ok (integer_float a) (number_finite right)
      | (None, Some b) \<Rightarrow> map_ok (\<lambda>q. reverse_ordering (integer_float b q)) (number_finite left)
      | (None, None) \<Rightarrow> bind_r (number_finite left) (\<lambda>p.
          bind_r (number_finite right) (\<lambda>q. Inr (ordering_of p q))))"

definition check_bound ::
  "schema_externals \<Rightarrow> number \<Rightarrow> object \<Rightarrow> string \<Rightarrow> string \<times> ordering \<times> string \<Rightarrow> unit result" where
  "check_bound x value schema path kfs = (case kfs of (keyword, forbidden, symbol) \<Rightarrow>
     (case obj_get schema keyword of None \<Rightarrow> Inr ()
      | Some b \<Rightarrow>
          bind_r (ok_or (as_number b) (schema_invalid ''Numeric bounds must be JSON numbers.'')) (\<lambda>bound.
          bind_r (compare_numbers value bound) (\<lambda>o'.
            ensure (o' \<noteq> forbidden)
              (invalid_argument (path @ '' must be '' @ symbol @ '' '' @ number_text x bound))))))"

definition validate_number :: "schema_externals \<Rightarrow> number \<Rightarrow> object \<Rightarrow> string \<Rightarrow> unit result" where
  "validate_number x value schema path =
     check_all (check_bound x value schema path)
       [(''minimum'', Less, ''>=''), (''maximum'', Greater, ''<='')]"

section \<open>Messages\<close>

definition escape_python_string :: "string \<Rightarrow> string" where
  "escape_python_string s =
     replace_byte (CHR 0x09) [backslash, CHR ''t'']
     (replace_byte cr [backslash, CHR ''r'']
     (replace_byte nl [backslash, CHR ''n'']
     (replace_byte squote [backslash, squote]
     (replace_byte backslash [backslash, backslash] s))))"

fun python_repr :: "schema_externals \<Rightarrow> json \<Rightarrow> string" where
  "python_repr x JNull = ''None''"
| "python_repr x (JBool b) = (if b then ''True'' else ''False'')"
| "python_repr x (JNumber n) = number_text x n"
| "python_repr x (JString s) = [squote] @ escape_python_string s @ [squote]"
| "python_repr x (JArray items) = ''['' @ join '', '' (map (python_repr x) items) @ '']''"
| "python_repr x (JObject items) =
     ''{'' @ join '', '' (map (\<lambda>(k, v). [squote] @ escape_python_string k @ [squote] @ '': '' @
       python_repr x v) items) @ ''}''"

definition name_or_text :: "schema_externals \<Rightarrow> json \<Rightarrow> string" where
  "name_or_text x v = (case as_str v of Some s \<Rightarrow> s | None \<Rightarrow> json_text x v)"

definition schema_type_name :: "schema_externals \<Rightarrow> json \<Rightarrow> string" where
  "schema_type_name x expected =
     (case as_array expected of
        Some types \<Rightarrow> join '' or '' (map (name_or_text x) types)
      | None \<Rightarrow> name_or_text x expected)"

section \<open>Types and strings\<close>

definition simple_type_matches :: "json \<Rightarrow> string \<Rightarrow> bool" where
  "simple_type_matches v name =
     (if name = ''array'' then as_array v \<noteq> None
      else if name = ''boolean'' then (case v of JBool _ \<Rightarrow> True | _ \<Rightarrow> False)
      else if name = ''integer'' then as_i64 v \<noteq> None \<or> as_u64 v \<noteq> None
      else if name = ''null'' then v = JNull
      else if name = ''number'' then as_number v \<noteq> None
      else if name = ''object'' then as_object v \<noteq> None
      else if name = ''string'' then as_str v \<noteq> None
      else False)"

fun schema_type_matches :: "json \<Rightarrow> json \<Rightarrow> bool" where
  "schema_type_matches v (JArray types) = list_ex (schema_type_matches v) types"
| "schema_type_matches v (JString name) = simple_type_matches v name"
| "schema_type_matches v _ = False"

definition get_u64 :: "object \<Rightarrow> string \<Rightarrow> nat option" where
  "get_u64 schema key = Option.bind (obj_get schema key) as_u64"

definition get_array :: "object \<Rightarrow> string \<Rightarrow> json list option" where
  "get_array schema key = Option.bind (obj_get schema key) as_array"

definition get_string :: "object \<Rightarrow> string \<Rightarrow> string option" where
  "get_string schema key = Option.bind (obj_get schema key) as_str"

definition at_least :: "nat option \<Rightarrow> nat \<Rightarrow> bool" where
  "at_least bound n = (case bound of None \<Rightarrow> True | Some m \<Rightarrow> m \<le> n)"

definition at_most :: "nat option \<Rightarrow> nat \<Rightarrow> bool" where
  "at_most bound n = (case bound of None \<Rightarrow> True | Some m \<Rightarrow> n \<le> m)"

definition bound_text :: "nat option \<Rightarrow> string" where
  "bound_text bound = (case bound of None \<Rightarrow> [] | Some m \<Rightarrow> show_nat m)"

definition full_pattern :: "string \<Rightarrow> string" where
  "full_pattern p = [backslash] @ ''A(?:'' @ p @ '')'' @ [backslash] @ ''z''"

definition pattern_error :: "string \<Rightarrow> re_ctm_error" where
  "pattern_error e = with_category Internal
     (error_new ''SCHEMA_PATTERN_INVALID'' (''Schema pattern is invalid: '' @ e))"

definition check_pattern :: "schema_externals \<Rightarrow> string \<Rightarrow> object \<Rightarrow> string \<Rightarrow> unit result" where
  "check_pattern x s schema path =
     (case get_string schema ''pattern'' of None \<Rightarrow> Inr ()
      | Some p \<Rightarrow> (case compile_full x (full_pattern p) of
          Inl e \<Rightarrow> Inl (pattern_error e)
        | Inr m \<Rightarrow> ensure (m s) (invalid_argument (path @ '' does not match the required pattern''))))"

definition validate_string :: "schema_externals \<Rightarrow> string \<Rightarrow> object \<Rightarrow> string \<Rightarrow> unit result" where
  "validate_string x s schema path =
     (let n = char_count s; lo = get_u64 schema ''minLength''; hi = get_u64 schema ''maxLength'' in
      bind_r (ensure (at_least lo n) (invalid_argument (path @ '' is shorter than '' @ bound_text lo))) (\<lambda>_.
      bind_r (ensure (at_most hi n) (invalid_argument (path @ '' is longer than '' @ bound_text hi))) (\<lambda>_.
      bind_r (check_pattern x s schema path) (\<lambda>_.
        case get_array schema ''enum'' of None \<Rightarrow> Inr ()
        | Some options \<Rightarrow> ensure (JString s \<in> set options)
            (invalid_argument (path @ '' must be one of '' @ python_repr x (JArray options)))))))"

section \<open>Arrays and objects\<close>

type_synonym validator = "json \<Rightarrow> json \<Rightarrow> string \<Rightarrow> unit result"

definition item_path :: "string \<Rightarrow> nat \<Rightarrow> string" where
  "item_path path i = path @ ''['' @ show_nat i @ '']''"

definition validate_array :: "validator \<Rightarrow> json list \<Rightarrow> object \<Rightarrow> string \<Rightarrow> unit result" where
  "validate_array rec items schema path =
     (let lo = get_u64 schema ''minItems''; hi = get_u64 schema ''maxItems'';
          prefix = get_array schema ''prefixItems'';
          prefix_items = (case prefix of None \<Rightarrow> [] | Some p \<Rightarrow> p) in
      bind_r (ensure (at_least lo (length items))
        (invalid_argument (path @ '' must contain at least '' @ bound_text lo @ '' items''))) (\<lambda>_.
      bind_r (ensure (at_most hi (length items))
        (invalid_argument (path @ '' must contain at most '' @ bound_text hi @ '' items''))) (\<lambda>_.
      bind_r (check_all (\<lambda>(i, v, s). rec v s (item_path path i))
        (List.enumerate 0 (zip items prefix_items))) (\<lambda>_.
        case obj_get schema ''items'' of None \<Rightarrow> Inr ()
        | Some s \<Rightarrow>
            if is_object s
            then check_all (\<lambda>(i, v). rec v s (item_path path i))
              (drop (length prefix_items) (List.enumerate 0 items))
            else Inr ()))))"

definition require_keys :: "object \<Rightarrow> (string \<Rightarrow> string) \<Rightarrow> json list \<Rightarrow> unit result" where
  "require_keys obj text_for keys =
     check_all (\<lambda>k. ensure (contains_key obj k) (invalid_argument (text_for k))) (List.map_filter as_str keys)"

definition child_path :: "string \<Rightarrow> string \<Rightarrow> string" where
  "child_path path k = path @ ''.'' @ k"

definition check_dependency :: "object \<Rightarrow> string \<Rightarrow> string \<times> json \<Rightarrow> unit result" where
  "check_dependency obj path td = (case td of (trigger, required) \<Rightarrow>
     (case (if contains_key obj trigger then as_array required else None) of
        None \<Rightarrow> Inr ()
      | Some keys \<Rightarrow> require_keys obj (\<lambda>k. child_path path k @ '' is required when '' @
          child_path path trigger @ '' is present'') keys))"

text \<open>The schema an entry of an object is held against, and whether the entry may be there.\<close>

definition property_schema :: "object \<Rightarrow> string \<Rightarrow> json option" where
  "property_schema schema k =
     (case Option.bind (Option.bind (obj_get schema ''properties'') as_object) (\<lambda>ps. map_of ps k) of
        Some s \<Rightarrow> if is_object s then Some s else None
      | None \<Rightarrow> None)"

definition validate_entry :: "validator \<Rightarrow> object \<Rightarrow> string \<Rightarrow> string \<times> json \<Rightarrow> unit result" where
  "validate_entry rec schema path kv = (case kv of (k, v) \<Rightarrow>
     (case property_schema schema k of
        Some s \<Rightarrow> rec v s (child_path path k)
      | None \<Rightarrow>
          if obj_get schema ''additionalProperties'' = Some (JBool False)
          then Inl (invalid_argument (child_path path k @ '' is not a recognized argument''))
          else case obj_get schema ''additionalProperties'' of
            Some s \<Rightarrow> if is_object s then rec v s (child_path path k) else Inr ()
          | None \<Rightarrow> Inr ()))"

definition validate_object :: "validator \<Rightarrow> object \<Rightarrow> object \<Rightarrow> string \<Rightarrow> unit result" where
  "validate_object rec obj schema path =
     bind_r (case get_array schema ''required'' of None \<Rightarrow> Inr ()
       | Some keys \<Rightarrow> require_keys obj (\<lambda>k. child_path path k @ '' is required'') keys) (\<lambda>_.
     bind_r (case Option.bind (obj_get schema ''dependentRequired'') as_object of None \<Rightarrow> Inr ()
       | Some deps \<Rightarrow> check_all (check_dependency obj path) deps) (\<lambda>_.
       check_all (validate_entry rec schema path) obj))"

section \<open>The validator\<close>

definition check_const :: "schema_externals \<Rightarrow> json \<Rightarrow> object \<Rightarrow> string \<Rightarrow> unit result" where
  "check_const x v schema path =
     (case obj_get schema ''const'' of None \<Rightarrow> Inr ()
      | Some e \<Rightarrow> ensure (v = e) (invalid_argument (path @ '' must equal '' @ python_repr x e)))"

definition accepting :: "validator \<Rightarrow> json \<Rightarrow> string \<Rightarrow> json list \<Rightarrow> json list" where
  "accepting rec v path candidates =
     filter (\<lambda>c. is_object c \<and> is_ok (rec v c path)) candidates"

definition check_one_of :: "validator \<Rightarrow> json \<Rightarrow> object \<Rightarrow> string \<Rightarrow> unit result" where
  "check_one_of rec v schema path =
     (case get_array schema ''oneOf'' of None \<Rightarrow> Inr ()
      | Some cs \<Rightarrow> ensure (length (accepting rec v path cs) = 1)
          (invalid_argument (path @ '' must match exactly one oneOf schema'')))"

definition check_any_of :: "validator \<Rightarrow> json \<Rightarrow> object \<Rightarrow> string \<Rightarrow> unit result" where
  "check_any_of rec v schema path =
     (case get_array schema ''anyOf'' of None \<Rightarrow> Inr ()
      | Some cs \<Rightarrow> ensure (accepting rec v path cs \<noteq> [])
          (invalid_argument (path @ '' must match at least one anyOf schema'')))"

definition check_type :: "schema_externals \<Rightarrow> json \<Rightarrow> object \<Rightarrow> string \<Rightarrow> unit result" where
  "check_type x v schema path =
     (case obj_get schema ''type'' of None \<Rightarrow> Inr ()
      | Some t \<Rightarrow> ensure (schema_type_matches v t)
          (invalid_argument (path @ '' must be '' @ schema_type_name x t)))"

definition check_value :: "schema_externals \<Rightarrow> validator \<Rightarrow> json \<Rightarrow> object \<Rightarrow> string \<Rightarrow> unit result" where
  "check_value x rec v schema path =
     (case v of
        JString s \<Rightarrow> validate_string x s schema path
      | JNumber n \<Rightarrow> validate_number x n schema path
      | JArray items \<Rightarrow> validate_array rec items schema path
      | JObject obj \<Rightarrow> validate_object rec obj schema path
      | _ \<Rightarrow> Inr ())"

definition validate_against :: "schema_externals \<Rightarrow> validator \<Rightarrow> json \<Rightarrow> object \<Rightarrow> string \<Rightarrow> unit result" where
  "validate_against x rec v schema path =
     bind_r (check_const x v schema path) (\<lambda>_.
     bind_r (check_one_of rec v schema path) (\<lambda>_.
     bind_r (check_any_of rec v schema path) (\<lambda>_.
     bind_r (check_type x v schema path) (\<lambda>_.
       check_value x rec v schema path))))"


section \<open>Only parts of the schema are called for\<close>

definition agree_below :: "nat \<Rightarrow> validator \<Rightarrow> validator \<Rightarrow> bool" where
  "agree_below n f g \<longleftrightarrow> (\<forall>v s p. size s < n \<longrightarrow> f v s p = g v s p)"

lemma get_array_size: "get_array schema key = Some cs \<Longrightarrow> c \<in> set cs \<Longrightarrow> size c < size (JObject schema)"
  using size_obj_get [of schema key] size_array_member [of c cs]
  by (fastforce simp: get_array_def bind_eq_Some_conv)

lemma obj_get_size: "obj_get schema key = Some s \<Longrightarrow> size s < size (JObject schema)"
  by (rule size_obj_get)

lemma property_schema_size: "property_schema schema k = Some s \<Longrightarrow> size s < size (JObject schema)"
proof -
  assume "property_schema schema k = Some s"
  then obtain ps where "obj_get schema ''properties'' = Some (JObject ps)" "map_of ps k = Some s"
    by (auto simp: property_schema_def bind_eq_Some_conv split: option.splits if_splits)
  then show ?thesis using size_obj_get [of schema "''properties''"] size_obj_get [of ps k] by force
qed

lemma agree_accepting:
  assumes "agree_below n f g" "\<forall>c \<in> set cs. size c < n"
  shows "accepting f v path cs = accepting g v path cs"
  using assms unfolding accepting_def agree_below_def by (intro filter_cong) auto

lemma agree_array:
  assumes "agree_below (size (JObject schema)) f g"
  shows "validate_array f items schema path = validate_array g items schema path"
proof -
  have p: "check_all (\<lambda>(i, v, s). f v s (item_path path i)) (List.enumerate 0 (zip items ps)) =
      check_all (\<lambda>(i, v, s). g v s (item_path path i)) (List.enumerate 0 (zip items ps))"
    if "get_array schema ''prefixItems'' = Some ps" for ps
    using assms get_array_size [OF that]
    by (intro check_all_cong) (auto simp: agree_below_def in_set_enumerate_eq set_zip)
  have i: "check_all (\<lambda>(i, v). f v s (item_path path i)) xs = check_all (\<lambda>(i, v). g v s (item_path path i)) xs"
    if "obj_get schema ''items'' = Some s" for s xs
    using assms obj_get_size [OF that] by (intro check_all_cong) (auto simp: agree_below_def)
  show ?thesis
    by (auto simp: validate_array_def Let_def p i intro!: bind_r_cong split: option.splits)
qed

lemma agree_object:
  assumes "agree_below (size (JObject schema)) f g"
  shows "validate_object f obj schema path = validate_object g obj schema path"
proof -
  have "validate_entry f schema path kv = validate_entry g schema path kv" for kv
    using assms property_schema_size obj_get_size
    by (auto simp: validate_entry_def agree_below_def split: prod.splits option.splits)
  then have "validate_entry f schema path = validate_entry g schema path" by blast
  then show ?thesis by (simp add: validate_object_def)
qed

lemma agree_against:
  assumes "agree_below (size (JObject schema)) f g"
  shows "validate_against x f v schema path = validate_against x g v schema path"
proof -
  have "accepting f v path cs = accepting g v path cs" if "get_array schema key = Some cs" for key cs
    using agree_accepting [OF assms] get_array_size [OF that] by blast
  then have "check_one_of f v schema path = check_one_of g v schema path"
    "check_any_of f v schema path = check_any_of g v schema path"
    by (auto simp: check_one_of_def check_any_of_def split: option.splits)
  then show ?thesis
    using agree_array [OF assms] agree_object [OF assms]
    by (simp add: validate_against_def check_value_def cong: json.case_cong)
qed

lemma validate_against_cong [fundef_cong]:
  assumes "x = x'" "v = v'" "schema = schema'" "path = path'"
    "\<And>w s p. size s < size (JObject schema') \<Longrightarrow> f w s p = g w s p"
  shows "validate_against x f v schema path = validate_against x' g v' schema' path'"
  using agree_against [of schema' f g] assms by (simp add: agree_below_def)

function validate_schema_value :: "schema_externals \<Rightarrow> json \<Rightarrow> json \<Rightarrow> string \<Rightarrow> unit result" where
  "validate_schema_value x v s path =
     (case s of
        JObject schema \<Rightarrow>
          validate_against x (\<lambda>w t p. validate_schema_value x w t p) v schema path
      | _ \<Rightarrow> Inl (schema_invalid ''Schema must be an object.''))"
  by pat_completeness auto
termination
  by (relation "measure (\<lambda>(x, v, s, p). size s)") auto

declare validate_schema_value.simps [simp del]

lemma validate_schema_value_object:
  "validate_schema_value x v (JObject schema) path =
     validate_against x (validate_schema_value x) v schema path"
  by (subst validate_schema_value.simps) simp


section \<open>Numbers are compared as numbers\<close>

fun number_value :: "number \<Rightarrow> rat" where
  "number_value (PosInt n) = of_nat n"
| "number_value (NegInt i) = of_int i"
| "number_value (Float q) = q"

lemma rat_trunc_bounds: "0 \<le> q \<Longrightarrow> of_int (rat_trunc q) \<le> q \<and> q < of_int (rat_trunc q) + 1"
  "q < 0 \<Longrightarrow> q \<le> of_int (rat_trunc q) \<and> of_int (rat_trunc q) - 1 < q"
  using of_int_floor_le [of q] floor_correct [of q] ceiling_correct [of q] by (auto simp: rat_trunc_def)

lemma integer_float_exact:
  assumes "- (2 ^ 63) \<le> i" "i < 2 ^ 64"
  shows "integer_float i q = ordering_of (of_int i) q"
proof -
  have lo: "(- 9223372036854775808 :: rat) \<le> of_int i" and hi: "(of_int i :: rat) < 18446744073709551616"
    using assms by (simp_all flip: of_int_le_iff of_int_less_iff)
  consider "18446744073709551616 \<le> q" | "q < - 9223372036854775808"
    | "\<not> 18446744073709551616 \<le> q" "\<not> q < - 9223372036854775808" by blast
  then show ?thesis
  proof cases
    case 1 then show ?thesis using hi by (simp add: integer_float_def ordering_of_def)
  next
    case 2 then show ?thesis using lo by (simp add: integer_float_def ordering_of_def)
  next
    case 3
    let ?t = "rat_trunc q"
    have b: "i < ?t \<Longrightarrow> of_int i < q" "?t < i \<Longrightarrow> q < of_int i"
      by (simp_all add: rat_trunc_def split: if_splits; linarith)+
    show ?thesis
      by (rule linorder_cases [of i ?t])
         (use 3 b in \<open>auto simp: integer_float_def ordering_of_def Let_def\<close>)
  qed
qed

lemma reverse_ordering_of: "reverse_ordering (ordering_of a b) = ordering_of b a"
  by (auto simp: ordering_of_def)

lemma ordering_of_int: "ordering_of (of_int a :: rat) (of_int b) = ordering_of a b"
  by (simp add: ordering_of_def)

text \<open>C32. Two JSON numbers are compared by their exact values, whether they are unsigned, negative or
  floating: no integer is rounded to a float on the way, so a bound of 2 to the power of 63 is not met
  by the integer below it, and no comparison of two numbers fails.\<close>

theorem compare_numbers_exact:
  assumes "wf_number a" "wf_number b"
  shows "compare_numbers a b = Inr (ordering_of (number_value a) (number_value b))"
proof -
  have int: "number_integer n = (case n of PosInt k \<Rightarrow> Some (int k) | NegInt i \<Rightarrow> Some i | Float _ \<Rightarrow> None)" for n
    by (cases n) auto
  have f: "integer_float i q = ordering_of (of_int i) q" if "- (2 ^ 63) \<le> i" "i < 2 ^ 64" for i q
    by (rule integer_float_exact [OF that])
  have nat: "int k < 2 ^ 64 \<longleftrightarrow> k < 2 ^ 64" for k by (simp flip: of_nat_less_iff)
  show ?thesis
    using assms
    by (cases a; cases b)
       (auto simp: compare_numbers_def int f nat reverse_ordering_of
          simp flip: ordering_of_int)
qed

theorem compare_numbers_exact_witness:
  "compare_numbers (PosInt 9223372036854775807) (Float 9223372036854775808) = Inr Less"
  using compare_numbers_exact [of "PosInt 9223372036854775807" "Float 9223372036854775808"]
  by (simp add: f64_finite_def ordering_of_def)

end
