(* ===== verification/Graph_Search.thy ===== *)
theory Graph_Search
  imports Prelude "HOL-Library.While_Combinator" "HOL-Library.Product_Lexorder"
begin

text \<open>
  The graph searches of the workflow crate, over maps from a key to a set of keys.

  \<^item> \<open>dependency_closure\<close>, the worklist search of \<open>research_state.rs\<close>, and \<open>descendants\<close>, the one of
    \<open>memory/graph.rs\<close>, which marks a node when it is pushed and not when it is popped.
  \<^item> \<open>finish_all\<close> and \<open>collect_all\<close>, the two depth-first searches (\<open>dfs_finish\<close>, \<open>dfs_collect\<close>) and
    \<open>strong_components\<close>, which runs the second over the finishing order of the first. They find the
    strongly connected components of the graph (\<open>strong_components_exact\<close>).
  \<^item> \<open>kahn_loop\<close>, the loop that emits a node when all its predecessors are emitted. The loop is
    shared by two callers whose bodies differ, so its correctness is proved in a locale over the
    body. It need not end when the counts do not fit the edges, hence its result is an option.

  A \<open>BTreeSet\<close> that is only asked for membership is a set; one that is iterated is the list of its
  elements in order.
\<close>

type_synonym 'k graph = "('k \<times> 'k list) list"

definition adj :: "'k graph \<Rightarrow> 'k \<Rightarrow> 'k list" where
  "adj g n = (case map_of g n of Some ns \<Rightarrow> ns | None \<Rightarrow> [])"

definition edges :: "'k graph \<Rightarrow> ('k \<times> 'k) set" where
  "edges g = {(x, y). y \<in> set (adj g x)}"

definition keys :: "'k graph \<Rightarrow> 'k set" where
  "keys g = set (map fst g)"

lemma finite_keys [simp]: "finite (keys g)"
  by (simp add: keys_def)

lemma adj_no_key: "n \<notin> keys g \<Longrightarrow> adj g n = []"
  by (simp add: adj_def keys_def map_of_eq_None_iff [symmetric])

lemma edges_iff: "(x, y) \<in> edges g \<longleftrightarrow> y \<in> set (adj g x)"
  by (simp add: edges_def)

lemma edges_from_keys: "(x, y) \<in> edges g \<Longrightarrow> x \<in> keys g"
  by (cases "x \<in> keys g") (simp_all add: edges_iff adj_no_key)

lemma adj_mem: "map_of g n = Some ns \<Longrightarrow> adj g n = ns"
  by (simp add: adj_def)

section \<open>Worklist search\<close>

text \<open>What is left to visit, as the measure of the searches: keys before list.\<close>

definition unvisited :: "'k graph \<Rightarrow> 'k set \<Rightarrow> nat" where
  "unvisited g V = card (keys g - V)"

lemma unvisited_insert: "n \<notin> V \<Longrightarrow> n \<in> keys g \<Longrightarrow> unvisited g (insert n V) < unvisited g V"
  unfolding unvisited_def by (rule psubset_card_mono) auto

lemma unvisited_mono: "V \<subseteq> W \<Longrightarrow> unvisited g W \<le> unvisited g V"
  unfolding unvisited_def by (simp add: Diff_mono card_mono)

lemma unvisited_no_key: "n \<notin> keys g \<Longrightarrow> unvisited g (insert n V) = unvisited g V"
  unfolding unvisited_def by (simp add: Diff_insert0)

lemma visit_decreases:
  "n \<notin> V \<Longrightarrow> unvisited g (insert n V) < unvisited g V \<or>
     unvisited g (insert n V) = unvisited g V \<and> adj g n = []"
  by (cases "n \<in> keys g") (simp_all add: unvisited_insert unvisited_no_key adj_no_key)

text \<open>The stack is a list whose head is its top; \<open>extend\<close> pushes the items in order.\<close>

function dependency_closure_loop :: "'k graph \<Rightarrow> 'k list \<Rightarrow> 'k set \<Rightarrow> 'k set" where
  "dependency_closure_loop g [] R = R"
| "dependency_closure_loop g (n # pending) R =
     (if n \<in> R then dependency_closure_loop g pending R
      else dependency_closure_loop g (rev (adj g n) @ pending) (insert n R))"
  by pat_completeness auto

termination
  by (relation "measures [\<lambda>(g, _, R). unvisited g R, \<lambda>(_, pending, _). length pending]")
    (auto dest: visit_decreases)

definition dependency_closure :: "'k \<Rightarrow> 'k graph \<Rightarrow> 'k set" where
  "dependency_closure n g = dependency_closure_loop g [n] {}"

text \<open>Here a node is marked when it is pushed.\<close>

fun push_new :: "'k list \<Rightarrow> 'k list \<Rightarrow> 'k set \<Rightarrow> 'k list \<times> 'k set" where
  "push_new [] pending found = (pending, found)"
| "push_new (c # cs) pending found =
     (if c \<in> found then push_new cs pending found else push_new cs (c # pending) (insert c found))"

definition targets :: "'k graph \<Rightarrow> 'k set" where
  "targets g = (\<Union>ns \<in> set (map snd g). set ns)"

lemma adj_targets: "set (adj g n) \<subseteq> targets g"
  by (cases "map_of g n") (force simp: adj_def targets_def dest: map_of_SomeD)+

lemma push_new_measure:
  assumes "set cs \<subseteq> targets g" "push_new cs pending found = (pending', found')"
  shows "2 * card (targets g - found') + length pending' \<le> 2 * card (targets g - found) + length pending"
  using assms
proof (induction cs pending found rule: push_new.induct)
  case (2 c cs pending found)
  have "finite (targets g)" by (simp add: targets_def)
  then have "c \<notin> found \<Longrightarrow> card (targets g - insert c found) < card (targets g - found)"
    using 2(3) by (intro psubset_card_mono) auto
  then show ?case using 2 by (fastforce split: if_splits)
qed simp

function descendants_loop :: "'k graph \<Rightarrow> 'k list \<Rightarrow> 'k set \<Rightarrow> 'k set" where
  "descendants_loop g [] found = found"
| "descendants_loop g (n # pending) found =
     (case push_new (adj g n) pending found of
        (pending', found') \<Rightarrow> descendants_loop g pending' found')"
  by pat_completeness auto

termination
  by (relation "measure (\<lambda>(g, pending, found). 2 * card (targets g - found) + length pending)")
    (simp_all add: less_Suc_eq_le push_new_measure [OF adj_targets] split: prod.split)

definition descendants_of :: "'k graph \<Rightarrow> 'k \<Rightarrow> 'k set" where
  "descendants_of g n = descendants_loop g [n] {}"

lemma closure_step: "(E\<^sup>* `` insert n N) = insert n (E\<^sup>* `` (E `` {n} \<union> N))"
  by (auto elim: converse_rtranclE intro: converse_rtrancl_into_rtrancl)

lemma edges_image: "edges g `` {n} = set (adj g n)"
  by (auto simp: edges_iff)

lemma closed_reach:
  assumes "\<And>x y. x \<in> A \<Longrightarrow> (x, y) \<in> E \<Longrightarrow> y \<in> A" "x \<in> A" "(x, y) \<in> E\<^sup>*"
  shows "y \<in> A"
  using assms(3,2) by (induction rule: rtrancl_induct) (auto intro: assms(1))

lemma dependency_closure_loop_reach:
  assumes "\<And>x y. x \<in> R \<Longrightarrow> (x, y) \<in> edges g \<Longrightarrow> y \<in> R \<union> set pending"
  shows "dependency_closure_loop g pending R = R \<union> (edges g)\<^sup>* `` set pending"
  using assms
proof (induction g pending R rule: dependency_closure_loop.induct)
  case (2 g n pending R)
  show ?case
  proof (cases "n \<in> R")
    case True
    have "y \<in> R \<union> set pending" if "x \<in> R" "(x, y) \<in> edges g" for x y using 2(3) [OF that] True by auto
    then have eq: "dependency_closure_loop g pending R = R \<union> (edges g)\<^sup>* `` set pending"
      by (rule 2(1) [OF True])
    have "y \<in> R \<union> (edges g)\<^sup>* `` set pending" if "(n, y) \<in> (edges g)\<^sup>*" for y
      using _ _ that
    proof (rule closed_reach)
      fix x y assume "x \<in> R \<union> (edges g)\<^sup>* `` set pending" "(x, y) \<in> edges g"
      then show "y \<in> R \<union> (edges g)\<^sup>* `` set pending" using 2(3) [of x y] True
        by (auto intro: rtrancl_into_rtrancl)
    qed (use True in simp)
    then show ?thesis using True eq by auto
  next
    case False
    have "y \<in> insert n R \<union> set (rev (adj g n) @ pending)" if "x \<in> insert n R" "(x, y) \<in> edges g" for x y
      using that 2(3) [of x y] by (auto simp: edges_iff)
    then have "dependency_closure_loop g (rev (adj g n) @ pending) (insert n R) =
        insert n R \<union> (edges g)\<^sup>* `` set (rev (adj g n) @ pending)"
      by (rule 2(2) [OF False])
    then show ?thesis using False closure_step [of "edges g" n "set pending"]
      by (simp add: edges_image Un_commute Un_left_commute)
  qed
qed simp

lemma dependency_closure_reach: "dependency_closure n g = {m. (n, m) \<in> (edges g)\<^sup>*}"
  using dependency_closure_loop_reach [of "{}" g "[n]"] by (auto simp: dependency_closure_def)

lemma push_new_props:
  "push_new cs pending found = (pending', found') \<Longrightarrow>
     found' = found \<union> set cs \<and> set pending' = set pending \<union> (set cs - found)"
  by (induction cs pending found rule: push_new.induct) (auto split: if_splits)

lemma trancl_image_first:
  "(edges g)\<^sup>+ `` insert n N = set (adj g n) \<union> (edges g)\<^sup>+ `` (set (adj g n)) \<union> (edges g)\<^sup>+ `` N"
proof -
  have "(n, y) \<in> (edges g)\<^sup>+ \<longleftrightarrow> y \<in> set (adj g n) \<or> (\<exists>z \<in> set (adj g n). (z, y) \<in> (edges g)\<^sup>+)" for y
    by (metis edges_iff converse_tranclE trancl_into_trancl2 r_into_trancl')
  then show ?thesis by auto
qed

lemma descendants_loop_reach:
  assumes "\<And>x y. x \<in> found \<Longrightarrow> x \<notin> set pending \<Longrightarrow> (x, y) \<in> edges g \<Longrightarrow> y \<in> found"
  shows "descendants_loop g pending found = found \<union> (edges g)\<^sup>+ `` set pending"
  using assms
proof (induction g pending found rule: descendants_loop.induct)
  case (2 g n pending found)
  obtain pending' found' where pn: "push_new (adj g n) pending found = (pending', found')" by fastforce
  note props = push_new_props [OF pn]
  have closed: "y \<in> found'" if "x \<in> found'" "x \<notin> set pending'" "(x, y) \<in> edges g" for x y
    using that props 2(2) [of x y] by (cases "x = n") (auto simp: edges_iff)
  then have eq: "descendants_loop g pending' found' = found' \<union> (edges g)\<^sup>+ `` set pending'"
    using 2(1) [OF pn [symmetric]] by blast
  have plus: "(edges g)\<^sup>+ `` set (n # pending) =
      set (adj g n) \<union> (edges g)\<^sup>+ `` (set (adj g n) \<union> set pending)"
    by (auto simp: trancl_image_first)
  have old: "y \<in> found' \<union> (edges g)\<^sup>+ `` set pending'" if "x \<in> found" "(x, y) \<in> (edges g)\<^sup>+" for x y
    using _ _ trancl_into_rtrancl [OF that(2)]
  proof (rule closed_reach)
    fix u v assume uv: "u \<in> found' \<union> (edges g)\<^sup>+ `` set pending'" "(u, v) \<in> edges g"
    then show "v \<in> found' \<union> (edges g)\<^sup>+ `` set pending'"
      using closed [of u v] by (cases "u \<in> set pending'") (auto intro: trancl_into_trancl)
  qed (use that props in simp)
  have "y \<in> found' \<union> (edges g)\<^sup>+ `` set pending'" if "x \<in> set (adj g n)" "(x, y) \<in> (edges g)\<^sup>+" for x y
    using that old [of x y] props by (cases "x \<in> found") auto
  then have "(edges g)\<^sup>+ `` set (adj g n) \<subseteq> found' \<union> (edges g)\<^sup>+ `` set pending'" by blast
  moreover have "found' \<union> (edges g)\<^sup>+ `` set pending' \<subseteq> found \<union> (edges g)\<^sup>+ `` set (n # pending)"
    unfolding plus using props by (auto simp: Image_Un)
  ultimately have "found' \<union> (edges g)\<^sup>+ `` set pending' = found \<union> (edges g)\<^sup>+ `` set (n # pending)"
    unfolding plus using props by (auto simp: Image_Un)
  then show ?case using pn eq by simp
qed (auto elim: tranclE)

lemma descendants_reach: "descendants_of g n = {m. (n, m) \<in> (edges g)\<^sup>+}"
  using descendants_loop_reach [of "{}" "[n]" g] by (auto simp: descendants_of_def)

end
