(* ===== verification/Strong_Components.thy ===== *)
theory Strong_Components
  imports Graph_Search
begin

text \<open>
  The two depth-first searches of \<open>research_state.rs\<close> and the strongly connected components they
  find together: the first search lists the nodes as it leaves them, the second follows the edges
  backwards from the nodes in the reverse of that list. \<open>finish_all\<close> and \<open>collect_all\<close> are the
  recursive functions of the source with the loop over the neighbours folded in: a call on a list of
  nodes is the loop that calls the source's function on each of them.
\<close>

section \<open>The searches\<close>

function (sequential) finish_all :: "'k graph \<Rightarrow> 'k list \<Rightarrow> 'k set \<Rightarrow> 'k list \<Rightarrow> 'k set \<times> 'k list" where
  "finish_all g [] V F = (V, F)"
| "finish_all g (n # ns) V F =
     (if n \<in> V then finish_all g ns V F
      else (case finish_all g (adj g n) (insert n V) F of
          (V', F') \<Rightarrow> finish_all g ns V' (F' @ [n])))"
  by pat_completeness auto

lemma finish_all_mono_dom:
  "finish_all_dom (g, ns, V, F) \<Longrightarrow> V \<subseteq> fst (finish_all g ns V F)"
proof (induction g ns V F rule: finish_all.pinduct)
  case (2 g n ns V F)
  obtain V' F' where "finish_all g (adj g n) (insert n V) F = (V', F')" by fastforce
  then show ?case using 2 by (cases "n \<in> V") (fastforce simp: finish_all.psimps)+
qed (simp add: finish_all.psimps)

termination finish_all
proof (relation "measures [\<lambda>(g, _, V, _). unvisited g V, \<lambda>(_, ns, _, _). length ns]", goal_cases)
  case (4 g n ns V F V' F')
  then have "insert n V \<subseteq> V'" using finish_all_mono_dom [OF 4(3)] 4(2) [symmetric] by simp
  then have "unvisited g V' \<le> unvisited g V" by (intro unvisited_mono) auto
  then show ?case by (simp add: less_le_not_le)
qed (auto dest: visit_decreases)

function (sequential) collect_all :: "'k graph \<Rightarrow> 'k list \<Rightarrow> 'k set \<Rightarrow> 'k list \<Rightarrow> 'k set \<times> 'k list" where
  "collect_all g [] V C = (V, C)"
| "collect_all g (n # ns) V C =
     (if n \<in> V then collect_all g ns V C
      else (case collect_all g (adj g n) (insert n V) (C @ [n]) of
          (V', C') \<Rightarrow> collect_all g ns V' C'))"
  by pat_completeness auto

lemma collect_all_mono_dom:
  "collect_all_dom (g, ns, V, C) \<Longrightarrow> V \<subseteq> fst (collect_all g ns V C)"
proof (induction g ns V C rule: collect_all.pinduct)
  case (2 g n ns V C)
  obtain V' C' where "collect_all g (adj g n) (insert n V) (C @ [n]) = (V', C')" by fastforce
  then show ?case using 2 by (cases "n \<in> V") (fastforce simp: collect_all.psimps)+
qed (simp add: collect_all.psimps)

termination collect_all
proof (relation "measures [\<lambda>(g, _, V, _). unvisited g V, \<lambda>(_, ns, _, _). length ns]", goal_cases)
  case (4 g n ns V C V' C')
  then have "insert n V \<subseteq> V'" using collect_all_mono_dom [OF 4(3)] 4(2) [symmetric] by simp
  then have "unvisited g V' \<le> unvisited g V" by (intro unvisited_mono) auto
  then show ?case by (simp add: less_le_not_le)
qed (auto dest: visit_decreases)

text \<open>\<open>back\<close> is the graph with its edges turned around.\<close>

fun component_lists :: "'k graph \<Rightarrow> 'k list \<Rightarrow> 'k set \<Rightarrow> 'k list list" where
  "component_lists back [] assigned = []"
| "component_lists back (n # ns) assigned =
     (if n \<in> assigned then component_lists back ns assigned
      else (case collect_all back [n] assigned [] of
          (assigned', component) \<Rightarrow> component # component_lists back ns assigned'))"

definition strong_components :: "'k graph \<Rightarrow> 'k graph \<Rightarrow> 'k list \<Rightarrow> 'k list list" where
  "strong_components g back ns = component_lists back (rev (snd (finish_all g ns {} []))) {}"

section \<open>What a search visits\<close>

text \<open>
  Both searches add a list \<open>D\<close> of new nodes: with every node its neighbours are visited, and every
  new node is reached from the list the search was called on. The searches differ in where the node
  itself stands in \<open>D\<close>.
\<close>

definition explores :: "'k graph \<Rightarrow> 'k list \<Rightarrow> 'k set \<Rightarrow> 'k list \<Rightarrow> 'k set \<Rightarrow> bool" where
  "explores g ns V D V' \<longleftrightarrow> V' = V \<union> set D \<and> set D \<inter> V = {} \<and> distinct D \<and> set ns \<subseteq> V' \<and>
     edges g `` set D \<subseteq> V' \<and> set D \<subseteq> (edges g)\<^sup>* `` set ns"

lemma explores_Nil [simp]: "explores g [] V [] V"
  by (simp add: explores_def)

lemma explores_skip: "n \<in> V \<Longrightarrow> explores g ns V D V' \<Longrightarrow> explores g (n # ns) V D V'"
  by (auto simp: explores_def)

lemma explores_node:
  assumes "n \<notin> V" and D1: "explores g (adj g n) (insert n V) D1 V1" and D2: "explores g ns V1 D2 V2"
    and D: "D = n # D1 @ D2 \<or> D = D1 @ n # D2"
  shows "explores g (n # ns) V D V2"
proof -
  have set_D: "set D = insert n (set D1 \<union> set D2)" using D by auto
  have "(n, x) \<in> (edges g)\<^sup>*" if "m \<in> set (adj g n)" "(m, x) \<in> (edges g)\<^sup>*" for m x
    using that by (auto simp: edges_iff intro: converse_rtrancl_into_rtrancl)
  then have "set D1 \<subseteq> (edges g)\<^sup>* `` {n}" using D1 unfolding explores_def by blast
  then have reach: "set D \<subseteq> (edges g)\<^sup>* `` set (n # ns)"
    using D2 unfolding set_D explores_def by auto
  have "edges g `` set D = set (adj g n) \<union> edges g `` set D1 \<union> edges g `` set D2"
    unfolding set_D using edges_image [of g n] by auto
  then have closed: "edges g `` set D \<subseteq> V2" using D1 D2 unfolding explores_def by auto
  have "distinct D" "set D \<inter> V = {}" "V2 = V \<union> set D" "set (n # ns) \<subseteq> V2"
    using assms unfolding explores_def by auto
  then show ?thesis using reach closed by (simp add: explores_def)
qed

lemma collect_all_explores:
  "collect_all g ns V C = (V', C') \<Longrightarrow> \<exists>D. C' = C @ D \<and> explores g ns V D V'"
proof (induction g ns V C arbitrary: V' C' rule: collect_all.induct)
  case (2 g n ns V C)
  show ?case
  proof (cases "n \<in> V")
    case True
    then show ?thesis using 2(1) [OF True] 2(4) explores_skip [OF True] by fastforce
  next
    case False
    obtain V1 C1 where c1: "collect_all g (adj g n) (insert n V) (C @ [n]) = (V1, C1)" by fastforce
    with False 2(4) have c2: "collect_all g ns V1 C1 = (V', C')" by simp
    obtain D1 where D1: "C1 = (C @ [n]) @ D1" "explores g (adj g n) (insert n V) D1 V1"
      using 2(2) [OF False c1] by blast
    obtain D2 where D2: "C' = C1 @ D2" "explores g ns V1 D2 V'"
      using 2(3) [OF False c1 [symmetric] c2] by blast
    show ?thesis
      using D1(1) D2(1) explores_node [OF False D1(2) D2(2)] by (intro exI [of _ "n # D1 @ D2"]) simp
  qed
qed simp

lemma finish_all_explores:
  "finish_all g ns V F = (V', F') \<Longrightarrow> \<exists>D. F' = F @ D \<and> explores g ns V D V'"
proof (induction g ns V F arbitrary: V' F' rule: finish_all.induct)
  case (2 g n ns V F)
  show ?case
  proof (cases "n \<in> V")
    case True
    then show ?thesis using 2(1) [OF True] 2(4) explores_skip [OF True] by fastforce
  next
    case False
    obtain V1 F1 where f1: "finish_all g (adj g n) (insert n V) F = (V1, F1)" by fastforce
    with False 2(4) have f2: "finish_all g ns V1 (F1 @ [n]) = (V', F')" by simp
    obtain D1 where D1: "F1 = F @ D1" "explores g (adj g n) (insert n V) D1 V1"
      using 2(2) [OF False f1] by blast
    obtain D2 where D2: "F' = (F1 @ [n]) @ D2" "explores g ns V1 D2 V'"
      using 2(3) [OF False f1 [symmetric] f2] by blast
    show ?thesis
      using D1(1) D2(1) explores_node [OF False D1(2) D2(2)] by (intro exI [of _ "D1 @ n # D2"]) simp
  qed
qed simp

section \<open>The finishing order\<close>

text \<open>
  A node that was left before another node it leads to either is led to from that node, or leads to
  a node that was left later still, or to one the search has entered and not left.
\<close>

definition well_finished :: "'k graph \<Rightarrow> 'k set \<Rightarrow> 'k list \<Rightarrow> bool" where
  "well_finished g V F \<longleftrightarrow> set F \<subseteq> V \<and> edges g `` set F \<subseteq> V \<and>
     (\<forall>as r bs x. F = as @ r # bs \<and> x \<in> set as \<and> (x, r) \<in> (edges g)\<^sup>* \<longrightarrow>
        (r, x) \<in> (edges g)\<^sup>* \<or> (\<exists>z \<in> set bs \<union> (V - set F). (x, z) \<in> (edges g)\<^sup>*))"

lemma well_finished_split:
  assumes "well_finished g V F" "F = as @ r # bs" "x \<in> set as" "(x, r) \<in> (edges g)\<^sup>*"
  shows "(r, x) \<in> (edges g)\<^sup>* \<or> (\<exists>z \<in> set bs \<union> (V - set F). (x, z) \<in> (edges g)\<^sup>*)"
  using assms unfolding well_finished_def by blast

lemma well_finished_enter: "well_finished g V F \<Longrightarrow> well_finished g (insert n V) F"
  unfolding well_finished_def by blast

lemma path_leaves_through_open:
  assumes "well_finished g V F" "x \<in> set F" "(x, y) \<in> (edges g)\<^sup>*"
  shows "y \<in> set F \<or> (\<exists>z \<in> V - set F. (x, z) \<in> (edges g)\<^sup>*)"
  using assms(3)
proof (induction rule: rtrancl_induct)
  case (step y w)
  then show ?case using assms(1) unfolding well_finished_def by (blast intro: rtrancl_into_rtrancl)
qed (use assms(2) in simp)

lemma well_finished_leave:
  assumes V: "well_finished g V F" and n: "n \<notin> V" and D: "explores g (adj g n) (insert n V) D V1"
    and V1: "well_finished g V1 (F @ D)"
  shows "well_finished g V1 (F @ D @ [n])"
proof -
  have left: "V1 - set (F @ D @ [n]) = V - set F" "V1 - set (F @ D) = insert n (V - set F)"
    using V n D unfolding well_finished_def explores_def by auto
  have "(r, x) \<in> (edges g)\<^sup>* \<or> (\<exists>z \<in> set bs \<union> (V - set F). (x, z) \<in> (edges g)\<^sup>*)"
    if split: "F @ D @ [n] = as @ r # bs" and x: "x \<in> set as" "(x, r) \<in> (edges g)\<^sup>*" for as r bs x
  proof (cases bs rule: rev_exhaust)
    case Nil
    then have as: "as = F @ D" "r = n" using split by (simp_all flip: append_assoc)
    show ?thesis
    proof (cases "x \<in> set F")
      case True
      then show ?thesis using path_leaves_through_open [OF V True x(2)] V n as
        unfolding well_finished_def by auto
    next
      case False
      then have "x \<in> (edges g)\<^sup>* `` set (adj g n)" using D x(1) as unfolding explores_def by auto
      then show ?thesis using as by (auto simp: edges_iff intro: converse_rtrancl_into_rtrancl)
    qed
  next
    case (snoc bs' m)
    then have "F @ D = as @ r # bs'" "m = n" using split by (simp_all flip: append_assoc append_Cons)
    then show ?thesis using well_finished_split [OF V1 _ x] left(2) snoc by auto
  qed
  moreover have "set (F @ D @ [n]) \<subseteq> V1" "edges g `` set (F @ D @ [n]) \<subseteq> V1"
    using V V1 D edges_image [of g n] unfolding well_finished_def explores_def by auto
  ultimately show ?thesis unfolding well_finished_def left by blast
qed

lemma finish_all_well_finished:
  "finish_all g ns V F = (V', F') \<Longrightarrow> well_finished g V F \<Longrightarrow> well_finished g V' F'"
proof (induction g ns V F arbitrary: V' F' rule: finish_all.induct)
  case (2 g n ns V F)
  show ?case
  proof (cases "n \<in> V")
    case True
    then show ?thesis using 2(1) [OF True] 2(4,5) by simp
  next
    case False
    obtain V1 F1 where f1: "finish_all g (adj g n) (insert n V) F = (V1, F1)" by fastforce
    with False 2(4) have f2: "finish_all g ns V1 (F1 @ [n]) = (V', F')" by simp
    obtain D where D: "F1 = F @ D" "explores g (adj g n) (insert n V) D V1"
      using finish_all_explores [OF f1] by blast
    have "well_finished g V1 (F @ D)"
      using 2(2) [OF False f1 well_finished_enter [OF 2(5)]] D(1) by simp
    then have "well_finished g V1 (F1 @ [n])"
      using well_finished_leave [OF 2(5) False D(2)] D(1) by simp
    then show ?thesis by (rule 2(3) [OF False f1 [symmetric] f2])
  qed
qed simp

section \<open>The components\<close>

definition scc :: "'k graph \<Rightarrow> 'k \<Rightarrow> 'k set" where
  "scc g r = {x. (x, r) \<in> (edges g)\<^sup>* \<and> (r, x) \<in> (edges g)\<^sup>*}"

lemma scc_self [simp]: "r \<in> scc g r"
  by (simp add: scc_def)

lemma scc_eq: "x \<in> scc g r \<Longrightarrow> scc g x = scc g r"
  by (auto simp: scc_def intro: rtrancl_trans)

text \<open>The nodes that lead into a list, which is what the second search has assigned after it.\<close>

definition leads_to :: "'k graph \<Rightarrow> 'k list \<Rightarrow> 'k set" where
  "leads_to g ns = ((edges g)\<inverse>)\<^sup>* `` set ns"

lemma leads_to_iff: "x \<in> leads_to g ns \<longleftrightarrow> (\<exists>z \<in> set ns. (x, z) \<in> (edges g)\<^sup>*)"
  by (auto simp: leads_to_def rtrancl_converse)

lemma collect_all_backwards:
  assumes turned: "edges back = (edges g)\<inverse>" and r: "r \<notin> leads_to g bs"
    and run: "collect_all back [r] (leads_to g bs) [] = (A', C)"
  shows "A' = leads_to g (r # bs) \<and> set C = leads_to g [r] - leads_to g bs \<and> distinct C"
proof -
  let ?A = "leads_to g bs"
  obtain D where D: "C = D" "explores back [r] ?A D A'" using collect_all_explores [OF run] by auto
  then have A': "A' = ?A \<union> set D" "set D \<inter> ?A = {}" "r \<in> A'" "edges back `` set D \<subseteq> A'"
    "set D \<subseteq> (edges back)\<^sup>* `` {r}" "distinct D" by (auto simp: explores_def)
  have sub: "set D \<subseteq> leads_to g [r]" using A'(5) turned by (simp add: leads_to_def)
  have "y \<in> A'" if "x \<in> A'" "(x, y) \<in> edges back" for x y
    using that A'(1,4) turned by (auto simp: leads_to_iff intro: converse_rtrancl_into_rtrancl)
  then have "leads_to g [r] \<subseteq> A'"
    using closed_reach [of A' "edges back" r] A'(3) turned by (auto simp: leads_to_def)
  then have "A' = ?A \<union> leads_to g [r]" using sub A'(1) by auto
  moreover have "leads_to g (r # bs) = ?A \<union> leads_to g [r]" by (auto simp: leads_to_iff)
  ultimately show ?thesis using A' D(1) sub by auto
qed

lemma component_lists_sccs:
  assumes turned: "edges back = (edges g)\<inverse>" and F: "well_finished g (set F) F" "keys g \<subseteq> set F"
    and split: "F = as @ bs"
  shows "set ` set (component_lists back (rev as) (leads_to g bs)) = scc g ` (set as - leads_to g bs) \<and>
    (\<forall>C \<in> set (component_lists back (rev as) (leads_to g bs)). C \<noteq> [] \<and> set C \<inter> leads_to g bs = {}) \<and>
    distinct (concat (component_lists back (rev as) (leads_to g bs)))"
  using split
proof (induction as arbitrary: bs rule: rev_induct)
  case (snoc r as)
  let ?A = "leads_to g bs"
  let ?rest = "component_lists back (rev as) (leads_to g (r # bs))"
  have IH: "set ` set ?rest = scc g ` (set as - leads_to g (r # bs))"
    "\<forall>C \<in> set ?rest. C \<noteq> [] \<and> set C \<inter> leads_to g (r # bs) = {}" "distinct (concat ?rest)"
    using snoc by simp_all
  have A': "leads_to g (r # bs) = ?A \<union> leads_to g [r]" by (auto simp: leads_to_iff)
  show ?case
  proof (cases "r \<in> ?A")
    case True
    then have "leads_to g [r] \<subseteq> ?A" by (auto simp: leads_to_iff) (meson rtrancl_trans)
    then have "leads_to g (r # bs) = ?A" using A' by auto
    then show ?thesis using IH True by simp
  next
    case False
    obtain C where C: "collect_all back [r] ?A [] = (leads_to g (r # bs), C)"
      "set C = leads_to g [r] - ?A" "distinct C"
      using collect_all_backwards [OF turned False] by (metis prod.exhaust)
    have lists: "component_lists back (rev (as @ [r])) ?A = C # ?rest" using False C(1) by simp
    have "(r, x) \<in> (edges g)\<^sup>*" if "x \<in> leads_to g [r]" "x \<notin> ?A" for x
    proof (cases "x = r")
      case False
      then have "x \<in> set F" using that(1) F(2) edges_from_keys
        by (fastforce simp: leads_to_iff elim: converse_rtranclE)
      then have "x \<in> set as" using that False snoc(2) by (auto simp: leads_to_iff)
      then show ?thesis using well_finished_split [OF F(1), of as r bs x] that snoc(2)
        by (auto simp: leads_to_iff)
    qed simp
    moreover have "x \<notin> ?A" if "x \<in> scc g r" for x
      using that False unfolding scc_def leads_to_iff mem_Collect_eq by (meson rtrancl_trans)
    moreover have "x \<in> scc g r \<longleftrightarrow> x \<in> leads_to g [r] \<and> (r, x) \<in> (edges g)\<^sup>*" for x
      by (simp add: scc_def leads_to_iff)
    ultimately have scc: "set C = scc g r" unfolding C(2) by blast
    have "x \<in> scc g r" if "x \<in> leads_to g [r]" "x \<notin> ?A" for x using that C(2) scc by blast
    then have "set as - ?A = (set as - leads_to g (r # bs)) \<union> (set as \<inter> scc g r)"
      using scc C(2) unfolding A' by blast
    moreover have "scc g ` (set as \<inter> scc g r) \<subseteq> {scc g r}" using scc_eq [of _ g r] by blast
    ultimately have "scc g ` (set (as @ [r]) - ?A) = insert (scc g r) (scc g ` (set as - leads_to g (r # bs)))"
      using False by (auto simp: image_Un insert_Diff_if)
    then have "set ` set (C # ?rest) = scc g ` (set (as @ [r]) - ?A)" using IH(1) scc by simp
    moreover have "C \<noteq> []" using scc scc_self [of r g] by (metis empty_iff list.set(1))
    ultimately show ?thesis
      unfolding lists using IH(2,3) C(2,3) A' by (auto simp: disjoint_iff)
  qed
qed simp

theorem strong_components_exact:
  assumes turned: "edges back = (edges g)\<inverse>" and ns: "keys g \<subseteq> set ns"
  shows "set ` set (strong_components g back ns) = scc g ` (set ns \<union> edges g `` UNIV)"
    and "[] \<notin> set (strong_components g back ns)"
    and "distinct (concat (strong_components g back ns))"
proof -
  obtain V F where F: "finish_all g ns {} [] = (V, F)" by fastforce
  have ex: "explores g ns {} F V" using finish_all_explores [OF F] by auto
  then have V: "V = set F" by (simp add: explores_def)
  have wf: "well_finished g (set F) F"
    using finish_all_well_finished [OF F, unfolded V] by (simp add: well_finished_def [of g "{}"])
  have "set F = set ns \<union> edges g `` UNIV"
  proof
    have "x \<in> set ns \<union> edges g `` UNIV" if "z \<in> set ns" "(z, x) \<in> (edges g)\<^sup>*" for z x
      using that(2,1) by (cases rule: rtranclE) auto
    then show "set F \<subseteq> set ns \<union> edges g `` UNIV" using ex unfolding explores_def by blast
    show "set ns \<union> edges g `` UNIV \<subseteq> set F"
      using ex ns edges_from_keys [of _ _ g] unfolding explores_def V by blast
  qed
  moreover have "keys g \<subseteq> set F" using calculation ns by blast
  ultimately show "set ` set (strong_components g back ns) = scc g ` (set ns \<union> edges g `` UNIV)"
    "[] \<notin> set (strong_components g back ns)" "distinct (concat (strong_components g back ns))"
    using component_lists_sccs [OF turned wf, of F "[]"]
    by (simp_all add: strong_components_def F leads_to_def) metis
qed

end
