(* ===== verification/Kahn.thy ===== *)
theory Kahn
  imports Graph_Search
begin

text \<open>
  The loop that orders the nodes of a graph behind their predecessors. Two components have it, with
  different bodies: \<open>FactGraph::new\<close> subtracts from a count and fails when a node has none,
  \<open>topological_order\<close> of the research state subtracts with saturation and skips such a node, and
  their ready sets are ordered by different keys. \<open>kahn_loop\<close> is the loop over any body; the locale
  \<open>kahn_body\<close> states what a body has to do to a positive count, and the lemmas in it show that the
  loop then ends and emits exactly what can be ordered.

  A body that does not fit the counts can make the loop run for ever, so its result is an option.
\<close>

section \<open>The loop\<close>

record 'k kahn =
  counts :: "('k \<times> nat) list"
  ready :: "'k list"
  emitted :: "'k list"

definition kahn_step ::
  "('k \<Rightarrow> 'k kahn \<Rightarrow> 'e + 'k kahn) \<Rightarrow> ('k \<Rightarrow> 'k list) \<Rightarrow> 'k kahn \<Rightarrow> 'e + 'k kahn" where
  "kahn_step relax succs s =
     (case ready s of
        [] \<Rightarrow> Inr s
      | n # rest \<Rightarrow> fold_r relax (succs n) (s\<lparr>ready := rest, emitted := emitted s @ [n]\<rparr>))"

definition kahn_more :: "'e + 'k kahn \<Rightarrow> bool" where
  "kahn_more r = (case r of Inl _ \<Rightarrow> False | Inr s \<Rightarrow> ready s \<noteq> [])"

definition kahn_loop ::
  "('k \<Rightarrow> 'k kahn \<Rightarrow> 'e + 'k kahn) \<Rightarrow> ('k \<Rightarrow> 'k list) \<Rightarrow> 'k kahn \<Rightarrow> ('e + 'k kahn) option" where
  "kahn_loop relax succs s = while_option kahn_more (\<lambda>r. bind_r r (kahn_step relax succs)) (Inr s)"

section \<open>Its invariant\<close>

definition preds_of :: "('k \<Rightarrow> 'k list) \<Rightarrow> 'k set \<Rightarrow> 'k \<Rightarrow> 'k set" where
  "preds_of succs K x = {d \<in> K. x \<in> set (succs d)}"

definition in_order :: "('k \<Rightarrow> 'k set) \<Rightarrow> 'k list \<Rightarrow> bool" where
  "in_order preds ns \<longleftrightarrow> (\<forall>as x bs. ns = as @ x # bs \<longrightarrow> preds x \<subseteq> set as)"

text \<open>
  The counts and the ready set, when of the nodes emitted the ones in \<open>seen x\<close> have been counted off
  for the node \<open>x\<close>.
\<close>

definition counted :: "('k \<Rightarrow> 'k list) \<Rightarrow> 'k set \<Rightarrow> ('k \<Rightarrow> 'k set) \<Rightarrow> 'k kahn \<Rightarrow> bool" where
  "counted succs K seen s \<longleftrightarrow>
     (\<forall>x. map_of (counts s) x = (if x \<in> K then Some (card (preds_of succs K x - seen x)) else None)) \<and>
     set (ready s) = {x \<in> K. x \<notin> set (emitted s) \<and> preds_of succs K x \<subseteq> seen x} \<and>
     distinct (ready s)"

definition kahn_inv :: "('k \<Rightarrow> 'k list) \<Rightarrow> 'k set \<Rightarrow> 'k kahn \<Rightarrow> bool" where
  "kahn_inv succs K s \<longleftrightarrow> counted succs K (\<lambda>_. set (emitted s)) s \<and> distinct (emitted s) \<and>
     set (emitted s) \<subseteq> K \<and> in_order (preds_of succs K) (emitted s)"

lemma in_order_snoc:
  "in_order preds (ns @ [x]) \<longleftrightarrow> in_order preds ns \<and> preds x \<subseteq> set ns"
proof
  assume a: "in_order preds (ns @ [x])"
  have "preds y \<subseteq> set as" if "ns = as @ y # bs" for as y bs
    using a that unfolding in_order_def by (metis append_Cons append_assoc)
  then show "in_order preds ns \<and> preds x \<subseteq> set ns"
    using a unfolding in_order_def by (metis append_Nil2)
next
  assume a: "in_order preds ns \<and> preds x \<subseteq> set ns"
  have "preds y \<subseteq> set as" if "ns @ [x] = as @ y # bs" for as y bs
    using that a by (cases bs rule: rev_exhaust) (auto simp: in_order_def simp flip: append_Cons append_assoc)
  then show "in_order preds (ns @ [x])" by (simp add: in_order_def)
qed

lemma in_order_closed: "in_order preds ns \<Longrightarrow> x \<in> set ns \<Longrightarrow> preds x \<subseteq> set ns"
  unfolding in_order_def by (fastforce dest: split_list)

section \<open>What a body has to do\<close>

locale kahn_body =
  fixes relax :: "'k \<Rightarrow> 'k kahn \<Rightarrow> 'e + 'k kahn"
  assumes relax_positive:
    "map_of (counts s) c = Some (Suc n) \<Longrightarrow> distinct (ready s) \<Longrightarrow> c \<notin> set (ready s) \<Longrightarrow>
       \<exists>s'. relax c s = Inr s' \<and> emitted s' = emitted s \<and>
         map_of (counts s') = (map_of (counts s))(c \<mapsto> n) \<and>
         set (ready s') = (if n = 0 then insert c (set (ready s)) else set (ready s)) \<and>
         distinct (ready s')"
begin

lemma relax_children:
  assumes K: "finite K" "n \<in> K" "n \<notin> set E" "in_order (preds_of succs K) (E @ [n])"
    and "emitted s = E @ [n]" "counted succs K (\<lambda>x. set E \<union> (if x \<in> P then {n} else {})) s"
    and "set cs \<subseteq> set (succs n)" "set cs \<subseteq> K" "distinct cs" "P \<inter> set cs = {}"
  shows "\<exists>s'. fold_r relax cs s = Inr s' \<and> emitted s' = E @ [n] \<and>
    counted succs K (\<lambda>x. set E \<union> (if x \<in> P \<union> set cs then {n} else {})) s'"
  using assms(5-)
proof (induction cs arbitrary: P s)
  case (Cons c cs)
  let ?preds = "preds_of succs K"
  have fin: "finite (?preds c)" using K(1) by (simp add: preds_of_def)
  have n_pred: "n \<in> ?preds c" and c: "c \<in> K" "c \<notin> P" using Cons.prems K by (auto simp: preds_of_def)
  have split: "?preds c - set E = insert n (?preds c - (set E \<union> {n}))" using n_pred K(3) by auto
  have "card (?preds c - set E) = Suc (card (?preds c - (set E \<union> {n})))"
    by (subst split, subst card_insert_disjoint) (use fin in simp_all)
  then have count: "map_of (counts s) c = Some (Suc (card (?preds c - (set E \<union> {n}))))"
    using Cons.prems(2) c by (simp add: counted_def)
  have "c \<notin> set (E @ [n])"
    using n_pred K(3,4) in_order_closed [of ?preds E c] by (auto simp: in_order_snoc)
  moreover have "c \<notin> set (ready s)" "distinct (ready s)"
    using Cons.prems(2) c n_pred K(3) by (auto simp: counted_def)
  ultimately obtain s1 where s1: "relax c s = Inr s1" "emitted s1 = E @ [n]"
    "map_of (counts s1) = (map_of (counts s))(c \<mapsto> card (?preds c - (set E \<union> {n})))"
    "set (ready s1) = (if card (?preds c - (set E \<union> {n})) = 0 then insert c (set (ready s)) else set (ready s))"
    "distinct (ready s1)"
    using relax_positive [OF count] Cons.prems(1) by auto
  have empty: "card (?preds c - (set E \<union> {n})) = 0 \<longleftrightarrow> ?preds c \<subseteq> set E \<union> {n}" using fin by auto
  have ready: "x \<in> set (ready s1) \<longleftrightarrow>
      x \<in> K \<and> x \<notin> set (E @ [n]) \<and> ?preds x \<subseteq> set E \<union> (if x \<in> insert c P then {n} else {})" for x
  proof (cases "x = c")
    case True
    then show ?thesis
      using s1(4) c \<open>c \<notin> set (E @ [n])\<close> \<open>c \<notin> set (ready s)\<close> unfolding empty by simp
  next
    case False
    then have "x \<in> set (ready s1) \<longleftrightarrow> x \<in> set (ready s)" using s1(4) by (simp split: if_splits)
    then show ?thesis using Cons.prems(1,2) False by (simp add: counted_def)
  qed
  have "counted succs K (\<lambda>x. set E \<union> (if x \<in> insert c P then {n} else {})) s1"
    unfolding counted_def
  proof (intro conjI allI set_eqI)
    show "map_of (counts s1) x = (if x \<in> K then Some (card (?preds x -
        (set E \<union> (if x \<in> insert c P then {n} else {})))) else None)" for x
      using Cons.prems(2) s1(3) c by (cases "x = c") (simp_all add: counted_def)
  qed (use ready s1(2,5) in simp_all)
  then obtain s' where "fold_r relax cs s1 = Inr s'" "emitted s' = E @ [n]"
    "counted succs K (\<lambda>x. set E \<union> (if x \<in> insert c P \<union> set cs then {n} else {})) s'"
    using Cons.IH [OF s1(2), of "insert c P"] Cons.prems by auto
  then show ?case using s1(1) by (auto simp: insert_commute)
qed simp

lemma kahn_step_inv:
  assumes "finite K" and succs: "\<And>x. set (succs x) \<subseteq> K" "\<And>x. distinct (succs x)"
    and inv: "kahn_inv succs K s" and "ready s = n # rest"
  shows "\<exists>s'. kahn_step relax succs s = Inr s' \<and> kahn_inv succs K s' \<and> emitted s' = emitted s @ [n]"
proof -
  let ?s = "s\<lparr>ready := rest, emitted := emitted s @ [n]\<rparr>"
  have n: "n \<in> K" "n \<notin> set (emitted s)" "preds_of succs K n \<subseteq> set (emitted s)"
    using inv assms(5) by (auto simp: kahn_inv_def counted_def)
  then have order: "in_order (preds_of succs K) (emitted s @ [n])"
    using inv by (simp add: kahn_inv_def in_order_snoc)
  have "set rest = set (ready s) - {n}" "distinct rest"
    using inv assms(5) by (auto simp: kahn_inv_def counted_def)
  then have "counted succs K (\<lambda>x. set (emitted s) \<union> (if x \<in> {} then {n} else {})) ?s"
    using inv by (auto simp: kahn_inv_def counted_def)
  from relax_children [OF assms(1) n(1,2) order, of ?s "{}" "succs n", simplified] this succs
  obtain s' where s': "fold_r relax (succs n) ?s = Inr s'" "emitted s' = emitted s @ [n]"
    "counted succs K (\<lambda>x. set (emitted s) \<union> (if x \<in> set (succs n) then {n} else {})) s'" by auto
  have "preds_of succs K x - (set (emitted s) \<union> (if x \<in> set (succs n) then {n} else {})) =
      preds_of succs K x - set (emitted s @ [n])"
    "preds_of succs K x \<subseteq> set (emitted s) \<union> (if x \<in> set (succs n) then {n} else {}) \<longleftrightarrow>
      preds_of succs K x \<subseteq> set (emitted s @ [n])" for x
    by (auto simp: preds_of_def)
  then have "counted succs K (\<lambda>_. set (emitted s')) s'"
    using s'(2,3) by (simp add: counted_def)
  moreover have "kahn_step relax succs s = Inr s'" using s'(1) assms(5) by (simp add: kahn_step_def)
  ultimately show ?thesis using s'(2) order n inv by (auto simp: kahn_inv_def)
qed

lemma kahn_loop_ends:
  assumes "finite K" "\<And>x. set (succs x) \<subseteq> K" "\<And>x. distinct (succs x)" "kahn_inv succs K s"
  shows "\<exists>s'. kahn_loop relax succs s = Some (Inr s') \<and> kahn_inv succs K s' \<and> ready s' = []"
proof -
  let ?P = "\<lambda>r. \<exists>s. r = Inr s \<and> kahn_inv succs K s"
  let ?f = "\<lambda>r. case r of Inl _ \<Rightarrow> 0 | Inr s \<Rightarrow> card (K - set (emitted s))"
  have step: "?P (bind_r r (kahn_step relax succs)) \<and> ?f (bind_r r (kahn_step relax succs)) < ?f r"
    if "?P r" "kahn_more r" for r
  proof -
    obtain s where s: "r = Inr s" "kahn_inv succs K s" using \<open>?P r\<close> by blast
    then obtain n rest where "ready s = n # rest"
      using \<open>kahn_more r\<close> by (auto simp: kahn_more_def neq_Nil_conv)
    from kahn_step_inv [OF assms(1-3) s(2) this] obtain s' where s':
      "kahn_step relax succs s = Inr s'" "kahn_inv succs K s'" "emitted s' = emitted s @ [n]" by blast
    then have "n \<in> K" "n \<notin> set (emitted s)" by (auto simp: kahn_inv_def)
    then have "card (K - set (emitted s')) < card (K - set (emitted s))"
      unfolding s'(3) using assms(1) by (intro psubset_card_mono) auto
    then show ?thesis using s s' by simp
  qed
  have start: "?P (Inr s)" using assms(4) by simp
  obtain r where r: "kahn_loop relax succs s = Some r"
    unfolding kahn_loop_def using measure_while_option_Some [of ?P kahn_more _ ?f, OF step start] by blast
  have "?P r"
    by (rule while_option_rule [of ?P, OF _ r [unfolded kahn_loop_def] start]) (use step in blast)
  moreover have "\<not> kahn_more r" by (rule while_option_stop [OF r [unfolded kahn_loop_def]])
  ultimately show ?thesis using r unfolding kahn_more_def by (cases r) simp_all
qed

end

section \<open>What is emitted\<close>

text \<open>Everything is emitted exactly when the graph has no cycle.\<close>

definition succ_edges :: "('k \<Rightarrow> 'k list) \<Rightarrow> 'k set \<Rightarrow> ('k \<times> 'k) set" where
  "succ_edges succs K = {(d, x). d \<in> preds_of succs K x}"

lemma split_unique:
  "distinct ns \<Longrightarrow> ns = as @ y # bs \<Longrightarrow> ns = as' @ y # bs' \<Longrightarrow> as = as'"
  by (auto simp: append_eq_append_conv2 Cons_eq_append_conv append_eq_Cons_conv)

lemma in_order_before:
  assumes "distinct ns" "in_order (preds_of succs K) ns" "(d, x) \<in> (succ_edges succs K)\<^sup>+" "x \<in> set ns"
  shows "\<exists>as bs. ns = as @ x # bs \<and> d \<in> set as"
  using assms(3,4)
proof (induction rule: trancl_induct)
  case (base x)
  then show ?case using assms(2) unfolding in_order_def succ_edges_def by (fastforce dest: split_list)
next
  case (step y x)
  then obtain as bs where ns: "ns = as @ x # bs" by (meson split_list)
  then have "y \<in> set as" using step(2) assms(2) unfolding in_order_def succ_edges_def by blast
  then obtain as1 as2 where as: "as = as1 @ y # as2" by (meson split_list)
  obtain as' bs' where "ns = as' @ y # bs'" "d \<in> set as'" using step(3) ns as by auto
  moreover from this have "as' = as1"
    using ns as split_unique [OF assms(1), of as1 y "as2 @ x # bs" as' bs'] by simp
  ultimately have "d \<in> set as" using as by simp
  then show ?case using ns by blast
qed

text \<open>A node is emitted exactly when no cycle leads to it.\<close>

lemma kahn_emitted:
  assumes "finite K" "kahn_inv succs K s" "ready s = []" "\<And>x. set (succs x) \<subseteq> K"
  shows "x \<in> set (emitted s) \<longleftrightarrow>
    x \<in> K \<and> \<not> (\<exists>y. (y, x) \<in> (succ_edges succs K)\<^sup>* \<and> (y, y) \<in> (succ_edges succs K)\<^sup>+)"
proof
  let ?E = "succ_edges succs K"
  assume x: "x \<in> set (emitted s)"
  have order: "in_order (preds_of succs K) (emitted s)" "distinct (emitted s)"
    using assms(2) by (simp_all add: kahn_inv_def)
  have "y \<in> set (emitted s)" if "(y, x) \<in> ?E\<^sup>*" for y
    using that
  proof (induction rule: converse_rtrancl_induct)
    case (step y z)
    then show ?case using in_order_closed [OF order(1), of z] by (auto simp: succ_edges_def)
  qed (rule x)
  then have "(y, y) \<notin> ?E\<^sup>+" if "(y, x) \<in> ?E\<^sup>*" for y
    using that in_order_before [OF order(2,1), of y y] order(2) by auto
  then show "x \<in> K \<and> \<not> (\<exists>y. (y, x) \<in> ?E\<^sup>* \<and> (y, y) \<in> ?E\<^sup>+)"
    using x assms(2) by (auto simp: kahn_inv_def)
next
  let ?E = "succ_edges succs K"
  let ?R = "{(d, y) \<in> ?E. (y, x) \<in> ?E\<^sup>*}"
  assume x: "x \<in> K \<and> \<not> (\<exists>y. (y, x) \<in> ?E\<^sup>* \<and> (y, y) \<in> ?E\<^sup>+)"
  have "?E \<subseteq> K \<times> K" using assms(4) by (auto simp: succ_edges_def preds_of_def)
  then have "?R \<subseteq> K \<times> K" by blast
  then have "finite ?R" using assms(1) finite_subset by blast
  moreover have "acyclic ?R"
  proof (rule acyclicI, intro allI notI)
    fix z assume z: "(z, z) \<in> ?R\<^sup>+"
    then obtain y where "(y, z) \<in> ?R" by (meson tranclD2)
    moreover have "(z, z) \<in> ?E\<^sup>+" by (rule trancl_mono [OF z]) auto
    ultimately show False using x by blast
  qed
  ultimately have wf: "wf ?R" by (rule finite_acyclic_wf)
  have "(y, x) \<in> ?E\<^sup>* \<longrightarrow> y \<in> K \<longrightarrow> y \<in> set (emitted s)" for y
    using wf
  proof (induction y rule: wf_induct_rule)
    case (less y)
    show ?case
    proof (intro impI)
      assume y: "(y, x) \<in> ?E\<^sup>*" "y \<in> K"
      have "d \<in> set (emitted s)" if d: "d \<in> preds_of succs K y" for d
      proof -
        have "(d, y) \<in> ?E" "d \<in> K" using d by (auto simp: succ_edges_def preds_of_def)
        then show ?thesis using less [of d] y(1) by (auto intro: converse_rtrancl_into_rtrancl)
      qed
      then show "y \<in> set (emitted s)" using assms(2,3) y(2) by (auto simp: kahn_inv_def counted_def)
    qed
  qed
  then show "x \<in> set (emitted s)" using x by blast
qed

lemma kahn_complete_iff_acyclic:
  assumes "finite K" "\<And>x. set (succs x) \<subseteq> K" "kahn_inv succs K s" "ready s = []"
  shows "set (emitted s) = K \<longleftrightarrow> acyclic (succ_edges succs K)"
proof -
  let ?E = "succ_edges succs K"
  have "y \<in> K" if "(y, y) \<in> ?E\<^sup>+" for y
    using tranclD [OF that] by (auto simp: succ_edges_def preds_of_def)
  moreover have "set (emitted s) \<subseteq> K" using assms(3) by (simp add: kahn_inv_def)
  ultimately show ?thesis
    using kahn_emitted [OF assms(1,3,4,2)] unfolding acyclic_def by blast
qed

end
