(* ===== verification/Fact_Graph.thy ===== *)
theory Fact_Graph
  imports Contracts Kahn
begin

text \<open>
  The graph of facts of a research project, \<open>mtm-workflow/src/memory/graph.rs\<close>: \<open>FactGraph::new\<close>
  refuses revoked and unknown predecessors and cycles and orders the facts behind their
  predecessors; \<open>descendants\<close> finds what a fact supports. A count is a \<open>usize\<close>, and taking one from
  zero wraps around; \<open>fact_graph_exact\<close> shows in passing that this never happens, as the loop ends.
\<close>

section \<open>The code\<close>

record fact_graph =
  fact_predecessors :: "string graph"
  fact_successors :: "string graph"
  fact_order :: "string list"

definition fact_graph_invalid :: "string \<Rightarrow> re_ctm_error" where
  "fact_graph_invalid msg = with_category Validation (error_new ''FACT_GRAPH_INVALID'' msg)"

definition msg_revoked :: string where "msg_revoked = ''Revoked fact cannot enter an active graph.''"

definition msg_predecessor :: string where "msg_predecessor = ''Fact predecessor is missing or revoked.''"

definition msg_missing_node :: string where "msg_missing_node = ''Missing fact node.''"

definition msg_fact_cycle :: string where "msg_fact_cycle = ''Fact graph contains a dependency cycle.''"

definition add_successor :: "string \<Rightarrow> string \<Rightarrow> string graph \<Rightarrow> string graph" where
  "add_successor n d succs = bt_insert d (bs_insert n (adj succs d)) succs"

definition link_dependency ::
  "string graph \<Rightarrow> string set \<Rightarrow> string \<Rightarrow> string \<Rightarrow> string graph \<Rightarrow> string graph result" where
  "link_dependency preds revoked n d succs =
     (if d \<in> revoked \<or> d \<notin> keys preds then Inl (fact_graph_invalid msg_predecessor)
      else Inr (add_successor n d succs))"

definition link_fact ::
  "string graph \<Rightarrow> string set \<Rightarrow> string \<times> string list \<Rightarrow> string graph \<times> (string \<times> nat) list
    \<Rightarrow> (string graph \<times> (string \<times> nat) list) result" where
  "link_fact preds revoked entry st = (case entry of (n, deps) \<Rightarrow> (case st of (succs, remaining) \<Rightarrow>
     if n \<in> revoked then Inl (fact_graph_invalid msg_revoked)
     else bind_r (fold_r (link_dependency preds revoked n) deps succs) (\<lambda>succs'.
       Inr (succs', bt_insert n (length deps) remaining))))"

definition usize_dec :: "nat \<Rightarrow> nat" where
  "usize_dec n = (if n = 0 then 2 ^ 64 - 1 else n - 1)"

definition fact_relax :: "string \<Rightarrow> string kahn \<Rightarrow> string kahn result" where
  "fact_relax child s =
     (case map_of (counts s) child of
        None \<Rightarrow> Inl (fact_graph_invalid msg_missing_node)
      | Some count \<Rightarrow>
          Inr (s\<lparr>counts := bt_insert child (usize_dec count) (counts s),
            ready := (if usize_dec count = 0 then bs_insert child (ready s) else ready s)\<rparr>))"

definition fact_start :: "(string \<times> nat) list \<Rightarrow> string kahn" where
  "fact_start remaining =
     \<lparr>counts = remaining, ready = map fst (filter (\<lambda>(_, count). count = 0) remaining), emitted = []\<rparr>"

definition fact_graph_new :: "string graph \<Rightarrow> string set \<Rightarrow> fact_graph result option" where
  "fact_graph_new preds revoked =
     (case fold_r (link_fact preds revoked) preds (map (\<lambda>(n, _). (n, [])) preds, []) of
        Inl e \<Rightarrow> Some (Inl e)
      | Inr (succs, remaining) \<Rightarrow>
          map_option (\<lambda>r. bind_r r (\<lambda>s.
            if length (emitted s) \<noteq> length preds then Inl (fact_graph_invalid msg_fact_cycle)
            else Inr \<lparr>fact_predecessors = preds, fact_successors = succs, fact_order = emitted s\<rparr>))
            (kahn_loop fact_relax (adj succs) (fact_start remaining)))"

definition descendants :: "fact_graph \<Rightarrow> string \<Rightarrow> string set" where
  "descendants g n = descendants_of (fact_successors g) n"

section \<open>Its loop body\<close>

lemma distinct_bs_insert: "distinct xs \<Longrightarrow> x \<notin> set xs \<Longrightarrow> distinct (bs_insert x xs)"
  by (induction xs) auto

interpretation fact_loop: kahn_body fact_relax
proof
  fix s :: "string kahn" and c n
  assume "map_of (counts s) c = Some (Suc n)" "distinct (ready s)" "c \<notin> set (ready s)"
  then show "\<exists>s'. fact_relax c s = Inr s' \<and> emitted s' = emitted s \<and>
      map_of (counts s') = (map_of (counts s))(c \<mapsto> n) \<and>
      set (ready s') = (if n = 0 then insert c (set (ready s)) else set (ready s)) \<and> distinct (ready s')"
    by (simp add: fact_relax_def usize_dec_def distinct_bs_insert)
qed

section \<open>Linking the facts\<close>

text \<open>The maps and sets of the source are ordered, so their keys and members are distinct.\<close>

definition wf_preds :: "string graph \<Rightarrow> bool" where
  "wf_preds preds \<longleftrightarrow> sorted_keys preds \<and> (\<forall>(n, deps) \<in> set preds. sorted_wrt (<) deps)"

definition entry_active :: "string graph \<Rightarrow> string set \<Rightarrow> string \<times> string list \<Rightarrow> bool" where
  "entry_active preds revoked entry \<longleftrightarrow>
     fst entry \<notin> revoked \<and> (\<forall>d \<in> set (snd entry). d \<notin> revoked \<and> d \<in> keys preds)"

lemma fold_r_guarded:
  "fold_r (\<lambda>x s. if P x then Inl e else Inr (f x s)) xs s =
     (if \<exists>x \<in> set xs. P x then Inl e else Inr (fold f xs s))"
  by (induction xs arbitrary: s) auto

lemma link_dependencies:
  "fold_r (link_dependency preds revoked n) deps succs =
     (if \<exists>d \<in> set deps. d \<in> revoked \<or> d \<notin> keys preds then Inl (fact_graph_invalid msg_predecessor)
      else Inr (fold (add_successor n) deps succs))"
  unfolding link_dependency_def by (rule fold_r_guarded)

lemma adj_add_successor:
  "adj (add_successor n d succs) x = (if x = d then bs_insert n (adj succs d) else adj succs x)"
  by (simp add: add_successor_def adj_def)

lemma keys_add_successor: "keys (add_successor n d succs) = insert d (keys succs)"
  unfolding add_successor_def keys_def keys_bt_insert ..

lemma fold_add_successor:
  "set (adj (fold (add_successor n) deps succs) x) =
     set (adj succs x) \<union> (if x \<in> set deps then {n} else {})"
  "keys (fold (add_successor n) deps succs) = keys succs \<union> set deps"
  "(\<And>y. sorted_wrt (<) (adj succs y)) \<Longrightarrow> sorted_wrt (<) (adj (fold (add_successor n) deps succs) x)"
  by (induction deps arbitrary: succs)
    (auto simp: adj_add_successor keys_add_successor sorted_bs_insert)

text \<open>What has been linked after the facts \<open>ps\<close>.\<close>

definition linked ::
  "string graph \<Rightarrow> string graph \<Rightarrow> string graph \<times> (string \<times> nat) list \<Rightarrow> bool" where
  "linked preds ps st \<longleftrightarrow>
     keys (fst st) = keys preds \<and>
     (\<forall>x. set (adj (fst st) x) = {n. \<exists>deps. (n, deps) \<in> set ps \<and> x \<in> set deps}) \<and>
     (\<forall>x. sorted_wrt (<) (adj (fst st) x)) \<and>
     (\<forall>x. map_of (snd st) x = map_option length (map_of ps x)) \<and> sorted_keys (snd st)"

lemma link_fact_fails:
  "\<not> entry_active preds revoked entry \<Longrightarrow> \<exists>e. link_fact preds revoked entry st = Inl e"
  by (cases entry; cases st) (auto simp: link_fact_def link_dependencies entry_active_def)

lemma link_fact_step:
  assumes "linked preds ps st" "fst entry \<notin> keys ps" "entry_active preds revoked entry"
  shows "\<exists>st'. link_fact preds revoked entry st = Inr st' \<and> linked preds (ps @ [entry]) st'"
proof -
  obtain n deps where entry: "entry = (n, deps)" by fastforce
  obtain succs remaining where st: "st = (succs, remaining)" by fastforce
  have "map_of ps n = None" using assms(2) entry by (simp add: map_of_eq_None_iff keys_def)
  then have "linked preds (ps @ [entry]) (fold (add_successor n) deps succs, bt_insert n (length deps) remaining)"
    using assms(1,3) entry st by (auto simp: linked_def entry_active_def fold_add_successor map_add_def
        sorted_bt_insert split: if_splits option.splits)
  moreover have "link_fact preds revoked entry st =
      Inr (fold (add_successor n) deps succs, bt_insert n (length deps) remaining)"
    using assms(3) entry st by (auto simp: link_fact_def link_dependencies entry_active_def)
  ultimately show ?thesis by blast
qed

lemma link_facts_ok:
  assumes "distinct (map fst (ps @ qs))" "linked preds ps st" "\<forall>entry \<in> set qs. entry_active preds revoked entry"
  shows "\<exists>st'. fold_r (link_fact preds revoked) qs st = Inr st' \<and> linked preds (ps @ qs) st'"
  using assms
proof (induction qs arbitrary: ps st)
  case (Cons q qs)
  have "fst q \<notin> keys ps" "entry_active preds revoked q" using Cons.prems(1,3) by (auto simp: keys_def)
  from link_fact_step [OF Cons.prems(2) this] obtain st1 where
    "link_fact preds revoked q st = Inr st1" "linked preds (ps @ [q]) st1" by blast
  then show ?case using Cons.IH [of "ps @ [q]" st1] Cons.prems by auto
qed auto

lemma link_facts_bad:
  "\<exists>entry \<in> set qs. \<not> entry_active preds revoked entry \<Longrightarrow>
     \<exists>e. fold_r (link_fact preds revoked) qs st = Inl e"
proof (induction qs arbitrary: st)
  case (Cons q qs)
  then show ?case
    using link_fact_fails [of preds revoked q st] by (cases "link_fact preds revoked q st") auto
qed simp

lemma linked_start: "linked preds [] (map (\<lambda>(n, _). (n, [])) preds, [])"
proof -
  have "adj (map (\<lambda>(n, _). (n, [])) preds) x = []" for x
    by (auto simp: adj_def dest: map_of_SomeD split: option.split)
  moreover have "keys (map (\<lambda>(n, _). (n, [])) preds) = keys preds" by (force simp: keys_def)
  ultimately show ?thesis by (simp add: linked_def sorted_keys_def)
qed

lemma keys_edges:
  "wf_preds preds \<Longrightarrow> (n, d) \<in> edges preds \<longleftrightarrow> (\<exists>deps. (n, deps) \<in> set preds \<and> d \<in> set deps)"
  using map_of_eq_Some_iff [OF sorted_keys_distinct, of preds n]
  by (auto simp: edges_iff adj_def wf_preds_def eq_commute split: option.splits)

lemma linked_edges:
  assumes "wf_preds preds" "linked preds preds st"
  shows "edges (fst st) = (edges preds)\<inverse>"
  using assms keys_edges [OF assms(1)] by (auto simp: linked_def edges_iff [of _ _ "fst st"])

lemma linked_kahn:
  assumes wf: "wf_preds preds" and act: "\<forall>entry \<in> set preds. entry_active preds revoked entry" and st: "linked preds preds (succs, remaining)"
  shows "preds_of (adj succs) (keys preds) n = set (adj preds n)"
    and "kahn_inv (adj succs) (keys preds) (fact_start remaining)"
    and "succ_edges (adj succs) (keys preds) = (edges preds)\<inverse>"
proof -
  have mem: "d \<in> keys preds \<and> n \<in> keys preds" if edge: "(n, d) \<in> edges preds" for n d
  proof -
    obtain deps where deps: "(n, deps) \<in> set preds" "d \<in> set deps"
      using keys_edges [OF wf, of n d] edge by auto
    then have "entry_active preds revoked (n, deps)" using act by blast
    then show ?thesis using deps by (force simp: entry_active_def keys_def)
  qed
  have succ: "x \<in> set (adj succs d) \<longleftrightarrow> (x, d) \<in> edges preds" for x d
    using linked_edges [OF wf st] by (simp add: edges_iff set_eq_iff)
  show preds: "preds_of (adj succs) (keys preds) n = set (adj preds n)" for n
    using mem by (auto simp: preds_of_def succ edges_iff)
  then show "succ_edges (adj succs) (keys preds) = (edges preds)\<inverse>"
    by (auto simp: succ_edges_def edges_iff)
  have count: "map_of remaining n = (if n \<in> keys preds then Some (card (set (adj preds n))) else None)" for n
  proof (cases "map_of preds n")
    case None
    then show ?thesis using st by (simp add: linked_def keys_def map_of_eq_None_iff)
  next
    case (Some deps)
    then have "(n, deps) \<in> set preds" by (rule map_of_SomeD)
    then have "distinct deps" "n \<in> keys preds"
      using wf by (auto simp: wf_preds_def keys_def strict_sorted_iff intro: rev_image_eqI)
    then show ?thesis using st Some by (simp add: linked_def adj_mem distinct_card)
  qed
  have dist: "distinct (map fst remaining)" using st by (simp add: linked_def sorted_keys_distinct)
  have "n \<in> set (map fst (filter (\<lambda>(_, count). count = 0) remaining)) \<longleftrightarrow> map_of remaining n = Some 0" for n
    using dist by force
  then have "n \<in> set (ready (fact_start remaining)) \<longleftrightarrow> n \<in> keys preds \<and> set (adj preds n) = {}" for n
    using count [of n] by (simp add: fact_start_def split: if_splits)
  then have ready: "set (ready (fact_start remaining)) = {n \<in> keys preds. set (adj preds n) = {}}"
    by blast
  have "distinct (ready (fact_start remaining))"
    unfolding fact_start_def using dist by (simp add: distinct_map_filter)
  then show "kahn_inv (adj succs) (keys preds) (fact_start remaining)"
    unfolding kahn_inv_def counted_def preds ready
    by (simp add: fact_start_def count in_order_def)
qed

section \<open>The graph\<close>

lemma fact_graph_cases:
  assumes "wf_preds preds"
  shows "(\<exists>e. fact_graph_new preds revoked = Some (Inl e) \<and>
       \<not> ((\<forall>entry \<in> set preds. entry_active preds revoked entry) \<and> acyclic (edges preds))) \<or>
     (\<exists>succs ns. fact_graph_new preds revoked =
         Some (Inr \<lparr>fact_predecessors = preds, fact_successors = succs, fact_order = ns\<rparr>) \<and>
       (\<forall>entry \<in> set preds. entry_active preds revoked entry) \<and> acyclic (edges preds) \<and>
       edges succs = (edges preds)\<inverse> \<and> distinct (ns) \<and> set (ns) = keys preds \<and>
       in_order (\<lambda>n. set (adj preds n)) (ns))"
proof (cases "\<forall>entry \<in> set preds. entry_active preds revoked entry")
  case False
  then obtain e where "fold_r (link_fact preds revoked) preds (map (\<lambda>(n, _). (n, [])) preds, []) = Inl e"
    using link_facts_bad by blast
  then show ?thesis using False by (simp add: fact_graph_new_def)
next
  case True
  have dist: "distinct (map fst preds)" using assms by (simp add: wf_preds_def sorted_keys_distinct)
  then obtain succs remaining where st:
    "fold_r (link_fact preds revoked) preds (map (\<lambda>(n, _). (n, [])) preds, []) = Inr (succs, remaining)"
    "linked preds preds (succs, remaining)"
    using link_facts_ok [OF _ linked_start True] by fastforce
  note kahn = linked_kahn [OF assms True st(2)]
  have succs: "set (adj succs x) \<subseteq> keys preds" "distinct (adj succs x)" for x
    using st(2) by (auto simp: linked_def strict_sorted_iff keys_def image_iff) force
  obtain s where s: "kahn_loop fact_relax (adj succs) (fact_start remaining) = Some (Inr s)"
    "kahn_inv (adj succs) (keys preds) s" "ready s = []"
    using fact_loop.kahn_loop_ends [OF finite_keys succs kahn(2)] by blast
  have "set (emitted s) = keys preds \<longleftrightarrow> acyclic (edges preds)"
    using kahn_complete_iff_acyclic [OF finite_keys succs(1) s(2,3)] unfolding kahn(3) by simp
  moreover have "set (emitted s) \<subseteq> keys preds" "distinct (emitted s)" using s(2) by (auto simp: kahn_inv_def)
  then have "set (emitted s) = keys preds \<longleftrightarrow> length (emitted s) = length preds"
    using card_subset_eq [OF finite_keys, of "set (emitted s)" preds] distinct_card [OF dist]
      distinct_card [of "emitted s"] by (auto simp: keys_def)
  moreover have "in_order (\<lambda>n. set (adj preds n)) (emitted s)"
    using s(2) by (simp add: kahn_inv_def in_order_def kahn(1))
  ultimately show ?thesis
    using st(1) s(1) True linked_edges [OF assms st(2)] \<open>distinct (emitted s)\<close>
    by (auto simp: fact_graph_new_def)
qed

text \<open>C28. A graph of facts is built exactly from facts that are not revoked, whose predecessors are
  facts of the graph and not revoked either, and which do not depend on themselves through any chain
  of predecessors; and building it always ends.\<close>

theorem fact_graph_accepts:
  assumes "wf_preds preds"
  shows "\<exists>r. fact_graph_new preds revoked = Some r \<and>
    (is_ok r \<longleftrightarrow> (\<forall>(n, deps) \<in> set preds. n \<notin> revoked \<and> (\<forall>d \<in> set deps. d \<notin> revoked \<and> d \<in> keys preds)) \<and>
      acyclic (edges preds))"
proof -
  have act: "(\<forall>(n, deps) \<in> set preds. n \<notin> revoked \<and> (\<forall>d \<in> set deps. d \<notin> revoked \<and> d \<in> keys preds)) \<longleftrightarrow>
      (\<forall>entry \<in> set preds. entry_active preds revoked entry)" by (auto simp: entry_active_def)
  show ?thesis using fact_graph_cases [OF assms, of revoked] unfolding act by (auto simp: is_ok_def)
qed

theorem fact_graph_accepts_witness:
  "\<exists>r. fact_graph_new [(''a'', []), (''b'', [''a''])] {} = Some r \<and> is_ok r"
proof -
  let ?preds = "[(''a'', []), (''b'', [''a''])]"
  have "wf_preds ?preds" by (simp add: wf_preds_def sorted_keys_def)
  moreover have "edges ?preds = {(''b'', ''a'')}"
    by (auto simp: edges_def adj_def split: if_splits)
  then have "acyclic (edges ?preds)" by (simp add: acyclic_insert wf_acyclic)
  ultimately show ?thesis using fact_graph_accepts [of ?preds "{}"] by (simp add: keys_def)
qed

text \<open>C29. The order of a graph has every fact once, behind all its predecessors, and the
  descendants of a fact are exactly the facts that depend on it, directly or through others.\<close>

theorem fact_graph_ordered:
  assumes "wf_preds preds" "fact_graph_new preds revoked = Some (Inr g)"
  shows "distinct (fact_order g) \<and> set (fact_order g) = keys preds \<and>
    (\<forall>as n bs. fact_order g = as @ n # bs \<longrightarrow> set (adj preds n) \<subseteq> set as) \<and>
    (\<forall>d. descendants g d = {n. (n, d) \<in> (edges preds)\<^sup>+})"
proof -
  obtain succs ns where g: "g = \<lparr>fact_predecessors = preds, fact_successors = succs, fact_order = ns\<rparr>"
    "edges succs = (edges preds)\<inverse>" "distinct ns" "set ns = keys preds"
    "in_order (\<lambda>n. set (adj preds n)) ns"
    using fact_graph_cases [OF assms(1), of revoked] assms(2) by auto
  then show ?thesis
    by (simp add: descendants_def descendants_reach in_order_def trancl_converse)
qed

theorem fact_graph_ordered_witness:
  "\<exists>g. fact_graph_new [(''a'', []), (''b'', [''a''])] {} = Some (Inr g) \<and>
     set (fact_order g) = {''a'', ''b''} \<and> descendants g ''a'' = {''b''}"
proof -
  let ?preds = "[(''a'', []), (''b'', [''a''])]"
  have wf: "wf_preds ?preds" by (simp add: wf_preds_def sorted_keys_def)
  have edges: "edges ?preds = {(''b'', ''a'')}"
    by (auto simp: edges_def adj_def split: if_splits)
  then have "acyclic (edges ?preds)" by (simp add: acyclic_insert wf_acyclic)
  moreover have "\<forall>entry \<in> set ?preds. entry_active ?preds {} entry" by (simp add: entry_active_def keys_def)
  ultimately obtain g where g: "fact_graph_new ?preds {} = Some (Inr g)"
    using fact_graph_cases [OF wf, of "{}"] by blast
  have "(''a'', n) \<notin> (edges ?preds)\<^sup>+" for n
    unfolding edges by (auto elim: converse_tranclE)
  moreover have "(n, ''a'') \<in> (edges ?preds)\<^sup>+ \<longleftrightarrow> n = ''b''" for n
    unfolding edges by (auto elim: converse_tranclE)
  ultimately show ?thesis using g fact_graph_ordered [OF wf g] by (simp add: keys_def)
qed

end
