(* ===== verification/Workflow_Kernel.thy ===== *)
theory Workflow_Kernel
  imports Contracts
begin

text \<open>
  The transition kernel of a workflow run, \<open>mtm-workflow/src/kernel.rs\<close>: the table of the allowed
  transitions and the validation every transition of the engine passes (\<open>engine.rs\<close>,
  \<open>transition_with_task\<close>). A \<open>history\<close> is the list of the states of a run, the latest first, made by
  validated transitions only.
\<close>

section \<open>The code\<close>

definition allowed_transitions :: "(workflow_state \<times> workflow_state) list" where
  "allowed_transitions =
     [(Created, Assess), (Assess, Explore), (Assess, Assemble), (Explore, ProposePlans),
      (ProposePlans, DirectProving), (DirectProving, Assemble), (DirectProving, BranchPrepare),
      (BranchPrepare, BranchRun), (BranchRun, BranchRun), (BranchRun, BranchJoin),
      (BranchJoin, Assemble), (BranchJoin, IdentifyFailures), (IdentifyFailures, Replan),
      (Replan, ProposePlans), (Assemble, LatexValidate), (Assemble, Explore),
      (LatexValidate, Verify), (LatexValidate, Repair), (Verify, Finalize), (Verify, Repair),
      (Verify, Explore), (Repair, LatexValidate), (Finalize, Done), (BranchRun, Cancelled)]"

definition allowed_transition :: "workflow_state \<Rightarrow> workflow_state \<Rightarrow> bool" where
  "allowed_transition before after \<longleftrightarrow>
     after = Cancelled \<or> after = Failed \<or> (before, after) \<in> set allowed_transitions"

record transition_request =
  tr_run_id :: string
  tr_before :: workflow_state
  tr_after :: workflow_state
  tr_actor :: string
  tr_reason :: string
  tr_trace_id :: string

record transition_decision =
  decided :: transition_request

definition msg_transition :: "workflow_state \<Rightarrow> workflow_state \<Rightarrow> string" where
  "msg_transition before after =
     ''Transition is not allowed: '' @ state_as_str before @ '' -> '' @ state_as_str after"

definition transition_validate :: "transition_request \<Rightarrow> transition_decision result" where
  "transition_validate r =
     (if \<not> allowed_transition (tr_before r) (tr_after r)
      then Inl (with_category Internal (error_new ''INVALID_STATE_TRANSITION''
        (msg_transition (tr_before r) (tr_after r))))
      else Inr \<lparr>decided = r\<rparr>)"

section \<open>Histories\<close>

inductive history :: "workflow_state list \<Rightarrow> bool" where
  start: "history [Created]"
| transition: "history (s # ss) \<Longrightarrow> transition_validate r = Inr d \<Longrightarrow> tr_before r = s \<Longrightarrow>
    history (tr_after (decided d) # s # ss)"

inductive_cases history_ConsE: "history (s # ss)"

lemma validated_iff: "transition_validate r = Inr d \<longleftrightarrow>
    allowed_transition (tr_before r) (tr_after r) \<and> d = \<lparr>decided = r\<rparr>"
  by (auto simp: transition_validate_def)

lemma history_step: "history (s' # ss) \<longleftrightarrow>
    (s' = Created \<and> ss = []) \<or> (\<exists>s rest. ss = s # rest \<and> history ss \<and> allowed_transition s s')"
proof
  assume "history (s' # ss)"
  then show "(s' = Created \<and> ss = []) \<or> (\<exists>s rest. ss = s # rest \<and> history ss \<and> allowed_transition s s')"
    by (rule history_ConsE) (auto simp: validated_iff)
next
  assume "(s' = Created \<and> ss = []) \<or> (\<exists>s rest. ss = s # rest \<and> history ss \<and> allowed_transition s s')"
  then show "history (s' # ss)"
  proof (elim disjE exE conjE)
    fix s rest assume h: "ss = s # rest" "history ss" "allowed_transition s s'"
    let ?r = "\<lparr>tr_run_id = [], tr_before = s, tr_after = s', tr_actor = [], tr_reason = [], tr_trace_id = []\<rparr>"
    have "transition_validate ?r = Inr \<lparr>decided = ?r\<rparr>" using h(3) by (simp add: validated_iff)
    from history.transition [OF h(2) [unfolded h(1)] this] show "history (s' # ss)" by (simp add: h(1))
  qed (simp add: history.start)
qed

text \<open>Where a state can be entered from.\<close>

lemma allowed_into:
  "allowed_transition s Done \<longleftrightarrow> s = Finalize"
  "allowed_transition s Finalize \<longleftrightarrow> s = Verify"
  "allowed_transition s Verify \<longleftrightarrow> s = LatexValidate"
  "allowed_transition s LatexValidate \<longleftrightarrow> s = Assemble \<or> s = Repair"
  "allowed_transition s Repair \<longleftrightarrow> s = LatexValidate \<or> s = Verify"
  "\<not> allowed_transition s Created"
  by (auto simp: allowed_transition_def allowed_transitions_def)

lemma allowed_from_terminal:
  "terminal s \<Longrightarrow> allowed_transition s s' \<longleftrightarrow> s' = Cancelled \<or> s' = Failed"
  by (cases s) (auto simp: allowed_transition_def allowed_transitions_def terminal_def)

text \<open>C3. No run is done without its gates: the three states before the end of a run that is done
  are, in this order, the LaTeX validation, the verification and the finalization, whatever happened
  before. And a run that has ended in any way never runs again: the only transitions left are to the
  other two endings, cancelled and failed.\<close>

theorem done_only_through_the_gates:
  assumes "history hist"
  shows "(hd hist = Done \<longrightarrow> (\<exists>rest. hist = [Done, Finalize, Verify, LatexValidate] @ rest)) \<and>
    (\<forall>newer s older. hist = newer @ s # older \<longrightarrow> terminal s \<longrightarrow> set newer \<subseteq> {Cancelled, Failed})"
proof
  have before: "\<exists>s rest. ss = s # rest \<and> history ss \<and> allowed_transition s s'"
    if "history (s' # ss)" "s' \<noteq> Created" for s' ss using that by (simp add: history_step [of s'])
  show "hd hist = Done \<longrightarrow> (\<exists>rest. hist = [Done, Finalize, Verify, LatexValidate] @ rest)"
  proof
    assume "hd hist = Done"
    then obtain h1 where h1: "hist = Done # h1" "history (Done # h1)"
      using assms by (cases hist) (auto elim: history.cases)
    then obtain h2 where h2: "h1 = Finalize # h2" "history (Finalize # h2)"
      using before [OF h1(2)] allowed_into(1) by auto
    then obtain h3 where h3: "h2 = Verify # h3" "history (Verify # h3)"
      using before [OF h2(2)] allowed_into(2) by auto
    then obtain h4 where "h3 = LatexValidate # h4"
      using before [OF h3(2)] allowed_into(3) by auto
    then show "\<exists>rest. hist = [Done, Finalize, Verify, LatexValidate] @ rest"
      using h1 h2 h3 by simp
  qed
  have "set newer \<subseteq> {Cancelled, Failed}" if "history (newer @ s # older)" "terminal s" for newer s older
    using that
  proof (induction newer)
    case (Cons s' newer)
    from Cons.prems(1) have tail: "history (newer @ s # older)"
      and step: "allowed_transition (hd (newer @ s # older)) s'"
      by (auto simp: history_step [of s'])
    have "terminal (hd (newer @ s # older))"
      using Cons.IH [OF tail Cons.prems(2)] Cons.prems(2) by (cases newer) (auto simp: terminal_def)
    then show ?case using step Cons.IH [OF tail Cons.prems(2)] allowed_from_terminal by auto
  qed simp
  then show "\<forall>newer s older. hist = newer @ s # older \<longrightarrow> terminal s \<longrightarrow> set newer \<subseteq> {Cancelled, Failed}"
    using assms by blast
qed

theorem done_only_through_the_gates_witness:
  "history [Failed, Done, Finalize, Verify, LatexValidate, Assemble, Assess, Created] \<and>
   set [Failed] \<subseteq> {Cancelled, Failed}"
proof -
  have h: "history [Failed, Done, Finalize, Verify, LatexValidate, Assemble, Assess, Created]"
    by (simp add: history_step allowed_transition_def allowed_transitions_def)
  note after_end = done_only_through_the_gates [OF h, THEN conjunct2, rule_format, of "[Failed]" Done
    "[Finalize, Verify, LatexValidate, Assemble, Assess, Created]"]
  show ?thesis using h after_end by (simp add: terminal_def)
qed

text \<open>The table leaves no run stuck: from every state but the cancelled and the failed one the kernel
  allows a sequence of transitions to the successful end, and from these two it allows none.\<close>

theorem live_states_can_finish:
  "allowed_transition\<^sup>*\<^sup>* s Done \<longleftrightarrow> s \<notin> {Cancelled, Failed}"
proof -
  have step: "allowed_transition\<^sup>*\<^sup>* s' Done \<Longrightarrow> (s, s') \<in> set allowed_transitions \<Longrightarrow> allowed_transition\<^sup>*\<^sup>* s Done"
    for s s' by (rule converse_rtranclp_into_rtranclp) (auto simp: allowed_transition_def)
  note table = allowed_transitions_def
  have finalize: "allowed_transition\<^sup>*\<^sup>* Finalize Done" by (simp add: allowed_into r_into_rtranclp)
  have verify: "allowed_transition\<^sup>*\<^sup>* Verify Done" by (rule step [OF finalize]) (simp add: table)
  have last: "allowed_transition\<^sup>*\<^sup>* LatexValidate Done" by (rule step [OF verify]) (simp add: table)
  have assemble: "allowed_transition\<^sup>*\<^sup>* Assemble Done" by (rule step [OF last]) (simp add: table)
  have direct: "allowed_transition\<^sup>*\<^sup>* DirectProving Done" by (rule step [OF assemble]) (simp add: table)
  have plans: "allowed_transition\<^sup>*\<^sup>* ProposePlans Done" by (rule step [OF direct]) (simp add: table)
  have join: "allowed_transition\<^sup>*\<^sup>* BranchJoin Done" by (rule step [OF assemble]) (simp add: table)
  have run: "allowed_transition\<^sup>*\<^sup>* BranchRun Done" by (rule step [OF join]) (simp add: table)
  have replan: "allowed_transition\<^sup>*\<^sup>* Replan Done" by (rule step [OF plans]) (simp add: table)
  have explore: "allowed_transition\<^sup>*\<^sup>* Explore Done" by (rule step [OF plans]) (simp add: table)
  have prepare: "allowed_transition\<^sup>*\<^sup>* BranchPrepare Done" by (rule step [OF run]) (simp add: table)
  have identify: "allowed_transition\<^sup>*\<^sup>* IdentifyFailures Done" by (rule step [OF replan]) (simp add: table)
  have assess: "allowed_transition\<^sup>*\<^sup>* Assess Done" by (rule step [OF assemble]) (simp add: table)
  have created: "allowed_transition\<^sup>*\<^sup>* Created Done" by (rule step [OF assess]) (simp add: table)
  have repair: "allowed_transition\<^sup>*\<^sup>* Repair Done" by (rule step [OF last]) (simp add: table)
  have live: "allowed_transition\<^sup>*\<^sup>* s Done" if "\<not> terminal s"
    using that
    by (cases s) (simp_all add: terminal_def last assemble direct plans join run replan explore prepare
        identify assess created repair finalize verify)
  have "s' = Cancelled \<or> s' = Failed \<or> s' = s" if "terminal s" "allowed_transition\<^sup>*\<^sup>* s s'" for s'
    using that(2,1)
  proof (induction rule: rtranclp_induct)
    case (step u v)
    then have "terminal u" by (auto simp: terminal_def)
    then show ?case using step(2) allowed_from_terminal by blast
  qed simp
  then show ?thesis using live by (cases "terminal s") (auto simp: terminal_def)
qed

end
