(* ===== verification/Verification.thy ===== *)
theory Verification
  imports Workflow_Kernel
begin

text \<open>
  The verification of a proof and the gate before its finalization: the report a verifier submits
  and the verdict the server computes from it (\<open>mtm-workflow/src/verifier.rs\<close>), the decision of
  \<open>commit_verification_submitted\<close> on the state that follows, and the checks of \<open>finalize\<close> (both
  \<open>engine.rs\<close>). The engine reads the report, the proof manifest, the reference audits and the run from
  its store and its vault; these are arguments here, and what the two functions write afterwards is
  the record they return.
\<close>

section \<open>Reports\<close>

record verification_finding =
  location :: string
  issue :: string

record verification_report =
  summary :: string
  critical_errors :: "verification_finding list"
  gaps :: "verification_finding list"
  repair_hints :: string

datatype verification_verdict = Correct | Wrong

record verification_decision =
  report :: verification_report
  verdict :: verification_verdict

fun value_get :: "json \<Rightarrow> string \<Rightarrow> json option" where
  "value_get (JObject obj) k = obj_get obj k"
| "value_get _ k = None"

definition msg_report_shape :: string where
  "msg_report_shape = ''Verification report has an invalid shape.''"

definition invalid_report :: re_ctm_error where
  "invalid_report = with_category Validation (error_new ''VERIFICATION_REPORT_INVALID'' msg_report_shape)"

definition nonempty_text :: "object \<Rightarrow> string \<Rightarrow> string result" where
  "nonempty_text obj key =
     (case Option.bind (obj_get obj key) as_str of
        None \<Rightarrow> Inl invalid_report
      | Some s \<Rightarrow> if trim s = [] then Inl invalid_report else Inr (trim s))"

definition finding_of :: "json \<Rightarrow> verification_finding result" where
  "finding_of item =
     bind_r (ok_or (as_object item) invalid_report) (\<lambda>obj.
     bind_r (nonempty_text obj ''location'') (\<lambda>l.
     bind_r (nonempty_text obj ''issue'') (\<lambda>i. Inr \<lparr>location = l, issue = i\<rparr>)))"

definition relabel :: "string \<Rightarrow> re_ctm_error \<Rightarrow> re_ctm_error" where
  "relabel label e =
     (if code e = ''VERIFICATION_REPORT_INVALID''
      then with_category Validation (error_new ''VERIFICATION_REPORT_INVALID''
        (''verification_report.'' @ label @ '' contains an invalid finding.''))
      else e)"

definition findings :: "json option \<Rightarrow> string \<Rightarrow> verification_finding list result" where
  "findings value label =
     bind_r (ok_or (Option.bind value as_array) invalid_report) (\<lambda>items.
       case traverse_r finding_of items of Inl e \<Rightarrow> Inl (relabel label e) | Inr fs \<Rightarrow> Inr fs)"

definition msg_hints :: string where
  "msg_hints = ''wrong verification requires non-empty repair_hints''"

definition hints_missing :: re_ctm_error where
  "hints_missing = with_category Validation (error_new ''INVALID_ARGUMENT'' msg_hints)"

definition submitted_hints :: "object \<Rightarrow> string" where
  "submitted_hints outer =
     (case Option.bind (obj_get outer ''repair_hints'') as_str of None \<Rightarrow> [] | Some s \<Rightarrow> s)"

definition from_submitted_report :: "json \<Rightarrow> verification_decision result" where
  "from_submitted_report value =
     bind_r (ok_or (as_object value) invalid_report) (\<lambda>outer.
     bind_r (ok_or (Option.bind (obj_get outer ''verification_report'') as_object) invalid_report) (\<lambda>rep.
     bind_r (nonempty_text rep ''summary'') (\<lambda>sm.
     bind_r (findings (obj_get rep ''critical_errors'') ''critical_errors'') (\<lambda>errors.
     bind_r (findings (obj_get rep ''gaps'') ''gaps'') (\<lambda>gs.
       if errors = [] \<and> gs = []
       then Inr \<lparr>report = \<lparr>summary = sm, critical_errors = errors, gaps = gs, repair_hints = []\<rparr>,
         verdict = Correct\<rparr>
       else if is_blank (submitted_hints outer) then Inl hints_missing
       else Inr \<lparr>report = \<lparr>summary = sm, critical_errors = errors, gaps = gs,
         repair_hints = submitted_hints outer\<rparr>, verdict = Wrong\<rparr>)))))"

definition with_server_gap :: "verification_finding \<Rightarrow> verification_decision \<Rightarrow> verification_decision" where
  "with_server_gap f d = d\<lparr>report := (report d)\<lparr>gaps := gaps (report d) @ [f]\<rparr>, verdict := Wrong\<rparr>"

definition finding_json :: "verification_finding \<Rightarrow> json" where
  "finding_json f = JObject [(''issue'', JString (issue f)), (''location'', JString (location f))]"

definition verdict_name :: "verification_verdict \<Rightarrow> string" where
  "verdict_name v = (case v of Correct \<Rightarrow> ''correct'' | Wrong \<Rightarrow> ''wrong'')"

definition report_json :: "verification_report \<Rightarrow> string \<Rightarrow> verification_verdict \<Rightarrow> json" where
  "report_json r hints v = JObject
     [(''repair_hints'', JString hints),
      (''verdict'', JString (verdict_name v)),
      (''verification_report'', JObject
         [(''critical_errors'', JArray (map finding_json (critical_errors r))),
          (''gaps'', JArray (map finding_json (gaps r))),
          (''summary'', JString (summary r))])]"

definition normalized_payload :: "verification_decision \<Rightarrow> json" where
  "normalized_payload d = report_json (report d) (repair_hints (report d)) (verdict d)"

section \<open>The permit\<close>

record permit =
  permit_run_id :: string
  permit_proof_sha256 :: string
  permit_manifest_sha256 :: "string option"

definition gate_denied :: "string \<Rightarrow> re_ctm_error" where
  "gate_denied msg = with_category Permission (error_new ''FINALIZATION_GATE_DENIED'' msg)"

definition msg_gates :: string where
  "msg_gates = ''Finalization requires a passed LaTeX gate and server-computed correct verdict.''"

definition msg_open_findings :: string where
  "msg_open_findings = ''Verification findings are not empty.''"

definition finalization_permit ::
  "verification_decision \<Rightarrow> string \<Rightarrow> bool \<Rightarrow> string \<Rightarrow> string option \<Rightarrow> permit result" where
  "finalization_permit d run_id latex_passed proof_sha manifest_sha =
     (if verdict d \<noteq> Correct \<or> \<not> latex_passed then Inl (gate_denied msg_gates)
      else if critical_errors (report d) \<noteq> [] \<or> gaps (report d) \<noteq> [] then Inl (gate_denied msg_open_findings)
      else Inr \<lparr>permit_run_id = run_id, permit_proof_sha256 = proof_sha,
        permit_manifest_sha256 = manifest_sha\<rparr>)"

section \<open>Reading a run\<close>

definition run_metadata :: "json \<Rightarrow> string \<Rightarrow> json option" where
  "run_metadata run key =
     Option.bind (Option.bind (value_get run ''metadata'') as_object) (\<lambda>m. obj_get m key)"

definition metadata_text :: "json \<Rightarrow> string \<Rightarrow> string" where
  "metadata_text run key = (case Option.bind (run_metadata run key) as_str of None \<Rightarrow> [] | Some s \<Rightarrow> s)"

definition metadata_i64 :: "json \<Rightarrow> string \<Rightarrow> int \<Rightarrow> int" where
  "metadata_i64 run key absent = (case Option.bind (run_metadata run key) as_i64 of None \<Rightarrow> absent | Some i \<Rightarrow> i)"

definition engine_invalid :: "string \<Rightarrow> re_ctm_error" where
  "engine_invalid msg = with_category Validation (error_new ''INVALID_ARGUMENT'' msg)"

definition engine_internal :: "string \<Rightarrow> re_ctm_error" where
  "engine_internal msg = with_category Internal (error_new ''WORKFLOW_INTERNAL'' msg)"

section \<open>Submitting a verification\<close>

definition accepted_dispositions :: "string list" where
  "accepted_dispositions = [''SOURCE_VERIFIED'', ''INDEPENDENTLY_REDERIVED'', ''NOT_MATERIAL'']"

definition msg_no_audit :: string where
  "msg_no_audit = ''Material reference has no verifier audit disposition.''"

definition msg_unresolved_audit :: string where
  "msg_unresolved_audit = ''Material reference remains unresolved after verifier audit.''"

text \<open>The audits by the reference they are about; a later audit replaces an earlier one.\<close>

definition audit_table :: "json list \<Rightarrow> (string \<times> json) list" where
  "audit_table audits = bt_collect (List.map_filter (\<lambda>a.
     map_option (\<lambda>i. (i, a)) (Option.bind (value_get a ''reference_id'') as_str)) audits)"

definition audit_accepted :: "json \<Rightarrow> bool" where
  "audit_accepted a =
     (case Option.bind (value_get a ''disposition'') as_str of
        Some d \<Rightarrow> d \<in> set accepted_dispositions | None \<Rightarrow> False)"

definition reference_gap :: "(string \<times> json) list \<Rightarrow> string \<Rightarrow> verification_finding option" where
  "reference_gap audits r =
     (case map_of audits r of
        None \<Rightarrow> Some \<lparr>location = ''reference:'' @ r, issue = msg_no_audit\<rparr>
      | Some a \<Rightarrow> if \<not> audit_accepted a
          then Some \<lparr>location = ''reference:'' @ r, issue = msg_unresolved_audit\<rparr> else None)"

definition manifest_references :: "json \<Rightarrow> string list" where
  "manifest_references manifest =
     (case Option.bind (value_get manifest ''reference_ids'') as_array of
        None \<Rightarrow> [] | Some items \<Rightarrow> List.map_filter as_str items)"

definition server_gaps :: "int \<Rightarrow> json \<Rightarrow> json list \<Rightarrow> verification_finding list" where
  "server_gaps protocol manifest audits =
     (if 2 \<le> protocol
      then List.map_filter (reference_gap (audit_table audits)) (manifest_references manifest) else [])"

definition msg_resolve :: string where
  "msg_resolve = ''Resolve the server-detected reference audit gaps before resubmission: ''"

definition gap_hint :: "verification_finding list \<Rightarrow> string" where
  "gap_hint fs = msg_resolve @ join ''; '' (map (\<lambda>f. location f @ '': '' @ issue f) fs)"

text \<open>The payload that is stored, with a hint about the gaps the server found where the report has none.\<close>

definition stored_payload :: "verification_decision \<Rightarrow> verification_finding list \<Rightarrow> json result" where
  "stored_payload d server =
     (if verdict d = Wrong \<and> is_blank (repair_hints (report d))
      then if server = [] then Inl (engine_invalid msg_hints)
        else Inr (report_json (report d) (gap_hint server) (verdict d))
      else Inr (normalized_payload d))"

definition i64_max :: int where "i64_max = 2 ^ 63 - 1"

definition msg_overflow :: string where
  "msg_overflow = ''compact verifier failure counter overflow''"

definition msg_latex :: string where
  "msg_latex = ''A mathematically correct report cannot finalize before the LaTeX gate passes.''"

record verification_step =
  step_payload :: json
  step_verdict :: verification_verdict
  step_after :: workflow_state
  step_updates :: object
  step_project_mode :: "string option"

definition json_int :: "int \<Rightarrow> json" where
  "json_int i = JNumber (if i < 0 then NegInt i else PosInt (nat i))"

definition audit_updates :: "string \<Rightarrow> nat \<Rightarrow> nat \<Rightarrow> nat \<Rightarrow> object" where
  "audit_updates proof_sha statement_checks legacy_checks structured_audits =
     [(''last_verified_proof_sha256'', JString proof_sha),
      (''last_verifier_audit'', JObject
        [(''legacy_reference_checks'', JNumber (PosInt legacy_checks)),
         (''statement_checks'', JNumber (PosInt statement_checks)),
         (''structured_reference_audits'', JNumber (PosInt structured_audits))])]"

text \<open>What follows a wrong verdict: a repair, or the return to exploration and the full mode once a
  compact run has failed twice.\<close>

definition after_wrong :: "json \<Rightarrow> object \<Rightarrow> (workflow_state \<times> object \<times> string option) result" where
  "after_wrong run updates =
     (let compact = (metadata_text run ''effective_workflow_mode'' = ''compact'');
          before = metadata_i64 run ''compact_verifier_failures'' 0;
          failures = before + (if compact then 1 else 0) in
      if i64_max < failures then Inl (engine_internal msg_overflow)
      else
        let counted = (if compact then bt_insert ''compact_verifier_failures'' (json_int failures) updates
          else updates) in
        if compact \<and> 2 \<le> failures
        then Inr (Explore,
          bt_insert ''compact_escalated_after_verifier'' (JBool True)
            (bt_insert ''effective_workflow_mode'' (JString ''full'') counted), Some ''full'')
        else Inr (Repair, counted, None))"

definition verification_submitted ::
  "json \<Rightarrow> json \<Rightarrow> json \<Rightarrow> json list \<Rightarrow> object \<Rightarrow> verification_step result" where
  "verification_submitted run submitted manifest audits updates =
     bind_r (from_submitted_report submitted) (\<lambda>d0.
       let server = server_gaps (metadata_i64 run ''workflow_protocol_version'' 1) manifest audits;
           d = fold with_server_gap server d0 in
       bind_r (stored_payload d server) (\<lambda>payload.
         if verdict d = Correct
         then if value_get run ''latex_passed'' \<noteq> Some (JBool True)
           then Inl (with_category Conflict (error_new ''LATEX_GATE_NOT_PASSED'' msg_latex))
           else Inr \<lparr>step_payload = payload, step_verdict = Correct, step_after = Finalize,
             step_updates = updates, step_project_mode = None\<rparr>
         else bind_r (after_wrong run updates) (\<lambda>(after, ups, mode).
           Inr \<lparr>step_payload = payload, step_verdict = Wrong, step_after = after,
             step_updates = ups, step_project_mode = mode\<rparr>)))"

section \<open>Finalizing\<close>

definition msg_changed_proof :: string where
  "msg_changed_proof = ''Draft proof bytes do not match the proof approved by the verifier.''"

definition msg_no_verifier :: string where
  "msg_no_verifier = ''Finalization requires a sealed verifier domain.''"

definition msg_changed_manifest :: string where
  "msg_changed_manifest = ''Proof manifest changed after verifier approval.''"

text \<open>\<open>stored\<close> is the verification report in the vault, \<open>proof_sha\<close> the digest of the draft as it is
  now, \<open>manifest\<close> the manifest record and \<open>sealed\<close> the sealed verifier domains of the run.\<close>

definition manifest_digest :: "json \<Rightarrow> json \<Rightarrow> string option" where
  "manifest_digest run manifest =
     (if 2 \<le> metadata_i64 run ''workflow_protocol_version'' 1
      then Option.bind (value_get manifest ''sha256'') as_str else None)"

definition finalize_gate ::
  "json \<Rightarrow> string \<Rightarrow> json \<Rightarrow> string \<Rightarrow> json \<Rightarrow> json list \<Rightarrow> permit result" where
  "finalize_gate run run_id stored proof_sha manifest sealed =
     (if value_get run ''latex_passed'' \<noteq> Some (JBool True) \<or>
         Option.bind (value_get run ''verdict'') as_str \<noteq> Some ''correct''
      then Inl (gate_denied msg_gates)
      else bind_r (from_submitted_report stored) (\<lambda>d.
        let verified = metadata_text run ''last_verified_proof_sha256'' in
        if verified = [] \<or> verified \<noteq> proof_sha then Inl (gate_denied msg_changed_proof)
        else if sealed = [] then Inl (gate_denied msg_no_verifier)
        else bind_r (finalization_permit d run_id True proof_sha (manifest_digest run manifest)) (\<lambda>p.
          if permit_manifest_sha256 p \<noteq> manifest_digest run manifest
          then Inl (with_category Conflict (error_new ''FINALIZATION_PERMIT_MISMATCH'' msg_changed_manifest))
          else Inr p)))"

section \<open>The computed verdict\<close>

lemma findings_member:
  assumes "findings v label = Inr fs" "f \<in> set fs"
  shows "\<exists>item. finding_of item = Inr f"
proof -
  obtain items where "(case traverse_r finding_of items of Inl e \<Rightarrow> Inl (relabel label e) | Inr fs \<Rightarrow> Inr fs) = Inr fs"
    using assms(1) by (auto simp: findings_def bind_r_eq_Inr)
  then have "traverse_r finding_of items = Inr fs" by (cases "traverse_r finding_of items") auto
  from traverse_r_set [OF this assms(2)] show ?thesis by blast
qed

lemma submitted_verdict:
  assumes "from_submitted_report v = Inr d"
  shows "verdict d = Correct \<longleftrightarrow> critical_errors (report d) = [] \<and> gaps (report d) = []"
    and "verdict d = Wrong \<Longrightarrow> \<not> is_blank (repair_hints (report d))"
    and "\<not> is_blank (summary (report d))"
    and "\<forall>f \<in> set (critical_errors (report d) @ gaps (report d)). \<not> is_blank (location f) \<and> \<not> is_blank (issue f)"
proof -
  have nonblank: "\<not> is_blank t" if "nonempty_text obj key = Inr t" for obj key t
    using that by (auto simp: nonempty_text_def is_blank_def split: option.splits if_splits)
  have item: "\<not> is_blank (location f) \<and> \<not> is_blank (issue f)" if "finding_of item = Inr f" for item f
    using that nonblank by (auto simp: finding_of_def bind_r_eq_Inr)
  have list: "\<forall>f \<in> set fs. \<not> is_blank (location f) \<and> \<not> is_blank (issue f)"
    if "findings v label = Inr fs" for v label fs
    using findings_member [OF that] item by blast
  show "verdict d = Correct \<longleftrightarrow> critical_errors (report d) = [] \<and> gaps (report d) = []"
    "verdict d = Wrong \<Longrightarrow> \<not> is_blank (repair_hints (report d))" "\<not> is_blank (summary (report d))"
    "\<forall>f \<in> set (critical_errors (report d) @ gaps (report d)). \<not> is_blank (location f) \<and> \<not> is_blank (issue f)"
    using assms nonblank list
    by (auto simp: from_submitted_report_def bind_r_eq_Inr split: if_splits)
qed

lemma server_gap_fold:
  "report (fold with_server_gap fs d) = (report d)\<lparr>gaps := gaps (report d) @ fs\<rparr>"
  "verdict (fold with_server_gap fs d) = (if fs = [] then verdict d else Wrong)"
  by (induction fs arbitrary: d) (auto simp: with_server_gap_def)

lemma reference_gap_text:
  assumes "reference_gap audits r = Some f"
  shows "\<not> is_blank (location f) \<and> \<not> is_blank (issue f)"
proof -
  have "\<not> is_blank (''reference:'' @ r)" "\<not> is_blank msg_no_audit" "\<not> is_blank msg_unresolved_audit"
    by (rule not_blank [of "CHR ''e''"]; simp add: ws1_def byte_of_def msg_no_audit_def msg_unresolved_audit_def)+
  then show ?thesis using assms by (auto simp: reference_gap_def split: option.splits if_splits)
qed

lemma server_gaps_text:
  "f \<in> set (server_gaps protocol manifest audits) \<Longrightarrow> \<not> is_blank (location f) \<and> \<not> is_blank (issue f)"
  by (auto simp: server_gaps_def set_map_filter split: if_splits dest: reference_gap_text)

definition trimmed :: "verification_finding \<Rightarrow> verification_finding" where
  "trimmed f = \<lparr>location = trim (location f), issue = trim (issue f)\<rparr>"

lemma findings_reread:
  assumes "\<forall>f \<in> set fs. \<not> is_blank (location f) \<and> \<not> is_blank (issue f)"
  shows "findings (Some (JArray (map finding_json fs))) label = Inr (map trimmed fs)"
proof -
  have "traverse_r finding_of (map finding_json fs) = Inr (map trimmed fs)"
    using assms by (induction fs) (simp_all add: finding_of_def finding_json_def nonempty_text_def is_blank_def trimmed_def)
  then show ?thesis by (simp add: findings_def)
qed

lemma report_reread:
  assumes "\<not> is_blank (summary r)" "v = Wrong \<Longrightarrow> \<not> is_blank hints"
    and "v = Correct \<longleftrightarrow> critical_errors r = [] \<and> gaps r = []"
    and "\<forall>f \<in> set (critical_errors r @ gaps r). \<not> is_blank (location f) \<and> \<not> is_blank (issue f)"
  shows "from_submitted_report (report_json r hints v) = Inr \<lparr>report = \<lparr>summary = trim (summary r),
    critical_errors = map trimmed (critical_errors r), gaps = map trimmed (gaps r),
    repair_hints = (if v = Correct then [] else hints)\<rparr>, verdict = v\<rparr>"
proof (cases v)
  case Correct
  then show ?thesis
    using assms findings_reread [of "[]"]
    by (simp add: from_submitted_report_def report_json_def nonempty_text_def is_blank_def)
next
  case Wrong
  then show ?thesis
    using assms by (auto simp: from_submitted_report_def report_json_def findings_reread nonempty_text_def
        is_blank_def submitted_hints_def)
qed

text \<open>C30. Normalizing a report changes nothing in it: the payload written for a submitted report
  is read back as the same decision, the findings and the hints of the verifier included.\<close>

theorem normalized_report_roundtrip:
  assumes "from_submitted_report v = Inr d"
  shows "from_submitted_report (normalized_payload d) = Inr d"
proof -
  have nonblank: "trim t = t" if "nonempty_text obj key = Inr t" for obj key t
    using that by (auto simp: nonempty_text_def split: option.splits if_splits)
  have item: "trimmed f = f" if "finding_of item = Inr f" for item f
    using that nonblank by (auto simp: finding_of_def bind_r_eq_Inr trimmed_def)
  have list: "map trimmed fs = fs" if "findings v label = Inr fs" for v label fs
    using findings_member [OF that] item by (metis map_idI)
  have "trim (summary (report d)) = summary (report d)"
    "map trimmed (critical_errors (report d)) = critical_errors (report d)"
    "map trimmed (gaps (report d)) = gaps (report d)"
    "verdict d = Correct \<Longrightarrow> repair_hints (report d) = []"
    using assms nonblank list by (auto simp: from_submitted_report_def bind_r_eq_Inr split: if_splits)
  then show ?thesis
    unfolding normalized_payload_def
    using report_reread [of "report d" "verdict d" "repair_hints (report d)"] submitted_verdict [OF assms]
    by auto
qed

definition example_report :: json where
  "example_report = JObject [(''verification_report'', JObject
     [(''critical_errors'', JArray []), (''gaps'', JArray []), (''summary'', JString ''ok'')])]"

definition example_decision :: verification_decision where
  "example_decision = \<lparr>report = \<lparr>summary = ''ok'', critical_errors = [], gaps = [], repair_hints = []\<rparr>,
     verdict = Correct\<rparr>"

lemma example_submitted: "from_submitted_report example_report = Inr example_decision"
proof -
  have "trim ''ok'' = ''ok''" by (simp add: eval_trim)
  then show ?thesis
    by (simp add: example_report_def example_decision_def from_submitted_report_def nonempty_text_def findings_def)
qed

theorem normalized_report_roundtrip_witness:
  "from_submitted_report (normalized_payload example_decision) = Inr example_decision"
  by (rule normalized_report_roundtrip [OF example_submitted])

section \<open>The step after a verification\<close>

text \<open>A reference of the manifest is settled when the latest audit of it has an accepted disposition.\<close>

definition settled :: "json list \<Rightarrow> string \<Rightarrow> bool" where
  "settled audits r \<longleftrightarrow> (\<exists>a. map_of (audit_table audits) r = Some a \<and> audit_accepted a)"

lemma server_gaps_empty:
  "server_gaps protocol manifest audits = [] \<longleftrightarrow>
     (2 \<le> protocol \<longrightarrow> (\<forall>r \<in> set (manifest_references manifest). settled audits r))"
proof -
  have "reference_gap (audit_table audits) r = None \<longleftrightarrow> settled audits r" for r
    by (auto simp: reference_gap_def settled_def split: option.splits)
  moreover have "List.map_filter f xs = [] \<longleftrightarrow> (\<forall>x \<in> set xs. f x = None)" for f :: "string \<Rightarrow> verification_finding option" and xs
    by (induction xs) (auto simp: map_filter_simps split: option.splits)
  ultimately show ?thesis by (simp add: server_gaps_def)
qed

lemma stored_payload_ok:
  assumes "from_submitted_report v = Inr d0" "d = fold with_server_gap (server_gaps protocol manifest audits) d0"
    and "stored_payload d (server_gaps protocol manifest audits) = Inr payload"
  shows "\<exists>d'. from_submitted_report payload = Inr d' \<and> verdict d' = verdict d"
proof -
  note d0 = submitted_verdict [OF assms(1)]
  let ?fs = "server_gaps protocol manifest audits"
  have d: "report d = (report d0)\<lparr>gaps := gaps (report d0) @ ?fs\<rparr>" "verdict d = (if ?fs = [] then verdict d0 else Wrong)"
    using assms(2) by (simp_all add: server_gap_fold)
  obtain hints where payload: "payload = report_json (report d) hints (verdict d)"
    "verdict d = Wrong \<Longrightarrow> \<not> is_blank hints"
  proof (cases "verdict d = Wrong \<and> is_blank (repair_hints (report d))")
    case True
    have "\<not> is_blank (gap_hint ?fs)"
      by (rule not_blank [of "CHR ''R''"]) (simp_all add: ws1_def byte_of_def gap_hint_def msg_resolve_def)
    then show ?thesis using that True assms(3) by (auto simp: stored_payload_def split: if_splits)
  next
    case False
    then show ?thesis using that assms(3) by (auto simp: stored_payload_def normalized_payload_def split: if_splits)
  qed
  have "\<forall>f \<in> set (critical_errors (report d) @ gaps (report d)). \<not> is_blank (location f) \<and> \<not> is_blank (issue f)"
    using d0(4) d(1) server_gaps_text by auto
  moreover have "verdict d = Correct \<longleftrightarrow> critical_errors (report d) = [] \<and> gaps (report d) = []"
    using d0(1) d by auto
  ultimately show ?thesis
    using report_reread [of "report d" "verdict d" hints] payload d0(3) d(1) by auto
qed

lemma after_wrong_state:
  "after_wrong run updates = Inr (after, ups, mode) \<Longrightarrow> after = Explore \<or> after = Repair"
  by (auto simp: after_wrong_def Let_def split: if_splits)

lemma verification_submitted_Inr:
  assumes "verification_submitted run v manifest audits updates = Inr st"
  shows "\<exists>d0 d. from_submitted_report v = Inr d0 \<and>
    d = fold with_server_gap (server_gaps (metadata_i64 run ''workflow_protocol_version'' 1) manifest audits) d0 \<and>
    stored_payload d (server_gaps (metadata_i64 run ''workflow_protocol_version'' 1) manifest audits) = Inr (step_payload st) \<and>
    step_verdict st = verdict d \<and>
    (verdict d = Correct \<longrightarrow> step_after st = Finalize \<and> value_get run ''latex_passed'' = Some (JBool True)) \<and>
    (verdict d = Wrong \<longrightarrow> step_after st = Explore \<or> step_after st = Repair)"
proof -
  let ?server = "server_gaps (metadata_i64 run ''workflow_protocol_version'' 1) manifest audits"
  obtain d0 payload where d0: "from_submitted_report v = Inr d0"
    "stored_payload (fold with_server_gap ?server d0) ?server = Inr payload"
    using assms by (auto simp: verification_submitted_def bind_r_eq_Inr Let_def)
  let ?d = "fold with_server_gap ?server d0"
  have "step_payload st = payload \<and> step_verdict st = verdict ?d \<and>
    (verdict ?d = Correct \<longrightarrow> step_after st = Finalize \<and> value_get run ''latex_passed'' = Some (JBool True)) \<and>
    (verdict ?d = Wrong \<longrightarrow> step_after st = Explore \<or> step_after st = Repair)"
    using assms d0 by (cases "verdict ?d")
      (auto simp: verification_submitted_def bind_r_eq_Inr Let_def split: if_splits dest: after_wrong_state)
  then show ?thesis using d0 by blast
qed

text \<open>C4. The server decides what a verification leads to, not the report: the run goes on to its
  finalization exactly when the report has no critical error and no gap and, from protocol 2 on,
  every reference of the manifest is settled by its latest audit; the LaTeX gate must have passed.
  Every other accepted report leads to a repair or back to exploration, and each of these transitions
  is one the kernel allows from the verification.\<close>

theorem verification_decides_next_state:
  assumes "verification_submitted run v manifest audits updates = Inr st"
  shows "\<exists>d. from_submitted_report v = Inr d \<and>
    (step_after st = Finalize \<longleftrightarrow> critical_errors (report d) = [] \<and> gaps (report d) = [] \<and>
      (2 \<le> metadata_i64 run ''workflow_protocol_version'' 1 \<longrightarrow>
        (\<forall>r \<in> set (manifest_references manifest). settled audits r))) \<and>
    (step_after st = Finalize \<longrightarrow> value_get run ''latex_passed'' = Some (JBool True)) \<and>
    (step_after st \<noteq> Finalize \<longrightarrow> step_after st = Explore \<or> step_after st = Repair) \<and>
    allowed_transition Verify (step_after st)"
proof -
  let ?server = "server_gaps (metadata_i64 run ''workflow_protocol_version'' 1) manifest audits"
  obtain d0 d where d: "from_submitted_report v = Inr d0" "d = fold with_server_gap ?server d0"
    "verdict d = Correct \<longrightarrow> step_after st = Finalize \<and> value_get run ''latex_passed'' = Some (JBool True)"
    "verdict d = Wrong \<longrightarrow> step_after st = Explore \<or> step_after st = Repair"
    using verification_submitted_Inr [OF assms] by blast
  have "verdict d = Correct \<longleftrightarrow> ?server = [] \<and> verdict d0 = Correct"
    using d(2) by (simp add: server_gap_fold)
  then have "step_after st = Finalize \<longleftrightarrow> ?server = [] \<and> critical_errors (report d0) = [] \<and> gaps (report d0) = []"
    using d(3,4) submitted_verdict(1) [OF d(1)] by (cases "verdict d") auto
  moreover have "allowed_transition Verify (step_after st)"
    using d(3,4) by (cases "verdict d") (auto simp: allowed_transition_def allowed_transitions_def)
  ultimately show ?thesis
    using d(1,3,4) unfolding server_gaps_empty by (cases "verdict d") auto
qed

definition example_run :: json where
  "example_run = JObject [(''latex_passed'', JBool True),
     (''metadata'', JObject [(''last_verified_proof_sha256'', JString ''h'')]), (''verdict'', JString ''correct'')]"

lemma example_step:
  "verification_submitted example_run example_report JNull [] [] = Inr
     \<lparr>step_payload = normalized_payload example_decision, step_verdict = Correct, step_after = Finalize,
       step_updates = [], step_project_mode = None\<rparr>"
  by (simp add: verification_submitted_def example_submitted metadata_i64_def run_metadata_def example_run_def
      server_gaps_def stored_payload_def example_decision_def)

theorem verification_decides_next_state_witness:
  "allowed_transition Verify (step_after
     \<lparr>step_payload = normalized_payload example_decision, step_verdict = Correct, step_after = Finalize,
       step_updates = [], step_project_mode = None\<rparr>)"
  using verification_decides_next_state [OF example_step] by blast

text \<open>C2. Only what the server verified is finalized. The gate opens exactly for a run that has
  passed the LaTeX gate with a correct verdict, whose stored report has no finding, whose draft is
  byte for byte the proof that was verified and whose verifier domain is sealed; the permit is bound
  to that proof and the manifest. A report stored by a verification step opens it only if that step
  itself led to the finalization.\<close>

theorem finalize_gate_exact:
  "(finalize_gate run run_id stored sha manifest sealed = Inr p \<longleftrightarrow>
     value_get run ''latex_passed'' = Some (JBool True) \<and>
     value_get run ''verdict'' = Some (JString ''correct'') \<and>
     (\<exists>d. from_submitted_report stored = Inr d \<and> critical_errors (report d) = [] \<and> gaps (report d) = []) \<and>
     sha \<noteq> [] \<and> metadata_text run ''last_verified_proof_sha256'' = sha \<and> sealed \<noteq> [] \<and>
     p = \<lparr>permit_run_id = run_id, permit_proof_sha256 = sha, permit_manifest_sha256 = manifest_digest run manifest\<rparr>) \<and>
   (\<forall>run' v manifest' audits updates st.
     verification_submitted run' v manifest' audits updates = Inr st \<and> stored = step_payload st \<and>
     is_ok (finalize_gate run run_id stored sha manifest sealed) \<longrightarrow> step_after st = Finalize)"
proof -
  have gate: "finalize_gate run run_id stored sha manifest sealed = Inr p \<longleftrightarrow>
     value_get run ''latex_passed'' = Some (JBool True) \<and> value_get run ''verdict'' = Some (JString ''correct'') \<and>
     (\<exists>d. from_submitted_report stored = Inr d \<and> verdict d = Correct) \<and>
     sha \<noteq> [] \<and> metadata_text run ''last_verified_proof_sha256'' = sha \<and> sealed \<noteq> [] \<and>
     p = \<lparr>permit_run_id = run_id, permit_proof_sha256 = sha, permit_manifest_sha256 = manifest_digest run manifest\<rparr>"
    for p
    by (auto simp: finalize_gate_def bind_r_eq_Inr Let_def finalization_permit_def submitted_verdict(1)
        Option.bind_eq_Some_conv split: if_splits)
  have stored: "step_after st = Finalize"
    if st: "verification_submitted run' v manifest' audits updates = Inr st" "stored = step_payload st"
      and ok: "is_ok (finalize_gate run run_id stored sha manifest sealed)" for run' v manifest' audits updates st
  proof -
    obtain d where d: "from_submitted_report (step_payload st) = Inr d" "verdict d = Correct"
      using ok gate st(2) by (auto simp: is_ok_def split: sum.splits)
    obtain d0 d1 where d1: "from_submitted_report v = Inr d0"
      "d1 = fold with_server_gap (server_gaps (metadata_i64 run' ''workflow_protocol_version'' 1) manifest' audits) d0"
      "stored_payload d1 (server_gaps (metadata_i64 run' ''workflow_protocol_version'' 1) manifest' audits) = Inr (step_payload st)"
      "verdict d1 = Correct \<longrightarrow> step_after st = Finalize"
      using verification_submitted_Inr [OF st(1)] by blast
    from stored_payload_ok [OF d1(1-3)] d d1(4) show ?thesis by auto
  qed
  have findings: "(\<exists>d. from_submitted_report stored = Inr d \<and> verdict d = Correct) \<longleftrightarrow>
      (\<exists>d. from_submitted_report stored = Inr d \<and> critical_errors (report d) = [] \<and> gaps (report d) = [])"
    using submitted_verdict(1) by blast
  show ?thesis
  proof (intro conjI allI impI)
    show "step_after st = Finalize"
      if "verification_submitted run' v manifest' audits updates = Inr st \<and> stored = step_payload st \<and>
        is_ok (finalize_gate run run_id stored sha manifest sealed)" for run' v manifest' audits updates st
      using that stored by blast
  qed (simp only: gate findings)
qed

theorem finalize_gate_exact_witness:
  "finalize_gate example_run ''r'' (normalized_payload example_decision) ''h'' JNull [JNull] =
     Inr \<lparr>permit_run_id = ''r'', permit_proof_sha256 = ''h'', permit_manifest_sha256 = None\<rparr> \<and>
   (\<exists>st. verification_submitted example_run example_report JNull [] [] = Inr st \<and> step_after st = Finalize)"
proof -
  have payload: "from_submitted_report (normalized_payload example_decision) = Inr example_decision"
  proof -
    have "trim ''ok'' = ''ok''" by (simp add: eval_trim)
    then show ?thesis
      using report_reread [of "report example_decision" Correct "[]"]
      by (simp add: normalized_payload_def example_decision_def is_blank_def)
  qed
  have run: "value_get example_run ''latex_passed'' = Some (JBool True)"
    "value_get example_run ''verdict'' = Some (JString ''correct'')"
    "metadata_text example_run ''last_verified_proof_sha256'' = ''h''" "manifest_digest example_run JNull = None"
    by (simp_all add: example_run_def metadata_text_def metadata_i64_def run_metadata_def manifest_digest_def)
  note exact = finalize_gate_exact [of example_run "''r''" "normalized_payload example_decision" "''h''" JNull
      "[JNull]" "\<lparr>permit_run_id = ''r'', permit_proof_sha256 = ''h'', permit_manifest_sha256 = None\<rparr>"]
  have opens: "finalize_gate example_run ''r'' (normalized_payload example_decision) ''h'' JNull [JNull] =
      Inr \<lparr>permit_run_id = ''r'', permit_proof_sha256 = ''h'', permit_manifest_sha256 = None\<rparr>"
    using exact [THEN conjunct1] run payload by (simp add: example_decision_def)
  then have "step_after \<lparr>step_payload = normalized_payload example_decision, step_verdict = Correct,
      step_after = Finalize, step_updates = [], step_project_mode = None\<rparr> = Finalize"
    using exact [THEN conjunct2, rule_format, OF conjI [OF example_step conjI]] by simp
  then show ?thesis using opens example_step by blast
qed

end
