(* ===== verification/Research_Types.thy ===== *)
theory Research_Types
  imports Contracts
begin

text \<open>
  The types of the research state, \<open>mtm-workflow/src/research_state.rs\<close> up to the projector: the
  enumerations with their names, the error value with its rendering, identifiers and texts with
  their validation, nodes, attempts and decisions with their builders, and the snapshot of them the
  projector works on. An identifier type is a wrapper of \<open>String\<close> whose only constructor is \<open>parse\<close>; it
  is a string here. A \<open>BTreeSet\<close> is the list of its members in order.
\<close>

section \<open>Limits\<close>

definition research_state_schema_version :: nat where "research_state_schema_version = 1"

definition max_research_nodes :: nat where "max_research_nodes = 256"

definition max_research_edges :: nat where "max_research_edges = 1024"

definition max_research_attempts :: nat where "max_research_attempts = 2048"

definition max_research_decisions :: nat where "max_research_decisions = 256"

definition max_active_plans :: nat where "max_active_plans = 64"

definition max_node_dependencies :: nat where "max_node_dependencies = 64"

definition max_evidence_ids :: nat where "max_evidence_ids = 32"

definition max_decision_plan_ids :: nat where "max_decision_plan_ids = 64"

definition max_decision_node_ids :: nat where "max_decision_node_ids = 64"

definition max_decision_constraints :: nat where "max_decision_constraints = 64"

definition max_identifier_bytes :: nat where "max_identifier_bytes = 128"

definition max_statement_bytes :: nat where "max_statement_bytes = 16384"

definition max_summary_bytes :: nat where "max_summary_bytes = 8192"

definition max_reason_bytes :: nat where "max_reason_bytes = 8192"

definition max_evidence_id_bytes :: nat where "max_evidence_id_bytes = 1024"

section \<open>Enumerations\<close>

datatype node_kind = KindTarget | KindLemma | KindConstruction | KindDefinition

fun node_kind_as_str :: "node_kind \<Rightarrow> string" where
  "node_kind_as_str KindTarget = ''target''"
| "node_kind_as_str KindLemma = ''lemma''"
| "node_kind_as_str KindConstruction = ''construction''"
| "node_kind_as_str KindDefinition = ''definition''"

definition node_kind_parse :: "string \<Rightarrow> node_kind option" where
  "node_kind_parse = map_of [(''target'', KindTarget), (''lemma'', KindLemma),
     (''construction'', KindConstruction), (''definition'', KindDefinition)]"

datatype node_status = NodeOpen | NodePartial | RouteSolved | Refuted | Blocked | Superseded

fun node_status_as_str :: "node_status \<Rightarrow> string" where
  "node_status_as_str NodeOpen = ''open''"
| "node_status_as_str NodePartial = ''partial''"
| "node_status_as_str RouteSolved = ''route_solved''"
| "node_status_as_str Refuted = ''refuted''"
| "node_status_as_str Blocked = ''blocked''"
| "node_status_as_str Superseded = ''superseded''"

definition is_actionable :: "node_status \<Rightarrow> bool" where
  "is_actionable s \<longleftrightarrow> s = NodeOpen \<or> s = NodePartial \<or> s = Blocked"

datatype attempt_method =
  Direct | Reduction | ToyExample | Counterexample | Retrieval | Computation | Synthesis | MethodRepair

fun attempt_method_as_str :: "attempt_method \<Rightarrow> string" where
  "attempt_method_as_str Direct = ''direct''"
| "attempt_method_as_str Reduction = ''reduction''"
| "attempt_method_as_str ToyExample = ''toy_example''"
| "attempt_method_as_str Counterexample = ''counterexample''"
| "attempt_method_as_str Retrieval = ''retrieval''"
| "attempt_method_as_str Computation = ''computation''"
| "attempt_method_as_str Synthesis = ''synthesis''"
| "attempt_method_as_str MethodRepair = ''repair''"

definition attempt_method_parse :: "string \<Rightarrow> attempt_method option" where
  "attempt_method_parse = map_of [(''direct'', Direct), (''reduction'', Reduction),
     (''toy_example'', ToyExample), (''counterexample'', Counterexample), (''retrieval'', Retrieval),
     (''computation'', Computation), (''synthesis'', Synthesis), (''repair'', MethodRepair)]"

datatype attempt_outcome =
  Progress | OutcomeRouteSolved | OutcomeFailed | OutcomeRefuted | Inconclusive

fun attempt_outcome_as_str :: "attempt_outcome \<Rightarrow> string" where
  "attempt_outcome_as_str Progress = ''progress''"
| "attempt_outcome_as_str OutcomeRouteSolved = ''route_solved''"
| "attempt_outcome_as_str OutcomeFailed = ''failed''"
| "attempt_outcome_as_str OutcomeRefuted = ''refuted''"
| "attempt_outcome_as_str Inconclusive = ''inconclusive''"

definition attempt_outcome_parse :: "string \<Rightarrow> attempt_outcome option" where
  "attempt_outcome_parse = map_of [(''progress'', Progress), (''route_solved'', OutcomeRouteSolved),
     (''failed'', OutcomeFailed), (''refuted'', OutcomeRefuted), (''inconclusive'', Inconclusive)]"

datatype research_obstruction =
    FalseClaim | MissingHypothesis | MissingLemma | MissingReference | ComputationalBottleneck
  | NotationMismatch | CircularDependency | IncompatiblePartialResults | NoProgress | Unknown

fun obstruction_as_str :: "research_obstruction \<Rightarrow> string" where
  "obstruction_as_str FalseClaim = ''false_claim''"
| "obstruction_as_str MissingHypothesis = ''missing_hypothesis''"
| "obstruction_as_str MissingLemma = ''missing_lemma''"
| "obstruction_as_str MissingReference = ''missing_reference''"
| "obstruction_as_str ComputationalBottleneck = ''computational_bottleneck''"
| "obstruction_as_str NotationMismatch = ''notation_mismatch''"
| "obstruction_as_str CircularDependency = ''circular_dependency''"
| "obstruction_as_str IncompatiblePartialResults = ''incompatible_partial_results''"
| "obstruction_as_str NoProgress = ''no_progress''"
| "obstruction_as_str Unknown = ''unknown''"

definition obstruction_parse :: "string \<Rightarrow> research_obstruction option" where
  "obstruction_parse = map_of [(''false_claim'', FalseClaim), (''missing_hypothesis'', MissingHypothesis),
     (''missing_lemma'', MissingLemma), (''missing_reference'', MissingReference),
     (''computational_bottleneck'', ComputationalBottleneck), (''notation_mismatch'', NotationMismatch),
     (''circular_dependency'', CircularDependency),
     (''incompatible_partial_results'', IncompatiblePartialResults),
     (''no_progress'', NoProgress), (''unknown'', Unknown)]"

section \<open>Errors\<close>

datatype research_error =
    InvalidIdentifier string string
  | InvalidText string string
  | LimitExceeded string nat nat
  | DuplicateIdentifier string string
  | MissingTarget
  | MultipleTargets
  | TargetKindMismatch
  | SupersededTarget
  | UnknownDependency string string
  | UnknownAttemptNode string string
  | UnknownDecisionNode string string
  | UnknownDecisionPlan string string
  | UnknownActivePlan string
  | InvalidRevision string
  | MalformedLegacyRecord string string
  | MalformedProtocolRecord string string
  | ActiveDependencyCycle "string list"
  | Serialization

type_synonym 'a research = "research_error + 'a"

fun research_error_display :: "research_error \<Rightarrow> string" where
  "research_error_display (InvalidIdentifier k reason) = ''invalid '' @ k @ '': '' @ reason"
| "research_error_display (InvalidText field reason) = ''invalid '' @ field @ '': '' @ reason"
| "research_error_display (LimitExceeded k bound actual) =
     k @ '' exceeds limit '' @ show_nat bound @ '': received '' @ show_nat actual"
| "research_error_display (DuplicateIdentifier k i) = ''duplicate '' @ k @ '': '' @ i"
| "research_error_display MissingTarget = ''research target node is missing''"
| "research_error_display MultipleTargets = ''research state contains multiple targets''"
| "research_error_display TargetKindMismatch = ''target_node_id does not identify a target node''"
| "research_error_display SupersededTarget = ''research target cannot be superseded''"
| "research_error_display (UnknownDependency n d) = ''node '' @ n @ '' references unknown dependency '' @ d"
| "research_error_display (UnknownAttemptNode a n) = ''attempt '' @ a @ '' references unknown node '' @ n"
| "research_error_display (UnknownDecisionNode d n) = ''decision '' @ d @ '' references unknown node '' @ n"
| "research_error_display (UnknownDecisionPlan d p) = ''decision '' @ d @ '' references unknown plan '' @ p"
| "research_error_display (UnknownActivePlan p) = ''active research plan has no declared node: '' @ p"
| "research_error_display (InvalidRevision n) = ''research node '' @ n @ '' has revision zero''"
| "research_error_display (MalformedLegacyRecord l reason) =
     ''malformed legacy research record at '' @ l @ '': '' @ reason"
| "research_error_display (MalformedProtocolRecord l reason) =
     ''malformed protocol-3 research record at '' @ l @ '': '' @ reason"
| "research_error_display (ActiveDependencyCycle c) = ''active research dependency cycle: '' @ join '' -> '' c"
| "research_error_display Serialization = ''research-state serialization failed''"

section \<open>Identifiers and texts\<close>

definition identifier_char :: "char \<Rightarrow> bool" where
  "identifier_char c \<longleftrightarrow> is_ascii_alphanumeric c \<or> c \<in> {CHR ''-'', CHR ''_'', CHR ''.'', CHR '':''}"

definition msg_first_char :: string where
  "msg_first_char = ''identifier must start with an ASCII alphanumeric character''"

definition validate_identifier :: "string \<Rightarrow> string \<Rightarrow> unit research" where
  "validate_identifier k v =
     (if v = [] then Inl (InvalidIdentifier k ''identifier is empty'')
      else if max_identifier_bytes < length v then Inl (InvalidIdentifier k ''identifier is too long'')
      else if \<not> is_ascii_alphanumeric (hd v) then Inl (InvalidIdentifier k msg_first_char)
      else if \<not> list_all identifier_char (tl v)
      then Inl (InvalidIdentifier k ''identifier contains unsupported characters'')
      else Inr ())"

definition identifier_parse :: "string \<Rightarrow> string \<Rightarrow> string research" where
  "identifier_parse k v = bind_r (validate_identifier k v) (\<lambda>_. Inr v)"

abbreviation (input) node_id_parse where "node_id_parse \<equiv> identifier_parse ''research_node_id''"

abbreviation (input) attempt_id_parse where "attempt_id_parse \<equiv> identifier_parse ''research_attempt_id''"

abbreviation (input) decision_id_parse where "decision_id_parse \<equiv> identifier_parse ''research_decision_id''"

abbreviation (input) plan_id_parse where "plan_id_parse \<equiv> identifier_parse ''research_plan_id''"

abbreviation (input) domain_id_parse where "domain_id_parse \<equiv> identifier_parse ''research_domain_id''"

definition validate_text :: "string \<Rightarrow> string \<Rightarrow> nat \<Rightarrow> bool \<Rightarrow> unit research" where
  "validate_text field v bound allow_empty =
     (if \<not> allow_empty \<and> is_blank v then Inl (InvalidText field ''value is empty'')
      else if bound < length v then Inl (InvalidText field ''value is too long'')
      else if nul \<in> set v then Inl (InvalidText field ''value contains a NUL byte'')
      else Inr ())"

definition within_limit :: "string \<Rightarrow> nat \<Rightarrow> nat \<Rightarrow> unit research" where
  "within_limit k actual maximum = (if maximum < actual then Inl (LimitExceeded k maximum actual) else Inr ())"

section \<open>Nodes\<close>

record research_node =
  node_id :: string
  statement :: string
  node_kind :: node_kind
  plan_id :: "string option"
  dependencies :: "string list"
  declared_critical :: "bool option"
  node_status :: node_status
  revision :: nat
  node_created_round :: nat
  plan_order :: nat
  node_order :: nat
  latest_event_seq :: nat

definition node_new :: "string \<Rightarrow> string \<Rightarrow> node_kind \<Rightarrow> research_node research" where
  "node_new i stmt k =
     bind_r (validate_text ''node.statement'' stmt max_statement_bytes False) (\<lambda>_.
       Inr \<lparr>node_id = i, statement = trim stmt, node_kind = k, plan_id = None, dependencies = [],
         declared_critical = None, node_status = NodeOpen, revision = 1, node_created_round = 0,
         plan_order = 0, node_order = 0, latest_event_seq = 0\<rparr>)"

definition with_plan :: "string \<Rightarrow> research_node \<Rightarrow> research_node" where
  "with_plan p n = n\<lparr>plan_id := Some p\<rparr>"

definition with_dependency :: "string \<Rightarrow> research_node \<Rightarrow> research_node" where
  "with_dependency d n = n\<lparr>dependencies := bs_insert d (dependencies n)\<rparr>"

definition with_declared_critical :: "bool \<Rightarrow> research_node \<Rightarrow> research_node" where
  "with_declared_critical c n = n\<lparr>declared_critical := Some c\<rparr>"

definition with_status :: "node_status \<Rightarrow> research_node \<Rightarrow> research_node" where
  "with_status s n = n\<lparr>node_status := s\<rparr>"

definition with_revision :: "nat \<Rightarrow> nat \<Rightarrow> research_node \<Rightarrow> research_node" where
  "with_revision r e n = n\<lparr>revision := r, latest_event_seq := e\<rparr>"

definition with_order :: "nat \<Rightarrow> nat \<Rightarrow> nat \<Rightarrow> research_node \<Rightarrow> research_node" where
  "with_order r p i n = n\<lparr>node_created_round := r, plan_order := p, node_order := i\<rparr>"

section \<open>Attempts\<close>

record research_attempt =
  attempt_id :: string
  attempt_node_id :: string
  actor_domain_id :: string
  attempt_method :: attempt_method
  attempt_outcome :: attempt_outcome
  attempt_summary :: string
  obstruction :: "research_obstruction option"
  evidence_ids :: "string list"
  attempt_created_round :: nat
  attempt_event_seq :: nat

definition attempt_new ::
  "string \<Rightarrow> string \<Rightarrow> string \<Rightarrow> attempt_method \<Rightarrow> attempt_outcome \<Rightarrow> string \<Rightarrow> research_attempt research" where
  "attempt_new a n d m out sm =
     bind_r (validate_text ''attempt.summary'' sm max_summary_bytes False) (\<lambda>_.
       Inr \<lparr>attempt_id = a, attempt_node_id = n, actor_domain_id = d, attempt_method = m,
         attempt_outcome = out, attempt_summary = trim sm, obstruction = None, evidence_ids = [],
         attempt_created_round = 0, attempt_event_seq = 0\<rparr>)"

definition with_obstruction :: "research_obstruction \<Rightarrow> research_attempt \<Rightarrow> research_attempt" where
  "with_obstruction b a = a\<lparr>obstruction := Some b\<rparr>"

definition with_evidence :: "string \<Rightarrow> research_attempt \<Rightarrow> research_attempt research" where
  "with_evidence e a =
     bind_r (validate_text ''attempt.evidence_id'' e max_evidence_id_bytes False) (\<lambda>_.
       if max_evidence_ids \<le> length (evidence_ids a) \<and> trim e \<notin> set (evidence_ids a)
       then Inl (LimitExceeded ''attempt_evidence_ids'' max_evidence_ids (length (evidence_ids a) + 1))
       else Inr (a\<lparr>evidence_ids := bs_insert (trim e) (evidence_ids a)\<rparr>))"

definition with_position :: "nat \<Rightarrow> nat \<Rightarrow> research_attempt \<Rightarrow> research_attempt" where
  "with_position r e a = a\<lparr>attempt_created_round := r, attempt_event_seq := e\<rparr>"

section \<open>Decisions\<close>

record research_decision =
  decision_id :: string
  superseded_plan_ids :: "string list"
  preserved_node_ids :: "string list"
  new_constraints :: "string list"
  selected_focus_node_id :: "string option"
  decision_reason :: string
  decision_event_seq :: nat

definition decision_new :: "string \<Rightarrow> string \<Rightarrow> research_decision research" where
  "decision_new i reason =
     bind_r (validate_text ''decision.reason'' reason max_reason_bytes False) (\<lambda>_.
       Inr \<lparr>decision_id = i, superseded_plan_ids = [], preserved_node_ids = [], new_constraints = [],
         selected_focus_node_id = None, decision_reason = trim reason, decision_event_seq = 0\<rparr>)"

definition supersede_plan :: "string \<Rightarrow> research_decision \<Rightarrow> research_decision" where
  "supersede_plan p d = d\<lparr>superseded_plan_ids := bs_insert p (superseded_plan_ids d)\<rparr>"

definition preserve_node :: "string \<Rightarrow> research_decision \<Rightarrow> research_decision" where
  "preserve_node n d = d\<lparr>preserved_node_ids := bs_insert n (preserved_node_ids d)\<rparr>"

definition add_constraint :: "string \<Rightarrow> research_decision \<Rightarrow> research_decision research" where
  "add_constraint c d =
     bind_r (validate_text ''decision.new_constraint'' c max_summary_bytes False) (\<lambda>_.
       Inr (d\<lparr>new_constraints := bs_insert (trim c) (new_constraints d)\<rparr>))"

definition focus_on :: "string \<Rightarrow> research_decision \<Rightarrow> research_decision" where
  "focus_on n d = d\<lparr>selected_focus_node_id := Some n\<rparr>"

definition with_event_seq :: "nat \<Rightarrow> research_decision \<Rightarrow> research_decision" where
  "with_event_seq e d = d\<lparr>decision_event_seq := e\<rparr>"

section \<open>Snapshots\<close>

record research_snapshot =
  snap_target :: string
  snap_nodes :: "research_node list"
  snap_attempts :: "research_attempt list"
  snap_decisions :: "research_decision list"
  snap_active_plans :: "string list"

definition snapshot_new :: "string \<Rightarrow> research_snapshot" where
  "snapshot_new t = \<lparr>snap_target = t, snap_nodes = [], snap_attempts = [], snap_decisions = [],
     snap_active_plans = []\<rparr>"

definition with_node :: "research_node \<Rightarrow> research_snapshot \<Rightarrow> research_snapshot" where
  "with_node n s = s\<lparr>snap_nodes := snap_nodes s @ [n]\<rparr>"

definition with_attempt :: "research_attempt \<Rightarrow> research_snapshot \<Rightarrow> research_snapshot" where
  "with_attempt a s = s\<lparr>snap_attempts := snap_attempts s @ [a]\<rparr>"

definition with_decision :: "research_decision \<Rightarrow> research_snapshot \<Rightarrow> research_snapshot" where
  "with_decision d s = s\<lparr>snap_decisions := snap_decisions s @ [d]\<rparr>"

definition with_active_plan :: "string \<Rightarrow> research_snapshot \<Rightarrow> research_snapshot" where
  "with_active_plan p s = s\<lparr>snap_active_plans := bs_insert p (snap_active_plans s)\<rparr>"

section \<open>Facts about the types\<close>

text \<open>Every name the enumerations are written with is read back as the same member.\<close>

lemma node_kind_roundtrip [simp]: "node_kind_parse (node_kind_as_str k) = Some k"
  by (cases k) (simp_all add: node_kind_parse_def)

lemma attempt_method_roundtrip [simp]: "attempt_method_parse (attempt_method_as_str m) = Some m"
  by (cases m) (simp_all add: attempt_method_parse_def)

lemma attempt_outcome_roundtrip [simp]: "attempt_outcome_parse (attempt_outcome_as_str out) = Some out"
  by (cases out) (simp_all add: attempt_outcome_parse_def)

lemma obstruction_roundtrip [simp]: "obstruction_parse (obstruction_as_str b) = Some b"
  by (cases b) (simp_all add: obstruction_parse_def)

lemma validate_text_ok:
  "validate_text field v bound allow = Inr u \<longleftrightarrow>
     (allow \<or> \<not> is_blank v) \<and> length v \<le> bound \<and> nul \<notin> set v"
  by (auto simp: validate_text_def)

lemma within_limit_ok [simp]: "within_limit k n m = Inr u \<longleftrightarrow> n \<le> m"
  by (auto simp: within_limit_def)

end
