(* ===== verification/Research_Graph.thy ===== *)
theory Research_Graph
  imports Research_Types Strong_Components Kahn
begin

text \<open>
  The dependency graph of a research state (\<open>research_state.rs\<close>): the two adjacency maps built from
  the nodes that are not superseded (\<open>build_graph\<close>), the stable order of nodes and identifiers, the
  cyclic components, the topological order, and the propagation of route issues along the
  dependents (\<open>route_issues\<close>). \<open>nodes[id]\<close> is \<open>node_at\<close>; it is only used for identifiers of the map.
\<close>

type_synonym node_map = "(string \<times> research_node) list"

definition node_at :: "node_map \<Rightarrow> string \<Rightarrow> research_node" where
  "node_at ns i = the (map_of ns i)"

section \<open>Stable orders\<close>

type_synonym node_key = "nat \<times> nat \<times> nat \<times> string"

definition stable_key :: "research_node \<Rightarrow> node_key" where
  "stable_key n = (node_created_round n, plan_order n, node_order n, node_id n)"

definition stable_node_ids :: "research_node list \<Rightarrow> string list" where
  "stable_node_ids ns = map node_id (sort_key stable_key ns)"

definition critical_key :: "node_map \<Rightarrow> string set option \<Rightarrow> string \<Rightarrow> bool \<times> nat \<times> nat \<times> nat \<times> string" where
  "critical_key ns critical i =
     ((case critical of None \<Rightarrow> False | Some items \<Rightarrow> i \<notin> items),
      node_created_round (node_at ns i), plan_order (node_at ns i), node_order (node_at ns i), i)"

definition ordered_ids :: "string list \<Rightarrow> node_map \<Rightarrow> string set option \<Rightarrow> string list" where
  "ordered_ids ids ns critical = sort_key (critical_key ns critical) ids"

lemma set_ordered_ids [simp]: "set (ordered_ids ids ns critical) = set ids"
  by (simp add: ordered_ids_def)

lemma distinct_ordered_ids [simp]: "distinct (ordered_ids ids ns critical) = distinct ids"
  by (simp add: ordered_ids_def)

section \<open>The adjacency maps\<close>

type_synonym graph_maps = "string graph \<times> string graph \<times> (string \<times> string) list"

definition is_active :: "research_node \<Rightarrow> bool" where
  "is_active n \<longleftrightarrow> node_status n \<noteq> Superseded"

definition empty_graph :: "node_map \<Rightarrow> string graph" where
  "empty_graph ns = bt_collect (map (\<lambda>n. (node_id n, [])) (filter is_active (map snd ns)))"

definition add_dependency :: "node_map \<Rightarrow> research_node \<Rightarrow> string \<Rightarrow> graph_maps \<Rightarrow> graph_maps research" where
  "add_dependency ns n d maps = (case maps of (deps, dependents, seeds) \<Rightarrow>
     bind_r (ok_or (map_of ns d) (UnknownDependency (node_id n) d)) (\<lambda>dependency.
       if \<not> is_active dependency then Inr (deps, dependents, seeds @ [(node_id n, d)])
       else bind_r (ok_or (map_of deps (node_id n)) Serialization) (\<lambda>items.
            bind_r (ok_or (map_of dependents d) Serialization) (\<lambda>back_items.
              Inr (bt_insert (node_id n) (bs_insert d items) deps,
                bt_insert d (bs_insert (node_id n) back_items) dependents, seeds)))))"

definition add_node :: "node_map \<Rightarrow> research_node \<Rightarrow> graph_maps \<Rightarrow> graph_maps research" where
  "add_node ns n maps =
     (if \<not> is_active n then Inr maps else fold_r (add_dependency ns n) (dependencies n) maps)"

definition build_graph :: "node_map \<Rightarrow> graph_maps research" where
  "build_graph ns = fold_r (add_node ns) (map snd ns) (empty_graph ns, empty_graph ns, [])"

section \<open>Cycles\<close>

definition on_cycle :: "string graph \<Rightarrow> string list \<Rightarrow> bool" where
  "on_cycle deps component \<longleftrightarrow> 1 < length component \<or>
     length component = 1 \<and> hd component \<in> set (adj deps (hd component))"

definition cycle_components :: "string graph \<Rightarrow> string graph \<Rightarrow> string list \<Rightarrow> node_map \<Rightarrow> string list list" where
  "cycle_components deps dependents stable_ids ns =
     sort_key (\<lambda>component. stable_key (node_at ns (hd component)))
       (map (sort_key (\<lambda>i. stable_key (node_at ns i)))
         (filter (on_cycle deps) (strong_components deps dependents stable_ids)))"

section \<open>Topological order\<close>

text \<open>The ready set is ordered by the stable keys of its nodes, which end with the identifier.\<close>

fun ready_insert :: "('k \<Rightarrow> 'o::linorder) \<Rightarrow> 'k \<Rightarrow> 'k list \<Rightarrow> 'k list" where
  "ready_insert key x [] = [x]"
| "ready_insert key x (y # ys) =
     (if key x < key y then x # y # ys else if key x = key y then y # ys else y # ready_insert key x ys)"

text \<open>The key of \<open>nodes[i]\<close>, whose identifier is \<open>i\<close>.\<close>

definition ready_key :: "node_map \<Rightarrow> string \<Rightarrow> node_key" where
  "ready_key ns i = (node_created_round (node_at ns i), plan_order (node_at ns i), node_order (node_at ns i), i)"

definition research_relax :: "node_map \<Rightarrow> string \<Rightarrow> string kahn \<Rightarrow> research_error + string kahn" where
  "research_relax ns child s = Inr
     (case map_of (counts s) child of
        None \<Rightarrow> s
      | Some count \<Rightarrow>
          s\<lparr>counts := bt_insert child (count - 1) (counts s),
            ready := (if count - 1 = 0
              then ready_insert (ready_key ns) child (ready s) else ready s)\<rparr>)"

definition research_start :: "string graph \<Rightarrow> node_map \<Rightarrow> string kahn" where
  "research_start deps ns =
     (let remaining = map (\<lambda>(i, items). (i, length items)) deps in
      \<lparr>counts = remaining,
       ready = fold (\<lambda>(i, count) r. if count = 0 then ready_insert (ready_key ns) i r else r)
         remaining [],
       emitted = []\<rparr>)"

definition topological_order :: "string graph \<Rightarrow> string graph \<Rightarrow> node_map \<Rightarrow> string list option" where
  "topological_order deps dependents ns =
     (case kahn_loop (research_relax ns) (adj dependents) (research_start deps ns) of
        Some (Inr s) \<Rightarrow> Some (emitted s) | _ \<Rightarrow> None)"

section \<open>Route issues\<close>

datatype route_issue_kind = RefutedDependency | DependencyCycle | SupersededDependency

fun issue_index :: "route_issue_kind \<Rightarrow> nat" where
  "issue_index RefutedDependency = 0"
| "issue_index DependencyCycle = 1"
| "issue_index SupersededDependency = 2"

lemma issue_index_inj: "issue_index a = issue_index b \<Longrightarrow> a = b"
  by (cases a; cases b) simp_all

instantiation route_issue_kind :: linorder
begin

definition less_eq_route_issue_kind where "a \<le> b \<longleftrightarrow> issue_index a \<le> issue_index b"

definition less_route_issue_kind where "a < b \<longleftrightarrow> issue_index a < issue_index b"

instance
  by standard (auto simp: less_eq_route_issue_kind_def less_route_issue_kind_def intro: issue_index_inj)

end

text \<open>An issue is its kind and the node it comes from, ordered in this order.\<close>

type_synonym route_issue = "route_issue_kind \<times> string"

type_synonym issue_map = "(string \<times> route_issue list) list"

definition issues_of :: "issue_map \<Rightarrow> string \<Rightarrow> route_issue list" where
  "issues_of issues i = (case map_of issues i of None \<Rightarrow> [] | Some is \<Rightarrow> is)"

definition known_issues :: "issue_map \<Rightarrow> (string \<times> route_issue) set" where
  "known_issues issues = {(i, x). x \<in> set (issues_of issues i)}"

lemma finite_known_issues [simp]: "finite (known_issues issues)"
proof -
  have "known_issues issues \<subseteq> (\<Union>(i, is) \<in> set issues. {i} \<times> set is)"
  proof
    fix e assume "e \<in> known_issues issues"
    then obtain i x where e: "e = (i, x)" "x \<in> set (issues_of issues i)"
      by (auto simp: known_issues_def)
    then obtain xs where xs: "map_of issues i = Some xs" "x \<in> set xs"
      by (cases "map_of issues i") (simp_all add: issues_of_def)
    then show "e \<in> (\<Union>(i, is) \<in> set issues. {i} \<times> set is)"
      using map_of_SomeD [OF xs(1)] xs(2) e(1) by (intro UN_I [of "(i, xs)"]) auto
  qed
  then show ?thesis by (rule finite_subset) auto
qed

lemma known_issues_insert:
  "known_issues (bt_insert i (bs_insert x (issues_of issues i)) issues) = insert (i, x) (known_issues issues)"
proof -
  have "issues_of (bt_insert i (bs_insert x (issues_of issues i)) issues) j =
      (if j = i then bs_insert x (issues_of issues i) else issues_of issues j)" for j
    by (simp add: issues_of_def)
  then show ?thesis by (auto simp: known_issues_def split: if_splits)
qed

text \<open>The queue is a list with its front first.\<close>

function propagate :: "string graph \<Rightarrow> (string \<times> route_issue) list \<Rightarrow> issue_map \<Rightarrow> issue_map" where
  "propagate dependents [] issues = issues"
| "propagate dependents ((i, x) # pending) issues =
     (if x \<in> set (issues_of issues i) then propagate dependents pending issues
      else propagate dependents (pending @ map (\<lambda>d. (d, x)) (adj dependents i))
        (bt_insert i (bs_insert x (issues_of issues i)) issues))"
  by pat_completeness auto

definition open_issues :: "string graph \<Rightarrow> (string \<times> route_issue) list \<Rightarrow> issue_map \<Rightarrow> nat" where
  "open_issues g pending issues = card (keys g \<times> snd ` set pending - known_issues issues)"

lemma open_issues_le:
  assumes "snd ` set pending \<subseteq> snd ` set pending'" "known_issues issues' \<subseteq> known_issues issues"
  shows "open_issues g pending issues \<le> open_issues g pending' issues'"
  unfolding open_issues_def using assms by (intro card_mono) (auto intro!: finite_cartesian_product)

lemma open_issues_less:
  assumes "snd ` set pending \<subseteq> snd ` set pending'" "known_issues issues = insert (i, x) (known_issues issues')"
    and "i \<in> keys g" "(i, x) \<in> set pending'" "(i, x) \<notin> known_issues issues'"
  shows "open_issues g pending issues < open_issues g pending' issues'"
proof -
  have "x \<in> snd ` set pending'" using assms(4) by force
  then have mem: "(i, x) \<in> keys g \<times> snd ` set pending' - known_issues issues'" using assms(3,5) by blast
  then have "keys g \<times> snd ` set pending - known_issues issues \<subset>
      keys g \<times> snd ` set pending' - known_issues issues'"
    using assms(1,2) by blast
  then show ?thesis unfolding open_issues_def by (intro psubset_card_mono) simp_all
qed

termination propagate
proof (relation "measures [\<lambda>(g, pending, issues). open_issues g pending issues, \<lambda>(_, pending, _). length pending]",
    goal_cases)
  case (2 g i x pending issues)
  have "open_issues g pending issues \<le> open_issues g ((i, x) # pending) issues"
    by (rule open_issues_le) auto
  then show ?case by auto
next
  case (3 g i x pending issues)
  let ?pending = "pending @ map (\<lambda>d. (d, x)) (adj g i)"
  let ?issues = "bt_insert i (bs_insert x (issues_of issues i)) issues"
  have sub: "snd ` set ?pending \<subseteq> snd ` set ((i, x) # pending)" by auto
  show ?case
  proof (cases "i \<in> keys g")
    case True
    then have "open_issues g ?pending ?issues < open_issues g ((i, x) # pending) issues"
      using 3 by (intro open_issues_less [OF sub known_issues_insert]) (auto simp: known_issues_def)
    then show ?thesis by simp
  next
    case False
    have "open_issues g ?pending ?issues \<le> open_issues g ((i, x) # pending) issues"
      by (intro open_issues_le [OF sub]) (auto simp: known_issues_insert)
    then show ?thesis using False by (simp add: adj_no_key le_less)
  qed
qed simp

text \<open>The seeds, in the order of the source: refuted nodes, members of cycles (with the first of the
  component as the source of the issue), dependencies on superseded nodes.\<close>

definition refuted_seeds :: "node_map \<Rightarrow> (string \<times> route_issue) list" where
  "refuted_seeds ns = map (\<lambda>n. (node_id n, RefutedDependency, node_id n))
     (filter (\<lambda>n. node_status n = Refuted) (map snd ns))"

definition cycle_seeds :: "string list list \<Rightarrow> (string \<times> route_issue) list" where
  "cycle_seeds components = concat (map (\<lambda>component.
     case component of [] \<Rightarrow> [] | s # _ \<Rightarrow> map (\<lambda>i. (i, DependencyCycle, s)) component) components)"

definition superseded_issues :: "(string \<times> string) list \<Rightarrow> (string \<times> route_issue) list" where
  "superseded_issues seeds = map (\<lambda>(i, d). (i, SupersededDependency, d)) seeds"

definition route_issues ::
  "node_map \<Rightarrow> string graph \<Rightarrow> string list list \<Rightarrow> (string \<times> string) list \<Rightarrow> issue_map" where
  "route_issues ns dependents components seeds =
     propagate dependents (refuted_seeds ns @ cycle_seeds components @ superseded_issues seeds) []"

end
