(* ===== verification/Research_Graph_Laws.thy ===== *)
theory Research_Graph_Laws
  imports Research_Graph
begin

text \<open>
  What the graph operations of the research state compute, for a node map in which every node stands
  under its own identifier and depends on nodes of the map: the adjacency maps are the dependencies
  between active nodes in both directions (\<open>build_graph_built\<close>), the cyclic components are the strongly
  connected components that have a cycle (\<open>cycle_components_exact\<close>), the topological order has the
  nodes that do not lead into a cycle (\<open>topological_order_exact\<close>), and an issue is listed for a node
  exactly when the node leads to a seed of it (\<open>propagate_exact\<close>).
\<close>

section \<open>Well-formed node maps\<close>

definition wf_nodes :: "node_map \<Rightarrow> bool" where
  "wf_nodes ns \<longleftrightarrow> sorted_keys ns \<and>
     (\<forall>(i, n) \<in> set ns. node_id n = i \<and> set (dependencies n) \<subseteq> set (map fst ns))"

definition active_ids :: "node_map \<Rightarrow> string set" where
  "active_ids ns = {i. \<exists>n. map_of ns i = Some n \<and> is_active n}"

text \<open>The dependencies of active nodes, and those of them between active nodes.\<close>

definition raw_deps :: "node_map \<Rightarrow> (string \<times> string) set" where
  "raw_deps ns = {(x, d). \<exists>n. map_of ns x = Some n \<and> is_active n \<and> d \<in> set (dependencies n)}"

definition active_deps :: "node_map \<Rightarrow> (string \<times> string) set" where
  "active_deps ns = {(x, d) \<in> raw_deps ns. d \<in> active_ids ns}"

lemma wf_nodes_member: "wf_nodes ns \<Longrightarrow> (i, n) \<in> set ns \<longleftrightarrow> map_of ns i = Some n"
  using map_of_eq_Some_iff [OF sorted_keys_distinct, of ns i n] by (simp add: wf_nodes_def)

lemma wf_nodes_id: "wf_nodes ns \<Longrightarrow> map_of ns i = Some n \<Longrightarrow> node_id n = i"
  by (auto simp: wf_nodes_def dest: map_of_SomeD)

lemma wf_nodes_dep:
  assumes "wf_nodes ns" "map_of ns i = Some n" "d \<in> set (dependencies n)"
  shows "\<exists>m. map_of ns d = Some m"
proof -
  have "(i, n) \<in> set ns" using assms(2) by (rule map_of_SomeD)
  then have "d \<in> set (map fst ns)" using assms(1,3) unfolding wf_nodes_def by blast
  then show ?thesis by (cases "map_of ns d") (auto simp: map_of_eq_None_iff)
qed

lemma node_at_eq [simp]: "map_of ns i = Some n \<Longrightarrow> node_at ns i = n"
  by (simp add: node_at_def)

lemma finite_active_ids [simp]: "finite (active_ids ns)"
  by (rule finite_subset [of _ "dom (map_of ns)"]) (auto simp: active_ids_def finite_dom_map_of)

lemma active_deps_active: "(x, d) \<in> active_deps ns \<Longrightarrow> x \<in> active_ids ns \<and> d \<in> active_ids ns"
  by (auto simp: active_deps_def raw_deps_def active_ids_def)

lemma finite_active_deps [simp]: "finite (active_deps ns)"
  by (rule finite_subset [of _ "active_ids ns \<times> active_ids ns"]) (auto dest: active_deps_active)

section \<open>The adjacency maps\<close>

text \<open>The maps after the dependencies in \<open>P\<close> have been added.\<close>

definition built :: "node_map \<Rightarrow> (string \<times> string) set \<Rightarrow> graph_maps \<Rightarrow> bool" where
  "built ns P maps \<longleftrightarrow> (case maps of (deps, dependents, seeds) \<Rightarrow>
     keys deps = active_ids ns \<and> keys dependents = active_ids ns \<and> sorted_keys deps \<and>
     (\<forall>x. set (adj deps x) = {d. (x, d) \<in> P \<and> d \<in> active_ids ns}) \<and>
     (\<forall>d. set (adj dependents d) = {x. (x, d) \<in> P \<and> d \<in> active_ids ns}) \<and>
     (\<forall>x. sorted_wrt (<) (adj deps x)) \<and> (\<forall>x. sorted_wrt (<) (adj dependents x)) \<and>
     set seeds = {(x, d) \<in> P. d \<notin> active_ids ns})"

lemma adj_bt_insert: "adj (bt_insert i xs g) x = (if x = i then xs else adj g x)"
  by (simp add: adj_def)

lemma keys_insert [simp]: "keys (bt_insert i xs g) = insert i (keys g)"
  unfolding keys_def by (rule keys_bt_insert)

lemma keys_map_of: "i \<in> keys g \<Longrightarrow> map_of g i = Some (adj g i)"
  by (cases "map_of g i") (auto simp: adj_def keys_def map_of_eq_None_iff)

lemma add_dependency_built:
  assumes "built ns P maps" "map_of ns x = Some n" "node_id n = x" "is_active n" "map_of ns d = Some m"
  shows "\<exists>maps'. add_dependency ns n d maps = Inr maps' \<and> built ns (insert (x, d) P) maps'"
proof -
  obtain deps dependents seeds where maps: "maps = (deps, dependents, seeds)" using prod_cases3 by blast
  have x: "x \<in> active_ids ns" using assms by (auto simp: active_ids_def)
  have d: "d \<in> active_ids ns \<longleftrightarrow> is_active m" using assms by (auto simp: active_ids_def)
  show ?thesis
  proof (cases "is_active m")
    case False
    then show ?thesis
      using assms d by (auto simp: add_dependency_def maps built_def)
  next
    case True
    then have "map_of deps x = Some (adj deps x)" "map_of dependents d = Some (adj dependents d)"
      using assms(1) x d maps by (auto simp: built_def intro: keys_map_of)
    then have "add_dependency ns n d maps = Inr (bt_insert x (bs_insert d (adj deps x)) deps,
        bt_insert d (bs_insert x (adj dependents d)) dependents, seeds)"
      using True assms by (simp add: add_dependency_def maps)
    moreover have "built ns (insert (x, d) P) (bt_insert x (bs_insert d (adj deps x)) deps,
        bt_insert d (bs_insert x (adj dependents d)) dependents, seeds)"
      using assms(1) x d True unfolding maps built_def
      by (auto simp: adj_bt_insert sorted_bt_insert sorted_bs_insert)
    ultimately show ?thesis by blast
  qed
qed

lemma add_dependencies_built:
  assumes "built ns P maps" "map_of ns x = Some n" "node_id n = x" "is_active n"
    and "\<forall>d \<in> set ds. \<exists>m. map_of ns d = Some m"
  shows "\<exists>maps'. fold_r (add_dependency ns n) ds maps = Inr maps' \<and> built ns ({x} \<times> set ds \<union> P) maps'"
  using assms(1,5)
proof (induction ds arbitrary: P maps)
  case (Cons d ds)
  then obtain m where "map_of ns d = Some m" by auto
  from add_dependency_built [OF Cons.prems(1) assms(2-4) this] obtain maps1 where
    "add_dependency ns n d maps = Inr maps1" "built ns (insert (x, d) P) maps1" by blast
  moreover have "{x} \<times> set ds \<union> insert (x, d) P = {x} \<times> set (d # ds) \<union> P" by auto
  ultimately show ?case using Cons.IH [of "insert (x, d) P" maps1] Cons.prems(2) by auto
qed simp

lemma add_node_built:
  assumes "wf_nodes ns" "built ns P maps" "map_of ns x = Some n"
  shows "\<exists>maps'. add_node ns n maps = Inr maps' \<and>
    built ns ({(y, d). y = x \<and> (y, d) \<in> raw_deps ns} \<union> P) maps'"
proof (cases "is_active n")
  case True
  then have "{(y, d). y = x \<and> (y, d) \<in> raw_deps ns} = {x} \<times> set (dependencies n)"
    using assms(3) by (auto simp: raw_deps_def)
  moreover have "\<forall>d \<in> set (dependencies n). \<exists>m. map_of ns d = Some m"
    using wf_nodes_dep [OF assms(1,3)] by blast
  ultimately show ?thesis
    using add_dependencies_built [OF assms(2,3) wf_nodes_id [OF assms(1,3)] True] True
    by (simp add: add_node_def)
next
  case False
  then have "{(y, d). y = x \<and> (y, d) \<in> raw_deps ns} \<union> P = P" using assms(3) by (auto simp: raw_deps_def)
  then show ?thesis using False assms(2) by (simp only: add_node_def if_True not_False_eq_True) simp
qed

lemma add_nodes_built:
  assumes "wf_nodes ns" "built ns P maps" "set ps \<subseteq> set ns"
  shows "\<exists>maps'. fold_r (add_node ns) (map snd ps) maps = Inr maps' \<and>
    built ns ({(y, d) \<in> raw_deps ns. y \<in> fst ` set ps} \<union> P) maps'"
  using assms(2,3)
proof (induction ps arbitrary: P maps)
  case (Cons p ps)
  have "map_of ns (fst p) = Some (snd p)"
    using Cons.prems(2) wf_nodes_member [OF assms(1), of "fst p" "snd p"] by simp
  from add_node_built [OF assms(1) Cons.prems(1) this] obtain maps1 where
    "add_node ns (snd p) maps = Inr maps1"
    "built ns ({(y, d). y = fst p \<and> (y, d) \<in> raw_deps ns} \<union> P) maps1" by blast
  moreover have "{(y, d) \<in> raw_deps ns. y \<in> fst ` set ps} \<union> ({(y, d). y = fst p \<and> (y, d) \<in> raw_deps ns} \<union> P)
      = {(y, d) \<in> raw_deps ns. y \<in> fst ` set (p # ps)} \<union> P" by auto
  ultimately show ?case using Cons.IH [of _ maps1] Cons.prems(2) by fastforce
qed simp

lemma built_empty:
  assumes "wf_nodes ns"
  shows "built ns {} (empty_graph ns, empty_graph ns, [])"
proof -
  have sorted: "sorted_keys (empty_graph ns)" unfolding empty_graph_def by (rule sorted_bt_collect)
  have adj: "adj (empty_graph ns) i = []" for i
    unfolding empty_graph_def adj_def map_of_bt_collect by (auto dest: map_of_SomeD split: option.split)
  have "i \<in> keys (empty_graph ns) \<longleftrightarrow> i \<in> node_id ` {n \<in> snd ` set ns. is_active n}" for i
  proof -
    have "i \<in> keys (empty_graph ns) \<longleftrightarrow> map_of (empty_graph ns) i \<noteq> None"
      by (simp add: keys_def map_of_eq_None_iff)
    then show ?thesis
      unfolding empty_graph_def map_of_bt_collect map_of_eq_None_iff by (auto simp: image_iff)
  qed
  moreover have "node_id ` {n \<in> snd ` set ns. is_active n} = active_ids ns"
    using wf_nodes_member [OF assms] wf_nodes_id [OF assms] by (force simp: active_ids_def)
  ultimately have "keys (empty_graph ns) = active_ids ns" by blast
  then show ?thesis using sorted adj by (simp add: built_def)
qed

lemma build_graph_built:
  assumes "wf_nodes ns"
  obtains maps where "build_graph ns = Inr maps" "built ns (raw_deps ns) maps"
proof -
  have "{(y, d) \<in> raw_deps ns. y \<in> fst ` set ns} \<union> {} = raw_deps ns"
    by (force simp: raw_deps_def dest: map_of_SomeD)
  then show thesis
    using add_nodes_built [OF assms built_empty [OF assms] subset_refl] that by (auto simp: build_graph_def)
qed

lemma built_edges:
  assumes "built ns (raw_deps ns) (deps, dependents, seeds)"
  shows "edges deps = active_deps ns" "edges dependents = (active_deps ns)\<inverse>"
    "keys deps = active_ids ns" "keys dependents = active_ids ns"
    "set seeds = raw_deps ns - active_deps ns"
  using assms by (auto simp: built_def edges_iff active_deps_def)

section \<open>Cycles\<close>

text \<open>The nodes that are on a cycle with \<open>x\<close>.\<close>

definition cycle_of :: "(string \<times> string) set \<Rightarrow> string \<Rightarrow> string set" where
  "cycle_of E x = {y. (x, y) \<in> E\<^sup>* \<and> (y, x) \<in> E\<^sup>*}"

lemma on_cycle_iff:
  assumes "set C = scc g r" "distinct C"
  shows "on_cycle g C \<longleftrightarrow> (r, r) \<in> (edges g)\<^sup>+"
proof -
  have r: "r \<in> set C" using assms(1) by simp
  show ?thesis
  proof (cases "set C = {r}")
    case True
    obtain a bs where ab: "C = a # bs" using r by (cases C) simp_all
    then have "a = r" "set bs = {}" using True assms(2) by (auto simp: subset_singleton_iff)
    then have C: "C = [r]" using ab by simp
    have "(r, r) \<in> edges g" if rr: "(r, r) \<in> (edges g)\<^sup>+"
    proof -
      obtain z where z: "(r, z) \<in> edges g" "(z, r) \<in> (edges g)\<^sup>*"
        using tranclD [OF rr] by blast
      then have "z \<in> scc g r" by (auto simp: scc_def)
      then show ?thesis using True assms(1) z(1) by auto
    qed
    then show ?thesis using C by (auto simp: on_cycle_def edges_iff)
  next
    case False
    then obtain x where x: "x \<in> scc g r" "x \<noteq> r" using r assms(1) by blast
    then have "(r, x) \<in> (edges g)\<^sup>*" "(x, r) \<in> (edges g)\<^sup>*" by (simp_all add: scc_def)
    then have "(r, x) \<in> (edges g)\<^sup>+" "(x, r) \<in> (edges g)\<^sup>+"
      using x(2) by (metis rtrancl_eq_or_trancl)+
    then have "(r, r) \<in> (edges g)\<^sup>+" by (rule trancl_trans)
    moreover have "card (set C) \<noteq> 1" using r False by (metis card_1_singletonE singletonD)
    then have "1 < length C" using r distinct_card [OF assms(2)]
      by (metis One_nat_def Suc_lessI empty_iff length_greater_0_conv list.set(1))
    ultimately show ?thesis by (simp add: on_cycle_def)
  qed
qed

lemma sort_key_Nil: "[] = sort_key f xs \<longleftrightarrow> xs = []"
  by (metis length_0_conv length_sort)

lemma sort_key_sets: "set ` set (sort_key f (map (sort_key h) Cs)) = set ` set Cs"
  by (simp add: image_image)

lemma cycle_components_exact:
  assumes "edges dependents = (edges deps)\<inverse>" "keys deps \<subseteq> set ids"
  shows "set ` set (cycle_components deps dependents ids ns) =
      {cycle_of (edges deps) x | x. (x, x) \<in> (edges deps)\<^sup>+}"
    and "[] \<notin> set (cycle_components deps dependents ids ns)"
proof -
  let ?Cs = "strong_components deps dependents ids"
  note sccs = strong_components_exact [OF assms]
  have "distinct C" if "C \<in> set ?Cs" for C using sccs(3) that by (simp add: distinct_concat_iff)
  then have mem: "on_cycle deps C \<longleftrightarrow> (x, x) \<in> (edges deps)\<^sup>+" if "C \<in> set ?Cs" "set C = scc deps x" for C x
    using on_cycle_iff that by blast
  have scc: "scc deps x = cycle_of (edges deps) x" for x by (auto simp: scc_def cycle_of_def)
  have "set ` set (filter (on_cycle deps) ?Cs) = {cycle_of (edges deps) x | x. (x, x) \<in> (edges deps)\<^sup>+}"
  proof (intro set_eqI iffI)
    fix A assume "A \<in> set ` set (filter (on_cycle deps) ?Cs)"
    then obtain C where C: "C \<in> set ?Cs" "on_cycle deps C" "A = set C" by auto
    then have "set C \<in> scc deps ` (set ids \<union> edges deps `` UNIV)" using sccs(1) by blast
    then obtain x where "set C = scc deps x" by blast
    then show "A \<in> {cycle_of (edges deps) x | x. (x, x) \<in> (edges deps)\<^sup>+}"
      using mem [OF C(1)] C(2,3) scc by blast
  next
    fix A assume "A \<in> {cycle_of (edges deps) x | x. (x, x) \<in> (edges deps)\<^sup>+}"
    then obtain x where x: "A = scc deps x" "(x, x) \<in> (edges deps)\<^sup>+" using scc by auto
    then have "x \<in> keys deps" using edges_from_keys tranclD by metis
    then have "scc deps x \<in> set ` set ?Cs" using sccs(1) assms(2) by blast
    then obtain C where "C \<in> set ?Cs" "set C = scc deps x" by auto
    then show "A \<in> set ` set (filter (on_cycle deps) ?Cs)" using mem x by auto
  qed
  then show "set ` set (cycle_components deps dependents ids ns) =
      {cycle_of (edges deps) x | x. (x, x) \<in> (edges deps)\<^sup>+}"
    by (simp only: cycle_components_def sort_key_sets)
  have "C \<noteq> []" if "C \<in> set ?Cs" for C using sccs(2) that by auto
  then show "[] \<notin> set (cycle_components deps dependents ids ns)"
    by (auto simp: cycle_components_def sort_key_Nil)
qed

section \<open>Topological order\<close>

lemma ready_key_inj: "ready_key ns i = ready_key ns j \<Longrightarrow> i = j"
  by (simp add: ready_key_def)

lemma ready_insert_set [simp]: "set (ready_insert (ready_key ns) x ys) = insert x (set ys)"
  by (induction ys) (auto dest: ready_key_inj)

lemma ready_insert_distinct: "x \<notin> set ys \<Longrightarrow> distinct ys \<Longrightarrow> distinct (ready_insert (ready_key ns) x ys)"
  by (induction ys) auto

interpretation research_loop: kahn_body "research_relax ns" for ns
proof
  fix s :: "string kahn" and c n
  assume "map_of (counts s) c = Some (Suc n)" "distinct (ready s)" "c \<notin> set (ready s)"
  then show "\<exists>s'. research_relax ns c s = Inr s' \<and> emitted s' = emitted s \<and>
      map_of (counts s') = (map_of (counts s))(c \<mapsto> n) \<and>
      set (ready s') = (if n = 0 then insert c (set (ready s)) else set (ready s)) \<and> distinct (ready s')"
    by (simp add: research_relax_def ready_insert_distinct)
qed

lemma start_ready:
  assumes "distinct (map fst remaining)" "distinct r" "set r \<inter> fst ` set remaining = {}"
  shows "set (fold (\<lambda>(i, count) r. if count = 0 then ready_insert (ready_key ns) i r else r) remaining r) =
      set r \<union> {i. (i, 0::nat) \<in> set remaining} \<and>
    distinct (fold (\<lambda>(i, count) r. if count = 0 then ready_insert (ready_key ns) i r else r) remaining r)"
  using assms
proof (induction remaining arbitrary: r)
  case (Cons p remaining)
  obtain i count where p: "p = (i, count)" by fastforce
  show ?case
  proof (cases "count = 0")
    case True
    have "set (ready_insert (ready_key ns) i r) \<inter> fst ` set remaining = {}"
      using Cons.prems p by auto
    then show ?thesis
      using Cons.IH [of "ready_insert (ready_key ns) i r"] Cons.prems p True
      by (auto simp: ready_insert_distinct)
  next
    case False
    then show ?thesis using Cons.IH [of r] Cons.prems p by auto
  qed
qed simp

lemma topological_order_exact:
  assumes turned: "edges dependents = (edges deps)\<inverse>" and inner: "edges deps \<subseteq> keys deps \<times> keys deps"
    and sorted: "sorted_keys deps" "\<And>x. distinct (adj deps x)" "\<And>x. distinct (adj dependents x)"
  obtains order where "topological_order deps dependents ns = Some order" "distinct order"
    "\<And>x. x \<in> set order \<longleftrightarrow> x \<in> keys deps \<and> \<not> (\<exists>y. (x, y) \<in> (edges deps)\<^sup>* \<and> (y, y) \<in> (edges deps)\<^sup>+)"
    "in_order (\<lambda>x. set (adj deps x)) order"
proof -
  let ?K = "keys deps" and ?s = "research_start deps ns"
  have turn: "x \<in> set (adj dependents d) \<longleftrightarrow> d \<in> set (adj deps x)" for x d
    using turned by (metis converse_iff edges_iff)
  have mem: "x \<in> ?K \<and> d \<in> ?K" if "d \<in> set (adj deps x)" for x d
    using inner that by (auto simp flip: edges_iff)
  have preds: "preds_of (adj dependents) ?K = (\<lambda>x. set (adj deps x))"
    using mem turn by (auto simp: preds_of_def fun_eq_iff)
  have E: "succ_edges (adj dependents) ?K = (edges deps)\<inverse>"
    by (auto simp: succ_edges_def preds edges_iff)
  have succs: "set (adj dependents x) \<subseteq> ?K" for x using turn mem by auto
  have counts: "counts ?s = map (\<lambda>(i, items). (i, length items)) deps" "emitted ?s = []"
    by (simp_all add: research_start_def Let_def)
  have keys: "map fst (map (\<lambda>(i, items). (i, length items)) deps) = map fst deps" by auto
  have dist: "distinct (map fst deps)" by (rule sorted_keys_distinct [OF sorted(1)])
  have "map_of (map (\<lambda>(i, items). (i, length items)) deps) x = map_option length (map_of deps x)" for x
    by (induction deps) auto
  then have count: "map_of (counts ?s) x = (if x \<in> ?K then Some (card (set (adj deps x))) else None)" for x
    unfolding counts using keys_map_of [of x deps] distinct_card [OF sorted(2)]
    by (auto simp: keys_def map_of_eq_None_iff)
  have "set (ready ?s) = {i. (i, 0) \<in> set (counts ?s)} \<and> distinct (ready ?s)"
    using start_ready [of "map (\<lambda>(i, items). (i, length items)) deps" "[]" ns, unfolded keys, OF dist]
    unfolding counts(1) by (simp add: research_start_def Let_def del: set_map)
  moreover have "(i, 0) \<in> set (counts ?s) \<longleftrightarrow> i \<in> ?K \<and> set (adj deps i) = {}" for i
  proof -
    have "distinct (map fst (counts ?s))" unfolding counts(1) keys by (rule dist)
    then have "(i, 0) \<in> set (counts ?s) \<longleftrightarrow> map_of (counts ?s) i = Some 0"
      by (rule map_of_eq_Some_iff [symmetric])
    then show ?thesis unfolding count by simp
  qed
  ultimately have "kahn_inv (adj dependents) ?K ?s"
    unfolding kahn_inv_def counted_def preds using count counts(2) by (simp add: in_order_def)
  then obtain s where s: "kahn_loop (research_relax ns) (adj dependents) ?s = Some (Inr s)"
    "kahn_inv (adj dependents) ?K s" "ready s = []"
    using research_loop.kahn_loop_ends [of ?K "adj dependents", OF finite_keys succs sorted(3)] by blast
  have "x \<in> set (emitted s) \<longleftrightarrow>
      x \<in> ?K \<and> \<not> (\<exists>y. (x, y) \<in> (edges deps)\<^sup>* \<and> (y, y) \<in> (edges deps)\<^sup>+)" for x
    using kahn_emitted [OF finite_keys s(2,3) succs, of x] unfolding E
    by (simp add: rtrancl_converse trancl_converse)
  moreover have "distinct (emitted s)" "in_order (\<lambda>x. set (adj deps x)) (emitted s)"
    using s(2) unfolding kahn_inv_def preds by simp_all
  ultimately show thesis using that [of "emitted s"] s(1) by (simp add: topological_order_def)
qed

section \<open>Route issues\<close>

definition seeds_reach :: "string graph \<Rightarrow> (string \<times> route_issue) list \<Rightarrow> (string \<times> route_issue) set" where
  "seeds_reach g pending = {(x, q). \<exists>s. (s, q) \<in> set pending \<and> (s, x) \<in> (edges g)\<^sup>*}"

lemma seeds_reach_Nil [simp]: "seeds_reach g [] = {}"
  by (simp add: seeds_reach_def)

lemma seeds_reach_step:
  "seeds_reach g ((i, q) # pending) =
     insert (i, q) (seeds_reach g (pending @ map (\<lambda>d. (d, q)) (adj g i)))"
proof -
  have "(i, x) \<in> (edges g)\<^sup>* \<longleftrightarrow> x = i \<or> (\<exists>d. d \<in> set (adj g i) \<and> (d, x) \<in> (edges g)\<^sup>*)" for x
    by (metis converse_rtranclE converse_rtrancl_into_rtrancl edges_iff rtrancl.rtrancl_refl)
  then show ?thesis by (auto simp: seeds_reach_def)
qed

lemma propagate_known:
  assumes "\<And>i q d. (i, q) \<in> known_issues issues \<Longrightarrow> (i, d) \<in> edges g \<Longrightarrow>
    (d, q) \<in> known_issues issues \<union> set pending"
  shows "known_issues (propagate g pending issues) = known_issues issues \<union> seeds_reach g pending"
  using assms
proof (induction g pending issues rule: propagate.induct)
  case (2 g i q pending issues)
  show ?case
  proof (cases "(i, q) \<in> known_issues issues")
    case True
    then have member: "q \<in> set (issues_of issues i)" by (simp add: known_issues_def)
    have IH: "known_issues (propagate g pending issues) = known_issues issues \<union> seeds_reach g pending"
      using 2(3) True by (intro 2(1) [OF member]) auto
    let ?A = "{y. (y, q) \<in> known_issues issues \<union> seeds_reach g pending}"
    have "y \<in> ?A" if "(i, y) \<in> (edges g)\<^sup>*" for y
    proof (rule closed_reach [OF _ _ that])
      fix u v assume uv: "u \<in> ?A" "(u, v) \<in> edges g"
      show "v \<in> ?A"
      proof (cases "(u, q) \<in> known_issues issues")
        case True
        then have "(v, q) \<in> known_issues issues \<union> set ((i, q) # pending)" using 2(3) uv(2) by blast
        then show ?thesis using \<open>(i, q) \<in> known_issues issues\<close> by (auto simp: seeds_reach_def)
      next
        case False
        then show ?thesis using uv by (auto simp: seeds_reach_def intro: rtrancl_into_rtrancl)
      qed
    qed (use True in simp)
    then have "seeds_reach g ((i, q) # pending) \<subseteq> known_issues issues \<union> seeds_reach g pending"
      by (auto simp: seeds_reach_def)
    moreover have "seeds_reach g pending \<subseteq> seeds_reach g ((i, q) # pending)" by (auto simp: seeds_reach_def)
    ultimately show ?thesis using IH member by auto
  next
    case False
    then have member: "q \<notin> set (issues_of issues i)" by (simp add: known_issues_def)
    let ?pending = "pending @ map (\<lambda>d. (d, q)) (adj g i)"
    let ?issues = "bt_insert i (bs_insert q (issues_of issues i)) issues"
    have "known_issues (propagate g ?pending ?issues) = known_issues ?issues \<union> seeds_reach g ?pending"
    proof (rule 2(2) [OF member])
      fix j p d assume "(j, p) \<in> known_issues ?issues" "(j, d) \<in> edges g"
      then show "(d, p) \<in> known_issues ?issues \<union> set ?pending"
        using 2(3) [of j p d] by (auto simp: known_issues_insert edges_iff)
    qed
    then show ?thesis using member by (simp add: known_issues_insert seeds_reach_step)
  qed
qed simp

lemma propagate_exact: "known_issues (propagate g pending []) = seeds_reach g pending"
  by (subst propagate_known) (simp_all add: known_issues_def issues_of_def)

lemma propagate_nonempty:
  assumes "\<forall>k is. map_of issues k = Some is \<longrightarrow> is \<noteq> []"
  shows "map_of (propagate g pending issues) k = Some is \<Longrightarrow> is \<noteq> []"
  using assms
proof (induction g pending issues rule: propagate.induct)
  case (2 g i q pending issues)
  have "bs_insert q xs \<noteq> []" for xs by (cases xs) auto
  then show ?case using 2 by (simp split: if_splits)
qed simp

lemma propagate_sorted: "sorted_keys issues \<Longrightarrow> sorted_keys (propagate g pending issues)"
  by (induction g pending issues rule: propagate.induct) (simp_all add: sorted_bt_insert)

end
