(* ===== verification/Research_State.thy ===== *)
theory Research_State
  imports Research_Graph_Laws
begin

text \<open>
  The projector of the research state, \<open>ResearchStateProjector\<close> of \<open>research_state.rs\<close>: the checks of a
  snapshot, the routes of the active plans, and \<open>analyze\<close> and \<open>project\<close>, which derive the state from the
  snapshot. The result of \<open>analyze\<close> is an option since its ordering loop is; \<open>analyze_total\<close> shows
  that it is never \<open>None\<close>. The serializer and SHA-256 are the parameters \<open>to_vec\<close> and \<open>sha256\<close>.
\<close>

section \<open>The derived state\<close>

record research_dependency_graph =
  graph_dependencies :: "string graph"
  graph_dependents :: "string graph"
  graph_order :: "string list"
  graph_cycles :: "string list list"

record research_plan_route =
  route_plan_id :: string
  goal_node_ids :: "string list"
  route_critical_nodes :: "string list"
  route_blockers :: "string list"
  route_frontier :: "string list"
  route_invalid_nodes :: "string list"
  route_solved :: bool

type_synonym invalid_route = "string \<times> route_issue list"

record research_state =
  state_version :: nat
  state_target :: string
  state_nodes :: node_map
  state_attempts :: "research_attempt list"
  state_decisions :: "research_decision list"
  state_active_plans :: "string list"
  state_graph :: research_dependency_graph
  state_routes :: "(string \<times> research_plan_route) list"
  state_critical :: "string list"
  state_blockers :: "string list"
  state_frontier :: "string list"
  state_invalid :: "invalid_route list"
  state_digest :: string

section \<open>Checking a snapshot\<close>

definition validate_snapshot_limits :: "research_snapshot \<Rightarrow> unit research" where
  "validate_snapshot_limits s =
     bind_r (within_limit ''research_nodes'' (length (snap_nodes s)) max_research_nodes) (\<lambda>_.
     bind_r (within_limit ''research_attempts'' (length (snap_attempts s)) max_research_attempts) (\<lambda>_.
     bind_r (within_limit ''research_decisions'' (length (snap_decisions s)) max_research_decisions) (\<lambda>_.
       within_limit ''active_research_plans'' (length (snap_active_plans s)) max_active_plans)))"

definition add_canonical_node :: "research_node \<Rightarrow> node_map \<times> nat \<Rightarrow> (node_map \<times> nat) research" where
  "add_canonical_node n acc = (case acc of (ns, edge_count) \<Rightarrow>
     if revision n = 0 then Inl (InvalidRevision (node_id n))
     else bind_r (validate_text ''node.statement'' (statement n) max_statement_bytes False) (\<lambda>_.
       bind_r (within_limit ''node_dependencies'' (length (dependencies n)) max_node_dependencies) (\<lambda>_.
         if map_of ns (node_id n) \<noteq> None
         then Inl (DuplicateIdentifier ''research_node_id'' (node_id n))
         else Inr (bt_insert (node_id n) n ns, sat_add edge_count (length (dependencies n))))))"

definition check_dependencies :: "node_map \<Rightarrow> research_node \<Rightarrow> unit research" where
  "check_dependencies ns n =
     check_all (\<lambda>d. ensure (map_of ns d \<noteq> None) (UnknownDependency (node_id n) d)) (dependencies n)"

definition canonical_nodes :: "research_snapshot \<Rightarrow> node_map research" where
  "canonical_nodes s =
     bind_r (fold_r add_canonical_node (snap_nodes s) ([], 0)) (\<lambda>(ns, edge_count).
       bind_r (within_limit ''research_edges'' edge_count max_research_edges) (\<lambda>_.
         bind_r (check_all (check_dependencies ns) (map snd ns)) (\<lambda>_. Inr ns)))"

definition validate_target :: "research_snapshot \<Rightarrow> node_map \<Rightarrow> unit research" where
  "validate_target s ns =
     (let target_count = length (filter (\<lambda>n. node_kind n = KindTarget) (map snd ns)) in
      if target_count = 0 then Inl MissingTarget
      else if 1 < target_count then Inl MultipleTargets
      else bind_r (ok_or (map_of ns (snap_target s)) MissingTarget) (\<lambda>t.
        if node_kind t \<noteq> KindTarget then Inl TargetKindMismatch
        else if node_status t = Superseded then Inl SupersededTarget
        else Inr ()))"

definition declared_plans :: "node_map \<Rightarrow> string list" where
  "declared_plans ns = List.map_filter plan_id (filter is_active (map snd ns))"

definition validate_active_plans :: "research_snapshot \<Rightarrow> node_map \<Rightarrow> unit research" where
  "validate_active_plans s ns =
     check_all (\<lambda>p. ensure (p \<in> set (declared_plans ns)) (UnknownActivePlan p)) (snap_active_plans s)"

definition check_attempt ::
  "node_map \<Rightarrow> research_attempt \<Rightarrow> string set \<Rightarrow> string set research" where
  "check_attempt ns a seen =
     bind_r (validate_text ''attempt.summary'' (attempt_summary a) max_summary_bytes False) (\<lambda>_.
     bind_r (within_limit ''attempt_evidence_ids'' (length (evidence_ids a)) max_evidence_ids) (\<lambda>_.
       if attempt_id a \<in> seen then Inl (DuplicateIdentifier ''research_attempt_id'' (attempt_id a))
       else if map_of ns (attempt_node_id a) = None
       then Inl (UnknownAttemptNode (attempt_id a) (attempt_node_id a))
       else Inr (insert (attempt_id a) seen)))"

definition attempt_key :: "research_attempt \<Rightarrow> nat \<times> nat \<times> string" where
  "attempt_key a = (attempt_created_round a, attempt_event_seq a, attempt_id a)"

definition canonical_attempts :: "research_snapshot \<Rightarrow> node_map \<Rightarrow> research_attempt list research" where
  "canonical_attempts s ns =
     bind_r (fold_r (check_attempt ns) (snap_attempts s) {}) (\<lambda>_.
       Inr (sort_key attempt_key (snap_attempts s)))"

definition known_plans :: "research_snapshot \<Rightarrow> node_map \<Rightarrow> string list" where
  "known_plans s ns = List.map_filter plan_id (map snd ns) @ snap_active_plans s"

definition focus_list :: "research_decision \<Rightarrow> string list" where
  "focus_list d = (case selected_focus_node_id d of None \<Rightarrow> [] | Some i \<Rightarrow> [i])"

definition check_decision ::
  "node_map \<Rightarrow> string list \<Rightarrow> research_decision \<Rightarrow> string set \<Rightarrow> string set research" where
  "check_decision ns plans d seen =
     bind_r (validate_text ''decision.reason'' (decision_reason d) max_reason_bytes False) (\<lambda>_.
     bind_r (within_limit ''decision_superseded_plan_ids'' (length (superseded_plan_ids d)) max_decision_plan_ids) (\<lambda>_.
     bind_r (within_limit ''decision_preserved_node_ids'' (length (preserved_node_ids d)) max_decision_node_ids) (\<lambda>_.
     bind_r (within_limit ''decision_new_constraints'' (length (new_constraints d)) max_decision_constraints) (\<lambda>_.
       if decision_id d \<in> seen then Inl (DuplicateIdentifier ''research_decision_id'' (decision_id d))
       else bind_r (check_all (\<lambda>i. ensure (map_of ns i \<noteq> None) (UnknownDecisionNode (decision_id d) i))
           (preserved_node_ids d @ focus_list d)) (\<lambda>_.
         bind_r (check_all (\<lambda>p. ensure (p \<in> set plans) (UnknownDecisionPlan (decision_id d) p))
           (superseded_plan_ids d)) (\<lambda>_. Inr (insert (decision_id d) seen)))))))"

definition decision_key :: "research_decision \<Rightarrow> nat \<times> string" where
  "decision_key d = (decision_event_seq d, decision_id d)"

definition canonical_decisions :: "research_snapshot \<Rightarrow> node_map \<Rightarrow> research_decision list research" where
  "canonical_decisions s ns =
     bind_r (fold_r (check_decision ns (known_plans s ns)) (snap_decisions s) {}) (\<lambda>_.
       Inr (sort_key decision_key (snap_decisions s)))"

section \<open>Routes\<close>

definition solved_at :: "node_map \<Rightarrow> string \<Rightarrow> bool" where
  "solved_at ns i = (case map_of ns i of None \<Rightarrow> False | Some n \<Rightarrow> node_status n = RouteSolved)"

definition unsolved_at :: "node_map \<Rightarrow> string \<Rightarrow> bool" where
  "unsolved_at ns i = (case map_of ns i of None \<Rightarrow> False | Some n \<Rightarrow> node_status n \<noteq> RouteSolved)"

definition plan_nodes :: "node_map \<Rightarrow> string \<Rightarrow> string list" where
  "plan_nodes ns p = map node_id (filter (\<lambda>n. is_active n \<and> plan_id n = Some p) (map snd ns))"

definition goal_candidates :: "node_map \<Rightarrow> string \<Rightarrow> string list" where
  "goal_candidates ns p =
     (let declared = filter (\<lambda>i. declared_critical (node_at ns i) = Some True) (plan_nodes ns p) in
      if declared = [] then plan_nodes ns p else declared)"

definition goal_set :: "node_map \<Rightarrow> string graph \<Rightarrow> string \<Rightarrow> string list" where
  "goal_set ns dependents p =
     (let candidates = goal_candidates ns p;
          goals = filter (\<lambda>i. \<forall>d \<in> set (adj dependents i). d \<notin> set candidates) candidates in
      if goals = [] then plan_nodes ns p else goals)"

definition critical_closure :: "string graph \<Rightarrow> string list \<Rightarrow> string set" where
  "critical_closure deps goals = fold (\<lambda>g acc. acc \<union> dependency_closure g deps) goals {}"

definition plan_route ::
  "node_map \<Rightarrow> string graph \<Rightarrow> string graph \<Rightarrow> issue_map \<Rightarrow> string list \<Rightarrow> string \<Rightarrow> research_plan_route" where
  "plan_route ns deps dependents issues actionable p =
     (let goals = goal_set ns dependents p;
          critical = critical_closure deps goals;
          items = sorted_list_of_set critical;
          goal_ids = ordered_ids goals ns None;
          critical_ids = ordered_ids items ns None;
          invalid = ordered_ids (filter (\<lambda>i. map_of issues i \<noteq> None) items) ns (Some critical) in
      \<lparr>route_plan_id = p, goal_node_ids = goal_ids, route_critical_nodes = critical_ids,
       route_blockers = ordered_ids (filter (unsolved_at ns) items) ns None,
       route_frontier = ordered_ids (filter (\<lambda>i. i \<in> set actionable) items) ns (Some critical),
       route_invalid_nodes = invalid,
       route_solved = (goal_ids \<noteq> [] \<and> invalid = [] \<and> list_all (solved_at ns) critical_ids)\<rparr>)"

definition derive_plan_routes ::
  "research_snapshot \<Rightarrow> node_map \<Rightarrow> research_dependency_graph \<Rightarrow> issue_map \<Rightarrow> string list
    \<Rightarrow> (string \<times> research_plan_route) list" where
  "derive_plan_routes s ns g issues actionable =
     bt_collect (map (\<lambda>p. (p, plan_route ns (graph_dependencies g) (graph_dependents g) issues actionable p))
       (snap_active_plans s))"

section \<open>The projector\<close>

definition encode_hex :: "string \<Rightarrow> string" where
  "encode_hex bytes = concat (map (\<lambda>b. [''0123456789abcdef'' ! (byte_of b div 16),
     ''0123456789abcdef'' ! (byte_of b mod 16)]) bytes)"

definition digest_state ::
  "(research_state \<Rightarrow> string option) \<Rightarrow> (string \<Rightarrow> string) \<Rightarrow> research_state \<Rightarrow> string research" where
  "digest_state to_vec sha256 st =
     bind_r (ok_or (to_vec st) Serialization) (\<lambda>bytes. Inr (''sha256:'' @ encode_hex (sha256 bytes)))"

definition actionable_ids ::
  "research_snapshot \<Rightarrow> node_map \<Rightarrow> string graph \<Rightarrow> issue_map \<Rightarrow> string list" where
  "actionable_ids s ns deps issues = map node_id (filter (\<lambda>n.
     is_actionable (node_status n) \<and> (node_kind n \<noteq> KindTarget \<or> snap_active_plans s = []) \<and>
     map_of issues (node_id n) = None \<and> list_all (solved_at ns) (adj deps (node_id n))) (map snd ns))"

definition derive_state ::
  "research_snapshot \<Rightarrow> node_map \<Rightarrow> research_attempt list \<Rightarrow> research_decision list
    \<Rightarrow> research_dependency_graph \<Rightarrow> (string \<times> string) list \<Rightarrow> research_state" where
  "derive_state s ns attempts decisions g seeds =
     (let issues = route_issues ns (graph_dependents g) (graph_cycles g) seeds;
          actionable = actionable_ids s ns (graph_dependencies g) issues;
          routes = derive_plan_routes s ns g issues actionable;
          critical = fold (\<lambda>r acc. acc \<union> set (route_critical_nodes r)) (map snd routes)
            (dependency_closure (snap_target s) (graph_dependencies g));
          items = sorted_list_of_set critical in
      \<lparr>state_version = research_state_schema_version, state_target = snap_target s, state_nodes = ns,
       state_attempts = attempts, state_decisions = decisions,
       state_active_plans = snap_active_plans s, state_graph = g, state_routes = routes,
       state_critical = ordered_ids items ns None,
       state_blockers = ordered_ids (filter (unsolved_at ns) items) ns None,
       state_frontier = ordered_ids actionable ns (Some critical),
       state_invalid = List.map_filter (\<lambda>i. map_option (\<lambda>xs. (i, xs)) (map_of issues i))
         (ordered_ids (map fst issues) ns (Some critical)),
       state_digest = []\<rparr>)"

definition checked_parts ::
  "research_snapshot \<Rightarrow> (node_map \<times> research_attempt list \<times> research_decision list \<times> graph_maps) research" where
  "checked_parts s =
     bind_r (validate_snapshot_limits s) (\<lambda>_.
     bind_r (canonical_nodes s) (\<lambda>ns.
     bind_r (validate_target s ns) (\<lambda>_.
     bind_r (validate_active_plans s ns) (\<lambda>_.
     bind_r (canonical_attempts s ns) (\<lambda>attempts.
     bind_r (canonical_decisions s ns) (\<lambda>decisions.
     bind_r (build_graph ns) (\<lambda>maps. Inr (ns, attempts, decisions, maps))))))))"

definition analyze ::
  "(research_state \<Rightarrow> string option) \<Rightarrow> (string \<Rightarrow> string) \<Rightarrow> research_snapshot
    \<Rightarrow> research_state research option" where
  "analyze to_vec sha256 s =
     (case checked_parts s of
        Inl e \<Rightarrow> Some (Inl e)
      | Inr (ns, attempts, decisions, deps, dependents, seeds) \<Rightarrow>
          map_option (\<lambda>order.
            let g = \<lparr>graph_dependencies = deps, graph_dependents = dependents, graph_order = order,
                  graph_cycles = cycle_components deps dependents (stable_node_ids (map snd ns)) ns\<rparr>;
                st = derive_state s ns attempts decisions g seeds in
            bind_r (digest_state to_vec sha256 st) (\<lambda>digest. Inr (st\<lparr>state_digest := digest\<rparr>)))
            (topological_order deps dependents ns))"

definition project ::
  "(research_state \<Rightarrow> string option) \<Rightarrow> (string \<Rightarrow> string) \<Rightarrow> research_snapshot
    \<Rightarrow> research_state research option" where
  "project to_vec sha256 s = map_option (\<lambda>r. bind_r r (\<lambda>st.
     case graph_cycles (state_graph st) of
       c # _ \<Rightarrow> Inl (ActiveDependencyCycle c) | [] \<Rightarrow> Inr st)) (analyze to_vec sha256 s)"

end
