(* ===== verification/Research_State_Laws.thy ===== *)
theory Research_State_Laws
  imports Research_State "HOL-Library.Multiset"
begin

text \<open>
  The properties of the projector: it always ends, it accepts exactly the acyclic snapshots, its
  cycles, its order and its route issues are those of the dependencies between active nodes, a route
  it calls solved is solved, and the state does not depend on the order in which the snapshot lists
  its nodes, attempts and decisions.
\<close>

section \<open>Canonical nodes\<close>

definition node_ok :: "research_node \<Rightarrow> bool" where
  "node_ok n \<longleftrightarrow> revision n \<noteq> 0 \<and> is_ok (validate_text ''node.statement'' (statement n) max_statement_bytes False) \<and>
     length (dependencies n) \<le> max_node_dependencies"

definition edge_total :: "research_node list \<Rightarrow> nat" where
  "edge_total ns = sum_list (map (\<lambda>n. length (dependencies n)) ns)"

abbreviation (input) entry_of :: "research_node \<Rightarrow> string \<times> research_node" where
  "entry_of \<equiv> \<lambda>n. (node_id n, n)"

lemma is_ok_unit: "is_ok r \<longleftrightarrow> r = Inr ()"
  by (cases r) simp_all

lemma add_canonical_nodes:
  assumes "c \<le> u64_max"
  shows "fold_r add_canonical_node xs (m, c) = Inr r \<longleftrightarrow>
    (\<forall>n \<in> set xs. node_ok n) \<and> distinct (map node_id xs) \<and>
    (\<forall>n \<in> set xs. map_of m (node_id n) = None) \<and>
    r = (fold (\<lambda>(k, v) m. bt_insert k v m) (map entry_of xs) m, min u64_max (c + edge_total xs))"
  using assms
proof (induction xs arbitrary: m c)
  case Nil
  then show ?case by (auto simp: edge_total_def)
next
  case (Cons n xs)
  have step: "add_canonical_node n (m, c) = Inr p \<longleftrightarrow> node_ok n \<and> map_of m (node_id n) = None \<and>
      p = (bt_insert (node_id n) n m, sat_add c (length (dependencies n)))" for p
    by (auto simp: add_canonical_node_def node_ok_def bind_r_eq_Inr is_ok_unit)
  have "sat_add c (length (dependencies n)) \<le> u64_max" by (rule sat_add_le)
  note IH = Cons.IH [OF this, of "bt_insert (node_id n) n m"]
  have total: "min u64_max (sat_add c (length (dependencies n)) + edge_total xs) =
      min u64_max (c + edge_total (n # xs))"
    by (auto simp: sat_add_def edge_total_def)
  have "fold_r add_canonical_node (n # xs) (m, c) = Inr r \<longleftrightarrow>
      node_ok n \<and> map_of m (node_id n) = None \<and>
      fold_r add_canonical_node xs (bt_insert (node_id n) n m, sat_add c (length (dependencies n))) = Inr r"
    by (simp add: bind_r_eq_Inr step)
  moreover have "(\<forall>n' \<in> set xs. map_of (bt_insert (node_id n) n m) (node_id n') = None) \<longleftrightarrow>
      node_id n \<notin> node_id ` set xs \<and> (\<forall>n' \<in> set xs. map_of m (node_id n') = None)"
    unfolding image_iff map_of_bt_insert fun_upd_apply by (metis option.distinct(1))
  ultimately show ?case unfolding IH total by auto
qed

definition nodes_ok :: "research_node list \<Rightarrow> bool" where
  "nodes_ok xs \<longleftrightarrow> (\<forall>n \<in> set xs. node_ok n) \<and> distinct (map node_id xs) \<and>
     edge_total xs \<le> max_research_edges \<and>
     (\<forall>n \<in> set xs. set (dependencies n) \<subseteq> node_id ` set xs)"

lemma map_of_entries:
  assumes "distinct (map node_id xs)"
  shows "map_of (bt_collect (map entry_of xs)) i = Some n \<longleftrightarrow> n \<in> set xs \<and> node_id n = i"
proof -
  have "distinct (map fst (rev (map entry_of xs)))" using assms by (simp add: comp_def flip: rev_map)
  then show ?thesis
    unfolding map_of_bt_collect by (subst map_of_eq_Some_iff) auto
qed

lemma map_of_entries_None:
  "map_of (bt_collect (map entry_of xs)) i = None \<longleftrightarrow> i \<notin> node_id ` set xs"
  by (simp add: map_of_bt_collect map_of_eq_None_iff image_image)

lemma values_entries:
  assumes "distinct (map node_id xs)"
  shows "snd ` set (bt_collect (map entry_of xs)) = set xs"
proof -
  have "distinct (map fst (bt_collect (map entry_of xs)))"
    by (rule sorted_keys_distinct [OF sorted_bt_collect])
  then have mem: "(i, n) \<in> set (bt_collect (map entry_of xs)) \<longleftrightarrow> n \<in> set xs \<and> node_id n = i" for i n
    using map_of_entries [OF assms, of i n] map_of_eq_Some_iff by metis
  show ?thesis
  proof (intro set_eqI iffI)
    fix n assume "n \<in> set xs"
    then have "(node_id n, n) \<in> set (bt_collect (map entry_of xs))" using mem by simp
    then show "n \<in> snd ` set (bt_collect (map entry_of xs))" by (metis image_eqI snd_conv)
  qed (use mem in auto)
qed

lemma canonical_nodes_Inr:
  "canonical_nodes s = Inr ns \<longleftrightarrow>
     nodes_ok (snap_nodes s) \<and> ns = bt_collect (map entry_of (snap_nodes s))"
proof -
  let ?xs = "snap_nodes s" and ?m = "bt_collect (map entry_of (snap_nodes s))"
  have deps: "check_all (check_dependencies ?m) (map snd ?m) = Inr () \<longleftrightarrow>
      (\<forall>n \<in> set ?xs. set (dependencies n) \<subseteq> node_id ` set ?xs)" if "distinct (map node_id ?xs)"
    using values_entries [OF that] map_of_entries_None [of ?xs]
    by (simp add: check_all_ok check_dependencies_def is_ok_unit [symmetric]) blast
  have "canonical_nodes s = Inr ns \<longleftrightarrow> (\<forall>n \<in> set ?xs. node_ok n) \<and> distinct (map node_id ?xs) \<and>
      edge_total ?xs \<le> max_research_edges \<and>
      check_all (check_dependencies ?m) (map snd ?m) = Inr () \<and> ns = ?m"
  proof -
    have "min u64_max (0 + edge_total ?xs) \<le> max_research_edges \<longleftrightarrow> edge_total ?xs \<le> max_research_edges"
      by (simp add: u64_max_def max_research_edges_def min_le_iff_disj)
    then show ?thesis
      by (auto simp: canonical_nodes_def bind_r_eq_Inr add_canonical_nodes bt_collect_def)
  qed
  then show ?thesis unfolding nodes_ok_def using deps by blast
qed

lemma canonical_wf:
  assumes "canonical_nodes s = Inr ns"
  shows "wf_nodes ns" and "map_of ns i = Some n \<longleftrightarrow> n \<in> set (snap_nodes s) \<and> node_id n = i"
proof -
  have ns: "nodes_ok (snap_nodes s)" "ns = bt_collect (map entry_of (snap_nodes s))"
    using assms by (simp_all add: canonical_nodes_Inr)
  then have dist: "distinct (map node_id (snap_nodes s))" by (simp add: nodes_ok_def)
  show map: "map_of ns i = Some n \<longleftrightarrow> n \<in> set (snap_nodes s) \<and> node_id n = i" for i n
    unfolding ns(2) by (rule map_of_entries [OF dist])
  have sorted: "sorted_keys ns" unfolding ns(2) by (rule sorted_bt_collect)
  have "node_id n = i \<and> set (dependencies n) \<subseteq> set (map fst ns)" if "(i, n) \<in> set ns" for i n
  proof -
    have n: "n \<in> set (snap_nodes s)" "node_id n = i"
      using map_of_eq_Some_iff [OF sorted_keys_distinct [OF sorted], of i n] map that by auto
    then have "set (dependencies n) \<subseteq> node_id ` set (snap_nodes s)" using ns(1) by (auto simp: nodes_ok_def)
    moreover have "set (map fst ns) = node_id ` set (snap_nodes s)"
      using map_of_entries_None [of "snap_nodes s"] unfolding ns(2) map_of_eq_None_iff by auto
    ultimately show ?thesis using n by simp
  qed
  then show "wf_nodes ns" using sorted by (auto simp: wf_nodes_def)
qed

end
