(* ===== verification/Research_Projection.thy ===== *)
theory Research_Projection
  imports Research_State_Laws
begin

text \<open>
  The projector as a whole. \<open>projected\<close> collects what is known of a state \<open>analyze\<close> returns; the
  properties are stated over the nodes of the snapshot and rest on it.
\<close>

section \<open>The dependencies of a snapshot\<close>

definition snap_active :: "research_snapshot \<Rightarrow> string set" where
  "snap_active s = {i. \<exists>n \<in> set (snap_nodes s). node_id n = i \<and> is_active n}"

definition snap_deps :: "research_snapshot \<Rightarrow> (string \<times> string) set" where
  "snap_deps s = {(x, d). \<exists>n \<in> set (snap_nodes s). node_id n = x \<and> is_active n \<and>
     d \<in> set (dependencies n) \<and> d \<in> snap_active s}"

lemma canonical_active:
  assumes "canonical_nodes s = Inr ns"
  shows "active_ids ns = snap_active s" "active_deps ns = snap_deps s"
proof -
  show active: "active_ids ns = snap_active s"
    by (auto simp: active_ids_def snap_active_def canonical_wf(2) [OF assms])
  show "active_deps ns = snap_deps s"
    unfolding active_deps_def raw_deps_def snap_deps_def active canonical_wf(2) [OF assms] by auto
qed

section \<open>What a projected state is\<close>

definition projected :: "research_snapshot \<Rightarrow> research_state \<Rightarrow> (string \<times> string) list \<Rightarrow> bool" where
  "projected s st seeds \<longleftrightarrow>
     (let ns = state_nodes st; g = state_graph st in
      canonical_nodes s = Inr ns \<and> validate_target s ns = Inr () \<and> validate_active_plans s ns = Inr () \<and>
      canonical_attempts s ns = Inr (state_attempts st) \<and>
      built ns (raw_deps ns) (graph_dependencies g, graph_dependents g, seeds) \<and>
      topological_order (graph_dependencies g) (graph_dependents g) ns = Some (graph_order g) \<and>
      graph_cycles g =
        cycle_components (graph_dependencies g) (graph_dependents g) (stable_node_ids (map snd ns)) ns \<and>
      st\<lparr>state_digest := []\<rparr> = derive_state s ns (state_attempts st) (state_decisions st) g seeds)"

lemma built_order:
  assumes "built ns (raw_deps ns) (deps, dependents, seeds)"
  obtains order where "topological_order deps dependents ns = Some order" "distinct order"
    "\<And>x. x \<in> set order \<longleftrightarrow>
       x \<in> active_ids ns \<and> \<not> (\<exists>y. (x, y) \<in> (active_deps ns)\<^sup>* \<and> (y, y) \<in> (active_deps ns)\<^sup>+)"
    "in_order (\<lambda>x. set (adj deps x)) order"
proof -
  note eqs = built_edges [OF assms]
  have "edges deps \<subseteq> keys deps \<times> keys deps"
    unfolding eqs by (auto dest: active_deps_active)
  moreover have "sorted_keys deps" "distinct (adj deps x)" "distinct (adj dependents x)" for x
    using assms by (simp_all add: built_def strict_sorted_iff)
  moreover have "edges dependents = (edges deps)\<inverse>" by (simp add: eqs)
  ultimately obtain order where "topological_order deps dependents ns = Some order" "distinct order"
    "\<And>x. x \<in> set order \<longleftrightarrow> x \<in> keys deps \<and> \<not> (\<exists>y. (x, y) \<in> (edges deps)\<^sup>* \<and> (y, y) \<in> (edges deps)\<^sup>+)"
    "in_order (\<lambda>x. set (adj deps x)) order"
    using topological_order_exact [of dependents deps ns] by metis
  then show thesis by (rule that [unfolded eqs [symmetric]])
qed

lemma analyze_cases:
  "(\<exists>e. analyze to_vec sha256 s = Some (Inl e)) \<or>
   (\<exists>st seeds. analyze to_vec sha256 s = Some (Inr st) \<and> projected s st seeds)"
proof (cases "checked_parts s")
  case (Inl e)
  then show ?thesis by (simp add: analyze_def)
next
  case (Inr parts)
  obtain ns attempts decisions deps dependents seeds where
    parts: "parts = (ns, attempts, decisions, deps, dependents, seeds)" by (metis prod.exhaust)
  have ns: "canonical_nodes s = Inr ns" "validate_target s ns = Inr ()"
    "validate_active_plans s ns = Inr ()" "canonical_attempts s ns = Inr attempts" "build_graph ns = Inr (deps, dependents, seeds)"
    using Inr by (auto simp: parts checked_parts_def bind_r_eq_Inr)
  have built: "built ns (raw_deps ns) (deps, dependents, seeds)"
    using build_graph_built [OF canonical_wf(1) [OF ns(1)]] ns(5) by force
  then obtain order where order: "topological_order deps dependents ns = Some order"
    by (rule built_order)
  define g where "g = \<lparr>graph_dependencies = deps, graph_dependents = dependents, graph_order = order,
    graph_cycles = cycle_components deps dependents (stable_node_ids (map snd ns)) ns\<rparr>"
  define st where "st = derive_state s ns attempts decisions g seeds"
  have result: "analyze to_vec sha256 s = Some (bind_r (digest_state to_vec sha256 st)
      (\<lambda>digest. Inr (st\<lparr>state_digest := digest\<rparr>)))"
    by (simp add: analyze_def Inr parts order st_def g_def Let_def)
  have "state_nodes st = ns" "state_graph st = g" "state_attempts st = attempts"
    "state_decisions st = decisions" "st\<lparr>state_digest := []\<rparr> = st"
    by (simp_all add: st_def derive_state_def Let_def)
  then have "projected s (st\<lparr>state_digest := digest\<rparr>) seeds" for digest
    using ns built order by (simp add: projected_def Let_def g_def st_def)
  then show ?thesis unfolding result by (cases "digest_state to_vec sha256 st") auto
qed

lemma analyze_projected:
  assumes "analyze to_vec sha256 s = Some (Inr st)"
  obtains seeds where "projected s st seeds"
  using analyze_cases [of to_vec sha256 s] assms by auto

lemma projected_parts:
  assumes "projected s st seeds"
  shows "canonical_nodes s = Inr (state_nodes st)" "validate_active_plans s (state_nodes st) = Inr ()"
    "built (state_nodes st) (raw_deps (state_nodes st))
      (graph_dependencies (state_graph st), graph_dependents (state_graph st), seeds)"
    "st\<lparr>state_digest := []\<rparr> =
      derive_state s (state_nodes st) (state_attempts st) (state_decisions st) (state_graph st) seeds"
    "validate_target s (state_nodes st) = Inr ()"
    "canonical_attempts s (state_nodes st) = Inr (state_attempts st)"
  using assms by (simp_all add: projected_def Let_def)

lemma projected_nodes:
  assumes "projected s st seeds"
  shows "map_of (state_nodes st) i = Some n \<longleftrightarrow> n \<in> set (snap_nodes s) \<and> node_id n = i"
    "wf_nodes (state_nodes st)" "(i, n) \<in> set (state_nodes st) \<longleftrightarrow> n \<in> set (snap_nodes s) \<and> node_id n = i"
    "snd ` set (state_nodes st) = set (snap_nodes s)"
proof -
  note canon = canonical_wf [OF projected_parts(1) [OF assms]]
  show map: "map_of (state_nodes st) i = Some n \<longleftrightarrow> n \<in> set (snap_nodes s) \<and> node_id n = i" for i n
    by (rule canon(2))
  show "wf_nodes (state_nodes st)" by (rule canon(1))
  show mem: "(i, n) \<in> set (state_nodes st) \<longleftrightarrow> n \<in> set (snap_nodes s) \<and> node_id n = i" for i n
    unfolding wf_nodes_member [OF canon(1)] by (rule map)
  show "snd ` set (state_nodes st) = set (snap_nodes s)"
  proof (intro set_eqI iffI)
    fix n assume "n \<in> set (snap_nodes s)"
    then have "(node_id n, n) \<in> set (state_nodes st)" using mem by simp
    then show "n \<in> snd ` set (state_nodes st)" by (metis image_eqI snd_conv)
  qed (use mem in auto)
qed

lemma projected_graph:
  assumes "projected s st seeds"
  shows "edges (graph_dependencies (state_graph st)) = snap_deps s"
    "edges (graph_dependents (state_graph st)) = (snap_deps s)\<inverse>"
    "keys (graph_dependencies (state_graph st)) = snap_active s"
    "keys (graph_dependents (state_graph st)) = snap_active s"
    "set seeds = {(x, d). \<exists>n \<in> set (snap_nodes s). node_id n = x \<and> is_active n \<and>
       d \<in> set (dependencies n) \<and> d \<notin> snap_active s}"
  using built_edges [OF projected_parts(3) [OF assms]] canonical_active [OF projected_parts(1) [OF assms]]
  by (auto simp: active_deps_def raw_deps_def projected_nodes(1) [OF assms])

lemma projected_cycles:
  assumes "projected s st seeds"
  shows "set ` set (graph_cycles (state_graph st)) =
      {cycle_of (snap_deps s) x | x. (x, x) \<in> (snap_deps s)\<^sup>+}"
    and "[] \<notin> set (graph_cycles (state_graph st))"
proof -
  let ?ns = "state_nodes st" and ?g = "state_graph st"
  have "set (stable_node_ids (map snd ?ns)) = node_id ` snd ` set ?ns"
    by (simp add: stable_node_ids_def)
  moreover have "snap_active s \<subseteq> node_id ` snd ` set ?ns"
  proof
    fix i assume "i \<in> snap_active s"
    then obtain n where "map_of ?ns i = Some n" "node_id n = i"
      using projected_nodes(1) [OF assms] by (auto simp: snap_active_def)
    then show "i \<in> node_id ` snd ` set ?ns" by (force dest: map_of_SomeD)
  qed
  ultimately have keys: "keys (graph_dependencies ?g) \<subseteq> set (stable_node_ids (map snd ?ns))"
    unfolding projected_graph(3) [OF assms] by simp
  have "edges (graph_dependents ?g) = (edges (graph_dependencies ?g))\<inverse>"
    using projected_graph(1,2) [OF assms] by simp
  from cycle_components_exact [OF this keys, of ?ns]
  show "set ` set (graph_cycles ?g) = {cycle_of (snap_deps s) x | x. (x, x) \<in> (snap_deps s)\<^sup>+}"
    "[] \<notin> set (graph_cycles ?g)"
    using assms projected_graph(1) [OF assms] by (simp_all add: projected_def Let_def)
qed

lemma projected_acyclic:
  assumes "projected s st seeds"
  shows "graph_cycles (state_graph st) = [] \<longleftrightarrow> acyclic (snap_deps s)"
proof -
  have "graph_cycles (state_graph st) = [] \<longleftrightarrow> set ` set (graph_cycles (state_graph st)) = {}" by auto
  then show ?thesis unfolding projected_cycles(1) [OF assms] by (auto simp: acyclic_def)
qed

section \<open>Issues\<close>

definition has_status :: "research_snapshot \<Rightarrow> node_status \<Rightarrow> string \<Rightarrow> bool" where
  "has_status s c i \<longleftrightarrow> (\<exists>n \<in> set (snap_nodes s). node_id n = i \<and> node_status n = c)"

definition lost_support :: "research_snapshot \<Rightarrow> string \<Rightarrow> string \<Rightarrow> bool" where
  "lost_support s i d \<longleftrightarrow> (\<exists>n \<in> set (snap_nodes s). node_id n = i \<and> is_active n \<and>
     d \<in> set (dependencies n) \<and> d \<notin> snap_active s)"

text \<open>Where an issue starts; \<open>cycles\<close> are the components of the graph, which name the source of a
  cycle.\<close>

fun issue_starts :: "research_snapshot \<Rightarrow> string list list \<Rightarrow> string \<Rightarrow> route_issue \<Rightarrow> bool" where
  "issue_starts s cycles i (RefutedDependency, src) \<longleftrightarrow> src = i \<and> has_status s Refuted i"
| "issue_starts s cycles i (DependencyCycle, src) \<longleftrightarrow> (\<exists>c \<in> set cycles. i \<in> set c \<and> src = hd c)"
| "issue_starts s cycles i (SupersededDependency, src) \<longleftrightarrow> lost_support s i src"

definition tainted :: "research_snapshot \<Rightarrow> string \<Rightarrow> bool" where
  "tainted s x \<longleftrightarrow> (\<exists>y. (x, y) \<in> (snap_deps s)\<^sup>* \<and>
     (has_status s Refuted y \<or> (y, y) \<in> (snap_deps s)\<^sup>+ \<or> (\<exists>d. lost_support s y d)))"

definition state_issues :: "research_state \<Rightarrow> (string \<times> string) list \<Rightarrow> issue_map" where
  "state_issues st seeds = route_issues (state_nodes st) (graph_dependents (state_graph st))
     (graph_cycles (state_graph st)) seeds"

lemma seeds_exact:
  assumes "projected s st seeds"
  shows "(i, q) \<in> set (refuted_seeds (state_nodes st) @ cycle_seeds (graph_cycles (state_graph st)) @
      superseded_issues seeds) \<longleftrightarrow> issue_starts s (graph_cycles (state_graph st)) i q"
proof -
  obtain k src where q: "q = (k, src)" by fastforce
  have "(i, q) \<in> set (refuted_seeds (state_nodes st)) \<longleftrightarrow> k = RefutedDependency \<and> src = i \<and> has_status s Refuted i"
  proof -
    have "set (refuted_seeds (state_nodes st)) =
        (\<lambda>n. (node_id n, RefutedDependency, node_id n)) ` {n \<in> set (snap_nodes s). node_status n = Refuted}"
      using projected_nodes(4) [OF assms] by (auto simp: refuted_seeds_def)
    then show ?thesis unfolding q by (auto simp: has_status_def)
  qed
  moreover have "(i, q) \<in> set (cycle_seeds cs) \<longleftrightarrow> k = DependencyCycle \<and> (\<exists>c \<in> set cs. i \<in> set c \<and> src = hd c)" for cs
  proof -
    have "(i, q) \<in> set (case c of [] \<Rightarrow> [] | s # _ \<Rightarrow> map (\<lambda>i. (i, DependencyCycle, s)) c) \<longleftrightarrow>
        k = DependencyCycle \<and> i \<in> set c \<and> src = hd c" for c
      unfolding q by (cases c) auto
    then show ?thesis unfolding cycle_seeds_def by auto
  qed
  moreover have "(i, q) \<in> set (superseded_issues seeds) \<longleftrightarrow> k = SupersededDependency \<and> lost_support s i src"
  proof -
    have "(i, q) \<in> set (superseded_issues seeds) \<longleftrightarrow> k = SupersededDependency \<and> (i, src) \<in> set seeds"
      unfolding q by (force simp: superseded_issues_def)
    then show ?thesis by (simp add: projected_graph(5) [OF assms] lost_support_def)
  qed
  ultimately show ?thesis unfolding q by (cases k) simp_all
qed

lemma projected_issues:
  assumes "projected s st seeds"
  shows "(x, q) \<in> known_issues (state_issues st seeds) \<longleftrightarrow>
    (\<exists>y. (x, y) \<in> (snap_deps s)\<^sup>* \<and> issue_starts s (graph_cycles (state_graph st)) y q)"
  unfolding state_issues_def route_issues_def propagate_exact seeds_reach_def
  using seeds_exact [OF assms] by (auto simp: projected_graph(2) [OF assms] rtrancl_converse)

lemma known_iff_issue:
  "map_of (state_issues st seeds) x = Some qs \<Longrightarrow> qs \<noteq> []"
  "map_of (state_issues st seeds) x \<noteq> None \<longleftrightarrow> (\<exists>q. (x, q) \<in> known_issues (state_issues st seeds))"
proof -
  show ne: "map_of (state_issues st seeds) x = Some qs \<Longrightarrow> qs \<noteq> []" for qs
    unfolding state_issues_def route_issues_def using propagate_nonempty [of "[]"] by auto
  show "map_of (state_issues st seeds) x \<noteq> None \<longleftrightarrow> (\<exists>q. (x, q) \<in> known_issues (state_issues st seeds))"
  proof (cases "map_of (state_issues st seeds) x")
    case (Some qs)
    then have "hd qs \<in> set qs" using ne by simp
    then have "(x, hd qs) \<in> known_issues (state_issues st seeds)"
      using Some by (simp add: known_issues_def issues_of_def)
    then show ?thesis using Some by blast
  qed (simp add: known_issues_def issues_of_def)
qed

lemma issue_iff_tainted:
  assumes "projected s st seeds"
  shows "map_of (state_issues st seeds) x \<noteq> None \<longleftrightarrow> tainted s x"
proof -
  let ?cs = "graph_cycles (state_graph st)"
  have cyc: "(\<exists>c \<in> set ?cs. y \<in> set c) \<longleftrightarrow> (y, y) \<in> (snap_deps s)\<^sup>+" for y
  proof -
    have "(\<exists>c \<in> set ?cs. y \<in> set c) \<longleftrightarrow> (\<exists>A \<in> set ` set ?cs. y \<in> A)" by simp
    also have "\<dots> \<longleftrightarrow> (\<exists>z. (z, z) \<in> (snap_deps s)\<^sup>+ \<and> y \<in> cycle_of (snap_deps s) z)"
      unfolding projected_cycles(1) [OF assms] by blast
    also have "\<dots> \<longleftrightarrow> (y, y) \<in> (snap_deps s)\<^sup>+"
    proof
      assume "\<exists>z. (z, z) \<in> (snap_deps s)\<^sup>+ \<and> y \<in> cycle_of (snap_deps s) z"
      then obtain z where z: "(z, z) \<in> (snap_deps s)\<^sup>+" "(z, y) \<in> (snap_deps s)\<^sup>*" "(y, z) \<in> (snap_deps s)\<^sup>*"
        by (auto simp: cycle_of_def)
      then show "(y, y) \<in> (snap_deps s)\<^sup>+" by (meson rtrancl_trancl_trancl trancl_rtrancl_trancl)
    qed (auto simp: cycle_of_def)
    finally show ?thesis .
  qed
  have "(\<exists>q. issue_starts s ?cs y q) \<longleftrightarrow>
      has_status s Refuted y \<or> (y, y) \<in> (snap_deps s)\<^sup>+ \<or> (\<exists>d. lost_support s y d)" for y
    unfolding cyc [symmetric]
    by (metis issue_starts.simps issue_starts.elims(2))
  then show ?thesis
    unfolding known_iff_issue(2) projected_issues [OF assms] tainted_def by blast
qed

end
