(* ===== verification/Research_Routes.thy ===== *)
theory Research_Routes
  imports Research_Projection
begin

text \<open>
  The properties of the projector: it always returns, and its graph, its route issues, its routes and
  its frontier are the ones the nodes of the snapshot determine.
\<close>

section \<open>Derived sets\<close>

lemma finite_snap_deps:
  assumes "projected s st seeds"
  shows "finite (snap_deps s)"
  using finite_active_deps [of "state_nodes st"] canonical_active(2) [OF projected_parts(1) [OF assms]] by simp

lemma closure_set:
  assumes "projected s st seeds"
  shows "dependency_closure x (graph_dependencies (state_graph st)) = {y. (x, y) \<in> (snap_deps s)\<^sup>*}"
    and "finite {y. (x, y) \<in> (snap_deps s)\<^sup>*}"
proof -
  show "dependency_closure x (graph_dependencies (state_graph st)) = {y. (x, y) \<in> (snap_deps s)\<^sup>*}"
    by (simp add: dependency_closure_reach projected_graph(1) [OF assms])
  have "{y. (x, y) \<in> (snap_deps s)\<^sup>*} = insert x ((snap_deps s)\<^sup>+ `` {x})"
    by (auto simp: rtrancl_eq_or_trancl)
  moreover have "finite ((snap_deps s)\<^sup>+ `` {x})"
    using finite_snap_deps [OF assms] by (intro finite_Image) simp_all
  ultimately show "finite {y. (x, y) \<in> (snap_deps s)\<^sup>*}" by simp
qed

lemma critical_closure_set:
  assumes "projected s st seeds"
  shows "critical_closure (graph_dependencies (state_graph st)) goals = (snap_deps s)\<^sup>* `` set goals"
    and "finite ((snap_deps s)\<^sup>* `` set goals)"
proof -
  have "fold (\<lambda>g acc. acc \<union> dependency_closure g (graph_dependencies (state_graph st))) goals A =
      A \<union> (snap_deps s)\<^sup>* `` set goals" for A
    by (induction goals arbitrary: A) (auto simp: closure_set(1) [OF assms])
  then show "critical_closure (graph_dependencies (state_graph st)) goals = (snap_deps s)\<^sup>* `` set goals"
    by (simp add: critical_closure_def)
  have "(snap_deps s)\<^sup>* `` set goals = (\<Union>g \<in> set goals. {y. (g, y) \<in> (snap_deps s)\<^sup>*})" by auto
  then show "finite ((snap_deps s)\<^sup>* `` set goals)" using closure_set(2) [OF assms] by simp
qed

lemma solved_at_status:
  assumes "projected s st seeds"
  shows "solved_at (state_nodes st) y \<longleftrightarrow> has_status s RouteSolved y"
proof -
  have "solved_at ns y \<longleftrightarrow> (\<exists>n. map_of ns y = Some n \<and> node_status n = RouteSolved)" for ns
    by (cases "map_of ns y") (simp_all add: solved_at_def)
  then show ?thesis using projected_nodes(1) [OF assms, of y] by (auto simp: has_status_def)
qed

lemma known_issues_iff: "(x, q) \<in> known_issues issues \<longleftrightarrow> (\<exists>qs. map_of issues x = Some qs \<and> q \<in> set qs)"
  by (cases "map_of issues x") (simp_all add: known_issues_def issues_of_def)

lemma map_of_routes: "map_of (bt_collect (map (\<lambda>p. (p, f p)) ps)) p = (if p \<in> set ps then Some (f p) else None)"
proof -
  have "map_of (map (\<lambda>p. (p, f p)) qs) p = (if p \<in> set qs then Some (f p) else None)" for qs
    by (induction qs) auto
  then show ?thesis by (simp add: map_of_bt_collect rev_map)
qed

lemma projected_derived:
  assumes "projected s st seeds"
  defines "issues \<equiv> state_issues st seeds"
    and "actionable \<equiv> actionable_ids s (state_nodes st) (graph_dependencies (state_graph st)) (state_issues st seeds)"
  shows "state_frontier st = ordered_ids actionable (state_nodes st) (Some (set (state_critical st)))"
    "map_of (state_routes st) p = (if p \<in> set (snap_active_plans s) then Some (plan_route (state_nodes st)
      (graph_dependencies (state_graph st)) (graph_dependents (state_graph st)) issues actionable p) else None)"
    "set (state_invalid st) = {(x, qs). map_of issues x = Some qs}"
    "distinct (map fst (state_invalid st))"
    "set (state_critical st) = dependency_closure (snap_target s) (graph_dependencies (state_graph st)) \<union>
      (\<Union>r \<in> snd ` set (state_routes st). set (route_critical_nodes r))"
    "set (state_blockers st) \<subseteq> set (state_critical st)" "state_target st = snap_target s"
proof -
  let ?d = "derive_state s (state_nodes st) (state_attempts st) (state_decisions st) (state_graph st) seeds"
  have d: "st\<lparr>state_digest := []\<rparr> = ?d" by (rule projected_parts(4) [OF assms(1)])
  define routes where "routes = derive_plan_routes s (state_nodes st) (state_graph st) issues actionable"
  define critical where "critical = fold (\<lambda>r acc. acc \<union> set (route_critical_nodes r)) (map snd routes)
    (dependency_closure (snap_target s) (graph_dependencies (state_graph st)))"
  have eqs: "state_routes st = routes" "state_target st = snap_target s"
    "state_blockers st = ordered_ids (filter (unsolved_at (state_nodes st)) (sorted_list_of_set critical)) (state_nodes st) None"
    "state_critical st = ordered_ids (sorted_list_of_set critical) (state_nodes st) None"
    "state_frontier st = ordered_ids actionable (state_nodes st) (Some critical)"
    "state_invalid st = List.map_filter (\<lambda>i. map_option (\<lambda>xs. (i, xs)) (map_of issues i))
       (ordered_ids (map fst issues) (state_nodes st) (Some critical))"
    using arg_cong [OF d, of state_target] arg_cong [OF d, of state_blockers] arg_cong [OF d, of state_routes] arg_cong [OF d, of state_critical]
      arg_cong [OF d, of state_frontier] arg_cong [OF d, of state_invalid]
    by (simp_all add: derive_state_def Let_def routes_def critical_def actionable_def issues_def state_issues_def)
  have "finite (dependency_closure (snap_target s) (graph_dependencies (state_graph st)))"
    using closure_set [OF assms(1)] by simp
  then have "finite (fold (\<lambda>r acc. acc \<union> set (route_critical_nodes r)) rs
      (dependency_closure (snap_target s) (graph_dependencies (state_graph st))))" for rs
    by (induction rs rule: rev_induct) simp_all
  then have "finite critical" by (simp add: critical_def)
  then have critical: "set (state_critical st) = critical" by (simp add: eqs)
  have union: "fold (\<lambda>r acc. acc \<union> set (route_critical_nodes r)) rs A =
      A \<union> (\<Union>r \<in> set rs. set (route_critical_nodes r))" for rs A
    by (induction rs arbitrary: A) auto
  show "set (state_critical st) = dependency_closure (snap_target s) (graph_dependencies (state_graph st)) \<union>
      (\<Union>r \<in> snd ` set (state_routes st). set (route_critical_nodes r))"
    unfolding critical eqs(1) critical_def union by simp
  show "set (state_blockers st) \<subseteq> set (state_critical st)" "state_target st = snap_target s"
    using \<open>finite critical\<close> unfolding critical by (auto simp: eqs)
  show "state_frontier st = ordered_ids actionable (state_nodes st) (Some (set (state_critical st)))"
    using critical by (simp add: eqs)
  show "map_of (state_routes st) p = (if p \<in> set (snap_active_plans s) then Some (plan_route (state_nodes st)
      (graph_dependencies (state_graph st)) (graph_dependents (state_graph st)) issues actionable p) else None)"
    unfolding eqs routes_def derive_plan_routes_def by (rule map_of_routes)
  have dist: "distinct (map fst issues)"
    unfolding issues_def state_issues_def route_issues_def
    by (intro sorted_keys_distinct propagate_sorted) (simp add: sorted_keys_def)
  show "set (state_invalid st) = {(x, qs). map_of issues x = Some qs}"
  proof -
    have "x \<in> set (map fst issues)" if "map_of issues x = Some qs" for x qs
      using map_of_SomeD [OF that] by force
    then show ?thesis
      unfolding eqs set_map_filter set_ordered_ids by (auto simp del: set_map list.set_map)
  qed
  have "map fst (List.map_filter (\<lambda>i. map_option (\<lambda>xs. (i, xs)) (map_of issues i)) is) =
      filter (\<lambda>i. map_of issues i \<noteq> None) is" for "is"
    by (induction "is") (auto simp: List.map_filter_def)
  then show "distinct (map fst (state_invalid st))" unfolding eqs using dist by simp
qed

section \<open>Goals of a plan\<close>

definition plan_members :: "research_snapshot \<Rightarrow> string \<Rightarrow> string set" where
  "plan_members s p = {i. \<exists>n \<in> set (snap_nodes s). node_id n = i \<and> is_active n \<and> plan_id n = Some p}"

definition critical_members :: "research_snapshot \<Rightarrow> string \<Rightarrow> string set" where
  "critical_members s p = {i. \<exists>n \<in> set (snap_nodes s). node_id n = i \<and> is_active n \<and>
     plan_id n = Some p \<and> declared_critical n = Some True}"

definition plan_goals :: "research_snapshot \<Rightarrow> string \<Rightarrow> string set" where
  "plan_goals s p = (if critical_members s p = {} then plan_members s p else critical_members s p)"

lemma candidates_set:
  assumes "projected s st seeds"
  shows "set (plan_nodes (state_nodes st) p) = plan_members s p"
    "set (goal_candidates (state_nodes st) p) = plan_goals s p"
proof -
  let ?ns = "state_nodes st"
  show members: "set (plan_nodes ?ns p) = plan_members s p"
    using projected_nodes(4) [OF assms] by (auto simp: plan_nodes_def plan_members_def)
  have at: "node_at ?ns (node_id n) = n" if "n \<in> set (snap_nodes s)" for n
    using projected_nodes(1) [OF assms, of "node_id n" n] that by simp
  have "i \<in> plan_members s p \<and> declared_critical (node_at ?ns i) = Some True \<longleftrightarrow> i \<in> critical_members s p" for i
    unfolding plan_members_def critical_members_def using at by fastforce
  moreover define f where "f = filter (\<lambda>i. declared_critical (node_at ?ns i) = Some True) (plan_nodes ?ns p)"
  ultimately have f: "set f = critical_members s p" by (auto simp: members)
  have "goal_candidates ?ns p = (if f = [] then plan_nodes ?ns p else f)"
    by (simp add: goal_candidates_def f_def)
  then show "set (goal_candidates ?ns p) = plan_goals s p"
    using f members by (auto simp: plan_goals_def)
qed

lemma goals_nonempty:
  assumes "projected s st seeds" "p \<in> set (snap_active_plans s)"
  shows "plan_goals s p \<noteq> {}"
proof -
  have "p \<in> set (declared_plans (state_nodes st))"
    using projected_parts(2) [OF assms(1)] assms(2)
    by (simp add: validate_active_plans_def is_ok_unit [symmetric] check_all_ok)
  then have "plan_members s p \<noteq> {}"
    using projected_nodes(4) [OF assms(1)]
    by (auto simp: declared_plans_def set_map_filter plan_members_def)
  then show ?thesis by (simp add: plan_goals_def)
qed

text \<open>When no cycle is in the way, the goals that no other goal depends on lead to all of them.\<close>

lemma goal_set_reaches:
  assumes "projected s st seeds" "acyclic (snap_deps s)" "p \<in> set (snap_active_plans s)"
  defines "goals \<equiv> set (goal_set (state_nodes st) (graph_dependents (state_graph st)) p)"
  shows "(snap_deps s)\<^sup>* `` goals = (snap_deps s)\<^sup>* `` plan_goals s p" and "goals \<noteq> {}"
proof -
  let ?E = "snap_deps s" and ?C = "plan_goals s p"
  let ?top = "{i \<in> ?C. \<forall>d. (d, i) \<in> ?E \<longrightarrow> d \<notin> ?C}"
  have adj: "d \<in> set (adj (graph_dependents (state_graph st)) i) \<longleftrightarrow> (d, i) \<in> ?E" for d i
    using projected_graph(2) [OF assms(1)] edges_iff by (metis converse_iff)
  have wf: "wf ?E" using finite_snap_deps [OF assms(1)] assms(2) by (rule finite_acyclic_wf)
  have top: "\<exists>g \<in> ?top. (g, c) \<in> ?E\<^sup>*" if "c \<in> ?C" for c
  proof -
    define A where "A = {a \<in> ?C. (a, c) \<in> ?E\<^sup>*}"
    have "c \<in> A" using that by (simp add: A_def)
    then obtain a where "a \<in> A" "\<And>y. (y, a) \<in> ?E \<Longrightarrow> y \<notin> A"
      using wfE_min [OF wf, of c A] by blast
    then have a: "a \<in> ?C \<and> (a, c) \<in> ?E\<^sup>*" "\<And>y. (y, a) \<in> ?E \<Longrightarrow> \<not> (y \<in> ?C \<and> (y, c) \<in> ?E\<^sup>*)"
      by (simp_all add: A_def)
    have "d \<notin> ?C" if "(d, a) \<in> ?E" for d
      using a(1) a(2) [OF that] converse_rtrancl_into_rtrancl [OF that, of c] by simp
    then have "a \<in> ?top" using a(1) by simp
    then show ?thesis using a(1) by blast
  qed
  then have ne: "?top \<noteq> {}" using goals_nonempty [OF assms(1,3)] by blast
  define f where "f = filter (\<lambda>i. \<forall>d \<in> set (adj (graph_dependents (state_graph st)) i).
      d \<notin> set (goal_candidates (state_nodes st) p)) (goal_candidates (state_nodes st) p)"
  have f: "set f = ?top"
    by (simp add: f_def candidates_set [OF assms(1)] Ball_def adj)
  have "goals = set (if f = [] then plan_nodes (state_nodes st) p else f)"
    by (simp add: goals_def goal_set_def f_def Let_def)
  then have goals: "goals = ?top" using f ne by (cases f) simp_all
  show "goals \<noteq> {}" using goals ne by simp
  have "(g, y) \<in> ?E\<^sup>* \<Longrightarrow> g \<in> ?C \<Longrightarrow> y \<in> ?E\<^sup>* `` ?top" for g y
    using top by (meson ImageI rtrancl_trans)
  then show "?E\<^sup>* `` goals = ?E\<^sup>* `` ?C" unfolding goals by blast
qed

lemma project_Inr:
  "project to_vec sha256 s = Some (Inr st) \<longleftrightarrow>
     analyze to_vec sha256 s = Some (Inr st) \<and> graph_cycles (state_graph st) = []"
proof (cases "analyze to_vec sha256 s")
  case (Some r)
  then show ?thesis by (cases r) (auto simp: project_def split: list.splits)
qed (simp add: project_def)

section \<open>Example\<close>

text \<open>A target that depends on one lemma, which is the only node of the only plan.\<close>

definition example_node :: "string \<Rightarrow> node_kind \<Rightarrow> string option \<Rightarrow> string list \<Rightarrow> node_status \<Rightarrow> research_node" where
  "example_node i k p deps c = \<lparr>node_id = i, statement = ''x'', node_kind = k, plan_id = p,
     dependencies = deps, declared_critical = None, node_status = c, revision = 1,
     node_created_round = 0, plan_order = 0, node_order = 0, latest_event_seq = 0\<rparr>"

definition example_snapshot :: "node_status \<Rightarrow> research_snapshot" where
  "example_snapshot c = \<lparr>snap_target = ''t'',
     snap_nodes = [example_node ''t'' KindTarget None [''a''] NodeOpen,
       example_node ''a'' KindLemma (Some ''p'') [] c],
     snap_attempts = [], snap_decisions = [], snap_active_plans = [''p'']\<rparr>"

lemma analyze_ok:
  assumes "checked_parts s = Inr parts"
  obtains st where "analyze (\<lambda>_. Some bytes) sha256 s = Some (Inr st)"
  using analyze_cases [of "\<lambda>_. Some bytes" sha256 s] assms
  by (auto simp: analyze_def digest_state_def Let_def split: prod.splits)

lemma example_analyzed:
  assumes "c \<noteq> Superseded"
  obtains st where "analyze (\<lambda>_. Some []) (\<lambda>_. []) (example_snapshot c) = Some (Inr st)"
proof -
  let ?s = "example_snapshot c"
  have stmt: "validate_text f ''x'' b False = Inr ()" if "1 \<le> b" for f b
    using that by (simp add: validate_text_ok not_blank [of "CHR ''x''"] ws1_def byte_of_def)
  define ns where "ns = bt_collect (map (\<lambda>n. (node_id n, n)) (snap_nodes ?s))"
  have ns: "ns = [(''a'', example_node ''a'' KindLemma (Some ''p'') [] c),
      (''t'', example_node ''t'' KindTarget None [''a''] NodeOpen)]"
    by (simp add: ns_def bt_collect_def example_snapshot_def example_node_def)
  have "nodes_ok (snap_nodes ?s)"
    by (simp add: nodes_ok_def node_ok_def edge_total_def example_snapshot_def example_node_def stmt
        max_statement_bytes_def max_node_dependencies_def max_research_edges_def)
  then have canon: "canonical_nodes ?s = Inr ns" by (simp add: canonical_nodes_Inr ns_def)
  obtain maps where maps: "build_graph ns = Inr maps" using build_graph_built [OF canonical_wf(1) [OF canon]] .
  have "validate_snapshot_limits ?s = Inr ()"
    by (simp add: validate_snapshot_limits_def example_snapshot_def within_limit_def max_research_nodes_def
        max_research_attempts_def max_research_decisions_def max_active_plans_def)
  moreover have "validate_target ?s ns = Inr ()"
    by (simp add: validate_target_def example_snapshot_def ns example_node_def)
  moreover have "validate_active_plans ?s ns = Inr ()"
    using assms by (simp add: validate_active_plans_def declared_plans_def example_snapshot_def ns
        example_node_def is_active_def check_all_def map_filter_simps)
  moreover have "canonical_attempts ?s ns = Inr []" "canonical_decisions ?s ns = Inr []"
    by (simp_all add: canonical_attempts_def canonical_decisions_def example_snapshot_def)
  ultimately have "checked_parts ?s = Inr (ns, [], [], maps)"
    using canon maps by (simp add: checked_parts_def)
  then show thesis using that by (rule analyze_ok)
qed

lemma example_deps:
  assumes "c \<noteq> Superseded"
  shows "snap_deps (example_snapshot c) = {(''t'', ''a'')}" "snap_active (example_snapshot c) = {''t'', ''a''}"
    "acyclic (snap_deps (example_snapshot c))" "\<not> lost_support (example_snapshot c) i d"
    "has_status (example_snapshot c) x i \<longleftrightarrow> i = ''t'' \<and> x = NodeOpen \<or> i = ''a'' \<and> x = c"
    "(i, d) \<in> (snap_deps (example_snapshot c))\<^sup>* \<longleftrightarrow> i = d \<or> i = ''t'' \<and> d = ''a''"
    "(i, d) \<in> (snap_deps (example_snapshot c))\<^sup>+ \<longleftrightarrow> i = ''t'' \<and> d = ''a''"
proof -
  show active: "snap_active (example_snapshot c) = {''t'', ''a''}"
    using assms by (auto simp: snap_active_def example_snapshot_def example_node_def is_active_def)
  show deps: "snap_deps (example_snapshot c) = {(''t'', ''a'')}"
    unfolding snap_deps_def active using assms
    by (auto simp: example_snapshot_def example_node_def is_active_def)
  show "\<not> lost_support (example_snapshot c) i d"
    unfolding lost_support_def active by (auto simp: example_snapshot_def example_node_def)
  show "has_status (example_snapshot c) x i \<longleftrightarrow> i = ''t'' \<and> x = NodeOpen \<or> i = ''a'' \<and> x = c"
    by (auto simp: has_status_def example_snapshot_def example_node_def)
  show plus: "(i, d) \<in> (snap_deps (example_snapshot c))\<^sup>+ \<longleftrightarrow> i = ''t'' \<and> d = ''a''" for i d
    unfolding deps by (auto elim: tranclE converse_tranclE)
  then show "acyclic (snap_deps (example_snapshot c))" by (simp add: acyclic_def)
  show "(i, d) \<in> (snap_deps (example_snapshot c))\<^sup>* \<longleftrightarrow> i = d \<or> i = ''t'' \<and> d = ''a''"
    using plus by (auto simp: rtrancl_eq_or_trancl)
qed

lemma example_projected:
  obtains st where "project (\<lambda>_. Some []) (\<lambda>_. []) (example_snapshot RouteSolved) = Some (Inr st)"
proof -
  obtain st where st: "analyze (\<lambda>_. Some []) (\<lambda>_. []) (example_snapshot RouteSolved) = Some (Inr st)"
    using example_analyzed [of RouteSolved] by blast
  then obtain seeds where "projected (example_snapshot RouteSolved) st seeds" using analyze_projected by blast
  then show thesis
    using that st projected_acyclic example_deps(3) [of RouteSolved] by (simp add: project_Inr)
qed

lemma example_goals: "plan_goals (example_snapshot RouteSolved) ''p'' = {''a''}"
  by (auto simp: plan_goals_def critical_members_def plan_members_def example_snapshot_def
      example_node_def is_active_def)

section \<open>The properties\<close>

text \<open>C8. The projector always returns: it projects exactly the snapshots it can analyze whose
  dependencies between active nodes have no cycle, and for the others it names a cycle.\<close>

theorem projection_decides_cycles:
  "\<exists>r. analyze to_vec sha256 s = Some r \<and>
     project to_vec sha256 s = Some (bind_r r (\<lambda>st. if acyclic (snap_deps s) then Inr st
       else Inl (ActiveDependencyCycle (hd (graph_cycles (state_graph st))))))"
proof (cases "\<exists>e. analyze to_vec sha256 s = Some (Inl e)")
  case True
  then show ?thesis by (auto simp: project_def)
next
  case False
  then obtain st seeds where st: "analyze to_vec sha256 s = Some (Inr st)" "projected s st seeds"
    using analyze_cases by blast
  then show ?thesis
    using projected_acyclic [OF st(2)] by (auto simp: project_def split: list.split)
qed

text \<open>C7. The cycles an analyzed state shows are exactly the sets of nodes that depend on each other,
  and its order has, once and behind what they depend on, exactly the active nodes that depend on no
  cycle.\<close>

theorem research_graph_exact:
  assumes "analyze to_vec sha256 s = Some (Inr st)"
  shows "set ` set (graph_cycles (state_graph st)) =
      {{y. (x, y) \<in> (snap_deps s)\<^sup>* \<and> (y, x) \<in> (snap_deps s)\<^sup>*} | x. (x, x) \<in> (snap_deps s)\<^sup>+} \<and>
    distinct (graph_order (state_graph st)) \<and>
    set (graph_order (state_graph st)) =
      {x \<in> snap_active s. \<not> (\<exists>y. (x, y) \<in> (snap_deps s)\<^sup>* \<and> (y, y) \<in> (snap_deps s)\<^sup>+)} \<and>
    (\<forall>as x bs d. graph_order (state_graph st) = as @ x # bs \<longrightarrow> (x, d) \<in> snap_deps s \<longrightarrow> d \<in> set as)"
proof -
  obtain seeds where p: "projected s st seeds" using analyze_projected [OF assms] .
  note canon = canonical_active [OF projected_parts(1) [OF p]]
  have order: "topological_order (graph_dependencies (state_graph st)) (graph_dependents (state_graph st))
      (state_nodes st) = Some (graph_order (state_graph st))"
    using p by (simp add: projected_def Let_def)
  obtain order where "graph_order (state_graph st) = order" "distinct order"
    "\<And>x. x \<in> set order \<longleftrightarrow>
       x \<in> snap_active s \<and> \<not> (\<exists>y. (x, y) \<in> (snap_deps s)\<^sup>* \<and> (y, y) \<in> (snap_deps s)\<^sup>+)"
    "in_order (\<lambda>x. set (adj (graph_dependencies (state_graph st)) x)) order"
    by (rule built_order [OF projected_parts(3) [OF p], unfolded canon order option.inject]) (rule that)
  moreover have "d \<in> set (adj (graph_dependencies (state_graph st)) x) \<longleftrightarrow> (x, d) \<in> snap_deps s" for x d
    using projected_graph(1) [OF p] edges_iff by metis
  ultimately show ?thesis
    using projected_cycles(1) [OF p] unfolding cycle_of_def in_order_def by (auto simp: subset_iff)
qed

theorem research_graph_exact_witness:
  "\<exists>st. analyze (\<lambda>_. Some []) (\<lambda>_. []) (example_snapshot NodeOpen) = Some (Inr st) \<and>
     graph_cycles (state_graph st) = [] \<and> set (graph_order (state_graph st)) = {''t'', ''a''}"
proof -
  obtain st where st: "analyze (\<lambda>_. Some []) (\<lambda>_. []) (example_snapshot NodeOpen) = Some (Inr st)"
    using example_analyzed [of NodeOpen] by blast
  show ?thesis using research_graph_exact [OF st] st by (auto simp: example_deps(2,4-7))
qed

text \<open>C6. A node is listed with an issue exactly when it depends, over any number of active nodes, on
  one where that issue starts: a refuted node, a cycle, or a node whose own dependency is superseded.\<close>

theorem route_issues_exact:
  assumes "analyze to_vec sha256 s = Some (Inr st)"
  shows "{(x, q). \<exists>qs. (x, qs) \<in> set (state_invalid st) \<and> q \<in> set qs} =
      {(x, q). \<exists>y. (x, y) \<in> (snap_deps s)\<^sup>* \<and> issue_starts s (graph_cycles (state_graph st)) y q} \<and>
    fst ` set (state_invalid st) = {x. tainted s x} \<and> distinct (map fst (state_invalid st))"
proof -
  obtain seeds where p: "projected s st seeds" using analyze_projected [OF assms] .
  note invalid = projected_derived(3,4) [OF p]
  have "{(x, q). \<exists>qs. (x, qs) \<in> set (state_invalid st) \<and> q \<in> set qs} = known_issues (state_issues st seeds)"
    unfolding invalid by (auto simp: known_issues_iff)
  moreover have "fst ` set (state_invalid st) = {x. map_of (state_issues st seeds) x \<noteq> None}"
    unfolding invalid by force
  ultimately show ?thesis
    using projected_issues [OF p] issue_iff_tainted [OF p] invalid(2) by auto
qed

theorem route_issues_exact_witness:
  "\<exists>st. analyze (\<lambda>_. Some []) (\<lambda>_. []) (example_snapshot Refuted) = Some (Inr st) \<and>
     fst ` set (state_invalid st) = {''t'', ''a''}"
proof -
  obtain st where st: "analyze (\<lambda>_. Some []) (\<lambda>_. []) (example_snapshot Refuted) = Some (Inr st)"
    using example_analyzed [of Refuted] by blast
  have "{x. tainted (example_snapshot Refuted) x} = {''t'', ''a''}"
    by (auto simp: tainted_def example_deps(2,4-7))
  then show ?thesis using route_issues_exact [OF st] st by auto
qed

text \<open>C9. The frontier has exactly the nodes worth working on: open, partial or blocked ones (the target
  only while no plan is active) that no issue reaches and whose active dependencies are all solved; the
  ones on a critical path come first.\<close>

theorem frontier_exact:
  assumes "analyze to_vec sha256 s = Some (Inr st)"
  shows "set (state_frontier st) = {i. \<exists>n \<in> set (snap_nodes s). node_id n = i \<and>
      node_status n \<in> {NodeOpen, NodePartial, Blocked} \<and>
      (node_kind n = KindTarget \<longrightarrow> snap_active_plans s = []) \<and> \<not> tainted s i \<and>
      (\<forall>d. (i, d) \<in> snap_deps s \<longrightarrow> has_status s RouteSolved d)} \<and>
    (\<forall>as i bs j cs. state_frontier st = as @ i # bs @ j # cs \<longrightarrow>
      j \<in> set (state_critical st) \<longrightarrow> i \<in> set (state_critical st))"
proof
  obtain seeds where p: "projected s st seeds" using analyze_projected [OF assms] .
  note frontier = projected_derived(1) [OF p]
  have mem: "d \<in> set (adj (graph_dependencies (state_graph st)) x) \<longleftrightarrow> (x, d) \<in> snap_deps s" for x d
    using projected_graph(1) [OF p] edges_iff by metis
  have adj: "list_all (solved_at (state_nodes st)) (adj (graph_dependencies (state_graph st)) i) \<longleftrightarrow>
      (\<forall>d. (i, d) \<in> snap_deps s \<longrightarrow> has_status s RouteSolved d)" for i
    by (simp add: list_all_iff Ball_def mem solved_at_status [OF p])
  have untainted: "map_of (state_issues st seeds) i = None \<longleftrightarrow> \<not> tainted s i" for i
    using issue_iff_tainted [OF p, of i] by blast
  show "set (state_frontier st) = {i. \<exists>n \<in> set (snap_nodes s). node_id n = i \<and>
      node_status n \<in> {NodeOpen, NodePartial, Blocked} \<and>
      (node_kind n = KindTarget \<longrightarrow> snap_active_plans s = []) \<and> \<not> tainted s i \<and>
      (\<forall>d. (i, d) \<in> snap_deps s \<longrightarrow> has_status s RouteSolved d)}"
    unfolding frontier set_ordered_ids actionable_ids_def set_map set_filter list.set_map
      projected_nodes(4) [OF p] adj untainted is_actionable_def by auto
  show "\<forall>as i bs j cs. state_frontier st = as @ i # bs @ j # cs \<longrightarrow>
      j \<in> set (state_critical st) \<longrightarrow> i \<in> set (state_critical st)"
  proof (intro allI impI)
    fix as i bs j cs
    assume split: "state_frontier st = as @ i # bs @ j # cs" and j: "j \<in> set (state_critical st)"
    let ?key = "critical_key (state_nodes st) (Some (set (state_critical st)))"
    have "sorted (map ?key (state_frontier st))" by (simp add: frontier ordered_ids_def)
    then have "?key i \<le> ?key j" unfolding split by (simp add: sorted_append)
    then show "i \<in> set (state_critical st)" using j by (auto simp: critical_key_def less_eq_prod_def)
  qed
qed

theorem frontier_exact_witness:
  "\<exists>st. analyze (\<lambda>_. Some []) (\<lambda>_. []) (example_snapshot NodeOpen) = Some (Inr st) \<and>
     set (state_frontier st) = {''a''}"
proof -
  obtain st where st: "analyze (\<lambda>_. Some []) (\<lambda>_. []) (example_snapshot NodeOpen) = Some (Inr st)"
    using example_analyzed [of NodeOpen] by blast
  have "\<not> tainted (example_snapshot NodeOpen) i" for i by (simp add: tainted_def example_deps(2,4-7))
  moreover have "snap_nodes (example_snapshot NodeOpen) = [example_node ''t'' KindTarget None [''a''] NodeOpen,
      example_node ''a'' KindLemma (Some ''p'') [] NodeOpen]" "snap_active_plans (example_snapshot NodeOpen) = [''p'']"
    by (simp_all add: example_snapshot_def)
  ultimately have "set (state_frontier st) = {''a''}"
    unfolding frontier_exact [OF st, THEN conjunct1]
    by (auto simp: example_deps(1,2) example_node_def)
  then show ?thesis using st by blast
qed

lemma route_solved_iff:
  assumes "project to_vec sha256 s = Some (Inr st)" "map_of (state_routes st) p = Some r"
  shows "route_solved r \<longleftrightarrow> (\<forall>i \<in> plan_goals s p. \<forall>y. (i, y) \<in> (snap_deps s)\<^sup>* \<longrightarrow>
    has_status s RouteSolved y \<and> (\<forall>d. \<not> lost_support s y d))"
proof -
  have an: "analyze to_vec sha256 s = Some (Inr st)" "graph_cycles (state_graph st) = []"
    using assms(1) by (simp_all add: project_Inr)
  then obtain seeds where p: "projected s st seeds" using analyze_projected by blast
  have acyc: "acyclic (snap_deps s)" using an(2) projected_acyclic [OF p] by simp
  have active: "p \<in> set (snap_active_plans s)" and r: "r = plan_route (state_nodes st)
      (graph_dependencies (state_graph st)) (graph_dependents (state_graph st)) (state_issues st seeds)
      (actionable_ids s (state_nodes st) (graph_dependencies (state_graph st)) (state_issues st seeds)) p"
    using assms(2) unfolding projected_derived(2) [OF p] by (auto split: if_splits)
  let ?goals = "goal_set (state_nodes st) (graph_dependents (state_graph st)) p"
  let ?C = "(snap_deps s)\<^sup>* `` plan_goals s p"
  note reach = goal_set_reaches [OF p acyc active]
  have C: "critical_closure (graph_dependencies (state_graph st)) ?goals = ?C" "finite ?C"
    using critical_closure_set [OF p, of ?goals] reach(1) by simp_all
  have "ordered_ids ?goals ns None \<noteq> []" for ns using reach(2) by (metis set_empty set_ordered_ids)
  moreover have "ordered_ids (filter Q (sorted_list_of_set ?C)) ns c = [] \<longleftrightarrow> (\<forall>y \<in> ?C. \<not> Q y)" for Q ns c
    using C(2) by (metis (mono_tags, lifting) filter_empty_conv set_empty set_ordered_ids set_sorted_list_of_set)
  moreover have "list_all Q (ordered_ids (sorted_list_of_set ?C) ns None) \<longleftrightarrow> (\<forall>y \<in> ?C. Q y)" for Q ns
    using C(2) by (simp add: list_all_iff)
  ultimately have solved: "route_solved r \<longleftrightarrow> (\<forall>y \<in> ?C. \<not> tainted s y) \<and> (\<forall>y \<in> ?C. has_status s RouteSolved y)"
    unfolding r plan_route_def Let_def C(1) using issue_iff_tainted [OF p] solved_at_status [OF p] by simp
  have single: "\<not> has_status s Refuted y" if rs: "has_status s RouteSolved y" for y
  proof
    assume "has_status s Refuted y"
    then obtain n where n: "map_of (state_nodes st) y = Some n" "node_status n = Refuted"
      using projected_nodes(1) [OF p, of y] by (auto simp: has_status_def)
    obtain m where "map_of (state_nodes st) y = Some m" "node_status m = RouteSolved"
      using rs projected_nodes(1) [OF p, of y] by (auto simp: has_status_def)
    then show False using n by simp
  qed
  have closed: "z \<in> ?C" if "y \<in> ?C" "(y, z) \<in> (snap_deps s)\<^sup>*" for y z
    using that by (meson Image_iff rtrancl_trans)
  have "(\<forall>y \<in> ?C. \<not> tainted s y) \<longleftrightarrow> (\<forall>y \<in> ?C. \<forall>d. \<not> lost_support s y d)"
    if all: "\<forall>y \<in> ?C. has_status s RouteSolved y"
  proof
    assume "\<forall>y \<in> ?C. \<not> tainted s y"
    then show "\<forall>y \<in> ?C. \<forall>d. \<not> lost_support s y d" unfolding tainted_def by blast
  next
    assume "\<forall>y \<in> ?C. \<forall>d. \<not> lost_support s y d"
    then show "\<forall>y \<in> ?C. \<not> tainted s y"
      unfolding tainted_def using closed all single acyc by (metis acyclic_def)
  qed
  then have "route_solved r \<longleftrightarrow> (\<forall>y \<in> ?C. has_status s RouteSolved y \<and> (\<forall>d. \<not> lost_support s y d))"
    unfolding solved by blast
  then show ?thesis by blast
qed

text \<open>C5. A route is called solved exactly when it is: every goal of the plan (its declared critical
  nodes, or all its nodes if none is declared) and every active node a goal depends on over any number
  of steps has been solved, and none of them has lost a dependency to a superseded node.\<close>

theorem solved_route_exact:
  assumes "project to_vec sha256 s = Some (Inr st)" "map_of (state_routes st) p = Some r"
  shows "route_solved r \<longleftrightarrow> (\<forall>i \<in> plan_goals s p. \<forall>y. (i, y) \<in> (snap_deps s)\<^sup>* \<longrightarrow>
    has_status s RouteSolved y \<and> (\<forall>d. \<not> lost_support s y d))"
  using assms by (rule route_solved_iff)

theorem solved_route_exact_witness:
  "\<exists>st r. project (\<lambda>_. Some []) (\<lambda>_. []) (example_snapshot RouteSolved) = Some (Inr st) \<and>
     map_of (state_routes st) ''p'' = Some r \<and> route_solved r"
proof -
  let ?s = "example_snapshot RouteSolved"
  obtain st where pr: "project (\<lambda>_. Some []) (\<lambda>_. []) ?s = Some (Inr st)"
    using example_projected by blast
  then have "analyze (\<lambda>_. Some []) (\<lambda>_. []) ?s = Some (Inr st)" by (simp add: project_Inr)
  then obtain seeds where p: "projected ?s st seeds" by (rule analyze_projected)
  have "''p'' \<in> set (snap_active_plans ?s)" by (simp add: example_snapshot_def)
  then obtain r where r: "map_of (state_routes st) ''p'' = Some r"
    using projected_derived(2) [OF p, of "''p''"] by auto
  have "route_solved r"
    using solved_route_exact [OF pr r] by (simp add: example_goals example_deps(2,4-7))
  then show ?thesis using pr r by blast
qed

section \<open>The order of the snapshot\<close>

lemma fold_r_distinct:
  assumes "\<And>x seen r. f x seen = Inr r \<longleftrightarrow> P x \<and> h x \<notin> seen \<and> r = insert (h x) seen"
  shows "fold_r f xs seen = Inr r \<longleftrightarrow> (\<forall>x \<in> set xs. P x) \<and> distinct (map h xs) \<and>
    h ` set xs \<inter> seen = {} \<and> r = h ` set xs \<union> seen"
proof (induction xs arbitrary: seen)
  case (Cons x xs)
  have "fold_r f (x # xs) seen = Inr r \<longleftrightarrow> P x \<and> h x \<notin> seen \<and> fold_r f xs (insert (h x) seen) = Inr r"
    by (auto simp: bind_r_eq_Inr assms)
  then show ?case unfolding Cons.IH by auto
qed auto

definition attempt_ok :: "node_map \<Rightarrow> research_attempt \<Rightarrow> bool" where
  "attempt_ok ns a \<longleftrightarrow> is_ok (validate_text ''attempt.summary'' (attempt_summary a) max_summary_bytes False) \<and>
     length (evidence_ids a) \<le> max_evidence_ids \<and> map_of ns (attempt_node_id a) \<noteq> None"

lemma check_attempt_Inr:
  "check_attempt ns a seen = Inr r \<longleftrightarrow> attempt_ok ns a \<and> attempt_id a \<notin> seen \<and> r = insert (attempt_id a) seen"
  by (auto simp: check_attempt_def attempt_ok_def bind_r_eq_Inr is_ok_unit)

definition decision_ok :: "node_map \<Rightarrow> string list \<Rightarrow> research_decision \<Rightarrow> bool" where
  "decision_ok ns plans d \<longleftrightarrow> is_ok (validate_text ''decision.reason'' (decision_reason d) max_reason_bytes False) \<and>
     length (superseded_plan_ids d) \<le> max_decision_plan_ids \<and>
     length (preserved_node_ids d) \<le> max_decision_node_ids \<and>
     length (new_constraints d) \<le> max_decision_constraints \<and>
     is_ok (check_all (\<lambda>i. ensure (map_of ns i \<noteq> None) (UnknownDecisionNode (decision_id d) i))
       (preserved_node_ids d @ focus_list d)) \<and>
     is_ok (check_all (\<lambda>p. ensure (p \<in> set plans) (UnknownDecisionPlan (decision_id d) p))
       (superseded_plan_ids d))"

lemma check_decision_Inr:
  "check_decision ns plans d seen = Inr r \<longleftrightarrow>
     decision_ok ns plans d \<and> decision_id d \<notin> seen \<and> r = insert (decision_id d) seen"
  by (auto simp: check_decision_def decision_ok_def bind_r_eq_Inr is_ok_unit)

text \<open>Two snapshots that list the same things in any order.\<close>

definition same_content :: "research_snapshot \<Rightarrow> research_snapshot \<Rightarrow> bool" where
  "same_content s s' \<longleftrightarrow> snap_target s = snap_target s' \<and> snap_active_plans s = snap_active_plans s' \<and>
     mset (snap_nodes s) = mset (snap_nodes s') \<and> mset (snap_attempts s) = mset (snap_attempts s') \<and>
     mset (snap_decisions s) = mset (snap_decisions s')"

lemma mset_maps:
  assumes "mset xs = mset ys"
  shows "set xs = set ys" "length xs = length ys" "distinct (map f xs) \<longleftrightarrow> distinct (map f ys)"
  using assms mset_eq_setD mset_eq_length mset_eq_imp_distinct_iff [of "map f xs" "map f ys"] by auto

lemma option_ext: "(\<And>n. x = Some n \<longleftrightarrow> y = Some n) \<Longrightarrow> x = y"
  by (cases x; cases y) auto

lemma sort_key_same:
  assumes "mset xs = mset ys" "distinct (map f xs)"
  shows "sort_key f xs = sort_key f ys"
  using assms by (intro sort_key_inj_key_eq) (simp_all add: distinct_map)

lemma canonical_nodes_same:
  assumes "same_content s s'" "canonical_nodes s = Inr ns"
  shows "canonical_nodes s' = Inr ns"
proof -
  have m: "mset (snap_nodes s) = mset (snap_nodes s')" using assms(1) by (simp add: same_content_def)
  have ok: "nodes_ok (snap_nodes s)" "ns = bt_collect (map (\<lambda>n. (node_id n, n)) (snap_nodes s))"
    using assms(2) by (simp_all add: canonical_nodes_Inr)
  have "edge_total (snap_nodes s) = edge_total (snap_nodes s')"
  proof -
    have "sum_mset (mset (map (\<lambda>n. length (dependencies n)) (snap_nodes s))) =
        sum_mset (mset (map (\<lambda>n. length (dependencies n)) (snap_nodes s')))" using m by simp
    then show ?thesis by (simp only: edge_total_def sum_mset_sum_list)
  qed
  then have ok': "nodes_ok (snap_nodes s')" using ok(1) mset_maps(1) [OF m] mset_maps(3) [OF m, of node_id] by (simp add: nodes_ok_def)
  let ?ns' = "bt_collect (map (\<lambda>n. (node_id n, n)) (snap_nodes s'))"
  have "map_of ?ns' i = Some n \<longleftrightarrow> map_of ns i = Some n" for i n
    using ok ok' mset_maps(1) [OF m] by (simp add: map_of_entries nodes_ok_def)
  then have "map_of ?ns' i = map_of ns i" for i by (rule option_ext)
  then have "bt_collect (map (\<lambda>n. (node_id n, n)) (snap_nodes s')) = ns"
    unfolding ok(2) by (intro keys_sorted_eq sorted_bt_collect) (simp add: fun_eq_iff)
  then show ?thesis using ok' by (simp add: canonical_nodes_Inr)
qed

lemma checked_parts_same:
  assumes "same_content s s'" "checked_parts s = Inr parts"
  shows "checked_parts s' = Inr parts"
proof -
  have same: "snap_target s = snap_target s'" "snap_active_plans s = snap_active_plans s'"
    and m: "mset (snap_nodes s) = mset (snap_nodes s')" "mset (snap_attempts s) = mset (snap_attempts s')"
      "mset (snap_decisions s) = mset (snap_decisions s')"
    using assms(1) by (simp_all add: same_content_def)
  obtain ns attempts decisions maps where c: "validate_snapshot_limits s = Inr ()" "canonical_nodes s = Inr ns"
    "validate_target s ns = Inr ()" "validate_active_plans s ns = Inr ()"
    "canonical_attempts s ns = Inr attempts" "canonical_decisions s ns = Inr decisions"
    "build_graph ns = Inr maps" "parts = (ns, attempts, decisions, maps)"
    using assms(2) by (auto simp: checked_parts_def bind_r_eq_Inr)
  have "validate_snapshot_limits s' = Inr ()"
    using c(1) mset_maps(2) [OF m(1)] mset_maps(2) [OF m(2)] mset_maps(2) [OF m(3)] same(2)
    by (simp add: validate_snapshot_limits_def)
  moreover have "validate_target s' ns = Inr ()" using c(3) by (simp only: validate_target_def same)
  moreover have "validate_active_plans s' ns = Inr ()" using c(4) same by (simp add: validate_active_plans_def)
  moreover have "canonical_attempts s' ns = Inr attempts"
  proof -
    have ok: "\<forall>a \<in> set (snap_attempts s). attempt_ok ns a" "distinct (map attempt_id (snap_attempts s))"
      "attempts = sort_key attempt_key (snap_attempts s)"
      using c(5) by (auto simp: canonical_attempts_def bind_r_eq_Inr fold_r_distinct [OF check_attempt_Inr])
    then have "distinct (map attempt_key (snap_attempts s))"
      by (auto simp: distinct_map attempt_key_def inj_on_def)
    then have "sort_key attempt_key (snap_attempts s') = attempts"
      using sort_key_same [OF m(2)] ok(3) by metis
    then show ?thesis
      using ok mset_maps(1) [OF m(2)] mset_maps(3) [OF m(2), of attempt_id]
      by (simp add: canonical_attempts_def bind_r_eq_Inr fold_r_distinct [OF check_attempt_Inr])
  qed
  moreover have "canonical_decisions s' ns = Inr decisions"
  proof -
    have plans: "known_plans s' ns = known_plans s ns" using same by (simp add: known_plans_def)
    have ok: "\<forall>d \<in> set (snap_decisions s). decision_ok ns (known_plans s ns) d"
      "distinct (map decision_id (snap_decisions s))" "decisions = sort_key decision_key (snap_decisions s)"
      using c(6) by (auto simp: canonical_decisions_def bind_r_eq_Inr fold_r_distinct [OF check_decision_Inr])
    then have "distinct (map decision_key (snap_decisions s))"
      by (auto simp: distinct_map decision_key_def inj_on_def)
    then have "sort_key decision_key (snap_decisions s') = decisions"
      using sort_key_same [OF m(3)] ok(3) by metis
    then show ?thesis
      using ok mset_maps(1) [OF m(3)] mset_maps(3) [OF m(3), of decision_id]
      by (simp add: canonical_decisions_def bind_r_eq_Inr fold_r_distinct [OF check_decision_Inr] plans)
  qed
  ultimately show ?thesis
    using canonical_nodes_same [OF assms(1) c(2)] c(7,8) by (simp add: checked_parts_def)
qed

lemma analyze_same:
  assumes "same_content s s'" "analyze to_vec sha256 s = Some (Inr st)"
  shows "analyze to_vec sha256 s' = Some (Inr st)"
proof -
  obtain parts where parts: "checked_parts s = Inr parts"
    using assms(2) by (cases "checked_parts s") (simp_all add: analyze_def)
  have "derive_state s ns attempts decisions g seeds = derive_state s' ns attempts decisions g seeds"
    for ns attempts decisions g seeds
    using assms(1) by (simp add: derive_state_def actionable_ids_def derive_plan_routes_def same_content_def)
  then show ?thesis
    using assms(2) parts checked_parts_same [OF assms(1) parts] by (simp add: analyze_def)
qed

text \<open>C11. A state does not depend on the order in which the snapshot lists its nodes, attempts and
  decisions: a snapshot with the same content yields the same state, digest included.\<close>

theorem snapshot_order_is_irrelevant:
  assumes "same_content s s'"
  shows "analyze to_vec sha256 s = Some (Inr st) \<longleftrightarrow> analyze to_vec sha256 s' = Some (Inr st)"
proof -
  have "same_content s' s" using assms by (simp add: same_content_def)
  then show ?thesis using analyze_same assms by blast
qed

theorem snapshot_order_is_irrelevant_witness:
  "\<exists>st. analyze (\<lambda>_. Some []) (\<lambda>_. [])
     (example_snapshot NodeOpen\<lparr>snap_nodes := rev (snap_nodes (example_snapshot NodeOpen))\<rparr>) = Some (Inr st)"
proof -
  let ?s = "example_snapshot NodeOpen"
  obtain st where "analyze (\<lambda>_. Some []) (\<lambda>_. []) ?s = Some (Inr st)"
    using example_analyzed [of NodeOpen] by blast
  moreover have "same_content ?s (?s\<lparr>snap_nodes := rev (snap_nodes ?s)\<rparr>)" by (simp add: same_content_def)
  ultimately show ?thesis using snapshot_order_is_irrelevant by blast
qed

end
