(* ===== verification/Research_Advice.thy ===== *)
theory Research_Advice
  imports Research_Routes
begin

text \<open>
  The advice derived from a research state, \<open>research_state/advice.rs\<close>: eight rules tried in a fixed
  order, each with the node it points at and the facts it rests on. The rule \<open>Assemble\<close> of the source is
  \<open>AssembleRoute\<close> here, since a workflow state has the same name.
\<close>

datatype research_advice_rule =
    AssembleRoute | ReplanRefuted | ReplanCycle | TestCounterexample | RetrieveFocused
  | StopRetrieval | ScreenFrontier | Consolidate | ReviewState

fun advice_rule_as_str :: "research_advice_rule \<Rightarrow> string" where
  "advice_rule_as_str AssembleRoute = ''R08_ASSEMBLE''"
| "advice_rule_as_str ReplanRefuted = ''R01_REPLAN_REFUTED''"
| "advice_rule_as_str ReplanCycle = ''R02_REPLAN_CYCLE''"
| "advice_rule_as_str TestCounterexample = ''R03_TEST_COUNTEREXAMPLE''"
| "advice_rule_as_str RetrieveFocused = ''R04_RETRIEVE_FOCUSED''"
| "advice_rule_as_str StopRetrieval = ''R05_STOP_RETRIEVAL''"
| "advice_rule_as_str ScreenFrontier = ''R06_SCREEN_FRONTIER''"
| "advice_rule_as_str Consolidate = ''R07_CONSOLIDATE''"
| "advice_rule_as_str ReviewState = ''R09_REVIEW_STATE''"

record research_advisory =
  rule_id :: research_advice_rule
  focus_node_id :: "string option"
  advice_summary :: string
  evidence_facts :: "string list"

definition advisory_new ::
  "research_advice_rule \<Rightarrow> string option \<Rightarrow> string \<Rightarrow> string list \<Rightarrow> research_advisory" where
  "advisory_new r focus sm facts =
     \<lparr>rule_id = r, focus_node_id = focus, advice_summary = sm, evidence_facts = facts\<rparr>"

section \<open>What the rules look for\<close>

definition target_or_route_solved :: "research_state \<Rightarrow> bool" where
  "target_or_route_solved st \<longleftrightarrow>
     solved_at (state_nodes st) (state_target st) \<or> list_ex route_solved (map snd (state_routes st))"

definition refuted_at :: "node_map \<Rightarrow> string \<Rightarrow> bool" where
  "refuted_at ns i = (case map_of ns i of None \<Rightarrow> False | Some n \<Rightarrow> node_status n = Refuted)"

definition refuted_without_viable_alternative :: "research_state \<Rightarrow> string option" where
  "refuted_without_viable_alternative st =
     (case List.find (refuted_at (state_nodes st)) (state_critical st) of
        None \<Rightarrow> None
      | Some i \<Rightarrow>
          if list_ex (\<lambda>r. route_invalid_nodes r = []) (map snd (state_routes st)) then None else Some i)"

definition attempts_for_node :: "research_state \<Rightarrow> string \<Rightarrow> research_attempt list" where
  "attempts_for_node st i = filter (\<lambda>a. attempt_node_id a = i) (state_attempts st)"

definition direct_failures :: "research_state \<Rightarrow> string \<Rightarrow> nat" where
  "direct_failures st i = length (filter (\<lambda>a. attempt_method a = Direct \<and> attempt_outcome a = OutcomeFailed)
     (attempts_for_node st i))"

definition counterexample_due :: "research_state \<Rightarrow> string \<Rightarrow> bool" where
  "counterexample_due st i \<longleftrightarrow> 2 \<le> direct_failures st i \<and>
     \<not> list_ex (\<lambda>a. attempt_method a = Counterexample) (attempts_for_node st i)"

definition repeated_direct_failure_without_counterexample :: "research_state \<Rightarrow> (string \<times> nat) option" where
  "repeated_direct_failure_without_counterexample st =
     map_option (\<lambda>i. (i, direct_failures st i)) (List.find (counterexample_due st) (state_blockers st))"

definition retrieval_due :: "research_state \<Rightarrow> string \<Rightarrow> bool" where
  "retrieval_due st i \<longleftrightarrow>
     list_ex (\<lambda>a. obstruction a = Some MissingReference) (attempts_for_node st i) \<and>
     \<not> list_ex (\<lambda>a. attempt_method a = Retrieval) (attempts_for_node st i)"

definition missing_reference_without_retrieval :: "research_state \<Rightarrow> string option" where
  "missing_reference_without_retrieval st = List.find (retrieval_due st) (state_blockers st)"

text \<open>The streak of inconclusive retrievals, from the last one backwards.\<close>

fun retrieval_streak :: "research_attempt list \<Rightarrow> nat \<times> string option \<Rightarrow> nat \<times> string option" where
  "retrieval_streak [] acc = acc"
| "retrieval_streak (a # as) (consecutive, focus) =
     (if attempt_outcome a = Inconclusive then retrieval_streak as (consecutive + 1, Some (attempt_node_id a))
      else (consecutive, focus))"

definition repeated_retrieval_without_novelty :: "research_state \<Rightarrow> (string \<times> nat) option" where
  "repeated_retrieval_without_novelty st =
     (let retrievals = filter (\<lambda>a. attempt_method a = Retrieval) (state_attempts st) in
      if length retrievals < 2 then None
      else (case retrieval_streak (rev retrievals) (0, None) of (consecutive, focus) \<Rightarrow>
        if 2 \<le> consecutive then map_option (\<lambda>i. (i, consecutive)) focus else None))"

definition untouched_actionable_critical_node :: "research_state \<Rightarrow> string option" where
  "untouched_actionable_critical_node st =
     List.find (\<lambda>i. i \<in> set (state_critical st) \<and> attempts_for_node st i = []) (state_frontier st)"

definition partial_progress :: "research_state \<Rightarrow> string \<Rightarrow> nat" where
  "partial_progress st i = length (filter (\<lambda>a. attempt_method a \<noteq> Retrieval \<and> attempt_outcome a = Progress)
     (attempts_for_node st i))"

definition partial_at :: "node_map \<Rightarrow> string \<Rightarrow> bool" where
  "partial_at ns i = (case map_of ns i of None \<Rightarrow> False | Some n \<Rightarrow> node_status n = NodePartial)"

definition compatible_partial_progress :: "research_state \<Rightarrow> (string \<times> nat) option" where
  "compatible_partial_progress st =
     map_option (\<lambda>i. (i, partial_progress st i))
       (List.find (\<lambda>i. partial_at (state_nodes st) i \<and> 2 \<le> partial_progress st i) (state_blockers st))"

section \<open>The summaries\<close>

definition msg_assemble :: string where
  "msg_assemble = ''A complete route is available; assemble the full LaTeX proof.''"

definition msg_replan_refuted :: string where
  "msg_replan_refuted = ''A proof-critical claim is refuted and no viable alternative route remains; replan around the counterexample.''"

definition msg_test_counterexample :: string where
  "msg_test_counterexample = ''Repeated direct proof attempts failed; test the smallest meaningful examples before another proof attempt.''"

definition msg_retrieve :: string where
  "msg_retrieve = ''The current obstruction is a missing external result; retrieve one focused source for this claim.''"

definition msg_stop_retrieval :: string where
  "msg_stop_retrieval = ''Recent retrieval attempts added no new material; stop searching and synthesize the sources already collected.''"

definition msg_screen :: string where
  "msg_screen = ''An untouched proof-critical frontier claim is actionable; attempt it directly or test a diagnostic toy example.''"

definition msg_consolidate :: string where
  "msg_consolidate = ''Several non-retrieval attempts made compatible partial progress; consolidate them into one reusable lemma.''"

definition msg_review :: string where
  "msg_review = ''No more specific research rule applies; review the current declarations and choose the next mathematical action.''"

definition msg_circular :: string where
  "msg_circular = ''The submitted mathematical dependency graph is circular; remove the circular dependency before persistence.''"

section \<open>Selecting the advice\<close>

definition review_focus :: "research_state \<Rightarrow> string option" where
  "review_focus st =
     (case state_blockers st of
        i # _ \<Rightarrow> Some i
      | [] \<Rightarrow> (case state_frontier st of i # _ \<Rightarrow> Some i | [] \<Rightarrow> None))"

definition select :: "research_state \<Rightarrow> research_advisory" where
  "select st =
     (if target_or_route_solved st
      then advisory_new AssembleRoute (Some (state_target st)) msg_assemble
        [''at_least_one_active_route=route_solved'']
      else case refuted_without_viable_alternative st of
        Some i \<Rightarrow> advisory_new ReplanRefuted (Some i) msg_replan_refuted
          [''refuted_critical_node='' @ i, ''viable_alternative_routes=0'']
      | None \<Rightarrow> (case repeated_direct_failure_without_counterexample st of
        Some (i, n) \<Rightarrow> advisory_new TestCounterexample (Some i) msg_test_counterexample
          [''direct_failed_attempts='' @ show_nat n, ''counterexample_attempts=0'']
      | None \<Rightarrow> (case missing_reference_without_retrieval st of
        Some i \<Rightarrow> advisory_new RetrieveFocused (Some i) msg_retrieve
          [''missing_reference_node='' @ i, ''focused_retrieval_attempts=0'']
      | None \<Rightarrow> (case repeated_retrieval_without_novelty st of
        Some (i, n) \<Rightarrow> advisory_new StopRetrieval (Some i) msg_stop_retrieval
          [''consecutive_no_novelty_retrievals='' @ show_nat n]
      | None \<Rightarrow> (case untouched_actionable_critical_node st of
        Some i \<Rightarrow> advisory_new ScreenFrontier (Some i) msg_screen
          [''untouched_actionable_node='' @ i]
      | None \<Rightarrow> (case compatible_partial_progress st of
        Some (i, n) \<Rightarrow> advisory_new Consolidate (Some i) msg_consolidate
          [''partial_progress_attempts='' @ show_nat n]
      | None \<Rightarrow> advisory_new ReviewState (review_focus st) msg_review
          [''specific_advisory_rule_match=none'']))))))"

definition cycle_diagnostic :: "string list \<Rightarrow> research_advisory" where
  "cycle_diagnostic cycle =
     advisory_new ReplanCycle (case cycle of [] \<Rightarrow> None | i # _ \<Rightarrow> Some i) msg_circular
       [''cycle='' @ join ''->'' cycle]"

section \<open>Where the advice points\<close>

lemma retrieval_streak_focus:
  "retrieval_streak as acc = (n, Some i) \<Longrightarrow> snd acc = Some i \<or> i \<in> attempt_node_id ` set as"
  by (induction as acc rule: retrieval_streak.induct) (auto split: if_splits)

text \<open>Every rule takes its node from the critical nodes, the frontier, the target or an attempt.\<close>

lemma select_focus:
  "focus_node_id (select st) = Some i \<Longrightarrow>
     i = state_target st \<or> i \<in> set (state_critical st) \<or> i \<in> set (state_blockers st) \<or>
     i \<in> set (state_frontier st) \<or> i \<in> attempt_node_id ` set (state_attempts st)"
  by (auto simp: select_def advisory_new_def review_focus_def refuted_without_viable_alternative_def
      repeated_direct_failure_without_counterexample_def missing_reference_without_retrieval_def
      untouched_actionable_critical_node_def compatible_partial_progress_def
      repeated_retrieval_without_novelty_def Let_def
      dest!: find_Some_mem retrieval_streak_focus split: if_splits option.splits list.splits prod.splits)

definition snap_ids :: "research_snapshot \<Rightarrow> string set" where
  "snap_ids s = node_id ` set (snap_nodes s)"

lemma active_snap_ids: "snap_active s \<subseteq> snap_ids s"
  by (auto simp: snap_active_def snap_ids_def)

lemma reach_snap_ids: "x \<in> snap_ids s \<Longrightarrow> (x, y) \<in> (snap_deps s)\<^sup>* \<Longrightarrow> y \<in> snap_ids s"
  by (erule rtrancl_induct) (use active_snap_ids in \<open>auto simp: snap_deps_def\<close>)

lemma map_of_snap_ids:
  assumes "projected s st seeds"
  shows "map_of (state_nodes st) i \<noteq> None \<longleftrightarrow> i \<in> snap_ids s"
proof -
  have "(\<exists>n. map_of (state_nodes st) i = Some n) \<longleftrightarrow> i \<in> snap_ids s"
    unfolding projected_nodes(1) [OF assms] snap_ids_def by blast
  then show ?thesis by simp
qed

lemma target_snap_id:
  assumes "projected s st seeds"
  shows "snap_target s \<in> snap_ids s"
proof -
  have "map_of (state_nodes st) (snap_target s) \<noteq> None"
    using projected_parts(5) [OF assms]
    by (auto simp: validate_target_def Let_def bind_r_eq_Inr split: if_splits)
  then show ?thesis by (simp only: map_of_snap_ids [OF assms])
qed

lemma attempt_snap_ids:
  assumes "projected s st seeds"
  shows "attempt_node_id ` set (state_attempts st) \<subseteq> snap_ids s"
proof -
  have "\<forall>a \<in> set (snap_attempts s). attempt_ok (state_nodes st) a"
    "state_attempts st = sort_key attempt_key (snap_attempts s)"
    using projected_parts(6) [OF assms]
    by (auto simp: canonical_attempts_def bind_r_eq_Inr fold_r_distinct [OF check_attempt_Inr])
  then have "map_of (state_nodes st) (attempt_node_id a) \<noteq> None" if "a \<in> set (state_attempts st)" for a
    using that by (simp add: attempt_ok_def)
  then show ?thesis using map_of_snap_ids [OF assms] by blast
qed

lemma goal_set_ids:
  assumes "projected s st seeds"
  shows "set (goal_set (state_nodes st) dependents p) \<subseteq> snap_ids s"
proof -
  have "plan_goals s p \<subseteq> plan_members s p"
    by (auto simp: plan_goals_def critical_members_def plan_members_def)
  moreover have "plan_members s p \<subseteq> snap_ids s" by (auto simp: plan_members_def snap_ids_def)
  moreover have "set (goal_set (state_nodes st) dependents p) \<subseteq> plan_goals s p \<union> plan_members s p"
    using candidates_set [OF assms, of p] by (auto simp: goal_set_def Let_def split: if_splits)
  ultimately show ?thesis by blast
qed

lemma route_ids:
  assumes "projected s st seeds" "r \<in> snd ` set (state_routes st)"
  shows "set (goal_node_ids r) \<subseteq> snap_ids s" "set (route_critical_nodes r) \<subseteq> snap_ids s"
proof -
  let ?route = "plan_route (state_nodes st) (graph_dependencies (state_graph st)) (graph_dependents (state_graph st))
    (state_issues st seeds) (actionable_ids s (state_nodes st) (graph_dependencies (state_graph st)) (state_issues st seeds))"
  have "sorted_keys (state_routes st)"
    using arg_cong [OF projected_parts(4) [OF assms(1)], of state_routes]
    by (simp add: derive_state_def Let_def derive_plan_routes_def sorted_bt_collect)
  then have "map_of (state_routes st) p = Some r \<longleftrightarrow> (p, r) \<in> set (state_routes st)" for p
    by (rule map_of_eq_Some_iff [OF sorted_keys_distinct])
  moreover obtain p where "(p, r) \<in> set (state_routes st)" using assms(2) by auto
  ultimately have "map_of (state_routes st) p = Some r" by blast
  then have "r = ?route p"
    unfolding projected_derived(2) [OF assms(1)] by (simp split: if_splits)
  then have r: "set (goal_node_ids r) = set (goal_set (state_nodes st) (graph_dependents (state_graph st)) p)"
    "set (route_critical_nodes r) = (snap_deps s)\<^sup>* `` set (goal_node_ids r)"
    using critical_closure_set [OF assms(1)] by (simp_all add: plan_route_def Let_def)
  then show "set (goal_node_ids r) \<subseteq> snap_ids s" using goal_set_ids [OF assms(1)] by simp
  then show "set (route_critical_nodes r) \<subseteq> snap_ids s" unfolding r(2) using reach_snap_ids by blast
qed

lemma critical_ids:
  assumes "projected s st seeds"
  shows "set (state_critical st) \<subseteq> snap_ids s"
  unfolding projected_derived(5) [OF assms] closure_set(1) [OF assms]
  using reach_snap_ids target_snap_id [OF assms] route_ids(2) [OF assms] by blast

lemma frontier_ids:
  assumes "projected s st seeds"
  shows "set (state_frontier st) \<subseteq> snap_ids s"
  unfolding projected_derived(1) [OF assms] set_ordered_ids actionable_ids_def snap_ids_def
  using projected_nodes(4) [OF assms] by auto

section \<open>The properties\<close>

text \<open>C12. Every identifier an analyzed state gives out is that of a node of the snapshot: the critical
  nodes, the blockers, the frontier and the goals, so indexing the nodes with them never fails, and the
  node the advice points at.\<close>

theorem advice_points_at_a_node:
  assumes "analyze to_vec sha256 s = Some (Inr st)"
  shows "set (state_critical st) \<union> set (state_blockers st) \<union> set (state_frontier st) \<union>
      (\<Union>r \<in> snd ` set (state_routes st). set (goal_node_ids r)) \<union> set_option (focus_node_id (select st))
    \<subseteq> node_id ` set (snap_nodes s)"
proof -
  obtain seeds where p: "projected s st seeds" using analyze_projected [OF assms] .
  have blockers: "set (state_blockers st) \<subseteq> snap_ids s" "state_target st \<in> snap_ids s"
    using projected_derived(6,7) [OF p] critical_ids [OF p] target_snap_id [OF p] by auto
  then have "i \<in> snap_ids s" if "focus_node_id (select st) = Some i" for i
    using select_focus [OF that] critical_ids [OF p] frontier_ids [OF p] attempt_snap_ids [OF p] by blast
  then have "set_option (focus_node_id (select st)) \<subseteq> snap_ids s" by auto
  then show ?thesis
    using blockers(1) critical_ids [OF p] frontier_ids [OF p] route_ids(1) [OF p]
    unfolding snap_ids_def by blast
qed

theorem advice_points_at_a_node_witness:
  "\<exists>st. analyze (\<lambda>_. Some []) (\<lambda>_. []) (example_snapshot NodeOpen) = Some (Inr st) \<and>
     set (state_critical st) \<subseteq> {''t'', ''a''}"
proof -
  obtain st where st: "analyze (\<lambda>_. Some []) (\<lambda>_. []) (example_snapshot NodeOpen) = Some (Inr st)"
    using example_analyzed [of NodeOpen] by blast
  have "node_id ` set (snap_nodes (example_snapshot NodeOpen)) = {''t'', ''a''}"
    by (simp add: example_snapshot_def example_node_def)
  then show ?thesis using advice_points_at_a_node [OF st] st by auto
qed

text \<open>C10. The advice to assemble the proof is given exactly when the target is marked solved or some
  active plan is: all its goals and everything they depend on solved, and nothing of it lost.\<close>

theorem assemble_advice_exact:
  assumes "project to_vec sha256 s = Some (Inr st)"
  shows "rule_id (select st) = AssembleRoute \<longleftrightarrow> has_status s RouteSolved (snap_target s) \<or>
    (\<exists>p \<in> set (snap_active_plans s). \<forall>i \<in> plan_goals s p. \<forall>y. (i, y) \<in> (snap_deps s)\<^sup>* \<longrightarrow>
      has_status s RouteSolved y \<and> (\<forall>d. \<not> lost_support s y d))"
proof -
  have "analyze to_vec sha256 s = Some (Inr st)" using assms by (simp add: project_Inr)
  then obtain seeds where p: "projected s st seeds" using analyze_projected by blast
  have "sorted_keys (state_routes st)"
    using arg_cong [OF projected_parts(4) [OF p], of state_routes]
    by (simp add: derive_state_def Let_def derive_plan_routes_def sorted_bt_collect)
  then have mem: "(q, r) \<in> set (state_routes st) \<longleftrightarrow> map_of (state_routes st) q = Some r" for q r
    by (rule map_of_eq_Some_iff [OF sorted_keys_distinct, symmetric])
  have active: "(\<exists>r. map_of (state_routes st) q = Some r) \<longleftrightarrow> q \<in> set (snap_active_plans s)" for q
    unfolding projected_derived(2) [OF p] by simp
  have "list_ex route_solved (map snd (state_routes st)) \<longleftrightarrow> (\<exists>q \<in> set (snap_active_plans s). \<forall>i \<in> plan_goals s q.
      \<forall>y. (i, y) \<in> (snap_deps s)\<^sup>* \<longrightarrow> has_status s RouteSolved y \<and> (\<forall>d. \<not> lost_support s y d))"
  proof -
    have "list_ex route_solved (map snd rs) \<longleftrightarrow> (\<exists>q r. (q, r) \<in> set rs \<and> route_solved r)"
      for rs :: "(string \<times> research_plan_route) list" by (force simp: list_ex_iff)
    then have "list_ex route_solved (map snd (state_routes st)) \<longleftrightarrow>
        (\<exists>q r. map_of (state_routes st) q = Some r \<and> route_solved r)" by (simp add: mem)
    then show ?thesis
      using route_solved_iff [OF assms] active by blast
  qed
  moreover have "rule_id (select st) = AssembleRoute \<longleftrightarrow> target_or_route_solved st"
    by (auto simp: select_def advisory_new_def split: option.splits)
  ultimately show ?thesis
    by (simp add: target_or_route_solved_def solved_at_status [OF p] projected_derived(7) [OF p])
qed

theorem assemble_advice_exact_witness:
  "\<exists>st. project (\<lambda>_. Some []) (\<lambda>_. []) (example_snapshot RouteSolved) = Some (Inr st) \<and>
     rule_id (select st) = AssembleRoute"
proof -
  let ?s = "example_snapshot RouteSolved"
  obtain st where st: "project (\<lambda>_. Some []) (\<lambda>_. []) ?s = Some (Inr st)"
    using example_projected by blast
  have "''p'' \<in> set (snap_active_plans ?s)" by (simp add: example_snapshot_def)
  moreover have "\<forall>i \<in> plan_goals ?s ''p''. \<forall>y. (i, y) \<in> (snap_deps ?s)\<^sup>* \<longrightarrow>
      has_status ?s RouteSolved y \<and> (\<forall>d. \<not> lost_support ?s y d)"
    by (simp add: example_goals example_deps(2,4-7))
  ultimately show ?thesis using assemble_advice_exact [OF st] st by blast
qed

end
