(* ===== verification/Protocol_Fields.thy ===== *)
theory Protocol_Fields
  imports Research_Types
begin

text \<open>
  Reading the fields of a protocol-3 record, \<open>mtm-workflow/src/research_state/protocol.rs\<close>: the bounded
  texts and arrays, the scope of canonical node and plan identifiers a record may refer to
  (\<open>ProtocolResearchScope\<close>, built from the active plans), and the stamp of server-owned fields every
  accepted record receives. A location is the path of the field in the record; an error names it.
\<close>

section \<open>Texts and arrays\<close>

definition max_text_array :: nat where "max_text_array = 64"

definition max_query_bytes :: nat where "max_query_bytes = 4096"

definition max_symbol_bytes :: nat where "max_symbol_bytes = 256"

definition reserved_record_fields :: "string list" where
  "reserved_record_fields =
     [''record_type'', ''record_id'', ''actor_role'', ''actor_domain_id'', ''round_index'', ''created_at'']"

definition malformed :: "string \<Rightarrow> string \<Rightarrow> research_error" where
  "malformed l reason = MalformedProtocolRecord l reason"

definition bounded_count :: "string \<Rightarrow> nat \<Rightarrow> nat \<Rightarrow> unit research" where
  "bounded_count k actual bound = (if bound < actual then Inl (LimitExceeded k bound actual) else Inr ())"

text \<open>\<open>Option::filter\<close> and \<open>Value::as_bool\<close>.\<close>

definition option_filter :: "('a \<Rightarrow> bool) \<Rightarrow> 'a option \<Rightarrow> 'a option" where
  "option_filter P x = Option.bind x (\<lambda>y. if P y then Some y else None)"

fun as_bool :: "json \<Rightarrow> bool option" where
  "as_bool (JBool b) = Some b"
| "as_bool _ = None"

definition expect_object :: "json \<Rightarrow> string \<Rightarrow> object research" where
  "expect_object v l = ok_or (as_object v) (malformed l ''expected an object'')"

definition reject_unknown :: "object \<Rightarrow> string list \<Rightarrow> string \<Rightarrow> unit research" where
  "reject_unknown obj allowed l =
     (case List.find (\<lambda>f. f \<notin> set allowed) (map fst obj) of
        Some f \<Rightarrow> Inl (malformed l (''unknown field '' @ f))
      | None \<Rightarrow> Inr ())"

definition bounded_text :: "nat \<Rightarrow> string \<Rightarrow> bool" where
  "bounded_text bound s \<longleftrightarrow> s \<noteq> [] \<and> length s \<le> bound \<and> nul \<notin> set s"

definition required_text :: "json option \<Rightarrow> string \<Rightarrow> nat \<Rightarrow> string research" where
  "required_text v l bound =
     (case map_option trim (Option.bind v as_str) of
        Some s \<Rightarrow> if bounded_text bound s then Inr s
          else Inl (malformed l ''non-empty bounded string required'')
      | None \<Rightarrow> Inl (malformed l ''non-empty bounded string required''))"

definition optional_text :: "json option \<Rightarrow> string \<Rightarrow> nat \<Rightarrow> string option research" where
  "optional_text v l bound =
     (case v of None \<Rightarrow> Inr None
      | Some JNull \<Rightarrow> Inr None
      | Some w \<Rightarrow> map_ok Some (required_text (Some w) l bound))"

definition at_index :: "string \<Rightarrow> nat \<Rightarrow> string" where
  "at_index l i = l @ ''['' @ show_nat i @ '']''"

definition text_array :: "json option \<Rightarrow> string \<Rightarrow> nat \<Rightarrow> bool \<Rightarrow> nat \<Rightarrow> string list research" where
  "text_array v l bound required max_bytes =
     (case v of
        None \<Rightarrow> if required then Inl (malformed l ''array is required'') else Inr []
      | Some w \<Rightarrow>
          bind_r (ok_or (as_array w) (malformed l ''expected an array'')) (\<lambda>items.
            if required \<and> items = [] then Inl (malformed l ''non-empty array required'')
            else bind_r (bounded_count ''protocol3_text_array'' (length items) bound) (\<lambda>_.
              traverse_r (\<lambda>(i, item). required_text (Some item) (at_index l i) max_bytes)
                (List.enumerate 0 items))))"

text \<open>The set of the texts seen so far refuses a text exactly if the array repeats one.\<close>

definition unique_string_array :: "json option \<Rightarrow> string \<Rightarrow> nat \<Rightarrow> bool \<Rightarrow> nat \<Rightarrow> string list research" where
  "unique_string_array v l bound required max_bytes =
     bind_r (text_array v l bound required max_bytes) (\<lambda>values.
       if distinct values then Inr values else Inl (malformed l ''array entries must be unique''))"

text \<open>Building a value: the entries of an object stand in the order of their keys.\<close>

definition json_object :: "object \<Rightarrow> json" where "json_object kvs = JObject (bt_collect kvs)"

definition json_texts :: "string list \<Rightarrow> json" where "json_texts ss = JArray (map JString ss)"

definition json_option :: "string option \<Rightarrow> json" where
  "json_option v = (case v of None \<Rightarrow> JNull | Some s \<Rightarrow> JString s)"

section \<open>The scope of a record\<close>

record protocol_scope =
  scope_plan_nodes :: "(string \<times> string list) list"
  scope_node_plans :: "(string \<times> string option) list"
  scope_references :: "string list"

definition msg_missing_subgoals :: string where
  "msg_missing_subgoals = ''protocol-3 active plan is missing canonical research_subgoals''"

definition msg_node_repeated :: string where
  "msg_node_repeated = ''duplicate canonical node_id in one plan''"

definition msg_node_shared :: string where
  "msg_node_shared = ''canonical node_id is shared by multiple plans''"

definition plan_bucket :: "protocol_scope \<Rightarrow> string \<Rightarrow> string list" where
  "plan_bucket scope p = (case map_of (scope_plan_nodes scope) p of None \<Rightarrow> [] | Some ns \<Rightarrow> ns)"

definition scope_add_node ::
  "string \<Rightarrow> string \<Rightarrow> nat \<times> json \<Rightarrow> protocol_scope \<Rightarrow> protocol_scope research" where
  "scope_add_node l p entry scope =
     (let nl = at_index (l @ ''.research_subgoals'') (fst entry) in
      bind_r (expect_object (snd entry) nl) (\<lambda>node.
      bind_r (required_text (obj_get node ''node_id'') (nl @ ''.node_id'') max_identifier_bytes) (\<lambda>t.
      bind_r (node_id_parse t) (\<lambda>n.
        if n \<in> set (plan_bucket scope p) then Inl (malformed nl msg_node_repeated)
        else if map_of (scope_node_plans scope) n \<noteq> None then Inl (malformed nl msg_node_shared)
        else Inr (scope\<lparr>scope_plan_nodes := bt_insert p (bs_insert n (plan_bucket scope p)) (scope_plan_nodes scope),
          scope_node_plans := bt_insert n (Some p) (scope_node_plans scope)\<rparr>)))))"

definition scope_add_plan :: "nat \<times> json \<Rightarrow> protocol_scope \<Rightarrow> protocol_scope research" where
  "scope_add_plan entry scope =
     (let l = at_index ''active_plans'' (fst entry) in
      bind_r (expect_object (snd entry) l) (\<lambda>plan.
      bind_r (required_text (obj_get plan ''plan_id'') (l @ ''.plan_id'') max_identifier_bytes) (\<lambda>t.
      bind_r (plan_id_parse t) (\<lambda>p.
      bind_r (ok_or (Option.bind (obj_get plan ''research_subgoals'') as_array)
               (malformed (l @ ''.research_subgoals'') msg_missing_subgoals)) (\<lambda>subgoals.
      bind_r (bounded_count ''protocol3_plan_subgoals'' (length subgoals) max_node_dependencies) (\<lambda>_.
        fold_r (scope_add_node l p) (List.enumerate 0 subgoals)
          (scope\<lparr>scope_plan_nodes := bt_insert p (plan_bucket scope p) (scope_plan_nodes scope)\<rparr>)))))))"

definition from_active_plans :: "json \<Rightarrow> string list \<Rightarrow> protocol_scope research" where
  "from_active_plans active_plans references =
     bind_r (ok_or (as_array active_plans) (malformed ''active_plans'' ''expected an array'')) (\<lambda>plans.
     bind_r (bounded_count ''protocol3_active_plans'' (length plans) max_active_plans) (\<lambda>_.
     bind_r (node_id_parse ''target'') (\<lambda>target.
       fold_r scope_add_plan (List.enumerate 0 plans)
         \<lparr>scope_plan_nodes = [], scope_node_plans = [(target, None)],
          scope_references = fold bs_insert references []\<rparr>)))"

definition contains_node :: "protocol_scope \<Rightarrow> string \<Rightarrow> bool" where
  "contains_node scope n \<longleftrightarrow> map_of (scope_node_plans scope) n \<noteq> None"

definition contains_plan :: "protocol_scope \<Rightarrow> string \<Rightarrow> bool" where
  "contains_plan scope p \<longleftrightarrow> map_of (scope_plan_nodes scope) p \<noteq> None"

definition plan_contains_node :: "protocol_scope \<Rightarrow> string \<Rightarrow> string \<Rightarrow> bool" where
  "plan_contains_node scope p n \<longleftrightarrow>
     (case map_of (scope_plan_nodes scope) p of None \<Rightarrow> False | Some ns \<Rightarrow> n \<in> set ns)"

definition reference_registered :: "protocol_scope \<Rightarrow> string \<Rightarrow> bool" where
  "reference_registered scope r \<longleftrightarrow> r \<in> set (scope_references scope)"

section \<open>References to the scope\<close>

definition parse_known_node :: "json option \<Rightarrow> protocol_scope \<Rightarrow> string \<Rightarrow> string research" where
  "parse_known_node v scope l =
     bind_r (required_text v l max_identifier_bytes) (\<lambda>t.
     bind_r (node_id_parse t) (\<lambda>n.
       if \<not> contains_node scope n then Inl (malformed l ''unknown canonical node_id'') else Inr n))"

definition optional_known_node :: "json option \<Rightarrow> protocol_scope \<Rightarrow> string \<Rightarrow> string option research" where
  "optional_known_node v scope l =
     (case v of None \<Rightarrow> Inr None
      | Some JNull \<Rightarrow> Inr None
      | Some w \<Rightarrow> map_ok Some (parse_known_node (Some w) scope l))"

definition parse_obstruction :: "json option \<Rightarrow> string \<Rightarrow> research_obstruction research" where
  "parse_obstruction v l =
     bind_r (required_text v l 64) (\<lambda>t.
       ok_or (obstruction_parse t) (malformed l ''unknown obstruction class''))"

definition known_node_array ::
  "json option \<Rightarrow> protocol_scope \<Rightarrow> string \<Rightarrow> nat \<Rightarrow> bool \<Rightarrow> string list research" where
  "known_node_array v scope l bound required =
     bind_r (unique_string_array v l bound required max_identifier_bytes) (\<lambda>values.
       traverse_r (\<lambda>t. bind_r (node_id_parse t) (\<lambda>n.
         if \<not> contains_node scope n then Inl (malformed l ''unknown canonical node_id'') else Inr n)) values)"

definition known_plan_array ::
  "json option \<Rightarrow> protocol_scope \<Rightarrow> string \<Rightarrow> nat \<Rightarrow> bool \<Rightarrow> string list research" where
  "known_plan_array v scope l bound required =
     bind_r (unique_string_array v l bound required max_identifier_bytes) (\<lambda>values.
       traverse_r (\<lambda>t. bind_r (plan_id_parse t) (\<lambda>p.
         if \<not> contains_plan scope p then Inl (malformed l ''unknown canonical plan_id'') else Inr p)) values)"

definition msg_unregistered :: string where
  "msg_unregistered = ''reference_id is not registered for this run''"

definition registered_reference_array :: "json option \<Rightarrow> protocol_scope \<Rightarrow> string \<Rightarrow> string list research" where
  "registered_reference_array v scope l =
     bind_r (unique_string_array v l max_evidence_ids False max_evidence_id_bytes) (\<lambda>values.
       if list_all (reference_registered scope) values then Inr values
       else Inl (malformed l msg_unregistered))"

section \<open>The stamp of a record\<close>

record protocol_record_stamp =
  stamp_record_id :: string
  stamp_actor_role :: string
  stamp_actor_domain_id :: string
  stamp_round_index :: nat
  stamp_created_at :: string

definition msg_server_owned :: string where
  "msg_server_owned = ''client may not supply server-owned field ''"

definition server_fields :: "string \<Rightarrow> protocol_record_stamp \<Rightarrow> object" where
  "server_fields record_type s =
     [(''record_type'', JString record_type), (''record_id'', JString (stamp_record_id s)),
      (''actor_role'', JString (stamp_actor_role s)),
      (''actor_domain_id'', JString (stamp_actor_domain_id s)),
      (''round_index'', JNumber (PosInt (stamp_round_index s))),
      (''created_at'', JString (stamp_created_at s))]"

definition stamp_protocol3_record :: "string \<Rightarrow> json \<Rightarrow> protocol_record_stamp \<Rightarrow> json research" where
  "stamp_protocol3_record record_type content s =
     bind_r (expect_object content record_type) (\<lambda>obj.
       case List.find (contains_key obj) reserved_record_fields of
         Some field \<Rightarrow> Inl (malformed record_type (msg_server_owned @ field))
       | None \<Rightarrow> Inr (JObject (fold (\<lambda>(k, v). bt_insert k v) (server_fields record_type s) obj)))"

definition msg_no_colon :: string where
  "msg_no_colon = ''plan_id and subgoal_id may not contain '' @ squote # '':'' @ [squote]"

definition protocol_node_id :: "string \<Rightarrow> string \<Rightarrow> string research" where
  "protocol_node_id p subgoal =
     (if CHR '':'' \<in> set p \<or> CHR '':'' \<in> set subgoal then Inl (malformed ''node_id'' msg_no_colon)
      else node_id_parse (''node:'' @ p @ '':'' @ subgoal))"

section \<open>What a field reads as\<close>

text \<open>Where a text stands decides only what an error says: what is read is a function of the value.\<close>

definition read_text :: "nat \<Rightarrow> json option \<Rightarrow> string option" where
  "read_text bound v =
     (case v of Some (JString t) \<Rightarrow> if bounded_text bound (trim t) then Some (trim t) else None | _ \<Rightarrow> None)"

definition valid_identifier :: "string \<Rightarrow> bool" where
  "valid_identifier i \<longleftrightarrow> i \<noteq> [] \<and> length i \<le> max_identifier_bytes \<and> is_ascii_alphanumeric (hd i) \<and>
     list_all identifier_char (tl i)"

definition read_id :: "json option \<Rightarrow> string option" where
  "read_id v = (case read_text max_identifier_bytes v of
     Some t \<Rightarrow> if valid_identifier t then Some t else None | None \<Rightarrow> None)"

lemma option_filter_Some [simp]: "option_filter P x = Some y \<longleftrightarrow> x = Some y \<and> P y"
  by (cases x) (auto simp: option_filter_def)

lemma as_bool_eq_Some [simp]: "as_bool v = Some b \<longleftrightarrow> v = JBool b"
  by (cases v) auto

lemma bounded_count_Inr [simp]: "bounded_count k n m = Inr u \<longleftrightarrow> n \<le> m"
  by (auto simp: bounded_count_def)

lemma expect_object_Inr [simp]: "expect_object v l = Inr obj \<longleftrightarrow> v = JObject obj"
  by (simp add: expect_object_def)

lemma reject_unknown_fields: "reject_unknown obj allowed l = Inr u \<longleftrightarrow> fst ` set obj \<subseteq> set allowed"
proof -
  have "reject_unknown obj allowed l = Inr u \<longleftrightarrow> List.find (\<lambda>f. f \<notin> set allowed) (map fst obj) = None"
    by (cases u) (auto simp: reject_unknown_def split: option.splits)
  then show ?thesis by (auto simp: find_None_iff)
qed

lemma required_text_Inr: "required_text v l bound = Inr s \<longleftrightarrow> read_text bound v = Some s"
  by (auto simp: required_text_def read_text_def split: option.splits json.splits)

lemma read_text_iff:
  "read_text bound v = Some s \<longleftrightarrow> (\<exists>t. v = Some (JString t) \<and> s = trim t \<and> bounded_text bound s)"
  by (auto simp: read_text_def split: option.splits json.splits)

lemma optional_text_Inr:
  "optional_text v l bound = Inr r \<longleftrightarrow>
     (v = None \<or> v = Some JNull) \<and> r = None \<or> (\<exists>s. r = Some s \<and> read_text bound v = Some s)"
  by (auto simp: optional_text_def required_text_Inr read_text_iff split: option.splits json.splits)

lemma identifier_parse_Inr: "identifier_parse k v = Inr i \<longleftrightarrow> valid_identifier v \<and> i = v"
  by (auto simp: identifier_parse_def validate_identifier_def valid_identifier_def)

lemma read_id_iff: "read_id v = Some i \<longleftrightarrow> read_text max_identifier_bytes v = Some i \<and> valid_identifier i"
  by (auto simp: read_id_def split: option.splits)

lemma required_identifier:
  "bind_r (required_text v l max_identifier_bytes) (\<lambda>t. bind_r (identifier_parse k t) f) = Inr r \<longleftrightarrow>
     (\<exists>i. read_id v = Some i \<and> f i = Inr r)"
  by (auto simp: bind_r_eq_Inr required_text_Inr identifier_parse_Inr read_id_iff)

text \<open>An array of texts is read text by text.\<close>

definition read_texts :: "nat \<Rightarrow> json list \<Rightarrow> string list option" where
  "read_texts bound items =
     (if list_all (\<lambda>v. read_text bound (Some v) \<noteq> None) items
      then Some (map (\<lambda>v. the (read_text bound (Some v))) items) else None)"

lemma read_texts_simps [simp]:
  "read_texts bound [] = Some []"
  "read_texts bound (v # vs) =
     (case read_text bound (Some v) of None \<Rightarrow> None | Some s \<Rightarrow> map_option (Cons s) (read_texts bound vs))"
  by (auto simp: read_texts_def split: option.splits)

lemma traverse_required:
  "traverse_r (\<lambda>(i, item). required_text (Some item) (loc i) bound) (List.enumerate k items) = Inr ss \<longleftrightarrow>
     read_texts bound items = Some ss"
proof (induction items arbitrary: k ss)
  case (Cons v vs)
  then show ?case
    by (cases "read_text bound (Some v)") (auto simp: bind_r_eq_Inr required_text_Inr)
qed auto

lemma text_array_Inr:
  "text_array v l bound required max_bytes = Inr ss \<longleftrightarrow>
     (v = None \<and> \<not> required \<and> ss = []) \<or>
     (\<exists>items. v = Some (JArray items) \<and> (items = [] \<longrightarrow> \<not> required) \<and> length items \<le> bound \<and>
        read_texts max_bytes items = Some ss)"
  by (cases v) (auto simp: text_array_def bind_r_eq_Inr traverse_required)

lemma unique_string_array_Inr:
  "unique_string_array v l bound required max_bytes = Inr ss \<longleftrightarrow>
     text_array v l bound required max_bytes = Inr ss \<and> distinct ss"
  by (auto simp: unique_string_array_def bind_r_eq_Inr)

lemma read_texts_bounded: "read_texts bound items = Some ss \<Longrightarrow> s \<in> set ss \<Longrightarrow> bounded_text bound s"
  by (induction items arbitrary: ss) (auto simp: read_text_iff split: option.splits)

lemma read_texts_length: "read_texts bound items = Some ss \<Longrightarrow> length ss = length items"
  by (auto simp: read_texts_def split: if_splits)

lemma text_array_bounds:
  assumes "text_array v l bound required max_bytes = Inr ss"
  shows "length ss \<le> bound" "s \<in> set ss \<Longrightarrow> bounded_text max_bytes s"
  using assms by (auto simp: text_array_Inr read_texts_length intro: read_texts_bounded)

lemma traverse_known:
  "traverse_r (\<lambda>t. bind_r (identifier_parse k t) (\<lambda>n. if \<not> known n then Inl (e n) else Inr n)) ts = Inr ns \<longleftrightarrow>
     ns = ts \<and> list_all (\<lambda>n. valid_identifier n \<and> known n) ts"
  by (induction ts arbitrary: ns) (auto simp: bind_r_eq_Inr identifier_parse_Inr)

lemma known_node_array_Inr:
  "known_node_array v scope l bound required = Inr ns \<longleftrightarrow>
     unique_string_array v l bound required max_identifier_bytes = Inr ns \<and>
     list_all (\<lambda>n. valid_identifier n \<and> contains_node scope n) ns"
  by (auto simp: known_node_array_def bind_r_eq_Inr traverse_known)

lemma known_plan_array_Inr:
  "known_plan_array v scope l bound required = Inr ps \<longleftrightarrow>
     unique_string_array v l bound required max_identifier_bytes = Inr ps \<and>
     list_all (\<lambda>p. valid_identifier p \<and> contains_plan scope p) ps"
  by (auto simp: known_plan_array_def bind_r_eq_Inr traverse_known)

lemma parse_known_node_Inr:
  "parse_known_node v scope l = Inr n \<longleftrightarrow> read_id v = Some n \<and> contains_node scope n"
  unfolding parse_known_node_def required_identifier by auto

lemma optional_known_node_Inr:
  "optional_known_node v scope l = Inr r \<longleftrightarrow>
     (v = None \<or> v = Some JNull) \<and> r = None \<or>
     (\<exists>n. r = Some n \<and> read_id v = Some n \<and> contains_node scope n)"
  by (auto simp: optional_known_node_def parse_known_node_Inr read_id_iff read_text_iff
      split: option.splits json.splits)

lemma parse_obstruction_Inr:
  "parse_obstruction v l = Inr b \<longleftrightarrow> (\<exists>s. read_text 64 v = Some s \<and> obstruction_parse s = Some b)"
  by (auto simp: parse_obstruction_def bind_r_eq_Inr required_text_Inr)

section \<open>What the scope holds\<close>

text \<open>
  An active plan reads as its identifier and those of its subgoals. The scope holds exactly what the
  plans read as, and they are accepted exactly if each reads, none has too many subgoals, and no node
  is listed twice or called like the target.
\<close>

fun read_subgoal :: "json \<Rightarrow> string option" where
  "read_subgoal (JObject node) = read_id (obj_get node ''node_id'')"
| "read_subgoal _ = None"

fun read_plan :: "json \<Rightarrow> (string \<times> string list) option" where
  "read_plan (JObject plan) =
     (case (read_id (obj_get plan ''plan_id''), obj_get plan ''research_subgoals'') of
        (Some p, Some (JArray subgoals)) \<Rightarrow>
          if length subgoals \<le> max_node_dependencies \<and> list_all (\<lambda>j. read_subgoal j \<noteq> None) subgoals
          then Some (p, map (\<lambda>j. the (read_subgoal j)) subgoals) else None
      | _ \<Rightarrow> None)"
| "read_plan _ = None"

definition listed_pairs :: "json list \<Rightarrow> (string \<times> string) list" where
  "listed_pairs plans = concat (map (\<lambda>j. map (Pair (fst (the (read_plan j)))) (snd (the (read_plan j)))) plans)"

definition target_name :: string where "target_name = ''target''"

definition scope_view :: "protocol_scope \<Rightarrow> string set \<Rightarrow> (string \<times> string) list \<Rightarrow> bool" where
  "scope_view scope ps pairs \<longleftrightarrow>
     (\<forall>p. contains_plan scope p \<longleftrightarrow> p \<in> ps) \<and>
     (\<forall>p n. n \<in> set (plan_bucket scope p) \<longleftrightarrow> (p, n) \<in> set pairs) \<and>
     (\<forall>n. contains_node scope n \<longleftrightarrow> n \<in> set (target_name # map snd pairs)) \<and>
     distinct (target_name # map snd pairs)"

lemma plan_contains_bucket: "plan_contains_node scope p n \<longleftrightarrow> n \<in> set (plan_bucket scope p)"
  by (auto simp: plan_contains_node_def plan_bucket_def split: option.splits)

lemma scope_add_node_view:
  assumes "scope_view scope ps pairs" "p \<in> ps"
  shows "case scope_add_node l p (i, j) scope of
      Inl _ \<Rightarrow> read_subgoal j = None \<or> the (read_subgoal j) \<in> set (target_name # map snd pairs)
    | Inr scope' \<Rightarrow> read_subgoal j \<noteq> None \<and> scope_view scope' ps (pairs @ [(p, the (read_subgoal j))])
        \<and> scope_references scope' = scope_references scope"
proof (cases "read_subgoal j")
  case None
  then have "scope_add_node l p (i, j) scope \<noteq> Inr s" for s
    unfolding scope_add_node_def Let_def
    by (cases j) (simp_all add: required_identifier expect_object_def)
  then show ?thesis using None by (simp split: sum.splits)
next
  case (Some n)
  then obtain node where j: "j = JObject node" "read_id (obj_get node ''node_id'') = Some n" by (cases j) auto
  define scope' where "scope' = scope\<lparr>scope_plan_nodes :=
      bt_insert p (bs_insert n (plan_bucket scope p)) (scope_plan_nodes scope),
      scope_node_plans := bt_insert n (Some p) (scope_node_plans scope)\<rparr>"
  have run: "scope_add_node l p (i, j) scope = Inr s \<longleftrightarrow>
      n \<notin> set (plan_bucket scope p) \<and> \<not> contains_node scope n \<and> s = scope'" for s
    unfolding scope_add_node_def Let_def fst_conv snd_conv j(1) expect_object_def as_object.simps ok_or_simps
      bind_r_Inr required_identifier j(2) contains_node_def
    by (auto simp: scope'_def)
  have mem: "n \<in> set (plan_bucket scope p) \<or> contains_node scope n \<longleftrightarrow> n \<in> set (target_name # map snd pairs)"
  proof -
    have "n \<in> set (plan_bucket scope p) \<longleftrightarrow> (p, n) \<in> set pairs"
      and node: "contains_node scope n \<longleftrightarrow> n \<in> set (target_name # map snd pairs)"
      using assms(1) unfolding scope_view_def by blast+
    moreover have "(p, n) \<in> set pairs \<Longrightarrow> n \<in> set (map snd pairs)" by (metis in_set_zipE zip_map_fst_snd)
    ultimately show ?thesis by auto
  qed
  have view: "scope_view scope' ps (pairs @ [(p, n)])" if "n \<notin> set (target_name # map snd pairs)"
    using assms that unfolding scope_view_def contains_plan_def contains_node_def scope'_def
    by (auto simp: plan_bucket_def split: if_splits)
  show ?thesis
  proof (cases "scope_add_node l p (i, j) scope")
    case (Inl e)
    then have "n \<in> set (plan_bucket scope p) \<or> contains_node scope n" using run [of scope'] by auto
    then show ?thesis using Inl mem Some by simp
  next
    case (Inr s)
    then show ?thesis using run [of s] mem view Some by (auto simp: scope'_def)
  qed
qed

lemma scope_add_nodes_view:
  assumes "scope_view scope ps pairs" "p \<in> ps"
  defines "good \<equiv> \<lambda>js. list_all (\<lambda>j. read_subgoal j \<noteq> None) js \<and>
      distinct (target_name # map snd pairs @ map (\<lambda>j. the (read_subgoal j)) js)"
  shows "case fold_r (scope_add_node l p) (List.enumerate k js) scope of
      Inl _ \<Rightarrow> \<not> good js
    | Inr scope' \<Rightarrow> good js \<and> scope_view scope' ps (pairs @ map (\<lambda>j. (p, the (read_subgoal j))) js)
        \<and> scope_references scope' = scope_references scope"
  using assms(1) unfolding good_def
proof (induction js arbitrary: k scope pairs)
  case Nil
  then show ?case by (auto simp: scope_view_def)
next
  case (Cons j js)
  have step: "case scope_add_node l p (k, j) scope of
      Inl _ \<Rightarrow> read_subgoal j = None \<or> the (read_subgoal j) \<in> set (target_name # map snd pairs)
    | Inr scope' \<Rightarrow> read_subgoal j \<noteq> None \<and> scope_view scope' ps (pairs @ [(p, the (read_subgoal j))])
        \<and> scope_references scope' = scope_references scope"
    by (rule scope_add_node_view [OF Cons.prems assms(2)])
  show ?case
  proof (cases "scope_add_node l p (k, j) scope")
    case (Inl e)
    then show ?thesis using step by auto
  next
    case (Inr scope')
    then have r: "read_subgoal j \<noteq> None" "scope_view scope' ps (pairs @ [(p, the (read_subgoal j))])"
      "scope_references scope' = scope_references scope" using step by auto
    show ?thesis using Cons.IH [OF r(2), of "Suc k"] r(1,3) Inr by (simp split: sum.splits)
  qed
qed

text \<open>What follows a plan is the scope of the plans before it, extended by the plan.\<close>

definition plans_fit :: "(string \<times> string) list \<Rightarrow> json list \<Rightarrow> bool" where
  "plans_fit pairs plans \<longleftrightarrow> list_all (\<lambda>j. read_plan j \<noteq> None) plans \<and>
     distinct (target_name # map snd (pairs @ listed_pairs plans))"

lemma listed_pairs_Cons: "listed_pairs (j # js) = listed_pairs [j] @ listed_pairs js"
  by (simp add: listed_pairs_def)

lemma scope_add_plan_view:
  assumes "scope_view scope ps pairs"
  shows "case scope_add_plan (i, j) scope of
      Inl _ \<Rightarrow> \<not> plans_fit pairs [j]
    | Inr scope' \<Rightarrow> plans_fit pairs [j]
        \<and> scope_view scope' (insert (fst (the (read_plan j))) ps) (pairs @ listed_pairs [j])
        \<and> scope_references scope' = scope_references scope"
proof -
  define l where "l = at_index ''active_plans'' i"
  show ?thesis
  proof (cases "\<exists>plan p js. j = JObject plan \<and> read_id (obj_get plan ''plan_id'') = Some p \<and>
      obj_get plan ''research_subgoals'' = Some (JArray js) \<and> length js \<le> max_node_dependencies")
    case False
    then have "read_plan j = None" by (cases j) (auto split: option.splits json.splits)
    moreover have "scope_add_plan (i, j) scope \<noteq> Inr s" for s
      using False by (cases j) (auto simp: scope_add_plan_def Let_def expect_object_def required_identifier
          bind_r_eq_Inr [of "ok_or _ _"] bind_r_eq_Inr [of "bounded_count _ _ _"] bind_eq_Some_conv)
    ultimately show ?thesis by (simp add: plans_fit_def split: sum.splits)
  next
    case True
    then obtain plan p js where j: "j = JObject plan" "read_id (obj_get plan ''plan_id'') = Some p"
      "obj_get plan ''research_subgoals'' = Some (JArray js)" "length js \<le> max_node_dependencies" by blast
    define scope1 where "scope1 = scope\<lparr>scope_plan_nodes := bt_insert p (plan_bucket scope p) (scope_plan_nodes scope)\<rparr>"
    have "scope_add_plan (i, j) scope = fold_r (scope_add_node l p) (List.enumerate 0 js) scope1"
    proof -
      have "\<exists>t. required_text (obj_get plan ''plan_id'') (l @ ''.plan_id'') max_identifier_bytes = Inr t \<and>
          plan_id_parse t = Inr p"
        using j(2) by (auto simp: required_text_Inr identifier_parse_Inr read_id_iff)
      then show ?thesis
        using j(3,4) by (auto simp: scope_add_plan_def Let_def j(1) expect_object_def l_def [symmetric]
            scope1_def bounded_count_def)
    qed
    moreover have "scope_view scope1 (insert p ps) pairs"
      using assms unfolding scope_view_def contains_plan_def contains_node_def scope1_def
      by (auto simp: plan_bucket_def split: if_splits)
    then have "case fold_r (scope_add_node l p) (List.enumerate 0 js) scope1 of
        Inl _ \<Rightarrow> \<not> (list_all (\<lambda>j. read_subgoal j \<noteq> None) js \<and>
          distinct (target_name # map snd pairs @ map (\<lambda>j. the (read_subgoal j)) js))
      | Inr scope' \<Rightarrow> (list_all (\<lambda>j. read_subgoal j \<noteq> None) js \<and>
          distinct (target_name # map snd pairs @ map (\<lambda>j. the (read_subgoal j)) js))
          \<and> scope_view scope' (insert p ps) (pairs @ map (\<lambda>j. (p, the (read_subgoal j))) js)
          \<and> scope_references scope' = scope_references scope1"
      by (rule scope_add_nodes_view) simp
    ultimately show ?thesis
      using j(2-4) by (auto simp: plans_fit_def j(1) listed_pairs_def comp_def scope1_def split: sum.splits)
  qed
qed

lemma scope_add_plans_view:
  assumes "scope_view scope ps pairs"
  shows "case fold_r scope_add_plan (List.enumerate k plans) scope of
      Inl _ \<Rightarrow> \<not> plans_fit pairs plans
    | Inr scope' \<Rightarrow> plans_fit pairs plans
        \<and> scope_view scope' (ps \<union> set (map (\<lambda>j. fst (the (read_plan j))) plans)) (pairs @ listed_pairs plans)
        \<and> scope_references scope' = scope_references scope"
  using assms
proof (induction plans arbitrary: k scope ps pairs)
  case Nil
  then show ?case by (auto simp: scope_view_def plans_fit_def listed_pairs_def)
next
  case (Cons j js)
  have fit: "plans_fit pairs (j # js) \<longleftrightarrow> plans_fit pairs [j] \<and> plans_fit (pairs @ listed_pairs [j]) js"
    unfolding plans_fit_def listed_pairs_Cons [of j js] by auto
  note step = scope_add_plan_view [OF Cons.prems]
  show ?case
  proof (cases "scope_add_plan (k, j) scope")
    case (Inl e)
    then show ?thesis using step [of j k] fit by auto
  next
    case (Inr scope')
    then have r: "plans_fit pairs [j]"
      "scope_view scope' (insert (fst (the (read_plan j))) ps) (pairs @ listed_pairs [j])"
      "scope_references scope' = scope_references scope" using step [of j k] by auto
    show ?thesis using Cons.IH [OF r(2), of "Suc k"] r(1,3) Inr fit
      by (simp add: listed_pairs_Cons [of j js] split: sum.splits)
  qed
qed

lemma set_fold_bs_insert: "set (fold bs_insert xs ys) = set xs \<union> set ys"
  by (induction xs arbitrary: ys) auto

lemma from_active_plans_view:
  "case from_active_plans (JArray plans) references of
     Inl _ \<Rightarrow> \<not> (length plans \<le> max_active_plans \<and> plans_fit [] plans)
   | Inr scope \<Rightarrow> length plans \<le> max_active_plans \<and> plans_fit [] plans \<and>
       scope_view scope (set (map (\<lambda>j. fst (the (read_plan j))) plans)) (listed_pairs plans) \<and>
       set (scope_references scope) = set references"
proof -
  define start :: protocol_scope where "start = \<lparr>scope_plan_nodes = [], scope_node_plans = [(target_name, None)],
      scope_references = fold bs_insert references []\<rparr>"
  have "node_id_parse target_name = Inr target_name"
    by (simp add: identifier_parse_Inr valid_identifier_def target_name_def max_identifier_bytes_def
        identifier_char_def eval_ascii)
  then have run: "from_active_plans (JArray plans) references =
      (if length plans \<le> max_active_plans then fold_r scope_add_plan (List.enumerate 0 plans) start
       else Inl (LimitExceeded ''protocol3_active_plans'' max_active_plans (length plans)))"
    by (simp add: from_active_plans_def bounded_count_def start_def target_name_def)
  have "scope_view start {} []"
    by (auto simp: scope_view_def start_def contains_plan_def plan_bucket_def contains_node_def)
  then have "case fold_r scope_add_plan (List.enumerate 0 plans) start of
      Inl _ \<Rightarrow> \<not> plans_fit [] plans
    | Inr scope' \<Rightarrow> plans_fit [] plans
        \<and> scope_view scope' ({} \<union> set (map (\<lambda>j. fst (the (read_plan j))) plans)) ([] @ listed_pairs plans)
        \<and> scope_references scope' = scope_references start"
    by (rule scope_add_plans_view)
  then show ?thesis unfolding run by (auto simp: start_def set_fold_bs_insert split: sum.splits)
qed

text \<open>
  C14. The scope of a record is exactly what the active plans list. An array of plans is accepted if
  and only if there are at most 64 of them, each reads as an identifier with at most 64 readable
  subgoals, and no node is listed twice in one plan or in two or is called like the target. Then the
  plans, the nodes of each plan, the nodes and the references the scope answers for are those listed,
  the target being the only node of no plan.
\<close>

theorem scope_is_what_the_plans_list:
  "case from_active_plans (JArray plans) references of
     Inl _ \<Rightarrow> \<not> (length plans \<le> max_active_plans \<and> list_all (\<lambda>j. read_plan j \<noteq> None) plans \<and>
       distinct (''target'' # map snd (listed_pairs plans)))
   | Inr scope \<Rightarrow> length plans \<le> max_active_plans \<and> list_all (\<lambda>j. read_plan j \<noteq> None) plans \<and>
       distinct (''target'' # map snd (listed_pairs plans)) \<and>
       {p. contains_plan scope p} = (\<lambda>j. fst (the (read_plan j))) ` set plans \<and>
       {(p, n). plan_contains_node scope p n} = set (listed_pairs plans) \<and>
       {n. contains_node scope n} = insert ''target'' (snd ` set (listed_pairs plans)) \<and>
       {r. reference_registered scope r} = set references"
  using from_active_plans_view [of plans references]
  by (auto simp: plans_fit_def target_name_def scope_view_def plan_contains_bucket reference_registered_def
      split: sum.splits)

end
