(* ===== verification/Protocol_Plans.thy ===== *)
theory Protocol_Plans
  imports Protocol_Fields Graph_Search
begin

text \<open>
  The plans of protocol 3, \<open>mtm-workflow/src/research_state/protocol.rs\<close>: a plan is proposed with
  subgoals that name each other by local keys; \<open>normalize_protocol3_plans\<close> checks the keys and the
  dependencies, refuses a cycle, and gives every plan and every subgoal its canonical identifier.
  \<open>visit_all\<close> is the recursive \<open>visit_local\<close> with the loop over the dependencies folded in.
\<close>

section \<open>Local dependencies\<close>

record local_subgoal =
  local_statement :: string
  local_depends_on :: "string list"
  local_critical :: bool
  local_kind :: node_kind
  local_subgoal_id :: string
  local_node_id :: string

definition local_key_char :: "char \<Rightarrow> bool" where
  "local_key_char c \<longleftrightarrow> is_ascii_alphanumeric c \<or> c \<in> {CHR ''-'', CHR ''_'', CHR ''.''}"

definition valid_local_key :: "string \<Rightarrow> bool" where
  "valid_local_key v \<longleftrightarrow> CHR '':'' \<notin> set v \<and> v \<noteq> [] \<and> is_ascii_alphanumeric (hd v) \<and>
     list_all local_key_char (tl v)"

definition msg_local_key :: string where
  "msg_local_key = ''local key must be an unambiguous ASCII identifier''"

definition validate_local_key :: "string \<Rightarrow> string \<Rightarrow> unit research" where
  "validate_local_key v l = (if \<not> valid_local_key v then Inl (malformed l msg_local_key) else Inr ())"

definition local_graph :: "(string \<times> local_subgoal) list \<Rightarrow> string graph" where
  "local_graph subgoals = map (\<lambda>(k, s). (k, local_depends_on s)) subgoals"

definition msg_local_cycle :: string where
  "msg_local_cycle = ''subgoal dependency cycle contains ''"

function (sequential) visit_all ::
  "string graph \<Rightarrow> string \<Rightarrow> string list \<Rightarrow> string set \<Rightarrow> string set \<Rightarrow> (string set \<times> string set) research"
where
  "visit_all g l [] visiting visited = Inr (visiting, visited)"
| "visit_all g l (k # ks) visiting visited =
     (if k \<in> visited then visit_all g l ks visiting visited
      else if k \<in> visiting then Inl (malformed l (msg_local_cycle @ k))
      else (case visit_all g l (adj g k) (insert k visiting) visited of
          Inl e \<Rightarrow> Inl e
        | Inr (visiting', visited') \<Rightarrow> visit_all g l ks (visiting' - {k}) (insert k visited')))"
  by pat_completeness auto

lemma visit_all_step:
  assumes "(if k \<in> vd then r0 else if k \<in> vg then Inl e
      else case r1 of Inl e' \<Rightarrow> Inl e' | Inr (vg1, vd1) \<Rightarrow> r2 vg1 vd1) = Inr (vg', vd')"
    and "k \<in> vd \<Longrightarrow> r0 = Inr (vg', vd') \<Longrightarrow> vg' = vg \<and> vd \<subseteq> vd'"
    and "\<And>vg1 vd1. k \<notin> vd \<Longrightarrow> k \<notin> vg \<Longrightarrow> r1 = Inr (vg1, vd1) \<Longrightarrow> vg1 = insert k vg \<and> vd \<subseteq> vd1"
    and "\<And>vg1 vd1. k \<notin> vd \<Longrightarrow> k \<notin> vg \<Longrightarrow> r1 = Inr (vg1, vd1) \<Longrightarrow> r2 vg1 vd1 = Inr (vg', vd') \<Longrightarrow>
      vg' = vg1 - {k} \<and> insert k vd1 \<subseteq> vd'"
  shows "vg' = vg \<and> vd \<subseteq> vd'"
proof (cases "k \<in> vd")
  case True then show ?thesis using assms(1,2) by simp
next
  case False
  then have new: "k \<notin> vg" using assms(1) by (auto split: if_splits)
  obtain vg1 vd1 where r: "r1 = Inr (vg1, vd1)" "r2 vg1 vd1 = Inr (vg', vd')"
    using assms(1) False new by (cases r1) auto
  show ?thesis using assms(3) [OF False new r(1)] assms(4) [OF False new r] new by auto
qed

lemma visit_all_dom_sets:
  "visit_all_dom (g, l, ks, vg, vd) \<Longrightarrow> visit_all g l ks vg vd = Inr (vg', vd') \<Longrightarrow> vg' = vg \<and> vd \<subseteq> vd'"
proof (induction g l ks vg vd arbitrary: vg' vd' rule: visit_all.pinduct)
  case (2 g l k ks vg vd)
  show ?case
    by (rule visit_all_step [OF 2(5) [unfolded visit_all.psimps(2) [OF 2(1)]]]; rule 2(2-4); simp)
qed (simp add: visit_all.psimps)

termination visit_all
proof (relation "measures [\<lambda>(g, _, _, vg, vd). unvisited g (vg \<union> vd), \<lambda>(_, _, ks, _, _). length ks]", goal_cases)
  case (3 g l k ks vg vd)
  then show ?case using visit_decreases [of k "vg \<union> vd" g] by auto
next
  case (4 g l k ks vg vd p vg' vd')
  then have "vg' = insert k vg \<and> vd \<subseteq> vd'" by (intro visit_all_dom_sets) simp_all
  then have "unvisited g ((vg' - {k}) \<union> insert k vd') \<le> unvisited g (vg \<union> vd)"
    by (intro unvisited_mono) auto
  then show ?case by (simp add: less_le_not_le)
qed auto

definition msg_self_dependency :: string where
  "msg_self_dependency = ''subgoal may not depend on itself''"

definition validate_local_dependency ::
  "(string \<times> local_subgoal) list \<Rightarrow> string \<Rightarrow> string \<Rightarrow> string \<Rightarrow> unit research" where
  "validate_local_dependency subgoals l key d =
     bind_r (validate_local_key d (l @ ''.subgoals['' @ key @ ''].depends_on'')) (\<lambda>_.
       if d = key then Inl (malformed l msg_self_dependency)
       else if map_of subgoals d = None
       then Inl (malformed l (''subgoal '' @ key @ '' references unknown local key '' @ d))
       else Inr ())"

definition validate_local_dependencies :: "(string \<times> local_subgoal) list \<Rightarrow> string \<Rightarrow> unit research" where
  "validate_local_dependencies subgoals l =
     bind_r (check_all (\<lambda>(key, s). check_all (validate_local_dependency subgoals l key) (local_depends_on s))
              subgoals) (\<lambda>_.
       map_ok (\<lambda>_. ()) (visit_all (local_graph subgoals) l (map fst subgoals) {} {}))"

section \<open>Plans\<close>

definition to_ascii_lowercase :: "string \<Rightarrow> string" where "to_ascii_lowercase s = map to_lower s"

definition msg_two_plans :: string where "msg_two_plans = ''at least two plans are required''"

definition msg_distinct_summaries :: string where
  "msg_distinct_summaries = ''plans must have materially distinct summaries''"

definition msg_subgoal_kind :: string where
  "msg_subgoal_kind = ''kind must be lemma, construction, or definition''"

definition add_subgoal ::
  "string \<Rightarrow> string \<Rightarrow> nat \<times> json \<Rightarrow> (string \<times> local_subgoal) list \<times> string list
    \<Rightarrow> ((string \<times> local_subgoal) list \<times> string list) research" where
  "add_subgoal l p entry st = (case st of (subgoals, ordered_keys) \<Rightarrow>
     let sl = at_index (l @ ''.subgoals'') (fst entry) in
     bind_r (expect_object (snd entry) sl) (\<lambda>subgoal.
     bind_r (reject_unknown subgoal [''key'', ''statement'', ''depends_on'', ''critical'', ''kind''] sl) (\<lambda>_.
     bind_r (required_text (obj_get subgoal ''key'') (sl @ ''.key'') max_identifier_bytes) (\<lambda>key.
     bind_r (validate_local_key key (sl @ ''.key'')) (\<lambda>_.
     if map_of subgoals key \<noteq> None then Inl (malformed sl ''duplicate local subgoal key'')
     else
     bind_r (required_text (obj_get subgoal ''statement'') (sl @ ''.statement'') max_statement_bytes) (\<lambda>stmt.
     bind_r (unique_string_array (obj_get subgoal ''depends_on'') (sl @ ''.depends_on'')
              max_node_dependencies False max_identifier_bytes) (\<lambda>depends_on.
     bind_r (ok_or (Option.bind (obj_get subgoal ''critical'') as_bool)
              (malformed (sl @ ''.critical'') ''boolean is required'')) (\<lambda>critical.
     bind_r (optional_text (obj_get subgoal ''kind'') (sl @ ''.kind'') 32) (\<lambda>kind_text.
     bind_r (ok_or (option_filter (\<lambda>k. k \<noteq> KindTarget)
                (node_kind_parse (case kind_text of None \<Rightarrow> ''lemma'' | Some t \<Rightarrow> t)))
              (malformed (sl @ ''.kind'') msg_subgoal_kind)) (\<lambda>k.
     let subgoal_id = ''sg-'' @ show_nat (fst entry + 1) in
     bind_r (protocol_node_id p subgoal_id) (\<lambda>n.
       Inr (bt_insert key \<lparr>local_statement = stmt, local_depends_on = depends_on, local_critical = critical,
              local_kind = k, local_subgoal_id = subgoal_id, local_node_id = n\<rparr> subgoals,
            ordered_keys @ [key]))))))))))))"

text \<open>Looking up a key that is missing panics; the keys looked up are those of the map.\<close>

definition local_at :: "(string \<times> local_subgoal) list \<Rightarrow> string \<Rightarrow> local_subgoal" where
  "local_at subgoals key = the (map_of subgoals key)"

definition research_subgoal :: "(string \<times> local_subgoal) list \<Rightarrow> string \<Rightarrow> json" where
  "research_subgoal subgoals key =
     (let s = local_at subgoals key in
      json_object [(''source_key'', JString key), (''node_id'', JString (local_node_id s)),
        (''subgoal_id'', JString (local_subgoal_id s)), (''statement'', JString (local_statement s)),
        (''kind'', JString (node_kind_as_str (local_kind s))),
        (''depends_on'', json_texts (map (\<lambda>d. local_node_id (local_at subgoals d)) (local_depends_on s))),
        (''critical'', JBool (local_critical s))])"

definition normalized_plan ::
  "string \<Rightarrow> string option \<Rightarrow> string \<Rightarrow> (string \<times> local_subgoal) list \<Rightarrow> string list
    \<Rightarrow> string list \<Rightarrow> string list \<Rightarrow> string list \<Rightarrow> json" where
  "normalized_plan p source_plan_id summary locals ordered_keys motivation depends risks =
     json_object
       [(''plan_id'', JString p), (''source_plan_id'', json_option source_plan_id),
        (''summary'', JString summary),
        (''subgoals'', json_texts (map (\<lambda>k. local_statement (local_at locals k)) ordered_keys)),
        (''subgoal_ids'', json_texts (map (\<lambda>k. local_subgoal_id (local_at locals k)) ordered_keys)),
        (''research_subgoals'', JArray (map (research_subgoal locals) ordered_keys)),
        (''motivation'', json_texts motivation), (''dependencies'', json_texts depends),
        (''risks'', json_texts risks)]"

definition normalize_plan ::
  "int \<Rightarrow> nat \<times> json \<Rightarrow> string set \<times> json list \<Rightarrow> (string set \<times> json list) research" where
  "normalize_plan rnd entry st = (case st of (summaries, normalized) \<Rightarrow>
     let l = at_index ''plans'' (fst entry) in
     bind_r (expect_object (snd entry) l) (\<lambda>plan.
     bind_r (reject_unknown plan
              [''plan_id'', ''summary'', ''subgoals'', ''motivation'', ''dependencies'', ''risks''] l) (\<lambda>_.
     bind_r (optional_text (obj_get plan ''plan_id'') (l @ ''.plan_id'') max_identifier_bytes) (\<lambda>source_plan_id.
     bind_r (required_text (obj_get plan ''summary'') (l @ ''.summary'') max_summary_bytes) (\<lambda>summary.
     if to_ascii_lowercase summary \<in> summaries then Inl (malformed l msg_distinct_summaries)
     else
     bind_r (plan_id_parse (''plan-r'' @ show_int rnd @ ''-'' @ show_nat (fst entry + 1))) (\<lambda>p.
     bind_r (ok_or (option_filter (\<lambda>ss. ss \<noteq> []) (Option.bind (obj_get plan ''subgoals'') as_array))
              (malformed (l @ ''.subgoals'') ''non-empty array required'')) (\<lambda>subgoals.
     bind_r (bounded_count ''protocol3_plan_subgoals'' (length subgoals) max_node_dependencies) (\<lambda>_.
     bind_r (fold_r (add_subgoal l p) (List.enumerate 0 subgoals) ([], [])) (\<lambda>(locals, ordered_keys).
     bind_r (validate_local_dependencies locals l) (\<lambda>_.
     bind_r (text_array (obj_get plan ''motivation'') (l @ ''.motivation'') max_text_array False
              max_summary_bytes) (\<lambda>motivation.
     bind_r (text_array (obj_get plan ''dependencies'') (l @ ''.dependencies'') max_text_array False
              max_summary_bytes) (\<lambda>depends.
     bind_r (text_array (obj_get plan ''risks'') (l @ ''.risks'') max_text_array False
              max_summary_bytes) (\<lambda>risks.
       Inr (insert (to_ascii_lowercase summary) summaries,
            normalized @
              [normalized_plan p source_plan_id summary locals ordered_keys motivation depends risks]))))))))))))))"

definition normalize_protocol3_plans :: "json option \<Rightarrow> int \<Rightarrow> json list research" where
  "normalize_protocol3_plans v plan_round =
     bind_r (ok_or (option_filter (\<lambda>items. 2 \<le> length items) (Option.bind v as_array))
              (malformed ''plans'' msg_two_plans)) (\<lambda>items.
     bind_r (bounded_count ''protocol3_plans'' (length items) max_active_plans) (\<lambda>_.
       map_ok snd (fold_r (normalize_plan (max plan_round 1)) (List.enumerate 0 items) ({}, []))))"

section \<open>The search for a cycle\<close>

lemma visit_all_sets: "visit_all g l ks vg vd = Inr (vg', vd') \<Longrightarrow> vg' = vg \<and> vd \<subseteq> vd'"
proof (induction g l ks vg vd arbitrary: vg' vd' rule: visit_all.induct)
  case (2 g l k ks vg vd)
  show ?case by (rule visit_all_step [OF 2(4) [unfolded visit_all.simps(2)]]; rule 2(1-3); simp)
qed simp

definition search_ok :: "string graph \<Rightarrow> string set \<Rightarrow> string set \<Rightarrow> bool" where
  "search_ok g vg vd \<longleftrightarrow> vg \<inter> vd = {} \<and> (\<forall>x \<in> vd. set (adj g x) \<subseteq> vd \<and> (x, x) \<notin> (edges g)\<^sup>+)"

lemma search_ok_closed:
  assumes "search_ok g vg vd" "x \<in> vd" "(x, y) \<in> (edges g)\<^sup>*"
  shows "y \<in> vd"
proof (rule closed_reach [of vd "edges g", OF _ assms(2,3)])
  fix a b assume "a \<in> vd" "(a, b) \<in> edges g"
  then show "b \<in> vd" using assms(1) by (auto simp: search_ok_def edges_iff)
qed

lemma search_ok_leave:
  assumes "search_ok g (insert k vg) vd" "set (adj g k) \<subseteq> vd" "k \<notin> vg"
  shows "search_ok g vg (insert k vd)"
proof -
  have k: "k \<notin> vd" using assms(1) by (auto simp: search_ok_def)
  have "(k, k) \<notin> (edges g)\<^sup>+"
  proof
    assume "(k, k) \<in> (edges g)\<^sup>+"
    then obtain y where y: "(k, y) \<in> edges g" "(y, k) \<in> (edges g)\<^sup>*" by (meson tranclD)
    then have "y \<in> vd" using assms(2) by (auto simp: edges_iff)
    then show False using search_ok_closed [OF assms(1) _ y(2)] k by simp
  qed
  then show ?thesis using assms by (auto simp: search_ok_def)
qed

lemma visit_all_sound:
  "visit_all g l ks vg vd = Inr (vg', vd') \<Longrightarrow> search_ok g vg vd \<Longrightarrow> search_ok g vg' vd' \<and> set ks \<subseteq> vd'"
proof (induction g l ks vg vd arbitrary: vg' vd' rule: visit_all.induct)
  case (1 g l vg vd)
  then show ?case by simp
next
  case (2 g l k ks vg vd)
  show ?case
  proof (cases "k \<in> vd")
    case True
    with 2 have r: "search_ok g vg' vd' \<and> set ks \<subseteq> vd'" by simp
    have "vd \<subseteq> vd'" using visit_all_sets [of g l ks vg vd] 2(4) True by simp
    then show ?thesis using r True by auto
  next
    case False
    with 2(4) obtain vg1 vd1 where v: "k \<notin> vg" "visit_all g l (adj g k) (insert k vg) vd = Inr (vg1, vd1)"
      "visit_all g l ks (vg1 - {k}) (insert k vd1) = Inr (vg', vd')"
      by (auto split: if_splits sum.splits prod.splits)
    have vg1: "vg1 = insert k vg" using visit_all_sets [OF v(2)] by simp
    have "search_ok g (insert k vg) vd" using 2(5) False by (auto simp: search_ok_def)
    then have "search_ok g vg1 vd1 \<and> set (adj g k) \<subseteq> vd1" using 2(2) False v by blast
    then have "search_ok g (vg1 - {k}) (insert k vd1)" using v(1) vg1 by (simp add: search_ok_leave)
    then have "search_ok g vg' vd' \<and> set ks \<subseteq> vd'" using 2(3) False v by blast
    then show ?thesis using visit_all_sets [OF v(3)] by auto
  qed
qed

lemma visit_all_complete:
  "visit_all g l ks vg vd = Inl e \<Longrightarrow> (\<And>x k. x \<in> vg \<Longrightarrow> k \<in> set ks \<Longrightarrow> (x, k) \<in> (edges g)\<^sup>+) \<Longrightarrow>
     \<exists>x. (x, x) \<in> (edges g)\<^sup>+"
proof (induction g l ks vg vd rule: visit_all.induct)
  case (2 g l k ks vg vd)
  show ?case
  proof (cases "k \<in> vd \<or> k \<in> vg")
    case True
    then show ?thesis using 2(1) 2(4,5) by auto
  next
    case new: False
    have into: "(x, y) \<in> (edges g)\<^sup>+" if "x \<in> insert k vg" "y \<in> set (adj g k)" for x y
    proof -
      have e: "(k, y) \<in> edges g" using that(2) by (simp add: edges_iff)
      show ?thesis
      proof (cases "x = k")
        case True then show ?thesis using e by blast
      next
        case False
        then have "(x, k) \<in> (edges g)\<^sup>+" using that(1) 2(5) by simp
        then show ?thesis using e by (rule trancl_into_trancl)
      qed
    qed
    show ?thesis
    proof (cases "visit_all g l (adj g k) (insert k vg) vd")
      case (Inl e')
      then have "visit_all g l (adj g k) (insert k vg) vd = Inl e" using 2(4) new by simp
      from 2(2) [OF _ _ this into] show ?thesis using new by simp
    next
      case (Inr r)
      obtain vg1 vd1 where r: "r = (vg1, vd1)" by (cases r)
      then have "vg1 = insert k vg" using visit_all_sets [of g l "adj g k" "insert k vg" vd vg1 vd1] Inr by simp
      then have vg: "vg1 - {k} = vg" using new by auto
      have "visit_all g l ks (vg1 - {k}) (insert k vd1) = Inl e" using 2(4) Inr r new by simp
      from 2(3) [OF _ _ Inr [unfolded r] refl this] show ?thesis using new 2(5) unfolding vg by simp
    qed
  qed
qed simp

lemma visit_all_acyclic:
  assumes "keys g \<subseteq> set ks"
  shows "is_ok (visit_all g l ks {} {}) \<longleftrightarrow> acyclic (edges g)"
proof
  assume "is_ok (visit_all g l ks {} {})"
  then obtain vg vd where "visit_all g l ks {} {} = Inr (vg, vd)" by (auto simp: is_ok_iff)
  then have ok: "search_ok g vg vd" "set ks \<subseteq> vd" using visit_all_sound by (auto simp: search_ok_def)
  show "acyclic (edges g)"
    unfolding acyclic_def
  proof (intro allI notI)
    fix x assume cycle: "(x, x) \<in> (edges g)\<^sup>+"
    then have "x \<in> keys g" by (meson edges_from_keys tranclD)
    then show False using ok assms cycle by (auto simp: search_ok_def)
  qed
next
  assume "acyclic (edges g)"
  then have "visit_all g l ks {} {} \<noteq> Inl e" for e
    using visit_all_complete [of g l ks "{}" "{}" e] by (auto simp: acyclic_def)
  then show "is_ok (visit_all g l ks {} {})" by (cases "visit_all g l ks {} {}") (blast, simp)
qed

lemma is_ok_map_ok [simp]: "is_ok (map_ok f r) \<longleftrightarrow> is_ok r"
  by (cases r) simp_all

lemma validate_local_dependency_ok:
  "is_ok (validate_local_dependency subgoals l key d) \<longleftrightarrow>
     valid_local_key d \<and> d \<noteq> key \<and> d \<in> fst ` set subgoals"
proof -
  have "map_of subgoals d = None \<longleftrightarrow> d \<notin> fst ` set subgoals" by (simp add: map_of_eq_None_iff)
  then show ?thesis by (simp add: validate_local_dependency_def validate_local_key_def)
qed

lemma local_dependencies_iff:
  assumes "sorted_keys subgoals"
  shows "is_ok (validate_local_dependencies subgoals l) \<longleftrightarrow>
     {d. \<exists>(key, s) \<in> set subgoals. d \<in> set (local_depends_on s)} \<subseteq>
       {d \<in> fst ` set subgoals. valid_local_key d} \<and>
     acyclic {(key, d). \<exists>s. (key, s) \<in> set subgoals \<and> d \<in> set (local_depends_on s)}"
proof -
  have dist: "distinct (map fst subgoals)" using assms by (rule sorted_keys_distinct)
  let ?E = "{(key, d). \<exists>s. (key, s) \<in> set subgoals \<and> d \<in> set (local_depends_on s)}"
  have adj: "adj (local_graph subgoals) key = (case map_of subgoals key of None \<Rightarrow> [] | Some s \<Rightarrow> local_depends_on s)" for key
    unfolding adj_def local_graph_def by (induction subgoals) auto
  have E: "edges (local_graph subgoals) = ?E"
    unfolding edges_def adj using dist by (force split: option.splits dest: map_of_SomeD)
  have "keys (local_graph subgoals) \<subseteq> set (map fst subgoals)"
    by (force simp: keys_def local_graph_def)
  then have ok: "is_ok (validate_local_dependencies subgoals l) \<longleftrightarrow>
      (\<forall>(key, s) \<in> set subgoals. \<forall>d \<in> set (local_depends_on s).
        valid_local_key d \<and> d \<noteq> key \<and> d \<in> fst ` set subgoals) \<and> acyclic ?E"
    using visit_all_acyclic [of "local_graph subgoals" "map fst subgoals" l] unfolding E
    by (simp add: validate_local_dependencies_def is_ok_then check_all_ok validate_local_dependency_ok split_beta)
  have self: "d \<noteq> key" if "acyclic ?E" "(key, s) \<in> set subgoals" "d \<in> set (local_depends_on s)" for key s d
    using that by (auto simp: acyclic_def)
  show ?thesis unfolding ok using self by fast
qed

text \<open>
  The local dependencies of a plan. The check always returns, and it accepts a plan if and only if
  every dependency of every subgoal is a well-formed key of a subgoal of the plan and the dependencies
  have no cycle, a subgoal that depends on itself included.
\<close>

theorem local_dependencies_exact:
  assumes "sorted_keys subgoals"
  shows "is_ok (validate_local_dependencies subgoals l) \<longleftrightarrow>
     {d. \<exists>(key, s) \<in> set subgoals. d \<in> set (local_depends_on s)} \<subseteq>
       {d \<in> fst ` set subgoals. valid_local_key d} \<and>
     acyclic {(key, d). \<exists>s. (key, s) \<in> set subgoals \<and> d \<in> set (local_depends_on s)}"
  by (rule local_dependencies_iff [OF assms])

section \<open>Canonical identifiers\<close>

lemma of_digit: "d < 10 \<Longrightarrow> of_char (digit_char d) = (48 + d :: nat)"
  by (simp add: digit_char_def)

lemma show_nat_digits: "set (show_nat n) \<subseteq> digit_char ` {..<10}"
proof (induction n rule: show_nat.induct)
  case (1 n)
  show ?case
  proof (cases "n < 10")
    case True then show ?thesis by (simp add: show_nat.simps [of n])
  next
    case False
    then have "show_nat n = show_nat (n div 10) @ [digit_char (n mod 10)]" by (simp add: show_nat.simps [of n])
    then show ?thesis using 1 [OF False] by simp
  qed
qed

lemma show_nat_not_Nil [simp]: "show_nat n \<noteq> []"
  by (simp add: show_nat.simps [of n])

lemma digit_char_inj:
  assumes "m < 10" "n < 10" shows "digit_char m = digit_char n \<longleftrightarrow> m = n"
proof
  assume "digit_char m = digit_char n"
  then have "48 + m = (48 + n :: nat)" using of_digit [OF assms(1)] of_digit [OF assms(2)] by metis
  then show "m = n" by simp
qed simp

lemma show_nat_inj [simp]: "show_nat m = show_nat n \<longleftrightarrow> m = n"
proof (induction m arbitrary: n rule: show_nat.induct)
  case (1 m)
  show ?case
  proof (cases "m < 10 \<or> n < 10")
    case True
    then show ?thesis
      by (auto simp: show_nat.simps [of m] show_nat.simps [of n] digit_char_inj
          show_nat_not_Nil [symmetric] split: if_splits)
  next
    case False
    then have "show_nat m = show_nat n \<longleftrightarrow> m div 10 = n div 10 \<and> m mod 10 = n mod 10"
      using 1 [of "n div 10"] by (simp add: show_nat.simps [of m] show_nat.simps [of n] digit_char_inj)
    then show ?thesis by (metis div_mult_mod_eq)
  qed
qed

lemma no_colon_in_digits: "CHR '':'' \<notin> set (show_nat n)"
proof
  assume "CHR '':'' \<in> set (show_nat n)"
  then obtain d where "d < 10" and c: "CHR '':'' = digit_char d" using show_nat_digits by blast
  then have "of_char (CHR '':'') = 48 + d" using of_digit [of d] unfolding c by simp
  then show False using \<open>d < 10\<close> by simp
qed

lemma no_dash_in_digits: "CHR ''-'' \<notin> set (show_nat n)"
proof
  assume "CHR ''-'' \<in> set (show_nat n)"
  then obtain d where "d < 10" and c: "CHR ''-'' = digit_char d" using show_nat_digits by blast
  then have "of_char (CHR ''-'') = 48 + d" using of_digit [of d] unfolding c by simp
  then show False using \<open>d < 10\<close> by simp
qed

definition plan_name :: "int \<Rightarrow> nat \<Rightarrow> string" where
  "plan_name r i = ''plan-r'' @ show_int r @ ''-'' @ show_nat (i + 1)"

definition node_name :: "string \<Rightarrow> nat \<Rightarrow> string" where
  "node_name p i = ''node:'' @ p @ '':sg-'' @ show_nat (i + 1)"

lemma plan_name_inj [simp]: "plan_name r i = plan_name r j \<longleftrightarrow> i = j"
  by (simp add: plan_name_def)

lemma node_name_inj:
  assumes "node_name p i = node_name q j" "CHR '':'' \<notin> set p" "CHR '':'' \<notin> set q"
  shows "p = q \<and> i = j"
proof -
  have "p @ CHR '':'' # ''sg-'' @ show_nat (i + 1) = q @ CHR '':'' # ''sg-'' @ show_nat (j + 1)"
    using assms(1) by (simp add: node_name_def)
  then have "p = q \<and> ''sg-'' @ show_nat (i + 1) = ''sg-'' @ show_nat (j + 1)"
    using assms(2,3) no_colon_in_digits by (subst (asm) append_Cons_eq_iff) auto
  then show ?thesis by simp
qed

text \<open>An identifier has no white space to trim, so it is read back as it is.\<close>

lemma identifier_char_no_space: "identifier_char c \<Longrightarrow> \<not> ws1 c \<and> c \<notin> {CHR 0xC2, CHR 0xE1, CHR 0xE2, CHR 0xE3}"
  by (auto simp: identifier_char_def eval_ascii ws1_def)

lemma identifier_char_no_tail:
  "identifier_char c \<Longrightarrow> \<not> ws2 a c \<and> \<not> ws3 a b c"
  by (auto simp: identifier_char_def eval_ascii ws2_def ws3_def)

lemma identifier_chars_prefix: "list_all identifier_char s \<Longrightarrow> ws_prefix s = 0"
  by (cases s rule: ws_prefix.cases) (auto dest: identifier_char_no_space identifier_char_no_tail)

lemma identifier_chars_suffix: "list_all identifier_char s \<Longrightarrow> ws_suffix s = 0"
  by (cases s rule: ws_suffix.cases) (auto dest: identifier_char_no_space identifier_char_no_tail)

lemma identifier_trim:
  assumes "list_all identifier_char s" shows "trim s = s"
proof -
  have "list_all identifier_char (rev s)" using assms by (simp add: list_all_iff)
  then have "trim_end s = s" by (simp add: trim_end_def trim_rev_id identifier_chars_suffix)
  then show ?thesis using assms by (simp add: trim_def trim_start_id identifier_chars_prefix)
qed

lemma valid_identifier_chars: "valid_identifier i \<Longrightarrow> list_all identifier_char i"
  by (cases i) (auto simp: valid_identifier_def identifier_char_def)

lemma valid_identifier_read [simp]:
  assumes "valid_identifier i" shows "read_id (Some (JString i)) = Some i"
proof -
  have "\<not> identifier_char nul" by (simp add: identifier_char_def eval_ascii)
  then have "nul \<notin> set i" using valid_identifier_chars [OF assms] by (auto simp: list_all_iff)
  then have "bounded_text max_identifier_bytes i" using assms by (simp add: bounded_text_def valid_identifier_def)
  then show ?thesis
    using assms by (simp add: read_id_iff read_text_iff identifier_trim valid_identifier_chars)
qed

section \<open>Normalized plans\<close>

definition named_locals :: "string \<Rightarrow> nat \<Rightarrow> (string \<times> local_subgoal) list \<times> string list \<Rightarrow> bool" where
  "named_locals p k st \<longleftrightarrow>
     sorted_keys (fst st) \<and> distinct (snd st) \<and> set (snd st) = fst ` set (fst st) \<and> length (snd st) = k \<and>
     map (\<lambda>key. local_node_id (local_at (fst st) key)) (snd st) = map (node_name p) [0..<k] \<and>
     (\<forall>i < k. valid_identifier (node_name p i)) \<and> (0 < k \<longrightarrow> CHR '':'' \<notin> set p)"

lemma protocol_node_id_Inr:
  "protocol_node_id p (''sg-'' @ show_nat (i + 1)) = Inr n \<longleftrightarrow>
     CHR '':'' \<notin> set p \<and> valid_identifier (node_name p i) \<and> n = node_name p i"
  using no_colon_in_digits [of "i + 1"] by (auto simp: protocol_node_id_def node_name_def identifier_parse_Inr)

lemma add_subgoal_shape:
  assumes "add_subgoal l p (i, j) (m, ks) = Inr st"
  shows "\<exists>key s. map_of m key = None \<and> st = (bt_insert key s m, ks @ [key]) \<and>
     local_node_id s = node_name p i \<and> valid_identifier (node_name p i) \<and> CHR '':'' \<notin> set p"
  using assms unfolding add_subgoal_def Let_def prod.case fst_conv snd_conv
  apply (elim bind_rE guard_InrE)
  apply (auto simp: protocol_node_id_Inr [simplified])
  apply (rule exI, rule conjI, assumption, rule exI, rule conjI, rule refl, simp)
  done

lemma keys_insert_new: "map_of m key = None \<Longrightarrow> fst ` set (bt_insert key s m) = insert key (fst ` set m)"
  using keys_bt_insert [of key s m] by simp

lemma add_subgoal_named:
  assumes "named_locals p k st" "add_subgoal l p (k, j) st = Inr st'"
  shows "named_locals p (Suc k) st'"
proof -
  obtain m ks where st: "st = (m, ks)" by (cases st)
  obtain key s where s: "map_of m key = None" "st' = (bt_insert key s m, ks @ [key])"
    "local_node_id s = node_name p k" "valid_identifier (node_name p k)" "CHR '':'' \<notin> set p"
    using add_subgoal_shape [OF assms(2) [unfolded st]] by blast
  have new: "key \<notin> fst ` set m" using s(1) by (simp add: map_of_eq_None_iff)
  have old: "local_at (bt_insert key s m) k = local_at m k" if "k \<in> set ks" for k
    using that assms(1) new by (auto simp: named_locals_def st local_at_def)
  have "map (\<lambda>k. local_node_id (local_at (bt_insert key s m) k)) ks = map (\<lambda>k. local_node_id (local_at m k)) ks"
    using old by simp
  also have "\<dots> = map (node_name p) [0..<k]" using assms(1) by (simp add: named_locals_def st)
  finally have "map (\<lambda>k. local_node_id (local_at (bt_insert key s m) k)) (ks @ [key]) = map (node_name p) [0..<Suc k]"
    using s(3) by (simp add: local_at_def [of "bt_insert key s m" key])
  moreover have "key \<notin> set ks" "sorted_keys (bt_insert key s m)"
    using assms(1) new by (auto simp: named_locals_def st sorted_bt_insert)
  ultimately show ?thesis
    using assms(1) s(2,4,5) keys_insert_new [OF s(1), of s] by (auto simp: named_locals_def st less_Suc_eq)
qed

lemma add_subgoals_named:
  "named_locals p k st \<Longrightarrow> fold_r (add_subgoal l p) (List.enumerate k js) st = Inr st' \<Longrightarrow>
     named_locals p (k + length js) st'"
proof (induction js arbitrary: k st)
  case (Cons j js)
  from Cons.prems(2) obtain st1 where "add_subgoal l p (k, j) st = Inr st1"
    "fold_r (add_subgoal l p) (List.enumerate (Suc k) js) st1 = Inr st'"
    by (auto simp: bind_r_eq_Inr)
  then show ?case using Cons.IH [OF add_subgoal_named [OF Cons.prems(1)]] by simp
qed simp

text \<open>A normalized plan at a position, and the subgoals it was made of.\<close>

definition plan_made :: "int \<Rightarrow> nat \<Rightarrow> json \<Rightarrow> bool" where
  "plan_made r i plan \<longleftrightarrow> (\<exists>locals ks k l src summary motivation depends risks.
     plan = normalized_plan (plan_name r i) src summary locals ks motivation depends risks \<and>
     named_locals (plan_name r i) k (locals, ks) \<and> 0 < k \<and> k \<le> max_node_dependencies \<and>
     valid_identifier (plan_name r i) \<and> validate_local_dependencies locals l = Inr ())"

lemma normalize_plan_shape:
  assumes "normalize_plan r (i, j) (seen, acc) = Inr st"
  shows "\<exists>plan. snd st = acc @ [plan] \<and> plan_made r i plan"
proof -
  define l where "l = at_index ''plans'' i"
  have "\<exists>js locals ks src summary motivation depends risks.
    valid_identifier (plan_name r i) \<and> js \<noteq> [] \<and> length js \<le> max_node_dependencies \<and>
    fold_r (add_subgoal l (plan_name r i)) (List.enumerate 0 js) ([], []) = Inr (locals, ks) \<and>
    validate_local_dependencies locals l = Inr () \<and>
    snd st = acc @ [normalized_plan (plan_name r i) src summary locals ks motivation depends risks]"
    using assms unfolding normalize_plan_def Let_def prod.case fst_conv snd_conv l_def [symmetric]
      plan_name_def [symmetric]
    apply (elim bind_rE guard_InrE case_prod_InrE)
    apply (simp only: identifier_parse_Inr ok_or_eq_Inr option_filter_Some bounded_count_Inr sum.inject)
    apply (elim conjE)
    apply (intro exI conjI)
    apply (assumption | simp (no_asm_simp))+
    apply (rule trans [OF arg_cong [of _ _ snd]], erule sym, rule snd_conv)
    done
  then obtain js locals ks src summary motivation depends risks where
    r: "valid_identifier (plan_name r i)" "js \<noteq> []" "length js \<le> max_node_dependencies"
    "fold_r (add_subgoal l (plan_name r i)) (List.enumerate 0 js) ([], []) = Inr (locals, ks)"
    "validate_local_dependencies locals l = Inr ()"
    "snd st = acc @ [normalized_plan (plan_name r i) src summary locals ks motivation depends risks]"
    by blast
  have "named_locals (plan_name r i) 0 ([], [])"
    by (simp add: named_locals_def sorted_keys_def)
  from add_subgoals_named [OF this r(4)] have "named_locals (plan_name r i) (length js) (locals, ks)" by simp
  then have "plan_made r i (normalized_plan (plan_name r i) src summary locals ks motivation depends risks)"
    unfolding plan_made_def using r(1-3,5) by blast
  then show ?thesis using r(6) by blast
qed

lemma normalize_plans_made:
  "fold_r (normalize_plan r) (List.enumerate k items) (seen, acc) = Inr st \<Longrightarrow>
     \<exists>plans. snd st = acc @ plans \<and> length plans = length items \<and>
       list_all (\<lambda>(i, plan). plan_made r i plan) (List.enumerate k plans)"
proof (induction items arbitrary: k seen acc)
  case (Cons j js)
  from Cons.prems obtain seen1 acc1 where step: "normalize_plan r (k, j) (seen, acc) = Inr (seen1, acc1)"
    "fold_r (normalize_plan r) (List.enumerate (Suc k) js) (seen1, acc1) = Inr st"
    by (auto simp: bind_r_eq_Inr)
  obtain plan where p: "acc1 = acc @ [plan]" "plan_made r k plan" using normalize_plan_shape [OF step(1)] by auto
  obtain plans where "snd st = acc1 @ plans" "length plans = length js"
    "list_all (\<lambda>(i, plan). plan_made r i plan) (List.enumerate (Suc k) plans)"
    using Cons.IH [OF step(2)] by blast
  then show ?case using p by (intro exI [of _ "plan # plans"]) simp
qed auto

lemma read_research_subgoal:
  "valid_identifier (local_node_id (local_at locals key)) \<Longrightarrow>
     read_subgoal (research_subgoal locals key) = Some (local_node_id (local_at locals key))"
  by (simp add: research_subgoal_def json_object_def Let_def map_of_bt_collect)

lemma named_locals_valid:
  assumes "named_locals p k (m, ks)" "key \<in> set ks"
  shows "valid_identifier (local_node_id (local_at m key))"
proof -
  have "local_node_id (local_at m key) \<in> set (map (\<lambda>key. local_node_id (local_at m key)) ks)" using assms(2) by simp
  also have "\<dots> = node_name p ` {..<k}" using assms(1) by (auto simp: named_locals_def)
  finally show ?thesis using assms(1) by (auto simp: named_locals_def)
qed

lemma plan_made_read:
  assumes "plan_made r i plan"
  shows "\<exists>k. 0 < k \<and> k \<le> max_node_dependencies \<and>
    read_plan plan = Some (plan_name r i, map (node_name (plan_name r i)) [0..<k]) \<and> CHR '':'' \<notin> set (plan_name r i)"
proof -
  define p where "p = plan_name r i"
  obtain locals ks k src summary motivation depends risks where made:
    "plan = normalized_plan p src summary locals ks motivation depends risks" "named_locals p k (locals, ks)"
    "0 < k" "k \<le> max_node_dependencies" "valid_identifier p"
    using assms unfolding plan_made_def p_def by blast
  have ids: "map (\<lambda>key. local_node_id (local_at locals key)) ks = map (node_name p) [0..<k]" "length ks = k"
    using made(2) by (auto simp: named_locals_def)
  have sub: "read_subgoal (research_subgoal locals key) = Some (local_node_id (local_at locals key))"
    if "key \<in> set ks" for key
    using named_locals_valid [OF made(2) that] by (rule read_research_subgoal)
  then have "map (\<lambda>key. the (read_subgoal (research_subgoal locals key))) ks =
      map (\<lambda>key. local_node_id (local_at locals key)) ks" by simp
  then have "read_plan plan = Some (p, map (node_name p) [0..<k])"
    using made(1,4,5) ids sub
    by (simp add: normalized_plan_def json_object_def map_of_bt_collect list_all_iff comp_def)
  then show ?thesis using made(2-4) unfolding p_def [symmetric] by (auto simp: named_locals_def)
qed

lemma map_snd_listed: "map snd (listed_pairs plans) = concat (map (\<lambda>j. snd (the (read_plan j))) plans)"
  by (induction plans) (auto simp: listed_pairs_def comp_def)

definition names_from :: "int \<Rightarrow> nat \<Rightarrow> string set" where
  "names_from r k = {node_name (plan_name r i) j | i j. k \<le> i}"

lemma names_from_Suc: "names_from r (Suc k) \<subseteq> names_from r k"
  unfolding names_from_def using Suc_leD by blast

lemma no_target_name: "target_name \<notin> names_from r k"
  by (auto simp: names_from_def node_name_def target_name_def)

lemma plans_made_distinct:
  "list_all (\<lambda>(i, plan). plan_made r i plan) (List.enumerate k plans) \<Longrightarrow>
     list_all (\<lambda>j. read_plan j \<noteq> None) plans \<and> distinct (map snd (listed_pairs plans)) \<and>
     set (map snd (listed_pairs plans)) \<subseteq> names_from r k"
proof (induction plans arbitrary: k)
  case (Cons plan plans)
  have made: "plan_made r k plan" and rest: "list_all (\<lambda>(i, plan). plan_made r i plan) (List.enumerate (Suc k) plans)"
    using Cons.prems by simp_all
  obtain n where n: "read_plan plan = Some (plan_name r k, map (node_name (plan_name r k)) [0..<n])"
    "CHR '':'' \<notin> set (plan_name r k)" using plan_made_read [OF made] by blast
  have colon: "CHR '':'' \<notin> set (plan_name r i)" for i
    using n(2) no_colon_in_digits by (auto simp: plan_name_def)
  note inj = node_name_inj [OF _ colon colon]
  define new where "new = map (node_name (plan_name r k)) [0..<n]"
  define old where "old = map snd (listed_pairs plans)"
  have listed: "map snd (listed_pairs (plan # plans)) = new @ old"
    by (simp add: map_snd_listed n(1) new_def old_def)
  have ih: "list_all (\<lambda>j. read_plan j \<noteq> None) plans" "distinct old" "set old \<subseteq> names_from r (Suc k)"
    using Cons.IH [OF rest] unfolding old_def by blast+
  have "distinct new" unfolding new_def distinct_map inj_on_def using inj by (metis distinct_upt)
  moreover have "x \<notin> names_from r (Suc k)" if "x \<in> set new" for x
  proof
    assume "x \<in> names_from r (Suc k)"
    then obtain i j where x: "x = node_name (plan_name r i) j" "Suc k \<le> i" by (auto simp: names_from_def)
    from that obtain j' where "x = node_name (plan_name r k) j'" by (auto simp: new_def)
    then have "node_name (plan_name r k) j' = node_name (plan_name r i) j" using x(1) by simp
    from inj [OF this] show False using x(2) by simp
  qed
  moreover have "set new \<subseteq> names_from r k" by (auto simp: new_def names_from_def)
  ultimately have "distinct (new @ old)" "set (new @ old) \<subseteq> names_from r k"
    using ih(2,3) names_from_Suc [of r k] by auto
  then show ?case unfolding listed using ih(1) n(1) by simp
qed (simp add: listed_pairs_def)

lemma normalized_plans_made:
  assumes "normalize_protocol3_plans v r = Inr plans"
  shows "2 \<le> length plans \<and> length plans \<le> max_active_plans \<and>
    list_all (\<lambda>(i, plan). plan_made (max r 1) i plan) (List.enumerate 0 plans)"
proof -
  obtain items st where i: "2 \<le> length items" "length items \<le> max_active_plans"
    "fold_r (normalize_plan (max r 1)) (List.enumerate 0 items) ({}, []) = Inr st" "plans = snd st"
    using assms unfolding normalize_protocol3_plans_def by (elim bind_rE) auto
  then show ?thesis using normalize_plans_made [OF i(3)] by auto
qed

lemma list_all_enumerate: "list_all P (List.enumerate 0 xs) \<longleftrightarrow> (\<forall>i < length xs. P (i, xs ! i))"
  by (simp add: list_all_length nth_enumerate_eq)

text \<open>
  A normalized proposal can be read back. What \<open>normalize_protocol3_plans\<close> returns is accepted as
  the active plans of a scope: the scope's plans are the canonical names of the two to 64 plans in
  their order, and the nodes of a plan are numbered from its first to its last subgoal.
\<close>

theorem normalized_plans_make_a_scope:
  assumes "normalize_protocol3_plans v r = Inr plans"
  shows "\<exists>scope. from_active_plans (JArray plans) references = Inr scope \<and>
    {p. contains_plan scope p} = plan_name (max r 1) ` {..<length plans} \<and>
    (\<forall>i < length plans. \<exists>k. 0 < k \<and> k \<le> 64 \<and>
      {n. plan_contains_node scope (plan_name (max r 1) i) n} = node_name (plan_name (max r 1) i) ` {..<k})"
proof -
  let ?r = "max r 1"
  have made: "length plans \<le> max_active_plans" "list_all (\<lambda>(i, plan). plan_made ?r i plan) (List.enumerate 0 plans)"
    using normalized_plans_made [OF assms] by auto
  have fit: "plans_fit [] plans"
    using plans_made_distinct [OF made(2)] no_target_name [of ?r 0] by (auto simp: plans_fit_def)
  obtain scope where scope: "from_active_plans (JArray plans) references = Inr scope"
    "scope_view scope (set (map (\<lambda>j. fst (the (read_plan j))) plans)) (listed_pairs plans)"
    using from_active_plans_view [of plans references] made(1) fit by (auto split: sum.splits)
  have each: "\<exists>k. 0 < k \<and> k \<le> max_node_dependencies \<and>
      read_plan (plans ! i) = Some (plan_name ?r i, map (node_name (plan_name ?r i)) [0..<k])"
    if "i < length plans" for i
    using made(2) that plan_made_read [of ?r i "plans ! i"] by (auto simp: list_all_enumerate)
  have "{p. contains_plan scope p} = (\<lambda>i. fst (the (read_plan (plans ! i)))) ` {..<length plans}"
  proof -
    have "{p. contains_plan scope p} = (\<lambda>j. fst (the (read_plan j))) ` set plans"
      using scope(2) by (auto simp: scope_view_def)
    also have "set plans = (\<lambda>i. plans ! i) ` {..<length plans}" by (auto simp: set_conv_nth)
    finally show ?thesis by (simp add: image_image)
  qed
  also have "\<dots> = plan_name ?r ` {..<length plans}" using each by (intro image_cong) fastforce+
  finally have plan_ids: "{p. contains_plan scope p} = plan_name ?r ` {..<length plans}" .
  have nodes: "{n. plan_contains_node scope (plan_name ?r i) n} = set (snd (the (read_plan (plans ! i))))"
    if i: "i < length plans" for i
  proof -
    have "n \<in> set (snd (the (read_plan (plans ! i)))) \<longleftrightarrow> (plan_name ?r i, n) \<in> set (listed_pairs plans)" for n
    proof
      assume "n \<in> set (snd (the (read_plan (plans ! i))))"
      then show "(plan_name ?r i, n) \<in> set (listed_pairs plans)"
        using each [OF i] i by (auto simp: listed_pairs_def intro!: bexI [of _ "plans ! i"])
    next
      assume "(plan_name ?r i, n) \<in> set (listed_pairs plans)"
      then obtain plan where "plan \<in> set plans" "fst (the (read_plan plan)) = plan_name ?r i"
        "n \<in> set (snd (the (read_plan plan)))"
        by (auto simp: listed_pairs_def)
      then obtain i' where i': "i' < length plans" "fst (the (read_plan (plans ! i'))) = plan_name ?r i"
        "n \<in> set (snd (the (read_plan (plans ! i'))))"
        by (auto simp: in_set_conv_nth)
      then have "i' = i" using each [OF i'(1)] by auto
      then show "n \<in> set (snd (the (read_plan (plans ! i))))" using i'(3) by simp
    qed
    then show ?thesis using scope(2) by (auto simp: plan_contains_bucket scope_view_def)
  qed
  have "\<exists>k. 0 < k \<and> k \<le> 64 \<and>
      {n. plan_contains_node scope (plan_name ?r i) n} = node_name (plan_name ?r i) ` {..<k}"
    if i: "i < length plans" for i
    using each [OF i] nodes [OF i] by (auto simp: max_node_dependencies_def lessThan_atLeast0)
  then show ?thesis using scope(1) plan_ids by blast
qed

text \<open>The dependencies between canonical nodes that a normalized plan states.\<close>

fun subgoal_depends :: "json \<Rightarrow> string list" where
  "subgoal_depends (JObject node) =
     (case obj_get node ''depends_on'' of Some (JArray xs) \<Rightarrow> List.map_filter as_str xs | _ \<Rightarrow> [])"
| "subgoal_depends _ = []"

fun plan_subgoals :: "json \<Rightarrow> json list" where
  "plan_subgoals (JObject plan) =
     (case obj_get plan ''research_subgoals'' of Some (JArray subgoals) \<Rightarrow> subgoals | _ \<Rightarrow> [])"
| "plan_subgoals _ = []"

definition plan_edges :: "json \<Rightarrow> (string \<times> string) set" where
  "plan_edges plan = {(n, d). \<exists>j \<in> set (plan_subgoals plan). read_subgoal j = Some n \<and> d \<in> set (subgoal_depends j)}"

lemma acyclic_image:
  assumes "finite r" "acyclic r" "inj_on f K" "r \<subseteq> K \<times> K"
  shows "acyclic (map_prod f f ` r)"
proof -
  have "map_prod f f ` r \<subseteq> inv_image r (the_inv_into K f)"
    using assms(4) the_inv_into_f_f [OF assms(3)] by (force simp: inv_image_def)
  moreover have "wf (inv_image r (the_inv_into K f))"
    using finite_acyclic_wf [OF assms(1,2)] by (rule wf_inv_image)
  ultimately show ?thesis by (meson wf_acyclic acyclic_subset)
qed

lemma map_filter_as_str [simp]: "List.map_filter as_str (map JString ss) = ss"
  by (induction ss) (simp_all add: map_filter_simps)

lemma plan_made_edges:
  assumes "plan_made r i plan"
  shows "acyclic (plan_edges plan) \<and> Field (plan_edges plan) \<subseteq> set (snd (the (read_plan plan)))"
proof -
  define p where "p = plan_name r i"
  obtain locals ks k l src summary motivation depends risks where made:
    "plan = normalized_plan p src summary locals ks motivation depends risks" "named_locals p k (locals, ks)"
    "validate_local_dependencies locals l = Inr ()" "valid_identifier p" "k \<le> max_node_dependencies"
    using assms unfolding plan_made_def p_def by blast
  define f where "f key = local_node_id (local_at locals key)" for key
  define E where "E = {(key, d). \<exists>s. (key, s) \<in> set locals \<and> d \<in> set (local_depends_on s)}"
  have named: "sorted_keys locals" "distinct ks" "set ks = fst ` set locals" "map f ks = map (node_name p) [0..<k]"
    "0 < k \<longrightarrow> CHR '':'' \<notin> set p"
    using made(2) unfolding f_def by (auto simp: named_locals_def)
  have deps: "{d. \<exists>(key, s) \<in> set locals. d \<in> set (local_depends_on s)} \<subseteq> fst ` set locals" "acyclic E"
    using local_dependencies_iff [OF named(1), of l] made(3) unfolding E_def by auto
  have entry: "(key, s) \<in> set locals \<longleftrightarrow> key \<in> set ks \<and> s = local_at locals key" for key s
  proof -
    have "(key, s) \<in> set locals \<longleftrightarrow> map_of locals key = Some s"
      using map_of_eq_Some_iff [OF sorted_keys_distinct [OF named(1)], of key s] by simp
    moreover have "key \<in> set ks \<longleftrightarrow> map_of locals key \<noteq> None"
      unfolding named(3) using map_of_eq_None_iff [of locals key] by simp
    ultimately show ?thesis by (cases "map_of locals key") (auto simp: local_at_def)
  qed
  have E: "E = {(key, d). key \<in> set ks \<and> d \<in> set (local_depends_on (local_at locals key))}"
    unfolding E_def entry by auto
  have sub: "E \<subseteq> set ks \<times> set ks"
  proof clarify
    fix key d assume "(key, d) \<in> E"
    then obtain s where s: "(key, s) \<in> set locals" "d \<in> set (local_depends_on s)" by (auto simp: E_def)
    then have "d \<in> fst ` set locals" using deps(1) by blast
    moreover have "key \<in> set ks" using s(1) entry by blast
    ultimately show "key \<in> set ks \<and> d \<in> set ks" unfolding named(3) by blast
  qed
  have "plan_subgoals plan = map (research_subgoal locals) ks"
    by (simp add: made(1) normalized_plan_def json_object_def map_of_bt_collect)
  moreover have "read_subgoal (research_subgoal locals key) = Some (f key)" if "key \<in> set ks" for key
    using named_locals_valid [OF made(2) that] unfolding f_def by (rule read_research_subgoal)
  moreover have "subgoal_depends (research_subgoal locals key) = map f (local_depends_on (local_at locals key))" for key
    by (simp add: research_subgoal_def Let_def json_object_def map_of_bt_collect json_texts_def f_def
        map_map [symmetric] del: map_map)
  ultimately have edges: "plan_edges plan = map_prod f f ` E"
    unfolding plan_edges_def E by force
  have "inj_on (node_name p) {..<k}"
    using node_name_inj [of p _ p] named(5) by (cases k) (auto simp: inj_on_def)
  then have "distinct (map f ks)" unfolding named(4) by (simp add: distinct_map lessThan_atLeast0)
  then have inj: "inj_on f (set ks)" by (simp add: distinct_map)
  have "finite E" by (rule finite_subset [OF sub]) simp
  then have "acyclic (plan_edges plan)" unfolding edges using deps(2) inj sub by (rule acyclic_image)
  moreover have "Field (plan_edges plan) \<subseteq> f ` set ks"
    using sub unfolding edges by (auto simp: Field_def)
  moreover have "f ` set ks = set (snd (the (read_plan plan)))"
  proof -
    obtain k' where k': "read_plan plan = Some (p, map (node_name p) [0..<k'])"
      using plan_made_read [OF assms] unfolding p_def by blast
    then have "map (\<lambda>j. the (read_subgoal j)) (map (research_subgoal locals) ks) = map (node_name p) [0..<k']"
      by (simp add: made(1) normalized_plan_def json_object_def map_of_bt_collect split: option.splits if_splits)
    from arg_cong [OF this, of length] have "k' = length ks" by simp
    moreover have "length ks = k" using made(2) by (simp add: named_locals_def)
    ultimately have "set (snd (the (read_plan plan))) = set (map f ks)" using k' by (simp add: named(4))
    then show ?thesis by simp
  qed
  ultimately show ?thesis by simp
qed

text \<open>
  C13. Normalization keeps the dependencies sound: in every plan it returns, the canonical identifiers a
  subgoal depends on are those of subgoals of the same plan, and they have no cycle.
\<close>

theorem normalized_dependencies_have_no_cycle:
  assumes "normalize_protocol3_plans v r = Inr plans"
  shows "list_all (\<lambda>plan. acyclic (plan_edges plan) \<and>
    Field (plan_edges plan) \<subseteq> set (snd (the (read_plan plan)))) plans"
proof -
  have "list_all (\<lambda>(i, plan). plan_made (max r 1) i plan) (List.enumerate 0 plans)"
    using normalized_plans_made [OF assms] by simp
  then have "plan_made (max r 1) i (plans ! i)" if "i < length plans" for i
    using that by (simp add: list_all_enumerate)
  then show ?thesis using plan_made_edges unfolding list_all_length by blast
qed

definition example_subgoal :: "string \<Rightarrow> string list \<Rightarrow> json" where
  "example_subgoal key deps = JObject [(''critical'', JBool True), (''depends_on'', json_texts deps),
     (''key'', JString key), (''statement'', JString ''S'')]"

definition example_proposal :: json where
  "example_proposal = JArray
     [JObject [(''subgoals'', JArray [example_subgoal ''a'' []]), (''summary'', JString ''one'')],
      JObject [(''subgoals'', JArray [example_subgoal ''b'' [''a''], example_subgoal ''a'' []]),
        (''summary'', JString ''two'')]]"

lemma example_accepted: "is_ok (normalize_protocol3_plans (Some example_proposal) 0)"
  by code_simp

lemma example_normalized:
  obtains plans where "normalize_protocol3_plans (Some example_proposal) 0 = Inr plans"
  using example_accepted by (auto simp: is_ok_iff)

theorem normalized_plans_make_a_scope_witness:
  "\<exists>plans scope. normalize_protocol3_plans (Some example_proposal) 0 = Inr plans \<and>
     from_active_plans (JArray plans) [''ref''] = Inr scope"
  using example_normalized normalized_plans_make_a_scope by metis

theorem normalized_dependencies_have_no_cycle_witness:
  "\<exists>plans. normalize_protocol3_plans (Some example_proposal) 0 = Inr plans \<and>
     list_all (\<lambda>plan. acyclic (plan_edges plan)) plans"
  using example_normalized normalized_dependencies_have_no_cycle by (metis (no_types, lifting) list.pred_mono_strong)

definition example_locals :: "(string \<times> local_subgoal) list" where
  "example_locals = map (\<lambda>(k, deps). (k, \<lparr>local_statement = ''S'', local_depends_on = deps, local_critical = True,
     local_kind = KindLemma, local_subgoal_id = ''sg-1'', local_node_id = ''n''\<rparr>))
     [(''a'', [''b'']), (''b'', [''a''])]"

theorem local_dependencies_exact_witness:
  "sorted_keys example_locals \<and> \<not> is_ok (validate_local_dependencies example_locals ''l'')"
proof -
  have sorted: "sorted_keys example_locals" by (simp add: example_locals_def sorted_keys_def)
  let ?E = "{(key, d). \<exists>s. (key, s) \<in> set example_locals \<and> d \<in> set (local_depends_on s)}"
  have "(''a'', ''b'') \<in> ?E" "(''b'', ''a'') \<in> ?E" by (simp_all add: example_locals_def)
  then have "(''a'', ''a'') \<in> ?E\<^sup>+" by (meson r_into_trancl' trancl_into_trancl)
  then have "\<not> acyclic ?E" by (auto simp: acyclic_def)
  then show ?thesis using local_dependencies_exact [OF sorted, of "''l''"] sorted by blast
qed

end
