(* ===== verification/Protocol_Records.thy ===== *)
theory Protocol_Records
  imports Protocol_Fields
begin

text \<open>
  The records of protocol 3, \<open>mtm-workflow/src/research_state/protocol.rs\<close>: the fields of a screening,
  the end of a branch, the summary of a failure, the decision to replan, and the events and
  counterexamples a generator reports. Each is checked field by field in the order of the source and
  rebuilt from what was read, so that nothing the client wrote beyond it is kept.
\<close>

section \<open>Screenings\<close>

fun transpose_option :: "'a option option \<Rightarrow> 'a option option" where
  "transpose_option None = Some None"
| "transpose_option (Some (Some v)) = Some (Some v)"
| "transpose_option (Some None) = None"

definition unwrap_or :: "'a option \<Rightarrow> 'a \<Rightarrow> 'a" where
  "unwrap_or x d = (case x of None \<Rightarrow> d | Some y \<Rightarrow> y)"

record protocol_attempt_fields =
  field_method :: attempt_method
  field_obstruction :: "research_obstruction option"
  field_evidence_ids :: "string list"

definition msg_stuck :: string where "msg_stuck = ''stuck screening requires an obstruction class''"

definition msg_solved_obstruction :: string where
  "msg_solved_obstruction = ''solved screening may not declare an obstruction''"

definition protocol3_screening_fields ::
  "object \<Rightarrow> string \<Rightarrow> string \<Rightarrow> protocol_attempt_fields research" where
  "protocol3_screening_fields screening status l =
     bind_r (reject_unknown screening [''subgoal_id'', ''subgoal'', ''status'', ''summary'', ''method'',
              ''obstruction'', ''evidence_ids''] l) (\<lambda>_.
     bind_r (optional_text (obj_get screening ''method'') (l @ ''.method'') 32) (\<lambda>method_text.
     bind_r (ok_or (transpose_option (map_option attempt_method_parse method_text))
              (malformed (l @ ''.method'') ''unknown attempt method'')) (\<lambda>m.
     bind_r (optional_text (obj_get screening ''obstruction'') (l @ ''.obstruction'') 64) (\<lambda>obstruction_text.
     bind_r (ok_or (transpose_option (map_option obstruction_parse obstruction_text))
              (malformed (l @ ''.obstruction'') ''unknown obstruction class'')) (\<lambda>b.
     if status = ''stuck'' \<and> b = None then Inl (malformed (l @ ''.obstruction'') msg_stuck)
     else if status = ''solved'' \<and> b \<noteq> None then Inl (malformed (l @ ''.obstruction'') msg_solved_obstruction)
     else
     bind_r (unique_string_array (obj_get screening ''evidence_ids'') (l @ ''.evidence_ids'')
              max_evidence_ids False max_evidence_id_bytes) (\<lambda>evidence.
       Inr \<lparr>field_method = unwrap_or m Direct, field_obstruction = b, field_evidence_ids = evidence\<rparr>))))))"

section \<open>The end of a branch\<close>

definition msg_other_plan :: string where "msg_other_plan = ''node is not assigned to this branch plan''"

definition normalize_branch_obstruction ::
  "protocol_scope \<Rightarrow> string \<Rightarrow> string \<Rightarrow> nat \<times> json \<Rightarrow> string set \<times> json list \<Rightarrow> (string set \<times> json list) research"
where
  "normalize_branch_obstruction scope p l entry st = (case st of (seen, normalized) \<Rightarrow>
     let il = at_index l (fst entry) in
     bind_r (expect_object (snd entry) il) (\<lambda>item.
     bind_r (reject_unknown item [''node_id'', ''class'', ''summary'', ''evidence_ids''] il) (\<lambda>_.
     bind_r (parse_known_node (obj_get item ''node_id'') scope (il @ ''.node_id'')) (\<lambda>n.
     if \<not> plan_contains_node scope p n then Inl (malformed (il @ ''.node_id'') msg_other_plan)
     else if n \<in> seen then Inl (malformed il ''duplicate branch obstruction node'')
     else
     bind_r (parse_obstruction (obj_get item ''class'') (il @ ''.class'')) (\<lambda>b.
     bind_r (required_text (obj_get item ''summary'') (il @ ''.summary'') max_summary_bytes) (\<lambda>summary.
     bind_r (unique_string_array (obj_get item ''evidence_ids'') (il @ ''.evidence_ids'')
              max_evidence_ids False max_evidence_id_bytes) (\<lambda>evidence.
       Inr (insert n seen, normalized @ [json_object [(''node_id'', JString n),
         (''class'', JString (obstruction_as_str b)), (''summary'', JString summary),
         (''evidence_ids'', json_texts evidence)]]))))))))"

definition normalize_protocol3_branch_obstructions ::
  "json option \<Rightarrow> protocol_scope \<Rightarrow> string \<Rightarrow> string \<Rightarrow> json list research" where
  "normalize_protocol3_branch_obstructions v scope p l =
     (case v of None \<Rightarrow> Inr []
      | Some w \<Rightarrow>
          bind_r (ok_or (as_array w) (malformed l ''expected an array'')) (\<lambda>items.
          bind_r (bounded_count ''protocol3_branch_obstructions'' (length items) max_node_dependencies) (\<lambda>_.
            map_ok snd (fold_r (normalize_branch_obstruction scope p l) (List.enumerate 0 items) ({}, [])))))"

record protocol_branch_fields =
  branch_status :: string
  branch_summary :: string
  branch_proof_route :: "string option"
  branch_proved :: "string list"
  branch_unproved :: "string list"
  branch_failure_evidence :: "string list"
  branch_obstructions :: "json list"

definition msg_branch_status :: string where
  "msg_branch_status = ''status must be solved, partial, or failed''"

definition msg_proof_route :: string where "msg_proof_route = ''solved branch requires a proof route''"

definition msg_branch_nodes :: string where
  "msg_branch_nodes = ''proved and unproved node IDs must belong to the branch plan''"

definition msg_proved_unproved :: string where
  "msg_proved_unproved = ''a node may not be both proved and unproved''"

definition msg_solved_clean :: string where
  "msg_solved_clean = ''solved branch may not declare unproved nodes, failure evidence, or obstructions''"

definition msg_partial_reason :: string where
  "msg_partial_reason = ''partial or failed branch requires unproved nodes, failure evidence, or obstructions''"

definition check_branch_node :: "protocol_scope \<Rightarrow> string \<Rightarrow> string \<Rightarrow> unit research" where
  "check_branch_node scope p t =
     bind_r (node_id_parse t) (\<lambda>n.
       if \<not> plan_contains_node scope p n then Inl (malformed ''branch_complete'' msg_branch_nodes) else Inr ())"

definition normalize_protocol3_branch_payload ::
  "json \<Rightarrow> protocol_scope \<Rightarrow> string \<Rightarrow> protocol_branch_fields research" where
  "normalize_protocol3_branch_payload v scope p =
     (let l = ''branch_complete'' in
      bind_r (expect_object v l) (\<lambda>obj.
      bind_r (reject_unknown obj [''status'', ''summary'', ''proof_route'', ''proved_subgoals'',
               ''unproved_subgoals'', ''failure_evidence'', ''obstructions''] l) (\<lambda>_.
      bind_r (required_text (obj_get obj ''status'') ''branch_complete.status'' 32) (\<lambda>status.
      if status \<notin> {''solved'', ''partial'', ''failed''}
      then Inl (malformed ''branch_complete.status'' msg_branch_status)
      else
      bind_r (required_text (obj_get obj ''summary'') ''branch_complete.summary'' max_summary_bytes) (\<lambda>summary.
      bind_r (optional_text (obj_get obj ''proof_route'') ''branch_complete.proof_route'' max_summary_bytes)
        (\<lambda>proof_route.
      if status = ''solved'' \<and> proof_route = None
      then Inl (malformed ''branch_complete.proof_route'' msg_proof_route)
      else
      bind_r (known_node_array (obj_get obj ''proved_subgoals'') scope ''branch_complete.proved_subgoals''
               max_node_dependencies False) (\<lambda>proved.
      bind_r (known_node_array (obj_get obj ''unproved_subgoals'') scope ''branch_complete.unproved_subgoals''
               max_node_dependencies False) (\<lambda>unproved.
      bind_r (check_all (check_branch_node scope p) (proved @ unproved)) (\<lambda>_.
      if list_ex (\<lambda>n. n \<in> set unproved) proved then Inl (malformed l msg_proved_unproved)
      else
      bind_r (text_array (obj_get obj ''failure_evidence'') ''branch_complete.failure_evidence''
               max_text_array False max_summary_bytes) (\<lambda>evidence.
      bind_r (normalize_protocol3_branch_obstructions (obj_get obj ''obstructions'') scope p
               ''branch_complete.obstructions'') (\<lambda>obstructions.
      if status = ''solved'' \<and> (unproved \<noteq> [] \<or> evidence \<noteq> [] \<or> obstructions \<noteq> [])
      then Inl (malformed l msg_solved_clean)
      else if status \<in> {''partial'', ''failed''} \<and> unproved = [] \<and> evidence = [] \<and> obstructions = []
      then Inl (malformed l msg_partial_reason)
      else Inr \<lparr>branch_status = status, branch_summary = summary, branch_proof_route = proof_route,
        branch_proved = proved, branch_unproved = unproved, branch_failure_evidence = evidence,
        branch_obstructions = obstructions\<rparr>)))))))))))"

section \<open>Failures and decisions\<close>

definition normalize_protocol3_failure_summary :: "json \<Rightarrow> protocol_scope \<Rightarrow> json research" where
  "normalize_protocol3_failure_summary v scope =
     (let l = ''failures_identified.summary'' in
      bind_r (expect_object v l) (\<lambda>summary.
      bind_r (reject_unknown summary [''obstruction'', ''next_step'', ''affected_node_ids'', ''obstruction_class'',
               ''excluded_plan_ids'', ''preserved_node_ids'', ''required_hypotheses'',
               ''required_reference_queries'', ''selected_focus_node_id''] l) (\<lambda>_.
      bind_r (required_text (obj_get summary ''obstruction'') (l @ ''.obstruction'') max_summary_bytes) (\<lambda>b.
      bind_r (required_text (obj_get summary ''next_step'') (l @ ''.next_step'') max_summary_bytes) (\<lambda>next_step.
      bind_r (parse_obstruction (obj_get summary ''obstruction_class'') (l @ ''.obstruction_class'')) (\<lambda>cl.
      bind_r (known_node_array (obj_get summary ''affected_node_ids'') scope (l @ ''.affected_node_ids'')
               max_decision_node_ids True) (\<lambda>affected.
      bind_r (known_plan_array (obj_get summary ''excluded_plan_ids'') scope (l @ ''.excluded_plan_ids'')
               max_decision_plan_ids False) (\<lambda>excluded.
      bind_r (known_node_array (obj_get summary ''preserved_node_ids'') scope (l @ ''.preserved_node_ids'')
               max_decision_node_ids False) (\<lambda>preserved.
      bind_r (text_array (obj_get summary ''required_hypotheses'') (l @ ''.required_hypotheses'')
               max_decision_constraints False max_summary_bytes) (\<lambda>hypotheses.
      bind_r (text_array (obj_get summary ''required_reference_queries'') (l @ ''.required_reference_queries'')
               max_decision_constraints False max_query_bytes) (\<lambda>queries.
      bind_r (optional_known_node (obj_get summary ''selected_focus_node_id'') scope
               (l @ ''.selected_focus_node_id'')) (\<lambda>focus.
        Inr (json_object [(''obstruction'', JString b), (''next_step'', JString next_step),
          (''affected_node_ids'', json_texts affected), (''obstruction_class'', JString (obstruction_as_str cl)),
          (''excluded_plan_ids'', json_texts excluded), (''preserved_node_ids'', json_texts preserved),
          (''required_hypotheses'', json_texts hypotheses), (''required_reference_queries'', json_texts queries),
          (''selected_focus_node_id'', json_option focus)])))))))))))))"

definition msg_replan_empty :: string where
  "msg_replan_empty = ''decision must supersede a plan, add a constraint, or select a focus node''"

definition normalize_protocol3_replan_decision :: "json \<Rightarrow> protocol_scope \<Rightarrow> json research" where
  "normalize_protocol3_replan_decision v scope =
     (let l = ''replan_complete.decision'' in
      bind_r (expect_object v l) (\<lambda>decision.
      bind_r (reject_unknown decision [''reason'', ''superseded_plan_ids'', ''preserved_node_ids'',
               ''new_constraints'', ''selected_focus_node_id''] l) (\<lambda>_.
      bind_r (required_text (obj_get decision ''reason'') (l @ ''.reason'') max_summary_bytes) (\<lambda>reason.
      bind_r (known_plan_array (obj_get decision ''superseded_plan_ids'') scope (l @ ''.superseded_plan_ids'')
               max_decision_plan_ids False) (\<lambda>superseded.
      bind_r (known_node_array (obj_get decision ''preserved_node_ids'') scope (l @ ''.preserved_node_ids'')
               max_decision_node_ids False) (\<lambda>preserved.
      bind_r (text_array (obj_get decision ''new_constraints'') (l @ ''.new_constraints'')
               max_decision_constraints False max_summary_bytes) (\<lambda>constraints.
      bind_r (optional_known_node (obj_get decision ''selected_focus_node_id'') scope
               (l @ ''.selected_focus_node_id'')) (\<lambda>focus.
      if superseded = [] \<and> constraints = [] \<and> focus = None then Inl (malformed l msg_replan_empty)
      else Inr (json_object [(''reason'', JString reason), (''superseded_plan_ids'', json_texts superseded),
        (''preserved_node_ids'', json_texts preserved), (''new_constraints'', json_texts constraints),
        (''selected_focus_node_id'', json_option focus)])))))))))"

section \<open>Counterexamples and events\<close>

definition msg_counterexample_channel :: string where
  "msg_counterexample_channel = ''counterexample channel accepts only counterexample_probe''"

definition msg_counterexample_outcome :: string where
  "msg_counterexample_outcome = ''outcome must be found, not_found_within_scope, or inconclusive''"

definition msg_witness :: string where
  "msg_witness = ''found counterexample requires a non-empty witness''"

definition normalize_counterexample :: "json \<Rightarrow> protocol_record_stamp \<Rightarrow> protocol_scope \<Rightarrow> json research" where
  "normalize_counterexample content stamp scope =
     (let l = ''counterexamples'' in
      bind_r (expect_object content l) (\<lambda>event.
      bind_r (reject_unknown event [''event_type'', ''node_id'', ''outcome'', ''summary'', ''probe_scope'',
               ''witness'', ''evidence_ids''] l) (\<lambda>_.
      if obj_get event ''event_type'' \<noteq> None \<and>
         obj_get event ''event_type'' \<noteq> Some (JString ''counterexample_probe'')
      then Inl (malformed ''counterexamples.event_type'' msg_counterexample_channel)
      else
      bind_r (parse_known_node (obj_get event ''node_id'') scope ''counterexamples.node_id'') (\<lambda>n.
      bind_r (required_text (obj_get event ''outcome'') ''counterexamples.outcome'' 32) (\<lambda>outcome.
      if outcome \<notin> {''found'', ''not_found_within_scope'', ''inconclusive''}
      then Inl (malformed ''counterexamples.outcome'' msg_counterexample_outcome)
      else
      bind_r (required_text (obj_get event ''summary'') ''counterexamples.summary'' max_summary_bytes) (\<lambda>summary.
      bind_r (required_text (obj_get event ''probe_scope'') ''counterexamples.probe_scope'' max_summary_bytes)
        (\<lambda>probe_scope.
      bind_r (optional_text (obj_get event ''witness'') ''counterexamples.witness'' max_summary_bytes) (\<lambda>witness.
      if outcome = ''found'' \<and> witness = None then Inl (malformed ''counterexamples.witness'' msg_witness)
      else
      bind_r (unique_string_array (obj_get event ''evidence_ids'') ''counterexamples.evidence_ids''
               max_evidence_ids False max_evidence_id_bytes) (\<lambda>evidence.
        stamp_protocol3_record ''counterexample_probe''
          (json_object [(''event_type'', JString ''counterexample_probe''), (''node_id'', JString n),
            (''outcome'', JString outcome), (''summary'', JString summary), (''probe_scope'', JString probe_scope),
            (''witness'', json_option witness), (''evidence_ids'', json_texts evidence),
            (''obstruction_class'', if outcome = ''found'' then JString ''false_claim'' else JNull)])
          stamp)))))))))"

definition normalize_assessment :: "object \<Rightarrow> protocol_record_stamp \<Rightarrow> json research" where
  "normalize_assessment event stamp =
     bind_r (reject_unknown event [''event_type'', ''summary''] ''events.assessment'') (\<lambda>_.
     bind_r (required_text (obj_get event ''summary'') ''events.summary'' max_summary_bytes) (\<lambda>summary.
       stamp_protocol3_record ''assessment''
         (json_object [(''event_type'', JString ''assessment''), (''summary'', JString summary)]) stamp))"

definition msg_toy_outcome :: string where
  "msg_toy_outcome = ''toy example outcome must be progress, refuted, or inconclusive''"

definition normalize_toy_example :: "object \<Rightarrow> protocol_record_stamp \<Rightarrow> protocol_scope \<Rightarrow> json research" where
  "normalize_toy_example event stamp scope =
     bind_r (reject_unknown event [''event_type'', ''node_id'', ''outcome'', ''summary'', ''evidence_ids'']
              ''events.toy_example_result'') (\<lambda>_.
     bind_r (parse_known_node (obj_get event ''node_id'') scope ''events.node_id'') (\<lambda>n.
     bind_r (required_text (obj_get event ''outcome'') ''events.outcome'' 32) (\<lambda>outcome.
     if outcome \<notin> {''progress'', ''refuted'', ''inconclusive''}
     then Inl (malformed ''events.outcome'' msg_toy_outcome)
     else
     bind_r (required_text (obj_get event ''summary'') ''events.summary'' max_summary_bytes) (\<lambda>summary.
     bind_r (unique_string_array (obj_get event ''evidence_ids'') ''events.evidence_ids''
              max_evidence_ids False max_evidence_id_bytes) (\<lambda>evidence.
       stamp_protocol3_record ''toy_example_result''
         (json_object [(''event_type'', JString ''toy_example_result''), (''node_id'', JString n),
           (''outcome'', JString outcome), (''summary'', JString summary),
           (''evidence_ids'', json_texts evidence)]) stamp)))))"

definition msg_retrieval_outcome :: string where
  "msg_retrieval_outcome = ''retrieval outcome must be new_material, no_new_material, or inconclusive''"

definition msg_new_material :: string where
  "msg_new_material = ''new_material requires at least one registered reference_id''"

definition normalize_retrieval :: "object \<Rightarrow> protocol_record_stamp \<Rightarrow> protocol_scope \<Rightarrow> json research" where
  "normalize_retrieval event stamp scope =
     bind_r (reject_unknown event [''event_type'', ''node_id'', ''outcome'', ''summary'', ''query'',
              ''reference_ids''] ''events.retrieval_assessment'') (\<lambda>_.
     bind_r (optional_known_node (obj_get event ''node_id'') scope ''events.node_id'') (\<lambda>n.
     bind_r (required_text (obj_get event ''outcome'') ''events.outcome'' 32) (\<lambda>outcome.
     if outcome \<notin> {''new_material'', ''no_new_material'', ''inconclusive''}
     then Inl (malformed ''events.outcome'' msg_retrieval_outcome)
     else
     bind_r (required_text (obj_get event ''summary'') ''events.summary'' max_summary_bytes) (\<lambda>summary.
     bind_r (optional_text (obj_get event ''query'') ''events.query'' max_query_bytes) (\<lambda>query.
     bind_r (registered_reference_array (obj_get event ''reference_ids'') scope ''events.reference_ids'')
       (\<lambda>references.
     if outcome = ''new_material'' \<and> references = []
     then Inl (malformed ''events.reference_ids'' msg_new_material)
     else stamp_protocol3_record ''retrieval_assessment''
         (json_object [(''event_type'', JString ''retrieval_assessment''), (''node_id'', json_option n),
           (''outcome'', JString outcome), (''summary'', JString summary), (''query'', json_option query),
           (''reference_ids'', json_texts references)]) stamp))))))"

definition msg_candidate_kind :: string where
  "msg_candidate_kind = ''candidate lemma cannot declare target kind''"

definition normalize_candidate :: "object \<Rightarrow> protocol_record_stamp \<Rightarrow> protocol_scope \<Rightarrow> json research" where
  "normalize_candidate event stamp scope =
     bind_r (reject_unknown event [''event_type'', ''statement'', ''summary'', ''depends_on'', ''critical'',
              ''kind'', ''evidence_ids''] ''events.new_candidate_lemma'') (\<lambda>_.
     bind_r (required_text (obj_get event ''statement'') ''events.statement'' max_statement_bytes) (\<lambda>stmt.
     bind_r (required_text (obj_get event ''summary'') ''events.summary'' max_summary_bytes) (\<lambda>summary.
     bind_r (known_node_array (obj_get event ''depends_on'') scope ''events.depends_on''
              max_node_dependencies False) (\<lambda>depends.
     let critical = unwrap_or (Option.bind (obj_get event ''critical'') as_bool) False in
     bind_r (optional_text (obj_get event ''kind'') ''events.kind'' 32) (\<lambda>kind_text.
     bind_r (ok_or (transpose_option (map_option node_kind_parse kind_text))
              (malformed ''events.kind'' ''unknown node kind'')) (\<lambda>parsed.
     let k = unwrap_or parsed KindLemma in
     if k = KindTarget then Inl (malformed ''events.kind'' msg_candidate_kind)
     else
     bind_r (unique_string_array (obj_get event ''evidence_ids'') ''events.evidence_ids''
              max_evidence_ids False max_evidence_id_bytes) (\<lambda>evidence.
       stamp_protocol3_record ''new_candidate_lemma''
         (json_object [(''event_type'', JString ''new_candidate_lemma''),
           (''candidate_id'', JString (stamp_record_id stamp)), (''statement'', JString stmt),
           (''summary'', JString summary), (''depends_on'', json_texts depends), (''critical'', JBool critical),
           (''kind'', JString (node_kind_as_str k)), (''evidence_ids'', json_texts evidence)]) stamp)))))))"

definition normalize_notation :: "object \<Rightarrow> protocol_record_stamp \<Rightarrow> protocol_scope \<Rightarrow> json research" where
  "normalize_notation event stamp scope =
     bind_r (reject_unknown event [''event_type'', ''node_id'', ''symbol'', ''resolution'', ''summary'',
              ''evidence_ids''] ''events.notation_resolution'') (\<lambda>_.
     bind_r (optional_known_node (obj_get event ''node_id'') scope ''events.node_id'') (\<lambda>n.
     bind_r (required_text (obj_get event ''symbol'') ''events.symbol'' max_symbol_bytes) (\<lambda>symbol.
     bind_r (required_text (obj_get event ''resolution'') ''events.resolution'' max_summary_bytes) (\<lambda>resolution.
     bind_r (required_text (obj_get event ''summary'') ''events.summary'' max_summary_bytes) (\<lambda>summary.
     bind_r (unique_string_array (obj_get event ''evidence_ids'') ''events.evidence_ids''
              max_evidence_ids False max_evidence_id_bytes) (\<lambda>evidence.
       stamp_protocol3_record ''notation_resolution''
         (json_object [(''event_type'', JString ''notation_resolution''), (''node_id'', json_option n),
           (''symbol'', JString symbol), (''resolution'', JString resolution), (''summary'', JString summary),
           (''evidence_ids'', json_texts evidence)]) stamp))))))"

definition msg_event_type :: string where "msg_event_type = ''unknown protocol-3 research event type''"

definition normalize_event :: "json \<Rightarrow> protocol_record_stamp \<Rightarrow> protocol_scope \<Rightarrow> json research" where
  "normalize_event content stamp scope =
     bind_r (expect_object content ''events'') (\<lambda>event.
     bind_r (required_text (obj_get event ''event_type'') ''events.event_type'' 64) (\<lambda>event_type.
       if event_type = ''assessment'' then normalize_assessment event stamp
       else if event_type = ''counterexample_probe'' then normalize_counterexample content stamp scope
       else if event_type = ''toy_example_result'' then normalize_toy_example event stamp scope
       else if event_type = ''retrieval_assessment'' then normalize_retrieval event stamp scope
       else if event_type = ''new_candidate_lemma'' then normalize_candidate event stamp scope
       else if event_type = ''notation_resolution'' then normalize_notation event stamp scope
       else Inl (malformed ''events.event_type'' msg_event_type)))"

definition normalize_protocol3_generation_record ::
  "string \<Rightarrow> json \<Rightarrow> protocol_record_stamp \<Rightarrow> protocol_scope \<Rightarrow> json research" where
  "normalize_protocol3_generation_record channel content stamp scope =
     (if channel = ''events'' then normalize_event content stamp scope
      else if channel = ''counterexamples'' then normalize_counterexample content stamp scope
      else Inr content)"

section \<open>The schemas of the events\<close>

text \<open>What a client is told about the content of an event.\<close>

definition json_nat :: "nat \<Rightarrow> json" where "json_nat n = JNumber (PosInt n)"

definition text_schema :: "nat \<Rightarrow> json" where
  "text_schema bound = json_object
     [(''type'', JString ''string''), (''minLength'', json_nat 1), (''maxLength'', json_nat bound)]"

definition unique_texts_schema :: "nat \<Rightarrow> nat \<Rightarrow> json" where
  "unique_texts_schema items bound = json_object
     [(''type'', JString ''array''), (''maxItems'', json_nat items), (''uniqueItems'', JBool True),
      (''items'', text_schema bound)]"

definition choice_schema :: "string list \<Rightarrow> json" where
  "choice_schema names = json_object [(''type'', JString ''string''), (''enum'', json_texts names)]"

definition event_schema :: "string \<Rightarrow> string list \<Rightarrow> object \<Rightarrow> object \<Rightarrow> json" where
  "event_schema t required flds extra = json_object
     ([(''type'', JString ''object''), (''required'', json_texts (''event_type'' # required)),
       (''additionalProperties'', JBool False),
       (''properties'', json_object ((''event_type'', json_object [(''const'', JString t)]) # flds))] @ extra)"

definition protocol3_assessment_event_schema :: json where
  "protocol3_assessment_event_schema =
     event_schema ''assessment'' [''summary''] [(''summary'', text_schema max_summary_bytes)] []"

definition msg_exploration_schema :: string where
  "msg_exploration_schema = ''One typed exploration event. The schema mirrors the protocol-3 record validator, '' @
     ''including required fields and conditional reference rules.''"

definition protocol3_exploration_event_schema :: json where
  "protocol3_exploration_event_schema = json_object [(''description'', JString msg_exploration_schema),
     (''oneOf'', JArray
       [event_schema ''toy_example_result'' [''node_id'', ''outcome'', ''summary'']
          [(''node_id'', text_schema max_identifier_bytes),
           (''outcome'', choice_schema [''progress'', ''refuted'', ''inconclusive'']),
           (''summary'', text_schema max_summary_bytes),
           (''evidence_ids'', unique_texts_schema max_evidence_ids max_evidence_id_bytes)] [],
        event_schema ''retrieval_assessment'' [''outcome'', ''summary'']
          [(''node_id'', text_schema max_identifier_bytes),
           (''outcome'', choice_schema [''new_material'', ''no_new_material'', ''inconclusive'']),
           (''summary'', text_schema max_summary_bytes), (''query'', text_schema max_query_bytes),
           (''reference_ids'', unique_texts_schema max_evidence_ids max_evidence_id_bytes)]
          [(''allOf'', JArray [json_object
             [(''if'', json_object
                [(''properties'', json_object [(''outcome'', json_object [(''const'', JString ''new_material'')])]),
                 (''required'', json_texts [''outcome''])]),
              (''then'', json_object
                [(''required'', json_texts [''reference_ids'']),
                 (''properties'', json_object [(''reference_ids'', json_object [(''minItems'', json_nat 1)])])])]])],
        event_schema ''new_candidate_lemma'' [''statement'', ''summary'']
          [(''statement'', text_schema max_statement_bytes), (''summary'', text_schema max_summary_bytes),
           (''depends_on'', unique_texts_schema max_node_dependencies max_identifier_bytes),
           (''critical'', json_object [(''type'', JString ''boolean'')]),
           (''kind'', choice_schema [''lemma'', ''construction'', ''definition'']),
           (''evidence_ids'', unique_texts_schema max_evidence_ids max_evidence_id_bytes)] [],
        event_schema ''notation_resolution'' [''symbol'', ''resolution'', ''summary'']
          [(''node_id'', text_schema max_identifier_bytes), (''symbol'', text_schema max_symbol_bytes),
           (''resolution'', text_schema max_summary_bytes), (''summary'', text_schema max_summary_bytes),
           (''evidence_ids'', unique_texts_schema max_evidence_ids max_evidence_id_bytes)] []])]"

section \<open>What an accepted record holds\<close>

definition record_nodes :: "object \<Rightarrow> string set" where
  "record_nodes obj = {n. obj_get obj ''node_id'' = Some (JString n)} \<union>
     {n. \<exists>ds. obj_get obj ''depends_on'' = Some (JArray ds) \<and> JString n \<in> set ds}"

definition record_references :: "object \<Rightarrow> string set" where
  "record_references obj = {r. \<exists>rs. obj_get obj ''reference_ids'' = Some (JArray rs) \<and> JString r \<in> set rs}"

definition sound_content :: "protocol_scope \<Rightarrow> string \<Rightarrow> object \<Rightarrow> bool" where
  "sound_content scope t obj \<longleftrightarrow> obj_get obj ''event_type'' = Some (JString t) \<and>
     record_nodes obj \<subseteq> {n. contains_node scope n} \<and> record_references obj \<subseteq> {r. reference_registered scope r}"

definition sound_record :: "protocol_scope \<Rightarrow> protocol_record_stamp \<Rightarrow> string \<Rightarrow> json \<Rightarrow> bool" where
  "sound_record scope stamp t rec \<longleftrightarrow> (\<exists>obj. rec = JObject obj \<and> sound_content scope t obj \<and>
     list_all (\<lambda>(k, v). obj_get obj k = Some v) (server_fields t stamp))"

lemma stamp_Inr:
  "stamp_protocol3_record t content stamp = Inr rec \<longleftrightarrow>
     (\<exists>obj. content = JObject obj \<and> list_all (\<lambda>f. \<not> contains_key obj f) reserved_record_fields \<and>
        rec = JObject (fold (\<lambda>(k, v). bt_insert k v) (server_fields t stamp) obj))"
proof -
  have find: "list_all (\<lambda>f. \<not> contains_key obj f) reserved_record_fields \<longleftrightarrow>
      List.find (contains_key obj) reserved_record_fields = None" for obj
    by (auto simp: find_None_iff list_all_iff)
  show ?thesis unfolding find
    by (cases content) (auto simp: stamp_protocol3_record_def expect_object_def split: option.splits)
qed

lemma map_of_stamped:
  "map_of (fold (\<lambda>(k, v). bt_insert k v) (server_fields t stamp) obj) = map_of obj ++ map_of (rev (server_fields t stamp))"
  by (rule map_of_bt_fold)

lemma stamped_is_sound:
  assumes "stamp_protocol3_record t (json_object kvs) stamp = Inr rec" "sound_content scope t (bt_collect kvs)"
  shows "sound_record scope stamp t rec"
proof -
  define obj where "obj = fold (\<lambda>(k, v). bt_insert k v) (server_fields t stamp) (bt_collect kvs)"
  have rec: "rec = JObject obj" using assms(1) by (auto simp: stamp_Inr json_object_def obj_def)
  have map: "map_of obj = map_of (bt_collect kvs) ++ map_of (rev (server_fields t stamp))"
    unfolding obj_def by (rule map_of_stamped)
  have same: "obj_get obj k = obj_get (bt_collect kvs) k" if "k \<notin> set reserved_record_fields" for k
    using that unfolding map by (simp add: map_add_def server_fields_def reserved_record_fields_def)
  have "record_nodes obj = record_nodes (bt_collect kvs)" "record_references obj = record_references (bt_collect kvs)"
    "obj_get obj ''event_type'' = obj_get (bt_collect kvs) ''event_type''"
    using same by (simp_all add: record_nodes_def record_references_def reserved_record_fields_def)
  then have "sound_content scope t obj" using assms(2) by (simp add: sound_content_def)
  moreover have "list_all (\<lambda>(k, v). obj_get obj k = Some v) (server_fields t stamp)"
    unfolding map by (simp add: map_add_def server_fields_def)
  ultimately show ?thesis using rec by (auto simp: sound_record_def)
qed

lemmas content_simps =
  sound_content_def record_nodes_def record_references_def map_of_bt_collect json_texts_def json_option_def

lemma registered_reference_array_Inr:
  "registered_reference_array v scope l = Inr rs \<longleftrightarrow>
     unique_string_array v l max_evidence_ids False max_evidence_id_bytes = Inr rs \<and>
     list_all (reference_registered scope) rs"
  by (auto simp: registered_reference_array_def bind_r_eq_Inr)

lemma normalize_counterexample_sound:
  assumes "normalize_counterexample content stamp scope = Inr rec"
  shows "sound_record scope stamp ''counterexample_probe'' rec"
  using assms unfolding normalize_counterexample_def Let_def
  by (elim bind_rE guard_InrE) (erule stamped_is_sound, auto simp: content_simps parse_known_node_Inr)

lemma normalize_assessment_sound:
  assumes "normalize_assessment event stamp = Inr rec"
  shows "sound_record scope stamp ''assessment'' rec"
  using assms unfolding normalize_assessment_def
  by (elim bind_rE guard_InrE) (erule stamped_is_sound, auto simp: content_simps)

lemma normalize_toy_example_sound:
  assumes "normalize_toy_example event stamp scope = Inr rec"
  shows "sound_record scope stamp ''toy_example_result'' rec"
  using assms unfolding normalize_toy_example_def
  by (elim bind_rE guard_InrE) (erule stamped_is_sound, auto simp: content_simps parse_known_node_Inr)

lemma normalize_retrieval_sound:
  assumes "normalize_retrieval event stamp scope = Inr rec"
  shows "sound_record scope stamp ''retrieval_assessment'' rec"
  using assms unfolding normalize_retrieval_def
  by (elim bind_rE guard_InrE) (erule stamped_is_sound, auto simp: content_simps optional_known_node_Inr
      registered_reference_array_Inr list_all_iff split: option.splits)

lemma normalize_candidate_sound:
  assumes "normalize_candidate event stamp scope = Inr rec"
  shows "sound_record scope stamp ''new_candidate_lemma'' rec"
  using assms unfolding normalize_candidate_def Let_def
  by (elim bind_rE guard_InrE) (erule stamped_is_sound, auto simp: content_simps known_node_array_Inr list_all_iff)

lemma normalize_notation_sound:
  assumes "normalize_notation event stamp scope = Inr rec"
  shows "sound_record scope stamp ''notation_resolution'' rec"
  using assms unfolding normalize_notation_def
  by (elim bind_rE guard_InrE) (erule stamped_is_sound, auto simp: content_simps optional_known_node_Inr
      split: option.splits)

definition event_types :: "string list" where
  "event_types = [''assessment'', ''counterexample_probe'', ''toy_example_result'', ''retrieval_assessment'',
     ''new_candidate_lemma'', ''notation_resolution'']"

lemma normalize_event_sound:
  assumes "normalize_event content stamp scope = Inr rec"
  shows "\<exists>t \<in> set event_types. sound_record scope stamp t rec"
  using assms normalize_counterexample_sound normalize_assessment_sound normalize_toy_example_sound
    normalize_retrieval_sound normalize_candidate_sound normalize_notation_sound
  unfolding normalize_event_def event_types_def by (elim bind_rE) (auto split: if_splits)

lemma generation_record_sound:
  assumes "normalize_protocol3_generation_record channel content stamp scope = Inr rec"
    "channel \<in> {''events'', ''counterexamples''}"
  shows "\<exists>t \<in> set event_types. sound_record scope stamp t rec"
proof (cases "channel = ''events''")
  case True
  then show ?thesis using assms(1) normalize_event_sound
    by (auto simp: normalize_protocol3_generation_record_def)
next
  case False
  then have "normalize_counterexample content stamp scope = Inr rec"
    using assms by (auto simp: normalize_protocol3_generation_record_def)
  from normalize_counterexample_sound [OF this] show ?thesis by (simp add: event_types_def)
qed

text \<open>
  C15. What an accepted event or counterexample says. The record is an object of one of the six event
  types; its server-owned fields are those of the stamp and its record type is its event type; every
  node it names or depends on is in the scope, and every reference it cites is registered.
\<close>

theorem accepted_records_are_stamped:
  assumes "normalize_protocol3_generation_record channel content stamp scope = Inr rec"
    "channel \<in> {''events'', ''counterexamples''}"
  shows "\<exists>obj t. rec = JObject obj \<and> t \<in> {''assessment'', ''counterexample_probe'', ''toy_example_result'',
       ''retrieval_assessment'', ''new_candidate_lemma'', ''notation_resolution''} \<and>
     obj_get obj ''event_type'' = Some (JString t) \<and>
     obj_get obj ''record_type'' = Some (JString t) \<and>
     obj_get obj ''record_id'' = Some (JString (stamp_record_id stamp)) \<and>
     obj_get obj ''actor_role'' = Some (JString (stamp_actor_role stamp)) \<and>
     obj_get obj ''actor_domain_id'' = Some (JString (stamp_actor_domain_id stamp)) \<and>
     obj_get obj ''round_index'' = Some (JNumber (PosInt (stamp_round_index stamp))) \<and>
     obj_get obj ''created_at'' = Some (JString (stamp_created_at stamp)) \<and>
     record_nodes obj \<subseteq> {n. contains_node scope n} \<and>
     record_references obj \<subseteq> {r. reference_registered scope r}"
proof -
  obtain t obj where "t \<in> set event_types" "rec = JObject obj" "sound_content scope t obj"
    "list_all (\<lambda>(k, v). obj_get obj k = Some v) (server_fields t stamp)"
    using generation_record_sound [OF assms] by (auto simp: sound_record_def)
  then show ?thesis unfolding sound_content_def server_fields_def event_types_def
    by (intro exI [of _ obj] exI [of _ t]) simp
qed

section \<open>What a client may not write\<close>

text \<open>The fields each record may have; none of them belongs to the server.\<close>

lemma reject_unknown_reserved:
  assumes "reject_unknown obj allowed l = Inr u" "set allowed \<inter> set reserved_record_fields = {}"
    "f \<in> set reserved_record_fields"
  shows "\<not> contains_key obj f"
proof
  assume "contains_key obj f"
  then have "f \<in> fst ` set obj" by (auto simp: contains_key_def dest: map_of_SomeD intro: rev_image_eqI)
  then show False using assms by (auto simp: reject_unknown_fields)
qed

lemma counterexample_unreserved:
  assumes "normalize_counterexample (JObject obj) stamp scope = Inr rec" "f \<in> set reserved_record_fields"
  shows "\<not> contains_key obj f"
  using assms(1) unfolding normalize_counterexample_def Let_def expect_object_def
  by (elim bind_rE) (rule reject_unknown_reserved [OF _ _ assms(2)], auto simp: reserved_record_fields_def)

lemma event_unreserved:
  assumes "normalize_event (JObject obj) stamp scope = Inr rec" "f \<in> set reserved_record_fields"
  shows "\<not> contains_key obj f"
proof -
  have reject: "\<not> contains_key obj f"
    if run: "bind_r (reject_unknown obj allowed l) g = Inr rec"
      and free: "set allowed \<inter> set reserved_record_fields = {}"
    for allowed l and g :: "unit \<Rightarrow> json research"
  proof -
    obtain u where "reject_unknown obj allowed l = Inr u" using run by (rule bind_rE)
    then show ?thesis by (rule reject_unknown_reserved [OF _ free assms(2)])
  qed
  note parts = normalize_assessment_def normalize_toy_example_def normalize_retrieval_def
    normalize_candidate_def normalize_notation_def
  show ?thesis
    using assms(1) counterexample_unreserved [OF _ assms(2)] unfolding normalize_event_def expect_object_def parts
    by (elim bind_rE) (auto split: if_splits elim!: reject simp: reserved_record_fields_def)
qed

text \<open>
  C16. A client cannot write a field of the server. Content of an event or a counterexample that
  carries one of the six server-owned fields is refused, whatever else it holds; in particular no
  stamped record is accepted a second time.
\<close>

theorem server_fields_are_refused:
  assumes "channel \<in> {''events'', ''counterexamples''}" "f \<in> set reserved_record_fields" "contains_key obj f"
  shows "\<not> is_ok (normalize_protocol3_generation_record channel (JObject obj) stamp scope)"
  using assms counterexample_unreserved [of obj stamp scope _ f] event_unreserved [of obj stamp scope _ f]
  by (auto simp: normalize_protocol3_generation_record_def is_ok_iff)

section \<open>What the end of a branch says\<close>

definition obstruction_node :: "json \<Rightarrow> string" where
  "obstruction_node j =
     (case j of JObject obj \<Rightarrow> (case obj_get obj ''node_id'' of Some (JString n) \<Rightarrow> n | _ \<Rightarrow> []) | _ \<Rightarrow> [])"

definition branch_obstruction :: "string \<Rightarrow> research_obstruction \<Rightarrow> string \<Rightarrow> string list \<Rightarrow> json" where
  "branch_obstruction n b summary evidence = json_object [(''node_id'', JString n),
     (''class'', JString (obstruction_as_str b)), (''summary'', JString summary), (''evidence_ids'', json_texts evidence)]"

definition obstruction_ok :: "protocol_scope \<Rightarrow> string \<Rightarrow> json \<Rightarrow> bool" where
  "obstruction_ok scope p j \<longleftrightarrow> (\<exists>n b summary evidence. j = branch_obstruction n b summary evidence \<and>
     plan_contains_node scope p n \<and> bounded_text max_summary_bytes summary \<and> length evidence \<le> max_evidence_ids)"

lemma obstruction_node_simp [simp]: "obstruction_node (branch_obstruction n b summary evidence) = n"
  by (simp add: obstruction_node_def branch_obstruction_def json_object_def map_of_bt_collect)

lemma read_text_bounded: "read_text bound v = Some s \<Longrightarrow> bounded_text bound s"
  by (auto simp: read_text_iff)

lemma unique_string_array_length: "unique_string_array v l bound required mb = Inr ss \<Longrightarrow> length ss \<le> bound"
  by (auto simp: unique_string_array_Inr dest: text_array_bounds(1))

lemma obstruction_okI [intro]:
  "plan_contains_node scope p n \<Longrightarrow> bounded_text max_summary_bytes summary \<Longrightarrow> length evidence \<le> max_evidence_ids
     \<Longrightarrow> obstruction_ok scope p (branch_obstruction n b summary evidence)"
  by (auto simp: obstruction_ok_def)

lemma normalize_branch_obstruction_step:
  assumes "normalize_branch_obstruction scope p l (i, j) (seen, acc) = Inr st"
  shows "\<exists>x. st = (insert (obstruction_node x) seen, acc @ [x]) \<and> obstruction_ok scope p x \<and> obstruction_node x \<notin> seen"
  using assms unfolding normalize_branch_obstruction_def Let_def prod.case fst_conv snd_conv
    branch_obstruction_def [symmetric]
  apply (elim bind_rE guard_InrE)
  subgoal for x xa n b summary evidence
    using read_text_bounded [of max_summary_bytes _ summary] unique_string_array_length
    unfolding required_text_Inr
    by (intro exI [of _ "branch_obstruction n b summary evidence"]) auto
  done

lemma normalize_branch_obstructions_list:
  "fold_r (normalize_branch_obstruction scope p l) (List.enumerate k items) (seen, acc) = Inr st \<Longrightarrow>
     \<exists>xs. snd st = acc @ xs \<and> list_all (obstruction_ok scope p) xs \<and> distinct (map obstruction_node xs) \<and>
       obstruction_node ` set xs \<inter> seen = {}"
proof (induction items arbitrary: k seen acc)
  case (Cons j js)
  from Cons.prems obtain st1 where step: "normalize_branch_obstruction scope p l (k, j) (seen, acc) = Inr st1"
    "fold_r (normalize_branch_obstruction scope p l) (List.enumerate (Suc k) js) st1 = Inr st"
    by (auto simp: bind_r_eq_Inr)
  obtain x where x: "st1 = (insert (obstruction_node x) seen, acc @ [x])" "obstruction_ok scope p x"
    "obstruction_node x \<notin> seen" using normalize_branch_obstruction_step [OF step(1)] by blast
  obtain xs where "snd st = (acc @ [x]) @ xs" "list_all (obstruction_ok scope p) xs" "distinct (map obstruction_node xs)"
    "obstruction_node ` set xs \<inter> insert (obstruction_node x) seen = {}"
    using Cons.IH [OF step(2) [unfolded x(1)]] by blast
  then show ?case using x by (intro exI [of _ "x # xs"]) auto
qed auto

lemma branch_obstructions_ok:
  assumes "normalize_protocol3_branch_obstructions v scope p l = Inr xs"
  shows "list_all (obstruction_ok scope p) xs" "distinct (map obstruction_node xs)"
  using assms normalize_branch_obstructions_list [of scope p l 0 _ "{}" "[]"]
  unfolding normalize_protocol3_branch_obstructions_def by (fastforce split: option.splits elim!: bind_rE)+

lemma check_branch_nodes:
  assumes "check_all (check_branch_node scope p) ts = Inr u"
  shows "set ts \<subseteq> {n. plan_contains_node scope p n}"
proof -
  have "is_ok (check_all (check_branch_node scope p) ts)" using assms by simp
  then have "\<forall>t \<in> set ts. is_ok (check_branch_node scope p t)" by (simp add: check_all_ok)
  moreover have "plan_contains_node scope p t" if "is_ok (check_branch_node scope p t)" for t
    using that by (auto simp: check_branch_node_def is_ok_iff bind_r_eq_Inr identifier_parse_Inr split: if_splits)
  ultimately show ?thesis by blast
qed

text \<open>
  C17. What the end of a branch may say. Its nodes belong to the plan of the branch and none is listed
  twice, neither as proved, nor as unproved, nor as both; its obstructions are at distinct nodes of the
  plan. A solved branch has a proof route and declares nothing unproved, no failure evidence and no
  obstruction; any other is partial or failed and declares at least one of them.
\<close>

theorem branch_reports_are_consistent:
  assumes "normalize_protocol3_branch_payload v scope p = Inr b"
  shows "distinct (branch_proved b @ branch_unproved b) \<and>
    set (branch_proved b @ branch_unproved b) \<subseteq> {n. plan_contains_node scope p n} \<and>
    list_all (obstruction_ok scope p) (branch_obstructions b) \<and>
    distinct (map obstruction_node (branch_obstructions b)) \<and>
    (if branch_status b = ''solved''
     then branch_proof_route b \<noteq> None \<and> branch_unproved b = [] \<and> branch_failure_evidence b = [] \<and>
       branch_obstructions b = []
     else branch_status b \<in> {''partial'', ''failed''} \<and>
       \<not> (branch_unproved b = [] \<and> branch_failure_evidence b = [] \<and> branch_obstructions b = []))"
  using assms unfolding normalize_protocol3_branch_payload_def Let_def
  apply (elim bind_rE guard_InrE)
  apply (simp only: sum.inject)
  apply hypsubst
  subgoal premises prems for obj _ status summary route proved unproved _ evidence obstructions
  proof -
    have "distinct (proved @ unproved)"
      using prems(8,9,11) by (auto simp: known_node_array_Inr unique_string_array_Inr list_ex_iff)
    moreover note check_branch_nodes [OF prems(10)] branch_obstructions_ok [OF prems(13)]
    ultimately show ?thesis using prems(4,7,14,15) by auto
  qed
  done

section \<open>Examples\<close>

definition example_scope :: protocol_scope where
  "example_scope = \<lparr>scope_plan_nodes = [(''p'', [''n''])], scope_node_plans = [(''n'', Some ''p''), (''target'', None)],
     scope_references = [''ref'']\<rparr>"

definition example_stamp :: protocol_record_stamp where
  "example_stamp = \<lparr>stamp_record_id = ''r1'', stamp_actor_role = ''prover'', stamp_actor_domain_id = ''d'',
     stamp_round_index = 3, stamp_created_at = ''now''\<rparr>"

definition example_event :: json where
  "example_event = JObject [(''depends_on'', JArray [JString ''n'']), (''event_type'', JString ''new_candidate_lemma''),
     (''statement'', JString ''S''), (''summary'', JString ''s'')]"

lemma example_event_accepted:
  obtains rec where "normalize_protocol3_generation_record ''events'' example_event example_stamp example_scope = Inr rec"
proof -
  have "is_ok (normalize_protocol3_generation_record ''events'' example_event example_stamp example_scope)"
    by code_simp
  then show ?thesis using that by (auto simp: is_ok_iff)
qed

theorem accepted_records_are_stamped_witness:
  "\<exists>obj. normalize_protocol3_generation_record ''events'' example_event example_stamp example_scope = Inr (JObject obj) \<and>
     obj_get obj ''record_id'' = Some (JString ''r1'')"
proof -
  obtain rec where rec: "normalize_protocol3_generation_record ''events'' example_event example_stamp example_scope = Inr rec"
    by (rule example_event_accepted)
  from accepted_records_are_stamped [OF rec] show ?thesis using rec by (auto simp: example_stamp_def)
qed

theorem server_fields_are_refused_witness:
  "\<not> is_ok (normalize_protocol3_generation_record ''events'' (JObject [(''actor_role'', JString ''prover'')])
     example_stamp example_scope)"
  by (rule server_fields_are_refused [of _ "''actor_role''"])
    (simp_all add: reserved_record_fields_def contains_key_def)

definition example_branch :: json where
  "example_branch = JObject [(''proof_route'', JString ''by n''), (''proved_subgoals'', JArray [JString ''n'']),
     (''status'', JString ''solved''), (''summary'', JString ''s'')]"

theorem branch_reports_are_consistent_witness:
  "\<exists>b. normalize_protocol3_branch_payload example_branch example_scope ''p'' = Inr b \<and>
     set (branch_proved b @ branch_unproved b) \<subseteq> {n. plan_contains_node example_scope ''p'' n}"
proof -
  have "is_ok (normalize_protocol3_branch_payload example_branch example_scope ''p'')" by code_simp
  then obtain b where "normalize_protocol3_branch_payload example_branch example_scope ''p'' = Inr b"
    by (auto simp: is_ok_iff)
  then show ?thesis using branch_reports_are_consistent by blast
qed

end
