(* ===== verification/Legacy_Support.thy ===== *)
theory Legacy_Support
  imports Protocol_Fields
begin

text \<open>
  What the normalization of research history shares, \<open>mtm-workflow/src/research_state/normalize.rs\<close> and
  its module \<open>support\<close>: the input, the bounded collector of warnings, the lenient readers of records,
  and the state the normalization builds up. \<open>debug\<close> is the \<open>Debug\<close> rendering of a string, which
  escapes by Unicode tables; it only appears in one warning.
\<close>

section \<open>Limits\<close>

definition max_legacy_records_per_channel :: nat where "max_legacy_records_per_channel = 2048"

definition max_normalization_warnings :: nat where "max_normalization_warnings = 128"

definition max_warning_location_bytes :: nat where "max_warning_location_bytes = 512"

definition max_warning_message_bytes :: nat where "max_warning_message_bytes = 1024"

definition max_retrieval_results_per_event :: nat where "max_retrieval_results_per_event = 64"

definition enforce_count :: "string \<Rightarrow> nat \<Rightarrow> nat \<Rightarrow> unit research" where
  "enforce_count k actual bound = (if bound < actual then Inl (LimitExceeded k bound actual) else Inr ())"

section \<open>Cutting texts\<close>

text \<open>\<open>str::is_char_boundary\<close>, and the loop that steps back to the last boundary.\<close>

definition is_char_boundary :: "string \<Rightarrow> nat \<Rightarrow> bool" where
  "is_char_boundary s i \<longleftrightarrow> i = 0 \<or> i = length s \<or> (i < length s \<and> \<not> is_continuation (s ! i))"

fun last_boundary :: "string \<Rightarrow> nat \<Rightarrow> nat" where
  "last_boundary s 0 = 0"
| "last_boundary s (Suc i) = (if is_char_boundary s (Suc i) then Suc i else last_boundary s i)"

definition truncate_utf8 :: "string \<Rightarrow> nat \<Rightarrow> string" where
  "truncate_utf8 s bound = (if length s \<le> bound then s else take (last_boundary s bound) s)"

section \<open>The input\<close>

record legacy_input =
  in_target_statement :: string
  in_round_index :: nat
  in_active_plans :: json
  in_screening_progress :: json
  in_proof_steps :: "json list"
  in_counterexamples :: "json list"
  in_failed_paths :: "json list"
  in_big_decisions :: "json list"
  in_events :: "json list"
  in_registered_reference_ids :: "string list"
  in_branch_results :: "json list"
  in_join_result :: json
  in_verification_reports :: "json list"

definition legacy_input_new :: "string \<Rightarrow> nat \<Rightarrow> json \<Rightarrow> json \<Rightarrow> legacy_input" where
  "legacy_input_new stmt rnd plans progress = \<lparr>in_target_statement = stmt, in_round_index = rnd,
     in_active_plans = plans, in_screening_progress = progress, in_proof_steps = [], in_counterexamples = [],
     in_failed_paths = [], in_big_decisions = [], in_events = [], in_registered_reference_ids = [],
     in_branch_results = [], in_join_result = JObject [], in_verification_reports = []\<rparr>"

definition with_registered_reference_ids :: "string list \<Rightarrow> legacy_input \<Rightarrow> legacy_input" where
  "with_registered_reference_ids refs input =
     input\<lparr>in_registered_reference_ids := fold bs_insert refs (in_registered_reference_ids input)\<rparr>"

definition legacy_channels :: "legacy_input \<Rightarrow> (string \<times> nat) list" where
  "legacy_channels input =
     [(''legacy_proof_steps'', length (in_proof_steps input)),
      (''legacy_counterexamples'', length (in_counterexamples input)),
      (''legacy_failed_paths'', length (in_failed_paths input)),
      (''legacy_big_decisions'', length (in_big_decisions input)),
      (''legacy_events'', length (in_events input)),
      (''legacy_branch_results'', length (in_branch_results input)),
      (''legacy_verification_reports'', length (in_verification_reports input))]"

definition validate_channel_limits :: "legacy_input \<Rightarrow> unit research" where
  "validate_channel_limits input =
     check_all (\<lambda>(name, count). enforce_count name count max_legacy_records_per_channel) (legacy_channels input)"

section \<open>Warnings\<close>

record normalization_warning =
  warning_code :: string
  warning_location :: string
  warning_text :: string

record warning_collector =
  warning_items :: "normalization_warning list"
  warning_omitted :: nat

definition no_warnings :: warning_collector where
  "no_warnings = \<lparr>warning_items = [], warning_omitted = 0\<rparr>"

definition push_warning :: "string \<Rightarrow> string \<Rightarrow> string \<Rightarrow> warning_collector \<Rightarrow> warning_collector" where
  "push_warning c l m w =
     (if length (warning_items w) < max_normalization_warnings - 1
      then w\<lparr>warning_items := warning_items w @
        [\<lparr>warning_code = c, warning_location = truncate_utf8 l max_warning_location_bytes,
          warning_text = truncate_utf8 m max_warning_message_bytes\<rparr>]\<rparr>
      else w\<lparr>warning_omitted := sat_add (warning_omitted w) 1\<rparr>)"

definition msg_omitted :: string where
  "msg_omitted = '' additional normalization warnings were omitted''"

definition finish_warnings :: "warning_collector \<Rightarrow> normalization_warning list" where
  "finish_warnings w =
     (if 0 < warning_omitted w
      then warning_items w @ [\<lparr>warning_code = ''warnings_truncated'', warning_location = ''normalization'',
        warning_text = show_nat (warning_omitted w) @ msg_omitted\<rparr>]
      else warning_items w)"

section \<open>Readers\<close>

definition legacy_malformed :: "string \<Rightarrow> string \<Rightarrow> research_error" where
  "legacy_malformed l reason = MalformedLegacyRecord l reason"

definition str_field :: "json \<Rightarrow> string \<Rightarrow> string option" where
  "str_field record k = Option.bind (json_get record k) as_str"

definition array_field :: "json \<Rightarrow> string \<Rightarrow> json list option" where
  "array_field record k = Option.bind (json_get record k) as_array"

definition or_else :: "'a option \<Rightarrow> 'a option \<Rightarrow> 'a option" where
  "or_else x y = (case x of None \<Rightarrow> y | Some _ \<Rightarrow> x)"

definition value_or :: "'a option \<Rightarrow> 'a \<Rightarrow> 'a" where
  "value_or x d = (case x of None \<Rightarrow> d | Some y \<Rightarrow> y)"

definition msg_nonempty_string :: string where "msg_nonempty_string = ''expected a non-empty string''"

definition legacy_required_text :: "json option \<Rightarrow> string \<Rightarrow> string research" where
  "legacy_required_text v l =
     ok_or (option_filter (\<lambda>s. s \<noteq> []) (map_option trim (Option.bind v as_str)))
       (legacy_malformed l msg_nonempty_string)"

definition legacy_texts :: "string \<Rightarrow> json list \<Rightarrow> string list research" where
  "legacy_texts l items =
     traverse_r (\<lambda>(i, item). legacy_required_text (Some item) (at_index l i)) (List.enumerate 0 items)"

definition msg_nonempty_array :: string where "msg_nonempty_array = ''expected a non-empty string array''"

definition required_string_array :: "json option \<Rightarrow> string \<Rightarrow> nat \<Rightarrow> string list research" where
  "required_string_array v l bound =
     bind_r (ok_or (option_filter (\<lambda>xs. xs \<noteq> []) (Option.bind v as_array))
              (legacy_malformed l msg_nonempty_array)) (\<lambda>items.
       if bound < length items then Inl (LimitExceeded ''legacy_string_array'' bound (length items))
       else legacy_texts l items)"

definition msg_array_when_present :: string where
  "msg_array_when_present = ''expected a string array when present''"

definition bounded_optional_string_array :: "json option \<Rightarrow> string \<Rightarrow> nat \<Rightarrow> string list research" where
  "bounded_optional_string_array v l bound =
     (case v of None \<Rightarrow> Inr []
      | Some w \<Rightarrow>
          bind_r (ok_or (as_array w) (legacy_malformed l msg_array_when_present)) (\<lambda>items.
            if bound < length items then Inl (LimitExceeded ''legacy_string_array'' bound (length items))
            else legacy_texts l items))"

fun meaningful_witness :: "json option \<Rightarrow> bool" where
  "meaningful_witness None = False"
| "meaningful_witness (Some JNull) = False"
| "meaningful_witness (Some (JString s)) = (trim s \<noteq> [])"
| "meaningful_witness (Some (JArray xs)) = (xs \<noteq> [])"
| "meaningful_witness (Some (JObject kvs)) = (kvs \<noteq> [])"
| "meaningful_witness (Some _) = True"

definition extract_summary :: "json \<Rightarrow> string option" where
  "extract_summary record =
     List.find (\<lambda>s. s \<noteq> [])
       (map trim (List.map_filter (str_field record)
         [''summary'', ''obstruction'', ''reason'', ''decision'', ''next_step'']))"

definition screening_outcome :: "string \<Rightarrow> attempt_outcome option" where
  "screening_outcome = map_of [(''solved'', OutcomeRouteSolved), (''partial'', Progress), (''stuck'', OutcomeFailed)]"

text \<open>\<open>.map(parse).transpose()?.unwrap_or(parse(default)?)\<close>: the default is parsed even if it is not needed.\<close>

definition parse_or :: "string \<Rightarrow> string option \<Rightarrow> string \<Rightarrow> string research" where
  "parse_or k v d =
     bind_r (case v of None \<Rightarrow> Inr None | Some t \<Rightarrow> map_ok Some (identifier_parse k t)) (\<lambda>given.
     bind_r (identifier_parse k d) (\<lambda>fallback. Inr (value_or given fallback)))"

definition record_actor :: "json \<Rightarrow> string \<Rightarrow> string research" where
  "record_actor record d = parse_or ''research_domain_id'' (str_field record ''actor_domain_id'') d"

section \<open>The state of the normalization\<close>

record legacy_plan_node =
  legacy_node_id :: string
  legacy_subgoal_id :: string
  legacy_statement :: string

record norm_state =
  nrm_nodes :: "(string \<times> research_node) list"
  nrm_plans :: "(string \<times> legacy_plan_node list) list"
  nrm_active :: "string list"
  nrm_attempts :: "research_attempt list"
  nrm_decisions :: "research_decision list"
  nrm_sequence :: nat
  nrm_warnings :: warning_collector

definition warn :: "string \<Rightarrow> string \<Rightarrow> string \<Rightarrow> norm_state \<Rightarrow> norm_state" where
  "warn c l m st = st\<lparr>nrm_warnings := push_warning c l m (nrm_warnings st)\<rparr>"

definition next_sequence :: "norm_state \<Rightarrow> norm_state" where
  "next_sequence st = st\<lparr>nrm_sequence := sat_add (nrm_sequence st) 1\<rparr>"

text \<open>\<open>nodes.get_mut(id)\<close> followed by an update of its status, where there is such a node.\<close>

definition set_status :: "(node_status \<Rightarrow> bool) \<Rightarrow> node_status \<Rightarrow> string \<Rightarrow> norm_state \<Rightarrow> norm_state" where
  "set_status P s i st =
     (case map_of (nrm_nodes st) i of None \<Rightarrow> st
      | Some n \<Rightarrow> if P (node_status n)
          then st\<lparr>nrm_nodes := bt_insert i (n\<lparr>node_status := s\<rparr>) (nrm_nodes st)\<rparr> else st)"

definition push_attempt :: "research_attempt \<Rightarrow> norm_state \<Rightarrow> norm_state research" where
  "push_attempt a st =
     (let st' = st\<lparr>nrm_attempts := nrm_attempts st @ [a]\<rparr> in
      if max_research_attempts < length (nrm_attempts st')
      then Inl (LimitExceeded ''research_attempts'' max_research_attempts (length (nrm_attempts st')))
      else Inr st')"

definition push_decision :: "research_decision \<Rightarrow> norm_state \<Rightarrow> norm_state research" where
  "push_decision d st =
     (let st' = st\<lparr>nrm_decisions := nrm_decisions st @ [d]\<rparr> in
      if max_research_decisions < length (nrm_decisions st')
      then Inl (LimitExceeded ''research_decisions'' max_research_decisions (length (nrm_decisions st')))
      else Inr st')"

text \<open>The evidence of a record, attached text by text.\<close>

definition attach_evidence :: "string list \<Rightarrow> research_attempt \<Rightarrow> research_attempt research" where
  "attach_evidence es a = fold_r with_evidence es a"

definition find_plan :: "norm_state \<Rightarrow> string \<Rightarrow> legacy_plan_node list option" where
  "find_plan st p = map_of (nrm_plans st) p"

definition resolve_plan_node :: "legacy_plan_node list \<Rightarrow> string \<Rightarrow> string option" where
  "resolve_plan_node ns label = map_option legacy_node_id
     (List.find (\<lambda>n. legacy_node_id n = label \<or> legacy_subgoal_id n = label \<or> legacy_statement n = label) ns)"

definition resolve_canonical_node :: "json option \<Rightarrow> norm_state \<Rightarrow> string option" where
  "resolve_canonical_node v st =
     option_filter (\<lambda>t. map_of (nrm_nodes st) t \<noteq> None) (Option.bind v as_str)"

definition msg_legacy_colon :: string where
  "msg_legacy_colon = ''plan_id and subgoal_id may not contain '' @ squote # '':'' @ squote # '' in legacy normalization''"

definition combined_node_id :: "string \<Rightarrow> string \<Rightarrow> string research" where
  "combined_node_id p subgoal =
     (if CHR '':'' \<in> set p \<or> CHR '':'' \<in> set subgoal then Inl (legacy_malformed ''active_plans'' msg_legacy_colon)
      else node_id_parse (''node:'' @ p @ '':'' @ subgoal))"

definition normalize_screening_status ::
  "(string \<Rightarrow> string) \<Rightarrow> string \<Rightarrow> string \<Rightarrow> norm_state \<Rightarrow> node_status \<times> norm_state" where
  "normalize_screening_status debug v l st =
     (if v = ''solved'' then (RouteSolved, st)
      else if v = ''partial'' then (NodePartial, st)
      else if v = ''stuck'' then (Blocked, st)
      else (NodeOpen, warn ''unknown_screening_status'' l
        (''unknown screening status '' @ debug v @ ''; treated as open in shadow'') st))"

end
