(* ===== verification/Legacy_Plans.thy ===== *)
theory Legacy_Plans
  imports Legacy_Support
begin

text \<open>
  The first half of the normalization of research history, \<open>mtm-workflow/src/research_state/normalize.rs\<close>:
  the nodes of the active plans with the status their screening left them in, and the attempts of the
  screening rounds. Plans of protocol 3 carry their canonical subgoals, older ones two arrays.
\<close>

section \<open>Active plans\<close>

definition u32_or_max :: "nat \<Rightarrow> nat" where
  "u32_or_max n = (if n < 2 ^ 32 then n else 2 ^ 32 - 1)"

definition screening_text :: "object option \<Rightarrow> string \<Rightarrow> string \<Rightarrow> string option" where
  "screening_text progress p subgoal =
     Option.bind progress (\<lambda>items. Option.bind (obj_get items p) (\<lambda>plan.
       Option.bind (json_get plan subgoal) (\<lambda>item. str_field item ''status'')))"

definition screened_status ::
  "(string \<Rightarrow> string) \<Rightarrow> object option \<Rightarrow> string \<Rightarrow> string \<Rightarrow> string \<Rightarrow> norm_state \<Rightarrow> node_status \<times> norm_state" where
  "screened_status debug progress p subgoal l st =
     (case screening_text progress p subgoal of
        None \<Rightarrow> (NodeOpen, st)
      | Some t \<Rightarrow> normalize_screening_status debug t l st)"

definition insert_node :: "research_node \<Rightarrow> norm_state \<Rightarrow> norm_state research" where
  "insert_node n st =
     (if map_of (nrm_nodes st) (node_id n) \<noteq> None then Inl (DuplicateIdentifier ''research_node_id'' (node_id n))
      else let st' = st\<lparr>nrm_nodes := bt_insert (node_id n) n (nrm_nodes st)\<rparr> in
        bind_r (enforce_count ''legacy_research_nodes'' (length (nrm_nodes st')) max_research_nodes) (\<lambda>_. Inr st'))"

definition msg_node_mismatch :: string where
  "msg_node_mismatch = ''canonical node_id does not match plan_id and subgoal_id''"

definition msg_node_kind :: string where "msg_node_kind = ''unknown or invalid research node kind''"

definition msg_duplicate_dependency :: string where
  "msg_duplicate_dependency = ''duplicate canonical dependency node_id''"

definition add_legacy_dependency :: "string \<Rightarrow> string \<Rightarrow> string set \<times> research_node \<Rightarrow> (string set \<times> research_node) research" where
  "add_legacy_dependency l t acc = (case acc of (seen, n) \<Rightarrow>
     bind_r (node_id_parse t) (\<lambda>d.
       if d \<in> seen then Inl (legacy_malformed l msg_duplicate_dependency)
       else Inr (insert d seen, with_dependency d n)))"

type_synonym plan_acc = "string set \<times> legacy_plan_node list \<times> norm_state"

definition add_canonical_subgoal ::
  "(string \<Rightarrow> string) \<Rightarrow> legacy_input \<Rightarrow> object option \<Rightarrow> string \<Rightarrow> nat \<Rightarrow> string \<Rightarrow> nat \<times> json \<Rightarrow> plan_acc
    \<Rightarrow> plan_acc research" where
  "add_canonical_subgoal debug input progress l plan_index p entry acc = (case acc of (local_ids, plan_nodes, st) \<Rightarrow>
     let nl = at_index (l @ ''.research_subgoals'') (fst entry) in
     bind_r (ok_or (as_object (snd entry)) (legacy_malformed nl ''expected an object'')) (\<lambda>obj.
     bind_r (legacy_required_text (obj_get obj ''subgoal_id'') (nl @ ''.subgoal_id'')) (\<lambda>subgoal.
     if subgoal \<in> local_ids then Inl (legacy_malformed nl ''duplicate subgoal id'')
     else
     bind_r (legacy_required_text (obj_get obj ''node_id'') (nl @ ''.node_id'')) (\<lambda>t.
     bind_r (node_id_parse t) (\<lambda>n.
     bind_r (combined_node_id p subgoal) (\<lambda>expected.
     if n \<noteq> expected then Inl (legacy_malformed nl msg_node_mismatch)
     else
     bind_r (legacy_required_text (obj_get obj ''statement'') (nl @ ''.statement'')) (\<lambda>stmt.
     bind_r (ok_or (option_filter (\<lambda>k. k \<noteq> KindTarget)
                (Option.bind (Option.bind (obj_get obj ''kind'') as_str) node_kind_parse))
              (legacy_malformed (nl @ ''.kind'') msg_node_kind)) (\<lambda>k.
     bind_r (ok_or (Option.bind (obj_get obj ''critical'') as_bool)
              (legacy_malformed (nl @ ''.critical'') ''boolean is required'')) (\<lambda>critical.
     bind_r (bounded_optional_string_array (obj_get obj ''depends_on'') (nl @ ''.depends_on'')
              max_node_dependencies) (\<lambda>depends.
     bind_r (node_new n stmt k) (\<lambda>fresh.
     case screened_status debug progress p subgoal nl st of (status, st1) \<Rightarrow>
     bind_r (fold_r (add_legacy_dependency nl) depends
              ({}, with_order (in_round_index input) (u32_or_max (plan_index + 1)) (u32_or_max (fst entry + 1))
                (with_status status (with_declared_critical critical (with_plan p fresh))))) (\<lambda>(seen, node).
     bind_r (insert_node node st1) (\<lambda>st2.
       Inr (insert subgoal local_ids,
            plan_nodes @ [\<lparr>legacy_node_id = n, legacy_subgoal_id = subgoal, legacy_statement = stmt\<rparr>],
            st2))))))))))))))"

definition add_legacy_subgoal ::
  "(string \<Rightarrow> string) \<Rightarrow> legacy_input \<Rightarrow> object option \<Rightarrow> string \<Rightarrow> nat \<Rightarrow> string
    \<Rightarrow> nat \<times> string \<times> string \<Rightarrow> plan_acc \<Rightarrow> plan_acc research" where
  "add_legacy_subgoal debug input progress l plan_index p entry acc =
     (case acc of (local_ids, plan_nodes, st) \<Rightarrow> case entry of (i, subgoal, stmt) \<Rightarrow>
     if subgoal \<in> local_ids
     then Inl (legacy_malformed (at_index (l @ ''.subgoal_ids'') i) ''duplicate subgoal id'')
     else
     bind_r (combined_node_id p subgoal) (\<lambda>n.
     case screened_status debug progress p subgoal l st of (status, st1) \<Rightarrow>
     bind_r (node_new n stmt KindLemma) (\<lambda>fresh.
     bind_r (insert_node (with_order (in_round_index input) (u32_or_max (plan_index + 1)) (u32_or_max (i + 1))
               (with_status status (with_plan p fresh))) st1) (\<lambda>st2.
       Inr (insert subgoal local_ids,
            plan_nodes @ [\<lparr>legacy_node_id = n, legacy_subgoal_id = subgoal, legacy_statement = stmt\<rparr>], st2)))))"

definition msg_canonical_subgoals :: string where
  "msg_canonical_subgoals = ''non-empty canonical research subgoals are required''"

definition msg_equal_lengths :: string where
  "msg_equal_lengths = ''subgoals and subgoal_ids must have equal lengths''"

definition plan_subgoal_nodes ::
  "(string \<Rightarrow> string) \<Rightarrow> legacy_input \<Rightarrow> object option \<Rightarrow> string \<Rightarrow> nat \<Rightarrow> string \<Rightarrow> object \<Rightarrow> norm_state
    \<Rightarrow> plan_acc research" where
  "plan_subgoal_nodes debug input progress l plan_index p obj st =
     (case Option.bind (obj_get obj ''research_subgoals'') as_array of
        Some subgoals \<Rightarrow>
          if subgoals = [] then Inl (legacy_malformed (l @ ''.research_subgoals'') msg_canonical_subgoals)
          else bind_r (enforce_count ''protocol3_plan_subgoals'' (length subgoals) max_node_dependencies) (\<lambda>_.
            fold_r (add_canonical_subgoal debug input progress l plan_index p) (List.enumerate 0 subgoals) ({}, [], st))
      | None \<Rightarrow>
          bind_r (required_string_array (obj_get obj ''subgoals'') (l @ ''.subgoals'') max_node_dependencies) (\<lambda>stmts.
          bind_r (required_string_array (obj_get obj ''subgoal_ids'') (l @ ''.subgoal_ids'') max_node_dependencies) (\<lambda>ids.
          if length stmts \<noteq> length ids then Inl (legacy_malformed l msg_equal_lengths)
          else fold_r (add_legacy_subgoal debug input progress l plan_index p) (List.enumerate 0 (zip ids stmts))
            ({}, [], st))))"

definition add_active_plan ::
  "(string \<Rightarrow> string) \<Rightarrow> legacy_input \<Rightarrow> object option \<Rightarrow> nat \<times> json \<Rightarrow> norm_state \<Rightarrow> norm_state research" where
  "add_active_plan debug input progress entry st =
     (let l = at_index ''active_plans'' (fst entry) in
      bind_r (ok_or (as_object (snd entry)) (legacy_malformed l ''expected an object'')) (\<lambda>obj.
      bind_r (legacy_required_text (obj_get obj ''plan_id'') (l @ ''.plan_id'')) (\<lambda>t.
      bind_r (plan_id_parse t) (\<lambda>p.
      if p \<in> set (nrm_active st) then Inl (DuplicateIdentifier ''research_plan_id'' p)
      else
      bind_r (plan_subgoal_nodes debug input progress l (fst entry) p obj
               (st\<lparr>nrm_active := bs_insert p (nrm_active st)\<rparr>)) (\<lambda>(_, plan_nodes, st1).
        Inr (st1\<lparr>nrm_plans := bt_insert p plan_nodes (nrm_plans st1)\<rparr>))))))"

definition msg_inactive_screening :: string where
  "msg_inactive_screening = ''screening progress refers to a plan that is not active''"

definition warn_inactive_screening :: "string \<Rightarrow> norm_state \<Rightarrow> norm_state" where
  "warn_inactive_screening p st =
     (if p \<in> set (nrm_active st) then st
      else warn ''inactive_screening_plan'' (''screening_progress.'' @ p) msg_inactive_screening st)"

definition msg_plans_array :: string where
  "msg_plans_array = ''expected an array of server-normalized plans''"

definition msg_progress_object :: string where "msg_progress_object = ''expected an object keyed by plan_id''"

definition screening_map :: "json \<Rightarrow> object option research" where
  "screening_map v =
     (case v of JNull \<Rightarrow> Inr None
      | JObject obj \<Rightarrow>
          bind_r (enforce_count ''legacy_screening_plans'' (length obj) max_active_plans) (\<lambda>_. Inr (Some obj))
      | _ \<Rightarrow> Inl (legacy_malformed ''screening_progress'' msg_progress_object))"

definition normalize_legacy_plans ::
  "(string \<Rightarrow> string) \<Rightarrow> legacy_input \<Rightarrow> norm_state \<Rightarrow> norm_state research" where
  "normalize_legacy_plans debug input st =
     bind_r (ok_or (as_array (in_active_plans input)) (legacy_malformed ''active_plans'' msg_plans_array)) (\<lambda>plans.
     bind_r (enforce_count ''legacy_active_plans'' (length plans) max_active_plans) (\<lambda>_.
     bind_r (screening_map (in_screening_progress input)) (\<lambda>progress.
     bind_r (fold_r (add_active_plan debug input progress) (List.enumerate 0 plans) st) (\<lambda>st1.
       Inr (case progress of None \<Rightarrow> st1 | Some obj \<Rightarrow> fold warn_inactive_screening (map fst obj) st1)))))"

section \<open>Screening rounds\<close>

definition msg_direct_plans :: string where "msg_direct_plans = ''direct_screening_round has no plans array''"

definition msg_direct_plan_id :: string where "msg_direct_plan_id = ''direct-screening plan has no plan_id''"

definition msg_direct_unknown_plan :: string where
  "msg_direct_unknown_plan = ''direct-screening attempt refers to an unknown plan''"

definition msg_direct_results :: string where
  "msg_direct_results = ''direct-screening plan has no subgoal_results array''"

definition msg_direct_subgoal_id :: string where
  "msg_direct_subgoal_id = ''direct-screening result has no subgoal_id''"

definition msg_direct_subgoal :: string where
  "msg_direct_subgoal = ''direct-screening result refers to an unknown subgoal''"

definition msg_direct_status :: string where
  "msg_direct_status = ''direct-screening status is absent or unknown and is treated as inconclusive''"

definition msg_no_direct_summary :: string where
  "msg_no_direct_summary = ''Direct screening produced no summary.''"

definition msg_attempt_method :: string where "msg_attempt_method = ''unknown protocol-3 attempt method''"

definition msg_obstruction_class :: string where
  "msg_obstruction_class = ''unknown protocol-3 obstruction class''"

definition nonblank_or :: "string option \<Rightarrow> string \<Rightarrow> string" where
  "nonblank_or v d = value_or (option_filter (\<lambda>s. trim s \<noteq> []) v) d"

definition direct_method :: "json \<Rightarrow> string \<Rightarrow> attempt_method research" where
  "direct_method screening l =
     (case str_field screening ''method'' of
        Some t \<Rightarrow> ok_or (attempt_method_parse t) (legacy_malformed (l @ ''.method'') msg_attempt_method)
      | None \<Rightarrow> Inr Direct)"

definition direct_obstruction :: "json \<Rightarrow> string \<Rightarrow> research_obstruction option research" where
  "direct_obstruction screening l =
     (case json_get screening ''obstruction'' of
        None \<Rightarrow> Inr None
      | Some JNull \<Rightarrow> Inr None
      | Some v \<Rightarrow> map_ok Some (ok_or (Option.bind (as_str v) obstruction_parse)
          (legacy_malformed (l @ ''.obstruction'') msg_obstruction_class)))"

text \<open>The attempt of one result; \<open>l\<close> is its location and \<open>default\<close> the identifier it gets when it has none.\<close>

definition direct_attempt ::
  "legacy_input \<Rightarrow> string \<Rightarrow> string \<Rightarrow> string \<Rightarrow> json \<Rightarrow> string \<Rightarrow> norm_state \<Rightarrow> norm_state research" where
  "direct_attempt input actor l fallback screening n st =
     (let status = value_or (str_field screening ''status'') [];
          outcome = screening_outcome status;
          st1 = next_sequence (if outcome = None
            then warn ''unknown_direct_screening_status'' (l @ ''.status'') msg_direct_status st else st);
          summary = nonblank_or (str_field screening ''summary'') msg_no_direct_summary in
      bind_r (direct_method screening l) (\<lambda>m.
      bind_r (direct_obstruction screening l) (\<lambda>b.
      bind_r (parse_or ''research_attempt_id'' (str_field screening ''attempt_id'') fallback) (\<lambda>i.
      bind_r (attempt_new i n actor m (value_or outcome Inconclusive) summary) (\<lambda>a.
      let a1 = with_position (in_round_index input) (nrm_sequence st1) a;
          a2 = (case b of Some c \<Rightarrow> with_obstruction c a1
                | None \<Rightarrow> if status = ''stuck'' then with_obstruction NoProgress a1 else a1) in
      bind_r (bounded_optional_string_array (json_get screening ''evidence_ids'') (l @ ''.evidence_ids'')
               max_evidence_ids) (\<lambda>es.
      bind_r (attach_evidence es a2) (\<lambda>a3. push_attempt a3 st1)))))))"

definition direct_result ::
  "legacy_input \<Rightarrow> string \<Rightarrow> nat \<Rightarrow> nat \<Rightarrow> legacy_plan_node list \<Rightarrow> nat \<times> json \<Rightarrow> norm_state \<Rightarrow> norm_state research"
where
  "direct_result input actor record_index plan_index ns entry st =
     (let l = at_index (at_index (at_index ''proof_steps'' record_index @ ''.plans'') plan_index
            @ ''.subgoal_results'') (fst entry) in
      case str_field (snd entry) ''subgoal_id'' of
        None \<Rightarrow> Inr (warn ''missing_subgoal_id'' l msg_direct_subgoal_id st)
      | Some subgoal \<Rightarrow>
          (case List.find (\<lambda>n. legacy_subgoal_id n = subgoal) ns of
             None \<Rightarrow> Inr (warn ''unknown_direct_subgoal'' l msg_direct_subgoal st)
           | Some n \<Rightarrow> direct_attempt input actor l
               (''attempt:direct:'' @ show_nat (record_index + 1) @ '':'' @ show_nat (plan_index + 1) @ '':'' @
                 show_nat (fst entry + 1)) (snd entry) (legacy_node_id n) st))"

definition direct_plan ::
  "legacy_input \<Rightarrow> string \<Rightarrow> nat \<Rightarrow> nat \<times> json \<Rightarrow> norm_state \<Rightarrow> norm_state research" where
  "direct_plan input actor record_index entry st =
     (let l = at_index (at_index ''proof_steps'' record_index @ ''.plans'') (fst entry) in
      case str_field (snd entry) ''plan_id'' of
        None \<Rightarrow> Inr (warn ''missing_plan_id'' l msg_direct_plan_id st)
      | Some p \<Rightarrow>
          (case find_plan st p of
             None \<Rightarrow> Inr (warn ''unknown_direct_plan'' l msg_direct_unknown_plan st)
           | Some ns \<Rightarrow>
               (case array_field (snd entry) ''subgoal_results'' of
                  None \<Rightarrow> Inr (warn ''missing_subgoal_results'' l msg_direct_results st)
                | Some items \<Rightarrow>
                    bind_r (enforce_count ''legacy_direct_screening_results'' (length items) max_node_dependencies) (\<lambda>_.
                      fold_r (direct_result input actor record_index (fst entry) ns) (List.enumerate 0 items) st))))"

definition legacy_generation :: string where "legacy_generation = ''legacy-generation''"

definition direct_round :: "legacy_input \<Rightarrow> nat \<times> json \<Rightarrow> norm_state \<Rightarrow> norm_state research" where
  "direct_round input entry st =
     (if str_field (snd entry) ''record_type'' \<noteq> Some ''direct_screening_round'' then Inr st
      else bind_r (record_actor (snd entry) legacy_generation) (\<lambda>actor.
        case array_field (snd entry) ''plans'' of
          None \<Rightarrow> Inr (warn ''malformed_direct_round'' (at_index ''proof_steps'' (fst entry)) msg_direct_plans st)
        | Some plans \<Rightarrow>
            bind_r (enforce_count ''legacy_direct_screening_plans'' (length plans) max_active_plans) (\<lambda>_.
              fold_r (direct_plan input actor (fst entry)) (List.enumerate 0 plans) st)))"

definition normalize_direct_attempts :: "legacy_input \<Rightarrow> norm_state \<Rightarrow> norm_state research" where
  "normalize_direct_attempts input st =
     fold_r (direct_round input) (List.enumerate 0 (in_proof_steps input)) st"

end
