(* ===== verification/Legacy_Records.thy ===== *)
theory Legacy_Records
  imports Legacy_Plans
begin

text \<open>
  The second half of the normalization of research history, the modules \<open>branch\<close> and \<open>other\<close> of
  \<open>mtm-workflow/src/research_state/normalize.rs\<close>: branch results, counterexamples, retrievals,
  failures, decisions, the reports of the verifier and the joining of branches.
\<close>

section \<open>Branch results\<close>

type_synonym obstruction_map = "(string \<times> (research_obstruction \<times> string list)) list"

definition msg_obstruction_object :: string where "msg_obstruction_object = ''branch obstruction must be an object''"

definition msg_obstruction_outside :: string where
  "msg_obstruction_outside = ''branch obstruction node is outside the branch plan''"

definition msg_branch_class :: string where "msg_branch_class = ''branch obstruction class is unknown''"

definition msg_obstruction_duplicate :: string where
  "msg_obstruction_duplicate = ''duplicate branch obstruction node''"

definition msg_obstruction_array :: string where "msg_obstruction_array = ''branch obstructions must be an array''"

definition add_branch_obstruction ::
  "string \<Rightarrow> legacy_plan_node list \<Rightarrow> nat \<times> json \<Rightarrow> obstruction_map \<Rightarrow> obstruction_map research" where
  "add_branch_obstruction l ns entry m =
     (let ol = at_index (l @ ''.obstructions'') (fst entry) in
      bind_r (ok_or (as_object (snd entry)) (legacy_malformed ol msg_obstruction_object)) (\<lambda>obj.
      bind_r (legacy_required_text (obj_get obj ''node_id'') (ol @ ''.node_id'')) (\<lambda>t.
      bind_r (node_id_parse t) (\<lambda>n.
      if \<not> list_ex (\<lambda>node. legacy_node_id node = n) ns then Inl (legacy_malformed ol msg_obstruction_outside)
      else
      bind_r (ok_or (Option.bind (Option.bind (obj_get obj ''class'') as_str) obstruction_parse)
               (legacy_malformed ol msg_branch_class)) (\<lambda>c.
      bind_r (bounded_optional_string_array (obj_get obj ''evidence_ids'') (ol @ ''.evidence_ids'')
               max_evidence_ids) (\<lambda>evidence.
      if map_of m n \<noteq> None then Inl (legacy_malformed ol msg_obstruction_duplicate)
      else Inr (bt_insert n (c, evidence) m)))))))"

definition branch_obstruction_map ::
  "string \<Rightarrow> legacy_plan_node list \<Rightarrow> json \<Rightarrow> obstruction_map research" where
  "branch_obstruction_map l ns branch =
     (case json_get branch ''obstructions'' of
        None \<Rightarrow> Inr []
      | Some v \<Rightarrow>
          bind_r (ok_or (as_array v) (legacy_malformed l msg_obstruction_array)) (\<lambda>items.
          bind_r (enforce_count ''protocol3_branch_obstructions'' (length items) max_node_dependencies) (\<lambda>_.
            fold_r (add_branch_obstruction l ns) (List.enumerate 0 items) [])))"

abbreviation (input) unsolved_status :: "node_status \<Rightarrow> bool" where
  "unsolved_status \<equiv> \<lambda>s. s \<noteq> RouteSolved"

definition msg_unknown_proved :: string where
  "msg_unknown_proved = ''branch proved_subgoals entry does not match the active plan: ''"

definition msg_unknown_unproved :: string where
  "msg_unknown_unproved = ''branch unproved_subgoals entry does not match the active plan: ''"

text \<open>The nodes a branch touches are a set; its attempts are made in the order of the nodes.\<close>

definition touch_proved ::
  "string \<Rightarrow> legacy_plan_node list \<Rightarrow> string \<Rightarrow> string list \<times> norm_state \<Rightarrow> string list \<times> norm_state" where
  "touch_proved l ns label acc = (case acc of (touched, st) \<Rightarrow>
     case resolve_plan_node ns label of
       Some n \<Rightarrow> (bs_insert n touched, set_status (\<lambda>_. True) RouteSolved n st)
     | None \<Rightarrow> (touched, warn ''unknown_proved_subgoal'' l (msg_unknown_proved @ label) st))"

definition touch_unproved ::
  "string \<Rightarrow> legacy_plan_node list \<Rightarrow> string \<Rightarrow> string list \<times> norm_state \<Rightarrow> string list \<times> norm_state" where
  "touch_unproved l ns label acc = (case acc of (touched, st) \<Rightarrow>
     case resolve_plan_node ns label of
       Some n \<Rightarrow> (bs_insert n touched, set_status unsolved_status Blocked n st)
     | None \<Rightarrow> (touched, warn ''unknown_unproved_subgoal'' l (msg_unknown_unproved @ label) st))"

definition update_partial_branch ::
  "string \<Rightarrow> string \<Rightarrow> legacy_plan_node list \<Rightarrow> string list \<Rightarrow> string list \<Rightarrow> norm_state \<Rightarrow> string list \<times> norm_state"
where
  "update_partial_branch l status ns proved unproved st =
     (case fold (touch_unproved l ns) unproved (fold (touch_proved l ns) proved ([], st)) of (touched, st1) \<Rightarrow>
      if status = ''failed'' \<and> touched = []
      then (fold bs_insert (map legacy_node_id ns) touched,
        fold (set_status unsolved_status Blocked) (map legacy_node_id ns) st1)
      else (touched, st1))"

definition branch_touched ::
  "string \<Rightarrow> string \<Rightarrow> legacy_plan_node list \<Rightarrow> string list \<Rightarrow> string list \<Rightarrow> obstruction_map \<Rightarrow> norm_state
    \<Rightarrow> string list \<times> norm_state" where
  "branch_touched l status ns proved unproved m st =
     (if status = ''solved''
      then (fold bs_insert (map legacy_node_id ns) [],
        fold (set_status (\<lambda>_. True) RouteSolved) (map legacy_node_id ns) st)
      else (case update_partial_branch l status ns proved unproved st of (touched, st1) \<Rightarrow>
        (fold bs_insert (map fst m) touched, fold (set_status unsolved_status Blocked) (map fst m) st1)))"

definition branch_attempt ::
  "legacy_input \<Rightarrow> nat \<Rightarrow> string \<Rightarrow> string \<Rightarrow> string \<Rightarrow> obstruction_map \<Rightarrow> nat \<times> string \<Rightarrow> norm_state \<Rightarrow> norm_state research"
where
  "branch_attempt input branch_index actor status summary m entry st =
     (let st1 = next_sequence st in
      bind_r (attempt_id_parse (''attempt:branch:'' @ show_nat (branch_index + 1) @ '':'' @ show_nat (fst entry + 1)))
        (\<lambda>i.
      bind_r (attempt_new i (snd entry) actor Synthesis
               (if status = ''solved'' then OutcomeRouteSolved
                else if status = ''partial'' then Progress else OutcomeFailed) summary) (\<lambda>a.
      let a1 = with_position (in_round_index input) (nrm_sequence st1) a in
      bind_r (case map_of m (snd entry) of
                Some (c, es) \<Rightarrow> attach_evidence es (with_obstruction c a1)
              | None \<Rightarrow> Inr (if status = ''failed'' then with_obstruction NoProgress a1 else a1)) (\<lambda>a2.
        push_attempt a2 st1))))"

definition msg_no_branch_plan :: string where "msg_no_branch_plan = ''branch result has no plan_id''"

definition msg_inactive_branch :: string where
  "msg_inactive_branch = ''sealed branch result belongs to a plan that is no longer active''"

definition msg_unknown_branch_status :: string where "msg_unknown_branch_status = ''branch status is unknown''"

definition msg_no_branch_summary :: string where "msg_no_branch_summary = ''Branch completed without a summary.''"

definition branch_result_step ::
  "legacy_input \<Rightarrow> nat \<times> json \<Rightarrow> nat \<times> norm_state \<Rightarrow> (nat \<times> norm_state) research" where
  "branch_result_step input entry acc = (case acc of (recognized, st) \<Rightarrow>
     let l = at_index ''branch_results'' (fst entry); branch = snd entry in
     case str_field branch ''plan_id'' of
       None \<Rightarrow> Inr (recognized, warn ''missing_branch_plan'' l msg_no_branch_plan st)
     | Some p \<Rightarrow>
     (case find_plan st p of
        None \<Rightarrow> Inr (recognized, warn ''inactive_branch_plan'' l msg_inactive_branch st)
      | Some ns \<Rightarrow>
        let status = value_or (str_field branch ''status'') ''failed'' in
        if status \<notin> {''solved'', ''partial'', ''failed''}
        then Inr (recognized, warn ''invalid_branch_status'' l msg_unknown_branch_status st)
        else
        bind_r (bounded_optional_string_array (json_get branch ''proved_subgoals'') (l @ ''.proved_subgoals'')
                 max_node_dependencies) (\<lambda>proved.
        bind_r (bounded_optional_string_array (json_get branch ''unproved_subgoals'') (l @ ''.unproved_subgoals'')
                 max_node_dependencies) (\<lambda>unproved.
        bind_r (branch_obstruction_map l ns branch) (\<lambda>m.
        case branch_touched l status ns proved unproved m st of (touched, st1) \<Rightarrow>
        bind_r (record_actor branch (''legacy-branch:'' @
                 value_or (option_filter (\<lambda>s. s \<noteq> []) (str_field branch ''branch_id'')) ''unknown'')) (\<lambda>actor.
        bind_r (fold_r (branch_attempt input (fst entry) actor status
                 (nonblank_or (str_field branch ''summary'') msg_no_branch_summary) m)
                 (List.enumerate 0 touched) st1) (\<lambda>st2.
          Inr (sat_add recognized 1, st2))))))))"

definition normalize_branch_results :: "legacy_input \<Rightarrow> norm_state \<Rightarrow> (nat \<times> norm_state) research" where
  "normalize_branch_results input st =
     fold_r (branch_result_step input) (List.enumerate 0 (in_branch_results input)) (0, st)"

section \<open>Counterexamples\<close>

definition msg_no_probe_summary :: string where "msg_no_probe_summary = ''Counterexample probe was inconclusive.''"

definition msg_probe_node :: string where
  "msg_probe_node = ''counterexample node_id is unknown; the record remains inconclusive in shadow''"

definition msg_probe_witness :: string where
  "msg_probe_witness = ''a claimed counterexample has no witness and is treated as inconclusive''"

definition record_attempt_id :: "json \<Rightarrow> string \<Rightarrow> string research" where
  "record_attempt_id record d =
     parse_or ''research_attempt_id'' (map_option (\<lambda>r. ''attempt:'' @ r) (str_field record ''record_id'')) d"

definition counterexample_step ::
  "legacy_input \<Rightarrow> string \<Rightarrow> nat \<times> json \<Rightarrow> norm_state \<Rightarrow> norm_state research" where
  "counterexample_step input target entry st =
     (let l = at_index ''counterexamples'' (fst entry); record = snd entry in
      bind_r (record_actor record legacy_generation) (\<lambda>actor.
      let summary = value_or (extract_summary record) msg_no_probe_summary;
          resolved = resolve_canonical_node (json_get record ''node_id'') st;
          valid = (json_get record ''node_id'' = None \<or> resolved \<noteq> None);
          n = value_or resolved target;
          st1 = (if valid then st else warn ''unknown_counterexample_node'' l msg_probe_node st);
          status = value_or (Option.bind (or_else (or_else (json_get record ''status'') (json_get record ''result''))
            (json_get record ''outcome'')) as_str) ''inconclusive'';
          witness = meaningful_witness (json_get record ''witness'');
          claimed = (status \<in> {''found'', ''refuted'', ''counterexample_found''});
          found = (claimed \<and> witness \<and> valid);
          st2 = (if claimed \<and> \<not> witness then warn ''counterexample_without_witness'' l msg_probe_witness st1 else st1);
          st3 = next_sequence (if found then set_status (\<lambda>_. True) Refuted n st2 else st2) in
      bind_r (record_attempt_id record (''attempt:counterexample:'' @ show_nat (fst entry + 1))) (\<lambda>i.
      bind_r (attempt_new i n actor Counterexample (if found then OutcomeRefuted else Inconclusive) summary) (\<lambda>a.
      let a1 = with_position (in_round_index input) (nrm_sequence st3) a;
          a2 = (if found then with_obstruction FalseClaim a1 else a1) in
      bind_r (bounded_optional_string_array (json_get record ''evidence_ids'') (l @ ''.evidence_ids'')
               max_evidence_ids) (\<lambda>es.
      bind_r (attach_evidence es a2) (\<lambda>a3. push_attempt a3 st3))))))"

definition normalize_counterexamples :: "legacy_input \<Rightarrow> string \<Rightarrow> norm_state \<Rightarrow> norm_state research" where
  "normalize_counterexamples input target st =
     fold_r (counterexample_step input target) (List.enumerate 0 (in_counterexamples input)) st"

end
