(* ===== verification/Legacy_Events.thy ===== *)
theory Legacy_Events
  imports Legacy_Records "HOL-Library.Product_Lexorder"
begin

text \<open>
  The rest of the module \<open>other\<close> of \<open>mtm-workflow/src/research_state/normalize.rs\<close>: retrieval events with
  the novelty of what they found, failures, decisions, the verifier's reports and the joining decision.
\<close>

section \<open>Retrieval\<close>

record retrieval_counts =
  counted_events :: nat
  counted_novel :: nat
  counted_repeated :: nat

definition no_counts :: retrieval_counts where
  "no_counts = \<lparr>counted_events = 0, counted_novel = 0, counted_repeated = 0\<rparr>"

definition count_event :: "retrieval_counts \<Rightarrow> retrieval_counts" where
  "count_event c = c\<lparr>counted_events := sat_add (counted_events c) 1\<rparr>"

definition count_reference :: "bool \<Rightarrow> retrieval_counts \<Rightarrow> retrieval_counts" where
  "count_reference is_new c =
     (if is_new then c\<lparr>counted_novel := sat_add (counted_novel c) 1\<rparr>
      else c\<lparr>counted_repeated := sat_add (counted_repeated c) 1\<rparr>)"

text \<open>
  \<open>seen_refs\<close> are the references any event has brought up, \<open>assessed_refs\<close> those an assessment has:
  a discovery does not use up what the first assessment of it may count as new.
\<close>

record retrieval_state =
  seen_refs :: "string set"
  assessed_refs :: "string set"
  ref_counts :: retrieval_counts
  ref_norm :: norm_state

definition msg_unregistered_record :: string where
  "msg_unregistered_record = ''protocol-3 retrieval record contains an unregistered reference_id''"

definition assess_reference ::
  "legacy_input \<Rightarrow> string \<Rightarrow> string \<Rightarrow> retrieval_state \<times> string list \<Rightarrow> (retrieval_state \<times> string list) research"
where
  "assess_reference input l r acc = (case acc of (rs, evidence) \<Rightarrow>
     if r \<notin> set (in_registered_reference_ids input) then Inl (legacy_malformed l msg_unregistered_record)
     else Inr (rs\<lparr>seen_refs := insert r (seen_refs rs), assessed_refs := insert r (assessed_refs rs),
         ref_counts := count_reference (r \<notin> seen_refs rs) (ref_counts rs)\<rparr>,
       if r \<in> assessed_refs rs then evidence else evidence @ [r]))"

definition msg_retrieval_node :: string where
  "msg_retrieval_node = ''protocol-3 retrieval record refers to an unknown node''"

definition msg_no_assessment_summary :: string where
  "msg_no_assessment_summary = ''Retrieval assessment was inconclusive.''"

definition retrieval_assessment_step ::
  "legacy_input \<Rightarrow> string \<Rightarrow> nat \<Rightarrow> json \<Rightarrow> retrieval_state \<Rightarrow> retrieval_state research" where
  "retrieval_assessment_step input target index event rs0 =
     (let l = at_index ''events'' index; rl = l @ ''.reference_ids'' in
      bind_r (bounded_optional_string_array (json_get event ''reference_ids'') rl max_evidence_ids) (\<lambda>refs.
      bind_r (fold_r (assess_reference input rl) refs
               (rs0\<lparr>ref_counts := count_event (ref_counts rs0)\<rparr>, [])) (\<lambda>(rs, evidence).
      let given = json_get event ''node_id'';
          resolved = resolve_canonical_node given (ref_norm rs) in
      if given \<noteq> None \<and> given \<noteq> Some JNull \<and> resolved = None
      then Inl (legacy_malformed (l @ ''.node_id'') msg_retrieval_node)
      else
      bind_r (record_actor event legacy_generation) (\<lambda>actor.
      let progress = (value_or (str_field event ''outcome'') ''inconclusive'' = ''new_material'' \<and> evidence \<noteq> []);
          st = next_sequence (ref_norm rs) in
      bind_r (record_attempt_id event (''attempt:retrieval:'' @ show_nat (index + 1))) (\<lambda>i.
      bind_r (attempt_new i (value_or resolved target) actor Retrieval
               (if progress then Progress else Inconclusive)
               (nonblank_or (str_field event ''summary'') msg_no_assessment_summary)) (\<lambda>a.
      let a1 = with_position (in_round_index input) (nrm_sequence st) a;
          a2 = (if progress then a1 else with_obstruction NoProgress a1) in
      bind_r (attach_evidence evidence a2) (\<lambda>a3.
      bind_r (push_attempt a3 st) (\<lambda>st1. Inr (rs\<lparr>ref_norm := st1\<rparr>)))))))))"

definition msg_unregistered_result :: string where
  "msg_unregistered_result = ''retrieval result reference_id is absent from the authoritative registry''"

definition discover_reference ::
  "legacy_input \<Rightarrow> string \<Rightarrow> json \<Rightarrow> retrieval_state \<times> string list \<Rightarrow> retrieval_state \<times> string list" where
  "discover_reference input l found acc = (case acc of (rs, novel) \<Rightarrow>
     case str_field found ''reference_id'' of
       None \<Rightarrow> (rs, novel)
     | Some r \<Rightarrow>
         if r \<notin> set (in_registered_reference_ids input)
         then (rs\<lparr>ref_norm := warn ''unregistered_retrieval_reference'' l msg_unregistered_result (ref_norm rs)\<rparr>, novel)
         else (rs\<lparr>seen_refs := insert r (seen_refs rs),
             ref_counts := count_reference (r \<notin> seen_refs rs) (ref_counts rs)\<rparr>,
           if r \<in> seen_refs rs then novel else novel @ [r]))"

definition msg_no_results :: string where "msg_no_results = ''external retrieval event has no results array''"

definition msg_registered :: string where "msg_registered = '' previously unseen reference id(s).''"

definition msg_counted :: string where
  "msg_counted = '' novel reference ids were counted but only ''"

definition external_step ::
  "legacy_input \<Rightarrow> string \<Rightarrow> nat \<Rightarrow> json \<Rightarrow> retrieval_state \<Rightarrow> retrieval_state research" where
  "external_step input target index event rs0 =
     (let l = at_index ''events'' index; rs1 = rs0\<lparr>ref_counts := count_event (ref_counts rs0)\<rparr> in
      case array_field event ''results'' of
        None \<Rightarrow> Inr (rs1\<lparr>ref_norm := warn ''retrieval_without_results'' l msg_no_results (ref_norm rs1)\<rparr>)
      | Some found \<Rightarrow>
      bind_r (enforce_count ''legacy_retrieval_results'' (length found) max_retrieval_results_per_event) (\<lambda>_.
      case fold (discover_reference input (l @ ''.results'')) found (rs1, []) of (rs, novel) \<Rightarrow>
      let st = next_sequence (ref_norm rs) in
      bind_r (record_actor event legacy_generation) (\<lambda>actor.
      bind_r (attempt_id_parse (''attempt:retrieval:'' @ show_nat (index + 1))) (\<lambda>i.
      bind_r (attempt_new i target actor Retrieval (if novel = [] then Inconclusive else Progress)
               (value_or (str_field event ''operation'') ''research'' @ '' registered '' @
                 show_nat (length novel) @ msg_registered)) (\<lambda>a.
      let a1 = with_position (in_round_index input) (nrm_sequence st) a;
          a2 = (if novel = [] then with_obstruction NoProgress a1 else a1);
          st1 = (if max_evidence_ids < length novel
            then warn ''retrieval_evidence_truncated'' (l @ ''.results'')
              (show_nat (length novel) @ msg_counted @ show_nat max_evidence_ids @ '' are attached to the attempt'') st
            else st) in
      bind_r (attach_evidence (take max_evidence_ids novel) a2) (\<lambda>a3.
      bind_r (push_attempt a3 st1) (\<lambda>st2. Inr (rs\<lparr>ref_norm := st2\<rparr>))))))))"

definition retrieval_step ::
  "legacy_input \<Rightarrow> string \<Rightarrow> nat \<times> json \<Rightarrow> retrieval_state \<Rightarrow> retrieval_state research" where
  "retrieval_step input target entry rs =
     (let event_type = value_or (str_field (snd entry) ''event_type'') [] in
      if event_type = ''retrieval_assessment'' then retrieval_assessment_step input target (fst entry) (snd entry) rs
      else if \<not> starts_with ''external_'' event_type then Inr rs
      else external_step input target (fst entry) (snd entry) rs)"

definition normalize_retrieval_events ::
  "legacy_input \<Rightarrow> string \<Rightarrow> norm_state \<Rightarrow> (retrieval_counts \<times> norm_state) research" where
  "normalize_retrieval_events input target st =
     map_ok (\<lambda>rs. (ref_counts rs, ref_norm rs))
       (fold_r (retrieval_step input target) (List.enumerate 0 (in_events input))
         \<lparr>seen_refs = {}, assessed_refs = {}, ref_counts = no_counts, ref_norm = st\<rparr>)"

section \<open>Failures\<close>

definition msg_no_failure_summary :: string where "msg_no_failure_summary = ''failure record has no concise summary''"

definition msg_failure_node :: string where
  "msg_failure_node = ''failure record refers to an unknown canonical node''"

definition failure_attempt ::
  "legacy_input \<Rightarrow> nat \<Rightarrow> string option \<Rightarrow> string \<Rightarrow> research_obstruction \<Rightarrow> string \<Rightarrow> nat \<times> string \<Rightarrow> norm_state
    \<Rightarrow> norm_state research" where
  "failure_attempt input index record_id actor b summary entry st =
     (let st1 = next_sequence st in
      bind_r (attempt_id_parse (case record_id of
          None \<Rightarrow> ''attempt:failure:'' @ show_nat (index + 1) @ '':'' @ show_nat (fst entry + 1)
        | Some r \<Rightarrow> ''attempt:'' @ r @ '':'' @ show_nat (fst entry + 1))) (\<lambda>i.
      bind_r (attempt_new i (snd entry) actor Synthesis OutcomeFailed summary) (\<lambda>a.
        push_attempt (with_position (in_round_index input) (nrm_sequence st1) (with_obstruction b a)) st1)))"

definition known_legacy_node :: "string \<Rightarrow> norm_state \<Rightarrow> string \<Rightarrow> string research" where
  "known_legacy_node l st t =
     bind_r (node_id_parse t) (\<lambda>n.
       if map_of (nrm_nodes st) n = None then Inl (legacy_malformed l msg_failure_node) else Inr n)"

definition failure_step ::
  "legacy_input \<Rightarrow> string \<Rightarrow> nat \<times> json \<Rightarrow> nat \<times> norm_state \<Rightarrow> (nat \<times> norm_state) research" where
  "failure_step input target entry acc = (case acc of (ignored, st) \<Rightarrow>
     let l = at_index ''failed_paths'' (fst entry); record = snd entry in
     case extract_summary record of
       None \<Rightarrow> Inr (sat_add ignored 1, warn ''failure_without_summary'' l msg_no_failure_summary st)
     | Some summary \<Rightarrow>
     bind_r (record_actor record legacy_generation) (\<lambda>actor.
     let b = value_or (Option.bind (str_field record ''obstruction_class'') obstruction_parse) Unknown in
     bind_r (bounded_optional_string_array (json_get record ''affected_node_ids'') (l @ ''.affected_node_ids'')
              max_decision_node_ids) (\<lambda>affected.
     bind_r (if affected = [] then Inr [target] else traverse_r (known_legacy_node l st) affected) (\<lambda>ns.
       map_ok (Pair ignored)
         (fold_r (failure_attempt input (fst entry) (str_field record ''record_id'') actor b summary)
           (List.enumerate 0 ns) st)))))"

definition normalize_failures :: "legacy_input \<Rightarrow> string \<Rightarrow> norm_state \<Rightarrow> (nat \<times> norm_state) research" where
  "normalize_failures input target st =
     fold_r (failure_step input target) (List.enumerate 0 (in_failed_paths input)) (0, st)"

section \<open>Decisions\<close>

definition msg_no_reason :: string where "msg_no_reason = ''decision record has no concise reason''"

definition msg_unknown_decision_plan :: string where
  "msg_unknown_decision_plan = ''decision refers to an unknown active plan: ''"

definition msg_unknown_preserved :: string where
  "msg_unknown_preserved = ''decision refers to an unknown node: ''"

definition msg_unknown_focus :: string where "msg_unknown_focus = ''decision selected_focus_node_id is unknown''"

definition supersede_known ::
  "string \<Rightarrow> string \<Rightarrow> research_decision \<times> norm_state \<Rightarrow> research_decision \<times> norm_state" where
  "supersede_known l p acc = (case acc of (d, st) \<Rightarrow>
     if p \<in> set (nrm_active st) then (supersede_plan p d, st)
     else (d, warn ''unknown_decision_plan'' l (msg_unknown_decision_plan @ p) st))"

definition preserve_known ::
  "string \<Rightarrow> string \<Rightarrow> research_decision \<times> norm_state \<Rightarrow> research_decision \<times> norm_state" where
  "preserve_known l n acc = (case acc of (d, st) \<Rightarrow>
     if map_of (nrm_nodes st) n \<noteq> None then (preserve_node n d, st)
     else (d, warn ''unknown_preserved_node'' l (msg_unknown_preserved @ n) st))"

definition focus_known ::
  "string \<Rightarrow> string option \<Rightarrow> research_decision \<times> norm_state \<Rightarrow> research_decision \<times> norm_state" where
  "focus_known l focus acc = (case acc of (d, st) \<Rightarrow>
     case focus of None \<Rightarrow> (d, st)
     | Some n \<Rightarrow> if map_of (nrm_nodes st) n \<noteq> None then (focus_on n d, st)
         else (d, warn ''unknown_focus_node'' l msg_unknown_focus st))"

definition decision_step ::
  "legacy_input \<Rightarrow> nat \<times> json \<Rightarrow> nat \<times> norm_state \<Rightarrow> (nat \<times> norm_state) research" where
  "decision_step input entry acc = (case acc of (ignored, st) \<Rightarrow>
     let l = at_index ''big_decisions'' (fst entry); record = snd entry in
     case extract_summary record of
       None \<Rightarrow> Inr (sat_add ignored 1, warn ''decision_without_reason'' l msg_no_reason st)
     | Some reason \<Rightarrow>
     let st1 = next_sequence st in
     bind_r (decision_id_parse (''decision:legacy:'' @ show_nat (fst entry + 1))) (\<lambda>i.
     bind_r (decision_new i reason) (\<lambda>d.
     bind_r (bounded_optional_string_array (json_get record ''superseded_plan_ids'') (l @ ''.superseded_plan_ids'')
              max_decision_plan_ids) (\<lambda>plans.
     let acc1 = fold (supersede_known l) plans (with_event_seq (nrm_sequence st1) d, st1) in
     bind_r (bounded_optional_string_array (json_get record ''preserved_node_ids'') (l @ ''.preserved_node_ids'')
              max_decision_node_ids) (\<lambda>preserved.
     case focus_known l (str_field record ''selected_focus_node_id'') (fold (preserve_known l) preserved acc1) of
       (d2, st2) \<Rightarrow>
     bind_r (bounded_optional_string_array (json_get record ''new_constraints'') (l @ ''.new_constraints'')
              max_decision_constraints) (\<lambda>constraints.
     bind_r (fold_r add_constraint constraints d2) (\<lambda>d3.
     bind_r (push_decision d3 st2) (\<lambda>st3. Inr (ignored, st3)))))))))"

definition normalize_decisions :: "legacy_input \<Rightarrow> norm_state \<Rightarrow> (nat \<times> norm_state) research" where
  "normalize_decisions input st =
     fold_r (decision_step input) (List.enumerate 0 (in_big_decisions input)) (0, st)"

section \<open>Reports of the verifier\<close>

definition finding_count :: "json \<Rightarrow> string \<Rightarrow> nat" where
  "finding_count report k =
     (let findings = Option.bind (json_get report ''verification_report'') as_object in
      case Option.bind (or_else (Option.bind findings (\<lambda>obj. obj_get obj k)) (json_get report k)) as_array of
        None \<Rightarrow> 0 | Some xs \<Rightarrow> length xs)"

definition report_summary :: "json \<Rightarrow> nat \<Rightarrow> nat \<Rightarrow> string" where
  "report_summary report critical gaps =
     nonblank_or (str_field report ''repair_hints'')
       (''Verifier reported '' @ show_nat critical @ '' critical error(s) and '' @ show_nat gaps @ '' gap(s).'')"

definition msg_no_repair_summary :: string where
  "msg_no_repair_summary = ''verification findings have no repair summary''"

definition legacy_verification_step ::
  "legacy_input \<Rightarrow> string \<Rightarrow> string \<Rightarrow> nat \<times> json \<Rightarrow> nat \<times> norm_state \<Rightarrow> (nat \<times> norm_state) research" where
  "legacy_verification_step input target actor entry acc = (case acc of (ignored, st) \<Rightarrow>
     let report = snd entry;
         critical = finding_count report ''critical_errors''; gaps = finding_count report ''gaps'';
         summary = report_summary report critical gaps in
     if critical + gaps = 0 then Inr (ignored, st)
     else if is_blank summary
     then Inr (sat_add ignored 1,
       warn ''verification_without_summary'' (at_index ''verification_reports'' (fst entry)) msg_no_repair_summary st)
     else
     let st1 = next_sequence st in
     bind_r (attempt_id_parse (''attempt:repair:'' @ show_nat (fst entry + 1))) (\<lambda>i.
     bind_r (attempt_new i target actor MethodRepair OutcomeFailed summary) (\<lambda>a.
     bind_r (push_attempt (with_position (in_round_index input) (nrm_sequence st1) (with_obstruction Unknown a)) st1)
       (\<lambda>st2. Inr (ignored, st2)))))"

definition normalize_verification_reports ::
  "legacy_input \<Rightarrow> string \<Rightarrow> norm_state \<Rightarrow> (nat \<times> norm_state) research" where
  "normalize_verification_reports input target st =
     bind_r (domain_id_parse ''legacy-repair'') (\<lambda>actor.
       fold_r (legacy_verification_step input target actor) (List.enumerate 0 (in_verification_reports input)) (0, st))"

section \<open>Joining branches\<close>

definition selected_plan :: "legacy_input \<Rightarrow> object \<Rightarrow> string option" where
  "selected_plan input obj =
     or_else (Option.bind (obj_get obj ''selected_plan_id'') as_str)
       (Option.bind (Option.bind (obj_get obj ''selected_branch_id'') as_str) (\<lambda>b.
         Option.bind (List.find (\<lambda>r. str_field r ''branch_id'' = Some b) (in_branch_results input)) (\<lambda>r.
           str_field r ''plan_id'')))"

text \<open>\<open>Iterator::max_by_key\<close> returns the last of several maximal elements.\<close>

definition later_node :: "research_node \<Rightarrow> research_node option \<Rightarrow> research_node option" where
  "later_node n best =
     (case best of None \<Rightarrow> Some n
      | Some b \<Rightarrow> if (plan_order n, node_order n, node_id n) < (plan_order b, node_order b, node_id b)
          then Some b else Some n)"

definition join_goal :: "norm_state \<Rightarrow> string \<Rightarrow> research_node option" where
  "join_goal st p = fold later_node (filter (\<lambda>n. plan_id n = Some p) (map snd (nrm_nodes st))) None"

definition msg_join_branch :: string where
  "msg_join_branch = ''join decision refers to a branch without a recognized sealed result''"

definition msg_join_plan :: string where
  "msg_join_plan = ''join decision refers to an unknown active plan''"

definition focus_join :: "string option \<Rightarrow> research_decision \<times> norm_state \<Rightarrow> research_decision \<times> norm_state" where
  "focus_join selected acc = (case acc of (d, st) \<Rightarrow>
     case selected of None \<Rightarrow> (d, st)
     | Some p \<Rightarrow>
         if p \<in> set (nrm_active st)
         then (case join_goal st p of None \<Rightarrow> (d, st) | Some n \<Rightarrow> (focus_on (node_id n) d, st))
         else (d, warn ''unknown_join_plan'' ''join_result.selected_plan_id'' msg_join_plan st))"

definition normalize_join_decision :: "legacy_input \<Rightarrow> norm_state \<Rightarrow> norm_state research" where
  "normalize_join_decision input st =
     (case option_filter (\<lambda>obj. obj \<noteq> []) (as_object (in_join_result input)) of
        None \<Rightarrow> Inr st
      | Some obj \<Rightarrow>
      let outcome = value_or (Option.bind (obj_get obj ''outcome'') as_str) ''unknown'';
          st1 = next_sequence st in
      bind_r (decision_id_parse ''decision:legacy:join'') (\<lambda>i.
      bind_r (decision_new i (''Branch join outcome: '' @ outcome @ ''.'')) (\<lambda>d.
      let selected = selected_plan input obj;
          branch_given = (case Option.bind (obj_get obj ''selected_branch_id'') as_str of
            None \<Rightarrow> False | Some b \<Rightarrow> trim b \<noteq> []);
          st2 = (if branch_given \<and> selected = None
            then warn ''unknown_join_branch'' ''join_result.selected_branch_id'' msg_join_branch st1 else st1) in
      case focus_join selected (with_event_seq (nrm_sequence st1) d, st2) of
        (d1, st3) \<Rightarrow> push_decision d1 st3)))"

end
