(* ===== verification/Legacy_Normalize.thy ===== *)
theory Legacy_Normalize
  imports Legacy_Events
begin

text \<open>
  \<open>normalize_legacy_research\<close> of \<open>mtm-workflow/src/research_state/normalize.rs\<close>, which turns the records of
  a run into the snapshot the projector works on, with the warnings and the summary that go with it.
\<close>

section \<open>The normalization\<close>

record normalization_summary =
  source_records :: "(string \<times> nat) list"
  normalized_nodes :: nat
  normalized_attempts :: nat
  normalized_decisions :: nat
  retrieval_events :: nat
  novel_reference_ids :: nat
  repeated_reference_ids :: nat
  recognized_branch_results :: nat
  ignored_records :: nat
  warning_count :: nat

record legacy_normalization =
  norm_snapshot :: research_snapshot
  norm_warnings :: "normalization_warning list"
  norm_summary :: normalization_summary

definition snapshot_of :: "string \<Rightarrow> norm_state \<Rightarrow> research_snapshot" where
  "snapshot_of target st =
     fold with_active_plan (nrm_active st) (fold with_decision (nrm_decisions st)
       (fold with_attempt (nrm_attempts st) (fold with_node (map snd (nrm_nodes st)) (snapshot_new target))))"

definition source_counts :: "legacy_input \<Rightarrow> (string \<times> nat) list" where
  "source_counts input = bt_collect
     [(''proof_steps'', length (in_proof_steps input)), (''counterexamples'', length (in_counterexamples input)),
      (''failed_paths'', length (in_failed_paths input)), (''big_decisions'', length (in_big_decisions input)),
      (''events'', length (in_events input)), (''branch_results'', length (in_branch_results input)),
      (''verification_reports'', length (in_verification_reports input))]"

definition start_state :: "string \<Rightarrow> research_node \<Rightarrow> norm_state" where
  "start_state target n = \<lparr>nrm_nodes = [(target, n)], nrm_plans = [], nrm_active = [], nrm_attempts = [],
     nrm_decisions = [], nrm_sequence = 0, nrm_warnings = no_warnings\<rparr>"

definition normalize_legacy_research ::
  "(string \<Rightarrow> string) \<Rightarrow> legacy_input \<Rightarrow> legacy_normalization research" where
  "normalize_legacy_research debug input =
     bind_r (validate_channel_limits input) (\<lambda>_.
     bind_r (node_id_parse ''target'') (\<lambda>target.
     bind_r (node_new target (in_target_statement input) KindTarget) (\<lambda>n.
     bind_r (normalize_legacy_plans debug input (start_state target (with_order 0 0 0 n))) (\<lambda>st1.
     bind_r (normalize_direct_attempts input st1) (\<lambda>st2.
     bind_r (normalize_branch_results input st2) (\<lambda>(recognized, st3).
     bind_r (normalize_counterexamples input target st3) (\<lambda>st4.
     bind_r (normalize_retrieval_events input target st4) (\<lambda>(retrieval, st5).
     bind_r (normalize_failures input target st5) (\<lambda>(ignored_failures, st6).
     bind_r (normalize_decisions input st6) (\<lambda>(ignored_decisions, st7).
     bind_r (normalize_verification_reports input target st7) (\<lambda>(ignored_verification, st8).
     bind_r (normalize_join_decision input st8) (\<lambda>st9.
       let snapshot = snapshot_of target st9; warnings = finish_warnings (nrm_warnings st9) in
       Inr \<lparr>norm_snapshot = snapshot, norm_warnings = warnings,
         norm_summary = \<lparr>source_records = source_counts input,
           normalized_nodes = length (snap_nodes snapshot),
           normalized_attempts = length (snap_attempts snapshot),
           normalized_decisions = length (snap_decisions snapshot),
           retrieval_events = counted_events retrieval, novel_reference_ids = counted_novel retrieval,
           repeated_reference_ids = counted_repeated retrieval, recognized_branch_results = recognized,
           ignored_records = sat_add (sat_add ignored_failures ignored_decisions) ignored_verification,
           warning_count = length warnings\<rparr>\<rparr>))))))))))))"

end
