(* ===== verification/Legacy_Laws.thy ===== *)
theory Legacy_Laws
  imports Legacy_Normalize Research_State_Laws
begin

text \<open>
  What a normalized snapshot is like: every reference in it is to one of its own nodes and plans, and
  what the projector checks of single nodes, attempts and decisions holds. Each step of the
  normalization keeps this (\<open>step_ok\<close>), so the projector can refuse the snapshot only for what the
  normalization does not look at.
\<close>

section \<open>What the state refers to\<close>

definition node_sound :: "string list \<Rightarrow> string \<times> research_node \<Rightarrow> bool" where
  "node_sound active entry \<longleftrightarrow> (case entry of (i, n) \<Rightarrow>
     node_id n = i \<and> revision n = 1 \<and> (node_kind n = KindTarget \<longleftrightarrow> i = ''target'') \<and>
     is_ok (validate_text ''node.statement'' (statement n) max_statement_bytes False) \<and>
     length (dependencies n) \<le> max_node_dependencies \<and> node_status n \<noteq> Superseded \<and>
     (case plan_id n of None \<Rightarrow> i = ''target'' | Some p \<Rightarrow> p \<in> set active))"

definition attempt_sound :: "string set \<Rightarrow> research_attempt \<Rightarrow> bool" where
  "attempt_sound ids a \<longleftrightarrow> attempt_node_id a \<in> ids \<and>
     is_ok (validate_text ''attempt.summary'' (attempt_summary a) max_summary_bytes False) \<and>
     length (evidence_ids a) \<le> max_evidence_ids \<and> sorted_wrt (<) (evidence_ids a)"

definition decision_sound :: "string set \<Rightarrow> string set \<Rightarrow> research_decision \<Rightarrow> bool" where
  "decision_sound ids plans d \<longleftrightarrow> set (preserved_node_ids d @ focus_list d) \<subseteq> ids \<and>
     set (superseded_plan_ids d) \<subseteq> plans \<and>
     is_ok (validate_text ''decision.reason'' (decision_reason d) max_reason_bytes False) \<and>
     length (superseded_plan_ids d) \<le> max_decision_plan_ids \<and>
     length (preserved_node_ids d) \<le> max_decision_node_ids \<and>
     length (new_constraints d) \<le> max_decision_constraints"

definition node_keys :: "norm_state \<Rightarrow> string set" where
  "node_keys st = fst ` set (nrm_nodes st)"

definition node_frame :: "norm_state \<Rightarrow> (string \<times> string option) list" where
  "node_frame st = map (\<lambda>(i, n). (i, plan_id n)) (nrm_nodes st)"

definition norm_base :: "norm_state \<Rightarrow> bool" where
  "norm_base st \<longleftrightarrow> sorted_keys (nrm_nodes st) \<and> length (nrm_nodes st) \<le> max_research_nodes \<and>
     ''target'' \<in> node_keys st \<and> list_all (node_sound (nrm_active st)) (nrm_nodes st) \<and>
     list_all (\<lambda>(p, ns). list_all (\<lambda>n. legacy_node_id n \<in> node_keys st) ns) (nrm_plans st) \<and>
     list_all (attempt_sound (node_keys st)) (nrm_attempts st) \<and>
     length (nrm_attempts st) \<le> max_research_attempts \<and>
     list_all (decision_sound (node_keys st) (set (nrm_active st))) (nrm_decisions st) \<and>
     length (nrm_decisions st) \<le> max_research_decisions"

definition keeps :: "norm_state \<Rightarrow> norm_state \<Rightarrow> bool" where
  "keeps st st' \<longleftrightarrow> node_frame st' = node_frame st \<and> nrm_plans st' = nrm_plans st \<and> nrm_active st' = nrm_active st"

definition step_ok :: "norm_state \<Rightarrow> norm_state \<Rightarrow> bool" where
  "step_ok st st' \<longleftrightarrow> norm_base st' \<and> keeps st st'"

lemma node_keys_frame: "node_keys st = fst ` set (node_frame st)"
  by (force simp: node_keys_def node_frame_def)

lemma keeps_refl [simp]: "keeps st st"
  by (simp add: keeps_def)

lemma keeps_keys: "keeps st st' \<Longrightarrow> node_keys st' = node_keys st"
  by (simp add: keeps_def node_keys_frame)

lemma step_ok_refl [simp]: "step_ok st st \<longleftrightarrow> norm_base st"
  by (simp add: step_ok_def)

lemma step_ok_trans: "step_ok st st1 \<Longrightarrow> step_ok st1 st2 \<Longrightarrow> step_ok st st2"
  by (simp add: step_ok_def keeps_def)

lemma step_ok_base: "step_ok st st' \<Longrightarrow> norm_base st'"
  by (simp add: step_ok_def)

lemma step_ok_keys: "step_ok st st' \<Longrightarrow> node_keys st' = node_keys st"
  by (simp add: step_ok_def keeps_keys)

section \<open>The primitive steps\<close>

lemma warn_fields [simp]:
  "nrm_nodes (warn c l m st) = nrm_nodes st" "nrm_plans (warn c l m st) = nrm_plans st"
  "nrm_active (warn c l m st) = nrm_active st" "nrm_attempts (warn c l m st) = nrm_attempts st"
  "nrm_decisions (warn c l m st) = nrm_decisions st"
  by (simp_all add: warn_def)

lemma next_sequence_fields [simp]:
  "nrm_nodes (next_sequence st) = nrm_nodes st" "nrm_plans (next_sequence st) = nrm_plans st"
  "nrm_active (next_sequence st) = nrm_active st" "nrm_attempts (next_sequence st) = nrm_attempts st"
  "nrm_decisions (next_sequence st) = nrm_decisions st"
  by (simp_all add: next_sequence_def)

lemma step_ok_warn [simp]: "step_ok st0 (warn c l m st) = step_ok st0 st"
  by (simp add: step_ok_def norm_base_def keeps_def node_keys_def node_frame_def)

lemma step_ok_next [simp]: "step_ok st0 (next_sequence st) = step_ok st0 st"
  by (simp add: step_ok_def norm_base_def keeps_def node_keys_def node_frame_def)

lemma push_attempt_ok:
  assumes "step_ok st0 st" "attempt_sound (node_keys st0) a" "push_attempt a st = Inr st'"
  shows "step_ok st0 st'"
proof -
  have st': "st' = st\<lparr>nrm_attempts := nrm_attempts st @ [a]\<rparr>" "length (nrm_attempts st @ [a]) \<le> max_research_attempts"
    using assms(3) by (auto simp: push_attempt_def Let_def split: if_splits)
  have keys: "node_keys st' = node_keys st" "node_frame st' = node_frame st"
    by (simp_all add: st' node_keys_def node_frame_def)
  show ?thesis
    using assms(1,2) step_ok_keys [OF assms(1)] st'(2)
    unfolding step_ok_def norm_base_def keeps_def keys by (auto simp: st'(1))
qed

lemma push_decision_ok:
  assumes "step_ok st0 st" "decision_sound (node_keys st0) (set (nrm_active st0)) d" "push_decision d st = Inr st'"
  shows "step_ok st0 st'"
proof -
  have st': "st' = st\<lparr>nrm_decisions := nrm_decisions st @ [d]\<rparr>" "length (nrm_decisions st @ [d]) \<le> max_research_decisions"
    using assms(3) by (auto simp: push_decision_def Let_def split: if_splits)
  have keys: "node_keys st' = node_keys st" "node_frame st' = node_frame st"
    by (simp_all add: st' node_keys_def node_frame_def)
  show ?thesis
    using assms(1,2) step_ok_keys [OF assms(1)] st'(2)
    unfolding step_ok_def norm_base_def keeps_def keys by (auto simp: st'(1))
qed

lemma bt_insert_replace:
  "sorted_keys m \<Longrightarrow> map_of m i = Some w \<Longrightarrow>
     bt_insert i v m = map (\<lambda>(k, x). if k = i then (k, v) else (k, x)) m"
proof (induction m)
  case (Cons kv m)
  obtain k x where kv: "kv = (k, x)" by (cases kv)
  have sorted: "sorted_keys m" "\<forall>k' \<in> set (map fst m). k < k'" using Cons.prems(1) by (auto simp: sorted_keys_def kv)
  show ?case
  proof (cases "k = i")
    case True
    then have "\<forall>(k', y) \<in> set m. k' \<noteq> i" using sorted(2) by auto
    then have "map (\<lambda>(k, x). if k = i then (k, v) else (k, x)) m = m" by (intro map_idI) auto
    then show ?thesis using True by (simp add: kv)
  next
    case False
    then have m: "map_of m i = Some w" using Cons.prems(2) by (simp add: kv)
    then have "i \<in> set (map fst m)" by (metis domI dom_map_of_conv_image_fst set_map)
    then have "k < i" using sorted(2) by blast
    then show ?thesis using Cons.IH [OF sorted(1) m] by (auto simp: kv)
  qed
qed simp

lemma set_status_ok [simp]:
  assumes "step_ok st0 st" "s \<noteq> Superseded"
  shows "step_ok st0 (set_status P s i st)"
proof (cases "map_of (nrm_nodes st) i")
  case None then show ?thesis using assms by (simp add: set_status_def)
next
  case (Some n)
  have base: "norm_base st" using assms(1) by (rule step_ok_base)
  define st' where "st' = st\<lparr>nrm_nodes := bt_insert i (n\<lparr>node_status := s\<rparr>) (nrm_nodes st)\<rparr>"
  have ins: "nrm_nodes st' = map (\<lambda>(k, x). if k = i then (k, n\<lparr>node_status := s\<rparr>) else (k, x)) (nrm_nodes st)"
    using base Some unfolding st'_def by (simp add: norm_base_def bt_insert_replace)
  have mem: "(i, n) \<in> set (nrm_nodes st)" using Some by (rule map_of_SomeD)
  have uniq: "x = n" if "(i, x) \<in> set (nrm_nodes st)" for x
    using that Some base map_of_eq_Some_iff [OF sorted_keys_distinct, of "nrm_nodes st" i x]
    by (simp add: norm_base_def)
  have "node_frame st' = node_frame st"
    unfolding node_frame_def ins using uniq by (auto split: if_splits)
  then have frame: "keeps st st'" by (simp add: keeps_def st'_def)
  have "node_sound (nrm_active st) (i, n)" using base mem by (auto simp: norm_base_def list_all_iff)
  then have "node_sound (nrm_active st) (i, n\<lparr>node_status := s\<rparr>)" using assms(2) by (simp add: node_sound_def)
  then have "list_all (node_sound (nrm_active st)) (nrm_nodes st')"
    using base unfolding ins by (auto simp: norm_base_def list_all_iff)
  moreover have "sorted_keys (nrm_nodes st')" using base unfolding st'_def by (simp add: norm_base_def sorted_bt_insert)
  moreover have "length (nrm_nodes st') = length (nrm_nodes st)" unfolding ins by simp
  ultimately have "norm_base st'"
    using base keeps_keys [OF frame] by (simp add: norm_base_def st'_def)
  then have "step_ok st st'" using frame by (simp add: step_ok_def)
  then have "step_ok st0 st'" using assms(1) step_ok_trans by blast
  then show ?thesis using Some assms(1) by (simp add: set_status_def st'_def)
qed

lemma set_statuses_ok:
  "step_ok st0 st \<Longrightarrow> s \<noteq> Superseded \<Longrightarrow> step_ok st0 (fold (set_status P s) is st)"
  by (induction "is" arbitrary: st) simp_all

text \<open>A loop of steps is a step.\<close>

lemma fold_r_steps:
  assumes "fold_r f xs st = Inr st'" "step_ok st0 st"
    and "\<And>x s s'. x \<in> set xs \<Longrightarrow> step_ok st0 s \<Longrightarrow> f x s = Inr s' \<Longrightarrow> step_ok st0 s'"
  shows "step_ok st0 st'"
  using assms by (rule fold_r_invariant [where P = "step_ok st0"])

section \<open>Attempts\<close>

lemma trim_length: "length (trim s) \<le> length s"
  unfolding trim_def using prefix_length_le [OF trim_end_prefix] suffix_length_le [OF trim_start_suffix]
  by (meson le_trans)

lemma validate_text_trim:
  "validate_text f v b False = Inr u \<Longrightarrow> is_ok (validate_text g (trim v) b False)"
  using trim_length [of v] trim_subset [of v]
  by (auto simp: is_ok_unit validate_text_ok is_blank_def)

lemma attempt_new_sound:
  "attempt_new i n d m out sm = Inr a \<Longrightarrow> n \<in> ids \<Longrightarrow> attempt_sound ids a"
  by (auto simp: attempt_new_def bind_r_eq_Inr attempt_sound_def validate_text_trim)

lemma attempt_sound_with [simp]:
  "attempt_sound ids (with_position r e a) = attempt_sound ids a"
  "attempt_sound ids (with_obstruction b a) = attempt_sound ids a"
  by (simp_all add: attempt_sound_def with_position_def with_obstruction_def)

lemma length_bs_insert: "length (bs_insert x xs) \<le> Suc (length xs)"
  by (induction xs) auto

lemma bs_insert_mem: "sorted_wrt (<) xs \<Longrightarrow> x \<in> set xs \<Longrightarrow> bs_insert x xs = xs"
  by (induction xs) auto

lemma with_evidence_sound:
  assumes "with_evidence e a = Inr a'" "attempt_sound ids a"
  shows "attempt_sound ids a'"
proof -
  let ?es = "evidence_ids a"
  have a': "a' = a\<lparr>evidence_ids := bs_insert (trim e) ?es\<rparr>" "\<not> (max_evidence_ids \<le> length ?es \<and> trim e \<notin> set ?es)"
    using assms(1) by (auto simp: with_evidence_def bind_r_eq_Inr split: if_splits)
  have sound: "sorted_wrt (<) ?es" "length ?es \<le> max_evidence_ids" using assms(2) by (simp_all add: attempt_sound_def)
  have "length (bs_insert (trim e) ?es) \<le> max_evidence_ids"
  proof (cases "trim e \<in> set ?es")
    case True
    then show ?thesis using sound by (simp add: bs_insert_mem)
  next
    case False
    then show ?thesis using a'(2) length_bs_insert [of "trim e" ?es] by simp
  qed
  then show ?thesis using assms(2) sorted_bs_insert [OF sound(1)] by (simp add: a'(1) attempt_sound_def)
qed

lemma attach_evidence_sound:
  assumes "attach_evidence es a = Inr a'" "attempt_sound ids a"
  shows "attempt_sound ids a'"
  using assms unfolding attach_evidence_def
  by (rule fold_r_invariant [where P = "attempt_sound ids"]) (rule with_evidence_sound)

section \<open>The steps after the plans\<close>

lemma direct_attempt_ok:
  assumes "step_ok st0 st" "n \<in> node_keys st0" "direct_attempt input actor l d screening n st = Inr st'"
  shows "step_ok st0 st'"
  using assms(3) unfolding direct_attempt_def Let_def
  apply (elim bind_rE)
  subgoal premises p for m b i a es a3
  proof -
    have "attempt_sound (node_keys st0) a" by (rule attempt_new_sound [OF p(4) assms(2)])
    then have "attempt_sound (node_keys st0) a3"
      by (intro attach_evidence_sound [OF p(6)]) (simp split: option.split)
    from push_attempt_ok [OF _ this p(7)] show ?thesis using assms(1) by simp
  qed
  done

lemma plan_node_known:
  assumes "step_ok st0 st" "find_plan st p = Some ns" "node \<in> set ns"
  shows "legacy_node_id node \<in> node_keys st0"
proof -
  have "(p, ns) \<in> set (nrm_plans st)" using assms(2) by (auto simp: find_plan_def dest: map_of_SomeD)
  then have "legacy_node_id node \<in> node_keys st"
    using assms(1,3) by (auto simp: step_ok_def norm_base_def list_all_iff)
  then show ?thesis using step_ok_keys [OF assms(1)] by simp
qed

lemma direct_result_ok:
  assumes "step_ok st0 st" "list_all (\<lambda>n. legacy_node_id n \<in> node_keys st0) ns"
    "direct_result input actor ri k ns entry st = Inr st'"
  shows "step_ok st0 st'"
proof -
  have "legacy_node_id n \<in> node_keys st0" if "List.find P ns = Some n" for P n
    using find_Some_mem [OF that] assms(2) by (simp add: list_all_iff)
  then show ?thesis using assms(1,3) direct_attempt_ok
    by (fastforce simp: direct_result_def Let_def split: option.splits)
qed

lemma direct_plan_ok:
  assumes "step_ok st0 st" "direct_plan input actor ri entry st = Inr st'"
  shows "step_ok st0 st'"
proof (cases "\<exists>p ns items. find_plan st p = Some ns \<and>
    fold_r (direct_result input actor ri (fst entry) ns) (List.enumerate 0 items) st = Inr st'")
  case True
  then obtain p ns items where r: "find_plan st p = Some ns"
    "fold_r (direct_result input actor ri (fst entry) ns) (List.enumerate 0 items) st = Inr st'" by blast
  have "list_all (\<lambda>n. legacy_node_id n \<in> node_keys st0) ns"
    using plan_node_known [OF assms(1) r(1)] by (simp add: list_all_iff)
  then show ?thesis using fold_r_steps [OF r(2) assms(1)] direct_result_ok by blast
next
  case False
  then have "\<exists>c l m. st' = warn c l m st"
    using assms(2) by (auto simp: direct_plan_def Let_def bind_r_eq_Inr split: option.splits)
  then show ?thesis using assms(1) by auto
qed

lemma direct_round_ok:
  assumes "step_ok st0 st" "direct_round input entry st = Inr st'"
  shows "step_ok st0 st'"
  using assms fold_r_steps [OF _ assms(1) direct_plan_ok]
  by (auto simp: direct_round_def bind_r_eq_Inr split: if_splits option.splits)

lemma normalize_direct_attempts_ok:
  assumes "step_ok st0 st" "normalize_direct_attempts input st = Inr st'"
  shows "step_ok st0 st'"
  using assms(2) unfolding normalize_direct_attempts_def
  by (rule fold_r_steps [OF _ assms(1)]) (rule direct_round_ok)

lemma enumerate_snd: "x \<in> set (List.enumerate k xs) \<Longrightarrow> snd x \<in> set xs"
  by (induction xs arbitrary: k) auto

text \<open>A loop whose state has a component that is stepped.\<close>

lemma fold_r_steps_of:
  assumes "fold_r f xs s = Inr s'" "step_ok st0 (\<pi> s)"
    and "\<And>x s s'. step_ok st0 (\<pi> s) \<Longrightarrow> f x s = Inr s' \<Longrightarrow> step_ok st0 (\<pi> s')"
  shows "step_ok st0 (\<pi> s')"
  using assms(1,2) by (rule fold_r_invariant [where P = "\<lambda>s. step_ok st0 (\<pi> s)"]) (rule assms(3))

definition touch_ok :: "norm_state \<Rightarrow> string list \<times> norm_state \<Rightarrow> bool" where
  "touch_ok st0 acc \<longleftrightarrow> set (fst acc) \<subseteq> node_keys st0 \<and> step_ok st0 (snd acc)"

lemma set_fold_insert: "set (fold bs_insert xs ys) = set xs \<union> set ys"
  by (induction xs arbitrary: ys) auto

lemma resolved_known:
  "list_all (\<lambda>n. legacy_node_id n \<in> K) ns \<Longrightarrow> resolve_plan_node ns label = Some n \<Longrightarrow> n \<in> K"
  by (auto simp: resolve_plan_node_def list_all_iff dest: find_Some_mem)

lemma touch_labels_ok:
  assumes "list_all (\<lambda>n. legacy_node_id n \<in> node_keys st0) ns"
  shows "touch_ok st0 acc \<Longrightarrow> touch_ok st0 (fold (touch_proved l ns) labels acc)"
    and "touch_ok st0 acc \<Longrightarrow> touch_ok st0 (fold (touch_unproved l ns) labels acc)"
proof -
  have "touch_ok st0 acc \<Longrightarrow> touch_ok st0 (touch_proved l ns label acc)"
    "touch_ok st0 acc \<Longrightarrow> touch_ok st0 (touch_unproved l ns label acc)" for label acc
    using resolved_known [OF assms, of label]
    by (auto simp: touch_ok_def touch_proved_def touch_unproved_def split: prod.splits option.splits)
  then show "touch_ok st0 acc \<Longrightarrow> touch_ok st0 (fold (touch_proved l ns) labels acc)"
    and "touch_ok st0 acc \<Longrightarrow> touch_ok st0 (fold (touch_unproved l ns) labels acc)"
    by (induction labels arbitrary: acc) simp_all
qed

lemma branch_touched_ok:
  assumes "list_all (\<lambda>n. legacy_node_id n \<in> node_keys st0) ns" "set (map fst m) \<subseteq> node_keys st0" "step_ok st0 st"
  shows "touch_ok st0 (branch_touched l status ns proved unproved m st)"
proof -
  have ids: "set (map legacy_node_id ns) \<subseteq> node_keys st0" using assms(1) by (auto simp: list_all_iff)
  have touched: "touch_ok st0 (fold (touch_unproved l ns) unproved (fold (touch_proved l ns) proved ([], st)))"
    using assms(3) by (intro touch_labels_ok assms(1)) (simp add: touch_ok_def)
  then have partial: "touch_ok st0 (update_partial_branch l status ns proved unproved st)"
    using ids by (auto simp: update_partial_branch_def touch_ok_def set_fold_insert
        intro: set_statuses_ok split: prod.splits)
  show ?thesis
    using partial ids assms(2,3)
    by (auto simp: branch_touched_def touch_ok_def set_fold_insert intro: set_statuses_ok split: prod.splits)
qed

lemma branch_obstruction_keys:
  assumes "branch_obstruction_map l ns branch = Inr m"
  shows "set (map fst m) \<subseteq> legacy_node_id ` set ns"
proof -
  have step: "set (map fst m') \<subseteq> legacy_node_id ` set ns"
    if pre: "set (map fst m) \<subseteq> legacy_node_id ` set ns" and add: "add_branch_obstruction l ns x m = Inr m'" for x m m'
  proof -
    obtain n v where "m' = bt_insert n v m" "list_ex (\<lambda>node. legacy_node_id node = n) ns"
      using add unfolding add_branch_obstruction_def Let_def by (elim bind_rE guard_InrE) auto
    then show ?thesis using pre keys_bt_insert [of n v m] by (auto simp: list_ex_iff)
  qed
  show ?thesis
    using assms fold_r_invariant [where P = "\<lambda>m. set (map fst m) \<subseteq> legacy_node_id ` set ns", OF _ _ step]
    by (force simp: branch_obstruction_map_def bind_r_eq_Inr split: option.splits)
qed

lemma branch_attempt_ok:
  assumes "step_ok st0 st" "snd entry \<in> node_keys st0"
    "branch_attempt input bi actor status summary m entry st = Inr st'"
  shows "step_ok st0 st'"
  using assms(3) unfolding branch_attempt_def Let_def
  apply (elim bind_rE)
  subgoal premises p for i a a2
  proof -
    have "attempt_sound (node_keys st0) a" by (rule attempt_new_sound [OF p(2) assms(2)])
    then have "attempt_sound (node_keys st0) a2"
      using p(3) by (auto split: option.splits if_splits intro: attach_evidence_sound)
    from push_attempt_ok [OF _ this p(4)] show ?thesis using assms(1) by simp
  qed
  done

lemma branch_result_step_ok:
  assumes "step_ok st0 (snd acc)" "branch_result_step input entry acc = Inr acc'"
  shows "step_ok st0 (snd acc')"
proof -
  obtain k st where acc: "acc = (k, st)" by (cases acc)
  consider (skip) c l m where "acc' = (k, warn c l m st)"
    | (run) p ns m l status proved unproved touched st1 actor summary st2 where "find_plan st p = Some ns"
      "branch_obstruction_map l ns (snd entry) = Inr m"
      "branch_touched l status ns proved unproved m st = (touched, st1)"
      "fold_r (branch_attempt input (fst entry) actor status summary m) (List.enumerate 0 touched) st1 = Inr st2"
      "snd acc' = st2"
    using assms(2) unfolding branch_result_step_def acc prod.case Let_def
    by (auto split: option.splits if_splits prod.splits elim!: bind_rE)
  then show ?thesis
  proof cases
    case skip
    then show ?thesis using assms(1) acc by simp
  next
    case run
    have ns: "list_all (\<lambda>n. legacy_node_id n \<in> node_keys st0) ns"
      using plan_node_known [of st0 st p ns] assms(1) acc run(1) by (simp add: list_all_iff)
    have "set (map fst m) \<subseteq> node_keys st0"
      using branch_obstruction_keys [OF run(2)] ns by (auto simp: list_all_iff)
    then have "touch_ok st0 (touched, st1)"
      using branch_touched_ok [OF ns _ , of m st l status proved unproved] assms(1) acc run(3) by simp
    then have t: "set touched \<subseteq> node_keys st0" "step_ok st0 st1" by (simp_all add: touch_ok_def)
    have "snd x \<in> node_keys st0" if "x \<in> set (List.enumerate 0 touched)" for x
      using enumerate_snd [OF that] t(1) by blast
    then have "step_ok st0 st2" using fold_r_steps [OF run(4) t(2)] branch_attempt_ok by blast
    then show ?thesis using run(5) by simp
  qed
qed

lemma normalize_branch_results_ok:
  assumes "step_ok st0 st" "normalize_branch_results input st = Inr acc"
  shows "step_ok st0 (snd acc)"
  using assms(2) unfolding normalize_branch_results_def
  by (rule fold_r_steps_of [where \<pi> = snd]) (use assms(1) branch_result_step_ok in auto)

lemma resolved_canonical: "resolve_canonical_node v st = Some n \<Longrightarrow> n \<in> node_keys st"
  by (auto simp: resolve_canonical_node_def node_keys_def dest!: map_of_SomeD intro: rev_image_eqI)

lemma counterexample_step_ok:
  assumes "step_ok st0 st" "target \<in> node_keys st0" "counterexample_step input target entry st = Inr st'"
  shows "step_ok st0 st'"
proof -
  have node: "value_or (resolve_canonical_node v st) target \<in> node_keys st0" for v
    using assms(2) resolved_canonical [of v st] step_ok_keys [OF assms(1)]
    by (auto simp: value_or_def split: option.split)
  show ?thesis
    using assms(3) unfolding counterexample_step_def Let_def
    apply (elim bind_rE)
    subgoal premises p for actor i a es a3
    proof -
      have "attempt_sound (node_keys st0) a" by (rule attempt_new_sound [OF p(3) node])
      then have "attempt_sound (node_keys st0) a3"
        by (intro attach_evidence_sound [OF p(5)]) simp
      from push_attempt_ok [OF _ this p(6)] show ?thesis using assms(1) by simp
    qed
    done
qed

lemma normalize_counterexamples_ok:
  assumes "step_ok st0 st" "target \<in> node_keys st0" "normalize_counterexamples input target st = Inr st'"
  shows "step_ok st0 st'"
  using assms(3) unfolding normalize_counterexamples_def
  by (rule fold_r_steps [OF _ assms(1)]) (rule counterexample_step_ok [OF _ assms(2)])

lemma assess_reference_norm:
  "assess_reference input l r acc = Inr acc' \<Longrightarrow> ref_norm (fst acc') = ref_norm (fst acc)"
  by (auto simp: assess_reference_def split: prod.splits if_splits)

lemma assess_references_norm:
  assumes "fold_r (assess_reference input l) rs acc = Inr acc'"
  shows "ref_norm (fst acc') = ref_norm (fst acc)"
  using assms by (rule fold_r_invariant [where P = "\<lambda>a. ref_norm (fst a) = ref_norm (fst acc)"])
    (auto dest: assess_reference_norm)

lemma retrieval_assessment_ok:
  assumes "step_ok st0 (ref_norm rs0)" "target \<in> node_keys st0"
    "retrieval_assessment_step input target k event rs0 = Inr rs'"
  shows "step_ok st0 (ref_norm rs')"
  using assms(3) unfolding retrieval_assessment_step_def Let_def
  apply (elim bind_rE case_prod_InrE guard_InrE)
  subgoal premises p for refs acc rs evidence actor i a a3 st1
  proof -
    have rs: "ref_norm rs = ref_norm rs0" using assess_references_norm [OF p(2)] p(3) by simp
    have "value_or (resolve_canonical_node v (ref_norm rs)) target \<in> node_keys st0" for v
      using assms(2) resolved_canonical [of v "ref_norm rs0"] step_ok_keys [OF assms(1)] unfolding rs
      by (auto simp: value_or_def split: option.split)
    from attempt_new_sound [OF p(7) this] have "attempt_sound (node_keys st0) a" .
    then have "attempt_sound (node_keys st0) a3" by (intro attach_evidence_sound [OF p(8)]) simp
    from push_attempt_ok [OF _ this p(9)] have "step_ok st0 st1" using assms(1) by (simp add: rs)
    then show ?thesis using p(10) by auto
  qed
  done

lemma discover_references_ok:
  "step_ok st0 (ref_norm (fst acc)) \<Longrightarrow> step_ok st0 (ref_norm (fst (fold (discover_reference input l) found acc)))"
proof (induction found arbitrary: acc)
  case (Cons v vs)
  have "step_ok st0 (ref_norm (fst (discover_reference input l v acc)))"
    using Cons.prems by (auto simp: discover_reference_def split: prod.splits option.splits if_splits)
  then show ?case using Cons.IH by simp
qed simp

lemma external_step_ok:
  assumes "step_ok st0 (ref_norm rs0)" "target \<in> node_keys st0" "external_step input target k event rs0 = Inr rs'"
  shows "step_ok st0 (ref_norm rs')"
proof (cases "array_field event ''results''")
  case None
  then show ?thesis using assms(1,3) by (auto simp: external_step_def Let_def)
next
  case (Some found)
  obtain rs novel where rs: "fold (discover_reference input (at_index ''events'' k @ ''.results'')) found
      (rs0\<lparr>ref_counts := count_event (ref_counts rs0)\<rparr>, []) = (rs, novel)" by fastforce
  have ok: "step_ok st0 (ref_norm rs)"
    using discover_references_ok [of st0 "(rs0\<lparr>ref_counts := count_event (ref_counts rs0)\<rparr>, [])"
        input "at_index ''events'' k @ ''.results''" found] assms(1) rs by simp
  show ?thesis
    using assms(3) unfolding external_step_def Let_def Some option.case rs prod.case
    apply (elim bind_rE)
    subgoal premises p for _ actor i a a3 st1
    proof -
      have "attempt_sound (node_keys st0) a" by (rule attempt_new_sound [OF p(4) assms(2)])
      then have "attempt_sound (node_keys st0) a3" by (intro attach_evidence_sound [OF p(5)]) simp
      from push_attempt_ok [OF _ this p(6)] have "step_ok st0 st1" using ok by simp
      then show ?thesis using p(7) by auto
    qed
    done
qed

lemma retrieval_step_ok:
  assumes "step_ok st0 (ref_norm rs)" "target \<in> node_keys st0" "retrieval_step input target entry rs = Inr rs'"
  shows "step_ok st0 (ref_norm rs')"
proof -
  define t where "t = value_or (str_field (snd entry) ''event_type'') []"
  have run: "(if t = ''retrieval_assessment'' then retrieval_assessment_step input target (fst entry) (snd entry) rs
      else if \<not> starts_with ''external_'' t then Inr rs
      else external_step input target (fst entry) (snd entry) rs) = Inr rs'"
    using assms(3) unfolding retrieval_step_def t_def Let_def .
  show ?thesis
  proof (cases "t = ''retrieval_assessment''")
    case True
    then have "retrieval_assessment_step input target (fst entry) (snd entry) rs = Inr rs'" using run by simp
    then show ?thesis by (rule retrieval_assessment_ok [OF assms(1,2)])
  next
    case False
    then show ?thesis
      using run external_step_ok [OF assms(1,2)] assms(1) by (cases "starts_with ''external_'' t") simp_all
  qed
qed

lemma normalize_retrieval_events_ok:
  assumes "step_ok st0 st" "target \<in> node_keys st0" "normalize_retrieval_events input target st = Inr acc"
  shows "step_ok st0 (snd acc)"
proof -
  obtain rs where rs: "fold_r (retrieval_step input target) (List.enumerate 0 (in_events input))
      \<lparr>seen_refs = {}, assessed_refs = {}, ref_counts = no_counts, ref_norm = st\<rparr> = Inr rs" "snd acc = ref_norm rs"
    using assms(3) by (auto simp: normalize_retrieval_events_def)
  have "step_ok st0 (ref_norm rs)"
    using rs(1)
  proof (rule fold_r_steps_of [where \<pi> = ref_norm])
    show "step_ok st0 (ref_norm \<lparr>seen_refs = {}, assessed_refs = {}, ref_counts = no_counts, ref_norm = st\<rparr>)"
      using assms(1) by simp
  qed (rule retrieval_step_ok [OF _ assms(2)])
  then show ?thesis using rs(2) by simp
qed

lemma failure_attempt_ok:
  assumes "step_ok st0 st" "snd entry \<in> node_keys st0"
    "failure_attempt input k record_id actor b summary entry st = Inr st'"
  shows "step_ok st0 st'"
  using assms(3) unfolding failure_attempt_def Let_def
  apply (elim bind_rE)
  subgoal premises p for i a
  proof -
    have "attempt_sound (node_keys st0) a" by (rule attempt_new_sound [OF p(2) assms(2)])
    then have "attempt_sound (node_keys st0) (with_position (in_round_index input) (nrm_sequence (next_sequence st))
        (with_obstruction b a))" by simp
    from push_attempt_ok [OF _ this p(3)] show ?thesis using assms(1) by simp
  qed
  done

lemma known_legacy_nodes:
  assumes "traverse_r (known_legacy_node l st) ts = Inr ns"
  shows "set ns \<subseteq> node_keys st"
proof
  fix n assume "n \<in> set ns"
  then obtain t where "known_legacy_node l st t = Inr n" using traverse_r_set [OF assms] by metis
  then have "map_of (nrm_nodes st) n \<noteq> None"
    by (auto simp: known_legacy_node_def bind_r_eq_Inr split: if_splits)
  then show "n \<in> node_keys st" by (auto simp: node_keys_def map_of_eq_None_iff)
qed

lemma failure_step_ok:
  assumes "step_ok st0 (snd acc)" "target \<in> node_keys st0" "failure_step input target entry acc = Inr acc'"
  shows "step_ok st0 (snd acc')"
proof -
  obtain k st where acc: "acc = (k, st)" by (cases acc)
  show ?thesis
  proof (cases "extract_summary (snd entry)")
    case None
    then show ?thesis using assms(1,3) by (auto simp: failure_step_def Let_def acc)
  next
    case (Some summary)
    show ?thesis
      using assms(3) unfolding failure_step_def Let_def Some option.case acc prod.case
      apply (elim bind_rE)
      subgoal premises p for actor affected ns
      proof -
        have "set ns \<subseteq> node_keys st0"
          using p(3) assms(1,2) known_legacy_nodes step_ok_keys [OF assms(1)] acc
          by (fastforce split: if_splits)
        then have "snd x \<in> node_keys st0" if "x \<in> set (List.enumerate 0 ns)" for x
          using enumerate_snd [OF that] by blast
        moreover obtain st1 where st1: "acc' = (k, st1)"
          "fold_r (failure_attempt input (fst entry) (str_field (snd entry) ''record_id'') actor
            (value_or (Option.bind (str_field (snd entry) ''obstruction_class'') obstruction_parse) Unknown) summary)
            (List.enumerate 0 ns) st = Inr st1"
          using p(4) by auto
        ultimately have "step_ok st0 st1"
          using fold_r_steps [OF st1(2), of st0] failure_attempt_ok assms(1) unfolding acc snd_conv by blast
        then show ?thesis using st1(1) by simp
      qed
      done
  qed
qed

lemma normalize_failures_ok:
  assumes "step_ok st0 st" "target \<in> node_keys st0" "normalize_failures input target st = Inr acc"
  shows "step_ok st0 (snd acc)"
  using assms(3) unfolding normalize_failures_def
proof (rule fold_r_steps_of [where \<pi> = snd])
  show "step_ok st0 (snd (0, st))" using assms(1) by simp
qed (rule failure_step_ok [OF _ assms(2)])

section \<open>Decisions\<close>

text \<open>A decision under construction, with bounds for its three lists.\<close>

definition partial_decision :: "norm_state \<Rightarrow> nat \<Rightarrow> nat \<Rightarrow> nat \<Rightarrow> research_decision \<times> norm_state \<Rightarrow> bool" where
  "partial_decision st0 i j k acc \<longleftrightarrow> (case acc of (d, st) \<Rightarrow> step_ok st0 st \<and>
     set (preserved_node_ids d @ focus_list d) \<subseteq> node_keys st0 \<and>
     set (superseded_plan_ids d) \<subseteq> set (nrm_active st0) \<and>
     is_ok (validate_text ''decision.reason'' (decision_reason d) max_reason_bytes False) \<and>
     length (superseded_plan_ids d) \<le> i \<and> length (preserved_node_ids d) \<le> j \<and> length (new_constraints d) \<le> k)"

lemma partial_decision_sound:
  "partial_decision st0 i j k (d, st) \<Longrightarrow> i \<le> max_decision_plan_ids \<Longrightarrow> j \<le> max_decision_node_ids \<Longrightarrow>
     k \<le> max_decision_constraints \<Longrightarrow> decision_sound (node_keys st0) (set (nrm_active st0)) d \<and> step_ok st0 st"
  by (auto simp: partial_decision_def decision_sound_def)

lemma decision_new_partial:
  "decision_new i reason = Inr d \<Longrightarrow> step_ok st0 st \<Longrightarrow> partial_decision st0 0 0 0 (with_event_seq e d, st)"
  by (auto simp: decision_new_def bind_r_eq_Inr partial_decision_def with_event_seq_def focus_list_def
      validate_text_trim)

lemma step_ok_active: "step_ok st0 st \<Longrightarrow> nrm_active st = nrm_active st0"
  by (simp add: step_ok_def keeps_def)

lemma supersede_partial:
  "partial_decision st0 i j k acc \<Longrightarrow> partial_decision st0 (i + length ps) j k (fold (supersede_known l) ps acc)"
proof (induction ps arbitrary: acc i)
  case (Cons p ps)
  have "partial_decision st0 (Suc i) j k (supersede_known l p acc)"
    using Cons.prems step_ok_active [of st0 "snd acc"] length_bs_insert [of p "superseded_plan_ids (fst acc)"]
    by (auto simp: partial_decision_def supersede_known_def supersede_plan_def focus_list_def split: prod.splits)
  from Cons.IH [OF this] show ?case by simp
qed simp

lemma known_node_key: "step_ok st0 st \<Longrightarrow> map_of (nrm_nodes st) n = Some x \<Longrightarrow> n \<in> node_keys st0"
  using step_ok_keys [of st0 st] by (metis domI dom_map_of_conv_image_fst node_keys_def)

lemma preserve_partial:
  "partial_decision st0 i j k acc \<Longrightarrow> partial_decision st0 i (j + length ns) k (fold (preserve_known l) ns acc)"
proof (induction ns arbitrary: acc j)
  case (Cons n ns)
  have "partial_decision st0 i (Suc j) k (preserve_known l n acc)"
    using Cons.prems known_node_key [of st0 "snd acc" n] length_bs_insert [of n "preserved_node_ids (fst acc)"]
    by (auto simp: partial_decision_def preserve_known_def preserve_node_def focus_list_def split: prod.splits)
  from Cons.IH [OF this] show ?case by simp
qed simp

lemma focus_partial:
  "partial_decision st0 i j k acc \<Longrightarrow> partial_decision st0 i j k (focus_known l focus acc)"
  using known_node_key [of st0 "snd acc"]
  by (auto simp: partial_decision_def focus_known_def focus_on_def focus_list_def split: prod.splits option.splits)

lemma constraint_partial:
  assumes "fold_r add_constraint cs d = Inr d'" "partial_decision st0 i j k (d, st)"
  shows "partial_decision st0 i j (k + length cs) (d', st)"
  using assms
proof (induction cs arbitrary: d k)
  case (Cons c cs)
  from Cons.prems(1) obtain d1 where d1: "add_constraint c d = Inr d1" "fold_r add_constraint cs d1 = Inr d'"
    by (auto simp: bind_r_eq_Inr)
  have "partial_decision st0 i j (Suc k) (d1, st)"
    using d1(1) Cons.prems(2) length_bs_insert [of "trim c" "new_constraints d"]
    by (auto simp: add_constraint_def bind_r_eq_Inr partial_decision_def focus_list_def)
  from Cons.IH [OF d1(2) this] show ?case by simp
qed simp

lemma legacy_texts_length: "legacy_texts l items = Inr xs \<Longrightarrow> length xs = length items"
  unfolding legacy_texts_def by (drule traverse_r_length) simp

lemma bounded_optional_length: "bounded_optional_string_array v l bound = Inr xs \<Longrightarrow> length xs \<le> bound"
  by (auto simp: bounded_optional_string_array_def bind_r_eq_Inr dest: legacy_texts_length
      split: option.splits if_splits)

lemma decision_step_ok:
  assumes "step_ok st0 (snd acc)" "decision_step input entry acc = Inr acc'"
  shows "step_ok st0 (snd acc')"
proof -
  obtain k st where acc: "acc = (k, st)" by (cases acc)
  show ?thesis
  proof (cases "extract_summary (snd entry)")
    case None
    then show ?thesis using assms by (auto simp: decision_step_def Let_def acc)
  next
    case (Some reason)
    show ?thesis
      using assms(2) unfolding decision_step_def Let_def Some option.case acc prod.case
      apply (elim bind_rE case_prod_InrE)
      subgoal premises p for i d plans preserved d2 st2 cs d3 st3
      proof -
        have "partial_decision st0 0 0 0 (with_event_seq (nrm_sequence (next_sequence st)) d, next_sequence st)"
          using decision_new_partial [OF p(2)] assms(1) acc by simp
        then have "partial_decision st0 (0 + length plans) (0 + length preserved) 0
            (focus_known (at_index ''big_decisions'' (fst entry)) (str_field (snd entry) ''selected_focus_node_id'')
              (fold (preserve_known (at_index ''big_decisions'' (fst entry))) preserved
                (fold (supersede_known (at_index ''big_decisions'' (fst entry))) plans
                  (with_event_seq (nrm_sequence (next_sequence st)) d, next_sequence st))))"
          by (intro focus_partial preserve_partial supersede_partial)
        then have "partial_decision st0 (0 + length plans) (0 + length preserved) 0 (d2, st2)"
          unfolding p(5) .
        from constraint_partial [OF p(7) this]
        have "partial_decision st0 (length plans) (length preserved) (length cs) (d3, st2)" by simp
        then have "decision_sound (node_keys st0) (set (nrm_active st0)) d3 \<and> step_ok st0 st2"
          using bounded_optional_length [OF p(3)] bounded_optional_length [OF p(4)] bounded_optional_length [OF p(6)]
          by (rule partial_decision_sound)
        then have "step_ok st0 st3" using push_decision_ok [OF _ _ p(8)] by blast
        then show ?thesis using p(9) by auto
      qed
      done
  qed
qed

lemma normalize_decisions_ok:
  assumes "step_ok st0 st" "normalize_decisions input st = Inr acc"
  shows "step_ok st0 (snd acc)"
  using assms(2) unfolding normalize_decisions_def
proof (rule fold_r_steps_of [where \<pi> = snd])
  show "step_ok st0 (snd (0, st))" using assms(1) by simp
qed (rule decision_step_ok)

lemma legacy_verification_step_ok:
  assumes "step_ok st0 (snd acc)" "target \<in> node_keys st0" "legacy_verification_step input target actor entry acc = Inr acc'"
  shows "step_ok st0 (snd acc')"
proof -
  obtain k st where acc: "acc = (k, st)" by (cases acc)
  consider (same) "acc' = (k, st)" | (skip) j c l m where "acc' = (j, warn c l m st)"
    | (run) i summary a st2 where "attempt_new i target actor MethodRepair OutcomeFailed summary = Inr a"
      "push_attempt (with_position (in_round_index input) (nrm_sequence (next_sequence st)) (with_obstruction Unknown a))
        (next_sequence st) = Inr st2" "acc' = (k, st2)"
    using assms(3) unfolding legacy_verification_step_def Let_def acc prod.case
    by (auto split: if_splits elim!: bind_rE)
  then show ?thesis
  proof cases
    case same then show ?thesis using assms(1) acc by simp
  next
    case skip then show ?thesis using assms(1) acc by simp
  next
    case run
    have "attempt_sound (node_keys st0) (with_position (in_round_index input) (nrm_sequence (next_sequence st))
        (with_obstruction Unknown a))" using attempt_new_sound [OF run(1) assms(2)] by simp
    from push_attempt_ok [OF _ this run(2)] show ?thesis using assms(1) acc run(3) by simp
  qed
qed

lemma normalize_verification_ok:
  assumes "step_ok st0 st" "target \<in> node_keys st0" "normalize_verification_reports input target st = Inr acc"
  shows "step_ok st0 (snd acc)"
proof -
  obtain actor where "fold_r (legacy_verification_step input target actor)
      (List.enumerate 0 (in_verification_reports input)) (0, st) = Inr acc"
    using assms(3) unfolding normalize_verification_reports_def by (rule bind_rE)
  then show ?thesis
  proof (rule fold_r_steps_of [where \<pi> = snd])
    show "step_ok st0 (snd (0, st))" using assms(1) by simp
  qed (rule legacy_verification_step_ok [OF _ assms(2)])
qed

lemma fold_later_node: "fold later_node ns best = Some n \<Longrightarrow> n \<in> set ns \<or> best = Some n"
  by (induction ns arbitrary: best) (fastforce simp: later_node_def split: option.splits if_splits)+

lemma join_goal_known: "join_goal st p = Some n \<Longrightarrow> n \<in> snd ` set (nrm_nodes st)"
  unfolding join_goal_def by (drule fold_later_node) auto

lemma focus_join_partial:
  assumes "partial_decision st0 i j k acc" shows "partial_decision st0 i j k (focus_join selected acc)"
proof -
  obtain d st where acc: "acc = (d, st)" by (cases acc)
  have base: "norm_base st" "step_ok st0 st" using assms by (auto simp: acc partial_decision_def step_ok_def)
  have "node_id n \<in> node_keys st0" if jg: "join_goal st p = Some n" for p n
  proof -
    obtain i where i: "(i, n) \<in> set (nrm_nodes st)" using join_goal_known [OF jg] by auto
    then have "node_id n = i" using base(1) by (auto simp: norm_base_def list_all_iff node_sound_def)
    then show ?thesis using i step_ok_keys [OF base(2)] by (force simp: node_keys_def)
  qed
  then show ?thesis using assms
    by (auto simp: acc partial_decision_def focus_join_def focus_on_def focus_list_def split: option.splits)
qed

lemma normalize_join_ok:
  assumes "step_ok st0 st" "normalize_join_decision input st = Inr st'"
  shows "step_ok st0 st'"
proof (cases "option_filter (\<lambda>obj. obj \<noteq> []) (as_object (in_join_result input))")
  case None
  then show ?thesis using assms by (simp add: normalize_join_decision_def)
next
  case (Some obj)
  show ?thesis
    using assms(2) unfolding normalize_join_decision_def Some option.case Let_def
    apply (elim bind_rE case_prod_InrE)
    subgoal premises p for i d d1 st3
    proof -
      have "partial_decision st0 0 0 0 (focus_join (selected_plan input obj) (with_event_seq e d,
          if b then warn c l m (next_sequence st) else next_sequence st))" for e b c l m
        by (rule focus_join_partial, rule decision_new_partial [OF p(2)]) (use assms(1) in simp)
      then have "partial_decision st0 0 0 0 (d1, st3)" unfolding p(3) [symmetric] .
      then have "decision_sound (node_keys st0) (set (nrm_active st0)) d1 \<and> step_ok st0 st3"
        by (rule partial_decision_sound) simp_all
      then show ?thesis using push_decision_ok [OF _ _ p(4)] by blast
    qed
    done
qed

end
