(* ===== verification/Legacy_Sound.thy ===== *)
theory Legacy_Sound
  imports Legacy_Laws Research_Projection
begin

text \<open>
  The nodes the active plans give, and the end of the matter: what the projector can still refuse in a
  normalized snapshot.
\<close>

section \<open>The nodes of the plans\<close>

lemma set_bt_insert_new: "map_of m k = None \<Longrightarrow> set (bt_insert k v m) = insert (k, v) (set m)"
  by (induction k v m rule: bt_insert.induct) (auto split: if_splits)

lemma attempt_sound_mono: "attempt_sound K a \<Longrightarrow> K \<subseteq> K' \<Longrightarrow> attempt_sound K' a"
  by (auto simp: attempt_sound_def)

lemma decision_sound_mono: "decision_sound K P d \<Longrightarrow> K \<subseteq> K' \<Longrightarrow> P \<subseteq> P' \<Longrightarrow> decision_sound K' P' d"
  by (auto simp: decision_sound_def)

definition placed :: "norm_state \<Rightarrow> string set" where
  "placed st = {p. Some p \<in> snd ` set (node_frame st)}"

lemma insert_node_base:
  assumes "norm_base st" "node_sound (nrm_active st) (node_id n, n)" "insert_node n st = Inr st'"
  shows "norm_base st'" "node_keys st' = insert (node_id n) (node_keys st)" "nrm_active st' = nrm_active st"
    "nrm_plans st' = nrm_plans st" "placed st' = {p. plan_id n = Some p} \<union> placed st"
proof -
  have st': "st' = st\<lparr>nrm_nodes := bt_insert (node_id n) n (nrm_nodes st)\<rparr>" "map_of (nrm_nodes st) (node_id n) = None"
    "length (nrm_nodes st') \<le> max_research_nodes"
    using assms(3) by (auto simp: insert_node_def Let_def bind_r_eq_Inr enforce_count_def split: if_splits)
  have ins: "set (nrm_nodes st') = insert (node_id n, n) (set (nrm_nodes st))"
    by (simp add: st'(1) set_bt_insert_new [OF st'(2)])
  show keys: "node_keys st' = insert (node_id n) (node_keys st)" by (simp add: node_keys_def ins)
  show "nrm_active st' = nrm_active st" "nrm_plans st' = nrm_plans st" by (simp_all add: st'(1))
  show "placed st' = {p. plan_id n = Some p} \<union> placed st"
    by (auto simp: placed_def node_frame_def ins image_iff)
  have sub: "node_keys st \<subseteq> node_keys st'" using keys by blast
  have "list_all (\<lambda>(p, ns). list_all (\<lambda>m. legacy_node_id m \<in> node_keys st') ns) (nrm_plans st)"
    using assms(1) sub by (fastforce simp: norm_base_def list_all_iff)
  moreover have "list_all (attempt_sound (node_keys st')) (nrm_attempts st)"
    "list_all (decision_sound (node_keys st') (set (nrm_active st))) (nrm_decisions st)"
    using assms(1) sub attempt_sound_mono decision_sound_mono by (auto simp: norm_base_def list_all_iff)
  moreover have "list_all (node_sound (nrm_active st)) (nrm_nodes st')"
    using assms(1,2) by (simp add: list_all_iff ins norm_base_def)
  moreover have "sorted_keys (nrm_nodes st')" using assms(1) by (simp add: st'(1) norm_base_def sorted_bt_insert)
  moreover have "''target'' \<in> node_keys st'" using assms(1) sub by (auto simp: norm_base_def)
  ultimately show "norm_base st'"
    using assms(1) st'(3) unfolding norm_base_def by (simp add: st'(1))
qed

text \<open>What holds between two subgoals of the plan \<open>p\<close>.\<close>

definition plan_ok :: "string list \<Rightarrow> string \<Rightarrow> plan_acc \<Rightarrow> bool" where
  "plan_ok A p acc \<longleftrightarrow> (case acc of (ids, ns, st) \<Rightarrow> norm_base st \<and> nrm_active st = A \<and> p \<in> set A \<and>
     list_all (\<lambda>n. legacy_node_id n \<in> node_keys st) ns \<and> (ns \<noteq> [] \<longrightarrow> p \<in> placed st) \<and>
     set (nrm_active st) - {p} \<subseteq> placed st)"

lemma screened_status_ok:
  assumes "screened_status debug progress p subgoal l st = (s, st')"
  shows "s \<noteq> Superseded" "norm_base st' = norm_base st" "nrm_active st' = nrm_active st"
    "node_keys st' = node_keys st" "placed st' = placed st"
proof -
  have "s \<noteq> Superseded \<and> (st' = st \<or> (\<exists>c l m. st' = warn c l m st))"
    using assms by (auto simp: screened_status_def normalize_screening_status_def split: option.splits if_splits)
  moreover have "norm_base (warn c l m st) = norm_base st" "node_keys (warn c l m st) = node_keys st"
    "placed (warn c l m st) = placed st" for c l m
    using step_ok_warn [of st c l m st]
    by (simp_all add: step_ok_def keeps_def node_frame_def node_keys_def placed_def)
  ultimately show "s \<noteq> Superseded" "norm_base st' = norm_base st" "nrm_active st' = nrm_active st"
    "node_keys st' = node_keys st" "placed st' = placed st"
    by auto
qed

lemma combined_node_id_neq: "combined_node_id p subgoal = Inr n \<Longrightarrow> n \<noteq> ''target''"
  by (auto simp: combined_node_id_def identifier_parse_def bind_r_eq_Inr split: if_splits)

lemma add_dependencies:
  assumes "fold_r (add_legacy_dependency l) ts (seen, n) = Inr (seen', n')"
  shows "\<exists>ds. n' = n\<lparr>dependencies := ds\<rparr> \<and> length ds \<le> length (dependencies n) + length ts"
  using assms
proof (induction ts arbitrary: seen n)
  case Nil then show ?case by (auto intro: exI [of _ "dependencies n"])
next
  case (Cons t ts)
  then obtain acc where acc: "add_legacy_dependency l t (seen, n) = Inr acc"
    "fold_r (add_legacy_dependency l) ts acc = Inr (seen', n')" by (auto simp: bind_r_eq_Inr)
  then obtain d where "acc = (insert d seen, with_dependency d n)"
    by (auto simp: add_legacy_dependency_def bind_r_eq_Inr split: if_splits)
  then have "fold_r (add_legacy_dependency l) ts (insert d seen, with_dependency d n) = Inr (seen', n')"
    using acc(2) by simp
  from Cons.IH [OF this] obtain ds where ds: "n' = n\<lparr>dependencies := ds\<rparr>"
    "length ds \<le> length (bs_insert d (dependencies n)) + length ts" by (auto simp: with_dependency_def)
  then show ?case using length_bs_insert [of d "dependencies n"] by (intro exI [of _ ds]) simp
qed

lemma node_new_fields:
  "node_new i stmt k = Inr n \<Longrightarrow> node_id n = i \<and> revision n = 1 \<and> node_kind n = k \<and> dependencies n = [] \<and>
     is_ok (validate_text ''node.statement'' (statement n) max_statement_bytes False)"
  by (auto simp: node_new_def bind_r_eq_Inr validate_text_trim)

lemma insert_plan_node:
  assumes "plan_ok A p (ids, ns, st)" "screened_status debug progress p subgoal l st = (s, st1)"
    "node_id n \<noteq> ''target''" "revision n = 1" "node_kind n \<noteq> KindTarget" "plan_id n = Some p" "node_status n = s"
    "is_ok (validate_text ''node.statement'' (statement n) max_statement_bytes False)"
    "length (dependencies n) \<le> max_node_dependencies" "insert_node n st1 = Inr st2"
  shows "plan_ok A p (ids', ns @ [\<lparr>legacy_node_id = node_id n, legacy_subgoal_id = g, legacy_statement = t\<rparr>], st2)"
proof -
  have ok: "norm_base st" "p \<in> set (nrm_active st)" "nrm_active st = A" "list_all (\<lambda>n. legacy_node_id n \<in> node_keys st) ns"
    "set (nrm_active st) - {p} \<subseteq> placed st" using assms(1) by (auto simp: plan_ok_def)
  note sc = screened_status_ok [OF assms(2)]
  have "node_sound (nrm_active st1) (node_id n, n)"
    using assms sc ok(2) by (simp add: node_sound_def)
  from insert_node_base [OF _ this assms(10)] show ?thesis
    using ok sc assms(6) by (auto simp: plan_ok_def list_all_iff)
qed

definition plan_started :: "string list \<Rightarrow> string \<Rightarrow> plan_acc \<Rightarrow> bool" where
  "plan_started A p acc \<longleftrightarrow> plan_ok A p acc \<and> fst (snd acc) \<noteq> []"

lemma add_canonical_subgoal_ok:
  assumes "plan_ok A p acc" "add_canonical_subgoal debug input progress l pli p entry acc = Inr acc'"
  shows "plan_started A p acc'"
proof -
  obtain ids ns st where acc: "acc = (ids, ns, st)" by (cases acc)
  have st: "plan_ok A p (ids, ns, st)" using assms(1) acc by simp
  show ?thesis
    using assms(2) unfolding add_canonical_subgoal_def acc prod.case Let_def
    apply (elim bind_rE guard_InrE case_prod_InrE)
    subgoal premises q for obj sg t i i' stmt k critical depends fresh s st1 dep seen n st2
    proof -
      have id: "i \<noteq> ''target''" using q(6,7) combined_node_id_neq by blast
      have "k \<noteq> KindTarget" using q(9) by (auto simp: option_filter_Some ok_or_def split: option.splits)
      moreover obtain ds where ds: "n = (with_order (in_round_index input) (u32_or_max (pli + 1))
          (u32_or_max (fst entry + 1)) (with_status s (with_declared_critical critical (with_plan p fresh))))
            \<lparr>dependencies := ds\<rparr>"
        "length ds \<le> length (dependencies fresh) + length depends"
        using add_dependencies [OF q(14) [unfolded q(15)]]
        by (auto simp: with_order_def with_status_def with_declared_critical_def with_plan_def)
      note f = node_new_fields [OF q(12)]
      note n = ds(1) [unfolded with_order_def with_status_def with_declared_critical_def with_plan_def]
      have len: "length ds \<le> max_node_dependencies" using ds(2) f bounded_optional_length [OF q(11)] by simp
      have "plan_ok A p (insert sg ids,
          ns @ [\<lparr>legacy_node_id = node_id n, legacy_subgoal_id = sg, legacy_statement = stmt\<rparr>], st2)"
        by (rule insert_plan_node [OF st q(13) _ _ _ _ _ _ _ q(16)])
          (use f id calculation len in \<open>simp_all add: n\<close>)
      moreover have "node_id n = i" using f by (simp add: n)
      ultimately show ?thesis using q(17) by (auto simp: plan_started_def)
    qed
    done
qed

lemma add_legacy_subgoal_ok:
  assumes "plan_ok A p acc" "add_legacy_subgoal debug input progress l pli p entry acc = Inr acc'"
  shows "plan_started A p acc'"
proof -
  obtain ids ns st where acc: "acc = (ids, ns, st)" by (cases acc)
  obtain j sg stmt where entry: "entry = (j, sg, stmt)" by (cases entry)
  have st: "plan_ok A p (ids, ns, st)" using assms(1) acc by simp
  show ?thesis
    using assms(2) unfolding add_legacy_subgoal_def acc entry prod.case Let_def
    apply (elim bind_rE guard_InrE case_prod_InrE)
    subgoal premises q for i s st1 fresh st2
    proof -
      note f = node_new_fields [OF q(4)]
      have "plan_ok A p (insert sg ids,
          ns @ [\<lparr>legacy_node_id = node_id (with_order (in_round_index input) (u32_or_max (pli + 1))
            (u32_or_max (j + 1)) (with_status s (with_plan p fresh))), legacy_subgoal_id = sg,
            legacy_statement = stmt\<rparr>], st2)"
        by (rule insert_plan_node [OF st q(3) _ _ _ _ _ _ _ q(5)])
          (use f combined_node_id_neq [OF q(2)] in \<open>simp_all add: with_order_def with_status_def with_plan_def\<close>)
      then show ?thesis using q(6) f by (auto simp: plan_started_def with_order_def with_status_def with_plan_def)
    qed
    done
qed

lemma fold_r_started:
  assumes "fold_r f xs acc = Inr acc'" "xs \<noteq> []" "plan_ok A p acc"
    and "\<And>x acc acc'. plan_ok A p acc \<Longrightarrow> f x acc = Inr acc' \<Longrightarrow> plan_started A p acc'"
  shows "plan_started A p acc'"
  using assms(1-3)
proof (induction xs arbitrary: acc)
  case (Cons x xs)
  then obtain acc1 where acc1: "f x acc = Inr acc1" "fold_r f xs acc1 = Inr acc'" by (auto simp: bind_r_eq_Inr)
  have "plan_started A p acc1" by (rule assms(4) [OF Cons.prems(3) acc1(1)])
  then show ?case using Cons.IH [OF acc1(2)] acc1(2) by (cases xs) (auto simp: plan_started_def)
qed simp

lemma required_array_nonempty:
  assumes "required_string_array v l b = Inr xs" shows "xs \<noteq> []"
proof -
  obtain items where items: "items \<noteq> []" "legacy_texts l items = Inr xs"
    using assms by (auto simp: required_string_array_def bind_r_eq_Inr ok_or_def option_filter_Some
        split: option.splits if_splits)
  then show ?thesis using legacy_texts_length [OF items(2)] by auto
qed

lemma plan_subgoal_nodes_ok:
  assumes "plan_ok A p ({}, [], st)" "plan_subgoal_nodes debug input progress l pli p obj st = Inr acc"
  shows "plan_started A p acc"
proof (cases "Option.bind (obj_get obj ''research_subgoals'') as_array")
  case (Some subgoals)
  then have "fold_r (add_canonical_subgoal debug input progress l pli p) (List.enumerate 0 subgoals) ({}, [], st) = Inr acc"
    "List.enumerate 0 subgoals \<noteq> []"
    using assms(2) by (auto simp: plan_subgoal_nodes_def bind_r_eq_Inr enumerate_eq_zip split: if_splits)
  then show ?thesis using assms(1) add_canonical_subgoal_ok by (rule fold_r_started)
next
  case None
  then obtain stmts ids where q:
    "required_string_array (obj_get obj ''subgoals'') (l @ ''.subgoals'') max_node_dependencies = Inr stmts"
    "required_string_array (obj_get obj ''subgoal_ids'') (l @ ''.subgoal_ids'') max_node_dependencies = Inr ids"
    "length stmts = length ids"
    "fold_r (add_legacy_subgoal debug input progress l pli p) (List.enumerate 0 (zip ids stmts)) ({}, [], st) = Inr acc"
    using assms(2) by (auto simp: plan_subgoal_nodes_def bind_r_eq_Inr split: if_splits)
  have "List.enumerate 0 (zip ids stmts) \<noteq> []"
    using required_array_nonempty [OF q(1)] required_array_nonempty [OF q(2)] by (cases ids; cases stmts) auto
  with q(4) show ?thesis using assms(1) add_legacy_subgoal_ok by (rule fold_r_started)
qed

text \<open>Between two plans: every active plan has a node.\<close>

definition plans_ok :: "norm_state \<Rightarrow> bool" where
  "plans_ok st \<longleftrightarrow> norm_base st \<and> set (nrm_active st) \<subseteq> placed st"

lemma node_sound_mono: "node_sound ps e \<Longrightarrow> set ps \<subseteq> set ps' \<Longrightarrow> node_sound ps' e"
  by (auto simp: node_sound_def split: prod.splits option.splits)

lemma activate_ok:
  assumes "plans_ok st"
  shows "plan_ok (bs_insert p (nrm_active st)) p ({}, [], st\<lparr>nrm_active := bs_insert p (nrm_active st)\<rparr>)"
proof -
  let ?st = "st\<lparr>nrm_active := bs_insert p (nrm_active st)\<rparr>"
  have same: "node_keys ?st = node_keys st" "placed ?st = placed st"
    by (simp_all add: node_keys_def placed_def node_frame_def)
  have "list_all (node_sound (nrm_active ?st)) (nrm_nodes st)"
    using assms node_sound_mono [of "nrm_active st" _ "nrm_active ?st"]
    by (auto simp: plans_ok_def norm_base_def list_all_iff)
  moreover have "list_all (decision_sound (node_keys st) (set (nrm_active ?st))) (nrm_decisions st)"
    using assms by (auto simp: plans_ok_def norm_base_def list_all_iff intro: decision_sound_mono)
  ultimately have "norm_base ?st" using assms unfolding norm_base_def same by (simp add: plans_ok_def norm_base_def)
  then show ?thesis using assms unfolding plan_ok_def prod.case same by (auto simp: plans_ok_def)
qed

lemma bt_insert_subset: "set (bt_insert k v m) \<subseteq> insert (k, v) (set m)"
  by (induction k v m rule: bt_insert.induct) auto

lemma add_active_plan_ok:
  assumes "plans_ok st" "add_active_plan debug input progress entry st = Inr st'"
  shows "plans_ok st' \<and> length (nrm_active st') \<le> Suc (length (nrm_active st))"
  using assms(2) unfolding add_active_plan_def Let_def
  apply (elim bind_rE guard_InrE case_prod_InrE)
  subgoal premises q for obj t p acc ids rest ns st1
  proof -
    have "plan_started (bs_insert p (nrm_active st)) p (ids, ns, st1)"
      using plan_subgoal_nodes_ok [OF activate_ok [OF assms(1)] q(5)] q(6,7) by simp
    then have ok: "norm_base st1" "list_all (\<lambda>n. legacy_node_id n \<in> node_keys st1) ns" "set (nrm_active st1) \<subseteq> placed st1"
      "nrm_active st1 = bs_insert p (nrm_active st)"
      by (auto simp: plan_started_def plan_ok_def)
    have st': "st' = st1\<lparr>nrm_plans := bt_insert p ns (nrm_plans st1)\<rparr>" using q(8) by simp
    have same: "node_keys st' = node_keys st1" "placed st' = placed st1"
      by (simp_all add: st' node_keys_def placed_def node_frame_def)
    have "list_all (\<lambda>(p, ns). list_all (\<lambda>n. legacy_node_id n \<in> node_keys st1) ns) (nrm_plans st')"
      using ok(1,2) bt_insert_subset [of p ns "nrm_plans st1"] by (fastforce simp: st' norm_base_def list_all_iff)
    then have "norm_base st'" using ok(1) unfolding norm_base_def same by (simp add: st')
    then show ?thesis
      using ok(3) length_bs_insert [of p "nrm_active st"] unfolding plans_ok_def same by (simp add: st' ok(4))
  qed
  done

lemma add_active_plans_ok:
  assumes "fold_r (add_active_plan debug input progress) entries st = Inr st'" "plans_ok st"
  shows "plans_ok st' \<and> length (nrm_active st') \<le> length (nrm_active st) + length entries"
  using assms
proof (induction entries arbitrary: st)
  case (Cons e es)
  then obtain st1 where st1: "add_active_plan debug input progress e st = Inr st1"
    "fold_r (add_active_plan debug input progress) es st1 = Inr st'" by (auto simp: bind_r_eq_Inr)
  note one = add_active_plan_ok [OF Cons.prems(2) st1(1)]
  show ?case using Cons.IH [OF st1(2)] one by auto
qed simp

lemma warn_inactive_screenings:
  "\<exists>w. fold warn_inactive_screening ps st = st\<lparr>nrm_warnings := w\<rparr>"
proof (induction ps arbitrary: st)
  case Nil then show ?case by (auto intro: exI [of _ "nrm_warnings st"])
next
  case (Cons p ps)
  have "\<exists>w. warn_inactive_screening p st = st\<lparr>nrm_warnings := w\<rparr>"
    by (auto simp: warn_inactive_screening_def warn_def intro: exI [of _ "nrm_warnings st"])
  then obtain w where w: "warn_inactive_screening p st = st\<lparr>nrm_warnings := w\<rparr>" ..
  obtain w' where "fold warn_inactive_screening ps (warn_inactive_screening p st)
      = (warn_inactive_screening p st)\<lparr>nrm_warnings := w'\<rparr>" using Cons.IH by blast
  then show ?case by (auto simp: w)
qed

lemma plans_ok_warnings: "plans_ok (st\<lparr>nrm_warnings := w\<rparr>) = plans_ok st"
  by (simp add: plans_ok_def norm_base_def node_keys_def placed_def node_frame_def)

lemma normalize_legacy_plans_ok:
  assumes "normalize_legacy_plans debug input st = Inr st'" "plans_ok st" "nrm_active st = []"
  shows "plans_ok st' \<and> length (nrm_active st') \<le> max_active_plans"
  using assms(1) unfolding normalize_legacy_plans_def
  apply (elim bind_rE)
  subgoal premises q for plans u progress st1
  proof -
    have len: "length plans \<le> max_active_plans" using q(2) by (auto simp: enforce_count_def split: if_splits)
    have st1: "plans_ok st1" "length (nrm_active st1) \<le> max_active_plans"
      using add_active_plans_ok [OF q(4) assms(2)] len assms(3) by auto
    show ?thesis
    proof (cases progress)
      case None
      then show ?thesis using q(5) st1 by simp
    next
      case (Some obj)
      obtain w where "st' = st1\<lparr>nrm_warnings := w\<rparr>"
        using q(5) Some warn_inactive_screenings [of "map fst obj" st1] by auto
      then show ?thesis using st1 by (simp add: plans_ok_warnings)
    qed
  qed
  done

lemma start_state_ok:
  assumes "node_new ''target'' stmt KindTarget = Inr n"
  shows "plans_ok (start_state ''target'' (with_order 0 0 0 n))"
  using node_new_fields [OF assms] assms
  by (auto simp: plans_ok_def norm_base_def start_state_def node_sound_def with_order_def node_keys_def
      sorted_keys_def node_new_def bind_r_eq_Inr max_research_nodes_def)

section \<open>The snapshot\<close>

lemma fold_with_nodes: "snap_nodes (fold with_node ns s) = snap_nodes s @ ns"
  "snap_target (fold with_node ns s) = snap_target s" "snap_attempts (fold with_node ns s) = snap_attempts s"
  "snap_decisions (fold with_node ns s) = snap_decisions s" "snap_active_plans (fold with_node ns s) = snap_active_plans s"
  by (induction ns arbitrary: s) (simp_all add: with_node_def)

lemma fold_with_attempts: "snap_attempts (fold with_attempt as s) = snap_attempts s @ as"
  "snap_target (fold with_attempt as s) = snap_target s" "snap_nodes (fold with_attempt as s) = snap_nodes s"
  "snap_decisions (fold with_attempt as s) = snap_decisions s" "snap_active_plans (fold with_attempt as s) = snap_active_plans s"
  by (induction as arbitrary: s) (simp_all add: with_attempt_def)

lemma fold_with_decisions: "snap_decisions (fold with_decision ds s) = snap_decisions s @ ds"
  "snap_target (fold with_decision ds s) = snap_target s" "snap_nodes (fold with_decision ds s) = snap_nodes s"
  "snap_attempts (fold with_decision ds s) = snap_attempts s" "snap_active_plans (fold with_decision ds s) = snap_active_plans s"
  by (induction ds arbitrary: s) (simp_all add: with_decision_def)

lemma fold_with_plans: "snap_active_plans (fold with_active_plan ps s) = fold bs_insert ps (snap_active_plans s)"
  "snap_target (fold with_active_plan ps s) = snap_target s" "snap_nodes (fold with_active_plan ps s) = snap_nodes s"
  "snap_attempts (fold with_active_plan ps s) = snap_attempts s" "snap_decisions (fold with_active_plan ps s) = snap_decisions s"
  by (induction ps arbitrary: s) (simp_all add: with_active_plan_def)

lemmas snapshot_folds = fold_with_nodes fold_with_attempts fold_with_decisions fold_with_plans

lemma snapshot_of_fields:
  "snap_target (snapshot_of t st) = t" "snap_nodes (snapshot_of t st) = map snd (nrm_nodes st)"
  "snap_attempts (snapshot_of t st) = nrm_attempts st" "snap_decisions (snapshot_of t st) = nrm_decisions st"
  "snap_active_plans (snapshot_of t st) = fold bs_insert (nrm_active st) []"
  by (simp_all add: snapshot_of_def snapshot_folds snapshot_new_def)

lemma length_fold_insert: "length (fold bs_insert xs ys) \<le> length xs + length ys"
proof (induction xs arbitrary: ys)
  case (Cons x xs)
  then show ?case using length_bs_insert [of x ys] by (simp add: order_trans [OF Cons])
qed simp

lemma normalized_state:
  assumes "normalize_legacy_research debug input = Inr r"
  obtains st where "norm_snapshot r = snapshot_of ''target'' st" "plans_ok st"
    "length (nrm_active st) \<le> max_active_plans" "norm_warnings r = finish_warnings (nrm_warnings st)"
  using assms unfolding normalize_legacy_research_def Let_def
  apply (elim bind_rE case_prod_InrE)
  subgoal premises q for u target n st1 st2 b rec st3 st4 rb ret st5 fb igf st6 db igd st7 vb igv st8 st9
  proof -
    have t: "target = ''target''" using q(3) by (auto simp: identifier_parse_def bind_r_eq_Inr)
    have start: "plans_ok st1" "length (nrm_active st1) \<le> max_active_plans"
      using normalize_legacy_plans_ok [OF q(5)] start_state_ok q(4) by (simp_all add: t start_state_def)
    then have base: "step_ok st1 st1" "''target'' \<in> node_keys st1" by (simp_all add: plans_ok_def norm_base_def)
    have "step_ok st1 st2" by (rule normalize_direct_attempts_ok [OF base(1) q(6)])
    then have "step_ok st1 st3" using normalize_branch_results_ok [OF _ q(7)] q(8) by simp
    then have "step_ok st1 st4" using normalize_counterexamples_ok [OF _ base(2) q(9) [unfolded t]] by simp
    then have "step_ok st1 st5" using normalize_retrieval_events_ok [OF _ base(2) q(10) [unfolded t]] q(11) by simp
    then have "step_ok st1 st6" using normalize_failures_ok [OF _ base(2) q(12) [unfolded t]] q(13) by simp
    then have "step_ok st1 st7" using normalize_decisions_ok [OF _ q(14)] q(15) by simp
    then have "step_ok st1 st8" using normalize_verification_ok [OF _ base(2) q(16) [unfolded t]] q(17) by simp
    then have last: "step_ok st1 st9" by (rule normalize_join_ok) (rule q(18))
    then have "plans_ok st9" "length (nrm_active st9) \<le> max_active_plans"
      using start by (auto simp: plans_ok_def step_ok_def keeps_def placed_def)
    then show ?thesis using q(19) t by (intro q(1) [of st9]) auto
  qed
  done

section \<open>What the projector sees\<close>

lemma normalized_nodes:
  assumes "plans_ok st" shows "map entry_of (map snd (nrm_nodes st)) = nrm_nodes st"
    "distinct (map node_id (map snd (nrm_nodes st)))" "list_all node_ok (map snd (nrm_nodes st))"
proof -
  have base: "sorted_keys (nrm_nodes st)" "list_all (node_sound (nrm_active st)) (nrm_nodes st)"
    using assms by (simp_all add: plans_ok_def norm_base_def)
  then have id: "node_id n = i" if "(i, n) \<in> set (nrm_nodes st)" for i n
    using that by (auto simp: list_all_iff node_sound_def)
  then show "map entry_of (map snd (nrm_nodes st)) = nrm_nodes st" by (auto intro!: map_idI)
  have "map node_id (map snd (nrm_nodes st)) = map fst (nrm_nodes st)" using id by auto
  then show "distinct (map node_id (map snd (nrm_nodes st)))" using sorted_keys_distinct [OF base(1)] by metis
  show "list_all node_ok (map snd (nrm_nodes st))"
    using base(2) by (auto simp: list_all_iff node_sound_def node_ok_def)
qed

definition left_to_check :: "research_error \<Rightarrow> bool" where
  "left_to_check e \<longleftrightarrow> (\<exists>n d. e = UnknownDependency n d) \<or>
     (\<exists>c. e = LimitExceeded ''research_edges'' max_research_edges c) \<or>
     (\<exists>i. e = DuplicateIdentifier ''research_attempt_id'' i) \<or>
     (\<exists>i. e = DuplicateIdentifier ''research_decision_id'' i) \<or> e = Serialization"

lemma check_all_Inl: "check_all f xs = Inl e \<Longrightarrow> \<exists>x \<in> set xs. f x = Inl e"
proof (induction xs)
  case (Cons x xs)
  then show ?case
    by (cases "f x"; cases "traverse_r f xs") (auto simp: check_all_def map_ok_def)
qed simp

lemma normalized_canonical:
  assumes "plans_ok st"
  shows "canonical_nodes (snapshot_of t st) = Inr (nrm_nodes st) \<or>
    (\<exists>e. canonical_nodes (snapshot_of t st) = Inl e \<and> left_to_check e)"
proof -
  note n = normalized_nodes [OF assms]
  have sorted: "bt_collect (nrm_nodes st) = nrm_nodes st"
    using assms by (simp add: plans_ok_def norm_base_def bt_collect_sorted)
  have "fold_r add_canonical_node (map snd (nrm_nodes st)) ([], 0) =
      Inr (nrm_nodes st, min u64_max (0 + edge_total (map snd (nrm_nodes st))))"
    using n sorted by (simp add: add_canonical_nodes list_all_iff bt_collect_def del: map_map)
  then show ?thesis
    by (cases "canonical_nodes (snapshot_of t st)")
      (auto simp: canonical_nodes_def snapshot_of_fields bind_r_eq_Inl bind_r_eq_Inr within_limit_def left_to_check_def
        check_dependencies_def ensure_def split: if_splits dest!: check_all_Inl)
qed

lemma normalized_target:
  assumes "plans_ok st" "snap_target s = ''target''"
  shows "validate_target s (nrm_nodes st) = Inr ()"
proof -
  have base: "sorted_keys (nrm_nodes st)" "list_all (node_sound (nrm_active st)) (nrm_nodes st)"
    "''target'' \<in> node_keys st" using assms(1) by (simp_all add: plans_ok_def norm_base_def)
  then obtain n where n: "(''target'', n) \<in> set (nrm_nodes st)" by (auto simp: node_keys_def)
  then have map: "map_of (nrm_nodes st) ''target'' = Some n"
    by (simp add: map_of_eq_Some_iff [OF sorted_keys_distinct [OF base(1)]])
  have kind: "node_kind m = KindTarget \<longleftrightarrow> i = ''target''" if "(i, m) \<in> set (nrm_nodes st)" for i m
    using base(2) that by (auto simp: list_all_iff node_sound_def)
  have "filter (\<lambda>m. node_kind m = KindTarget) (map snd (nrm_nodes st)) =
      map snd (filter (\<lambda>(i, m). i = ''target'') (nrm_nodes st))"
    by (auto simp: filter_map comp_def kind intro!: filter_cong arg_cong [where f = "map snd"])
  moreover have "filter (\<lambda>(i, m). i = k) kvs = [(k, v)]" if "distinct (map fst kvs)" "(k, v) \<in> set kvs" for k v and kvs :: "(string \<times> research_node) list"
    using that
  proof (induction kvs)
    case (Cons e kvs)
    show ?case
    proof (cases "fst e = k")
      case True
      then have "\<forall>(i, m) \<in> set kvs. i \<noteq> k" using Cons.prems(1) by (auto simp: image_iff)
      then have "filter (\<lambda>(i, m). i = k) kvs = []" "(k, v) \<notin> set kvs" by (auto simp: filter_empty_conv)
      then show ?thesis using True Cons.prems(2) by (cases e) auto
    next
      case False
      then show ?thesis using Cons by (cases e) auto
    qed
  qed simp
  ultimately have one: "filter (\<lambda>m. node_kind m = KindTarget) (map snd (nrm_nodes st)) = [n]"
    using sorted_keys_distinct [OF base(1)] n by simp
  have "node_kind n = KindTarget" "node_status n \<noteq> Superseded"
    using base(2) n by (auto simp: list_all_iff node_sound_def)
  then show ?thesis unfolding validate_target_def one Let_def by (simp add: assms(2) map ok_or_def)
qed

lemma normalized_active:
  assumes "plans_ok st" "set (snap_active_plans s) \<subseteq> set (nrm_active st)"
  shows "validate_active_plans s (nrm_nodes st) = Inr ()"
proof -
  have "p \<in> set (declared_plans (nrm_nodes st))" if p: "p \<in> set (snap_active_plans s)" for p
  proof -
    have "p \<in> placed st" using assms p by (auto simp: plans_ok_def)
    then obtain i n where n: "(i, n) \<in> set (nrm_nodes st)" "plan_id n = Some p"
      by (auto simp: placed_def node_frame_def)
    then have "node_status n \<noteq> Superseded" using assms(1) by (auto simp: plans_ok_def norm_base_def list_all_iff node_sound_def)
    then show ?thesis using n by (force simp: declared_plans_def map_filter_def is_active_def)
  qed
  then have "is_ok (check_all (\<lambda>p. ensure (p \<in> set (declared_plans (nrm_nodes st))) (UnknownActivePlan p)) (snap_active_plans s))"
    unfolding check_all_ok by (simp add: is_ok_def)
  then show ?thesis by (simp add: validate_active_plans_def is_ok_unit)
qed

lemma node_keys_map: "map_of (nrm_nodes st) n \<noteq> None \<longleftrightarrow> n \<in> node_keys st"
  by (simp add: map_of_eq_None_iff node_keys_def)

lemma normalized_attempts_checked:
  assumes "list_all (attempt_sound (node_keys st)) as" "fold_r (check_attempt (nrm_nodes st)) as seen = Inl e"
  shows "left_to_check e"
  using assms
proof (induction as arbitrary: seen)
  case (Cons a as)
  have "check_attempt (nrm_nodes st) a seen = Inr (insert (attempt_id a) seen) \<or>
      check_attempt (nrm_nodes st) a seen = Inl (DuplicateIdentifier ''research_attempt_id'' (attempt_id a))"
    using Cons.prems(1) node_keys_map [of st "attempt_node_id a"]
    by (auto simp: check_attempt_def attempt_sound_def is_ok_unit within_limit_def)
  then show ?case using Cons.IH Cons.prems by (auto simp: left_to_check_def)
qed simp

lemma normalized_decisions_checked:
  assumes "list_all (decision_sound (node_keys st) (set plans)) ds"
    "fold_r (check_decision (nrm_nodes st) plans) ds seen = Inl e"
  shows "left_to_check e"
  using assms
proof (induction ds arbitrary: seen)
  case (Cons d ds)
  have "map_of (nrm_nodes st) i \<noteq> None" if "i \<in> set (preserved_node_ids d @ focus_list d)" for i
    using Cons.prems(1) that unfolding node_keys_map by (auto simp: decision_sound_def)
  then have "is_ok (check_all (\<lambda>i. ensure (map_of (nrm_nodes st) i \<noteq> None) (UnknownDecisionNode (decision_id d) i))
      (preserved_node_ids d @ focus_list d))" unfolding check_all_ok by (simp add: is_ok_def)
  then have nodes: "check_all (\<lambda>i. ensure (map_of (nrm_nodes st) i \<noteq> None) (UnknownDecisionNode (decision_id d) i))
      (preserved_node_ids d @ focus_list d) = Inr ()" by (simp only: is_ok_unit)
  have "is_ok (check_all (\<lambda>p. ensure (p \<in> set plans) (UnknownDecisionPlan (decision_id d) p)) (superseded_plan_ids d))"
    using Cons.prems(1) unfolding check_all_ok by (auto simp: decision_sound_def is_ok_def)
  then have ps: "check_all (\<lambda>p. ensure (p \<in> set plans) (UnknownDecisionPlan (decision_id d) p)) (superseded_plan_ids d) = Inr ()"
    by (simp only: is_ok_unit)
  have "check_decision (nrm_nodes st) plans d seen = Inr (insert (decision_id d) seen) \<or>
      check_decision (nrm_nodes st) plans d seen = Inl (DuplicateIdentifier ''research_decision_id'' (decision_id d))"
    using Cons.prems(1) unfolding check_decision_def nodes ps
    by (auto simp: decision_sound_def is_ok_unit within_limit_def)
  then show ?case using Cons.IH Cons.prems by (auto simp: left_to_check_def)
qed simp

lemma normalized_parts:
  assumes "plans_ok st" "length (nrm_active st) \<le> max_active_plans"
    "checked_parts (snapshot_of ''target'' st) = Inl e"
  shows "left_to_check e"
proof -
  let ?s = "snapshot_of ''target'' st"
  have base: "norm_base st" using assms(1) by (simp add: plans_ok_def)
  have plans: "set (snap_active_plans ?s) = set (nrm_active st)" by (simp add: snapshot_of_fields set_fold_insert)
  have "length (snap_active_plans ?s) \<le> max_active_plans"
    using assms(2) length_fold_insert [of "nrm_active st" "[]"] by (simp add: snapshot_of_fields)
  then have limits: "validate_snapshot_limits ?s = Inr ()"
    using base by (simp add: validate_snapshot_limits_def within_limit_def snapshot_of_fields norm_base_def)
  consider (nodes) "canonical_nodes ?s = Inr (nrm_nodes st)" | (err) "canonical_nodes ?s = Inl e" "left_to_check e"
    using normalized_canonical [OF assms(1), of "''target''"] assms(3) limits by (auto simp: checked_parts_def)
  then show ?thesis
  proof cases
    case nodes
    have attempts: "left_to_check e'" if "canonical_attempts ?s (nrm_nodes st) = Inl e'" for e'
      using that base normalized_attempts_checked
      by (auto simp: canonical_attempts_def bind_r_eq_Inl snapshot_of_fields norm_base_def)
    have sub: "set (nrm_active st) \<subseteq> set (known_plans ?s (nrm_nodes st))" using plans by (simp add: known_plans_def)
    have "list_all (decision_sound (node_keys st) (set (known_plans ?s (nrm_nodes st)))) (nrm_decisions st)"
      using base decision_sound_mono [OF _ order_refl sub] by (auto simp: norm_base_def list_all_iff)
    then have decisions: "left_to_check e'" if "canonical_decisions ?s (nrm_nodes st) = Inl e'" for e'
      using that normalized_decisions_checked
      by (auto simp: canonical_decisions_def bind_r_eq_Inl snapshot_of_fields)
    have graph: "build_graph (nrm_nodes st) \<noteq> Inl e"
      using build_graph_built [OF canonical_wf(1) [OF nodes]] by force
    show ?thesis
      using assms(3) limits nodes normalized_target [OF assms(1), of ?s] normalized_active [OF assms(1), of ?s] plans
        attempts decisions graph
      by (auto simp: checked_parts_def bind_r_eq_Inl snapshot_of_fields split: prod.splits)
  next
    case err
    then show ?thesis by simp
  qed
qed

section \<open>Soundness\<close>

lemma normalized_snapshot_analyzed:
  assumes "normalize_legacy_research debug input = Inr r"
    "analyze to_vec sha256 (norm_snapshot r) = Some (Inl e)"
  shows "left_to_check e"
proof -
  obtain st where st: "norm_snapshot r = snapshot_of ''target'' st" "plans_ok st" "length (nrm_active st) \<le> max_active_plans"
    using normalized_state [OF assms(1)] .
  show ?thesis
  proof (cases "checked_parts (norm_snapshot r)")
    case (Inl e')
    then show ?thesis using assms(2) normalized_parts [OF st(2,3)] st(1) by (simp add: analyze_def)
  next
    case (Inr parts)
    then have "e = Serialization"
      using assms(2) by (auto simp: analyze_def digest_state_def bind_r_eq_Inl ok_or_def Let_def
          split: option.splits prod.splits)
    then show ?thesis by (simp add: left_to_check_def)
  qed
qed

text \<open>
  C18. If the normalization of research history answers a snapshot, the
  projector can refuse it only for what the normalization does not look at: a dependency on a node that is not
  there, too many dependencies in all, an identifier of an attempt or a decision that occurs twice, or a state the
  serializer refuses. So the target, the plans, and every reference of attempts and decisions are right.
\<close>

theorem normalized_snapshots_are_sound:
  assumes "normalize_legacy_research debug input = Inr r"
    and "analyze to_vec sha256 (norm_snapshot r) = Some (Inl e)"
  shows "(\<exists>n d. e = UnknownDependency n d) \<or> (\<exists>c. e = LimitExceeded ''research_edges'' max_research_edges c) \<or>
    (\<exists>i. e = DuplicateIdentifier ''research_attempt_id'' i) \<or>
    (\<exists>i. e = DuplicateIdentifier ''research_decision_id'' i) \<or> e = Serialization"
  using normalized_snapshot_analyzed [OF assms] by (simp add: left_to_check_def)

definition bare_input :: legacy_input where
  "bare_input = legacy_input_new ''t'' 0 (JArray []) JNull"

lemma identifier_target: "identifier_parse ''research_node_id'' ''target'' = Inr ''target''"
  "identifier_parse ''research_domain_id'' ''legacy-repair'' = Inr ''legacy-repair''"
  by code_simp+

lemma bare_node: "is_ok (node_new ''target'' ''t'' KindTarget)"
  by code_simp

lemma bare_normalization: "is_ok (normalize_legacy_research (\<lambda>s. s) bare_input)"
proof -
  obtain n where n: "node_new ''target'' ''t'' KindTarget = Inr n"
    using bare_node by (cases "node_new ''target'' ''t'' KindTarget") simp_all
  have "validate_channel_limits bare_input = Inr ()" by code_simp
  then show ?thesis
    by (simp add: normalize_legacy_research_def identifier_target n bare_input_def legacy_input_new_def
      normalize_legacy_plans_def enforce_count_def screening_map_def normalize_direct_attempts_def
      normalize_branch_results_def normalize_counterexamples_def normalize_retrieval_events_def
      normalize_failures_def normalize_decisions_def normalize_verification_reports_def
      normalize_join_decision_def option_filter_def ok_or_def max_active_plans_def Let_def)
qed

lemma analyze_without_serializer: "\<exists>e. analyze (\<lambda>_. None) sha256 s = Some (Inl e)"
proof -
  have "analyze (\<lambda>_. None) sha256 s \<noteq> Some (Inr st)" for st
    by (auto simp: analyze_def digest_state_def Let_def ok_or_def split: sum.splits prod.splits)
  then show ?thesis using analyze_cases [of "\<lambda>_. None" sha256 s] by auto
qed

theorem normalized_snapshots_are_sound_witness:
  "\<exists>r e. normalize_legacy_research (\<lambda>s. s) bare_input = Inr r \<and>
     analyze (\<lambda>_. None) (\<lambda>s. s) (norm_snapshot r) = Some (Inl e) \<and>
     ((\<exists>n d. e = UnknownDependency n d) \<or> (\<exists>c. e = LimitExceeded ''research_edges'' max_research_edges c) \<or>
      (\<exists>i. e = DuplicateIdentifier ''research_attempt_id'' i) \<or>
      (\<exists>i. e = DuplicateIdentifier ''research_decision_id'' i) \<or> e = Serialization)"
proof -
  obtain r where r: "normalize_legacy_research (\<lambda>s. s) bare_input = Inr r"
    using bare_normalization by (cases "normalize_legacy_research (\<lambda>s. s) bare_input") simp_all
  obtain e where e: "analyze (\<lambda>_. None) (\<lambda>s. s) (norm_snapshot r) = Some (Inl e)"
    using analyze_without_serializer by blast
  show ?thesis using r e normalized_snapshots_are_sound [OF r e] by blast
qed

section \<open>Refutations\<close>

definition claimed_status :: "json \<Rightarrow> string" where
  "claimed_status record = value_or (Option.bind (or_else (or_else (json_get record ''status'') (json_get record ''result''))
     (json_get record ''outcome'')) as_str) ''inconclusive''"

lemma claimed_status_key:
  assumes "claimed_status record = t" "t \<noteq> ''inconclusive''"
  shows "\<exists>key \<in> {''status'', ''result'', ''outcome''}. json_get record key = Some (JString t)"
proof -
  have "as_str v = Some s \<Longrightarrow> v = JString s" for v s by (cases v) simp_all
  then show ?thesis
    using assms by (auto simp: claimed_status_def value_or_def or_else_def bind_eq_Some_conv split: option.splits)
qed

definition refutes :: "norm_state \<Rightarrow> json \<Rightarrow> bool" where
  "refutes st record \<longleftrightarrow> claimed_status record \<in> {''found'', ''refuted'', ''counterexample_found''} \<and>
     meaningful_witness (json_get record ''witness'') \<and>
     (json_get record ''node_id'' = None \<or> resolve_canonical_node (json_get record ''node_id'') st \<noteq> None)"

lemma push_attempt_nodes: "push_attempt a st = Inr st' \<Longrightarrow> nrm_nodes st' = nrm_nodes st"
  by (auto simp: push_attempt_def Let_def split: if_splits)

lemma set_status_warn_nodes:
  "nrm_nodes (set_status P s i (warn c l m st)) = nrm_nodes (set_status P s i st)"
  by (simp add: set_status_def split: option.split)

lemma counterexample_nodes:
  assumes "counterexample_step input target (k, record) st = Inr st'"
  shows "nrm_nodes st' = (if refutes st record
     then nrm_nodes (set_status (\<lambda>_. True) Refuted (value_or (resolve_canonical_node (json_get record ''node_id'') st) target) st)
     else nrm_nodes st)"
  using assms unfolding counterexample_step_def Let_def fst_conv snd_conv
  apply (elim bind_rE)
  subgoal premises p for actor i a es a3
    using push_attempt_nodes [OF p(6)] unfolding claimed_status_def [symmetric]
    by (auto simp: refutes_def set_status_warn_nodes)
  done

text \<open>
  C19. A counterexample record makes a node refuted only if it claims a
  counterexample, gives a witness, and names that node; without a name the target is meant.
\<close>

theorem refutations_have_witnesses:
  assumes "counterexample_step input target (k, record) st = Inr st'"
    and "map_of (nrm_nodes st) i = Some m" "node_status m \<noteq> Refuted"
    and "map_of (nrm_nodes st') i = Some n" "node_status n = Refuted"
  shows "meaningful_witness (json_get record ''witness'') \<and>
    (case json_get record ''node_id'' of None \<Rightarrow> i = target | Some v \<Rightarrow> v = JString i) \<and>
    (\<exists>key \<in> {''status'', ''result'', ''outcome''}. \<exists>t \<in> {''found'', ''refuted'', ''counterexample_found''}.
       json_get record key = Some (JString t))"
proof -
  note nodes = counterexample_nodes [OF assms(1)]
  have refutes: "refutes st record" using nodes assms(2-5) by (auto split: if_splits)
  let ?j = "value_or (resolve_canonical_node (json_get record ''node_id'') st) target"
  have "i = ?j"
    using nodes refutes assms(2-5) by (auto simp: set_status_def split: option.splits if_splits)
  moreover have "case json_get record ''node_id'' of None \<Rightarrow> ?j = target | Some v \<Rightarrow> v = JString ?j"
  proof (cases "json_get record ''node_id''")
    case None then show ?thesis by (simp add: resolve_canonical_node_def option_filter_def value_or_def)
  next
    case (Some v)
    then show ?thesis using refutes
      by (cases v) (auto simp: refutes_def resolve_canonical_node_def option_filter_def value_or_def split: if_splits)
  qed
  moreover have "\<exists>key \<in> {''status'', ''result'', ''outcome''}. json_get record key = Some (JString (claimed_status record))"
    using refutes by (intro claimed_status_key) (auto simp: refutes_def)
  moreover have "claimed_status record \<in> {''found'', ''refuted'', ''counterexample_found''}"
    "meaningful_witness (json_get record ''witness'')" using refutes by (auto simp only: refutes_def)
  ultimately show ?thesis by blast
qed

definition refuting_record :: json where
  "refuting_record = JObject [(''reason'', JString ''r''), (''status'', JString ''found''), (''witness'', JString ''w'')]"

definition refuted_start :: norm_state where
  "refuted_start = start_state ''target'' \<lparr>node_id = ''target'', statement = ''t'', node_kind = KindTarget, plan_id = None,
     dependencies = [], declared_critical = None, node_status = NodeOpen, revision = 1, node_created_round = 0,
     plan_order = 0, node_order = 0, latest_event_seq = 0\<rparr>"

lemma refuting_parts:
  "identifier_parse ''research_domain_id'' legacy_generation = Inr legacy_generation"
  "identifier_parse ''research_attempt_id'' ''attempt:counterexample:1'' = Inr ''attempt:counterexample:1''"
  "extract_summary refuting_record = Some ''r''"
  "show_nat (Suc 0) = ''1''"
  "validate_text ''attempt.summary'' ''r'' max_summary_bytes False = Inr ()"
  "json_get refuting_record ''node_id'' = None" "json_get refuting_record ''record_id'' = None"
  "json_get refuting_record ''actor_domain_id'' = None" "json_get refuting_record ''evidence_ids'' = None"
  "json_get refuting_record ''status'' = Some (JString ''found'')"
  "meaningful_witness (json_get refuting_record ''witness'')"
  by code_simp+

lemma refuting_run:
  "(case counterexample_step bare_input ''target'' (0, refuting_record) refuted_start of Inl e \<Rightarrow> False
    | Inr st' \<Rightarrow> map_option node_status (map_of (nrm_nodes st') ''target'') = Some Refuted)"
  by (simp add: counterexample_step_def record_actor_def record_attempt_id_def parse_or_def str_field_def
      refuting_parts or_else_def value_or_def Let_def attempt_new_def bounded_optional_string_array_def
      attach_evidence_def resolve_canonical_node_def option_filter_def push_attempt_def set_status_def
      refuted_start_def start_state_def max_research_attempts_def)

theorem refutations_have_witnesses_witness:
  "meaningful_witness (json_get refuting_record ''witness'') \<and>
   (\<exists>key \<in> {''status'', ''result'', ''outcome''}. \<exists>t \<in> {''found'', ''refuted'', ''counterexample_found''}.
       json_get refuting_record key = Some (JString t))"
proof -
  obtain st' n where "counterexample_step bare_input ''target'' (0, refuting_record) refuted_start = Inr st'"
    "map_of (nrm_nodes st') ''target'' = Some n" "node_status n = Refuted"
    using refuting_run by (auto split: sum.splits)
  from refutations_have_witnesses [OF this(1) _ _ this(2,3)] show ?thesis
    by (simp add: refuted_start_def start_state_def)
qed

section \<open>Warnings\<close>

lemma is_boundary_last: "is_char_boundary s (last_boundary s i) \<and> last_boundary s i \<le> i"
  by (induction i) (auto simp: is_char_boundary_def)

lemma last_boundary_greatest: "is_char_boundary s j \<Longrightarrow> j \<le> i \<Longrightarrow> j \<le> last_boundary s i"
  by (induction i) (auto simp: le_Suc_eq)

lemma truncate_bounded: "length (truncate_utf8 s b) \<le> b"
  using is_boundary_last [of s b] by (auto simp: truncate_utf8_def)

text \<open>
  C20. A text that is cut for a warning is cut to the longest prefix
  within the bound that ends on a character boundary: at a cut at \<open>k\<close> there is a boundary, \<open>k\<close> is within the bound,
  and every boundary within the bound is at most \<open>k\<close>.
\<close>

theorem truncation_is_the_longest_whole_prefix:
  "prefix (truncate_utf8 s b) s \<and> length (truncate_utf8 s b) \<le> b \<and>
   is_char_boundary s (length (truncate_utf8 s b)) \<and>
   {j. j \<le> b \<and> is_char_boundary s j} \<subseteq> {..length (truncate_utf8 s b)}"
proof (cases "length s \<le> b")
  case True
  then show ?thesis by (auto simp: truncate_utf8_def is_char_boundary_def)
next
  case False
  then have len: "length (truncate_utf8 s b) = last_boundary s b"
    using is_boundary_last [of s b] by (simp add: truncate_utf8_def)
  show ?thesis
    unfolding len using False is_boundary_last [of s b] last_boundary_greatest [of s _ b]
    by (auto simp: truncate_utf8_def take_is_prefix)
qed

end
