(* ===== verification/Store_Tables.thy ===== *)
theory Store_Tables
  imports Contracts
begin

text \<open>
  The state database of \<open>crates/mtm-storage/src/schema.rs\<close>: one record per table, a column per
  field, and the database as the record of its tables.

  A table is the list of its rows in the order of insertion; no statement of the program deletes
  a row. The statements the program runs are written with three operations: a \<open>SELECT\<close> by key is
  \<open>find\<close>, an \<open>UPDATE\<close> is \<open>update_rows\<close> with the number of rows it matches, and an \<open>INSERT\<close> is
  \<open>insert_into\<close>, which refuses a duplicate of a \<open>PRIMARY KEY\<close> or \<open>UNIQUE\<close> column before it
  checks the foreign keys, as SQLite does. \<open>immediate\<close> rolls a transaction back when its closure
  fails: an operation returns the new database only beside an \<open>Ok\<close>.

  A column of type \<open>INTEGER\<close> holds an \<open>i64\<close>; one that \<open>normalize_row\<close> reads as a boolean is a
  \<open>bool\<close> here. A column that holds the text of a JSON value the program wrote itself holds that
  value here (\<open>metadata_json\<close>, \<open>permissions_json\<close>, \<open>result_json\<close>, \<open>marker_json\<close>), so a text that
  does not parse cannot occur; the columns of texts the caller serialized stay texts.
\<close>

section \<open>Statements\<close>

definition sql_error :: "string \<Rightarrow> re_ctm_error" where
  "sql_error m = with_category Internal (error_new ''SQLITE_ERROR'' m)"

definition unique_failed :: "string \<Rightarrow> re_ctm_error" where
  "unique_failed columns = sql_error (''UNIQUE constraint failed: '' @ columns)"

definition check_failed :: "string \<Rightarrow> re_ctm_error" where
  "check_failed condition = sql_error (''CHECK constraint failed: '' @ condition)"

definition foreign_key_failed :: re_ctm_error where
  "foreign_key_failed = sql_error ''FOREIGN KEY constraint failed''"

definition is_constraint :: "re_ctm_error \<Rightarrow> bool" where
  "is_constraint e \<longleftrightarrow>
     code e = ''SQLITE_ERROR'' \<and> sublist ''constraint'' (map to_lower (message e))"

definition msg_row_invalid :: string where
  "msg_row_invalid = ''State database row has an invalid shape.''"

definition internal_row_error :: re_ctm_error where
  "internal_row_error = with_category Internal (error_new ''STATE_ROW_INVALID'' msg_row_invalid)"

definition insert_into :: "bool \<Rightarrow> string \<Rightarrow> bool \<Rightarrow> 'r \<Rightarrow> 'r list \<Rightarrow> 'r list result" where
  "insert_into duplicate columns references r rows =
     (if duplicate then Inl (unique_failed columns)
      else if \<not> references then Inl foreign_key_failed
      else Inr (rows @ [r]))"

definition update_rows :: "('r \<Rightarrow> bool) \<Rightarrow> ('r \<Rightarrow> 'r) \<Rightarrow> 'r list \<Rightarrow> 'r list" where
  "update_rows P f rows = map (\<lambda>r. if P r then f r else r) rows"

definition matching :: "('r \<Rightarrow> bool) \<Rightarrow> 'r list \<Rightarrow> nat" where
  "matching P rows = length (filter P rows)"

text \<open>A negative \<open>LIMIT\<close> is none.\<close>

definition limit_rows :: "int \<Rightarrow> 'r list \<Rightarrow> 'r list" where
  "limit_rows n rows = (if n < 0 then rows else take (nat n) rows)"

definition i64_range :: "int \<Rightarrow> bool" where
  "i64_range x \<longleftrightarrow> - (2 ^ 63) \<le> x \<and> x < 2 ^ 63"

definition checked_add :: "int \<Rightarrow> int \<Rightarrow> int option" where
  "checked_add x y = (if i64_range (x + y) then Some (x + y) else None)"

text \<open>The release profile has no overflow checks: \<open>+\<close> wraps.\<close>

definition wrapping_add :: "int \<Rightarrow> int \<Rightarrow> int" where
  "wrapping_add x y = (x + y + 2 ^ 63) mod 2 ^ 64 - 2 ^ 63"

text \<open>How an update acts on a lookup by a key that it keeps.\<close>

text \<open>A chain of calls that succeeded, call by call.\<close>

lemmas take_apart = bind_rE guard_InrE case_prod_InrE

lemma insert_into_Inr [simp]:
  "insert_into d c fk r rows = Inr rows' \<longleftrightarrow> \<not> d \<and> fk \<and> rows' = rows @ [r]"
  by (auto simp: insert_into_def)

lemma set_update_rows: "set (update_rows P f rows) = (\<lambda>r. if P r then f r else r) ` set rows"
  by (simp add: update_rows_def)

lemma length_update_rows [simp]: "length (update_rows P f rows) = length rows"
  by (simp add: update_rows_def)

lemma update_rows_Nil [simp]: "update_rows P f [] = []"
  by (simp add: update_rows_def)

lemma update_rows_append: "update_rows P f (xs @ ys) = update_rows P f xs @ update_rows P f ys"
  by (simp add: update_rows_def)

lemma map_update_rows:
  assumes "\<And>r. P r \<Longrightarrow> g (f r) = g r"
  shows "map g (update_rows P f rows) = map g rows"
  using assms by (simp add: update_rows_def)

lemma find_update_rows:
  assumes "\<And>r. P r \<Longrightarrow> Q (f r) = Q r"
  shows "find Q (update_rows P f rows) =
    map_option (\<lambda>r. if P r then f r else r) (find Q rows)"
  using assms by (induction rows) (auto simp: update_rows_def)

lemma filter_update_rows:
  assumes "\<And>r. P r \<Longrightarrow> Q (f r) = Q r"
  shows "filter Q (update_rows P f rows) = update_rows P f (filter Q rows)"
  using assms by (induction rows) (auto simp: update_rows_def)

lemma matching_0: "matching P rows = 0 \<longleftrightarrow> (\<forall>r \<in> set rows. \<not> P r)"
  by (auto simp: matching_def filter_empty_conv)

lemma matching_1D:
  assumes "matching P rows = 1"
  obtains r where "r \<in> set rows" "P r" "\<And>r'. r' \<in> set rows \<Longrightarrow> P r' \<Longrightarrow> r' = r"
proof -
  obtain r where r: "filter P rows = [r]"
    using assms by (auto simp: matching_def length_Suc_conv)
  then have "{r' \<in> set rows. P r'} = {r}" by (metis list.set(1,2) set_filter)
  then show thesis using that [of r] by blast
qed

lemma find_SomeD: "find P rows = Some r \<Longrightarrow> r \<in> set rows \<and> P r"
  by (auto simp: find_Some_iff)

lemma find_NoneD: "find P rows = None \<Longrightarrow> r \<in> set rows \<Longrightarrow> \<not> P r"
  by (auto simp: find_None_iff)

lemma find_append: "find P (xs @ ys) = (case find P xs of None \<Rightarrow> find P ys | Some x \<Rightarrow> Some x)"
  by (induction xs) auto

text \<open>With a distinct key, the row found by its key is the row.\<close>

lemma find_distinct:
  assumes "distinct (map key rows)" "r \<in> set rows"
  shows "find (\<lambda>r'. key r' = key r) rows = Some r"
  using assms by (induction rows) auto

lemma distinct_key_eq:
  assumes "distinct (map key rows)" "r \<in> set rows" "r' \<in> set rows" "key r = key r'"
  shows "r = r'"
  using assms by (simp add: distinct_map inj_on_def)

lemma checked_add_eq_Some [simp]: "checked_add x y = Some z \<longleftrightarrow> i64_range (x + y) \<and> z = x + y"
  by (auto simp: checked_add_def)

lemma find_key:
  assumes "distinct (map key rows)" "r \<in> set rows" "key r = k"
  shows "find (\<lambda>r. key r = k) rows = Some r"
proof (cases "find (\<lambda>r. key r = k) rows")
  case None
  then show ?thesis using assms by (auto simp: find_None_iff)
next
  case (Some r')
  then have "r' \<in> set rows" "key r' = k" by (auto simp: find_Some_iff)
  then show ?thesis using Some distinct_key_eq [OF assms(1) _ assms(2)] assms(3) by simp
qed

lemma wrapping_add_exact: "i64_range (x + y) \<Longrightarrow> wrapping_add x y = x + y"
  by (simp add: wrapping_add_def i64_range_def)

section \<open>The workflow tables\<close>

record run_row =
  rr_run_id :: string
  rr_problem_id :: string
  rr_owner_id :: string
  rr_state :: string
  rr_status :: string
  rr_epoch :: int
  rr_round_index :: int
  rr_transition_seq :: int
  rr_latex_passed :: bool
  rr_verdict :: "string option"
  rr_sealed :: bool
  rr_metadata :: json
  rr_created_at :: string
  rr_updated_at :: string

record domain_row =
  dm_domain_id :: string
  dm_run_id :: string
  dm_role :: string
  dm_status :: string
  dm_snapshot_id :: "string option"
  dm_order_index :: "int option"
  dm_metadata :: json
  dm_created_at :: string
  dm_sealed_at :: "string option"

record capability_row =
  cp_nonce :: string
  cp_run_id :: string
  cp_domain_id :: string
  cp_role :: string
  cp_epoch :: int
  cp_issued_state :: string
  cp_permissions :: "string list"
  cp_issued_at :: int
  cp_expires_at :: int
  cp_revoked :: bool
  cp_revoked_at :: "string option"
  cp_revoke_reason :: "string option"

record branch_row =
  br_branch_id :: string
  br_run_id :: string
  br_plan_id :: string
  br_domain_id :: string
  br_snapshot_id :: string
  br_order_index :: int
  br_status :: string
  br_result_path :: "string option"
  br_metadata :: json
  br_created_at :: string
  br_sealed_at :: "string option"

record steering_row =
  sg_id :: int
  sg_run_id :: string
  sg_owner_id :: string
  sg_message :: string
  sg_consumed :: bool
  sg_created_at :: string
  sg_consumed_at :: "string option"

record transition_row =
  tr_id :: int
  tr_run_id :: string
  tr_sequence :: int
  tr_trace_id :: string
  tr_before_state :: string
  tr_after_state :: string
  tr_actor :: string
  tr_reason :: string
  tr_evidence :: json
  tr_created_at :: string

section \<open>The research tables\<close>

record project_row =
  pr_project_id :: string
  pr_owner_id :: string
  pr_title :: string
  pr_status :: string
  pr_metadata :: json
  pr_created_at :: string
  pr_updated_at :: string

record claim_row =
  cl_claim_id :: string
  cl_project_id :: string
  cl_title :: string
  cl_metadata :: json
  cl_created_at :: string
  cl_updated_at :: string

record revision_row =
  rv_revision_id :: string
  rv_claim_id :: string
  rv_revision_number :: int
  rv_statement_tex :: string
  rv_evidence_status :: string
  rv_lifecycle_status :: string
  rv_source_run_id :: "string option"
  rv_proof_sha256 :: "string option"
  rv_conditions :: "string list"
  rv_metadata :: json
  rv_created_at :: string
  rv_fact_id :: "string option"

record claim_edge_row =
  ce_edge_id :: int
  ce_project_id :: string
  ce_from_revision_id :: string
  ce_to_revision_id :: string
  ce_edge_type :: string
  ce_created_at :: string

record project_snapshot_row =
  ps_snapshot_id :: string
  ps_project_id :: string
  ps_owner_id :: string
  ps_revisions :: json
  ps_snapshot_sha256 :: string
  ps_created_at :: string

record project_run_row =
  pj_run_id :: string
  pj_project_id :: string
  pj_project_snapshot_id :: string
  pj_target_claim_id :: "string option"
  pj_base_revision_id :: "string option"
  pj_requested_workflow_mode :: string
  pj_effective_workflow_mode :: string
  pj_register_result :: bool
  pj_promotion_status :: string
  pj_promoted_revision_id :: "string option"
  pj_promotion :: json
  pj_created_at :: string
  pj_updated_at :: string

record manifest_row =
  mf_run_id :: string
  mf_manifest :: json
  mf_sha256 :: string
  mf_created_at :: string
  mf_updated_at :: string

record reference_row =
  rf_reference_id :: string
  rf_run_id :: string
  rf_project_id :: "string option"
  rf_identity_key :: string
  rf_provider :: string
  rf_title :: string
  rf_paper_id :: string
  rf_arxiv_id :: string
  rf_doi :: string
  rf_theorem_id :: string
  rf_source_uri :: string
  rf_source_state :: string
  rf_source_sha256 :: string
  rf_content_sha256 :: string
  rf_metadata :: json
  rf_created_at :: string
  rf_updated_at :: string

record source_snapshot_row =
  ss_source_snapshot_id :: string
  ss_reference_id :: string
  ss_provider :: string
  ss_source_uri :: string
  ss_content_sha256 :: string
  ss_content_type :: string
  ss_metadata :: json
  ss_created_at :: string

record audit_row =
  au_audit_id :: int
  au_run_id :: string
  au_reference_id :: string
  au_disposition :: string
  au_evidence_basis :: string
  au_evidence_locator :: string
  au_verifier_domain_id :: string
  au_proof_sha256 :: string
  au_proof_manifest_sha256 :: string
  au_material :: bool
  au_assumptions_checked :: bool
  au_notation_checked :: bool
  au_source_checked :: bool
  au_independently_rederived :: bool
  au_notes :: string
  au_created_at :: string
  au_updated_at :: string

section \<open>The tables of the submission protocol\<close>

datatype submission_disposition = Applied | CorrectionRequired

record submission_result =
  sub_disposition :: submission_disposition
  sub_state :: workflow_state
  sub_writes_applied :: nat
  sub_complete :: bool
  sub_error_code :: "string option"

record step_receipt_row =
  sr_capability_sha256 :: string
  sr_owner_id :: string
  sr_workspace_sha256 :: string
  sr_request_sha256 :: string
  sr_run_id :: string
  sr_domain_id :: string
  sr_role :: string
  sr_epoch :: int
  sr_issued_state :: string
  sr_status :: string
  sr_result :: "submission_result option"
  sr_created_at :: string
  sr_completed_at :: "string option"

record checkpoint_row =
  ck_capability_sha256 :: string
  ck_execution_id :: string
  ck_phase :: string
  ck_expected_writes :: "int option"
  ck_accepted_writes :: int
  ck_atomic_action :: "string option"

datatype restartable_action_kind =
    PlansProposed | DirectProvingComplete | BranchComplete | JoinComplete | FailuresIdentified
  | ReplanComplete | VerificationSubmitted

record file_image =
  fi_bytes :: nat
  fi_sha256 :: string

record file_effect_evidence =
  fe_relative_path :: string
  fe_before :: "file_image option"
  fe_after :: file_image

datatype marker =
    Between
  | Opaque
  | FileMarker file_effect_evidence
  | RestartableMarker restartable_action_kind

record journal_row =
  jn_capability_sha256 :: string
  jn_marker :: marker

record creation_receipt_row =
  cr_owner_id :: string
  cr_key_sha256 :: string
  cr_workspace_sha256 :: string
  cr_request_sha256 :: string
  cr_run_id :: string
  cr_execution_id :: string
  cr_status :: string
  cr_created_at :: string
  cr_completed_at :: "string option"

record creation_initialization_row =
  ci_run_id :: string
  ci_material_sha256 :: "string option"
  ci_database_sha256 :: "string option"

section \<open>The tables of the fact memory\<close>

record fact_row =
  ft_fact_id :: string
  ft_project_id :: string
  ft_source_run_id :: string
  ft_statement_tex :: string
  ft_proof_tex :: string
  ft_intuition :: string
  ft_glossary_json :: string
  ft_external_refs_json :: string
  ft_created_at :: string

record fact_edge_row =
  fg_fact_id :: string
  fg_predecessor_id :: string

record fact_revocation_row =
  fv_fact_id :: string
  fv_reason :: string
  fv_actor :: string
  fv_created_at :: string

record finding_row =
  fn_finding_id :: string
  fn_project_id :: string
  fn_run_id :: string
  fn_kind :: string
  fn_claim :: string
  fn_evidence :: string
  fn_verifiable :: bool
  fn_links_json :: string
  fn_created_at :: string

record finding_status_row =
  fs_finding_id :: string
  fs_seq :: int
  fs_status :: string
  fs_fact_id :: "string option"
  fs_created_at :: string

section \<open>The database\<close>

record state_db =
  db_runs :: "run_row list"
  db_domains :: "domain_row list"
  db_capabilities :: "capability_row list"
  db_branches :: "branch_row list"
  db_steering :: "steering_row list"
  db_transitions :: "transition_row list"
  db_projects :: "project_row list"
  db_claims :: "claim_row list"
  db_revisions :: "revision_row list"
  db_claim_edges :: "claim_edge_row list"
  db_project_snapshots :: "project_snapshot_row list"
  db_project_runs :: "project_run_row list"
  db_manifests :: "manifest_row list"
  db_references :: "reference_row list"
  db_source_snapshots :: "source_snapshot_row list"
  db_audits :: "audit_row list"
  db_receipts :: "step_receipt_row list"
  db_checkpoints :: "checkpoint_row list"
  db_journals :: "journal_row list"
  db_creations :: "creation_receipt_row list"
  db_initializations :: "creation_initialization_row list"
  db_facts :: "fact_row list"
  db_fact_edges :: "fact_edge_row list"
  db_revocations :: "fact_revocation_row list"
  db_findings :: "finding_row list"
  db_finding_status :: "finding_status_row list"

definition empty_db :: state_db where
  "empty_db = \<lparr>db_runs = [], db_domains = [], db_capabilities = [], db_branches = [],
     db_steering = [], db_transitions = [], db_projects = [], db_claims = [], db_revisions = [],
     db_claim_edges = [], db_project_snapshots = [], db_project_runs = [], db_manifests = [],
     db_references = [], db_source_snapshots = [], db_audits = [], db_receipts = [],
     db_checkpoints = [], db_journals = [], db_creations = [], db_initializations = [],
     db_facts = [], db_fact_edges = [], db_revocations = [], db_findings = [],
     db_finding_status = []\<rparr>"

text \<open>The lookups by primary key that several operations share.\<close>

definition find_run :: "state_db \<Rightarrow> string \<Rightarrow> run_row option" where
  "find_run db run = find (\<lambda>r. rr_run_id r = run) (db_runs db)"

definition find_domain :: "state_db \<Rightarrow> string \<Rightarrow> domain_row option" where
  "find_domain db domain = find (\<lambda>d. dm_domain_id d = domain) (db_domains db)"

definition find_capability :: "state_db \<Rightarrow> string \<Rightarrow> capability_row option" where
  "find_capability db nonce = find (\<lambda>c. cp_nonce c = nonce) (db_capabilities db)"

definition find_branch :: "state_db \<Rightarrow> string \<Rightarrow> branch_row option" where
  "find_branch db branch = find (\<lambda>b. br_branch_id b = branch) (db_branches db)"

definition find_checkpoint :: "state_db \<Rightarrow> string \<Rightarrow> checkpoint_row option" where
  "find_checkpoint db fingerprint =
     find (\<lambda>c. ck_capability_sha256 c = fingerprint) (db_checkpoints db)"

definition find_journal :: "state_db \<Rightarrow> string \<Rightarrow> journal_row option" where
  "find_journal db fingerprint = find (\<lambda>j. jn_capability_sha256 j = fingerprint) (db_journals db)"

end
