(* ===== verification/Store_Runs.thy ===== *)
theory Store_Runs
  imports Store_Tables "HOL-Library.Option_ord"
begin

text \<open>
  The operations of \<open>StateStore\<close> (\<open>crates/mtm-storage/src/store.rs\<close>) on runs, domains,
  capabilities, branches and steering messages.

  An operation takes the database and answers with a value and the new database, or with an
  error and no database. The clock and the random source are arguments: \<open>now\<close> is the time the
  operation reads. A result of a query is the row itself; the program builds a JSON object of
  its columns from it. Rows that a query orders equally come in the order of insertion.
\<close>

type_synonym 'a stored = "('a \<times> state_db) result"

definition sort_desc :: "('r \<Rightarrow> 'k::linorder) \<Rightarrow> 'r list \<Rightarrow> 'r list" where
  "sort_desc f rows = rev (sort_key f (rev rows))"

section \<open>Runs\<close>

definition msg_run_exists :: string where
  "msg_run_exists = ''Run already exists: ''"

definition msg_unknown_run :: string where
  "msg_unknown_run = ''Unknown run: ''"

definition run_already_exists :: "string \<Rightarrow> re_ctm_error" where
  "run_already_exists run =
     with_details (JObject [(''run_id'', JString run)])
       (with_category Conflict (error_new ''RUN_ALREADY_EXISTS'' (msg_run_exists @ run)))"

definition run_not_found :: "string \<Rightarrow> re_ctm_error" where
  "run_not_found run =
     with_details (JObject [(''run_id'', JString run)])
       (with_category NotFound (error_new ''RUN_NOT_FOUND'' (msg_unknown_run @ run)))"

definition get_run :: "state_db \<Rightarrow> string \<Rightarrow> run_row result" where
  "get_run db run = ok_or (find_run db run) (run_not_found run)"

definition new_run :: "string \<Rightarrow> string \<Rightarrow> string \<Rightarrow> string \<Rightarrow> json \<Rightarrow> string \<Rightarrow> run_row" where
  "new_run run problem owner st metadata now =
     \<lparr>rr_run_id = run, rr_problem_id = problem, rr_owner_id = owner, rr_state = st,
      rr_status = ''active'', rr_epoch = 1, rr_round_index = 0, rr_transition_seq = 0,
      rr_latex_passed = False, rr_verdict = None, rr_sealed = False, rr_metadata = metadata,
      rr_created_at = now, rr_updated_at = now\<rparr>"

definition create_run :: "string \<Rightarrow> state_db \<Rightarrow> string \<Rightarrow> string \<Rightarrow> string \<Rightarrow> string \<Rightarrow> json \<Rightarrow> run_row stored" where
  "create_run now db run problem owner st metadata =
     (case insert_into (find_run db run \<noteq> None) ''runs.run_id'' True
             (new_run run problem owner st metadata now) (db_runs db) of
        Inl e \<Rightarrow> if is_constraint e then Inl (run_already_exists run) else Inl e
      | Inr rows \<Rightarrow>
          let db = db\<lparr>db_runs := rows\<rparr> in
          bind_r (get_run db run) (\<lambda>r. Inr (r, db)))"

definition list_runs :: "state_db \<Rightarrow> string \<Rightarrow> int \<Rightarrow> run_row list" where
  "list_runs db owner limit =
     limit_rows limit (sort_desc rr_created_at (filter (\<lambda>r. rr_owner_id r = owner) (db_runs db)))"

text \<open>\<open>Map::extend\<close>, and the object of a metadata column.\<close>

definition map_extend :: "object \<Rightarrow> object \<Rightarrow> object" where
  "map_extend m updates = fold (\<lambda>(k, v) m. bt_insert k v m) updates m"

definition parse_object_or_empty :: "json \<Rightarrow> object" where
  "parse_object_or_empty v = (case as_object v of None \<Rightarrow> [] | Some m \<Rightarrow> m)"

definition run_unknown :: "string \<Rightarrow> re_ctm_error" where
  "run_unknown run = with_category NotFound (error_new ''RUN_NOT_FOUND'' (msg_unknown_run @ run))"

definition set_run_metadata :: "string \<Rightarrow> object \<Rightarrow> run_row \<Rightarrow> run_row" where
  "set_run_metadata now m r = r\<lparr>rr_metadata := JObject m, rr_updated_at := now\<rparr>"

definition update_run_metadata :: "string \<Rightarrow> state_db \<Rightarrow> string \<Rightarrow> object \<Rightarrow> run_row stored" where
  "update_run_metadata now db run updates =
     bind_r (ok_or (find_run db run) (run_unknown run)) (\<lambda>row.
     let metadata = map_extend (parse_object_or_empty (rr_metadata row)) updates;
         db = db\<lparr>db_runs := update_rows (\<lambda>r. rr_run_id r = run) (set_run_metadata now metadata)
                            (db_runs db)\<rparr> in
     bind_r (get_run db run) (\<lambda>r. Inr (r, db)))"

section \<open>Domains\<close>

definition msg_unknown_domain :: string where
  "msg_unknown_domain = ''Unknown domain: ''"

definition msg_domain_not_open :: string where
  "msg_domain_not_open = ''Domain is not open: ''"

definition domain_not_found :: "string \<Rightarrow> re_ctm_error" where
  "domain_not_found domain =
     with_category NotFound (error_new ''DOMAIN_NOT_FOUND'' (msg_unknown_domain @ domain))"

definition get_domain :: "state_db \<Rightarrow> string \<Rightarrow> domain_row result" where
  "get_domain db domain = ok_or (find_domain db domain) (domain_not_found domain)"

definition insert_domain :: "string \<Rightarrow> state_db \<Rightarrow> string \<Rightarrow> string \<Rightarrow> string \<Rightarrow> string option \<Rightarrow>
    int option \<Rightarrow> json \<Rightarrow> state_db result" where
  "insert_domain now db domain run role snapshot order_index metadata =
     map_ok (\<lambda>rows. db\<lparr>db_domains := rows\<rparr>)
       (insert_into (find_domain db domain \<noteq> None) ''domains.domain_id'' (find_run db run \<noteq> None)
          \<lparr>dm_domain_id = domain, dm_run_id = run, dm_role = role, dm_status = ''open'',
           dm_snapshot_id = snapshot, dm_order_index = order_index, dm_metadata = metadata,
           dm_created_at = now, dm_sealed_at = None\<rparr> (db_domains db))"

definition create_domain :: "string \<Rightarrow> state_db \<Rightarrow> string \<Rightarrow> string \<Rightarrow> string \<Rightarrow> string option \<Rightarrow>
    int option \<Rightarrow> json \<Rightarrow> domain_row stored" where
  "create_domain now db domain run role snapshot order_index metadata =
     bind_r (insert_domain now db domain run role snapshot order_index metadata) (\<lambda>db.
     bind_r (get_domain db domain) (\<lambda>d. Inr (d, db)))"

definition list_domains :: "state_db \<Rightarrow> string \<Rightarrow> string option \<Rightarrow> string option \<Rightarrow> domain_row list" where
  "list_domains db run role status =
     sort_key dm_order_index (sort_key dm_created_at
       (filter (\<lambda>d. dm_run_id d = run
                 \<and> (case role of None \<Rightarrow> True | Some x \<Rightarrow> dm_role d = x)
                 \<and> (case status of None \<Rightarrow> True | Some x \<Rightarrow> dm_status d = x)) (db_domains db)))"

definition seal_row :: "string \<Rightarrow> domain_row \<Rightarrow> domain_row" where
  "seal_row now d = d\<lparr>dm_status := ''sealed'', dm_sealed_at := Some now\<rparr>"

definition revoke_row :: "string \<Rightarrow> string \<Rightarrow> capability_row \<Rightarrow> capability_row" where
  "revoke_row now reason c =
     c\<lparr>cp_revoked := True, cp_revoked_at := Some now, cp_revoke_reason := Some reason\<rparr>"

text \<open>\<open>UPDATE capabilities SET revoked=1 ... WHERE ... AND revoked=0\<close>.\<close>

definition revoke_where :: "string \<Rightarrow> string \<Rightarrow> (capability_row \<Rightarrow> bool) \<Rightarrow> state_db \<Rightarrow> state_db" where
  "revoke_where now reason P db =
     db\<lparr>db_capabilities := update_rows (\<lambda>c. P c \<and> \<not> cp_revoked c) (revoke_row now reason)
                             (db_capabilities db)\<rparr>"

definition seal_domain :: "string \<Rightarrow> state_db \<Rightarrow> string \<Rightarrow> domain_row stored" where
  "seal_domain now db domain =
     bind_r (ok_or (find_domain db domain) (domain_not_found domain)) (\<lambda>row.
     if dm_status row \<noteq> ''open''
     then Inl (with_category Conflict (error_new ''DOMAIN_NOT_OPEN'' (msg_domain_not_open @ domain)))
     else
       let db = db\<lparr>db_domains := update_rows (\<lambda>d. dm_domain_id d = domain) (seal_row now)
                                 (db_domains db)\<rparr>;
           db = revoke_where now ''domain_sealed'' (\<lambda>c. cp_domain_id c = domain) db in
       bind_r (get_domain db domain) (\<lambda>d. Inr (d, db)))"

section \<open>Capabilities\<close>

definition insert_capability :: "state_db \<Rightarrow> string \<Rightarrow> string \<Rightarrow> string \<Rightarrow> string \<Rightarrow> int \<Rightarrow> string \<Rightarrow>
    string list \<Rightarrow> int \<Rightarrow> int \<Rightarrow> unit stored" where
  "insert_capability db nonce run domain role epoch issued_state permissions issued_at expires_at =
     map_ok (\<lambda>rows. ((), db\<lparr>db_capabilities := rows\<rparr>))
       (insert_into (find_capability db nonce \<noteq> None) ''capabilities.nonce''
          (find_run db run \<noteq> None \<and> find_domain db domain \<noteq> None)
          \<lparr>cp_nonce = nonce, cp_run_id = run, cp_domain_id = domain, cp_role = role,
           cp_epoch = epoch, cp_issued_state = issued_state, cp_permissions = permissions,
           cp_issued_at = issued_at, cp_expires_at = expires_at, cp_revoked = False,
           cp_revoked_at = None, cp_revoke_reason = None\<rparr> (db_capabilities db))"

definition get_capability :: "state_db \<Rightarrow> string \<Rightarrow> capability_row option" where
  "get_capability db nonce = find_capability db nonce"

definition revoke_capability :: "string \<Rightarrow> state_db \<Rightarrow> string \<Rightarrow> string \<Rightarrow> unit stored" where
  "revoke_capability now db nonce reason =
     Inr ((), revoke_where now reason (\<lambda>c. cp_nonce c = nonce) db)"

section \<open>Branches\<close>

definition msg_unknown_branch :: string where
  "msg_unknown_branch = ''Unknown branch: ''"

definition branch_not_found :: "string \<Rightarrow> re_ctm_error" where
  "branch_not_found branch =
     with_category NotFound (error_new ''BRANCH_NOT_FOUND'' (msg_unknown_branch @ branch))"

definition get_branch :: "state_db \<Rightarrow> string \<Rightarrow> branch_row result" where
  "get_branch db branch = ok_or (find_branch db branch) (branch_not_found branch)"

definition insert_branch :: "string \<Rightarrow> state_db \<Rightarrow> string \<Rightarrow> string \<Rightarrow> string \<Rightarrow> string \<Rightarrow> string \<Rightarrow> int \<Rightarrow>
    json \<Rightarrow> state_db result" where
  "insert_branch now db branch run plan domain snapshot order_index metadata =
     map_ok (\<lambda>rows. db\<lparr>db_branches := rows\<rparr>)
       (insert_into (find_branch db branch \<noteq> None) ''branches.branch_id''
          (find_run db run \<noteq> None \<and> find_domain db domain \<noteq> None)
          \<lparr>br_branch_id = branch, br_run_id = run, br_plan_id = plan, br_domain_id = domain,
           br_snapshot_id = snapshot, br_order_index = order_index, br_status = ''pending'',
           br_result_path = None, br_metadata = metadata, br_created_at = now,
           br_sealed_at = None\<rparr> (db_branches db))"

definition create_branch :: "string \<Rightarrow> state_db \<Rightarrow> string \<Rightarrow> string \<Rightarrow> string \<Rightarrow> string \<Rightarrow> string \<Rightarrow> int \<Rightarrow>
    json \<Rightarrow> branch_row stored" where
  "create_branch now db branch run plan domain snapshot order_index metadata =
     bind_r (insert_branch now db branch run plan domain snapshot order_index metadata) (\<lambda>db.
     bind_r (get_branch db branch) (\<lambda>b. Inr (b, db)))"

definition list_branches :: "state_db \<Rightarrow> string \<Rightarrow> branch_row list" where
  "list_branches db run =
     sort_key br_order_index (filter (\<lambda>b. br_run_id b = run) (db_branches db))"

text \<open>\<open>COALESCE\<close>.\<close>

definition coalesce :: "'a option \<Rightarrow> 'a option \<Rightarrow> 'a option" where
  "coalesce x y = (case x of None \<Rightarrow> y | Some _ \<Rightarrow> x)"

definition update_branch_status :: "string \<Rightarrow> state_db \<Rightarrow> string \<Rightarrow> string \<Rightarrow> string option \<Rightarrow> branch_row stored" where
  "update_branch_status now db branch status path =
     (let sealed_at = (if status = ''sealed'' then Some now else None);
          P = (\<lambda>b. br_branch_id b = branch);
          rows = update_rows P (\<lambda>b. b\<lparr>br_status := status,
                   br_result_path := coalesce path (br_result_path b),
                   br_sealed_at := coalesce sealed_at (br_sealed_at b)\<rparr>) (db_branches db) in
      if matching P (db_branches db) \<noteq> 1 then Inl (branch_not_found branch)
      else
        let db = db\<lparr>db_branches := rows\<rparr> in
        bind_r (get_branch db branch) (\<lambda>b. Inr (b, db)))"

section \<open>Steering and transitions\<close>

text \<open>No row is deleted, so the identifier \<open>AUTOINCREMENT\<close> gives is one more than the number of
  rows.\<close>

definition next_rowid :: "'r list \<Rightarrow> int" where
  "next_rowid rows = int (length rows) + 1"

definition add_steering :: "string \<Rightarrow> state_db \<Rightarrow> string \<Rightarrow> string \<Rightarrow> string \<Rightarrow> int stored" where
  "add_steering now db run owner msg =
     (let rowid = next_rowid (db_steering db) in
      map_ok (\<lambda>rows. (rowid, db\<lparr>db_steering := rows\<rparr>))
        (insert_into False ''steering.id'' (find_run db run \<noteq> None)
           \<lparr>sg_id = rowid, sg_run_id = run, sg_owner_id = owner, sg_message = msg,
            sg_consumed = False, sg_created_at = now, sg_consumed_at = None\<rparr> (db_steering db)))"

definition consume_row :: "string \<Rightarrow> steering_row \<Rightarrow> steering_row" where
  "consume_row now m = m\<lparr>sg_consumed := True, sg_consumed_at := Some now\<rparr>"

definition consume_steering :: "string \<Rightarrow> state_db \<Rightarrow> string \<Rightarrow> int \<Rightarrow> steering_row list stored" where
  "consume_steering now db run limit =
     (let rows = limit_rows limit (sort_key sg_id
                   (filter (\<lambda>m. sg_run_id m = run \<and> \<not> sg_consumed m) (db_steering db)));
          messages = fold (\<lambda>i ms. update_rows (\<lambda>m. sg_id m = i) (consume_row now) ms)
                       (map sg_id rows) (db_steering db) in
      Inr (rows, db\<lparr>db_steering := messages\<rparr>))"

definition list_transitions :: "state_db \<Rightarrow> string \<Rightarrow> transition_row list" where
  "list_transitions db run =
     sort_key tr_sequence (filter (\<lambda>t. tr_run_id t = run) (db_transitions db))"

section \<open>What the operations do\<close>

lemma is_constraint_unique [simp]: "is_constraint (unique_failed columns)"
proof -
  have l: "map to_lower ''constraint'' = ''constraint''" by code_simp
  have "map to_lower (''UNIQUE constraint failed: '' @ columns) =
      map to_lower ''UNIQUE '' @ map to_lower ''constraint'' @ map to_lower ('' failed: '' @ columns)"
    by simp
  then have s: "sublist ''constraint'' (map to_lower (''UNIQUE constraint failed: '' @ columns))"
    unfolding l by (metis sublist_appendI)
  show ?thesis
    using s by (simp only: is_constraint_def unique_failed_def sql_error_def error_simps)
qed

end
