(* ===== verification/Capability_Claims.thy ===== *)
theory Capability_Claims
  imports Store_Runs
begin

text \<open>
  The pure part of \<open>crates/mtm-storage/src/capability.rs\<close>: what a capability claims, the patterns
  of its permissions, the permissions of a role, and the access rules that hold for a role
  whatever its permissions say.

  A pattern is matched byte by byte: \<open>*\<close> stands for any bytes and \<open>?\<close> for one. The program
  computes the match with one row of a table per pattern byte; \<open>globs\<close> says what a match is, and
  the two agree.
\<close>

section \<open>Claims\<close>

record capability_claims =
  ca_nonce :: string
  ca_run_id :: string
  ca_owner_id :: string
  ca_domain_id :: string
  ca_role :: workflow_role
  ca_epoch :: int
  ca_issued_state :: workflow_state
  ca_permissions :: "string list"
  ca_issued_at :: int
  ca_expires_at :: int

definition i64_json :: "int \<Rightarrow> json" where
  "i64_json i = JNumber (if i < 0 then NegInt i else PosInt (nat i))"

definition claims_to_payload :: "capability_claims \<Rightarrow> json" where
  "claims_to_payload c = JObject
     [(''domain_id'', JString (ca_domain_id c)),
      (''epoch'', i64_json (ca_epoch c)),
      (''exp'', i64_json (ca_expires_at c)),
      (''iat'', i64_json (ca_issued_at c)),
      (''nonce'', JString (ca_nonce c)),
      (''owner_id'', JString (ca_owner_id c)),
      (''permissions'', JArray (map JString (ca_permissions c))),
      (''role'', JString (role_as_str (ca_role c))),
      (''run_id'', JString (ca_run_id c)),
      (''state'', JString (state_as_str (ca_issued_state c))),
      (''v'', JNumber (PosInt 1))]"

definition denied :: "string \<Rightarrow> string \<Rightarrow> json \<Rightarrow> re_ctm_error" where
  "denied c m d = with_details d (with_category Permission (error_new c m))"

definition no_details :: json where
  "no_details = JObject []"

definition msg_capability_malformed :: string where
  "msg_capability_malformed = ''Capability is malformed or has an invalid signature.''"

definition msg_capability_incomplete :: string where
  "msg_capability_incomplete = ''Capability payload is incomplete.''"

definition capability_invalid :: re_ctm_error where
  "capability_invalid = denied ''CAPABILITY_INVALID'' msg_capability_malformed no_details"

definition incomplete_capability :: re_ctm_error where
  "incomplete_capability = denied ''CAPABILITY_INVALID'' msg_capability_incomplete no_details"

definition required_nonempty :: "object \<Rightarrow> string \<Rightarrow> string result" where
  "required_nonempty obj k =
     (case Option.bind (obj_get obj k) as_str of
        Some s \<Rightarrow> if s \<noteq> '''' then Inr s else Inl incomplete_capability
      | None \<Rightarrow> Inl incomplete_capability)"

definition exact_i64 :: "object \<Rightarrow> string \<Rightarrow> int result" where
  "exact_i64 obj k = ok_or (Option.bind (obj_get obj k) as_i64) incomplete_capability"

definition parse_state :: "string \<Rightarrow> workflow_state result" where
  "parse_state s = ok_or (state_from_wire s) incomplete_capability"

definition parse_role :: "string \<Rightarrow> workflow_role result" where
  "parse_role s = ok_or (role_from_wire s) incomplete_capability"

definition claim_fields :: "string list" where
  "claim_fields = [''v'', ''nonce'', ''run_id'', ''owner_id'', ''domain_id'', ''role'', ''epoch'',
     ''state'', ''permissions'', ''iat'', ''exp'']"

definition claim_permission :: "json \<Rightarrow> string result" where
  "claim_permission v =
     (case as_str v of
        Some s \<Rightarrow> if s \<noteq> '''' then Inr s else Inl incomplete_capability
      | None \<Rightarrow> Inl incomplete_capability)"

definition claims_from_payload :: "json \<Rightarrow> capability_claims result" where
  "claims_from_payload payload =
     bind_r (ok_or (as_object payload) incomplete_capability) (\<lambda>obj.
     if set (map fst obj) \<noteq> set claim_fields then Inl incomplete_capability
     else if Option.bind (obj_get obj ''v'') as_i64 \<noteq> Some 1 then Inl incomplete_capability
     else
     bind_r (required_nonempty obj ''nonce'') (\<lambda>nonce.
     bind_r (required_nonempty obj ''run_id'') (\<lambda>run.
     bind_r (required_nonempty obj ''owner_id'') (\<lambda>owner.
     bind_r (required_nonempty obj ''domain_id'') (\<lambda>domain.
     bind_r (bind_r (required_nonempty obj ''role'') parse_role) (\<lambda>role.
     bind_r (bind_r (required_nonempty obj ''state'') parse_state) (\<lambda>st.
     bind_r (exact_i64 obj ''epoch'') (\<lambda>epoch.
     bind_r (exact_i64 obj ''iat'') (\<lambda>iat.
     bind_r (exact_i64 obj ''exp'') (\<lambda>exp.
     bind_r (ok_or (Option.bind (obj_get obj ''permissions'') as_array) incomplete_capability) (\<lambda>ps.
     bind_r (traverse_r claim_permission ps) (\<lambda>permissions.
     if permissions = [] \<or> epoch < 0 \<or> iat < 0 \<or> exp \<le> iat then Inl incomplete_capability
     else Inr \<lparr>ca_nonce = nonce, ca_run_id = run, ca_owner_id = owner, ca_domain_id = domain,
                ca_role = role, ca_epoch = epoch, ca_issued_state = st,
                ca_permissions = permissions, ca_issued_at = iat, ca_expires_at = exp\<rparr>))))))))))))"

text \<open>The registered row of a capability against its signed claims.\<close>

definition record_matches_claims :: "capability_row \<Rightarrow> capability_claims \<Rightarrow> bool" where
  "record_matches_claims row c \<longleftrightarrow>
     cp_run_id row = ca_run_id c \<and> cp_domain_id row = ca_domain_id c
     \<and> cp_role row = role_as_str (ca_role c) \<and> cp_epoch row = ca_epoch c
     \<and> cp_issued_state row = state_as_str (ca_issued_state c)
     \<and> cp_permissions row = ca_permissions c \<and> cp_issued_at row = ca_issued_at c
     \<and> cp_expires_at row = ca_expires_at c"

section \<open>Permission patterns\<close>

fun star_row :: "bool \<Rightarrow> bool list \<Rightarrow> bool list" where
  "star_row carry [] = []"
| "star_row carry (p # ps) = (p \<or> carry) # star_row (p \<or> carry) ps"

definition byte_row :: "char \<Rightarrow> string \<Rightarrow> bool list \<Rightarrow> bool list" where
  "byte_row t s previous =
     False # map2 (\<lambda>c p. p \<and> (t = CHR ''?'' \<or> t = c)) s previous"

definition pattern_row :: "string \<Rightarrow> char \<Rightarrow> bool list \<Rightarrow> bool list" where
  "pattern_row s t previous =
     (if t = CHR ''*'' then star_row False previous else byte_row t s previous)"

definition wildcard_match :: "string \<Rightarrow> string \<Rightarrow> bool" where
  "wildcard_match pattern s =
     fold (pattern_row s) pattern (True # replicate (length s) False) ! length s"

inductive globs :: "string \<Rightarrow> string \<Rightarrow> bool" where
  globs_Nil: "globs [] []"
| globs_byte: "globs p s \<Longrightarrow> globs (c # p) (c # s)"
| globs_any: "globs p s \<Longrightarrow> globs (CHR ''?'' # p) (c # s)"
| globs_star: "globs p s \<Longrightarrow> globs (CHR ''*'' # p) (t @ s)"

section \<open>Roles\<close>

fun role_for_state :: "workflow_state \<Rightarrow> workflow_role option" where
  "role_for_state Assess = Some RoleGenerator"
| "role_for_state Explore = Some RoleGenerator"
| "role_for_state ProposePlans = Some RoleGenerator"
| "role_for_state DirectProving = Some RoleGenerator"
| "role_for_state IdentifyFailures = Some RoleGenerator"
| "role_for_state Replan = Some RoleGenerator"
| "role_for_state BranchRun = Some RoleBranch"
| "role_for_state BranchJoin = Some RoleJoin"
| "role_for_state Assemble = Some RoleAssembler"
| "role_for_state Verify = Some RoleVerifier"
| "role_for_state Repair = Some RoleRepair"
| "role_for_state Finalize = Some RoleFinalizer"
| "role_for_state _ = None"

fun default_permissions :: "workflow_role \<Rightarrow> string list" where
  "default_permissions RoleGenerator =
     [''read:problem'', ''read:references'', ''read:project:verified_dependencies'',
      ''read:steering'', ''read:memory:generation:*'', ''write:memory:generation:*'',
      ''search:memory:generation:*'', ''retrieve:external:theorems'',
      ''retrieve:external:research'', ''commit:workflow'']"
| "default_permissions RoleBranch =
     [''read:problem'', ''read:references'', ''read:project:verified_dependencies'',
      ''read:snapshot'', ''read:branch:self'', ''write:branch:self'', ''read:memory:branch:*'',
      ''write:memory:branch:*'', ''search:memory:branch:*'', ''retrieve:external:theorems'',
      ''retrieve:external:research'', ''commit:workflow'']"
| "default_permissions RoleJoin =
     [''read:problem'', ''read:snapshot'', ''read:branch:sealed:*'', ''write:join_result'',
      ''write:memory:generation:*'', ''commit:workflow'']"
| "default_permissions RoleAssembler =
     [''read:problem'', ''read:references'', ''read:project:verified_dependencies'',
      ''read:memory:generation:*'', ''read:join_result'', ''write:proof'',
      ''write:proof_manifest'', ''commit:workflow'']"
| "default_permissions RoleVerifier =
     [''read:problem'', ''read:proof'', ''read:proof_manifest'',
      ''read:project:verified_dependencies'', ''read:references:approved'',
      ''read:references:candidates'', ''read:memory:verifier:*'', ''write:memory:verifier:*'',
      ''write:verification_report'', ''write:reference_audit'', ''retrieve:external:theorems'',
      ''retrieve:external:research'', ''commit:workflow'']"
| "default_permissions RoleRepair =
     [''read:problem'', ''read:proof'', ''read:proof_manifest'',
      ''read:project:verified_dependencies'', ''read:verification_report'',
      ''read:memory:generation:*'', ''write:memory:generation:*'', ''write:proof'',
      ''write:proof_manifest'', ''retrieve:external:theorems'', ''retrieve:external:research'',
      ''commit:workflow'']"
| "default_permissions RoleFinalizer = [''commit:workflow'']"

definition msg_role_not_active :: string where
  "msg_role_not_active = ''Role is not active in the current workflow state.''"

definition msg_verifier_firewall :: string where
  "msg_verifier_firewall = ''Verifier cannot access generation-private resources.''"

definition msg_cross_branch :: string where
  "msg_cross_branch = ''Branch domains cannot access another branch.''"

definition msg_join_only :: string where
  "msg_join_only = ''Sealed branch sets are visible only in the join domain.''"

definition msg_finalizer_mechanical :: string where
  "msg_finalizer_mechanical = ''Finalizer does not expose model-controlled reads or writes.''"

text \<open>The branch a domain belongs to, from its metadata.\<close>

definition domain_branch :: "json \<Rightarrow> string" where
  "domain_branch metadata =
     (case Option.bind (json_get metadata ''branch_id'') as_str of None \<Rightarrow> '''' | Some b \<Rightarrow> b)"

definition generation_private :: "string \<Rightarrow> bool" where
  "generation_private resource \<longleftrightarrow>
     starts_with ''memory:generation:'' resource \<or> starts_with ''branch:'' resource
     \<or> resource \<in> {''steering'', ''join_result'', ''snapshot''}"

definition authorize_role_resource ::
    "workflow_role \<Rightarrow> workflow_state \<Rightarrow> string \<Rightarrow> string \<Rightarrow> json \<Rightarrow> unit result" where
  "authorize_role_resource role st action resource metadata =
     (if role_for_state st \<noteq> Some role
      then Inl (denied ''ROLE_STATE_MISMATCH'' msg_role_not_active
        (JObject [(''role'', JString (role_as_str role)), (''state'', JString (state_as_str st))]))
      else if role = RoleVerifier \<and> generation_private resource
      then Inl (denied ''VERIFIER_DATA_FIREWALL'' msg_verifier_firewall
        (JObject [(''resource'', JString resource)]))
      else if role = RoleBranch \<and> starts_with ''branch:'' resource
        \<and> resource \<noteq> ''branch:self'' \<and> resource \<noteq> ''branch:'' @ domain_branch metadata
      then Inl (denied ''CROSS_BRANCH_ACCESS_DENIED'' msg_cross_branch
        (JObject [(''branch_id'', JString (domain_branch metadata)), (''resource'', JString resource)]))
      else if role \<noteq> RoleJoin \<and> starts_with ''branch:sealed:'' resource
      then Inl (denied ''JOIN_ONLY_RESOURCE'' msg_join_only no_details)
      else if role = RoleFinalizer \<and> action \<noteq> ''commit''
      then Inl (denied ''FINALIZER_MECHANICAL_ONLY'' msg_finalizer_mechanical no_details)
      else Inr ())"

section \<open>Patterns: the table computes the relation\<close>

lemma star_row_length [simp]: "length (star_row b ps) = length ps"
  by (induction ps arbitrary: b) auto

lemma star_row_nth:
  "i < length ps \<Longrightarrow> star_row b ps ! i \<longleftrightarrow> b \<or> (\<exists>j \<le> i. ps ! j)"
proof (induction ps arbitrary: b i)
  case Nil then show ?case by simp
next
  case (Cons p ps)
  show ?case
  proof (cases i)
    case 0 then show ?thesis by auto
  next
    case (Suc k)
    have "(\<exists>j \<le> Suc k. (p # ps) ! j) \<longleftrightarrow> p \<or> (\<exists>j \<le> k. ps ! j)"
      by (metis Suc_le_mono le0 nth_Cons_0 nth_Cons_Suc not0_implies_Suc)
    then show ?thesis using Cons Suc by auto
  qed
qed

lemma byte_row_length [simp]: "length previous = Suc (length s) \<Longrightarrow> length (byte_row t s previous) = Suc (length s)"
  by (simp add: byte_row_def)

lemma byte_row_nth:
  assumes "length previous = Suc (length s)" "i \<le> length s"
  shows "byte_row t s previous ! i \<longleftrightarrow>
    (\<exists>k. i = Suc k \<and> previous ! k \<and> (t = CHR ''?'' \<or> t = s ! k))"
  using assms by (cases i) (auto simp: byte_row_def)

lemma globs_append: "globs p s \<Longrightarrow> globs q t \<Longrightarrow> globs (p @ q) (s @ t)"
proof (induction rule: globs.induct)
  case (globs_star p s u)
  then show ?case using globs.globs_star [of "p @ q" "s @ t" u] by simp
qed (auto intro: globs.intros)

lemma globs_split:
  "globs (p @ q) s \<Longrightarrow> \<exists>a b. s = a @ b \<and> globs p a \<and> globs q b"
proof (induction p arbitrary: s)
  case Nil then show ?case by (auto intro: globs_Nil)
next
  case (Cons c p)
  from Cons.prems consider
      (byte) u where "s = c # u" "globs (p @ q) u"
    | (any) d u where "c = CHR ''?''" "s = d # u" "globs (p @ q) u"
    | (star) t u where "c = CHR ''*''" "s = t @ u" "globs (p @ q) u"
    by (auto elim: globs.cases)
  then show ?case
  proof cases
    case byte
    then obtain a b where "u = a @ b" "globs p a" "globs q b" using Cons.IH by blast
    then show ?thesis using byte by (metis append_Cons globs_byte)
  next
    case any
    then obtain a b where "u = a @ b" "globs p a" "globs q b" using Cons.IH by blast
    then show ?thesis using any by (metis append_Cons globs_any)
  next
    case star
    then obtain a b where "u = a @ b" "globs p a" "globs q b" using Cons.IH by blast
    then show ?thesis using star by (metis append_assoc globs_star)
  qed
qed

inductive_cases globs_NilE: "globs [] s"

inductive_cases globs_ConsE: "globs (c # p) s"

lemma globs_one: "globs [c] s \<longleftrightarrow> c = CHR ''*'' \<or> (\<exists>d. s = [d] \<and> (c = CHR ''?'' \<or> c = d))"
proof
  assume "globs [c] s"
  then show "c = CHR ''*'' \<or> (\<exists>d. s = [d] \<and> (c = CHR ''?'' \<or> c = d))"
    by (elim globs_ConsE) (auto elim: globs_NilE)
next
  assume "c = CHR ''*'' \<or> (\<exists>d. s = [d] \<and> (c = CHR ''?'' \<or> c = d))"
  then show "globs [c] s"
    using globs_star [OF globs_Nil, of s] globs_byte [OF globs_Nil] globs_any [OF globs_Nil] by auto
qed

lemma globs_snoc:
  "globs (p @ [c]) s \<longleftrightarrow> (\<exists>a b. s = a @ b \<and> globs p a
     \<and> (c = CHR ''*'' \<or> (\<exists>d. b = [d] \<and> (c = CHR ''?'' \<or> c = d))))"
  unfolding globs_one [symmetric] using globs_append globs_split by blast

lemma pattern_rows:
  "length (fold (pattern_row s) p (True # replicate (length s) False)) = Suc (length s)
   \<and> (\<forall>i \<le> length s. fold (pattern_row s) p (True # replicate (length s) False) ! i
         \<longleftrightarrow> globs p (take i s))"
proof (induction p rule: rev_induct)
  case Nil
  have "(True # replicate (length s) False) ! i \<longleftrightarrow> globs [] (take i s)" if "i \<le> length s" for i
    using that by (cases i) (auto intro: globs_Nil elim: globs_NilE)
  then show ?case by simp
next
  case (snoc c p)
  define row where "row = fold (pattern_row s) p (True # replicate (length s) False)"
  have len: "length row = Suc (length s)"
    and at: "\<And>i. i \<le> length s \<Longrightarrow> row ! i \<longleftrightarrow> globs p (take i s)"
    using snoc by (auto simp: row_def)
  have next_row: "pattern_row s c row ! i \<longleftrightarrow> globs (p @ [c]) (take i s)" if i: "i \<le> length s" for i
  proof (cases "c = CHR ''*''")
    case True
    have "pattern_row s c row ! i \<longleftrightarrow> (\<exists>j \<le> i. row ! j)"
      using True i len star_row_nth [of i row False] by (simp add: pattern_row_def)
    also have "\<dots> \<longleftrightarrow> (\<exists>j \<le> i. globs p (take j s))" using at i by force
    also have "\<dots> \<longleftrightarrow> (\<exists>a b. take i s = a @ b \<and> globs p a)"
    proof
      assume "\<exists>j \<le> i. globs p (take j s)"
      then obtain j where j: "j \<le> i" "globs p (take j s)" by blast
      then have "take i s = take j s @ drop j (take i s)"
        by (metis append_take_drop_id min.absorb1 take_take)
      then show "\<exists>a b. take i s = a @ b \<and> globs p a" using j by blast
    next
      assume "\<exists>a b. take i s = a @ b \<and> globs p a"
      then obtain a b where ab: "take i s = a @ b" "globs p a" by blast
      have "length (take i s) = length a + length b" using ab(1) by simp
      then have le: "length a \<le> i" using i by simp
      have "a = take (length a) (take i s)" using ab(1) by simp
      then have "a = take (length a) s" using le by (simp add: take_take min_absorb1)
      then have "globs p (take (length a) s)" using ab(2) by simp
      then show "\<exists>j \<le> i. globs p (take j s)" using le by blast
    qed
    finally show ?thesis using True by (simp add: globs_snoc)
  next
    case False
    have "pattern_row s c row ! i \<longleftrightarrow>
        (\<exists>k. i = Suc k \<and> row ! k \<and> (c = CHR ''?'' \<or> c = s ! k))"
      using False byte_row_nth [OF len i, of c] by (simp add: pattern_row_def)
    also have "\<dots> \<longleftrightarrow> (\<exists>k. i = Suc k \<and> globs p (take k s) \<and> (c = CHR ''?'' \<or> c = s ! k))"
      using at i by (metis Suc_leD)
    also have "\<dots> \<longleftrightarrow> (\<exists>a d. take i s = a @ [d] \<and> globs p a \<and> (c = CHR ''?'' \<or> c = d))"
    proof
      assume "\<exists>k. i = Suc k \<and> globs p (take k s) \<and> (c = CHR ''?'' \<or> c = s ! k)"
      then obtain k where k: "i = Suc k" "globs p (take k s)" "c = CHR ''?'' \<or> c = s ! k" by blast
      have "take i s = take k s @ [s ! k]" using i k(1) by (simp add: take_Suc_conv_app_nth)
      then show "\<exists>a d. take i s = a @ [d] \<and> globs p a \<and> (c = CHR ''?'' \<or> c = d)" using k by blast
    next
      assume "\<exists>a d. take i s = a @ [d] \<and> globs p a \<and> (c = CHR ''?'' \<or> c = d)"
      then obtain a d where a: "take i s = a @ [d]" "globs p a" "c = CHR ''?'' \<or> c = d" by blast
      then obtain k where k: "i = Suc k" using i by (cases i) auto
      then have "take k s = a" "s ! k = d"
        using a(1) i by (simp_all add: take_Suc_conv_app_nth)
      then show "\<exists>k. i = Suc k \<and> globs p (take k s) \<and> (c = CHR ''?'' \<or> c = s ! k)" using k a by auto
    qed
    finally show ?thesis using False by (auto simp: globs_snoc)
  qed
  moreover have "length (pattern_row s c row) = Suc (length s)" using len by (simp add: pattern_row_def)
  ultimately show ?case by (simp add: row_def)
qed

lemma wildcard_match_iff: "wildcard_match pattern s \<longleftrightarrow> globs pattern s"
  using pattern_rows [of s pattern] by (simp add: wildcard_match_def)

text \<open>A pattern without wildcards matches itself only, and a trailing star every extension.\<close>

lemma wildcard_match_self [simp]: "wildcard_match s s"
  unfolding wildcard_match_iff by (induction s) (auto intro: globs.intros)

lemma wildcard_match_literal:
  assumes "CHR ''*'' \<notin> set p" "CHR ''?'' \<notin> set p"
  shows "wildcard_match p s \<longleftrightarrow> s = p"
proof -
  have "globs p s \<Longrightarrow> CHR ''*'' \<notin> set p \<Longrightarrow> CHR ''?'' \<notin> set p \<Longrightarrow> s = p"
    by (induction rule: globs.induct) auto
  then show ?thesis using assms wildcard_match_self wildcard_match_iff by blast
qed

lemma wildcard_match_prefix: "wildcard_match (p @ ''*'') (p @ t)"
  using globs_append [of p p "''*''" t] wildcard_match_self [of p] globs_one [of "CHR ''*''" t]
  unfolding wildcard_match_iff by blast

section \<open>Claims survive the trip through their payload\<close>

definition claims_ok :: "capability_claims \<Rightarrow> bool" where
  "claims_ok c \<longleftrightarrow>
     ca_nonce c \<noteq> '''' \<and> ca_run_id c \<noteq> '''' \<and> ca_owner_id c \<noteq> '''' \<and> ca_domain_id c \<noteq> ''''
     \<and> ca_permissions c \<noteq> [] \<and> '''' \<notin> set (ca_permissions c)
     \<and> 0 \<le> ca_epoch c \<and> 0 \<le> ca_issued_at c \<and> ca_issued_at c < ca_expires_at c
     \<and> i64_range (ca_epoch c) \<and> i64_range (ca_issued_at c) \<and> i64_range (ca_expires_at c)"

lemma as_i64_i64_json [simp]: "i64_range i \<Longrightarrow> as_i64 (i64_json i) = Some i"
  by (auto simp: i64_json_def i64_range_def nat_less_iff)

lemma traverse_claim_permission:
  "'''' \<notin> set ps \<Longrightarrow> traverse_r claim_permission (map JString ps) = Inr ps"
  by (induction ps) (auto simp: claim_permission_def)

lemma role_name_nonempty [simp]: "role_as_str r \<noteq> []"
  by (cases r) simp_all

lemma state_name_nonempty [simp]: "state_as_str st \<noteq> []"
  by (cases st) simp_all

lemma claims_roundtrip: "claims_ok c \<Longrightarrow> claims_from_payload (claims_to_payload c) = Inr c"
  by (simp add: claims_ok_def claims_from_payload_def claims_to_payload_def claim_fields_def
      required_nonempty_def parse_role_def parse_state_def exact_i64_def traverse_claim_permission)
    (auto)

end
