(* ===== verification/Capability.thy ===== *)
theory Capability
  imports Capability_Claims
begin

text \<open>
  \<open>CapabilityAuthority\<close> of \<open>crates/mtm-storage/src/capability.rs\<close>: capability tokens are issued,
  validated and revoked against the state database.

  The crates behind a token (\<open>base64\<close>, \<open>hmac\<close>, \<open>sha2\<close>, \<open>serde_json\<close>) are the fields of a
  \<open>token_codec\<close>. Serializing a \<open>Value\<close> and keying an HMAC with any number of bytes do not fail,
  so the two errors of \<open>encode\<close> do not occur. The events for the observer are values: an operation
  that emits one returns it. The opt-in diagnostics, which only repeat facts about a token, are
  left out.
\<close>

section \<open>Tokens\<close>

record token_codec =
  tk_encode :: "string \<Rightarrow> string"
  tk_decode :: "string \<Rightarrow> string option"
  tk_mac :: "string \<Rightarrow> string \<Rightarrow> string"
  tk_print :: "json \<Rightarrow> string"
  tk_parse :: "string \<Rightarrow> json option"
  tk_sha256 :: "string \<Rightarrow> string"

definition capability_token_min_length :: nat where
  "capability_token_min_length = 80"

definition capability_token_max_length :: nat where
  "capability_token_max_length = 8192"

definition token_byte :: "char \<Rightarrow> bool" where
  "token_byte c \<longleftrightarrow> is_ascii_alphanumeric c \<or> c \<in> {CHR ''_'', CHR ''-'', CHR ''.''}"

definition valid_token_shape :: "string \<Rightarrow> bool" where
  "valid_token_shape token \<longleftrightarrow>
     capability_token_min_length \<le> length token \<and> length token \<le> capability_token_max_length
     \<and> length (filter (\<lambda>c. c = CHR ''.'') token) = 1 \<and> list_all token_byte token"

definition encode_token :: "token_codec \<Rightarrow> string \<Rightarrow> json \<Rightarrow> string" where
  "encode_token k secret payload =
     (let body = tk_encode k (tk_print k payload) in
      body @ ''.'' @ tk_encode k (tk_mac k secret body))"

definition msg_unsupported_payload :: string where
  "msg_unsupported_payload = ''Unsupported capability payload.''"

definition decode_token :: "token_codec \<Rightarrow> string \<Rightarrow> string \<Rightarrow> json result" where
  "decode_token k secret token =
     (if \<not> valid_token_shape token then Inl capability_invalid
      else
      bind_r (ok_or (split_once (CHR ''.'') token) capability_invalid) (\<lambda>(body, signature).
      bind_r (ok_or (tk_decode k signature) capability_invalid) (\<lambda>mac.
      if mac \<noteq> tk_mac k secret body then Inl capability_invalid
      else
      bind_r (ok_or (tk_decode k body) capability_invalid) (\<lambda>bytes.
      bind_r (ok_or (tk_parse k bytes) capability_invalid) (\<lambda>payload.
      if Option.bind (json_get payload ''v'') as_i64 \<noteq> Some 1 \<or> \<not> is_object payload
      then Inl (denied ''CAPABILITY_INVALID'' msg_unsupported_payload no_details)
      else Inr payload)))))"

definition decode_unverified_payload :: "token_codec \<Rightarrow> string \<Rightarrow> json result" where
  "decode_unverified_payload k token =
     bind_r (ok_or (split_once (CHR ''.'') token) capability_invalid) (\<lambda>(body, _).
     bind_r (ok_or (tk_decode k body) capability_invalid) (\<lambda>payload.
     ok_or (tk_parse k payload) capability_invalid))"

definition token_fingerprint :: "token_codec \<Rightarrow> string \<Rightarrow> string" where
  "token_fingerprint k token = take 12 (tk_sha256 k token)"

section \<open>Events\<close>

record capability_event =
  ev_event_type :: string
  ev_trace_id :: string
  ev_run_id :: "string option"
  ev_role :: "string option"
  ev_domain_id :: "string option"
  ev_decision :: string
  ev_reason :: string
  ev_details :: json

definition safe_payload :: "token_codec \<Rightarrow> json \<Rightarrow> string \<Rightarrow> string option" where
  "safe_payload k payload key =
     map_option (\<lambda>v. case as_str v of Some s \<Rightarrow> s | None \<Rightarrow> tk_print k v) (json_get payload key)"

section \<open>The authority\<close>

definition msg_secret_required :: string where
  "msg_secret_required = ''Capability signing requires at least 32 secret bytes.''"

definition authority_new :: "string \<Rightarrow> string result" where
  "authority_new secret =
     (if length secret < 32
      then Inl (with_category Security (error_new ''CAPABILITY_SECRET_REQUIRED'' msg_secret_required))
      else Inr secret)"

definition parse_workflow_state :: "run_row \<Rightarrow> workflow_state result" where
  "parse_workflow_state run = parse_state (rr_state run)"

definition msg_domain_role_mismatch :: string where
  "msg_domain_role_mismatch = ''Domain does not belong to the requested run and role.''"

definition msg_issue_domain_closed :: string where
  "msg_issue_domain_closed = ''Capabilities can be issued only for open domains.''"

definition msg_issue_role_not_active :: string where
  "msg_issue_role_not_active = ''The requested role is not active in the current workflow state.''"

definition role_state_mismatch :: "workflow_state \<Rightarrow> re_ctm_error" where
  "role_state_mismatch st =
     with_details (JObject
       [(''expected_role'', case role_for_state st of None \<Rightarrow> JNull | Some r \<Rightarrow> JString (role_as_str r)),
        (''state'', JString (state_as_str st))])
       (with_category Permission (error_new ''ROLE_STATE_MISMATCH'' msg_issue_role_not_active))"

definition sorted_permissions :: "string list \<Rightarrow> string list" where
  "sorted_permissions ps = fold bs_insert ps []"

definition issue_ttl :: "int option \<Rightarrow> int \<Rightarrow> int" where
  "issue_ttl ttl default_ttl =
     (case ttl of None \<Rightarrow> default_ttl | Some t \<Rightarrow> if t = 0 then default_ttl else t)"

definition issue_claims :: "int \<Rightarrow> string \<Rightarrow> int \<Rightarrow> run_row \<Rightarrow> string \<Rightarrow> string \<Rightarrow> workflow_role \<Rightarrow>
    workflow_state \<Rightarrow> string list \<Rightarrow> capability_claims" where
  "issue_claims now nonce ttl row run domain role st permissions =
     \<lparr>ca_nonce = nonce, ca_run_id = run, ca_owner_id = rr_owner_id row, ca_domain_id = domain,
      ca_role = role, ca_epoch = rr_epoch row, ca_issued_state = st,
      ca_permissions = sorted_permissions permissions, ca_issued_at = now,
      ca_expires_at = wrapping_add now ttl\<rparr>"

definition issued_event :: "token_codec \<Rightarrow> string \<Rightarrow> string \<Rightarrow> capability_claims \<Rightarrow> capability_event" where
  "issued_event k trace token c =
     \<lparr>ev_event_type = ''capability.issued'', ev_trace_id = trace, ev_run_id = Some (ca_run_id c),
      ev_role = Some (role_as_str (ca_role c)), ev_domain_id = Some (ca_domain_id c),
      ev_decision = ''allow'', ev_reason = ''role_state_preconditions_satisfied'',
      ev_details = JObject
        [(''capability_fingerprint'', JString (token_fingerprint k token)),
         (''expires_at'', i64_json (ca_expires_at c)),
         (''permissions'', JArray (map JString (ca_permissions c)))]\<rparr>"

definition issue :: "token_codec \<Rightarrow> string \<Rightarrow> int \<Rightarrow> int \<Rightarrow> string \<Rightarrow> state_db \<Rightarrow> string \<Rightarrow> string \<Rightarrow>
    workflow_role \<Rightarrow> string list \<Rightarrow> string \<Rightarrow> int option \<Rightarrow> (string \<times> capability_event) stored" where
  "issue k secret default_ttl now nonce db run domain role permissions trace ttl =
     bind_r (get_run db run) (\<lambda>row.
     bind_r (get_domain db domain) (\<lambda>dom.
     if dm_run_id dom \<noteq> run \<or> dm_role dom \<noteq> role_as_str role
     then Inl (with_category Security (error_new ''DOMAIN_ROLE_MISMATCH'' msg_domain_role_mismatch))
     else if dm_status dom \<noteq> domain_as_str DomainOpen
     then Inl (with_category Conflict (error_new ''DOMAIN_NOT_OPEN'' msg_issue_domain_closed))
     else
     bind_r (parse_workflow_state row) (\<lambda>st.
     if role_for_state st \<noteq> Some role then Inl (role_state_mismatch st)
     else
       let c = issue_claims now nonce (issue_ttl ttl default_ttl) row run domain role st permissions;
           token = encode_token k secret (claims_to_payload c) in
       bind_r (insert_capability db (ca_nonce c) (ca_run_id c) (ca_domain_id c)
                 (role_as_str (ca_role c)) (ca_epoch c) (state_as_str (ca_issued_state c))
                 (ca_permissions c) (ca_issued_at c) (ca_expires_at c)) (\<lambda>(_, db).
       Inr ((token, issued_event k trace token c), db)))))"

section \<open>Validation\<close>

definition msg_run_mismatch :: string where
  "msg_run_mismatch = ''Capability and run_id must come from the same server-issued task envelope.''"

definition msg_capability_unknown :: string where
  "msg_capability_unknown = ''Capability is not registered.''"

definition msg_registry_mismatch :: string where
  "msg_registry_mismatch = ''Persisted capability facts do not match the signed capability claims.''"

definition msg_capability_revoked :: string where
  "msg_capability_revoked = ''Capability has been revoked.''"

definition msg_capability_expired :: string where
  "msg_capability_expired = ''Capability has expired.''"

definition msg_owner_mismatch :: string where
  "msg_owner_mismatch = ''Capability is not bound to the authenticated OAuth principal.''"

definition msg_capability_stale :: string where
  "msg_capability_stale = ''Capability belongs to an earlier run epoch.''"

definition msg_state_mismatch :: string where
  "msg_state_mismatch = ''Capability is not valid in the current workflow state.''"

definition msg_domain_sealed :: string where
  "msg_domain_sealed = ''Capability domain is no longer open.''"

definition msg_domain_mismatch :: string where
  "msg_domain_mismatch = ''Capability/domain facts do not match.''"

definition msg_access_denied :: string where
  "msg_access_denied = ''Capability does not authorize this resource operation.''"

definition json_opt_string :: "string option \<Rightarrow> json" where
  "json_opt_string x = (case x of None \<Rightarrow> JNull | Some s \<Rightarrow> JString s)"

text \<open>What is checked of the registered row of a capability, and then of its run, its domain
  and the permission it needs.\<close>

definition validate_record :: "int \<Rightarrow> state_db \<Rightarrow> capability_claims \<Rightarrow> unit result" where
  "validate_record now db c =
     bind_r (ok_or (get_capability db (ca_nonce c))
               (denied ''CAPABILITY_UNKNOWN'' msg_capability_unknown no_details)) (\<lambda>row.
     if \<not> record_matches_claims row c
     then Inl (denied ''CAPABILITY_REGISTRY_MISMATCH'' msg_registry_mismatch no_details)
     else if cp_revoked row
     then Inl (denied ''CAPABILITY_REVOKED'' msg_capability_revoked
       (JObject [(''reason'', json_opt_string (cp_revoke_reason row))]))
     else if ca_expires_at c < now \<or> cp_expires_at row < now
     then Inl (denied ''CAPABILITY_EXPIRED'' msg_capability_expired no_details)
     else Inr ())"

definition validate_run :: "string \<Rightarrow> state_db \<Rightarrow> capability_claims \<Rightarrow> workflow_state result" where
  "validate_run owner db c =
     bind_r (get_run db (ca_run_id c)) (\<lambda>run.
     if ca_owner_id c \<noteq> owner \<or> rr_owner_id run \<noteq> owner
     then Inl (denied ''CAPABILITY_OWNER_MISMATCH'' msg_owner_mismatch no_details)
     else if rr_epoch run \<noteq> ca_epoch c
     then Inl (denied ''CAPABILITY_STALE'' msg_capability_stale no_details)
     else
     bind_r (parse_workflow_state run) (\<lambda>st.
     if st \<noteq> ca_issued_state c
     then Inl (denied ''CAPABILITY_STATE_MISMATCH'' msg_state_mismatch
       (JObject [(''current_state'', JString (state_as_str st)),
                 (''issued_state'', JString (state_as_str (ca_issued_state c)))]))
     else Inr st))"

definition validate_access :: "state_db \<Rightarrow> capability_claims \<Rightarrow> workflow_state \<Rightarrow> string \<Rightarrow> string \<Rightarrow> unit result" where
  "validate_access db c st action resource =
     bind_r (get_domain db (ca_domain_id c)) (\<lambda>dom.
     if dm_status dom \<noteq> domain_as_str DomainOpen
     then Inl (denied ''DOMAIN_SEALED'' msg_domain_sealed no_details)
     else if dm_run_id dom \<noteq> ca_run_id c \<or> dm_role dom \<noteq> role_as_str (ca_role c)
     then Inl (denied ''CAPABILITY_DOMAIN_MISMATCH'' msg_domain_mismatch no_details)
     else if \<not> list_ex (\<lambda>p. wildcard_match p (action @ '':'' @ resource)) (ca_permissions c)
     then Inl (denied ''ROLE_ACCESS_DENIED'' msg_access_denied
       (JObject [(''action'', JString action), (''resource'', JString resource)]))
     else authorize_role_resource (ca_role c) st action resource (dm_metadata dom))"

definition validate_inner :: "token_codec \<Rightarrow> string \<Rightarrow> int \<Rightarrow> state_db \<Rightarrow> string \<Rightarrow> string \<Rightarrow> string \<Rightarrow> string \<Rightarrow>
    string option \<Rightarrow> capability_claims result" where
  "validate_inner k secret now db token owner action resource expected_run =
     bind_r (decode_token k secret token) (\<lambda>payload.
     bind_r (claims_from_payload payload) (\<lambda>c.
     if expected_run \<noteq> None \<and> expected_run \<noteq> Some (ca_run_id c)
     then Inl (denied ''CAPABILITY_RUN_MISMATCH'' msg_run_mismatch
       (JObject [(''capability_run_id'', JString (ca_run_id c)),
                 (''expected_run_id'', json_opt_string expected_run)]))
     else
     bind_r (validate_record now db c) (\<lambda>_.
     bind_r (validate_run owner db c) (\<lambda>st.
     bind_r (validate_access db c st action resource) (\<lambda>_. Inr c)))))"

definition allowed_event :: "token_codec \<Rightarrow> string \<Rightarrow> string \<Rightarrow> string \<Rightarrow> string \<Rightarrow> capability_claims \<Rightarrow> capability_event" where
  "allowed_event k trace token action resource c =
     \<lparr>ev_event_type = ''capability.allowed'', ev_trace_id = trace, ev_run_id = Some (ca_run_id c),
      ev_role = Some (role_as_str (ca_role c)), ev_domain_id = Some (ca_domain_id c),
      ev_decision = ''allow'', ev_reason = ''signed_capability_role_acl_and_state_passed'',
      ev_details = JObject [(''action'', JString action),
        (''capability_fingerprint'', JString (token_fingerprint k token)),
        (''resource'', JString resource)]\<rparr>"

definition denied_event :: "token_codec \<Rightarrow> string \<Rightarrow> string \<Rightarrow> string \<Rightarrow> string \<Rightarrow> re_ctm_error \<Rightarrow> capability_event" where
  "denied_event k trace token action resource e =
     (let get = (\<lambda>key. case decode_unverified_payload k token of
                   Inl _ \<Rightarrow> None | Inr payload \<Rightarrow> safe_payload k payload key) in
      \<lparr>ev_event_type = ''capability.denied'', ev_trace_id = trace, ev_run_id = get ''run_id'',
       ev_role = get ''role'', ev_domain_id = get ''domain_id'', ev_decision = ''deny'',
       ev_reason = code e,
       ev_details = JObject [(''action'', JString action),
         (''capability_fingerprint'', JString (token_fingerprint k token)),
         (''error'', to_payload e), (''resource'', JString resource)]\<rparr>)"

definition validate :: "token_codec \<Rightarrow> string \<Rightarrow> int \<Rightarrow> state_db \<Rightarrow> string \<Rightarrow> string \<Rightarrow> string \<Rightarrow> string \<Rightarrow>
    string \<Rightarrow> string option \<Rightarrow> capability_claims result \<times> capability_event" where
  "validate k secret now db token owner action resource trace expected_run =
     (let r = validate_inner k secret now db token owner action resource expected_run in
      case r of
        Inr c \<Rightarrow> (r, allowed_event k trace token action resource c)
      | Inl e \<Rightarrow> (r, denied_event k trace token action resource e))"

record authorized_submission =
  as_claims :: capability_claims
  as_fingerprint :: string

definition authorize_submission :: "token_codec \<Rightarrow> string \<Rightarrow> int \<Rightarrow> state_db \<Rightarrow> string \<Rightarrow> string \<Rightarrow> string \<Rightarrow>
    string \<Rightarrow> authorized_submission result" where
  "authorize_submission k secret now db token owner run trace =
     map_ok (\<lambda>c. \<lparr>as_claims = c, as_fingerprint = tk_sha256 k token\<rparr>)
       (fst (validate k secret now db token owner ''commit'' ''workflow'' trace (Some run)))"

definition revoked_event :: "token_codec \<Rightarrow> string \<Rightarrow> string \<Rightarrow> string \<Rightarrow> capability_claims \<Rightarrow> capability_event" where
  "revoked_event k trace token reason c =
     \<lparr>ev_event_type = ''capability.revoked'', ev_trace_id = trace, ev_run_id = Some (ca_run_id c),
      ev_role = Some (role_as_str (ca_role c)), ev_domain_id = Some (ca_domain_id c),
      ev_decision = ''allow'', ev_reason = reason,
      ev_details = JObject [(''capability_fingerprint'', JString (token_fingerprint k token))]\<rparr>"

definition revoke :: "token_codec \<Rightarrow> string \<Rightarrow> string \<Rightarrow> state_db \<Rightarrow> string \<Rightarrow> string \<Rightarrow> string \<Rightarrow> capability_event stored" where
  "revoke k secret now db token reason trace =
     bind_r (decode_token k secret token) (\<lambda>payload.
     bind_r (claims_from_payload payload) (\<lambda>c.
     bind_r (revoke_capability now db (ca_nonce c) reason) (\<lambda>(_, db).
     Inr (revoked_event k trace token reason c, db))))"

end
