(* ===== verification/Submission_Records.thy ===== *)
theory Submission_Records
  imports Capability
begin

text \<open>
  The records of the submission protocol (\<open>crates/mtm-storage/src/step_receipts.rs\<close>,
  \<open>atomic_actions.rs\<close>, \<open>step_write_journal.rs\<close>): the result of a submission, its receipt, the
  actions that may be recovered, and the evidence and markers of the write journal.

  A receipt is data, not authority: it is bound to the capability that made the submission, to
  the workspace and to the digest of the request. The texts \<open>result_text\<close> and \<open>marker_text\<close> are
  what the derived serializers print; no byte of a checked value needs an escape in them.
\<close>

section \<open>Errors\<close>

definition receipt_error :: "string \<Rightarrow> string \<Rightarrow> re_ctm_error" where
  "receipt_error c m =
     with_details (JObject [(''automatic_retry'', JBool False), (''receipt_grants_authority'', JBool False)])
       (with_retryable False (with_category Conflict (error_new c m)))"

definition msg_receipt_invalid :: string where
  "msg_receipt_invalid = ''Submission receipt is missing, inconsistent or malformed.''"

definition msg_authority_changed :: string where
  "msg_authority_changed = ''Submission authority changed before reservation; no workflow write was attempted.''"

definition msg_summary_invalid :: string where
  "msg_summary_invalid = ''Invalid submission completion summary.''"

definition msg_workspace_mismatch :: string where
  "msg_workspace_mismatch = ''Submission belongs to a different workspace.''"

definition msg_submission_conflict :: string where
  "msg_submission_conflict = ''This capability already identifies a different submission; do not replay changed writes.''"

definition msg_no_checkpoint :: string where
  "msg_no_checkpoint = ''No safe unstarted or completed checkpoint exists. Do not replay partial work or replace its capability.''"

definition invalid_receipt :: re_ctm_error where
  "invalid_receipt = receipt_error ''SUBMISSION_RECEIPT_INVALID'' msg_receipt_invalid"

definition changed_authority :: re_ctm_error where
  "changed_authority = receipt_error ''SUBMISSION_AUTHORITY_CHANGED'' msg_authority_changed"

definition submission_unknown :: re_ctm_error where
  "submission_unknown = receipt_error ''RESULT_UNKNOWN'' msg_no_checkpoint"

definition valid_digest :: "string \<Rightarrow> bool" where
  "valid_digest s \<longleftrightarrow> length s = 64
     \<and> list_all (\<lambda>c. is_ascii_digit c \<or> (97 \<le> byte_of c \<and> byte_of c \<le> 102)) s"

section \<open>Results and receipts\<close>

fun disposition_as_str :: "submission_disposition \<Rightarrow> string" where
  "disposition_as_str Applied = ''applied''"
| "disposition_as_str CorrectionRequired = ''correction_required''"

definition error_code_ok :: "string option \<Rightarrow> bool" where
  "error_code_ok e \<longleftrightarrow>
     (case e of None \<Rightarrow> False
      | Some c \<Rightarrow> c \<noteq> '''' \<and> length c \<le> 80
          \<and> list_all (\<lambda>b. is_ascii_upper b \<or> is_ascii_digit b \<or> b = CHR ''_'') c)"

definition result_validate :: "submission_result \<Rightarrow> unit result" where
  "result_validate r =
     (if 65536 < sub_writes_applied r
         \<or> (case sub_disposition r of
              Applied \<Rightarrow> sub_error_code r \<noteq> None
            | CorrectionRequired \<Rightarrow> \<not> error_code_ok (sub_error_code r) \<or> sub_complete r)
      then Inl (receipt_error ''SUBMISSION_RECEIPT_INVALID'' msg_summary_invalid)
      else Inr ())"

definition result_text :: "submission_result \<Rightarrow> string" where
  "result_text r =
     ''{'' @ quoted ''disposition'' @ '':'' @ quoted (disposition_as_str (sub_disposition r))
     @ '','' @ quoted ''state'' @ '':'' @ quoted (state_as_str (sub_state r))
     @ '','' @ quoted ''writes_applied'' @ '':'' @ show_nat (sub_writes_applied r)
     @ '','' @ quoted ''complete'' @ '':'' @ (if sub_complete r then ''true'' else ''false'')
     @ '','' @ quoted ''error_code'' @ '':''
     @ (case sub_error_code r of None \<Rightarrow> ''null'' | Some c \<Rightarrow> quoted c) @ ''}''"

record submission_receipt =
  re_capability_sha256 :: string
  re_owner_id :: string
  re_workspace_sha256 :: string
  re_request_sha256 :: string
  re_run_id :: string
  re_domain_id :: string
  re_role :: workflow_role
  re_epoch :: int
  re_issued_state :: workflow_state
  re_status :: string
  re_result :: "submission_result option"
  re_created_at :: string
  re_completed_at :: "string option"

definition decode_result :: "step_receipt_row \<Rightarrow> submission_result option result" where
  "decode_result row =
     (case (sr_result row, sr_completed_at row) of
        (None, None) \<Rightarrow> if sr_status row = ''pending'' then Inr None else Inl invalid_receipt
      | (Some r, Some t) \<Rightarrow>
          if sr_status row = ''completed'' \<and> length (result_text r) \<le> 2048 \<and> t \<noteq> ''''
          then bind_r (result_validate r) (\<lambda>_. Inr (Some r)) else Inl invalid_receipt
      | _ \<Rightarrow> Inl invalid_receipt)"

definition decode_receipt :: "step_receipt_row \<Rightarrow> submission_receipt result" where
  "decode_receipt row =
     bind_r (ok_or (role_from_wire (sr_role row)) invalid_receipt) (\<lambda>role.
     bind_r (ok_or (state_from_wire (sr_issued_state row)) invalid_receipt) (\<lambda>st.
     bind_r (decode_result row) (\<lambda>r.
     if sr_created_at row = '''' \<or> \<not> valid_digest (sr_capability_sha256 row)
       \<or> \<not> valid_digest (sr_workspace_sha256 row) \<or> \<not> valid_digest (sr_request_sha256 row)
     then Inl invalid_receipt
     else Inr \<lparr>re_capability_sha256 = sr_capability_sha256 row, re_owner_id = sr_owner_id row,
                re_workspace_sha256 = sr_workspace_sha256 row,
                re_request_sha256 = sr_request_sha256 row, re_run_id = sr_run_id row,
                re_domain_id = sr_domain_id row, re_role = role, re_epoch = sr_epoch row,
                re_issued_state = st, re_status = sr_status row, re_result = r,
                re_created_at = sr_created_at row, re_completed_at = sr_completed_at row\<rparr>)))"

definition receipt_matches_claims :: "submission_receipt \<Rightarrow> capability_claims \<Rightarrow> bool" where
  "receipt_matches_claims r c \<longleftrightarrow>
     re_owner_id r = ca_owner_id c \<and> re_run_id r = ca_run_id c \<and> re_domain_id r = ca_domain_id c
     \<and> re_role r = ca_role c \<and> re_epoch r = ca_epoch c \<and> re_issued_state r = ca_issued_state c"

definition check_binding :: "submission_receipt \<Rightarrow> string \<Rightarrow> string \<Rightarrow> unit result" where
  "check_binding r workspace request =
     (if re_workspace_sha256 r \<noteq> workspace
      then Inl (receipt_error ''SUBMISSION_WORKSPACE_MISMATCH'' msg_workspace_mismatch)
      else if re_request_sha256 r \<noteq> request
      then Inl (receipt_error ''IDEMPOTENCY_CONFLICT'' msg_submission_conflict)
      else Inr ())"

definition result_to_json :: "submission_result \<Rightarrow> json" where
  "result_to_json r = JObject
     [(''complete'', JBool (sub_complete r)),
      (''disposition'', JString (disposition_as_str (sub_disposition r))),
      (''error_code'', json_opt_string (sub_error_code r)),
      (''state'', JString (state_as_str (sub_state r))),
      (''writes_applied'', JNumber (PosInt (sub_writes_applied r)))]"

definition receipt_summary :: "submission_receipt \<Rightarrow> json" where
  "receipt_summary r = JObject
     [(''domain_id'', JString (re_domain_id r)), (''epoch'', i64_json (re_epoch r)),
      (''grants_authority'', JBool False), (''issued_state'', JString (state_as_str (re_issued_state r))),
      (''result'', case re_result r of None \<Rightarrow> JNull | Some x \<Rightarrow> result_to_json x),
      (''role'', JString (role_as_str (re_role r))), (''run_id'', JString (re_run_id r)),
      (''schema_version'', JNumber (PosInt 1)), (''status'', JString (re_status r))]"

section \<open>Recoverable actions\<close>

datatype atomic_action_kind =
  AssessmentComplete | ExplorationComplete | ProofSubmitted | RepairSubmitted

definition atomic_parse :: "string \<Rightarrow> atomic_action_kind option" where
  "atomic_parse action =
     (if action = ''assessment_complete'' then Some AssessmentComplete
      else if action = ''exploration_complete'' then Some ExplorationComplete
      else if action = ''proof_submitted'' then Some ProofSubmitted
      else if action = ''repair_submitted'' then Some RepairSubmitted
      else None)"

fun atomic_as_str :: "atomic_action_kind \<Rightarrow> string" where
  "atomic_as_str AssessmentComplete = ''assessment_complete''"
| "atomic_as_str ExplorationComplete = ''exploration_complete''"
| "atomic_as_str ProofSubmitted = ''proof_submitted''"
| "atomic_as_str RepairSubmitted = ''repair_submitted''"

fun atomic_state :: "atomic_action_kind \<Rightarrow> workflow_state" where
  "atomic_state AssessmentComplete = Assess"
| "atomic_state ExplorationComplete = Explore"
| "atomic_state ProofSubmitted = Assemble"
| "atomic_state RepairSubmitted = Repair"

definition restartable_parse :: "string \<Rightarrow> restartable_action_kind option" where
  "restartable_parse action =
     (if action = ''plans_proposed'' then Some PlansProposed
      else if action = ''direct_proving_complete'' then Some DirectProvingComplete
      else if action = ''branch_complete'' then Some BranchComplete
      else if action = ''join_complete'' then Some JoinComplete
      else if action = ''failures_identified'' then Some FailuresIdentified
      else if action = ''replan_complete'' then Some ReplanComplete
      else if action = ''verification_submitted'' then Some VerificationSubmitted
      else None)"

fun restartable_as_str :: "restartable_action_kind \<Rightarrow> string" where
  "restartable_as_str PlansProposed = ''plans_proposed''"
| "restartable_as_str DirectProvingComplete = ''direct_proving_complete''"
| "restartable_as_str BranchComplete = ''branch_complete''"
| "restartable_as_str JoinComplete = ''join_complete''"
| "restartable_as_str FailuresIdentified = ''failures_identified''"
| "restartable_as_str ReplanComplete = ''replan_complete''"
| "restartable_as_str VerificationSubmitted = ''verification_submitted''"

fun restartable_state :: "restartable_action_kind \<Rightarrow> workflow_state" where
  "restartable_state PlansProposed = ProposePlans"
| "restartable_state DirectProvingComplete = DirectProving"
| "restartable_state BranchComplete = BranchRun"
| "restartable_state JoinComplete = BranchJoin"
| "restartable_state FailuresIdentified = IdentifyFailures"
| "restartable_state ReplanComplete = Replan"
| "restartable_state VerificationSubmitted = Verify"

section \<open>File evidence\<close>

definition max_file_bytes :: nat where
  "max_file_bytes = 64 * 1024 * 1024"

definition image_validate :: "file_image \<Rightarrow> unit result" where
  "image_validate f =
     (if max_file_bytes < fi_bytes f \<or> \<not> valid_digest (fi_sha256 f) then Inl invalid_receipt
      else Inr ())"

definition strip_suffix :: "string \<Rightarrow> string \<Rightarrow> string option" where
  "strip_suffix ending s = map_option rev (strip_prefix (rev ending) (rev s))"

definition safe_part :: "string \<Rightarrow> bool" where
  "safe_part part \<longleftrightarrow> part \<noteq> '''' \<and> part \<noteq> ''.'' \<and> part \<noteq> ''..'' \<and> length part \<le> 128
     \<and> list_all (\<lambda>b. is_ascii_alphanumeric b \<or> b \<in> {CHR ''.'', CHR ''_'', CHR ''-''}) part"

definition supported_parts :: "string list \<Rightarrow> bool" where
  "supported_parts parts \<longleftrightarrow>
     (case parts of
        [a, b] \<Rightarrow> (a = ''draft'' \<and> b = ''proof.tex'') \<or> (a = ''join'' \<and> b = ''result.json'')
          \<or> (a = ''verification'' \<and> b = ''verification.json'')
      | [a, b, c] \<Rightarrow> (a = ''branches'' \<and> c = ''result.json'')
          \<or> (a = ''memory'' \<and> (b = ''generation'' \<or> b = ''verifier'') \<and> strip_suffix ''.jsonl'' c \<noteq> None)
      | [a, b, c, d] \<Rightarrow> a = ''branches'' \<and> c = ''memory'' \<and> strip_suffix ''.jsonl'' d \<noteq> None
      | _ \<Rightarrow> False)"

definition evidence_validate :: "file_effect_evidence \<Rightarrow> unit result" where
  "evidence_validate e =
     (let parts = split_on (CHR ''/'') (fe_relative_path e) in
      if \<not> supported_parts parts \<or> \<not> list_all safe_part parts then Inl invalid_receipt
      else
      bind_r (case fe_before e of None \<Rightarrow> Inr () | Some f \<Rightarrow> image_validate f) (\<lambda>_.
      image_validate (fe_after e)))"

definition msg_other_branch :: string where
  "msg_other_branch = ''File evidence belongs to another branch.''"

definition msg_not_writable :: string where
  "msg_not_writable = ''File evidence is not writable by the reserved task.''"

definition evidence_resource :: "json \<Rightarrow> string list \<Rightarrow> string result" where
  "evidence_resource metadata parts =
     (case parts of
        [a, b, c] \<Rightarrow>
          if a = ''memory'' \<and> (b = ''generation'' \<or> b = ''verifier'')
          then bind_r (ok_or (strip_suffix ''.jsonl'' c) invalid_receipt) (\<lambda>channel.
               Inr (''memory:'' @ b @ '':'' @ channel))
          else Inl invalid_receipt
      | [a, b, c, d] \<Rightarrow>
          if a = ''branches'' \<and> c = ''memory'' then
            if Option.bind (json_get metadata ''branch_id'') as_str \<noteq> Some b
            then Inl (receipt_error ''CROSS_BRANCH_ACCESS_DENIED'' msg_other_branch)
            else bind_r (ok_or (strip_suffix ''.jsonl'' d) invalid_receipt) (\<lambda>channel.
                 Inr (''memory:branch:'' @ channel))
          else Inl invalid_receipt
      | [a, b] \<Rightarrow>
          if a = ''draft'' \<and> b = ''proof.tex'' then Inr ''proof''
          else if a = ''join'' \<and> b = ''result.json'' then Inr ''join_result''
          else if a = ''verification'' \<and> b = ''verification.json'' then Inr ''verification_report''
          else Inl invalid_receipt
      | _ \<Rightarrow> Inl invalid_receipt)"

definition evidence_authorize :: "state_db \<Rightarrow> file_effect_evidence \<Rightarrow> capability_claims \<Rightarrow> unit result" where
  "evidence_authorize db e c =
     bind_r (evidence_validate e) (\<lambda>_.
     bind_r (ok_or (find_domain db (ca_domain_id c)) invalid_receipt) (\<lambda>dom.
     bind_r (evidence_resource (dm_metadata dom) (split_on (CHR ''/'') (fe_relative_path e))) (\<lambda>resource.
     if \<not> list_ex (\<lambda>p. wildcard_match p (''write:'' @ resource)) (ca_permissions c)
     then Inl (receipt_error ''ROLE_ACCESS_DENIED'' msg_not_writable)
     else authorize_role_resource (ca_role c) (ca_issued_state c) ''write'' resource (dm_metadata dom))))"

section \<open>Markers\<close>

definition image_text :: "file_image \<Rightarrow> string" where
  "image_text f = ''{'' @ quoted ''bytes'' @ '':'' @ show_nat (fi_bytes f) @ '',''
     @ quoted ''sha256'' @ '':'' @ quoted (fi_sha256 f) @ ''}''"

definition evidence_text :: "file_effect_evidence \<Rightarrow> string" where
  "evidence_text e = ''{'' @ quoted ''relative_path'' @ '':'' @ quoted (fe_relative_path e) @ '',''
     @ quoted ''before'' @ '':'' @ (case fe_before e of None \<Rightarrow> ''null'' | Some f \<Rightarrow> image_text f)
     @ '','' @ quoted ''after'' @ '':'' @ image_text (fe_after e) @ ''}''"

fun marker_text :: "marker \<Rightarrow> string" where
  "marker_text Between = ''{'' @ quoted ''kind'' @ '':'' @ quoted ''between'' @ ''}''"
| "marker_text Opaque = ''{'' @ quoted ''kind'' @ '':'' @ quoted ''opaque'' @ ''}''"
| "marker_text (FileMarker e) = ''{'' @ quoted ''kind'' @ '':'' @ quoted ''file'' @ '',''
     @ quoted ''evidence'' @ '':'' @ evidence_text e @ ''}''"
| "marker_text (RestartableMarker a) = ''{'' @ quoted ''kind'' @ '':'' @ quoted ''restartable_action''
     @ '','' @ quoted ''action'' @ '':'' @ quoted (restartable_as_str a) @ ''}''"

definition encode_marker :: "marker \<Rightarrow> marker result" where
  "encode_marker m =
     bind_r (case m of FileMarker e \<Rightarrow> evidence_validate e | _ \<Rightarrow> Inr ()) (\<lambda>_.
     if 4096 < length (marker_text m) then Inl invalid_receipt else Inr m)"

text \<open>What the journal holds when it is read: the text is bounded, parses and passes \<open>encode\<close>.\<close>

definition read_marker :: "marker \<Rightarrow> marker result" where
  "read_marker m = (if 4096 < length (marker_text m) then Inl invalid_receipt else encode_marker m)"

section \<open>Bounds of the stored texts\<close>

lemma length_quoted [simp]: "length (quoted s) = length s + 2"
  by (simp add: quoted_def)

lemma length_show_nat_le: "n < 10 ^ k \<Longrightarrow> 0 < k \<Longrightarrow> length (show_nat n) \<le> k"
proof (induction k arbitrary: n)
  case 0 then show ?case by simp
next
  case (Suc k)
  show ?case
  proof (cases "n < 10")
    case True then show ?thesis by (simp add: show_nat.simps [of n])
  next
    case False
    then have "n div 10 < 10 ^ k" "0 < k"
      using Suc.prems by (auto simp: div_less_iff_less_mult intro: gr0I)
    then show ?thesis using Suc.IH [of "n div 10"] False by (simp add: show_nat.simps [of n])
  qed
qed

lemma length_state_name: "length (state_as_str st) \<le> 17"
  by (cases st) simp_all

lemma result_text_fits:
  assumes "result_validate r = Inr ()"
  shows "length (result_text r) \<le> 2048"
proof -
  have n: "length (show_nat (sub_writes_applied r)) \<le> 5"
    using assms length_show_nat_le [of "sub_writes_applied r" 5] by (auto simp: result_validate_def split: if_splits)
  have c: "length c \<le> 80" if "sub_error_code r = Some c" for c
    using assms that
    by (auto simp: result_validate_def error_code_ok_def split: if_splits submission_disposition.splits)
  have d: "length (disposition_as_str (sub_disposition r)) \<le> 19" by (cases "sub_disposition r") simp_all
  show ?thesis
    using n c d length_state_name [of "sub_state r"]
    by (auto simp: result_text_def split: option.splits)
qed

lemma valid_digest_length: "valid_digest s \<Longrightarrow> length s = 64"
  by (simp add: valid_digest_def)

lemma image_text_fits:
  assumes "image_validate f = Inr ()"
  shows "length (image_text f) \<le> 102"
proof -
  have "fi_bytes f < 10 ^ 8" "length (fi_sha256 f) = 64"
    using assms by (auto simp: image_validate_def max_file_bytes_def valid_digest_length split: if_splits)
  then show ?thesis using length_show_nat_le [of "fi_bytes f" 8] by (simp add: image_text_def)
qed

lemma length_split_on: "length s + 1 = sum_list (map length (split_on c s)) + length (split_on c s)"
  by (induction c s rule: split_on.induct) (auto split: list.splits)

lemma supported_parts_length: "supported_parts ps \<Longrightarrow> length ps \<le> 4"
  by (auto simp: supported_parts_def split: list.splits)

lemma evidence_path_fits:
  assumes "evidence_validate e = Inr ()"
  shows "length (fe_relative_path e) \<le> 515"
proof -
  define ps where "ps = split_on (CHR ''/'') (fe_relative_path e)"
  have ps: "supported_parts ps" "list_all safe_part ps"
    using assms by (auto simp: evidence_validate_def ps_def Let_def split: if_splits)
  have "sum_list (map length ps) \<le> 128 * length ps"
    using ps(2) by (induction ps) (auto simp: safe_part_def)
  then show ?thesis
    using supported_parts_length [OF ps(1)] length_split_on [of "fe_relative_path e" "CHR ''/''"]
    unfolding ps_def by linarith
qed

lemma encode_marker_iff:
  "encode_marker m = Inr m' \<longleftrightarrow>
     m' = m \<and> (\<forall>e. m = FileMarker e \<longrightarrow> evidence_validate e = Inr ())"
proof -
  have fits: "length (marker_text m) \<le> 4096" if "\<forall>e. m = FileMarker e \<longrightarrow> evidence_validate e = Inr ()"
  proof (cases m)
    case (FileMarker e)
    then have v: "evidence_validate e = Inr ()" using that by blast
    have "length (image_text (fe_after e)) \<le> 102" "\<And>f. fe_before e = Some f \<Longrightarrow> length (image_text f) \<le> 102"
      using v by (auto simp: evidence_validate_def Let_def image_text_fits bind_r_eq_Inr split: if_splits)
    then show ?thesis
      using evidence_path_fits [OF v] FileMarker by (auto simp: evidence_text_def split: option.splits)
  next
    case (RestartableMarker a) then show ?thesis by (cases a) (simp_all add: quoted_def)
  qed (simp_all add: quoted_def)
  show ?thesis
  proof (cases m)
    case (FileMarker e)
    then show ?thesis using fits by (auto simp: encode_marker_def bind_r_eq_Inr)
  qed (use fits in \<open>auto simp: encode_marker_def\<close>)
qed

lemma encode_marker_simps [simp]:
  "encode_marker Between = Inr Between" "encode_marker Opaque = Inr Opaque"
  "encode_marker (RestartableMarker a) = Inr (RestartableMarker a)"
  by (simp_all add: encode_marker_iff)

lemma read_marker_iff: "read_marker m = Inr m' \<longleftrightarrow> encode_marker m = Inr m'"
  by (auto simp: read_marker_def encode_marker_def bind_r_eq_Inr)

end
