(* ===== verification/Submission.thy ===== *)
theory Submission
  imports Submission_Records
begin

text \<open>
  The operations of the submission protocol: \<open>step_receipts.rs\<close>, \<open>step_checkpoints.rs\<close>,
  \<open>step_write_journal.rs\<close>, \<open>atomic_actions.rs\<close>, \<open>step_database_write.rs\<close> and
  \<open>research_writes.rs\<close> of \<open>crates/mtm-storage/src\<close>.

  A submission is reserved (receipt \<open>pending\<close>, checkpoint \<open>prepared\<close>), activated (checkpoint
  \<open>running\<close>, journal between writes), writes one effect after the other (a marker before each, an
  accepted count after it), is armed (\<open>commit_ready\<close>) and ends with the workflow transition, a
  recorded outcome or a reconciliation, each of which completes the receipt.
\<close>

section \<open>Authority inside a transaction\<close>

definition recheck_authority :: "state_db \<Rightarrow> capability_claims \<Rightarrow> int \<Rightarrow> unit result" where
  "recheck_authority db c now =
     (case (find_run db (ca_run_id c), find_domain db (ca_domain_id c), find_capability db (ca_nonce c)) of
        (Some run, Some d, Some cap) \<Rightarrow>
          if \<not> record_matches_claims cap c \<or> cp_revoked cap \<or> ca_expires_at c < now
            \<or> rr_owner_id run \<noteq> ca_owner_id c \<or> rr_epoch run \<noteq> ca_epoch c
            \<or> rr_state run \<noteq> state_as_str (ca_issued_state c) \<or> dm_status d \<noteq> ''open''
            \<or> dm_run_id d \<noteq> ca_run_id c \<or> dm_role d \<noteq> role_as_str (ca_role c)
          then Inl changed_authority
          else authorize_role_resource (ca_role c) (ca_issued_state c) ''commit'' ''workflow'' (dm_metadata d)
      | _ \<Rightarrow> Inl changed_authority)"

section \<open>Receipts\<close>

definition read_receipt :: "state_db \<Rightarrow> string \<Rightarrow> string \<Rightarrow> string \<Rightarrow> submission_receipt option result" where
  "read_receipt db fingerprint owner run =
     (case find (\<lambda>r. sr_capability_sha256 r = fingerprint \<and> sr_owner_id r = owner \<and> sr_run_id r = run)
             (db_receipts db) of
        None \<Rightarrow> Inr None
      | Some row \<Rightarrow> map_ok Some (decode_receipt row))"

definition find_submission_receipt :: "state_db \<Rightarrow> string \<Rightarrow> string \<Rightarrow> string \<Rightarrow> submission_receipt option result" where
  "find_submission_receipt db fingerprint owner run = read_receipt db fingerprint owner run"

definition require_receipt :: "state_db \<Rightarrow> string \<Rightarrow> string \<Rightarrow> string \<Rightarrow> submission_receipt result" where
  "require_receipt db fingerprint owner run =
     bind_r (read_receipt db fingerprint owner run) (\<lambda>r. ok_or r invalid_receipt)"

definition submission_receipt_of :: "token_codec \<Rightarrow> string \<Rightarrow> state_db \<Rightarrow> string \<Rightarrow> string \<Rightarrow> string \<Rightarrow>
    string \<Rightarrow> string \<Rightarrow> submission_receipt option result" where
  "submission_receipt_of k secret db token owner run workspace request =
     (if \<not> valid_token_shape token then Inr None
      else
      bind_r (find_submission_receipt db (tk_sha256 k token) owner run) (\<lambda>found.
      case found of
        None \<Rightarrow> Inr None
      | Some receipt \<Rightarrow>
          case bind_r (decode_token k secret token) claims_from_payload of
            Inl _ \<Rightarrow> Inr None
          | Inr c \<Rightarrow>
              bind_r (get_run db run) (\<lambda>row.
              if ca_owner_id c \<noteq> owner \<or> ca_run_id c \<noteq> run \<or> rr_owner_id row \<noteq> owner
                \<or> (case get_capability db (ca_nonce c) of None \<Rightarrow> True | Some r \<Rightarrow> \<not> record_matches_claims r c)
                \<or> \<not> receipt_matches_claims receipt c
              then Inr None
              else bind_r (check_binding receipt workspace request) (\<lambda>_. Inr (Some receipt)))))"

definition receipt_pending :: "step_receipt_row \<Rightarrow> bool" where
  "receipt_pending r \<longleftrightarrow> sr_status r = ''pending''"

definition max_receipts_per_run :: nat where
  "max_receipts_per_run = 4096"

definition max_receipts_total :: nat where
  "max_receipts_total = 100000"

definition msg_other_unresolved :: string where
  "msg_other_unresolved = ''Another submission for this run has an unresolved outcome. Do not retry with a fresh capability.''"

definition msg_receipt_capacity :: string where
  "msg_receipt_capacity = ''Submission receipt capacity reached; no safety records were removed.''"

datatype submission_slot = Reserved submission_receipt | Existing submission_receipt

definition insert_receipt :: "string \<Rightarrow> state_db \<Rightarrow> authorized_submission \<Rightarrow> string \<Rightarrow> string \<Rightarrow> state_db result" where
  "insert_receipt created_at db auth workspace request =
     (let c = as_claims auth; fingerprint = as_fingerprint auth in
      if length fingerprint \<noteq> 64 then Inl (check_failed ''length(capability_sha256)=64'')
      else if list_ex (\<lambda>r. sr_capability_sha256 r = fingerprint) (db_receipts db)
      then Inl (unique_failed ''step_receipts.capability_sha256'')
      else
      map_ok (\<lambda>rows. db\<lparr>db_receipts := rows\<rparr>)
        (insert_into (list_ex (\<lambda>r. sr_run_id r = ca_run_id c \<and> receipt_pending r) (db_receipts db))
           ''step_receipts.run_id''
           (find_run db (ca_run_id c) \<noteq> None \<and> find_domain db (ca_domain_id c) \<noteq> None)
           \<lparr>sr_capability_sha256 = fingerprint, sr_owner_id = ca_owner_id c,
            sr_workspace_sha256 = workspace, sr_request_sha256 = request,
            sr_run_id = ca_run_id c, sr_domain_id = ca_domain_id c,
            sr_role = role_as_str (ca_role c), sr_epoch = ca_epoch c,
            sr_issued_state = state_as_str (ca_issued_state c), sr_status = ''pending'',
            sr_result = None, sr_created_at = created_at, sr_completed_at = None\<rparr> (db_receipts db)))"

definition insert_checkpoint :: "state_db \<Rightarrow> string \<Rightarrow> string \<Rightarrow> state_db result" where
  "insert_checkpoint db fingerprint execution =
     (if find_checkpoint db fingerprint \<noteq> None
      then Inl (unique_failed ''step_checkpoints.capability_sha256'')
      else
      map_ok (\<lambda>rows. db\<lparr>db_checkpoints := rows\<rparr>)
        (insert_into (list_ex (\<lambda>k. ck_execution_id k = execution) (db_checkpoints db))
           ''step_checkpoints.execution_id''
           (list_ex (\<lambda>r. sr_capability_sha256 r = fingerprint) (db_receipts db))
           \<lparr>ck_capability_sha256 = fingerprint, ck_execution_id = execution, ck_phase = ''prepared'',
            ck_expected_writes = None, ck_accepted_writes = 0, ck_atomic_action = None\<rparr>
           (db_checkpoints db)))"

definition reserve_submission :: "string \<Rightarrow> int \<Rightarrow> string \<Rightarrow> state_db \<Rightarrow> authorized_submission \<Rightarrow> string \<Rightarrow>
    string \<Rightarrow> submission_slot stored" where
  "reserve_submission created_at now execution db auth workspace request =
     (let c = as_claims auth; fingerprint = as_fingerprint auth in
      if \<not> valid_digest workspace \<or> \<not> valid_digest request then Inl invalid_receipt
      else
      bind_r (read_receipt db fingerprint (ca_owner_id c) (ca_run_id c)) (\<lambda>found.
      case found of
        Some existing \<Rightarrow>
          if \<not> receipt_matches_claims existing c then Inl invalid_receipt
          else bind_r (check_binding existing workspace request) (\<lambda>_. Inr (Existing existing, db))
      | None \<Rightarrow>
          if matching (\<lambda>r. sr_run_id r = ca_run_id c \<and> receipt_pending r) (db_receipts db) \<noteq> 0
          then Inl (receipt_error ''RESULT_UNKNOWN'' msg_other_unresolved)
          else
          bind_r (recheck_authority db c now) (\<lambda>_.
          if max_receipts_total \<le> length (db_receipts db)
            \<or> max_receipts_per_run \<le> matching (\<lambda>r. sr_run_id r = ca_run_id c) (db_receipts db)
          then Inl (receipt_error ''SUBMISSION_RECEIPT_CAPACITY'' msg_receipt_capacity)
          else
          bind_r (insert_receipt created_at db auth workspace request) (\<lambda>db.
          bind_r (insert_checkpoint db fingerprint execution) (\<lambda>db.
          bind_r (require_receipt db fingerprint (ca_owner_id c) (ca_run_id c)) (\<lambda>receipt.
          Inr (Reserved receipt, db)))))))"

text \<open>The receipt as the caller knows it, read again.\<close>

definition current :: "state_db \<Rightarrow> submission_receipt \<Rightarrow> submission_receipt result" where
  "current db expected =
     bind_r (require_receipt db (re_capability_sha256 expected) (re_owner_id expected) (re_run_id expected)) (\<lambda>actual.
     bind_r (check_binding actual (re_workspace_sha256 expected) (re_request_sha256 expected)) (\<lambda>_.
     if re_domain_id actual \<noteq> re_domain_id expected \<or> re_role actual \<noteq> re_role expected
       \<or> re_epoch actual \<noteq> re_epoch expected \<or> re_issued_state actual \<noteq> re_issued_state expected
     then Inl invalid_receipt else Inr actual))"

definition complete_row :: "submission_result \<Rightarrow> string \<Rightarrow> step_receipt_row \<Rightarrow> step_receipt_row" where
  "complete_row r now row =
     row\<lparr>sr_status := ''completed'', sr_result := Some r, sr_completed_at := Some now\<rparr>"

definition complete_where :: "(step_receipt_row \<Rightarrow> bool) \<Rightarrow> submission_result \<Rightarrow> string \<Rightarrow> state_db \<Rightarrow> state_db result" where
  "complete_where P r now db =
     (if matching (\<lambda>row. P row \<and> receipt_pending row) (db_receipts db) \<noteq> 1 then Inl invalid_receipt
      else Inr (db\<lparr>db_receipts := update_rows (\<lambda>row. P row \<and> receipt_pending row) (complete_row r now)
                                  (db_receipts db)\<rparr>))"

definition finish_on :: "state_db \<Rightarrow> submission_receipt \<Rightarrow> submission_result \<Rightarrow> string \<Rightarrow> submission_receipt stored" where
  "finish_on db receipt r now =
     bind_r (result_validate r) (\<lambda>_.
     bind_r (complete_where (\<lambda>row. sr_capability_sha256 row = re_capability_sha256 receipt
               \<and> sr_owner_id row = re_owner_id receipt \<and> sr_run_id row = re_run_id receipt) r now db) (\<lambda>db.
     bind_r (current db receipt) (\<lambda>receipt. Inr (receipt, db))))"

definition same_outcome :: "submission_result \<Rightarrow> submission_result \<Rightarrow> bool" where
  "same_outcome recorded r \<longleftrightarrow> recorded = r
     \<or> (sub_disposition recorded = Applied \<and> sub_disposition r = Applied
        \<and> sub_writes_applied recorded = sub_writes_applied r \<and> sub_complete recorded = sub_complete r)"

definition require_between :: "state_db \<Rightarrow> string \<Rightarrow> unit result" where
  "require_between db fingerprint =
     ensure (list_ex (\<lambda>j. jn_capability_sha256 j = fingerprint \<and> jn_marker j = Between) (db_journals db))
       invalid_receipt"

text \<open>The row of the accepted count may be missing only with a broken foreign key.\<close>

definition no_rows :: re_ctm_error where
  "no_rows = sql_error ''Query returned no rows''"

definition record_submission_outcome :: "string \<Rightarrow> state_db \<Rightarrow> submission_receipt \<Rightarrow> submission_result \<Rightarrow>
    submission_receipt stored" where
  "record_submission_outcome now db reservation r =
     bind_r (result_validate r) (\<lambda>_.
     if 2048 < length (result_text r) then Inl invalid_receipt
     else
       let fingerprint = re_capability_sha256 reservation; owner = re_owner_id reservation;
           run = re_run_id reservation in
       bind_r (require_receipt db fingerprint owner run) (\<lambda>existing.
       bind_r (check_binding existing (re_workspace_sha256 reservation) (re_request_sha256 reservation)) (\<lambda>_.
       case re_result existing of
         Some recorded \<Rightarrow> if same_outcome recorded r then Inr (existing, db) else Inl invalid_receipt
       | None \<Rightarrow>
           bind_r (if find_journal db fingerprint \<noteq> None
                   then bind_r (require_between db fingerprint) (\<lambda>_.
                        bind_r (ok_or (find_checkpoint db fingerprint) no_rows) (\<lambda>ck.
                        ensure (ck_accepted_writes ck = int (sub_writes_applied r)) invalid_receipt))
                   else Inr ()) (\<lambda>_.
           bind_r (complete_where (\<lambda>row. sr_capability_sha256 row = fingerprint \<and> sr_owner_id row = owner
                     \<and> sr_run_id row = run \<and> sr_workspace_sha256 row = re_workspace_sha256 reservation
                     \<and> sr_request_sha256 row = re_request_sha256 reservation) r now db) (\<lambda>db.
           bind_r (require_receipt db fingerprint owner run) (\<lambda>receipt. Inr (receipt, db)))))))"

definition complete_submission :: "string \<Rightarrow> state_db \<Rightarrow> submission_receipt \<Rightarrow> submission_result \<Rightarrow>
    submission_receipt stored" where
  "complete_submission now db reservation r = record_submission_outcome now db reservation r"

section \<open>Checkpoints\<close>

record submission_execution =
  ex_id :: string
  ex_fingerprint :: string
  ex_claims :: capability_claims

definition msg_not_started :: string where
  "msg_not_started = ''This unstarted reservation was already resolved; no workflow writes were attempted.''"

text \<open>\<open>EXISTS(SELECT 1 FROM step_receipts WHERE capability_sha256=? AND status='pending')\<close>.\<close>

definition pending_receipt :: "state_db \<Rightarrow> string \<Rightarrow> bool" where
  "pending_receipt db fingerprint \<longleftrightarrow>
     list_ex (\<lambda>r. sr_capability_sha256 r = fingerprint \<and> receipt_pending r) (db_receipts db)"

definition update_checkpoint :: "(checkpoint_row \<Rightarrow> bool) \<Rightarrow> (checkpoint_row \<Rightarrow> checkpoint_row) \<Rightarrow>
    re_ctm_error \<Rightarrow> state_db \<Rightarrow> state_db result" where
  "update_checkpoint P f e db =
     (if matching P (db_checkpoints db) \<noteq> 1 then Inl e
      else Inr (db\<lparr>db_checkpoints := update_rows P f (db_checkpoints db)\<rparr>))"

definition enroll :: "state_db \<Rightarrow> string \<Rightarrow> state_db result" where
  "enroll db fingerprint =
     map_ok (\<lambda>rows. db\<lparr>db_journals := rows\<rparr>)
       (insert_into (find_journal db fingerprint \<noteq> None) ''step_write_journals.capability_sha256''
          (find_checkpoint db fingerprint \<noteq> None)
          \<lparr>jn_capability_sha256 = fingerprint, jn_marker = Between\<rparr> (db_journals db))"

definition activate_submission :: "int \<Rightarrow> state_db \<Rightarrow> submission_receipt \<Rightarrow> authorized_submission \<Rightarrow> nat \<Rightarrow>
    submission_execution stored" where
  "activate_submission now db reservation auth writes =
     (let fingerprint = as_fingerprint auth in
      if 65536 < writes \<or> \<not> receipt_matches_claims reservation (as_claims auth)
        \<or> re_capability_sha256 reservation \<noteq> fingerprint then Inl invalid_receipt
      else
      bind_r (current db reservation) (\<lambda>receipt.
      if re_result receipt \<noteq> None then Inl (receipt_error ''SUBMISSION_NOT_STARTED'' msg_not_started)
      else
      bind_r (recheck_authority db (as_claims auth) now) (\<lambda>_.
      bind_r (ok_or (find (\<lambda>k. ck_capability_sha256 k = fingerprint \<and> ck_phase k = ''prepared'')
                (db_checkpoints db)) submission_unknown) (\<lambda>ck.
      bind_r (update_checkpoint (\<lambda>k. ck_capability_sha256 k = fingerprint
                  \<and> ck_execution_id k = ck_execution_id ck \<and> ck_phase k = ''prepared'')
                (\<lambda>k. k\<lparr>ck_phase := ''running'', ck_expected_writes := Some (int writes)\<rparr>)
                submission_unknown db) (\<lambda>db.
      bind_r (enroll db fingerprint) (\<lambda>db.
      Inr (\<lparr>ex_id = ck_execution_id ck, ex_fingerprint = fingerprint, ex_claims = as_claims auth\<rparr>, db)))))))"

definition accept :: "state_db \<Rightarrow> string \<Rightarrow> state_db result" where
  "accept db fingerprint =
     bind_r (ok_or (find_journal db fingerprint) no_rows) (\<lambda>j.
     bind_r (read_marker (jn_marker j)) (\<lambda>m.
     if m = Between then Inl invalid_receipt
     else
       let P = (\<lambda>j. jn_capability_sha256 j = fingerprint \<and> jn_marker j \<noteq> Between) in
       if matching P (db_journals db) \<noteq> 1 then Inl invalid_receipt
       else Inr (db\<lparr>db_journals := update_rows P (\<lambda>j. j\<lparr>jn_marker := Between\<rparr>) (db_journals db)\<rparr>)))"

text \<open>The row that takes one more accepted write.\<close>

definition takes_write :: "state_db \<Rightarrow> submission_execution \<Rightarrow> nat \<Rightarrow> checkpoint_row \<Rightarrow> bool" where
  "takes_write db ex accepted k \<longleftrightarrow>
     ck_capability_sha256 k = ex_fingerprint ex \<and> ck_execution_id k = ex_id ex \<and> ck_phase k = ''running''
     \<and> ck_accepted_writes k = int accepted
     \<and> (case ck_expected_writes k of None \<Rightarrow> False | Some n \<Rightarrow> int accepted + 1 \<le> n)
     \<and> pending_receipt db (ex_fingerprint ex)"

definition checkpoint_submission_write :: "state_db \<Rightarrow> submission_execution \<Rightarrow> nat \<Rightarrow> unit stored" where
  "checkpoint_submission_write db ex accepted =
     (if accepted = 0 \<or> 65536 < accepted then Inl invalid_receipt
      else
      bind_r (update_checkpoint (takes_write db ex (accepted - 1))
                (\<lambda>k. k\<lparr>ck_accepted_writes := int accepted\<rparr>) invalid_receipt db) (\<lambda>db.
      bind_r (accept db (ex_fingerprint ex)) (\<lambda>db. Inr ((), db))))"

definition arm_submission_commit :: "state_db \<Rightarrow> submission_execution \<Rightarrow> unit stored" where
  "arm_submission_commit db ex =
     bind_r (require_between db (ex_fingerprint ex)) (\<lambda>_.
     bind_r (update_checkpoint (\<lambda>k. ck_capability_sha256 k = ex_fingerprint ex \<and> ck_execution_id k = ex_id ex
                 \<and> ck_phase k = ''running'' \<and> ck_expected_writes k = Some (ck_accepted_writes k)
                 \<and> pending_receipt db (ex_fingerprint ex))
               (\<lambda>k. k\<lparr>ck_phase := ''commit_ready''\<rparr>) invalid_receipt db) (\<lambda>db. Inr ((), db)))"

definition observed_submission :: "state_db \<Rightarrow> submission_receipt \<Rightarrow> submission_receipt result" where
  "observed_submission db reservation = current db reservation"

definition correction :: "submission_receipt \<Rightarrow> nat \<Rightarrow> string \<Rightarrow> submission_result" where
  "correction receipt writes reason =
     \<lparr>sub_disposition = CorrectionRequired, sub_state = re_issued_state receipt,
      sub_writes_applied = writes, sub_complete = False, sub_error_code = Some reason\<rparr>"

definition reconcile_unstarted_submission :: "string \<Rightarrow> state_db \<Rightarrow> submission_receipt \<Rightarrow> submission_receipt stored" where
  "reconcile_unstarted_submission now db receipt =
     bind_r (current db receipt) (\<lambda>receipt.
     if re_result receipt \<noteq> None then Inr (receipt, db)
     else if \<not> list_ex (\<lambda>k. ck_capability_sha256 k = re_capability_sha256 receipt \<and> ck_phase k = ''prepared'')
               (db_checkpoints db) then Inl submission_unknown
     else finish_on db receipt (correction receipt 0 ''SUBMISSION_NOT_STARTED'') now)"

section \<open>The write journal\<close>

definition set_marker :: "(journal_row \<Rightarrow> bool) \<Rightarrow> marker \<Rightarrow> state_db \<Rightarrow> state_db result" where
  "set_marker P m db =
     (if matching P (db_journals db) \<noteq> 1 then Inl invalid_receipt
      else Inr (db\<lparr>db_journals := update_rows P (\<lambda>j. j\<lparr>jn_marker := m\<rparr>) (db_journals db)\<rparr>))"

definition begin_submission_write :: "int \<Rightarrow> state_db \<Rightarrow> submission_execution \<Rightarrow> nat \<Rightarrow>
    file_effect_evidence option \<Rightarrow> unit stored" where
  "begin_submission_write now db ex index evidence =
     (if 65536 \<le> index then Inl invalid_receipt
      else
      bind_r (encode_marker (case evidence of None \<Rightarrow> Opaque | Some e \<Rightarrow> FileMarker e)) (\<lambda>m.
      bind_r (recheck_authority db (ex_claims ex) now) (\<lambda>_.
      bind_r (case evidence of None \<Rightarrow> Inr () | Some e \<Rightarrow> evidence_authorize db e (ex_claims ex)) (\<lambda>_.
      bind_r (set_marker (\<lambda>j. jn_capability_sha256 j = ex_fingerprint ex \<and> jn_marker j = Between
                 \<and> list_ex (takes_write db ex index) (db_checkpoints db)) m db) (\<lambda>db. Inr ((), db))))))"

text \<open>The receipt of the task an execution belongs to, by the identifier of the execution.\<close>

definition execution_checkpoint :: "state_db \<Rightarrow> string \<Rightarrow> checkpoint_row option" where
  "execution_checkpoint db trace = find (\<lambda>k. ck_execution_id k = trace) (db_checkpoints db)"

definition execution_row :: "state_db \<Rightarrow> string \<Rightarrow> step_receipt_row option" where
  "execution_row db trace =
     find (\<lambda>r. list_ex (\<lambda>k. ck_execution_id k = trace \<and> ck_capability_sha256 k = sr_capability_sha256 r)
                 (db_checkpoints db)) (db_receipts db)"

definition commit_ready :: "checkpoint_row \<Rightarrow> bool" where
  "commit_ready k \<longleftrightarrow> ck_phase k = ''commit_ready'' \<and> ck_expected_writes k = Some (ck_accepted_writes k)"

definition require_restartable_action :: "state_db \<Rightarrow> string \<Rightarrow> restartable_action_kind \<Rightarrow> unit result" where
  "require_restartable_action db fingerprint action =
     ensure (list_ex (\<lambda>j. jn_capability_sha256 j = fingerprint \<and> jn_marker j = RestartableMarker action)
               (db_journals db)) invalid_receipt"

definition clear_restartable_action :: "state_db \<Rightarrow> string \<Rightarrow> restartable_action_kind \<Rightarrow> state_db result" where
  "clear_restartable_action db fingerprint action =
     set_marker (\<lambda>j. jn_capability_sha256 j = fingerprint \<and> jn_marker j = RestartableMarker action) Between db"

definition check_task_with_marker :: "state_db \<Rightarrow> capability_claims \<Rightarrow> string \<Rightarrow> restartable_action_kind option \<Rightarrow>
    submission_receipt option result" where
  "check_task_with_marker db c trace restartable =
     (case execution_row db trace of
        Some row \<Rightarrow>
          bind_r (decode_receipt row) (\<lambda>receipt.
          if \<not> receipt_matches_claims receipt c \<or> re_result receipt \<noteq> None then Inl invalid_receipt
          else if \<not> list_ex (\<lambda>k. ck_execution_id k = trace \<and> commit_ready k) (db_checkpoints db)
          then Inl invalid_receipt
          else
          bind_r (case restartable of
                    Some action \<Rightarrow> require_restartable_action db (re_capability_sha256 receipt) action
                  | None \<Rightarrow> require_between db (re_capability_sha256 receipt)) (\<lambda>_.
          Inr (Some receipt)))
      | None \<Rightarrow>
          if list_ex (\<lambda>r. sr_run_id r = ca_run_id c \<and> receipt_pending r) (db_receipts db)
          then Inl invalid_receipt else Inr None)"

definition check_task :: "state_db \<Rightarrow> capability_claims \<Rightarrow> string \<Rightarrow> submission_receipt option result" where
  "check_task db c trace = check_task_with_marker db c trace None"

definition consume_restartable_task :: "state_db \<Rightarrow> capability_claims \<Rightarrow> string \<Rightarrow> restartable_action_kind \<Rightarrow>
    state_db result" where
  "consume_restartable_task db c trace action =
     bind_r (check_task_with_marker db c trace (Some action)) (\<lambda>found.
     case found of
       None \<Rightarrow> Inr db
     | Some receipt \<Rightarrow> clear_restartable_action db (re_capability_sha256 receipt) action)"

definition enroll_atomic_action :: "int \<Rightarrow> state_db \<Rightarrow> capability_claims \<Rightarrow> string \<Rightarrow> atomic_action_kind \<Rightarrow>
    unit stored" where
  "enroll_atomic_action now db c trace kind =
     (if ca_issued_state c \<noteq> atomic_state kind then Inl invalid_receipt
      else
      bind_r (recheck_authority db c now) (\<lambda>_.
      bind_r (check_task db c trace) (\<lambda>found.
      case found of
        None \<Rightarrow> Inr ((), db)
      | Some receipt \<Rightarrow>
          bind_r (require_between db (re_capability_sha256 receipt)) (\<lambda>_.
          bind_r (update_checkpoint (\<lambda>k. ck_execution_id k = trace \<and> commit_ready k \<and> ck_atomic_action k = None)
                    (\<lambda>k. k\<lparr>ck_atomic_action := Some (atomic_as_str kind)\<rparr>) invalid_receipt db) (\<lambda>db.
          Inr ((), db))))))"

definition enroll_restartable_action :: "int \<Rightarrow> state_db \<Rightarrow> capability_claims \<Rightarrow> string \<Rightarrow>
    restartable_action_kind \<Rightarrow> unit stored" where
  "enroll_restartable_action now db c trace action =
     (if ca_issued_state c \<noteq> restartable_state action then Inl invalid_receipt
      else
      bind_r (recheck_authority db c now) (\<lambda>_.
      bind_r (check_task db c trace) (\<lambda>found.
      case found of
        None \<Rightarrow> Inr ((), db)
      | Some receipt \<Rightarrow>
          bind_r (set_marker (\<lambda>j. jn_capability_sha256 j = re_capability_sha256 receipt \<and> jn_marker j = Between
                    \<and> list_ex (\<lambda>k. ck_capability_sha256 k = re_capability_sha256 receipt
                          \<and> ck_execution_id k = trace \<and> commit_ready k) (db_checkpoints db))
                    (RestartableMarker action) db) (\<lambda>db.
          Inr ((), db)))))"

section \<open>Recovery\<close>

record checkpoint_view =
  cv_execution_id :: string
  cv_phase :: string
  cv_expected_writes :: "nat option"
  cv_accepted_writes :: nat
  cv_marker :: "marker option"
  cv_atomic_action :: "atomic_action_kind option"

definition as_nat :: "int \<Rightarrow> nat result" where
  "as_nat i = (if i < 0 then Inl invalid_receipt else Inr (nat i))"

definition checkpoint :: "state_db \<Rightarrow> string \<Rightarrow> checkpoint_view option result" where
  "checkpoint db fingerprint =
     (case find_checkpoint db fingerprint of
        None \<Rightarrow> Inr None
      | Some k \<Rightarrow>
          bind_r (case ck_expected_writes k of None \<Rightarrow> Inr None | Some n \<Rightarrow> map_ok Some (as_nat n)) (\<lambda>expected.
          bind_r (as_nat (ck_accepted_writes k)) (\<lambda>accepted.
          bind_r (case ck_atomic_action k of None \<Rightarrow> Inr None
                  | Some a \<Rightarrow> map_ok Some (ok_or (atomic_parse a) invalid_receipt)) (\<lambda>atomic.
          Inr (Some \<lparr>cv_execution_id = ck_execution_id k, cv_phase = ck_phase k,
                     cv_expected_writes = expected, cv_accepted_writes = accepted,
                     cv_marker = map_option jn_marker (find_journal db fingerprint),
                     cv_atomic_action = atomic\<rparr>)))))"

record submission_recovery =
  rc_receipt :: submission_receipt
  rc_checkpoint :: "checkpoint_view option"
  rc_marker :: "marker option"

definition recovery_file_evidence :: "submission_recovery \<Rightarrow> file_effect_evidence option" where
  "recovery_file_evidence r = (case rc_marker r of Some (FileMarker e) \<Rightarrow> Some e | _ \<Rightarrow> None)"

definition submission_recovery_of :: "state_db \<Rightarrow> submission_receipt \<Rightarrow> submission_recovery result" where
  "submission_recovery_of db receipt =
     bind_r (current db receipt) (\<lambda>receipt.
     bind_r (checkpoint db (re_capability_sha256 receipt)) (\<lambda>ck.
     bind_r (case Option.bind ck cv_marker of None \<Rightarrow> Inr None | Some m \<Rightarrow> map_ok Some (read_marker m)) (\<lambda>m.
     Inr \<lparr>rc_receipt = receipt, rc_checkpoint = ck, rc_marker = m\<rparr>)))"

definition atomic_commit :: "submission_receipt \<Rightarrow> checkpoint_view \<Rightarrow> marker option \<Rightarrow> bool \<Rightarrow> bool" where
  "atomic_commit receipt ck m observed \<longleftrightarrow>
     cv_phase ck = ''commit_ready''
     \<and> (case cv_atomic_action ck of None \<Rightarrow> False | Some kind \<Rightarrow> atomic_state kind = re_issued_state receipt)
     \<and> cv_expected_writes ck = Some (cv_accepted_writes ck) \<and> m = Some Between \<and> \<not> observed"

definition restartable_commit :: "submission_receipt \<Rightarrow> checkpoint_view \<Rightarrow> marker option \<Rightarrow> bool \<Rightarrow> bool" where
  "restartable_commit receipt ck m observed \<longleftrightarrow>
     cv_phase ck = ''commit_ready'' \<and> cv_atomic_action ck = None
     \<and> cv_expected_writes ck = Some (cv_accepted_writes ck)
     \<and> (case m of Some (RestartableMarker a) \<Rightarrow> restartable_state a = re_issued_state receipt | _ \<Rightarrow> False)
     \<and> \<not> observed"

text \<open>The writes that happened beyond the accepted ones, from the file as it was observed.\<close>

definition extra_writes :: "marker option \<Rightarrow> file_image option option \<Rightarrow> nat result" where
  "extra_writes m observed =
     (case (m, observed) of
        (Some Between, None) \<Rightarrow> Inr 0
      | (Some (RestartableMarker _), None) \<Rightarrow> Inr 0
      | (Some (FileMarker e), Some actual) \<Rightarrow>
          if fe_before e = Some (fe_after e) then Inl submission_unknown
          else if actual = Some (fe_after e) then Inr 1
          else if actual = fe_before e then Inr 0
          else Inl submission_unknown
      | _ \<Rightarrow> Inl submission_unknown)"

definition reconcile_caller_writes :: "string \<Rightarrow> state_db \<Rightarrow> submission_recovery \<Rightarrow> file_image option option \<Rightarrow>
    submission_receipt stored" where
  "reconcile_caller_writes now db recovery observed =
     bind_r (case observed of Some (Some f) \<Rightarrow> image_validate f | _ \<Rightarrow> Inr ()) (\<lambda>_.
     bind_r (current db (rc_receipt recovery)) (\<lambda>receipt.
     if re_result receipt \<noteq> None then Inr (receipt, db)
     else
     bind_r (checkpoint db (re_capability_sha256 receipt)) (\<lambda>found.
     if found \<noteq> rc_checkpoint recovery then Inl submission_unknown
     else
     bind_r (ok_or found submission_unknown) (\<lambda>ck.
     let seen = (observed \<noteq> None); m = rc_marker recovery in
     if cv_atomic_action ck \<noteq> None \<and> \<not> atomic_commit receipt ck m seen then Inl submission_unknown
     else if cv_phase ck = ''prepared''
     then finish_on db receipt (correction receipt 0 ''SUBMISSION_NOT_STARTED'') now
     else if cv_phase ck \<noteq> ''running'' \<and> \<not> atomic_commit receipt ck m seen
       \<and> \<not> restartable_commit receipt ck m seen then Inl submission_unknown
     else
     bind_r (extra_writes m observed) (\<lambda>extra.
     bind_r (ok_or (if cv_accepted_writes ck + extra \<le> u64_max then Some (cv_accepted_writes ck + extra) else None)
               invalid_receipt) (\<lambda>accepted.
     bind_r (ok_or (cv_expected_writes ck) invalid_receipt) (\<lambda>expected.
     if expected < accepted then Inl invalid_receipt
     else finish_on db receipt (correction receipt accepted ''SUBMISSION_INTERRUPTED'') now)))))))"

section \<open>What a pending submission shows\<close>

definition diagnostic :: "marker option \<Rightarrow> string \<Rightarrow> json result" where
  "diagnostic stored phase =
     bind_r (case stored of None \<Rightarrow> Inr None | Some m \<Rightarrow> map_ok Some (read_marker m)) (\<lambda>m.
     let kind = (case m of Some Between \<Rightarrow> ''between_writes'' | Some (FileMarker _) \<Rightarrow> ''file_effect''
                 | Some Opaque \<Rightarrow> ''opaque_effect'' | Some (RestartableMarker _) \<Rightarrow> ''restartable_action''
                 | None \<Rightarrow> ''legacy_unknown'');
         may = phase = ''prepared''
           \<or> (phase = ''running'' \<and> (case m of Some Between \<Rightarrow> True | Some (FileMarker _) \<Rightarrow> True | _ \<Rightarrow> False))
           \<or> (phase = ''commit_ready'' \<and> (case m of Some (RestartableMarker _) \<Rightarrow> True | _ \<Rightarrow> False)) in
     Inr (JObject [(''automatic_retry'', JBool False), (''grants_authority'', JBool False),
       (''kind'', JString kind), (''recover_only_may_reconcile'', JBool may)]))"

definition pending_submission_status :: "state_db \<Rightarrow> string \<Rightarrow> string \<Rightarrow> json result" where
  "pending_submission_status db owner run =
     (case find (\<lambda>r. sr_owner_id r = owner \<and> sr_run_id r = run \<and> receipt_pending r) (db_receipts db) of
        None \<Rightarrow> Inr JNull
      | Some r \<Rightarrow>
          let ck = find_checkpoint db (sr_capability_sha256 r);
              phase = map_option ck_phase ck;
              shown = (case phase of None \<Rightarrow> ''legacy_unknown'' | Some p \<Rightarrow> p);
              atomic = Option.bind ck ck_atomic_action;
              stored = map_option jn_marker (find_journal db (sr_capability_sha256 r)) in
          bind_r (diagnostic stored shown) (\<lambda>d.
          Inr (JObject
            [(''accepted_caller_writes_lower_bound'',
                case ck of None \<Rightarrow> JNull | Some k \<Rightarrow> i64_json (ck_accepted_writes k)),
             (''atomic_action'', json_opt_string atomic),
             (''automatic_retry'', JBool False),
             (''caller_write_recovery'', d),
             (''grants_authority'', JBool False),
             (''phase'', JString shown),
             (''recover_atomic_action_available'',
                JBool (phase = Some ''commit_ready'' \<and> Option.bind atomic atomic_parse \<noteq> None)),
             (''recover_unstarted_available'', JBool (phase = Some ''prepared'')),
             (''status'', JString ''pending'')])))"

section \<open>Writes to the database on behalf of a submission\<close>

definition manifest_on :: "string \<Rightarrow> state_db \<Rightarrow> string \<Rightarrow> json \<Rightarrow> string \<Rightarrow> state_db result" where
  "manifest_on now db run manifest digest =
     (if list_ex (\<lambda>m. mf_run_id m = run) (db_manifests db)
      then Inr (db\<lparr>db_manifests := update_rows (\<lambda>m. mf_run_id m = run)
             (\<lambda>m. m\<lparr>mf_manifest := manifest, mf_sha256 := digest, mf_updated_at := now\<rparr>) (db_manifests db)\<rparr>)
      else
      map_ok (\<lambda>rows. db\<lparr>db_manifests := rows\<rparr>)
        (insert_into False ''proof_manifests.run_id'' (find_run db run \<noteq> None)
           \<lparr>mf_run_id = run, mf_manifest = manifest, mf_sha256 = digest, mf_created_at = now,
            mf_updated_at = now\<rparr> (db_manifests db)))"

record reference_audit_write =
  aw_reference_id :: string
  aw_disposition :: string
  aw_evidence_basis :: string
  aw_evidence_locator :: string
  aw_verifier_domain_id :: string
  aw_proof_sha256 :: string
  aw_proof_manifest_sha256 :: string
  aw_material :: bool
  aw_assumptions_checked :: bool
  aw_notation_checked :: bool
  aw_source_checked :: bool
  aw_independently_rederived :: bool
  aw_notes :: string

definition msg_unknown_reference :: string where
  "msg_unknown_reference = ''Unknown reference.''"

definition msg_reference_run :: string where
  "msg_reference_run = ''Reference does not belong to this run.''"

definition msg_disposition :: string where
  "msg_disposition = ''Unsupported reference audit disposition.''"

definition find_reference :: "state_db \<Rightarrow> string \<Rightarrow> reference_row option" where
  "find_reference db reference = find (\<lambda>r. rf_reference_id r = reference) (db_references db)"

definition reference_not_found :: re_ctm_error where
  "reference_not_found = with_category NotFound (error_new ''REFERENCE_NOT_FOUND'' msg_unknown_reference)"

definition audit_row_of :: "string \<Rightarrow> reference_audit_write \<Rightarrow> audit_row \<Rightarrow> audit_row" where
  "audit_row_of now a r = r\<lparr>au_disposition := aw_disposition a, au_evidence_basis := aw_evidence_basis a,
     au_evidence_locator := aw_evidence_locator a, au_verifier_domain_id := aw_verifier_domain_id a,
     au_proof_sha256 := aw_proof_sha256 a, au_proof_manifest_sha256 := aw_proof_manifest_sha256 a,
     au_material := aw_material a, au_assumptions_checked := aw_assumptions_checked a,
     au_notation_checked := aw_notation_checked a, au_source_checked := aw_source_checked a,
     au_independently_rederived := aw_independently_rederived a, au_notes := aw_notes a,
     au_updated_at := now\<rparr>"

definition new_audit :: "string \<Rightarrow> int \<Rightarrow> string \<Rightarrow> reference_audit_write \<Rightarrow> audit_row" where
  "new_audit now rowid run a = \<lparr>au_audit_id = rowid, au_run_id = run, au_reference_id = aw_reference_id a,
     au_disposition = aw_disposition a, au_evidence_basis = aw_evidence_basis a,
     au_evidence_locator = aw_evidence_locator a, au_verifier_domain_id = aw_verifier_domain_id a,
     au_proof_sha256 = aw_proof_sha256 a, au_proof_manifest_sha256 = aw_proof_manifest_sha256 a,
     au_material = aw_material a, au_assumptions_checked = aw_assumptions_checked a,
     au_notation_checked = aw_notation_checked a, au_source_checked = aw_source_checked a,
     au_independently_rederived = aw_independently_rederived a, au_notes = aw_notes a,
     au_created_at = now, au_updated_at = now\<rparr>"

definition audit_key :: "string \<Rightarrow> string \<Rightarrow> audit_row \<Rightarrow> bool" where
  "audit_key run reference r \<longleftrightarrow> au_run_id r = run \<and> au_reference_id r = reference"

definition audit_on :: "string \<Rightarrow> state_db \<Rightarrow> string \<Rightarrow> reference_audit_write \<Rightarrow> audit_row stored" where
  "audit_on now db run a =
     bind_r (ok_or (find_reference db (aw_reference_id a)) reference_not_found) (\<lambda>reference.
     if rf_run_id reference \<noteq> run
     then Inl (with_category Permission (error_new ''REFERENCE_RUN_MISMATCH'' msg_reference_run))
     else if aw_disposition a \<notin> {''SOURCE_VERIFIED'', ''INDEPENDENTLY_REDERIVED'', ''UNRESOLVED'', ''NOT_MATERIAL''}
     then Inl (with_category Validation (error_new ''INVALID_REFERENCE_DISPOSITION'' msg_disposition))
     else
       let key = audit_key run (aw_reference_id a) in
       bind_r (if list_ex key (db_audits db)
               then Inr (db\<lparr>db_audits := update_rows key (audit_row_of now a) (db_audits db)\<rparr>)
               else map_ok (\<lambda>rows. db\<lparr>db_audits := rows\<rparr>)
                      (insert_into False ''reference_audits.run_id, reference_audits.reference_id''
                         (find_run db run \<noteq> None) (new_audit now (next_rowid (db_audits db)) run a)
                         (db_audits db))) (\<lambda>db.
       bind_r (ok_or (find key (db_audits db)) internal_row_error) (\<lambda>row. Inr (row, db))))"

definition require_slot :: "state_db \<Rightarrow> submission_execution \<Rightarrow> int \<Rightarrow> int \<Rightarrow> unit result" where
  "require_slot db ex accepted minimum_expected =
     (let c = ex_claims ex in
      ensure (list_ex (\<lambda>k. ck_capability_sha256 k = ex_fingerprint ex \<and> ck_execution_id k = ex_id ex
          \<and> ck_phase k = ''running'' \<and> ck_accepted_writes k = accepted
          \<and> (case ck_expected_writes k of None \<Rightarrow> False | Some n \<Rightarrow> minimum_expected \<le> n)
          \<and> list_ex (\<lambda>r. sr_capability_sha256 r = ck_capability_sha256 k \<and> receipt_pending r
               \<and> sr_run_id r = ca_run_id c \<and> sr_owner_id r = ca_owner_id c \<and> sr_domain_id r = ca_domain_id c
               \<and> sr_epoch r = ca_epoch c \<and> sr_issued_state r = state_as_str (ca_issued_state c)
               \<and> sr_role r = role_as_str (ca_role c)) (db_receipts db)) (db_checkpoints db)) invalid_receipt)"

definition msg_database_not_writable :: string where
  "msg_database_not_writable = ''Reserved task cannot write this database resource.''"

definition database_submission :: "int \<Rightarrow> state_db \<Rightarrow> submission_execution \<Rightarrow> nat \<Rightarrow> string \<Rightarrow>
    (state_db \<Rightarrow> 'a stored) \<Rightarrow> 'a stored" where
  "database_submission now db ex index resource mutation =
     (let c = ex_claims ex in
      if 65536 \<le> index then Inl invalid_receipt
      else
      bind_r (recheck_authority db c now) (\<lambda>_.
      if \<not> list_ex (\<lambda>p. wildcard_match p (''write:'' @ resource)) (ca_permissions c)
      then Inl (receipt_error ''ROLE_ACCESS_DENIED'' msg_database_not_writable)
      else
      bind_r (ok_or (find_domain db (ca_domain_id c)) invalid_receipt) (\<lambda>dom.
      bind_r (authorize_role_resource (ca_role c) (ca_issued_state c) ''write'' resource (dm_metadata dom)) (\<lambda>_.
      bind_r (require_between db (ex_fingerprint ex)) (\<lambda>_.
      bind_r (require_slot db ex (int index) (int index + 1)) (\<lambda>_.
      bind_r (mutation db) (\<lambda>(r, db).
      bind_r (update_checkpoint (takes_write db ex index) (\<lambda>k. k\<lparr>ck_accepted_writes := int index + 1\<rparr>)
                invalid_receipt db) (\<lambda>db.
      bind_r (require_between db (ex_fingerprint ex)) (\<lambda>_.
      bind_r (require_slot db ex (int index + 1) (int index + 1)) (\<lambda>_.
      Inr (r, db)))))))))))"

definition max_record_bytes :: nat where
  "max_record_bytes = 1024 * 1024"

definition write_submission_proof_manifest :: "token_codec \<Rightarrow> string \<Rightarrow> int \<Rightarrow> state_db \<Rightarrow> submission_execution \<Rightarrow>
    nat \<Rightarrow> json \<Rightarrow> json stored" where
  "write_submission_proof_manifest k now_iso now db ex index manifest =
     (let canonical = tk_print k manifest; digest = tk_sha256 k canonical; run = ca_run_id (ex_claims ex) in
      if \<not> is_object manifest \<or> max_record_bytes < length canonical then Inl invalid_receipt
      else
      database_submission now db ex index ''proof_manifest'' (\<lambda>db.
        map_ok (\<lambda>db. (JObject [(''manifest'', manifest), (''run_id'', JString run), (''sha256'', JString digest)], db))
          (manifest_on now_iso db run manifest digest)))"

definition audit_size :: "reference_audit_write \<Rightarrow> nat" where
  "audit_size a = sum_list (map length [aw_reference_id a, aw_disposition a, aw_evidence_basis a,
     aw_evidence_locator a, aw_verifier_domain_id a, aw_proof_sha256 a, aw_proof_manifest_sha256 a, aw_notes a])"

definition write_submission_reference_audit :: "string \<Rightarrow> int \<Rightarrow> state_db \<Rightarrow> submission_execution \<Rightarrow> nat \<Rightarrow>
    reference_audit_write \<Rightarrow> audit_row stored" where
  "write_submission_reference_audit now_iso now db ex index a =
     (let run = ca_run_id (ex_claims ex) in
      if max_record_bytes < audit_size a \<or> aw_verifier_domain_id a \<noteq> ca_domain_id (ex_claims ex)
        \<or> \<not> valid_digest (aw_proof_sha256 a) \<or> \<not> valid_digest (aw_proof_manifest_sha256 a)
      then Inl invalid_receipt
      else
      database_submission now db ex index ''reference_audit'' (\<lambda>db.
        bind_r (ok_or (find (\<lambda>m. mf_run_id m = run) (db_manifests db)) invalid_receipt) (\<lambda>m.
        if mf_sha256 m \<noteq> aw_proof_manifest_sha256 a then Inl invalid_receipt
        else audit_on now_iso db run a)))"

end
