(* ===== verification/Creation.thy ===== *)
theory Creation
  imports Submission
begin

text \<open>
  Creation receipts (\<open>crates/mtm-storage/src/creation_receipts.rs\<close>): a key of the owner names one
  creation, whatever happens to the process between its reservation and its completion.

  A \<open>CreationIdentity\<close> is only built by \<open>creation_identity_new\<close>; a \<open>CreationReservation\<close> is the
  receipt it wraps. A \<open>CreationReceipt\<close> is a row that \<open>decode_creation\<close> accepted.
\<close>

record move_request =
  tn_run_id :: string
  tn_expected_state :: string
  tn_after_state :: string
  tn_trace_id :: string
  tn_actor :: string
  tn_reason :: string
  tn_evidence :: json
  tn_increment_epoch :: bool
  tn_status :: "string option"
  tn_latex_passed :: "bool option"
  tn_verdict :: "string option"
  tn_sealed :: "bool option"
  tn_round_delta :: int

definition registry_id_max_bytes :: nat where
  "registry_id_max_bytes = 128"

definition validate_registry_id :: "string \<Rightarrow> bool" where
  "validate_registry_id s \<longleftrightarrow>
     s \<noteq> '''' \<and> length s \<le> registry_id_max_bytes \<and> is_ascii_alphanumeric (hd s)
     \<and> list_all (\<lambda>b. is_ascii_alphanumeric b \<or> b \<in> {CHR ''.'', CHR ''_'', CHR ''-''}) s"

definition creation_conflict :: "string \<Rightarrow> string \<Rightarrow> re_ctm_error" where
  "creation_conflict c m = with_retryable False (with_category Conflict (error_new c m))"

definition msg_creation_invalid :: string where
  "msg_creation_invalid = ''Creation binding or persisted receipt is invalid.''"

definition creation_invalid :: re_ctm_error where
  "creation_invalid = creation_conflict ''CREATION_RECEIPT_INVALID'' msg_creation_invalid"

record creation_identity =
  id_key :: string
  id_workspace :: string
  id_request :: string

definition creation_identity_new :: "string \<Rightarrow> string \<Rightarrow> string \<Rightarrow> creation_identity result" where
  "creation_identity_new key workspace request =
     (if \<not> list_all valid_digest [key, workspace, request] then Inl creation_invalid
      else Inr \<lparr>id_key = key, id_workspace = workspace, id_request = request\<rparr>)"

definition creation_completed :: "creation_receipt_row \<Rightarrow> bool" where
  "creation_completed r \<longleftrightarrow> cr_status r = ''completed''"

definition decode_creation :: "creation_receipt_row \<Rightarrow> creation_receipt_row result" where
  "decode_creation r =
     (if cr_status r \<notin> {''pending'', ''completed''}
        \<or> creation_completed r \<noteq> (cr_completed_at r \<noteq> None) \<or> cr_completed_at r = Some ''''
        \<or> cr_owner_id r = '''' \<or> cr_created_at r = '''' \<or> \<not> validate_registry_id (cr_run_id r)
        \<or> length (cr_execution_id r) \<noteq> 32 \<or> \<not> list_all is_ascii_hexdigit (cr_execution_id r)
        \<or> \<not> list_all valid_digest [cr_key_sha256 r, cr_workspace_sha256 r, cr_request_sha256 r]
      then Inl creation_invalid else Inr r)"

definition msg_creation_workspace :: string where
  "msg_creation_workspace = ''Creation identity belongs to another workspace.''"

definition msg_creation_key :: string where
  "msg_creation_key = ''This creation key already identifies different input. Do not change the key to retry an uncertain operation.''"

definition creation_check :: "creation_receipt_row \<Rightarrow> creation_identity \<Rightarrow> unit result" where
  "creation_check r identity =
     (if cr_workspace_sha256 r \<noteq> id_workspace identity
      then Inl (creation_conflict ''CREATION_WORKSPACE_MISMATCH'' msg_creation_workspace)
      else if cr_request_sha256 r \<noteq> id_request identity
      then Inl (creation_conflict ''IDEMPOTENCY_CONFLICT'' msg_creation_key)
      else Inr ())"

definition msg_creation_unknown :: string where
  "msg_creation_unknown = ''Creation is running or interrupted before its durable completion. Keep the same key; do not create another run as a retry.''"

definition creation_response :: "creation_receipt_row \<Rightarrow> bool \<Rightarrow> json result" where
  "creation_response r replayed =
     (if cr_status r \<noteq> ''completed''
      then Inl (with_details (JObject
             [(''automatic_retry'', JBool False), (''grants_authority'', JBool False),
              (''run_id'', JString (cr_run_id r)), (''runs_created'', JNull)])
             (creation_conflict ''CREATION_RESULT_UNKNOWN'' msg_creation_unknown))
      else Inr (JObject
        [(''creation_receipt'', JObject [(''grants_authority'', JBool False),
            (''replayed'', JBool replayed), (''status'', JString ''completed'')]),
         (''next_action'', JObject [(''arguments'', JObject [(''run_id'', JString (cr_run_id r))]),
            (''tool'', JString ''rethlas_step'')]),
         (''ok'', JBool True), (''run_id'', JString (cr_run_id r)),
         (''runs_created'', JNumber (PosInt (if replayed then 0 else 1))),
         (''state'', JString ''assess''), (''state_is_historical'', JBool True)]))"

definition find_creation :: "state_db \<Rightarrow> string \<Rightarrow> string \<Rightarrow> creation_receipt_row option result" where
  "find_creation db owner key =
     (case find (\<lambda>r. cr_owner_id r = owner \<and> cr_key_sha256 r = key) (db_creations db) of
        None \<Rightarrow> Inr None
      | Some r \<Rightarrow> map_ok Some (decode_creation r))"

text \<open>A completed creation must have its run, owned by the owner of the key.\<close>

definition check_owned_run :: "state_db \<Rightarrow> string \<Rightarrow> creation_receipt_row \<Rightarrow> unit result" where
  "check_owned_run db owner r =
     (if creation_completed r \<and> map_option rr_owner_id (find_run db (cr_run_id r)) \<noteq> Some owner
      then Inl creation_invalid else Inr ())"

definition creation_receipt :: "state_db \<Rightarrow> string \<Rightarrow> creation_identity \<Rightarrow> creation_receipt_row option result" where
  "creation_receipt db owner identity =
     bind_r (find_creation db owner (id_key identity)) (\<lambda>found.
     case found of
       None \<Rightarrow> Inr None
     | Some r \<Rightarrow>
         bind_r (creation_check r identity) (\<lambda>_.
         bind_r (check_owned_run db owner r) (\<lambda>_. Inr (Some r))))"

definition msg_creation_capacity :: string where
  "msg_creation_capacity = ''Creation receipt capacity reached. Safety records were not removed.''"

definition msg_creation_new_run :: string where
  "msg_creation_new_run = ''Creation requires a new server-issued run identity.''"

datatype creation_slot = CreationReserved creation_receipt_row | CreationExisting creation_receipt_row

definition insert_creation :: "state_db \<Rightarrow> creation_receipt_row \<Rightarrow> state_db result" where
  "insert_creation db r =
     (if list_ex (\<lambda>x. cr_owner_id x = cr_owner_id r \<and> cr_key_sha256 x = cr_key_sha256 r) (db_creations db)
      then Inl (unique_failed ''creation_receipts.owner_id, creation_receipts.key_sha256'')
      else if list_ex (\<lambda>x. cr_run_id x = cr_run_id r) (db_creations db)
      then Inl (unique_failed ''creation_receipts.run_id'')
      else
      map_ok (\<lambda>rows. db\<lparr>db_creations := rows\<rparr>)
        (insert_into (list_ex (\<lambda>x. cr_execution_id x = cr_execution_id r) (db_creations db))
           ''creation_receipts.execution_id'' True r (db_creations db)))"

definition insert_initialization :: "state_db \<Rightarrow> string \<Rightarrow> state_db result" where
  "insert_initialization db run =
     map_ok (\<lambda>rows. db\<lparr>db_initializations := rows\<rparr>)
       (insert_into (list_ex (\<lambda>i. ci_run_id i = run) (db_initializations db))
          ''creation_initializations.run_id'' (list_ex (\<lambda>r. cr_run_id r = run) (db_creations db))
          \<lparr>ci_run_id = run, ci_material_sha256 = None, ci_database_sha256 = None\<rparr> (db_initializations db))"

definition reserve_creation :: "string \<Rightarrow> string \<Rightarrow> state_db \<Rightarrow> string \<Rightarrow> creation_identity \<Rightarrow> string \<Rightarrow>
    creation_slot stored" where
  "reserve_creation now execution db owner identity proposed_run =
     (if owner = '''' \<or> 512 < length owner \<or> \<not> validate_registry_id proposed_run then Inl creation_invalid
      else
      bind_r (find_creation db owner (id_key identity)) (\<lambda>found.
      case found of
        Some r \<Rightarrow>
          bind_r (creation_check r identity) (\<lambda>_.
          bind_r (check_owned_run db owner r) (\<lambda>_. Inr (CreationExisting r, db)))
      | None \<Rightarrow>
          if 100000 \<le> length (db_creations db)
            \<or> 10000 \<le> matching (\<lambda>r. cr_owner_id r = owner) (db_creations db)
          then Inl (creation_conflict ''CREATION_RECEIPT_CAPACITY'' msg_creation_capacity)
          else if find_run db proposed_run \<noteq> None
          then Inl (creation_conflict ''RUN_ALREADY_EXISTS'' msg_creation_new_run)
          else
          bind_r (insert_creation db \<lparr>cr_owner_id = owner, cr_key_sha256 = id_key identity,
                    cr_workspace_sha256 = id_workspace identity, cr_request_sha256 = id_request identity,
                    cr_run_id = proposed_run, cr_execution_id = execution, cr_status = ''pending'',
                    cr_created_at = now, cr_completed_at = None\<rparr>) (\<lambda>db.
          bind_r (insert_initialization db proposed_run) (\<lambda>db.
          bind_r (bind_r (find_creation db owner (id_key identity)) (\<lambda>r. ok_or r creation_invalid)) (\<lambda>r.
          Inr (CreationReserved r, db))))))"

definition observe_creation :: "state_db \<Rightarrow> creation_receipt_row \<Rightarrow> creation_receipt_row result" where
  "observe_creation db row =
     bind_r (bind_r (find_creation db (cr_owner_id row) (cr_key_sha256 row)) (\<lambda>r. ok_or r creation_invalid)) (\<lambda>r.
     if cr_run_id r \<noteq> cr_run_id row \<or> cr_execution_id r \<noteq> cr_execution_id row
       \<or> cr_workspace_sha256 r \<noteq> cr_workspace_sha256 row \<or> cr_request_sha256 r \<noteq> cr_request_sha256 row
     then Inl creation_invalid else Inr r)"

definition msg_creation_legacy :: string where
  "msg_creation_legacy = ''Legacy initialization has no resumable evidence; it was not restarted.''"

definition resume_creation :: "state_db \<Rightarrow> creation_receipt_row \<Rightarrow> creation_receipt_row result" where
  "resume_creation db row =
     bind_r (bind_r (find_creation db (cr_owner_id row) (cr_key_sha256 row)) (\<lambda>r. ok_or r creation_invalid)) (\<lambda>r.
     bind_r (creation_identity_new (cr_key_sha256 row) (cr_workspace_sha256 row) (cr_request_sha256 row)) (\<lambda>identity.
     bind_r (creation_check r identity) (\<lambda>_.
     if cr_run_id r \<noteq> cr_run_id row \<or> cr_execution_id r \<noteq> cr_execution_id row then Inl creation_invalid
     else if \<not> list_ex (\<lambda>i. ci_run_id i = cr_run_id r) (db_initializations db)
     then Inl (creation_conflict ''CREATION_RESULT_UNKNOWN'' msg_creation_legacy)
     else Inr r)))"

definition complete_creation_row :: "string \<Rightarrow> creation_receipt_row \<Rightarrow> creation_receipt_row" where
  "complete_creation_row now r = r\<lparr>cr_status := ''completed'', cr_completed_at := Some now\<rparr>"

definition record_initialization :: "string \<Rightarrow> state_db \<Rightarrow> move_request \<Rightarrow> run_row \<Rightarrow> state_db result" where
  "record_initialization now db t before =
     (if tn_expected_state t \<noteq> ''created'' \<or> tn_after_state t \<noteq> ''assess'' then Inr db
      else case find (\<lambda>r. cr_run_id r = tn_run_id t) (db_creations db) of
        None \<Rightarrow> Inr db
      | Some row \<Rightarrow>
          bind_r (decode_creation row) (\<lambda>r.
          if cr_status r \<noteq> ''pending'' \<or> cr_execution_id r \<noteq> tn_trace_id t
            \<or> rr_owner_id before \<noteq> cr_owner_id r \<or> tn_actor t \<noteq> ''system''
            \<or> tn_reason t \<noteq> ''run_initialized''
          then Inl creation_invalid
          else
            let P = (\<lambda>r. cr_run_id r = tn_run_id t \<and> cr_execution_id r = tn_trace_id t
                       \<and> cr_status r = ''pending'') in
            if matching P (db_creations db) \<noteq> 1 then Inl creation_invalid
            else Inr (db\<lparr>db_creations := update_rows P (complete_creation_row now) (db_creations db)\<rparr>)))"

end
