(* ===== verification/Task_Transitions.thy ===== *)
theory Task_Transitions
  imports Creation
begin

text \<open>
  Transitions of a run (\<open>task_transitions.rs\<close>, \<open>mechanical_transitions.rs\<close> and
  \<open>record_transition\<close> of \<open>step_checkpoints.rs\<close>, all of \<open>crates/mtm-storage/src\<close>): the state of the
  run, its history, the capabilities of the epoch it leaves and the receipt of the submission that
  asked for it change in one transaction.
\<close>

section \<open>The receipt of the submission\<close>

definition record_transition :: "string \<Rightarrow> state_db \<Rightarrow> move_request \<Rightarrow> run_row \<Rightarrow> state_db result" where
  "record_transition now db t before =
     (case execution_row db (tn_trace_id t) of
        None \<Rightarrow> Inr db
      | Some row \<Rightarrow>
          bind_r (decode_receipt row) (\<lambda>receipt.
          bind_r (ok_or (execution_checkpoint db (tn_trace_id t)) invalid_receipt) (\<lambda>k.
          if re_result receipt \<noteq> None \<or> \<not> commit_ready k
            \<or> re_run_id receipt \<noteq> tn_run_id t \<or> role_as_str (re_role receipt) \<noteq> tn_actor t
            \<or> state_as_str (re_issued_state receipt) \<noteq> tn_expected_state t
            \<or> rr_epoch before \<noteq> re_epoch receipt \<or> rr_owner_id before \<noteq> re_owner_id receipt
          then Inl invalid_receipt
          else
          bind_r (ok_or (state_from_wire (tn_after_state t)) invalid_receipt) (\<lambda>after.
          bind_r (as_nat (ck_accepted_writes k)) (\<lambda>writes.
          bind_r (finish_on db receipt \<lparr>sub_disposition = Applied, sub_state = after,
                    sub_writes_applied = writes, sub_complete = True, sub_error_code = None\<rparr> now) (\<lambda>(_, db).
          Inr db))))))"

section \<open>One transition\<close>

definition msg_task_conflict :: string where
  "msg_task_conflict = ''Task transition bindings or database facts changed; no transaction was committed.''"

definition task_conflict :: re_ctm_error where
  "task_conflict =
     with_retryable False (with_category Conflict (error_new ''TASK_TRANSITION_CONFLICT'' msg_task_conflict))"

definition msg_run_unknown :: string where
  "msg_run_unknown = ''Unknown run.''"

definition msg_state_conflict :: string where
  "msg_state_conflict = ''The run changed state before this transition was committed.''"

definition run_on :: "state_db \<Rightarrow> string \<Rightarrow> run_row result" where
  "run_on db run = ok_or (find_run db run) (with_category NotFound (error_new ''RUN_NOT_FOUND'' msg_run_unknown))"

definition state_conflict :: "move_request \<Rightarrow> string \<Rightarrow> re_ctm_error" where
  "state_conflict t actual =
     with_details (JObject [(''actual'', JString actual), (''expected'', JString (tn_expected_state t)),
                            (''run_id'', JString (tn_run_id t))])
       (with_retryable True (with_category Conflict (error_new ''STATE_CONFLICT'' msg_state_conflict)))"

definition move_row :: "string \<Rightarrow> move_request \<Rightarrow> int \<Rightarrow> int \<Rightarrow> int \<Rightarrow> run_row \<Rightarrow> run_row \<Rightarrow> run_row" where
  "move_row now t epoch seq rnd before r =
     r\<lparr>rr_state := tn_after_state t, rr_epoch := epoch, rr_transition_seq := seq,
       rr_round_index := rnd, rr_updated_at := now,
       rr_status := (case tn_status t of None \<Rightarrow> rr_status before | Some s \<Rightarrow> s),
       rr_latex_passed := (case tn_latex_passed t of None \<Rightarrow> rr_latex_passed before | Some b \<Rightarrow> b),
       rr_verdict := coalesce (tn_verdict t) (rr_verdict before),
       rr_sealed := (case tn_sealed t of None \<Rightarrow> rr_sealed before | Some b \<Rightarrow> b)\<rparr>"

definition insert_transition :: "string \<Rightarrow> state_db \<Rightarrow> move_request \<Rightarrow> int \<Rightarrow> state_db result" where
  "insert_transition now db t seq =
     map_ok (\<lambda>rows. db\<lparr>db_transitions := rows\<rparr>)
       (insert_into (list_ex (\<lambda>x. tr_run_id x = tn_run_id t \<and> tr_sequence x = seq) (db_transitions db))
          ''transitions.run_id, transitions.sequence'' (find_run db (tn_run_id t) \<noteq> None)
          \<lparr>tr_id = next_rowid (db_transitions db), tr_run_id = tn_run_id t, tr_sequence = seq,
           tr_trace_id = tn_trace_id t, tr_before_state = tn_expected_state t,
           tr_after_state = tn_after_state t, tr_actor = tn_actor t, tr_reason = tn_reason t,
           tr_evidence = tn_evidence t, tr_created_at = now\<rparr> (db_transitions db))"

definition transition_on :: "string \<Rightarrow> state_db \<Rightarrow> move_request \<Rightarrow> run_row stored" where
  "transition_on now db t =
     bind_r (run_on db (tn_run_id t)) (\<lambda>row.
     if rr_state row \<noteq> tn_expected_state t then Inl (state_conflict t (rr_state row))
     else
     bind_r (ok_or (checked_add (rr_transition_seq row) 1) task_conflict) (\<lambda>seq.
     bind_r (ok_or (checked_add (rr_epoch row) (if tn_increment_epoch t then 1 else 0)) task_conflict) (\<lambda>epoch.
     bind_r (ok_or (checked_add (rr_round_index row) (tn_round_delta t)) task_conflict) (\<lambda>rnd.
     let db = db\<lparr>db_runs := update_rows (\<lambda>r. rr_run_id r = tn_run_id t) (move_row now t epoch seq rnd row)
                            (db_runs db)\<rparr> in
     bind_r (insert_transition now db t seq) (\<lambda>db.
     let db = (if tn_increment_epoch t
               then revoke_where now ''run_epoch_advanced'' (\<lambda>c. cp_run_id c = tn_run_id t) db else db) in
     bind_r (record_initialization now db t row) (\<lambda>db.
     bind_r (record_transition now db t row) (\<lambda>db.
     bind_r (run_on db (tn_run_id t)) (\<lambda>row. Inr (row, db)))))))))"

definition transition_run :: "string \<Rightarrow> state_db \<Rightarrow> move_request \<Rightarrow> run_row stored" where
  "transition_run now db t = transition_on now db t"

section \<open>The transition of a task\<close>

record branch_seal =
  bs_branch_id :: string
  bs_result_path :: string

record task_transition =
  tt_transition :: move_request
  tt_expected_metadata :: "json option"
  tt_metadata_updates :: object
  tt_project_mode :: "string option"
  tt_branch :: "branch_seal option"
  tt_restartable :: "restartable_action_kind option"

definition update_project_mode :: "string \<Rightarrow> state_db \<Rightarrow> string \<Rightarrow> string \<Rightarrow> state_db" where
  "update_project_mode now db run mode =
     db\<lparr>db_project_runs := update_rows (\<lambda>p. pj_run_id p = run)
          (\<lambda>p. p\<lparr>pj_effective_workflow_mode := mode, pj_updated_at := now\<rparr>) (db_project_runs db)\<rparr>"

definition seal_branch :: "string \<Rightarrow> state_db \<Rightarrow> capability_claims \<Rightarrow> branch_seal \<Rightarrow> string \<Rightarrow> state_db result" where
  "seal_branch now db c b after =
     (if ca_role c \<noteq> RoleBranch \<or> 4096 < length (bs_result_path b) then Inl task_conflict
      else
        let P = (\<lambda>r. br_branch_id r = bs_branch_id b \<and> br_run_id r = ca_run_id c
                   \<and> br_domain_id r = ca_domain_id c \<and> br_status r \<noteq> ''sealed'') in
        if matching P (db_branches db) \<noteq> 1 then Inl task_conflict
        else
          let db = db\<lparr>db_branches := update_rows P (\<lambda>r. r\<lparr>br_status := ''sealed'',
                     br_result_path := Some (bs_result_path b), br_sealed_at := Some now\<rparr>) (db_branches db)\<rparr>;
              unsealed = matching (\<lambda>r. br_run_id r = ca_run_id c \<and> br_status r \<noteq> ''sealed'') (db_branches db) in
          if after \<noteq> (if unsealed = 0 then ''branch_join'' else ''branch_run'') then Inl task_conflict
          else Inr db)"

definition seal_task_domain :: "string \<Rightarrow> state_db \<Rightarrow> capability_claims \<Rightarrow> state_db result" where
  "seal_task_domain now db c =
     (let P = (\<lambda>d. dm_domain_id d = ca_domain_id c \<and> dm_run_id d = ca_run_id c \<and> dm_status d = ''open'') in
      if matching P (db_domains db) \<noteq> 1 then Inl task_conflict
      else Inr (revoke_where now ''domain_sealed'' (\<lambda>x. cp_domain_id x = ca_domain_id c)
             (db\<lparr>db_domains := update_rows P (seal_row now) (db_domains db)\<rparr>)))"

definition task_metadata :: "string \<Rightarrow> state_db \<Rightarrow> string \<Rightarrow> run_row \<Rightarrow> object \<Rightarrow> state_db result" where
  "task_metadata now db run before updates =
     (if updates = [] then Inr db
      else
      bind_r (ok_or (as_object (rr_metadata before)) task_conflict) (\<lambda>m.
      Inr (db\<lparr>db_runs := update_rows (\<lambda>r. rr_run_id r = run)
                (set_run_metadata now (map_extend m updates)) (db_runs db)\<rparr>)))"

definition check_task_of :: "state_db \<Rightarrow> capability_claims \<Rightarrow> task_transition \<Rightarrow> state_db result" where
  "check_task_of db c task =
     (case tt_restartable task of
        Some action \<Rightarrow>
          if restartable_state action \<noteq> ca_issued_state c then Inl task_conflict
          else consume_restartable_task db c (tn_trace_id (tt_transition task)) action
      | None \<Rightarrow> map_ok (\<lambda>_. db) (check_task db c (tn_trace_id (tt_transition task))))"

definition transition_task :: "token_codec \<Rightarrow> string \<Rightarrow> int \<Rightarrow> state_db \<Rightarrow> capability_claims \<Rightarrow> task_transition \<Rightarrow>
    run_row stored" where
  "transition_task k now unix db c task =
     (let t = tt_transition task in
      if tn_run_id t \<noteq> ca_run_id c \<or> tn_expected_state t \<noteq> state_as_str (ca_issued_state c)
        \<or> tn_actor t \<noteq> role_as_str (ca_role c) \<or> \<not> tn_increment_epoch t
        \<or> tt_project_mode task \<notin> {None, Some ''compact'', Some ''full''}
        \<or> 1024 * 1024 < length (tk_print k (JObject (tt_metadata_updates task)))
      then Inl task_conflict
      else
      bind_r (recheck_authority db c unix) (\<lambda>_.
      bind_r (check_task_of db c task) (\<lambda>db.
      bind_r (run_on db (ca_run_id c)) (\<lambda>before.
      if tt_expected_metadata task \<noteq> None \<and> tt_expected_metadata task \<noteq> Some (rr_metadata before)
      then Inl task_conflict
      else
      bind_r (task_metadata now db (ca_run_id c) before (tt_metadata_updates task)) (\<lambda>db.
      let db = (case tt_project_mode task of None \<Rightarrow> db
                | Some mode \<Rightarrow> update_project_mode now db (ca_run_id c) mode) in
      bind_r (case tt_branch task of None \<Rightarrow> Inr db
              | Some b \<Rightarrow> seal_branch now db c b (tn_after_state t)) (\<lambda>db.
      bind_r (seal_task_domain now db c) (\<lambda>db.
      transition_on now db t)))))))"

section \<open>Mechanical transitions\<close>

definition msg_mechanical_conflict :: string where
  "msg_mechanical_conflict = ''Mechanical branch-preparation facts changed; no database effects were committed.''"

definition mechanical_conflict :: re_ctm_error where
  "mechanical_conflict = with_retryable False
     (with_category Conflict (error_new ''MECHANICAL_TRANSITION_CONFLICT'' msg_mechanical_conflict))"

text \<open>\<open>UPDATE runs SET metadata_json=? ... WHERE run_id=? AND state=?\<close>.\<close>

definition store_metadata :: "string \<Rightarrow> state_db \<Rightarrow> string \<Rightarrow> string \<Rightarrow> object \<Rightarrow> state_db" where
  "store_metadata now db run st m =
     db\<lparr>db_runs := update_rows (\<lambda>r. rr_run_id r = run \<and> rr_state r = st) (set_run_metadata now m)
                     (db_runs db)\<rparr>"

definition complete_latex_gate :: "string \<Rightarrow> state_db \<Rightarrow> move_request \<Rightarrow> json \<Rightarrow> json \<Rightarrow> run_row stored" where
  "complete_latex_gate now db t expected_metadata latex_result =
     (if tn_expected_state t \<noteq> ''latex_validate'' \<or> tn_after_state t \<notin> {''verify'', ''repair''}
        \<or> tn_actor t \<noteq> ''latex_gate'' \<or> \<not> tn_increment_epoch t \<or> tn_round_delta t \<noteq> 0
        \<or> tn_latex_passed t = None \<or> \<not> is_object latex_result
      then Inl mechanical_conflict
      else
      bind_r (ok_or (find_run db (tn_run_id t)) mechanical_conflict) (\<lambda>row.
      if rr_state row \<noteq> ''latex_validate'' \<or> rr_metadata row \<noteq> expected_metadata then Inl mechanical_conflict
      else
      bind_r (ok_or (as_object (rr_metadata row)) mechanical_conflict) (\<lambda>m.
      transition_on now
        (store_metadata now db (tn_run_id t) ''latex_validate'' (bt_insert ''latex_result'' latex_result m)) t)))"

record prepared_branch =
  pb_branch_id :: string
  pb_plan_id :: string
  pb_domain_id :: string
  pb_snapshot_id :: string
  pb_order_index :: int
  pb_domain_metadata :: json
  pb_branch_metadata :: json

record branch_preparation =
  bp_transition :: move_request
  bp_expected_requests :: json
  bp_snapshot_id :: string
  bp_branches :: "prepared_branch list"

definition msg_legacy_partial :: string where
  "msg_legacy_partial = ''A prior branch-preparation attempt left database rows without a completed transition; automatic adoption is refused.''"

definition insert_prepared :: "string \<Rightarrow> branch_preparation \<Rightarrow> prepared_branch \<Rightarrow> state_db \<Rightarrow> state_db result" where
  "insert_prepared now p b db =
     (if pb_snapshot_id b \<noteq> bp_snapshot_id p \<or> pb_order_index b < 0
        \<or> int (length (bp_branches p)) \<le> pb_order_index b then Inl mechanical_conflict
      else
      bind_r (insert_domain now db (pb_domain_id b) (tn_run_id (bp_transition p)) ''branch''
                (Some (pb_snapshot_id b)) (Some (pb_order_index b)) (pb_domain_metadata b)) (\<lambda>db.
      insert_branch now db (pb_branch_id b) (tn_run_id (bp_transition p)) (pb_plan_id b) (pb_domain_id b)
        (pb_snapshot_id b) (pb_order_index b) (pb_branch_metadata b)))"

text \<open>\<open>snapshot_id LIKE 'round-N-%'\<close>: \<open>LIKE\<close> of SQLite ignores the case of ASCII letters.\<close>

definition legacy_snapshot :: "int \<Rightarrow> string \<Rightarrow> bool" where
  "legacy_snapshot rnd snapshot \<longleftrightarrow>
     starts_with (''round-'' @ show_int rnd @ ''-'') (map to_lower snapshot)"

definition index_or_null :: "json \<Rightarrow> string \<Rightarrow> json" where
  "index_or_null v key = (case json_get v key of None \<Rightarrow> JNull | Some x \<Rightarrow> x)"

definition complete_branch_preparation :: "string \<Rightarrow> state_db \<Rightarrow> branch_preparation \<Rightarrow> run_row stored" where
  "complete_branch_preparation now db p =
     (let t = bp_transition p in
      if tn_expected_state t \<noteq> ''branch_prepare'' \<or> tn_after_state t \<noteq> ''branch_run''
        \<or> tn_actor t \<noteq> ''system'' \<or> \<not> tn_increment_epoch t \<or> tn_round_delta t \<noteq> 1
        \<or> bp_branches p = [] \<or> 64 < length (bp_branches p)
        \<or> map_option length (as_array (bp_expected_requests p)) \<noteq> Some (length (bp_branches p))
        \<or> 128 < length (bp_snapshot_id p)
      then Inl mechanical_conflict
      else
      bind_r (ok_or (find_run db (tn_run_id t)) mechanical_conflict) (\<lambda>row.
      if rr_state row \<noteq> ''branch_prepare''
        \<or> index_or_null (rr_metadata row) ''branch_requests'' \<noteq> bp_expected_requests p
      then Inl mechanical_conflict
      else
      bind_r (ok_or (checked_add (rr_round_index row) 1) mechanical_conflict) (\<lambda>rnd.
      if matching (\<lambda>b. br_run_id b = tn_run_id t \<and> legacy_snapshot rnd (br_snapshot_id b)) (db_branches db) \<noteq> 0
      then Inl (with_retryable False (with_category Conflict
             (error_new ''MECHANICAL_LEGACY_PARTIAL_UNKNOWN'' msg_legacy_partial)))
      else
      bind_r (fold_r (insert_prepared now p) (bp_branches p) db) (\<lambda>db.
      bind_r (ok_or (as_object (rr_metadata row)) mechanical_conflict) (\<lambda>m.
      let m = bt_insert ''branch_requests'' (JArray [])
                (bt_insert ''active_snapshot_id'' (JString (bp_snapshot_id p)) m) in
      transition_on now (store_metadata now db (tn_run_id t) ''branch_prepare'' m) t)))))"

end
