(* ===== verification/Store_Protocol.thy ===== *)
theory Store_Protocol
  imports Task_Transitions
begin

text \<open>
  What the state database promises, as a protocol over seven of its tables: \<open>protocol_move\<close> lists
  the changes a transaction is made of, \<open>protocol_inv\<close> what holds between them and
  \<open>protocol_keeps\<close> what no later change takes back. The theory \<open>Store_Steps\<close> shows that every
  operation is a sequence of these moves.

  The locale \<open>monotone_system\<close> states the argument once: an invariant that every move keeps, and a
  transitive relation every move from a good state respects, hold along every run.
\<close>

section \<open>Systems that only move forward\<close>

locale monotone_system =
  fixes move :: "'s \<Rightarrow> 's \<Rightarrow> bool" and good :: "'s \<Rightarrow> bool" and keeps :: "'s \<Rightarrow> 's \<Rightarrow> bool"
  assumes good_move: "good s \<Longrightarrow> move s t \<Longrightarrow> good t"
    and keeps_move: "good s \<Longrightarrow> move s t \<Longrightarrow> keeps s t"
    and keeps_refl: "keeps s s"
    and keeps_trans: "keeps s t \<Longrightarrow> keeps t u \<Longrightarrow> keeps s u"
begin

lemma good_moves: "move\<^sup>*\<^sup>* s t \<Longrightarrow> good s \<Longrightarrow> good t"
  by (induction rule: rtranclp_induct) (auto intro: good_move)

lemma keeps_moves: "move\<^sup>*\<^sup>* s t \<Longrightarrow> good s \<Longrightarrow> keeps s t"
proof (induction rule: rtranclp_induct)
  case base show ?case by (rule keeps_refl)
next
  case (step t u)
  then show ?case using good_moves keeps_move keeps_trans by blast
qed

end

section \<open>The protocol\<close>

record protocol =
  pt_runs :: "run_row list"
  pt_domains :: "domain_row list"
  pt_capabilities :: "capability_row list"
  pt_transitions :: "transition_row list"
  pt_receipts :: "step_receipt_row list"
  pt_checkpoints :: "checkpoint_row list"
  pt_journals :: "journal_row list"

definition protocol_of :: "state_db \<Rightarrow> protocol" where
  "protocol_of db = \<lparr>pt_runs = db_runs db, pt_domains = db_domains db,
     pt_capabilities = db_capabilities db, pt_transitions = db_transitions db,
     pt_receipts = db_receipts db, pt_checkpoints = db_checkpoints db, pt_journals = db_journals db\<rparr>"

definition checkpoint_ok :: "checkpoint_row \<Rightarrow> bool" where
  "checkpoint_ok k \<longleftrightarrow> 0 \<le> ck_accepted_writes k \<and> ck_accepted_writes k \<le> 65536
     \<and> (case ck_expected_writes k of
          None \<Rightarrow> ck_phase k = ''prepared'' \<and> ck_accepted_writes k = 0
        | Some n \<Rightarrow> n \<le> 65536
            \<and> (ck_phase k = ''running'' \<and> ck_accepted_writes k \<le> n
               \<or> ck_phase k = ''commit_ready'' \<and> ck_accepted_writes k = n))"

definition receipt_ok :: "step_receipt_row \<Rightarrow> bool" where
  "receipt_ok r \<longleftrightarrow>
     (sr_status r = ''pending'' \<and> sr_result r = None \<and> sr_completed_at r = None)
     \<or> (sr_status r = ''completed'' \<and> sr_completed_at r \<noteq> None
        \<and> (\<exists>x. sr_result r = Some x \<and> result_validate x = Inr ()))"

text \<open>A live capability belongs to the current epoch of its run and to an open domain of it.\<close>

definition live_in :: "protocol \<Rightarrow> capability_row \<Rightarrow> bool" where
  "live_in p c \<longleftrightarrow>
     (\<exists>r \<in> set (pt_runs p). rr_run_id r = cp_run_id c \<and> rr_epoch r = cp_epoch c)
     \<and> (\<exists>d \<in> set (pt_domains p). dm_domain_id d = cp_domain_id c \<and> dm_status d = ''open''
          \<and> dm_run_id d = cp_run_id c)"

text \<open>The history of a run is a path of states that ends in its state.\<close>

fun follows :: "string \<Rightarrow> transition_row list \<Rightarrow> string \<Rightarrow> bool" where
  "follows s [] s' \<longleftrightarrow> s = s'"
| "follows s (t # ts) s' \<longleftrightarrow> tr_before_state t = s \<and> follows (tr_after_state t) ts s'"

definition run_history :: "transition_row list \<Rightarrow> string \<Rightarrow> transition_row list" where
  "run_history ts run = filter (\<lambda>t. tr_run_id t = run) ts"

definition history_ok :: "transition_row list \<Rightarrow> run_row \<Rightarrow> bool" where
  "history_ok ts r \<longleftrightarrow>
     map tr_sequence (run_history ts (rr_run_id r)) = map (\<lambda>i. int i + 1) [0..<length (run_history ts (rr_run_id r))]
     \<and> rr_transition_seq r = int (length (run_history ts (rr_run_id r)))
     \<and> (\<exists>s. follows s (run_history ts (rr_run_id r)) (rr_state r))"

definition pending_in :: "step_receipt_row list \<Rightarrow> string \<Rightarrow> bool" where
  "pending_in rows fingerprint \<longleftrightarrow>
     (\<exists>r \<in> set rows. sr_capability_sha256 r = fingerprint \<and> receipt_pending r)"

definition moves_of :: "transition_row list \<Rightarrow> string \<Rightarrow> nat" where
  "moves_of ts trace = length (filter (\<lambda>t. tr_trace_id t = trace) ts)"

definition keys_ok :: "protocol \<Rightarrow> bool" where
  "keys_ok p \<longleftrightarrow> distinct (map rr_run_id (pt_runs p)) \<and> distinct (map dm_domain_id (pt_domains p))
     \<and> distinct (map cp_nonce (pt_capabilities p)) \<and> distinct (map sr_capability_sha256 (pt_receipts p))
     \<and> distinct (map ck_capability_sha256 (pt_checkpoints p))
     \<and> distinct (map ck_execution_id (pt_checkpoints p))
     \<and> distinct (map jn_capability_sha256 (pt_journals p))
     \<and> set (map ck_capability_sha256 (pt_checkpoints p)) = set (map sr_capability_sha256 (pt_receipts p))
     \<and> tr_run_id ` set (pt_transitions p) \<subseteq> rr_run_id ` set (pt_runs p)"

definition rows_ok :: "protocol \<Rightarrow> bool" where
  "rows_ok p \<longleftrightarrow> list_all receipt_ok (pt_receipts p) \<and> list_all checkpoint_ok (pt_checkpoints p)
     \<and> list_all (history_ok (pt_transitions p)) (pt_runs p)
     \<and> list_all (\<lambda>c. cp_revoked c \<or> live_in p c) (pt_capabilities p)"

definition once_ok :: "protocol \<Rightarrow> bool" where
  "once_ok p \<longleftrightarrow>
     (\<forall>run. length (filter (\<lambda>r. sr_run_id r = run \<and> receipt_pending r) (pt_receipts p)) \<le> 1)
     \<and> list_all (\<lambda>k. moves_of (pt_transitions p) (ck_execution_id k)
          \<le> (if pending_in (pt_receipts p) (ck_capability_sha256 k) then 0 else 1)) (pt_checkpoints p)"

definition protocol_inv :: "protocol \<Rightarrow> bool" where
  "protocol_inv p \<longleftrightarrow> keys_ok p \<and> rows_ok p \<and> once_ok p"

inductive protocol_move :: "protocol \<Rightarrow> protocol \<Rightarrow> bool" where
  new_run: "rr_run_id row \<notin> rr_run_id ` set (pt_runs p) \<Longrightarrow> rr_transition_seq row = 0 \<Longrightarrow>
     protocol_move p (p\<lparr>pt_runs := pt_runs p @ [row]\<rparr>)"
| touch_runs: "(\<And>r. rr_run_id (f r) = rr_run_id r \<and> rr_epoch (f r) = rr_epoch r
       \<and> rr_transition_seq (f r) = rr_transition_seq r \<and> rr_state (f r) = rr_state r
       \<and> rr_owner_id (f r) = rr_owner_id r) \<Longrightarrow>
     protocol_move p (p\<lparr>pt_runs := update_rows P f (pt_runs p)\<rparr>)"
| new_domain: "dm_domain_id row \<notin> dm_domain_id ` set (pt_domains p) \<Longrightarrow>
     protocol_move p (p\<lparr>pt_domains := pt_domains p @ [row]\<rparr>)"
| seal: "(\<And>d. P d \<Longrightarrow> dm_domain_id d = domain) \<Longrightarrow>
     protocol_move p (p\<lparr>pt_domains := update_rows P (seal_row now) (pt_domains p),
       pt_capabilities := update_rows (\<lambda>c. cp_domain_id c = domain \<and> \<not> cp_revoked c)
         (revoke_row now reason) (pt_capabilities p)\<rparr>)"
| new_capability: "cp_nonce row \<notin> cp_nonce ` set (pt_capabilities p) \<Longrightarrow> live_in p row \<Longrightarrow>
     protocol_move p (p\<lparr>pt_capabilities := pt_capabilities p @ [row]\<rparr>)"
| revoke: "protocol_move p (p\<lparr>pt_capabilities := update_rows (\<lambda>c. P c \<and> \<not> cp_revoked c)
       (revoke_row now reason) (pt_capabilities p)\<rparr>)"
| reserve: "receipt_ok row \<Longrightarrow> receipt_pending row \<Longrightarrow> checkpoint_ok k \<Longrightarrow>
     ck_capability_sha256 k = sr_capability_sha256 row \<Longrightarrow>
     sr_capability_sha256 row \<notin> sr_capability_sha256 ` set (pt_receipts p) \<Longrightarrow>
     ck_execution_id k \<notin> ck_execution_id ` set (pt_checkpoints p) \<Longrightarrow>
     ck_execution_id k \<notin> tr_trace_id ` set (pt_transitions p) \<Longrightarrow>
     filter (\<lambda>r. sr_run_id r = sr_run_id row \<and> receipt_pending r) (pt_receipts p) = [] \<Longrightarrow>
     protocol_move p (p\<lparr>pt_receipts := pt_receipts p @ [row], pt_checkpoints := pt_checkpoints p @ [k]\<rparr>)"
| touch_checkpoint: "(\<And>k. ck_capability_sha256 (f k) = ck_capability_sha256 k
       \<and> ck_execution_id (f k) = ck_execution_id k) \<Longrightarrow>
     (\<And>k. P k \<Longrightarrow> checkpoint_ok k \<Longrightarrow> checkpoint_ok (f k)) \<Longrightarrow>
     protocol_move p (p\<lparr>pt_checkpoints := update_rows P f (pt_checkpoints p)\<rparr>)"
| new_journal: "jn_capability_sha256 row \<notin> jn_capability_sha256 ` set (pt_journals p) \<Longrightarrow>
     protocol_move p (p\<lparr>pt_journals := pt_journals p @ [row]\<rparr>)"
| mark_journal: "protocol_move p (p\<lparr>pt_journals := update_rows P (\<lambda>j. j\<lparr>jn_marker := m\<rparr>) (pt_journals p)\<rparr>)"
| complete: "result_validate x = Inr () \<Longrightarrow>
     protocol_move p (p\<lparr>pt_receipts := update_rows (\<lambda>r. P r \<and> receipt_pending r) (complete_row x now)
       (pt_receipts p)\<rparr>)"
| transition: "row \<in> set (pt_runs p) \<Longrightarrow>
     rr_run_id row = tr_run_id t \<Longrightarrow> rr_state row = tr_before_state t \<Longrightarrow>
     tr_sequence t = rr_transition_seq row + 1 \<Longrightarrow>
     (\<And>r. rr_run_id (f r) = rr_run_id r \<and> rr_owner_id (f r) = rr_owner_id r
        \<and> rr_transition_seq (f r) = tr_sequence t \<and> rr_state (f r) = tr_after_state t
        \<and> rr_epoch (f r) = rr_epoch row + (if increment then 1 else 0)) \<Longrightarrow>
     capabilities = (if increment
        then update_rows (\<lambda>c. cp_run_id c = tr_run_id t \<and> \<not> cp_revoked c) (revoke_row now reason)
               (pt_capabilities p)
        else pt_capabilities p) \<Longrightarrow>
     (\<exists>k \<in> set (pt_checkpoints p). ck_execution_id k = tr_trace_id t
        \<and> pending_in (pt_receipts p) (ck_capability_sha256 k)
        \<and> receipts = update_rows (\<lambda>r. sr_capability_sha256 r = ck_capability_sha256 k \<and> receipt_pending r)
                         (complete_row x now) (pt_receipts p) \<and> result_validate x = Inr ())
     \<or> tr_trace_id t \<notin> ck_execution_id ` set (pt_checkpoints p) \<and> receipts = pt_receipts p \<Longrightarrow>
     protocol_move p (p\<lparr>pt_runs := update_rows (\<lambda>r. rr_run_id r = tr_run_id t) f (pt_runs p),
       pt_transitions := pt_transitions p @ [t], pt_capabilities := capabilities, pt_receipts := receipts\<rparr>)"

section \<open>The invariant\<close>

lemma keys_ok_update:
  assumes "\<And>r. key (f r) = key r"
  shows "map key (update_rows P f rows) = map key rows"
  using assms by (simp add: update_rows_def)

lemma revoke_row_simps [simp]:
  "cp_nonce (revoke_row now why c) = cp_nonce c" "cp_run_id (revoke_row now why c) = cp_run_id c"
  "cp_domain_id (revoke_row now why c) = cp_domain_id c" "cp_epoch (revoke_row now why c) = cp_epoch c"
  "cp_revoked (revoke_row now why c)"
  by (simp_all add: revoke_row_def)

lemma seal_row_simps [simp]:
  "dm_domain_id (seal_row now d) = dm_domain_id d" "dm_run_id (seal_row now d) = dm_run_id d"
  "dm_status (seal_row now d) = ''sealed''"
  by (simp_all add: seal_row_def)

lemma complete_row_simps [simp]:
  "sr_capability_sha256 (complete_row x now r) = sr_capability_sha256 r"
  "sr_run_id (complete_row x now r) = sr_run_id r"
  "\<not> receipt_pending (complete_row x now r)"
  by (simp_all add: complete_row_def receipt_pending_def)

lemma receipt_ok_complete: "result_validate x = Inr () \<Longrightarrow> receipt_ok (complete_row x now r)"
  by (simp add: receipt_ok_def complete_row_def)

lemma list_all_update_rows:
  "list_all Q (update_rows P f rows) \<longleftrightarrow> (\<forall>r \<in> set rows. Q (if P r then f r else r))"
  by (auto simp: list_all_iff set_update_rows)

lemma image_update_rows:
  assumes "\<And>r. key (f r) = key r"
  shows "key ` set (update_rows P f rows) = key ` set rows"
proof -
  have "map key (update_rows P f rows) = map key rows" using assms by (rule keys_ok_update)
  then show ?thesis by (metis list.set_map)
qed

lemmas keys_simps = keys_ok_update image_update_rows

lemma keys_ok_move:
  assumes "protocol_move p p'" "keys_ok p"
  shows "keys_ok p'"
  using assms(1)
proof cases
  case (new_run row) then show ?thesis using assms(2) by (auto simp: keys_ok_def)
next
  case (touch_runs f P) then show ?thesis using assms(2) by (simp add: keys_ok_def keys_simps)
next
  case (new_domain row) then show ?thesis using assms(2) by (auto simp: keys_ok_def)
next
  case (seal P domain now reason)
  then show ?thesis using assms(2) by (simp add: keys_ok_def keys_simps)
next
  case (new_capability row) then show ?thesis using assms(2) by (auto simp: keys_ok_def)
next
  case (revoke P now reason) then show ?thesis using assms(2) by (simp add: keys_ok_def keys_simps)
next
  case (reserve row k)
  then have "sr_capability_sha256 row \<notin> ck_capability_sha256 ` set (pt_checkpoints p)"
    using assms(2) by (simp add: keys_ok_def)
  then show ?thesis using reserve assms(2) by (simp add: keys_ok_def)
next
  case (touch_checkpoint f P) then show ?thesis using assms(2) by (simp add: keys_ok_def keys_simps)
next
  case (new_journal row) then show ?thesis using assms(2) by (auto simp: keys_ok_def)
next
  case (mark_journal P m) then show ?thesis using assms(2) by (simp add: keys_ok_def keys_simps)
next
  case (complete x P now) then show ?thesis using assms(2) by (simp add: keys_ok_def keys_simps)
next
  case (transition row t f increment capabilities now reason receipts x)
  have r: "map sr_capability_sha256 receipts = map sr_capability_sha256 (pt_receipts p)"
    using transition by (auto simp: keys_ok_update)
  then have ri: "sr_capability_sha256 ` set receipts = sr_capability_sha256 ` set (pt_receipts p)"
    by (metis list.set_map)
  have c: "map cp_nonce capabilities = map cp_nonce (pt_capabilities p)"
    using transition by (simp add: keys_ok_update)
  have "map rr_run_id (update_rows (\<lambda>r. rr_run_id r = tr_run_id t) f (pt_runs p)) = map rr_run_id (pt_runs p)"
    "rr_run_id ` set (update_rows (\<lambda>r. rr_run_id r = tr_run_id t) f (pt_runs p)) = rr_run_id ` set (pt_runs p)"
    using transition by (simp_all add: keys_simps)
  moreover have "tr_run_id t \<in> rr_run_id ` set (pt_runs p)" using transition by (metis imageI)
  ultimately show ?thesis using assms(2) transition(1) r ri c by (simp add: keys_ok_def)
qed

lemma live_in_cong:
  assumes "pt_runs p' = pt_runs p" "pt_domains p' = pt_domains p"
  shows "live_in p' c = live_in p c"
  using assms by (simp add: live_in_def)

lemma live_in_update_runs:
  assumes "live_in p c" "\<And>r. rr_run_id (f r) = rr_run_id r \<and> rr_epoch (f r) = rr_epoch r"
  shows "live_in (p\<lparr>pt_runs := update_rows P f (pt_runs p)\<rparr>) c"
proof -
  obtain r where r: "r \<in> set (pt_runs p)" "rr_run_id r = cp_run_id c" "rr_epoch r = cp_epoch c"
    using assms(1) by (auto simp: live_in_def)
  let ?r = "if P r then f r else r"
  have "?r \<in> set (update_rows P f (pt_runs p))" "rr_run_id ?r = cp_run_id c" "rr_epoch ?r = cp_epoch c"
    using r assms(2) by (auto simp: set_update_rows)
  then show ?thesis using assms(1) unfolding live_in_def by auto
qed

lemma history_append: "run_history (ts @ [t]) run = run_history ts run @ (if tr_run_id t = run then [t] else [])"
  by (simp add: run_history_def)

lemma history_Nil: "run \<notin> tr_run_id ` set ts \<Longrightarrow> run_history ts run = []"
  by (auto simp: run_history_def filter_empty_conv)

lemma follows_append: "follows s (ts @ us) s' \<longleftrightarrow> (\<exists>m. follows s ts m \<and> follows m us s')"
  by (induction ts arbitrary: s) auto

lemma history_ok_cong:
  assumes "rr_run_id r' = rr_run_id r" "rr_transition_seq r' = rr_transition_seq r" "rr_state r' = rr_state r"
  shows "history_ok ts r' = history_ok ts r"
  using assms by (simp add: history_ok_def)

lemma history_ok_append:
  assumes "history_ok ts row" "rr_run_id row = tr_run_id t" "rr_state row = tr_before_state t"
    "tr_sequence t = rr_transition_seq row + 1"
    "rr_run_id r = tr_run_id t" "rr_transition_seq r = tr_sequence t" "rr_state r = tr_after_state t"
  shows "history_ok (ts @ [t]) r"
  using assms by (auto simp: history_ok_def history_append follows_append)

definition live_ok :: "protocol \<Rightarrow> bool" where
  "live_ok p \<longleftrightarrow> list_all (\<lambda>c. cp_revoked c \<or> live_in p c) (pt_capabilities p)"

lemma live_okI: "(\<And>c. c \<in> set (pt_capabilities p) \<Longrightarrow> \<not> cp_revoked c \<Longrightarrow> live_in p c) \<Longrightarrow> live_ok p"
  by (auto simp: live_ok_def list_all_iff)

lemma live_okD: "live_ok p \<Longrightarrow> c \<in> set (pt_capabilities p) \<Longrightarrow> \<not> cp_revoked c \<Longrightarrow> live_in p c"
  by (auto simp: live_ok_def list_all_iff)

text \<open>A capability that is still live after an update was live before and did not change.\<close>

lemma unrevoked_update:
  assumes "c \<in> set (update_rows (\<lambda>c. P c \<and> \<not> cp_revoked c) (revoke_row now why) rows)" "\<not> cp_revoked c"
  shows "c \<in> set rows" "\<not> P c"
  using assms by (auto simp: set_update_rows split: if_splits)

lemma live_ok_move:
  assumes "protocol_move p p'" "keys_ok p" "live_ok p"
  shows "live_ok p'"
  using assms(1)
proof cases
  case (new_run row)
  then show ?thesis using assms(3) by (auto simp: live_ok_def list_all_iff live_in_def)
next
  case (touch_runs f P)
  then show ?thesis using assms(3) live_in_update_runs [of p _ f P] by (auto simp: live_ok_def list_all_iff)
next
  case (new_domain row)
  then show ?thesis using assms(3) by (fastforce simp: live_ok_def list_all_iff live_in_def)
next
  case (seal P domain now reason)
  show ?thesis
  proof (rule live_okI)
    fix c assume c: "c \<in> set (pt_capabilities p')" "\<not> cp_revoked c"
    then have old: "c \<in> set (pt_capabilities p)" "cp_domain_id c \<noteq> domain"
      using seal(1) unrevoked_update [of c "\<lambda>c. cp_domain_id c = domain" now reason "pt_capabilities p"] by simp_all
    then have l: "live_in p c" using live_okD [OF assms(3)] c(2) by blast
    then obtain d where d: "d \<in> set (pt_domains p)" "dm_domain_id d = cp_domain_id c" "dm_status d = ''open''"
      "dm_run_id d = cp_run_id c" by (auto simp: live_in_def)
    have "\<not> P d" using seal(2) [of d] d(2) old(2) by auto
    then have "d \<in> set (pt_domains p')" using seal(1) d(1) by (force simp: set_update_rows)
    then show "live_in p' c" using l d seal(1) by (auto simp: live_in_def)
  qed
next
  case (new_capability row)
  then show ?thesis using assms(3) by (auto simp: live_ok_def list_all_iff live_in_def)
next
  case (revoke P now reason)
  show ?thesis
  proof (rule live_okI)
    fix c assume c: "c \<in> set (pt_capabilities p')" "\<not> cp_revoked c"
    then have "c \<in> set (pt_capabilities p)"
      using revoke unrevoked_update(1) [of c P now reason "pt_capabilities p"] by simp
    then show "live_in p' c" using live_okD [OF assms(3)] c(2) revoke by (simp add: live_in_def)
  qed
next
  case (transition row t f increment capabilities now reason receipts x)
  show ?thesis
  proof (rule live_okI)
    fix c assume c: "c \<in> set (pt_capabilities p')" "\<not> cp_revoked c"
    have old: "c \<in> set (pt_capabilities p)" "increment \<Longrightarrow> cp_run_id c \<noteq> tr_run_id t"
      using c transition unrevoked_update [of c "\<lambda>c. cp_run_id c = tr_run_id t" now reason "pt_capabilities p"]
      by (auto split: if_splits)
    then obtain r d where r: "r \<in> set (pt_runs p)" "rr_run_id r = cp_run_id c" "rr_epoch r = cp_epoch c"
      and d: "d \<in> set (pt_domains p)" "dm_domain_id d = cp_domain_id c" "dm_status d = ''open''"
      "dm_run_id d = cp_run_id c" using live_okD [OF assms(3) old(1) c(2)] by (auto simp: live_in_def)
    have dist: "distinct (map rr_run_id (pt_runs p))" using assms(2) by (simp add: keys_ok_def)
    let ?r = "if rr_run_id r = tr_run_id t then f r else r"
    have "?r \<in> set (pt_runs p')" using transition(1) r(1) by (auto simp: set_update_rows)
    moreover have "rr_run_id ?r = cp_run_id c" using transition(6) r(2) by simp
    moreover have "rr_epoch ?r = cp_epoch c"
    proof (cases "rr_run_id r = tr_run_id t")
      case True
      then have "r = row" using distinct_key_eq [OF dist r(1) transition(2)] transition(3) by simp
      moreover have "\<not> increment" using True old(2) r(2) by auto
      ultimately show ?thesis using True r(3) transition(6) by simp
    qed (use r(3) in simp)
    ultimately show "live_in p' c" using d transition(1) by (auto simp: live_in_def)
  qed
qed (use assms(3) in \<open>auto simp: live_ok_def list_all_iff live_in_def\<close>)

lemma receipts_ok_move:
  assumes "protocol_move p p'" "list_all receipt_ok (pt_receipts p)"
  shows "list_all receipt_ok (pt_receipts p')"
  using assms(1)
proof cases
  case (complete x P now)
  then show ?thesis using assms(2) by (auto simp: set_update_rows receipt_ok_complete list_all_iff)
next
  case (transition row t f increment capabilities now reason receipts x)
  then show ?thesis using assms(2) by (auto simp: set_update_rows receipt_ok_complete list_all_iff)
qed (use assms(2) in auto)

lemma checkpoints_ok_move:
  assumes "protocol_move p p'" "list_all checkpoint_ok (pt_checkpoints p)"
  shows "list_all checkpoint_ok (pt_checkpoints p')"
  using assms(1)
proof cases
  case (touch_checkpoint f P)
  then show ?thesis using assms(2) by (auto simp: set_update_rows list_all_iff)
qed (use assms(2) in auto)

lemma history_ok_move:
  assumes "protocol_move p p'" "keys_ok p" "list_all (history_ok (pt_transitions p)) (pt_runs p)"
  shows "list_all (history_ok (pt_transitions p')) (pt_runs p')"
  using assms(1)
proof cases
  case (new_run row)
  then have "rr_run_id row \<notin> tr_run_id ` set (pt_transitions p)" using assms(2) by (auto simp: keys_ok_def)
  then have "history_ok (pt_transitions p) row" using new_run by (simp add: history_ok_def history_Nil)
  then show ?thesis using new_run assms(3) by simp
next
  case (touch_runs f P)
  then have "history_ok (pt_transitions p) (f r) = history_ok (pt_transitions p) r" for r
    using history_ok_cong [of "f r" r] by simp
  then show ?thesis using touch_runs(1) assms(3) by (auto simp: set_update_rows list_all_iff)
next
  case (transition row t f increment capabilities now reason receipts x)
  have dist: "distinct (map rr_run_id (pt_runs p))" using assms(2) by (simp add: keys_ok_def)
  have old: "r \<in> set (pt_runs p) \<Longrightarrow> history_ok (pt_transitions p) r" for r
    using assms(3) by (simp add: list_all_iff)
  have "history_ok (pt_transitions p @ [t]) (if rr_run_id r = tr_run_id t then f r else r)"
    if r: "r \<in> set (pt_runs p)" for r
  proof (cases "rr_run_id r = tr_run_id t")
    case True
    then have "r = row" using distinct_key_eq [OF dist r transition(2)] transition(3) by simp
    then show ?thesis using True old [OF r] transition(3-6) history_ok_append [of "pt_transitions p" row t "f r"]
      by auto
  next
    case False
    then show ?thesis using old [OF r] by (simp add: history_ok_def history_append)
  qed
  then show ?thesis using transition(1) by (simp add: list_all_update_rows)
qed (use assms(3) in auto)

lemma rows_ok_move:
  assumes "protocol_move p p'" "keys_ok p" "rows_ok p"
  shows "rows_ok p'"
  using assms receipts_ok_move checkpoints_ok_move history_ok_move live_ok_move
  by (simp add: rows_ok_def live_ok_def)

section \<open>At most one move for a submission\<close>

lemma moves_of_append: "moves_of (ts @ [t]) e = moves_of ts e + (if tr_trace_id t = e then 1 else 0)"
  by (simp add: moves_of_def)

lemma moves_of_0: "e \<notin> tr_trace_id ` set ts \<Longrightarrow> moves_of ts e = 0"
  by (auto simp: moves_of_def filter_empty_conv)

lemma pending_completed:
  "length (filter (\<lambda>r. sr_run_id r = run \<and> receipt_pending r)
      (update_rows (\<lambda>r. P r \<and> receipt_pending r) (complete_row x now) rows))
   \<le> length (filter (\<lambda>r. sr_run_id r = run \<and> receipt_pending r) rows)"
  by (induction rows) (auto simp: update_rows_def)

lemma pending_in_completed:
  "pending_in (update_rows (\<lambda>r. P r \<and> receipt_pending r) (complete_row x now) rows) f \<Longrightarrow> pending_in rows f"
  by (induction rows) (auto simp: pending_in_def update_rows_def)

lemma pending_in_append:
  "pending_in (rows @ [r]) f \<longleftrightarrow> pending_in rows f \<or> sr_capability_sha256 r = f \<and> receipt_pending r"
  by (auto simp: pending_in_def)

lemma not_pending_in_completed:
  "\<not> pending_in (update_rows (\<lambda>r. sr_capability_sha256 r = f \<and> receipt_pending r) (complete_row x now) rows) f"
proof
  let ?P = "\<lambda>r. sr_capability_sha256 r = f \<and> receipt_pending r"
  assume "pending_in (update_rows ?P (complete_row x now) rows) f"
  then obtain r where r: "r \<in> set rows" "?P (if ?P r then complete_row x now r else r)"
    unfolding pending_in_def set_update_rows by blast
  then show False by (cases "?P r") (simp_all only: if_True if_False complete_row_simps simp_thms)
qed

definition moves_ok :: "protocol \<Rightarrow> bool" where
  "moves_ok p \<longleftrightarrow> list_all (\<lambda>k. moves_of (pt_transitions p) (ck_execution_id k)
     \<le> (if pending_in (pt_receipts p) (ck_capability_sha256 k) then 0 else 1)) (pt_checkpoints p)"

lemma moves_okD:
  "moves_ok p \<Longrightarrow> k \<in> set (pt_checkpoints p) \<Longrightarrow>
   moves_of (pt_transitions p) (ck_execution_id k)
     \<le> (if pending_in (pt_receipts p) (ck_capability_sha256 k) then 0 else 1)"
  by (auto simp: moves_ok_def list_all_iff)

lemma moves_okI:
  "(\<And>k. k \<in> set (pt_checkpoints p) \<Longrightarrow> moves_of (pt_transitions p) (ck_execution_id k)
     \<le> (if pending_in (pt_receipts p) (ck_capability_sha256 k) then 0 else 1)) \<Longrightarrow> moves_ok p"
  by (auto simp: moves_ok_def list_all_iff)

lemma moves_ok_move:
  assumes "protocol_move p p'" "keys_ok p" "moves_ok p"
  shows "moves_ok p'"
  using assms(1)
proof cases
  case (reserve row k)
  have fp: "ck_capability_sha256 k' \<noteq> sr_capability_sha256 row" if "k' \<in> set (pt_checkpoints p)" for k'
  proof
    assume same: "ck_capability_sha256 k' = sr_capability_sha256 row"
    have "ck_capability_sha256 ` set (pt_checkpoints p) = sr_capability_sha256 ` set (pt_receipts p)"
      using assms(2) by (simp add: keys_ok_def)
    then have "sr_capability_sha256 row \<in> sr_capability_sha256 ` set (pt_receipts p)"
      using that same by (metis imageI)
    then show False using reserve(6) by simp
  qed
  show ?thesis
  proof (rule moves_okI)
    fix k' assume "k' \<in> set (pt_checkpoints p')"
    then consider "k' \<in> set (pt_checkpoints p)" | "k' = k" using reserve(1) by auto
    then show "moves_of (pt_transitions p') (ck_execution_id k')
        \<le> (if pending_in (pt_receipts p') (ck_capability_sha256 k') then 0 else 1)"
    proof cases
      case 1
      then show ?thesis using moves_okD [OF assms(3) 1] fp [OF 1] reserve(1) by (auto simp: pending_in_append)
    next
      case 2
      then show ?thesis using reserve(1,8) by (simp add: moves_of_0)
    qed
  qed
next
  case (touch_checkpoint f P)
  then show ?thesis using assms(3) by (auto simp: moves_ok_def list_all_iff set_update_rows)
next
  case (complete x P now)
  show ?thesis
  proof (rule moves_okI)
    fix k assume "k \<in> set (pt_checkpoints p')"
    then have "k \<in> set (pt_checkpoints p)" using complete(1) by simp
    then show "moves_of (pt_transitions p') (ck_execution_id k)
        \<le> (if pending_in (pt_receipts p') (ck_capability_sha256 k) then 0 else 1)"
      using moves_okD [OF assms(3), of k] complete(1)
        pending_in_completed [of P x now "pt_receipts p" "ck_capability_sha256 k"]
      by (auto split: if_splits)
  qed
next
  case (transition row t f increment capabilities now reason receipts x)
  have dist: "distinct (map ck_execution_id (pt_checkpoints p))" using assms(2) by (simp add: keys_ok_def)
  have less: "pending_in receipts g \<Longrightarrow> pending_in (pt_receipts p) g" for g
    using transition(8) pending_in_completed [where P = "\<lambda>r. sr_capability_sha256 r = _"] by blast
  show ?thesis
  proof (rule moves_okI)
    fix k assume "k \<in> set (pt_checkpoints p')"
    then have k: "k \<in> set (pt_checkpoints p)" using transition(1) by simp
    show "moves_of (pt_transitions p') (ck_execution_id k)
        \<le> (if pending_in (pt_receipts p') (ck_capability_sha256 k) then 0 else 1)"
    proof (cases "ck_execution_id k = tr_trace_id t")
      case True
      then have "tr_trace_id t \<in> ck_execution_id ` set (pt_checkpoints p)" using k by (metis imageI)
      then obtain k' where k': "k' \<in> set (pt_checkpoints p)" "ck_execution_id k' = tr_trace_id t"
        "pending_in (pt_receipts p) (ck_capability_sha256 k')"
        "receipts = update_rows (\<lambda>r. sr_capability_sha256 r = ck_capability_sha256 k' \<and> receipt_pending r)
           (complete_row x now) (pt_receipts p)"
        using transition(8) by blast
      have "k = k'" using distinct_key_eq [OF dist k k'(1)] True k'(2) by simp
      then have "\<not> pending_in receipts (ck_capability_sha256 k)"
        using k'(4) not_pending_in_completed by metis
      moreover have "moves_of (pt_transitions p) (ck_execution_id k) = 0"
        using moves_okD [OF assms(3) k] k'(3) \<open>k = k'\<close> by simp
      ultimately show ?thesis using transition(1) True by (simp add: moves_of_append)
    next
      case False
      then show ?thesis using moves_okD [OF assms(3) k] transition(1) less
        by (auto simp: moves_of_append split: if_splits)
    qed
  qed
qed (use assms(3) in \<open>auto simp: moves_ok_def\<close>)

definition single_ok :: "protocol \<Rightarrow> bool" where
  "single_ok p \<longleftrightarrow>
     (\<forall>run. length (filter (\<lambda>r. sr_run_id r = run \<and> receipt_pending r) (pt_receipts p)) \<le> 1)"

lemma single_ok_move:
  assumes "protocol_move p p'" "single_ok p"
  shows "single_ok p'"
  using assms(1)
proof cases
  case (reserve row k)
  have "length (filter (\<lambda>r. sr_run_id r = run \<and> receipt_pending r) (pt_receipts p @ [row])) \<le> 1" for run
    using assms(2) reserve(9) by (cases "sr_run_id row = run") (auto simp: single_ok_def)
  then show ?thesis using reserve(1) by (simp add: single_ok_def)
next
  case (complete x P now)
  then show ?thesis using assms(2) le_trans [OF pending_completed] by (simp add: single_ok_def)
next
  case (transition row t f increment capabilities now reason receipts x)
  have "length (filter (\<lambda>r. sr_run_id r = run \<and> receipt_pending r) receipts) \<le> 1" for run
    using transition(8) assms(2) le_trans [OF pending_completed] by (auto simp: single_ok_def)
  then show ?thesis using transition(1) by (simp add: single_ok_def)
qed (use assms(2) in \<open>auto simp: single_ok_def\<close>)

lemma once_ok_iff: "once_ok p \<longleftrightarrow> single_ok p \<and> moves_ok p"
  by (simp add: once_ok_def single_ok_def moves_ok_def)

lemma protocol_inv_move:
  assumes "protocol_move p p'" "protocol_inv p"
  shows "protocol_inv p'"
  using assms keys_ok_move rows_ok_move moves_ok_move single_ok_move
  by (simp add: protocol_inv_def once_ok_iff)

section \<open>What is never taken back\<close>

definition same_binding :: "step_receipt_row \<Rightarrow> step_receipt_row \<Rightarrow> bool" where
  "same_binding r r' \<longleftrightarrow> r'\<lparr>sr_status := '''', sr_result := None, sr_completed_at := None\<rparr>
     = r\<lparr>sr_status := '''', sr_result := None, sr_completed_at := None\<rparr>"

definition same_grant :: "capability_row \<Rightarrow> capability_row \<Rightarrow> bool" where
  "same_grant c c' \<longleftrightarrow> c'\<lparr>cp_revoked := True, cp_revoked_at := None, cp_revoke_reason := None\<rparr>
     = c\<lparr>cp_revoked := True, cp_revoked_at := None, cp_revoke_reason := None\<rparr>"

definition not_behind :: "run_row \<Rightarrow> run_row \<Rightarrow> bool" where
  "not_behind r r' \<longleftrightarrow> rr_run_id r' = rr_run_id r \<and> rr_owner_id r' = rr_owner_id r
     \<and> rr_epoch r \<le> rr_epoch r' \<and> rr_transition_seq r \<le> rr_transition_seq r'"

definition kept_in :: "('r \<Rightarrow> 'r \<Rightarrow> bool) \<Rightarrow> 'r list \<Rightarrow> 'r list \<Rightarrow> bool" where
  "kept_in R rows rows' \<longleftrightarrow> (\<forall>r \<in> set rows. \<exists>r' \<in> set rows'. R r r')"

definition receipt_kept :: "step_receipt_row \<Rightarrow> step_receipt_row \<Rightarrow> bool" where
  "receipt_kept r r' \<longleftrightarrow> same_binding r r' \<and> (receipt_pending r \<or> r' = r)"

definition grant_kept :: "capability_row \<Rightarrow> capability_row \<Rightarrow> bool" where
  "grant_kept c c' \<longleftrightarrow> same_grant c c' \<and> (cp_revoked c \<longrightarrow> c' = c)"

definition protocol_keeps :: "protocol \<Rightarrow> protocol \<Rightarrow> bool" where
  "protocol_keeps p p' \<longleftrightarrow>
     prefix (pt_transitions p) (pt_transitions p')
     \<and> kept_in receipt_kept (pt_receipts p) (pt_receipts p')
     \<and> kept_in grant_kept (pt_capabilities p) (pt_capabilities p')
     \<and> kept_in not_behind (pt_runs p) (pt_runs p')"

lemma kept_in_refl: "(\<And>r. R r r) \<Longrightarrow> kept_in R rows rows"
  by (auto simp: kept_in_def)

lemma kept_in_append: "(\<And>r. R r r) \<Longrightarrow> kept_in R rows (rows @ rows')"
  by (auto simp: kept_in_def)

lemma kept_in_update: "(\<And>r. R r r) \<Longrightarrow> (\<And>r. r \<in> set rows \<Longrightarrow> P r \<Longrightarrow> R r (f r)) \<Longrightarrow> kept_in R rows (update_rows P f rows)"
proof -
  assume same: "\<And>r. R r r" and upd: "\<And>r. r \<in> set rows \<Longrightarrow> P r \<Longrightarrow> R r (f r)"
  have "\<exists>r' \<in> set (update_rows P f rows). R r r'" if "r \<in> set rows" for r
    unfolding set_update_rows using that same upd by (intro bexI [of _ "if P r then f r else r"]) auto
  then show ?thesis by (simp add: kept_in_def)
qed

lemma kept_in_trans:
  assumes "kept_in R xs ys" "kept_in R ys zs" "\<And>x y z. R x y \<Longrightarrow> R y z \<Longrightarrow> R x z"
  shows "kept_in R xs zs"
  using assms unfolding kept_in_def by meson

lemma receipt_kept_refl [simp]: "receipt_kept r r"
  by (simp add: receipt_kept_def same_binding_def)

lemma grant_kept_refl [simp]: "grant_kept c c"
  by (simp add: grant_kept_def same_grant_def)

lemma not_behind_refl [simp]: "not_behind r r"
  by (simp add: not_behind_def)

lemma receipt_kept_complete: "receipt_pending r \<Longrightarrow> receipt_kept r (complete_row x now r)"
  by (simp add: receipt_kept_def same_binding_def complete_row_def)

lemma grant_kept_revoke: "\<not> cp_revoked c \<Longrightarrow> grant_kept c (revoke_row now why c)"
  by (simp add: grant_kept_def same_grant_def revoke_row_def)

lemma receipt_kept_trans: "receipt_kept r s \<Longrightarrow> receipt_kept s t \<Longrightarrow> receipt_kept r t"
  unfolding receipt_kept_def same_binding_def by auto

lemma grant_kept_trans: "grant_kept r s \<Longrightarrow> grant_kept s t \<Longrightarrow> grant_kept r t"
  unfolding grant_kept_def same_grant_def by auto

lemma not_behind_trans: "not_behind r s \<Longrightarrow> not_behind s t \<Longrightarrow> not_behind r t"
  unfolding not_behind_def by auto

lemma kept_receipts_trans:
  "kept_in receipt_kept xs ys \<Longrightarrow> kept_in receipt_kept ys zs \<Longrightarrow> kept_in receipt_kept xs zs"
  by (erule kept_in_trans) (assumption, erule receipt_kept_trans)

lemma kept_grants_trans:
  "kept_in grant_kept xs ys \<Longrightarrow> kept_in grant_kept ys zs \<Longrightarrow> kept_in grant_kept xs zs"
  by (erule kept_in_trans) (assumption, erule grant_kept_trans)

lemma kept_runs_trans:
  "kept_in not_behind xs ys \<Longrightarrow> kept_in not_behind ys zs \<Longrightarrow> kept_in not_behind xs zs"
  by (erule kept_in_trans) (assumption, erule not_behind_trans)

lemma protocol_keeps_refl: "protocol_keeps p p"
  by (simp add: protocol_keeps_def kept_in_refl)

lemma protocol_keeps_trans: "protocol_keeps p q \<Longrightarrow> protocol_keeps q r \<Longrightarrow> protocol_keeps p r"
  unfolding protocol_keeps_def
  using kept_receipts_trans kept_grants_trans kept_runs_trans prefix_order.trans by blast

lemma kept_receipts: "kept_in receipt_kept rows (update_rows (\<lambda>r. P r \<and> receipt_pending r) (complete_row x now) rows)"
  by (rule kept_in_update) (simp_all add: receipt_kept_complete)

lemma kept_grants: "kept_in grant_kept rows (update_rows (\<lambda>c. P c \<and> \<not> cp_revoked c) (revoke_row now why) rows)"
  by (rule kept_in_update) (simp_all add: grant_kept_revoke)

lemma protocol_keeps_move:
  assumes "protocol_inv p" "protocol_move p p'"
  shows "protocol_keeps p p'"
  using assms(2)
proof cases
  case (touch_runs f P)
  then have "kept_in not_behind (pt_runs p) (pt_runs p')"
    by (auto intro!: kept_in_update simp: not_behind_def)
  then show ?thesis using touch_runs(1) by (simp add: protocol_keeps_def kept_in_refl)
next
  case (transition row t f increment capabilities now reason receipts x)
  have dist: "distinct (map rr_run_id (pt_runs p))" using assms(1) by (simp add: protocol_inv_def keys_ok_def)
  have "kept_in not_behind (pt_runs p) (update_rows (\<lambda>r. rr_run_id r = tr_run_id t) f (pt_runs p))"
  proof (rule kept_in_update)
    fix r assume "r \<in> set (pt_runs p)" "rr_run_id r = tr_run_id t"
    then have "r = row" using distinct_key_eq [OF dist _ transition(2)] transition(3) by simp
    then show "not_behind r (f r)" using transition(5,6) by (auto simp: not_behind_def)
  qed simp
  moreover have "kept_in receipt_kept (pt_receipts p) receipts"
    using transition(8) kept_receipts by (auto simp: kept_in_refl)
  moreover have "kept_in grant_kept (pt_capabilities p) capabilities"
    using transition(7) kept_grants by (auto simp: kept_in_refl)
  ultimately show ?thesis using transition(1) by (simp add: protocol_keeps_def)
qed (auto simp: protocol_keeps_def kept_in_refl kept_in_append kept_receipts kept_grants)

interpretation store: monotone_system protocol_move protocol_inv protocol_keeps
  by unfold_locales (use protocol_inv_move protocol_keeps_move protocol_keeps_refl protocol_keeps_trans in blast)+

end
