(* ===== verification/Store_Steps.thy ===== *)
theory Store_Steps
  imports Store_Protocol
begin

text \<open>
  Every operation of the store is a sequence of moves of the protocol. \<open>evolves\<close> composes, so an
  operation made of several statements is taken apart along its calls.
\<close>

section \<open>Sequences of moves\<close>

definition evolves :: "state_db \<Rightarrow> state_db \<Rightarrow> bool" where
  "evolves db db' \<longleftrightarrow>
     (protocol_inv (protocol_of db) \<longrightarrow> protocol_move\<^sup>*\<^sup>* (protocol_of db) (protocol_of db'))"

named_theorems protocol_simps \<open>what an update of a table does to the protocol\<close>

lemma protocol_of_update [protocol_simps]:
  "protocol_of (db\<lparr>db_runs := a\<rparr>) = (protocol_of db)\<lparr>pt_runs := a\<rparr>"
  "protocol_of (db\<lparr>db_domains := b\<rparr>) = (protocol_of db)\<lparr>pt_domains := b\<rparr>"
  "protocol_of (db\<lparr>db_capabilities := c\<rparr>) = (protocol_of db)\<lparr>pt_capabilities := c\<rparr>"
  "protocol_of (db\<lparr>db_transitions := d\<rparr>) = (protocol_of db)\<lparr>pt_transitions := d\<rparr>"
  "protocol_of (db\<lparr>db_receipts := e\<rparr>) = (protocol_of db)\<lparr>pt_receipts := e\<rparr>"
  "protocol_of (db\<lparr>db_checkpoints := f\<rparr>) = (protocol_of db)\<lparr>pt_checkpoints := f\<rparr>"
  "protocol_of (db\<lparr>db_journals := g\<rparr>) = (protocol_of db)\<lparr>pt_journals := g\<rparr>"
  by (simp_all add: protocol_of_def)

lemma protocol_of_other [protocol_simps]:
  "protocol_of (db\<lparr>db_branches := a\<rparr>) = protocol_of db"
  "protocol_of (db\<lparr>db_steering := b\<rparr>) = protocol_of db"
  "protocol_of (db\<lparr>db_manifests := c\<rparr>) = protocol_of db"
  "protocol_of (db\<lparr>db_audits := d\<rparr>) = protocol_of db"
  "protocol_of (db\<lparr>db_creations := e\<rparr>) = protocol_of db"
  "protocol_of (db\<lparr>db_initializations := f\<rparr>) = protocol_of db"
  "protocol_of (db\<lparr>db_project_runs := g\<rparr>) = protocol_of db"
  by (simp_all add: protocol_of_def)

lemma protocol_of_simps [protocol_simps]:
  "pt_runs (protocol_of db) = db_runs db" "pt_domains (protocol_of db) = db_domains db"
  "pt_capabilities (protocol_of db) = db_capabilities db"
  "pt_transitions (protocol_of db) = db_transitions db" "pt_receipts (protocol_of db) = db_receipts db"
  "pt_checkpoints (protocol_of db) = db_checkpoints db" "pt_journals (protocol_of db) = db_journals db"
  by (simp_all add: protocol_of_def)

lemma evolves_refl [simp, intro]: "evolves db db"
  by (simp add: evolves_def)

lemma evolves_same: "protocol_of db' = protocol_of db \<Longrightarrow> evolves db db'"
  by (simp add: evolves_def)

lemma evolves_move: "protocol_move (protocol_of db) (protocol_of db') \<Longrightarrow> evolves db db'"
  by (simp add: evolves_def r_into_rtranclp)

lemma evolves_trans: "evolves db db' \<Longrightarrow> evolves db' db'' \<Longrightarrow> evolves db db''"
  unfolding evolves_def using store.good_moves by (meson rtranclp_trans)

lemma evolves_good: "evolves db db' \<Longrightarrow> protocol_inv (protocol_of db) \<Longrightarrow> protocol_inv (protocol_of db')"
  unfolding evolves_def using store.good_moves by blast

text \<open>A bind whose parts evolve.\<close>

lemma evolves_bindE:
  assumes "bind_r m f = Inr y"
    and "\<And>x. m = Inr x \<Longrightarrow> f x = Inr y \<Longrightarrow> P"
  shows P
  using assms by (auto simp: bind_r_eq_Inr)

section \<open>Runs, domains and capabilities\<close>

lemma find_Some_set: "find P xs = Some x \<Longrightarrow> x \<in> set xs" "find P xs = Some x \<Longrightarrow> P x"
  by (auto simp: find_Some_iff)

lemma find_key_None: "find (\<lambda>r. key r = k) rows = None \<longleftrightarrow> k \<notin> key ` set rows"
  by (auto simp: find_None_iff)

lemma create_run_evolves:
  assumes "create_run now db run problem owner st metadata = Inr (r, db')"
  shows "evolves db db'"
proof -
  have n: "find_run db run = None"
    and db': "db' = db\<lparr>db_runs := db_runs db @ [new_run run problem owner st metadata now]\<rparr>"
    using assms
    by (auto simp: create_run_def insert_into_def Let_def bind_r_eq_Inr split: if_splits sum.splits)
  have "run \<notin> rr_run_id ` set (db_runs db)" using n by (auto simp: find_run_def find_key_None)
  then show ?thesis
    unfolding db'
    using protocol_move.new_run [of "new_run run problem owner st metadata now" "protocol_of db"]
    by (intro evolves_move) (simp add: protocol_simps new_run_def)
qed

lemma set_run_metadata_evolves:
  "evolves db (db\<lparr>db_runs := update_rows P (set_run_metadata now m) (db_runs db)\<rparr>)"
  using protocol_move.touch_runs [of "set_run_metadata now m" "protocol_of db" P]
  by (intro evolves_move) (simp add: protocol_simps set_run_metadata_def)

lemma update_run_metadata_evolves:
  assumes "update_run_metadata now db run updates = Inr (r, db')"
  shows "evolves db db'"
  using assms set_run_metadata_evolves unfolding update_run_metadata_def Let_def
  by (auto simp: bind_r_eq_Inr)

lemma insert_domain_evolves:
  assumes "insert_domain now db domain run role snapshot order_index metadata = Inr db'"
  shows "evolves db db'"
proof -
  from assms have n: "domain \<notin> dm_domain_id ` set (db_domains db)"
    by (auto simp: insert_domain_def find_domain_def find_key_None)
  show ?thesis
    using assms n protocol_move.new_domain [where p = "protocol_of db"]
    by (auto simp: insert_domain_def protocol_simps intro!: evolves_move)
qed

lemma create_domain_evolves:
  assumes "create_domain now db domain run role snapshot order_index metadata = Inr (d, db')"
  shows "evolves db db'"
  using assms insert_domain_evolves unfolding create_domain_def by (auto simp: bind_r_eq_Inr)

lemma revoke_where_evolves: "evolves db (revoke_where now why P db)"
  using protocol_move.revoke [of "protocol_of db" P now why]
  by (intro evolves_move) (simp add: revoke_where_def protocol_simps)

lemma seal_evolves:
  assumes "\<And>d. P d \<Longrightarrow> dm_domain_id d = domain"
  shows "evolves db (revoke_where now why (\<lambda>c. cp_domain_id c = domain)
     (db\<lparr>db_domains := update_rows P (seal_row now) (db_domains db)\<rparr>))"
  using protocol_move.seal [of P domain "protocol_of db" now why] assms
  by (intro evolves_move) (simp add: revoke_where_def protocol_simps)

lemma seal_domain_evolves:
  assumes "seal_domain now db domain = Inr (d, db')"
  shows "evolves db db'"
  using assms seal_evolves [of "\<lambda>d. dm_domain_id d = domain" domain db now "''domain_sealed''"]
  unfolding seal_domain_def Let_def by (auto simp: bind_r_eq_Inr split: if_splits)

lemma revoke_capability_evolves:
  "revoke_capability now db nonce why = Inr (u, db') \<Longrightarrow> evolves db db'"
  using revoke_where_evolves by (auto simp: revoke_capability_def)

lemma revoke_evolves:
  assumes "revoke k secret now db token why trace = Inr (e, db')"
  shows "evolves db db'"
  using assms revoke_capability_evolves unfolding revoke_def by (auto simp: bind_r_eq_Inr)

lemma issue_evolves:
  assumes "issue k secret default_ttl now nonce db run domain role permissions trace ttl = Inr (r, db')"
  shows "evolves db db'"
  using assms unfolding issue_def Let_def
  apply (elim take_apart)
  subgoal premises p for row d st u db1
  proof -
    have row: "row \<in> set (db_runs db)" "rr_run_id row = run"
      using p(1) by (auto simp: get_run_def find_run_def dest: find_Some_set)
    have d: "d \<in> set (db_domains db)" "dm_domain_id d = domain" "dm_run_id d = run" "dm_status d = ''open''"
      using p(2-4) by (auto simp: get_domain_def find_domain_def dest: find_Some_set)
    let ?c = "issue_claims now nonce (issue_ttl ttl default_ttl) row run domain role st permissions"
    let ?row = "\<lparr>cp_nonce = ca_nonce ?c, cp_run_id = ca_run_id ?c, cp_domain_id = ca_domain_id ?c,
      cp_role = role_as_str (ca_role ?c), cp_epoch = ca_epoch ?c,
      cp_issued_state = state_as_str (ca_issued_state ?c), cp_permissions = ca_permissions ?c,
      cp_issued_at = ca_issued_at ?c, cp_expires_at = ca_expires_at ?c, cp_revoked = False,
      cp_revoked_at = None, cp_revoke_reason = None\<rparr>"
    have n: "ca_nonce ?c \<notin> cp_nonce ` set (db_capabilities db)"
      and db': "db' = db\<lparr>db_capabilities := db_capabilities db @ [?row]\<rparr>"
      using p by (auto simp: insert_capability_def find_capability_def find_key_None)
    have "live_in (protocol_of db) ?row"
      using row d by (auto simp: live_in_def protocol_simps issue_claims_def)
    then show ?thesis
      unfolding db' using protocol_move.new_capability [of ?row "protocol_of db"] n
      by (intro evolves_move) (simp add: protocol_simps)
  qed
  done

section \<open>Branches, steering and creations\<close>

lemma insert_branch_evolves:
  "insert_branch now db branch run plan domain snapshot order_index metadata = Inr db' \<Longrightarrow> evolves db db'"
  by (auto simp: insert_branch_def protocol_simps intro!: evolves_same)

lemma create_branch_evolves:
  assumes "create_branch now db branch run plan domain snapshot order_index metadata = Inr (b, db')"
  shows "evolves db db'"
  using assms insert_branch_evolves unfolding create_branch_def by (auto simp: bind_r_eq_Inr)

lemma update_branch_status_evolves:
  assumes "update_branch_status now db branch status path = Inr (b, db')"
  shows "evolves db db'"
  using assms unfolding update_branch_status_def Let_def
  by (auto simp: bind_r_eq_Inr protocol_simps intro!: evolves_same split: if_splits)

lemma add_steering_evolves: "add_steering now db run owner msg = Inr (i, db') \<Longrightarrow> evolves db db'"
  by (auto simp: add_steering_def Let_def protocol_simps intro!: evolves_same)

lemma consume_steering_evolves: "consume_steering now db run limit = Inr (ms, db') \<Longrightarrow> evolves db db'"
  by (auto simp: consume_steering_def Let_def protocol_simps intro!: evolves_same)

lemma insert_creation_evolves: "insert_creation db r = Inr db' \<Longrightarrow> protocol_of db' = protocol_of db"
  by (auto simp: insert_creation_def protocol_simps split: if_splits)

lemma insert_initialization_evolves: "insert_initialization db run = Inr db' \<Longrightarrow> protocol_of db' = protocol_of db"
  by (auto simp: insert_initialization_def protocol_simps)

lemma reserve_creation_evolves:
  assumes "reserve_creation now execution db owner identity proposed = Inr (slot, db')"
  shows "evolves db db'"
  using assms unfolding reserve_creation_def
  by (auto simp: bind_r_eq_Inr split: if_splits option.splits
      dest!: insert_creation_evolves insert_initialization_evolves intro!: evolves_same)

lemma record_initialization_same:
  "record_initialization now db t before = Inr db' \<Longrightarrow> protocol_of db' = protocol_of db"
  by (auto simp: record_initialization_def Let_def bind_r_eq_Inr protocol_simps split: if_splits option.splits)
section \<open>Submissions\<close>

lemma decode_receipt_same:
  assumes "decode_receipt row = Inr r"
  shows "re_capability_sha256 r = sr_capability_sha256 row" "re_owner_id r = sr_owner_id row"
    "re_run_id r = sr_run_id row" "re_status r = sr_status row" "re_epoch r = sr_epoch row"
    "re_domain_id r = sr_domain_id row" "role_as_str (re_role r) = sr_role row"
    "state_as_str (re_issued_state r) = sr_issued_state row" "re_result r = sr_result row"
    "re_result r = None \<longleftrightarrow> receipt_pending row"
    "re_workspace_sha256 r = sr_workspace_sha256 row" "re_request_sha256 r = sr_request_sha256 row"
proof -
  obtain role st x where p: "role_from_wire (sr_role row) = Some role"
    "state_from_wire (sr_issued_state row) = Some st" "decode_result row = Inr x"
    and r: "r = \<lparr>re_capability_sha256 = sr_capability_sha256 row, re_owner_id = sr_owner_id row,
                re_workspace_sha256 = sr_workspace_sha256 row,
                re_request_sha256 = sr_request_sha256 row, re_run_id = sr_run_id row,
                re_domain_id = sr_domain_id row, re_role = role, re_epoch = sr_epoch row,
                re_issued_state = st, re_status = sr_status row, re_result = x,
                re_created_at = sr_created_at row, re_completed_at = sr_completed_at row\<rparr>"
    using assms unfolding decode_receipt_def by (elim take_apart) auto
  have x: "x = sr_result row \<and> (x = None \<longleftrightarrow> receipt_pending row)"
    using p(3) by (cases "sr_result row"; cases "sr_completed_at row")
      (auto simp: decode_result_def receipt_pending_def bind_r_eq_Inr dest!: sym [where s = "Some a" for a] split: if_splits)
  show "re_capability_sha256 r = sr_capability_sha256 row" "re_owner_id r = sr_owner_id row"
    "re_run_id r = sr_run_id row" "re_status r = sr_status row" "re_epoch r = sr_epoch row"
    "re_domain_id r = sr_domain_id row" "role_as_str (re_role r) = sr_role row"
    "state_as_str (re_issued_state r) = sr_issued_state row" "re_result r = sr_result row"
    "re_result r = None \<longleftrightarrow> receipt_pending row"
    "re_workspace_sha256 r = sr_workspace_sha256 row" "re_request_sha256 r = sr_request_sha256 row"
    using p(1,2) x by (auto simp: r role.parse_iff state.parse_iff)
qed

lemma require_receipt_row:
  assumes "require_receipt db f owner run = Inr r"
  obtains row where "row \<in> set (db_receipts db)" "decode_receipt row = Inr r"
    "sr_capability_sha256 row = f" "sr_owner_id row = owner" "sr_run_id row = run"
  using assms that
  by (auto simp: require_receipt_def read_receipt_def bind_r_eq_Inr split: option.splits dest!: find_SomeD)

lemma complete_where_evolves:
  assumes "complete_where P r now db = Inr db'" "result_validate r = Inr ()"
  shows "evolves db db'"
  using assms protocol_move.complete [of r "protocol_of db" P now]
  by (auto simp: complete_where_def protocol_simps intro!: evolves_move split: if_splits)

lemma finish_on_evolves:
  assumes "finish_on db receipt r now = Inr (x, db')"
  shows "evolves db db'"
  using assms complete_where_evolves unfolding finish_on_def by (auto simp: bind_r_eq_Inr)

lemma record_submission_outcome_evolves:
  assumes "record_submission_outcome now db reservation r = Inr (x, db')"
  shows "evolves db db'"
  using assms unfolding record_submission_outcome_def Let_def
  apply (elim take_apart)
  subgoal premises p for u existing v
  proof (cases "re_result existing")
    case None
    have v: "result_validate r = Inr ()" using p(1) by simp
    show ?thesis using p(5) complete_where_evolves [OF _ v] unfolding None option.case by (auto simp: bind_r_eq_Inr)
  next
    case (Some recorded)
    then show ?thesis using p(5) by (auto split: if_splits)
  qed
  done

lemma reserve_submission_evolves:
  assumes "reserve_submission created_at now execution db auth workspace request = Inr (slot, db')"
    and fresh: "execution \<notin> tr_trace_id ` set (db_transitions db)"
  shows "evolves db db'"
proof (cases "read_receipt db (as_fingerprint auth) (ca_owner_id (as_claims auth)) (ca_run_id (as_claims auth)) = Inr None")
  case False
  then show ?thesis
    using assms(1) unfolding reserve_submission_def Let_def
    by (auto simp: bind_r_eq_Inr split: if_splits option.splits)
next
  case True
  let ?c = "as_claims auth" and ?f = "as_fingerprint auth"
  from assms(1) True obtain db1 receipt where
      none: "matching (\<lambda>r. sr_run_id r = ca_run_id ?c \<and> receipt_pending r) (db_receipts db) = 0"
    and ins: "insert_receipt created_at db auth workspace request = Inr db1"
    and ck: "insert_checkpoint db1 ?f execution = Inr db'"
    unfolding reserve_submission_def Let_def by (auto simp: bind_r_eq_Inr split: if_splits)
  let ?row = "\<lparr>sr_capability_sha256 = ?f, sr_owner_id = ca_owner_id ?c,
            sr_workspace_sha256 = workspace, sr_request_sha256 = request,
            sr_run_id = ca_run_id ?c, sr_domain_id = ca_domain_id ?c,
            sr_role = role_as_str (ca_role ?c), sr_epoch = ca_epoch ?c,
            sr_issued_state = state_as_str (ca_issued_state ?c), sr_status = ''pending'',
            sr_result = None, sr_created_at = created_at, sr_completed_at = None\<rparr>"
  let ?k = "\<lparr>ck_capability_sha256 = ?f, ck_execution_id = execution, ck_phase = ''prepared'',
            ck_expected_writes = None, ck_accepted_writes = 0, ck_atomic_action = None\<rparr>"
  have db1: "db1 = db\<lparr>db_receipts := db_receipts db @ [?row]\<rparr>"
    and fp: "?f \<notin> sr_capability_sha256 ` set (db_receipts db)"
    using ins by (auto simp: insert_receipt_def Let_def list_ex_iff split: if_splits)
  have db': "db' = db1\<lparr>db_checkpoints := db_checkpoints db1 @ [?k]\<rparr>"
    and ex: "execution \<notin> ck_execution_id ` set (db_checkpoints db)"
    using ck db1 by (auto simp: insert_checkpoint_def list_ex_iff split: if_splits)
  show ?thesis
    using protocol_move.reserve [of ?row ?k "protocol_of db"] fp ex fresh none
    unfolding db' db1
    by (intro evolves_move)
      (auto simp: protocol_simps receipt_ok_def receipt_pending_def checkpoint_ok_def matching_def)
qed

lemma update_checkpoint_evolves:
  assumes "update_checkpoint P f e db = Inr db'"
    and "\<And>k. ck_capability_sha256 (f k) = ck_capability_sha256 k \<and> ck_execution_id (f k) = ck_execution_id k"
    and "\<And>k. P k \<Longrightarrow> checkpoint_ok k \<Longrightarrow> checkpoint_ok (f k)"
  shows "evolves db db'"
  using assms protocol_move.touch_checkpoint [of f P "protocol_of db"]
  by (auto simp: update_checkpoint_def protocol_simps intro!: evolves_move split: if_splits)

lemma enroll_evolves:
  assumes "enroll db f = Inr db'"
  shows "evolves db db'"
  using assms protocol_move.new_journal [of "\<lparr>jn_capability_sha256 = f, jn_marker = Between\<rparr>" "protocol_of db"]
  by (auto simp: enroll_def find_journal_def find_key_None protocol_simps intro!: evolves_move)

lemma mark_evolves: "evolves db (db\<lparr>db_journals := update_rows P (\<lambda>j. j\<lparr>jn_marker := m\<rparr>) (db_journals db)\<rparr>)"
  using protocol_move.mark_journal [of "protocol_of db" P m]
  by (intro evolves_move) (simp add: protocol_simps)

lemma set_marker_evolves: "set_marker P m db = Inr db' \<Longrightarrow> evolves db db'"
  using mark_evolves by (auto simp: set_marker_def split: if_splits)

lemma accept_evolves: "accept db f = Inr db' \<Longrightarrow> evolves db db'"
  using mark_evolves by (auto simp: accept_def Let_def bind_r_eq_Inr split: if_splits)

lemma activate_submission_evolves:
  assumes "activate_submission now db reservation auth writes = Inr (ex, db')"
  shows "evolves db db'"
  using assms unfolding activate_submission_def Let_def
  apply (elim take_apart)
  subgoal premises p for receipt u ck db1 db2
  proof -
    have "writes \<le> 65536" using p(1) by simp
    then have "evolves db db1"
      by (intro update_checkpoint_evolves [OF p(6)]) (auto simp: checkpoint_ok_def split: option.splits)
    then show ?thesis using enroll_evolves [OF p(7)] p(8) evolves_trans by auto
  qed
  done

lemma checkpoint_submission_write_evolves:
  assumes "checkpoint_submission_write db ex accepted = Inr (u, db')"
  shows "evolves db db'"
  using assms unfolding checkpoint_submission_write_def
  apply (elim take_apart)
  subgoal premises p for db1 db2
  proof -
    have "evolves db db1"
      using p(1)
      by (intro update_checkpoint_evolves [OF p(2)]) (auto simp: checkpoint_ok_def takes_write_def split: option.splits)
    then show ?thesis using accept_evolves [OF p(3)] p(4) evolves_trans by auto
  qed
  done

lemma arm_submission_commit_evolves:
  assumes "arm_submission_commit db ex = Inr (u, db')"
  shows "evolves db db'"
  using assms unfolding arm_submission_commit_def
  apply (elim take_apart)
  subgoal premises p for v db1
  proof -
    have "evolves db db1"
      by (intro update_checkpoint_evolves [OF p(2)]) (auto simp: checkpoint_ok_def)
    then show ?thesis using p(3) by simp
  qed
  done

lemma reconcile_unstarted_evolves:
  assumes "reconcile_unstarted_submission now db receipt = Inr (x, db')"
  shows "evolves db db'"
  using assms finish_on_evolves unfolding reconcile_unstarted_submission_def
  by (auto simp: bind_r_eq_Inr split: if_splits)

lemma begin_submission_write_evolves:
  assumes "begin_submission_write now db ex index evidence = Inr (u, db')"
  shows "evolves db db'"
  using assms unfolding begin_submission_write_def
  by (elim take_apart) (auto dest: set_marker_evolves)

lemma consume_restartable_task_evolves:
  assumes "consume_restartable_task db c trace action = Inr db'"
  shows "evolves db db'"
  using assms set_marker_evolves unfolding consume_restartable_task_def clear_restartable_action_def
  by (auto simp: bind_r_eq_Inr split: option.splits)

lemma enroll_atomic_action_evolves:
  assumes "enroll_atomic_action now db c trace kind = Inr (u, db')"
  shows "evolves db db'"
  using assms unfolding enroll_atomic_action_def
  apply (elim take_apart)
  subgoal premises p for v found
  proof (cases found)
    case None
    then show ?thesis using p(4) by simp
  next
    case (Some receipt)
    have ok: "checkpoint_ok (k\<lparr>ck_atomic_action := a\<rparr>) = checkpoint_ok k" for k a
      by (cases "ck_expected_writes k") (simp_all add: checkpoint_ok_def)
    show ?thesis using p(4) unfolding Some option.case
      by (elim take_apart) (auto intro: update_checkpoint_evolves simp: ok)
  qed
  done

lemma enroll_restartable_action_evolves:
  assumes "enroll_restartable_action now db c trace action = Inr (u, db')"
  shows "evolves db db'"
  using assms set_marker_evolves unfolding enroll_restartable_action_def
  by (auto simp: bind_r_eq_Inr split: if_splits option.splits)

lemma reconcile_caller_writes_evolves:
  assumes "reconcile_caller_writes now db recovery observed = Inr (x, db')"
  shows "evolves db db'"
  using assms finish_on_evolves unfolding reconcile_caller_writes_def Let_def
  by (auto simp: bind_r_eq_Inr split: if_splits)

section \<open>Writes to the database\<close>

lemma manifest_on_same: "manifest_on now db run manifest digest = Inr db' \<Longrightarrow> protocol_of db' = protocol_of db"
  by (auto simp: manifest_on_def protocol_simps split: if_splits)

lemma audit_on_same: "audit_on now db run a = Inr (r, db') \<Longrightarrow> protocol_of db' = protocol_of db"
  by (auto simp: audit_on_def Let_def bind_r_eq_Inr protocol_simps split: if_splits)

lemma database_submission_evolves:
  assumes "database_submission now db ex index resource mutation = Inr (r, db')"
    and same: "\<And>db r db'. mutation db = Inr (r, db') \<Longrightarrow> protocol_of db' = protocol_of db"
  shows "evolves db db'"
  using assms(1) unfolding database_submission_def Let_def
  apply (elim take_apart)
  subgoal premises p for u d v w y q r1 db1 db2 z z'
  proof -
    have "evolves db db1" using p(8,9) same by (intro evolves_same) simp
    moreover have "evolves db1 db2"
      using p(1) by (intro update_checkpoint_evolves [OF p(10)]) (auto simp: checkpoint_ok_def takes_write_def split: option.splits)
    ultimately show ?thesis using p(13) evolves_trans by auto
  qed
  done

section \<open>Transitions\<close>

lemma update_rows_cong: "(\<And>r. r \<in> set rows \<Longrightarrow> P r = Q r) \<Longrightarrow> update_rows P f rows = update_rows Q f rows"
  by (auto simp: update_rows_def)

lemma execution_row_Some:
  assumes "execution_row db trace = Some row"
  obtains k where "k \<in> set (db_checkpoints db)" "ck_execution_id k = trace"
    "ck_capability_sha256 k = sr_capability_sha256 row" "row \<in> set (db_receipts db)"
  using assms that by (auto simp: execution_row_def list_ex_iff dest!: find_SomeD)

lemma execution_row_None:
  assumes "execution_row db trace = None" "keys_ok (protocol_of db)"
  shows "trace \<notin> ck_execution_id ` set (db_checkpoints db)"
proof
  assume "trace \<in> ck_execution_id ` set (db_checkpoints db)"
  then obtain k where k: "k \<in> set (db_checkpoints db)" "ck_execution_id k = trace" by blast
  have "ck_capability_sha256 ` set (db_checkpoints db) = sr_capability_sha256 ` set (db_receipts db)"
    using assms(2) by (simp add: keys_ok_def protocol_simps)
  then have "ck_capability_sha256 k \<in> sr_capability_sha256 ` set (db_receipts db)" using k(1) by blast
  then obtain r where "r \<in> set (db_receipts db)" "sr_capability_sha256 r = ck_capability_sha256 k" by force
  moreover have "\<not> list_ex (\<lambda>k. ck_execution_id k = trace \<and> ck_capability_sha256 k = sr_capability_sha256 r) (db_checkpoints db)"
    using assms(1) calculation(1) unfolding execution_row_def by (rule find_NoneD)
  ultimately show False using k by (auto simp: list_ex_iff)
qed

text \<open>What a transition does to the receipts, as the protocol has it.\<close>

lemma record_transition_effect:
  assumes "record_transition now db t before = Inr db'" "keys_ok (protocol_of db)"
  obtains receipts x where "db' = db\<lparr>db_receipts := receipts\<rparr>"
    "(\<exists>k \<in> set (db_checkpoints db). ck_execution_id k = tn_trace_id t
        \<and> pending_in (db_receipts db) (ck_capability_sha256 k)
        \<and> receipts = update_rows (\<lambda>r. sr_capability_sha256 r = ck_capability_sha256 k \<and> receipt_pending r)
                         (complete_row x now) (db_receipts db) \<and> result_validate x = Inr ())
     \<or> tn_trace_id t \<notin> ck_execution_id ` set (db_checkpoints db) \<and> receipts = db_receipts db"
proof (cases "execution_row db (tn_trace_id t)")
  case None
  have "db' = db\<lparr>db_receipts := db_receipts db\<rparr>" using assms(1) None by (simp add: record_transition_def)
  then show ?thesis using that execution_row_None [OF None assms(2)] by blast
next
  case (Some row)
  obtain k where k: "k \<in> set (db_checkpoints db)" "ck_execution_id k = tn_trace_id t"
    "ck_capability_sha256 k = sr_capability_sha256 row" "row \<in> set (db_receipts db)"
    using execution_row_Some [OF Some] .
  have dist: "distinct (map sr_capability_sha256 (db_receipts db))"
    using assms(2) by (simp add: keys_ok_def protocol_simps)
  from assms(1) obtain receipt k' after writes r where
      d: "decode_receipt row = Inr receipt" and none: "re_result receipt = None"
    and fin: "finish_on db receipt \<lparr>sub_disposition = Applied, sub_state = after,
                    sub_writes_applied = writes, sub_complete = True, sub_error_code = None\<rparr> now = Inr (r, db')"
    unfolding record_transition_def Some option.case by (elim take_apart) auto
  note same = decode_receipt_same [OF d]
  let ?x = "\<lparr>sub_disposition = Applied, sub_state = after, sub_writes_applied = writes,
    sub_complete = True, sub_error_code = None\<rparr>"
  let ?P = "\<lambda>row'. sr_capability_sha256 row' = re_capability_sha256 receipt
    \<and> sr_owner_id row' = re_owner_id receipt \<and> sr_run_id row' = re_run_id receipt"
  have v: "result_validate ?x = Inr ()" and
    db': "db' = db\<lparr>db_receipts := update_rows (\<lambda>row'. ?P row' \<and> receipt_pending row') (complete_row ?x now) (db_receipts db)\<rparr>"
    using fin by (auto simp: finish_on_def complete_where_def bind_r_eq_Inr split: if_splits)
  have "?P r \<longleftrightarrow> sr_capability_sha256 r = ck_capability_sha256 k" if "r \<in> set (db_receipts db)" for r
    using distinct_key_eq [OF dist that k(4)] same(1-3) k(3) by auto
  then have "update_rows (\<lambda>row'. ?P row' \<and> receipt_pending row') (complete_row ?x now) (db_receipts db)
    = update_rows (\<lambda>r. sr_capability_sha256 r = ck_capability_sha256 k \<and> receipt_pending r) (complete_row ?x now) (db_receipts db)"
    by (intro update_rows_cong) simp
  moreover have "pending_in (db_receipts db) (ck_capability_sha256 k)"
    using k(3,4) same(10) none by (auto simp: pending_in_def)
  ultimately show ?thesis using that [OF db', of ?x] k(1,2) v by auto
qed

lemma insert_transition_effect:
  assumes "insert_transition now db t seq = Inr db'"
  obtains x where "db' = db\<lparr>db_transitions := db_transitions db @ [x]\<rparr>" "tr_run_id x = tn_run_id t"
    "tr_sequence x = seq" "tr_trace_id x = tn_trace_id t" "tr_before_state x = tn_expected_state t"
    "tr_after_state x = tn_after_state t"
  using assms that by (auto simp: insert_transition_def)

lemma keys_ok_unchanged:
  assumes "keys_ok p" "map rr_run_id runs = map rr_run_id (pt_runs p)" "tr_run_id t \<in> rr_run_id ` set (pt_runs p)"
    "map cp_nonce caps = map cp_nonce (pt_capabilities p)"
  shows "keys_ok (p\<lparr>pt_runs := runs, pt_transitions := pt_transitions p @ [t], pt_capabilities := caps\<rparr>)"
proof -
  have "rr_run_id ` set runs = rr_run_id ` set (pt_runs p)" using assms(2) by (metis list.set_map)
  then show ?thesis using assms by (simp add: keys_ok_def)
qed

lemma transition_on_evolves:
  assumes "transition_on now db t = Inr (r, db')"
  shows "evolves db db'"
  unfolding evolves_def
proof
  assume inv: "protocol_inv (protocol_of db)"
  from assms obtain row epoch seq rnd db2 db4 db5 where
      row: "run_on db (tn_run_id t) = Inr row" "rr_state row = tn_expected_state t"
    and seq: "seq = rr_transition_seq row + 1"
    and epoch: "epoch = rr_epoch row + (if tn_increment_epoch t then 1 else 0)"
    and ins: "insert_transition now (db\<lparr>db_runs := update_rows (\<lambda>r. rr_run_id r = tn_run_id t)
        (move_row now t epoch seq rnd row) (db_runs db)\<rparr>) t seq = Inr db2"
    and init: "record_initialization now (if tn_increment_epoch t
               then revoke_where now ''run_epoch_advanced'' (\<lambda>c. cp_run_id c = tn_run_id t) db2 else db2) t row = Inr db4"
    and rec: "record_transition now db4 t row = Inr db5" and db': "db' = db5"
    unfolding transition_on_def Let_def by (elim take_apart) auto
  have r: "row \<in> set (db_runs db)" "rr_run_id row = tn_run_id t"
    using row(1) by (auto simp: run_on_def find_run_def dest: find_SomeD)
  obtain x where x: "db2 = db\<lparr>db_runs := update_rows (\<lambda>r. rr_run_id r = tn_run_id t)
        (move_row now t epoch seq rnd row) (db_runs db), db_transitions := db_transitions db @ [x]\<rparr>"
    "tr_run_id x = tn_run_id t" "tr_sequence x = seq" "tr_trace_id x = tn_trace_id t"
    "tr_before_state x = tn_expected_state t" "tr_after_state x = tn_after_state t"
    using insert_transition_effect [OF ins] by auto
  define f where "f = move_row now t epoch seq rnd row"
  define caps where "caps = (if tn_increment_epoch t
    then update_rows (\<lambda>c. cp_run_id c = tr_run_id x \<and> \<not> cp_revoked c) (revoke_row now ''run_epoch_advanced'') (db_capabilities db)
    else db_capabilities db)"
  have f: "rr_run_id (f r) = rr_run_id r \<and> rr_owner_id (f r) = rr_owner_id r
        \<and> rr_transition_seq (f r) = tr_sequence x \<and> rr_state (f r) = tr_after_state x
        \<and> rr_epoch (f r) = rr_epoch row + (if tn_increment_epoch t then 1 else 0)" for r
    using x epoch by (simp add: f_def move_row_def)
  have p4: "protocol_of db4 = (protocol_of db)\<lparr>pt_runs := update_rows (\<lambda>r. rr_run_id r = tr_run_id x) f (db_runs db),
      pt_transitions := db_transitions db @ [x], pt_capabilities := caps\<rparr>"
    using record_initialization_same [OF init] x(1,2)
    by (auto simp: protocol_simps revoke_where_def caps_def f_def)
  then have tables: "db_checkpoints db4 = db_checkpoints db" "db_receipts db4 = db_receipts db"
    by (simp_all add: protocol_of_def)
  have "map rr_run_id (update_rows (\<lambda>r. rr_run_id r = tr_run_id x) f (db_runs db)) = map rr_run_id (db_runs db)"
    using f by (intro keys_ok_update) simp
  moreover have "map cp_nonce caps = map cp_nonce (db_capabilities db)" by (simp add: caps_def keys_ok_update)
  moreover have "tr_run_id x \<in> rr_run_id ` set (db_runs db)" using r x(2) by (metis imageI)
  ultimately have "keys_ok (protocol_of db4)"
    using keys_ok_unchanged [of "protocol_of db" _ x caps] inv
    unfolding p4 protocol_inv_def by (simp add: protocol_simps)
  then obtain receipts y where rc: "db5 = db4\<lparr>db_receipts := receipts\<rparr>"
    "(\<exists>k \<in> set (db_checkpoints db4). ck_execution_id k = tn_trace_id t
        \<and> pending_in (db_receipts db4) (ck_capability_sha256 k)
        \<and> receipts = update_rows (\<lambda>r. sr_capability_sha256 r = ck_capability_sha256 k \<and> receipt_pending r)
                         (complete_row y now) (db_receipts db4) \<and> result_validate y = Inr ())
     \<or> tn_trace_id t \<notin> ck_execution_id ` set (db_checkpoints db4) \<and> receipts = db_receipts db4"
    using record_transition_effect [OF rec] by blast
  have "protocol_move (protocol_of db) ((protocol_of db)\<lparr>
      pt_runs := update_rows (\<lambda>r. rr_run_id r = tr_run_id x) f (pt_runs (protocol_of db)),
      pt_transitions := pt_transitions (protocol_of db) @ [x], pt_capabilities := caps, pt_receipts := receipts\<rparr>)"
    using r row(2) x seq f rc(2) tables
    by (intro protocol_move.transition [where row = row and increment = "tn_increment_epoch t"
          and now = now and reason = "''run_epoch_advanced''" and x = y])
      (simp_all add: protocol_simps caps_def)
  then show "protocol_move\<^sup>*\<^sup>* (protocol_of db) (protocol_of db')"
    unfolding db' rc(1) by (simp add: p4 protocol_simps r_into_rtranclp)
qed

lemma seal_branch_same: "seal_branch now db c b after = Inr db' \<Longrightarrow> protocol_of db' = protocol_of db"
  by (auto simp: seal_branch_def Let_def protocol_simps split: if_splits)

lemma seal_task_domain_evolves:
  assumes "seal_task_domain now db c = Inr db'"
  shows "evolves db db'"
  using assms seal_evolves [of "\<lambda>d. dm_domain_id d = ca_domain_id c \<and> dm_run_id d = ca_run_id c \<and> dm_status d = ''open''"]
  by (auto simp: seal_task_domain_def Let_def split: if_splits)

lemma task_metadata_evolves: "task_metadata now db run before updates = Inr db' \<Longrightarrow> evolves db db'"
  using set_run_metadata_evolves by (auto simp: task_metadata_def bind_r_eq_Inr split: if_splits)

lemma check_task_of_evolves: "check_task_of db c task = Inr db' \<Longrightarrow> evolves db db'"
  using consume_restartable_task_evolves by (auto simp: check_task_of_def split: option.splits if_splits)

lemma transition_task_evolves:
  assumes "transition_task k now unix db c task = Inr (r, db')"
  shows "evolves db db'"
  using assms unfolding transition_task_def Let_def
  apply (elim take_apart)
  subgoal premises p for u db1 before db2 db3 db4
  proof -
    have "evolves db db1" by (rule check_task_of_evolves) (rule p(3))
    moreover have "evolves db1 db2" by (rule task_metadata_evolves) (rule p(6))
    moreover have "protocol_of db3 = protocol_of db2"
      using p(7) seal_branch_same
      by (auto simp: update_project_mode_def protocol_simps split: option.splits)
    then have "evolves db2 db3" by (rule evolves_same)
    moreover have "evolves db3 db4" by (rule seal_task_domain_evolves) (rule p(8))
    moreover have "evolves db4 db'" by (rule transition_on_evolves) (rule p(9))
    ultimately show ?thesis by (meson evolves_trans)
  qed
  done

lemma store_metadata_evolves: "evolves db (store_metadata now db run st m)"
  unfolding store_metadata_def by (rule set_run_metadata_evolves)

lemma complete_latex_gate_evolves:
  assumes "complete_latex_gate now db t expected result = Inr (r, db')"
  shows "evolves db db'"
  using assms store_metadata_evolves transition_on_evolves evolves_trans
  unfolding complete_latex_gate_def by (elim take_apart) blast

lemma fold_r_evolves:
  assumes "fold_r f xs db = Inr db'" "\<And>x db db'. f x db = Inr db' \<Longrightarrow> evolves db db'"
  shows "evolves db db'"
  using assms
proof (induction xs arbitrary: db)
  case Nil then show ?case by simp
next
  case (Cons x xs)
  then show ?case using evolves_trans by (auto simp: bind_r_eq_Inr) blast
qed

lemma insert_prepared_evolves: "insert_prepared now p b db = Inr db' \<Longrightarrow> evolves db db'"
  unfolding insert_prepared_def
  by (elim take_apart) (rule evolves_trans [OF insert_domain_evolves insert_branch_evolves])

lemma complete_branch_preparation_evolves:
  assumes "complete_branch_preparation now db p = Inr (r, db')"
  shows "evolves db db'"
  using assms unfolding complete_branch_preparation_def Let_def
  apply (elim take_apart)
  subgoal premises q for row rnd db1 m
  proof -
    have "evolves db db1" using fold_r_evolves [OF q(6)] insert_prepared_evolves by blast
    then show ?thesis
      using store_metadata_evolves transition_on_evolves [OF q(8)] evolves_trans by blast
  qed
  done

end
