(* ===== verification/Store_Registry.thy ===== *)
theory Store_Registry
  imports Creation
begin

text \<open>
  The research registry of \<open>StateStore\<close> (\<open>crates/mtm-storage/src/store.rs\<close>): projects, claims and
  their revisions, snapshots of a project, the link of a run to a project, proof manifests,
  references with their sources, and audits.

  An identifier the program draws at random is an argument (\<open>fresh\<close>). \<open>None\<close> for the owner of a
  lookup is the lookup without a check of the owner.
\<close>

section \<open>Projects\<close>

definition msg_project_required :: string where
  "msg_project_required = ''Project owner and title are required.''"

definition msg_project_id :: string where
  "msg_project_id = ''Project id must use only letters, digits, '' @ [CHR 0x27] @ ''.'' @ [CHR 0x27] @ '', ''
     @ [CHR 0x27] @ ''_'' @ [CHR 0x27] @ '', or '' @ [CHR 0x27] @ ''-'' @ [CHR 0x27]
     @ '' and start with an alphanumeric character.''"

definition msg_project_exists :: string where
  "msg_project_exists = ''A project with this id already exists.''"

definition msg_unknown_project :: string where
  "msg_unknown_project = ''Unknown project.''"

definition msg_project_owner :: string where
  "msg_project_owner = ''Project is not owned by the authenticated principal.''"

definition find_project :: "state_db \<Rightarrow> string \<Rightarrow> project_row option" where
  "find_project db project = find (\<lambda>p. pr_project_id p = project) (db_projects db)"

definition project_not_found :: "string \<Rightarrow> re_ctm_error" where
  "project_not_found project =
     with_details (JObject [(''project_id'', JString project)])
       (with_category NotFound (error_new ''PROJECT_NOT_FOUND'' msg_unknown_project))"

definition owner_mismatch :: "string \<Rightarrow> re_ctm_error" where
  "owner_mismatch m = with_category Permission (error_new ''PROJECT_OWNER_MISMATCH'' m)"

definition get_project :: "state_db \<Rightarrow> string \<Rightarrow> string option \<Rightarrow> project_row result" where
  "get_project db project owner =
     bind_r (ok_or (find_project db project) (project_not_found project)) (\<lambda>p.
     if owner \<noteq> None \<and> owner \<noteq> Some (pr_owner_id p) then Inl (owner_mismatch msg_project_owner)
     else Inr p)"

definition create_project :: "string \<Rightarrow> string \<Rightarrow> state_db \<Rightarrow> string \<Rightarrow> string \<Rightarrow> string option \<Rightarrow> json \<Rightarrow>
    project_row stored" where
  "create_project now fresh db owner title project metadata =
     (if is_blank owner \<or> is_blank title
      then Inl (with_category Validation (error_new ''INVALID_PROJECT'' msg_project_required))
      else
        let resolved = (case project of Some p \<Rightarrow> trim p | None \<Rightarrow> ''project-'' @ fresh) in
        if \<not> validate_registry_id resolved
        then Inl (with_category Validation (error_new ''INVALID_PROJECT_ID'' msg_project_id))
        else
          case insert_into (find_project db resolved \<noteq> None) ''projects.project_id'' True
                 \<lparr>pr_project_id = resolved, pr_owner_id = owner, pr_title = trim title,
                  pr_status = ''active'', pr_metadata = metadata, pr_created_at = now,
                  pr_updated_at = now\<rparr> (db_projects db) of
            Inl e \<Rightarrow>
              if is_constraint e
              then Inl (with_details (JObject [(''project_id'', JString resolved)])
                     (with_category Conflict (error_new ''PROJECT_ALREADY_EXISTS'' msg_project_exists)))
              else Inl e
          | Inr rows \<Rightarrow>
              let db = db\<lparr>db_projects := rows\<rparr> in
              bind_r (get_project db resolved (Some owner)) (\<lambda>p. Inr (p, db)))"

definition list_projects :: "state_db \<Rightarrow> string \<Rightarrow> int \<Rightarrow> project_row list" where
  "list_projects db owner limit =
     limit_rows limit (sort_desc pr_updated_at (filter (\<lambda>p. pr_owner_id p = owner) (db_projects db)))"

section \<open>Claims\<close>

definition msg_claim_title :: string where
  "msg_claim_title = ''Claim title is required.''"

definition msg_claim_id :: string where
  "msg_claim_id = ''Claim'' @ drop 7 msg_project_id"

definition msg_claim_exists :: string where
  "msg_claim_exists = ''A claim with this id already exists.''"

definition msg_unknown_claim :: string where
  "msg_unknown_claim = ''Unknown claim.''"

definition find_claim :: "state_db \<Rightarrow> string \<Rightarrow> claim_row option" where
  "find_claim db claim = find (\<lambda>c. cl_claim_id c = claim) (db_claims db)"

definition get_claim :: "state_db \<Rightarrow> string \<Rightarrow> string option \<Rightarrow> claim_row result" where
  "get_claim db claim owner =
     bind_r (ok_or (find_claim db claim)
        (with_details (JObject [(''claim_id'', JString claim)])
           (with_category NotFound (error_new ''CLAIM_NOT_FOUND'' msg_unknown_claim)))) (\<lambda>c.
     bind_r (if owner = None then Inr () else map_ok (\<lambda>_. ()) (get_project db (cl_project_id c) owner)) (\<lambda>_.
     Inr c))"

definition create_claim :: "string \<Rightarrow> string \<Rightarrow> state_db \<Rightarrow> string \<Rightarrow> string \<Rightarrow> string \<Rightarrow> string option \<Rightarrow> json \<Rightarrow>
    claim_row stored" where
  "create_claim now fresh db owner project title claim metadata =
     bind_r (get_project db project (Some owner)) (\<lambda>_.
     if is_blank title then Inl (with_category Validation (error_new ''INVALID_CLAIM'' msg_claim_title))
     else
       let resolved = (case claim of Some c \<Rightarrow> trim c | None \<Rightarrow> ''claim-'' @ fresh) in
       if \<not> validate_registry_id resolved
       then Inl (with_category Validation (error_new ''INVALID_CLAIM_ID'' msg_claim_id))
       else
         case insert_into (find_claim db resolved \<noteq> None) ''claims.claim_id'' (find_project db project \<noteq> None)
                \<lparr>cl_claim_id = resolved, cl_project_id = project, cl_title = trim title,
                 cl_metadata = metadata, cl_created_at = now, cl_updated_at = now\<rparr> (db_claims db) of
           Inl e \<Rightarrow>
             if is_constraint e
             then Inl (with_category Conflict (error_new ''CLAIM_ALREADY_EXISTS'' msg_claim_exists))
             else Inl e
         | Inr rows \<Rightarrow>
             let db = db\<lparr>db_claims := rows\<rparr> in
             bind_r (get_claim db resolved (Some owner)) (\<lambda>c. Inr (c, db)))"

definition list_claims :: "state_db \<Rightarrow> string \<Rightarrow> string \<Rightarrow> claim_row list result" where
  "list_claims db project owner =
     map_ok (\<lambda>_. sort_key cl_created_at (filter (\<lambda>c. cl_project_id c = project) (db_claims db)))
       (get_project db project (Some owner))"

section \<open>Revisions\<close>

definition msg_unknown_revision :: string where
  "msg_unknown_revision = ''Unknown claim revision.''"

definition msg_open_statement :: string where
  "msg_open_statement = ''Open claim revision requires a statement.''"

definition msg_conditions :: string where
  "msg_conditions = ''Claim conditions must contain only non-empty strings.''"

definition msg_revision_conflict :: string where
  "msg_revision_conflict = ''The active claim revision changed before the owner revision was written.''"

definition claim_revisions :: "state_db \<Rightarrow> string \<Rightarrow> revision_row list" where
  "claim_revisions db claim =
     sort_key rv_revision_number (filter (\<lambda>r. rv_claim_id r = claim) (db_revisions db))"

definition list_claim_revisions :: "state_db \<Rightarrow> string \<Rightarrow> string \<Rightarrow> revision_row list result" where
  "list_claim_revisions db claim owner =
     map_ok (\<lambda>_. claim_revisions db claim) (get_claim db claim (Some owner))"

definition find_revision :: "state_db \<Rightarrow> string \<Rightarrow> revision_row option" where
  "find_revision db revision = find (\<lambda>r. rv_revision_id r = revision) (db_revisions db)"

definition get_claim_revision :: "state_db \<Rightarrow> string \<Rightarrow> string option \<Rightarrow> revision_row result" where
  "get_claim_revision db revision owner =
     bind_r (ok_or (find_revision db revision)
        (with_category NotFound (error_new ''CLAIM_REVISION_NOT_FOUND'' msg_unknown_revision))) (\<lambda>r.
     bind_r (if owner = None then Inr () else map_ok (\<lambda>_. ()) (get_claim db (rv_claim_id r) owner)) (\<lambda>_.
     Inr r))"

text \<open>\<open>WHERE claim_id=? AND lifecycle_status='ACTIVE' ORDER BY revision_number DESC LIMIT 1\<close>.\<close>

definition active_revision :: "state_db \<Rightarrow> string \<Rightarrow> revision_row option" where
  "active_revision db claim =
     (case sort_desc rv_revision_number
             (filter (\<lambda>r. rv_claim_id r = claim \<and> rv_lifecycle_status r = ''ACTIVE'') (db_revisions db)) of
        [] \<Rightarrow> None | r # _ \<Rightarrow> Some r)"

definition current_claim_revision :: "state_db \<Rightarrow> string \<Rightarrow> string \<Rightarrow> revision_row option result" where
  "current_claim_revision db claim owner = map_ok (\<lambda>_. active_revision db claim) (get_claim db claim (Some owner))"

definition normalize_condition :: "string \<Rightarrow> string result" where
  "normalize_condition c =
     (if is_blank c then Inl (with_category Validation (error_new ''INVALID_CLAIM_REVISION'' msg_conditions))
      else Inr (trim c))"

definition revision_conflict :: "string option \<Rightarrow> string option \<Rightarrow> re_ctm_error" where
  "revision_conflict expected actual =
     with_details (JObject [(''actual'', json_opt_string actual), (''expected'', json_opt_string expected)])
       (with_retryable True (with_category Conflict (error_new ''CLAIM_REVISION_CONFLICT'' msg_revision_conflict)))"

definition next_revision_number :: "revision_row option \<Rightarrow> int" where
  "next_revision_number active = (case active of None \<Rightarrow> 1 | Some r \<Rightarrow> wrapping_add (rv_revision_number r) 1)"

definition supersede :: "revision_row option \<Rightarrow> state_db \<Rightarrow> state_db" where
  "supersede active db =
     (case active of
        None \<Rightarrow> db
      | Some a \<Rightarrow> db\<lparr>db_revisions := update_rows (\<lambda>r. rv_revision_id r = rv_revision_id a)
                    (\<lambda>r. r\<lparr>rv_lifecycle_status := ''SUPERSEDED''\<rparr>) (db_revisions db)\<rparr>)"

definition insert_revision :: "revision_row \<Rightarrow> state_db \<Rightarrow> state_db result" where
  "insert_revision row db =
     (if find_revision db (rv_revision_id row) \<noteq> None
      then Inl (unique_failed ''claim_revisions.revision_id'')
      else if list_ex (\<lambda>r. rv_claim_id r = rv_claim_id row \<and> rv_revision_number r = rv_revision_number row)
                (db_revisions db)
      then Inl (unique_failed ''claim_revisions.claim_id, claim_revisions.revision_number'')
      else
      map_ok (\<lambda>rows. db\<lparr>db_revisions := rows\<rparr>)
        (insert_into (rv_source_run_id row \<noteq> None
              \<and> list_ex (\<lambda>r. rv_source_run_id r = rv_source_run_id row) (db_revisions db))
           ''claim_revisions.source_run_id''
           (find_claim db (rv_claim_id row) \<noteq> None
            \<and> (case rv_source_run_id row of None \<Rightarrow> True | Some run \<Rightarrow> find_run db run \<noteq> None)
            \<and> (case rv_fact_id row of None \<Rightarrow> True | Some f \<Rightarrow> list_ex (\<lambda>x. ft_fact_id x = f) (db_facts db)))
           row (db_revisions db)))"

definition revision_id_of :: "string \<Rightarrow> int \<Rightarrow> string" where
  "revision_id_of claim n = claim @ ''-r'' @ show_int n"

definition create_open_claim_revision :: "string \<Rightarrow> state_db \<Rightarrow> string \<Rightarrow> string \<Rightarrow> string \<Rightarrow> string list \<Rightarrow>
    string option \<Rightarrow> revision_row stored" where
  "create_open_claim_revision now db owner claim statement conditions expected_base =
     bind_r (get_claim db claim (Some owner)) (\<lambda>_.
     if is_blank statement
     then Inl (with_category Validation (error_new ''INVALID_CLAIM_REVISION'' msg_open_statement))
     else
     bind_r (traverse_r normalize_condition conditions) (\<lambda>normalized.
     let active = active_revision db claim; active_id = map_option rv_revision_id active in
     if expected_base \<noteq> None \<and> active_id \<noteq> expected_base
     then Inl (revision_conflict expected_base active_id)
     else
       let n = next_revision_number active; revision = revision_id_of claim n in
       bind_r (insert_revision
                 \<lparr>rv_revision_id = revision, rv_claim_id = claim, rv_revision_number = n,
                  rv_statement_tex = trim statement, rv_evidence_status = ''OPEN'',
                  rv_lifecycle_status = ''ACTIVE'', rv_source_run_id = None, rv_proof_sha256 = None,
                  rv_conditions = normalized, rv_metadata = JObject [], rv_created_at = now,
                  rv_fact_id = None\<rparr> (supersede active db)) (\<lambda>db.
       bind_r (get_claim_revision db revision (Some owner)) (\<lambda>r. Inr (r, db)))))"

section \<open>Snapshots and linked runs\<close>

definition msg_unknown_snapshot :: string where
  "msg_unknown_snapshot = ''Unknown project snapshot.''"

definition msg_snapshot_owner :: string where
  "msg_snapshot_owner = ''Project snapshot is not owned by the authenticated principal.''"

definition msg_claim_project :: string where
  "msg_claim_project = ''Target claim does not belong to the selected project.''"

text \<open>The revisions of a project that a snapshot shows, and one of them as JSON.\<close>

definition shown_revisions :: "state_db \<Rightarrow> string \<Rightarrow> revision_row list" where
  "shown_revisions db project =
     sort_key rv_claim_id (sort_key rv_revision_number
       (filter (\<lambda>r. list_ex (\<lambda>c. cl_claim_id c = rv_claim_id r \<and> cl_project_id c = project) (db_claims db)
          \<and> (rv_lifecycle_status r = ''ACTIVE'' \<or> rv_evidence_status r \<in> {''VERIFIED'', ''CONDITIONAL''}))
          (db_revisions db)))"

definition revision_to_json :: "revision_row \<Rightarrow> json" where
  "revision_to_json r = JObject
     [(''claim_id'', JString (rv_claim_id r)),
      (''conditions'', JArray (map JString (rv_conditions r))),
      (''evidence_status'', JString (rv_evidence_status r)),
      (''lifecycle_status'', JString (rv_lifecycle_status r)),
      (''proof_sha256'', json_opt_string (rv_proof_sha256 r)),
      (''revision_id'', JString (rv_revision_id r)),
      (''revision_number'', i64_json (rv_revision_number r)),
      (''statement_tex'', JString (rv_statement_tex r))]"

definition find_snapshot :: "state_db \<Rightarrow> string \<Rightarrow> project_snapshot_row option" where
  "find_snapshot db snapshot = find (\<lambda>s. ps_snapshot_id s = snapshot) (db_project_snapshots db)"

definition get_project_snapshot :: "state_db \<Rightarrow> string \<Rightarrow> string \<Rightarrow> project_snapshot_row result" where
  "get_project_snapshot db snapshot owner =
     bind_r (ok_or (find_snapshot db snapshot)
        (with_category NotFound (error_new ''PROJECT_SNAPSHOT_NOT_FOUND'' msg_unknown_snapshot))) (\<lambda>s.
     if ps_owner_id s \<noteq> owner then Inl (owner_mismatch msg_snapshot_owner) else Inr s)"

definition insert_snapshot :: "project_snapshot_row \<Rightarrow> state_db \<Rightarrow> state_db result" where
  "insert_snapshot row db =
     map_ok (\<lambda>rows. db\<lparr>db_project_snapshots := rows\<rparr>)
       (insert_into (find_snapshot db (ps_snapshot_id row) \<noteq> None) ''project_snapshots.snapshot_id''
          (find_project db (ps_project_id row) \<noteq> None) row (db_project_snapshots db))"

definition create_project_snapshot :: "token_codec \<Rightarrow> string \<Rightarrow> string \<Rightarrow> state_db \<Rightarrow> string \<Rightarrow> string \<Rightarrow>
    project_snapshot_row stored" where
  "create_project_snapshot k now fresh db project owner =
     bind_r (get_project db project (Some owner)) (\<lambda>_.
     let revisions = JArray (map revision_to_json (shown_revisions db project));
         snapshot = ''ps-'' @ fresh in
     bind_r (insert_snapshot \<lparr>ps_snapshot_id = snapshot, ps_project_id = project, ps_owner_id = owner,
               ps_revisions = revisions, ps_snapshot_sha256 = tk_sha256 k (tk_print k revisions),
               ps_created_at = now\<rparr> db) (\<lambda>db.
     bind_r (get_project_snapshot db snapshot owner) (\<lambda>s. Inr (s, db))))"

definition find_project_run :: "state_db \<Rightarrow> string \<Rightarrow> project_run_row option" where
  "find_project_run db run = find (\<lambda>p. pj_run_id p = run) (db_project_runs db)"

definition get_project_run :: "state_db \<Rightarrow> string \<Rightarrow> string option \<Rightarrow> project_run_row option result" where
  "get_project_run db run owner =
     (let found = find_project_run db run in
      bind_r (case (owner, found) of
                (Some _, Some p) \<Rightarrow> map_ok (\<lambda>_. ()) (get_project db (pj_project_id p) owner)
              | _ \<Rightarrow> Inr ()) (\<lambda>_. Inr found))"

definition insert_project_run :: "project_run_row \<Rightarrow> state_db \<Rightarrow> state_db result" where
  "insert_project_run row db =
     map_ok (\<lambda>rows. db\<lparr>db_project_runs := rows\<rparr>)
       (insert_into (find_project_run db (pj_run_id row) \<noteq> None) ''project_runs.run_id''
          (find_run db (pj_run_id row) \<noteq> None \<and> find_project db (pj_project_id row) \<noteq> None
           \<and> find_snapshot db (pj_project_snapshot_id row) \<noteq> None
           \<and> (case pj_target_claim_id row of None \<Rightarrow> True | Some c \<Rightarrow> find_claim db c \<noteq> None)
           \<and> (case pj_base_revision_id row of None \<Rightarrow> True | Some r \<Rightarrow> find_revision db r \<noteq> None))
          row (db_project_runs db))"

definition new_project_run :: "string \<Rightarrow> string \<Rightarrow> string \<Rightarrow> string \<Rightarrow> string option \<Rightarrow> string option \<Rightarrow> string \<Rightarrow>
    string \<Rightarrow> bool \<Rightarrow> project_run_row" where
  "new_project_run now run project snapshot target base requested effective register =
     \<lparr>pj_run_id = run, pj_project_id = project, pj_project_snapshot_id = snapshot,
      pj_target_claim_id = target, pj_base_revision_id = base,
      pj_requested_workflow_mode = requested, pj_effective_workflow_mode = effective,
      pj_register_result = register, pj_promotion_status = ''pending'', pj_promoted_revision_id = None,
      pj_promotion = JObject [], pj_created_at = now, pj_updated_at = now\<rparr>"

definition link_run_to_project :: "string \<Rightarrow> state_db \<Rightarrow> string \<Rightarrow> string \<Rightarrow> string \<Rightarrow> string \<Rightarrow> string option \<Rightarrow>
    string option \<Rightarrow> string \<Rightarrow> string \<Rightarrow> bool \<Rightarrow> project_run_row option stored" where
  "link_run_to_project now db run owner project snapshot target base requested effective register =
     bind_r (get_project db project (Some owner)) (\<lambda>_.
     bind_r (get_project_snapshot db snapshot owner) (\<lambda>_.
     bind_r (case target of
               None \<Rightarrow> Inr ()
             | Some c \<Rightarrow> bind_r (get_claim db c (Some owner)) (\<lambda>row.
                 if cl_project_id row \<noteq> project
                 then Inl (with_category Validation (error_new ''CLAIM_PROJECT_MISMATCH'' msg_claim_project))
                 else Inr ())) (\<lambda>_.
     bind_r (insert_project_run (new_project_run now run project snapshot target base requested effective register) db) (\<lambda>db.
     bind_r (get_project_run db run (Some owner)) (\<lambda>p. Inr (p, db))))))"

definition set_project_run_mode :: "string \<Rightarrow> state_db \<Rightarrow> string \<Rightarrow> string \<Rightarrow> unit stored" where
  "set_project_run_mode now db run mode =
     Inr ((), db\<lparr>db_project_runs := update_rows (\<lambda>p. pj_run_id p = run)
           (\<lambda>p. p\<lparr>pj_effective_workflow_mode := mode, pj_updated_at := now\<rparr>) (db_project_runs db)\<rparr>)"

section \<open>Manifests, references and audits\<close>

definition msg_no_manifest :: string where
  "msg_no_manifest = ''The run has no proof manifest.''"

definition msg_not_audited :: string where
  "msg_not_audited = ''Reference has not been audited.''"

definition manifest_to_json :: "string \<Rightarrow> json \<Rightarrow> string \<Rightarrow> json" where
  "manifest_to_json run manifest digest =
     JObject [(''manifest'', manifest), (''run_id'', JString run), (''sha256'', JString digest)]"

definition write_proof_manifest :: "token_codec \<Rightarrow> string \<Rightarrow> state_db \<Rightarrow> string \<Rightarrow> json \<Rightarrow> json stored" where
  "write_proof_manifest k now db run manifest =
     (let digest = tk_sha256 k (tk_print k manifest) in
      map_ok (\<lambda>db. (manifest_to_json run manifest digest, db)) (manifest_on now db run manifest digest))"

definition read_proof_manifest :: "state_db \<Rightarrow> string \<Rightarrow> json result" where
  "read_proof_manifest db run =
     bind_r (ok_or (find (\<lambda>m. mf_run_id m = run) (db_manifests db))
        (with_category NotFound (error_new ''PROOF_MANIFEST_NOT_FOUND'' msg_no_manifest))) (\<lambda>m.
     Inr (manifest_to_json run (mf_manifest m) (mf_sha256 m)))"

definition get_reference :: "state_db \<Rightarrow> string \<Rightarrow> reference_row result" where
  "get_reference db reference = ok_or (find_reference db reference) reference_not_found"

definition insert_reference :: "reference_row \<Rightarrow> state_db \<Rightarrow> state_db result" where
  "insert_reference row db =
     (if find_reference db (rf_reference_id row) \<noteq> None
      then Inl (unique_failed ''references_registry.reference_id'')
      else
      map_ok (\<lambda>rows. db\<lparr>db_references := rows\<rparr>)
        (insert_into (list_ex (\<lambda>r. rf_run_id r = rf_run_id row \<and> rf_identity_key r = rf_identity_key row)
              (db_references db)) ''references_registry.run_id, references_registry.identity_key''
           (find_run db (rf_run_id row) \<noteq> None
            \<and> (case rf_project_id row of None \<Rightarrow> True | Some p \<Rightarrow> find_project db p \<noteq> None))
           row (db_references db)))"

text \<open>The row of a reference as the caller describes it, all but its identifier and times.\<close>

definition register_reference :: "string \<Rightarrow> string \<Rightarrow> state_db \<Rightarrow> reference_row \<Rightarrow> reference_row stored" where
  "register_reference now fresh db described =
     (case find (\<lambda>r. rf_run_id r = rf_run_id described \<and> rf_identity_key r = rf_identity_key described)
             (db_references db) of
        Some existing \<Rightarrow> bind_r (get_reference db (rf_reference_id existing)) (\<lambda>r. Inr (r, db))
      | None \<Rightarrow>
          let reference = ''ref-'' @ fresh in
          bind_r (insert_reference (described\<lparr>rf_reference_id := reference, rf_created_at := now,
                    rf_updated_at := now\<rparr>) db) (\<lambda>db.
          bind_r (get_reference db reference) (\<lambda>r. Inr (r, db))))"

definition insert_source :: "source_snapshot_row \<Rightarrow> state_db \<Rightarrow> state_db result" where
  "insert_source row db =
     map_ok (\<lambda>rows. db\<lparr>db_source_snapshots := rows\<rparr>)
       (insert_into (list_ex (\<lambda>s. ss_source_snapshot_id s = ss_source_snapshot_id row) (db_source_snapshots db))
          ''source_snapshots.source_snapshot_id'' (find_reference db (ss_reference_id row) \<noteq> None)
          row (db_source_snapshots db))"

definition create_source_snapshot :: "token_codec \<Rightarrow> string \<Rightarrow> string \<Rightarrow> state_db \<Rightarrow> string \<Rightarrow> string \<Rightarrow> string \<Rightarrow>
    string \<Rightarrow> string \<Rightarrow> object \<Rightarrow> json stored" where
  "create_source_snapshot k now fresh db reference provider uri content content_type metadata =
     bind_r (get_reference db reference) (\<lambda>_.
     let digest = tk_sha256 k content; snapshot = ''source-'' @ fresh in
     bind_r (insert_source \<lparr>ss_source_snapshot_id = snapshot, ss_reference_id = reference,
               ss_provider = provider, ss_source_uri = uri, ss_content_sha256 = digest,
               ss_content_type = content_type,
               ss_metadata = JObject (bt_insert ''content'' (JString content) metadata),
               ss_created_at = now\<rparr> db) (\<lambda>db.
     let db = db\<lparr>db_references := update_rows (\<lambda>r. rf_reference_id r = reference)
                (\<lambda>r. r\<lparr>rf_source_sha256 := digest, rf_content_sha256 := digest, rf_updated_at := now\<rparr>)
                (db_references db)\<rparr> in
     Inr (JObject [(''content_sha256'', JString digest), (''reference_id'', JString reference),
            (''source_snapshot_id'', JString snapshot), (''source_uri'', JString uri)], db)))"

definition list_source_snapshots :: "state_db \<Rightarrow> string \<Rightarrow> source_snapshot_row list" where
  "list_source_snapshots db reference =
     sort_key ss_created_at (filter (\<lambda>s. ss_reference_id s = reference) (db_source_snapshots db))"

definition list_run_references :: "state_db \<Rightarrow> string \<Rightarrow> reference_row list" where
  "list_run_references db run =
     sort_key rf_created_at (filter (\<lambda>r. rf_run_id r = run) (db_references db))"

definition write_reference_audit :: "string \<Rightarrow> state_db \<Rightarrow> string \<Rightarrow> reference_audit_write \<Rightarrow> audit_row stored" where
  "write_reference_audit now db run a =
     bind_r (get_reference db (aw_reference_id a)) (\<lambda>reference.
     if rf_run_id reference \<noteq> run
     then Inl (with_category Permission (error_new ''REFERENCE_RUN_MISMATCH'' msg_reference_run))
     else if aw_disposition a \<notin> {''SOURCE_VERIFIED'', ''INDEPENDENTLY_REDERIVED'', ''UNRESOLVED'', ''NOT_MATERIAL''}
     then Inl (with_category Validation (error_new ''INVALID_REFERENCE_DISPOSITION'' msg_disposition))
     else audit_on now db run a)"

definition get_reference_audit :: "state_db \<Rightarrow> string \<Rightarrow> string \<Rightarrow> audit_row result" where
  "get_reference_audit db run reference =
     ok_or (find (audit_key run reference) (db_audits db))
       (with_category NotFound (error_new ''REFERENCE_AUDIT_NOT_FOUND'' msg_not_audited))"

text \<open>An audit with the reference it joins.\<close>

definition list_reference_audits :: "state_db \<Rightarrow> string \<Rightarrow> (audit_row \<times> reference_row) list" where
  "list_reference_audits db run =
     List.map_filter (\<lambda>a. map_option (Pair a) (find_reference db (au_reference_id a)))
       (sort_key au_audit_id (filter (\<lambda>a. au_run_id a = run) (db_audits db)))"

definition project_dependency_graph :: "state_db \<Rightarrow> string \<Rightarrow> string \<Rightarrow>
    (project_row \<times> claim_row list \<times> revision_row list \<times> claim_edge_row list) result" where
  "project_dependency_graph db project owner =
     bind_r (get_project db project (Some owner)) (\<lambda>p.
     bind_r (list_claims db project owner) (\<lambda>claims.
     bind_r (traverse_r (\<lambda>c. list_claim_revisions db (cl_claim_id c) owner) claims) (\<lambda>revisions.
     Inr (p, claims, concat revisions,
          sort_key ce_edge_id (filter (\<lambda>e. ce_project_id e = project) (db_claim_edges db))))))"

end
