(* ===== verification/Fact_Memory.thy ===== *)
theory Fact_Memory
  imports Store_Registry Graph_Search
begin

text \<open>
  The fact memory (\<open>crates/mtm-storage/src/fact_memory.rs\<close>) and the promotion of a verified run
  (\<open>promote_run_inner\<close> of \<open>store.rs\<close>): facts with their predecessors, revocations, and the
  findings of a run with the history of their status.

  The recursive query of \<open>revoke_project_fact\<close> is the worklist search \<open>dependency_closure\<close> over
  the graph of the facts of the project, from a fact to the facts that have it as a predecessor.
\<close>

record fact_for_promotion =
  fp_fact_id :: string
  fp_statement_tex :: string
  fp_proof_tex :: string
  fp_intuition :: string
  fp_glossary_json :: string
  fp_predecessors :: "string list"

record finding_for_storage =
  fz_finding_id :: string
  fz_kind :: string
  fz_claim :: string
  fz_evidence :: string
  fz_verifiable :: bool
  fz_links_json :: string

definition fact_conflict :: "string \<Rightarrow> re_ctm_error" where
  "fact_conflict m = with_category Conflict (error_new ''FACT_GRAPH_CONFLICT'' m)"

text \<open>\<open>split_whitespace\<close> joined by single spaces.\<close>

definition normalize_sql :: "string \<Rightarrow> string" where
  "normalize_sql s = join '' '' (split_whitespace s)"

section \<open>Promotion of facts\<close>

definition msg_fact_batch :: string where
  "msg_fact_batch = ''A verified promotion needs a bounded fact batch.''"

definition msg_fact_data :: string where
  "msg_fact_data = ''Fact batch contains invalid or repeated data.''"

definition msg_fact_predecessor :: string where
  "msg_fact_predecessor = ''Fact predecessor is missing, revoked, or belongs to another project.''"

definition msg_fact_content :: string where
  "msg_fact_content = ''An existing fact ID has different immutable content.''"

definition msg_fact_edges :: string where
  "msg_fact_edges = ''An existing fact ID has different predecessors.''"

definition msg_fact_revoked :: string where
  "msg_fact_revoked = ''A revoked fact cannot be promoted again.''"

definition find_fact :: "state_db \<Rightarrow> string \<Rightarrow> fact_row option" where
  "find_fact db fid = find (\<lambda>f. ft_fact_id f = fid) (db_facts db)"

definition fact_revoked :: "state_db \<Rightarrow> string \<Rightarrow> bool" where
  "fact_revoked db fid \<longleftrightarrow> list_ex (\<lambda>v. fv_fact_id v = fid) (db_revocations db)"

definition check_predecessor :: "state_db \<Rightarrow> string \<Rightarrow> string \<Rightarrow> unit result" where
  "check_predecessor db project p =
     (case find_fact db p of
        Some f \<Rightarrow> ensure (ft_project_id f = project \<and> \<not> fact_revoked db p) (fact_conflict msg_fact_predecessor)
      | None \<Rightarrow> Inl (fact_conflict msg_fact_predecessor))"

definition fact_predecessors :: "state_db \<Rightarrow> string \<Rightarrow> string list" where
  "fact_predecessors db fid =
     map fg_predecessor_id (filter (\<lambda>e. fg_fact_id e = fid) (db_fact_edges db))"

definition check_existing_fact :: "state_db \<Rightarrow> string \<Rightarrow> fact_for_promotion \<Rightarrow> fact_row \<Rightarrow> unit result" where
  "check_existing_fact db project f row =
     (if ft_project_id row \<noteq> project
        \<or> normalize_sql (ft_statement_tex row) \<noteq> normalize_sql (fp_statement_tex f)
        \<or> normalize_sql (ft_proof_tex row) \<noteq> normalize_sql (fp_proof_tex f)
        \<or> ft_glossary_json row \<noteq> fp_glossary_json f
      then Inl (fact_conflict msg_fact_content)
      else if set (fact_predecessors db (fp_fact_id f)) \<noteq> set (fp_predecessors f)
      then Inl (fact_conflict msg_fact_edges)
      else if fact_revoked db (fp_fact_id f) then Inl (fact_conflict msg_fact_revoked)
      else Inr ())"

definition insert_fact_edge :: "string \<Rightarrow> string \<Rightarrow> state_db \<Rightarrow> state_db result" where
  "insert_fact_edge fid p db =
     (if fid = p then Inl (check_failed ''fact_id != predecessor_id'')
      else
      map_ok (\<lambda>rows. db\<lparr>db_fact_edges := rows\<rparr>)
        (insert_into (list_ex (\<lambda>e. fg_fact_id e = fid \<and> fg_predecessor_id e = p) (db_fact_edges db))
           ''fact_edges.fact_id, fact_edges.predecessor_id''
           (find_fact db fid \<noteq> None \<and> find_fact db p \<noteq> None)
           \<lparr>fg_fact_id = fid, fg_predecessor_id = p\<rparr> (db_fact_edges db)))"

definition insert_new_fact :: "string \<Rightarrow> string \<Rightarrow> string \<Rightarrow> fact_for_promotion \<Rightarrow> state_db \<Rightarrow> state_db result" where
  "insert_new_fact now project run f db =
     bind_r (insert_into (find_fact db (fp_fact_id f) \<noteq> None) ''facts.fact_id''
               (find_project db project \<noteq> None \<and> find_run db run \<noteq> None)
               \<lparr>ft_fact_id = fp_fact_id f, ft_project_id = project, ft_source_run_id = run,
                ft_statement_tex = fp_statement_tex f, ft_proof_tex = fp_proof_tex f,
                ft_intuition = fp_intuition f, ft_glossary_json = fp_glossary_json f,
                ft_external_refs_json = ''[]'', ft_created_at = now\<rparr> (db_facts db)) (\<lambda>rows.
     fold_r (insert_fact_edge (fp_fact_id f)) (fp_predecessors f) (db\<lparr>db_facts := rows\<rparr>))"

definition promote_fact :: "string \<Rightarrow> string \<Rightarrow> string \<Rightarrow> fact_for_promotion \<Rightarrow> string list \<times> state_db \<Rightarrow>
    (string list \<times> state_db) result" where
  "promote_fact now project run f st =
     (case st of (batch, db) \<Rightarrow>
        if length (fp_fact_id f) \<noteq> 16 \<or> \<not> list_all is_ascii_hexdigit (fp_fact_id f)
          \<or> is_blank (fp_statement_tex f) \<or> is_blank (fp_proof_tex f)
          \<or> 64 < length (fp_predecessors f) \<or> fp_fact_id f \<in> set batch
        then Inl (fact_conflict msg_fact_data)
        else
        bind_r (check_all (check_predecessor db project) (fp_predecessors f)) (\<lambda>_.
        bind_r (case find_fact db (fp_fact_id f) of
                  Some row \<Rightarrow> map_ok (\<lambda>_. db) (check_existing_fact db project f row)
                | None \<Rightarrow> insert_new_fact now project run f db) (\<lambda>db.
        Inr (fp_fact_id f # batch, db))))"

definition insert_promoted_facts :: "string \<Rightarrow> state_db \<Rightarrow> string \<Rightarrow> string \<Rightarrow> fact_for_promotion list \<Rightarrow>
    string stored" where
  "insert_promoted_facts now db project run facts =
     (if facts = [] \<or> 32 < length facts then Inl (fact_conflict msg_fact_batch)
      else
      bind_r (fold_r (promote_fact now project run) facts ([], db)) (\<lambda>(_, db).
      Inr (fp_fact_id (last facts), db)))"

section \<open>Findings\<close>

definition finding_seq :: "state_db \<Rightarrow> string \<Rightarrow> int" where
  "finding_seq db finding =
     fold max (map fs_seq (filter (\<lambda>s. fs_finding_id s = finding) (db_finding_status db))) 0"

text \<open>\<open>ORDER BY seq DESC LIMIT 1\<close>.\<close>

definition latest_status :: "state_db \<Rightarrow> string \<Rightarrow> finding_status_row option" where
  "latest_status db finding =
     (case sort_desc fs_seq (filter (\<lambda>s. fs_finding_id s = finding) (db_finding_status db)) of
        [] \<Rightarrow> None | s # _ \<Rightarrow> Some s)"

definition find_finding :: "state_db \<Rightarrow> string \<Rightarrow> finding_row option" where
  "find_finding db finding = find (\<lambda>f. fn_finding_id f = finding) (db_findings db)"

definition insert_status :: "string \<Rightarrow> string \<Rightarrow> string \<Rightarrow> string option \<Rightarrow> state_db \<Rightarrow> state_db result" where
  "insert_status now finding status fid db =
     (let seq = finding_seq db finding + 1 in
      map_ok (\<lambda>rows. db\<lparr>db_finding_status := rows\<rparr>)
        (insert_into (list_ex (\<lambda>s. fs_finding_id s = finding \<and> fs_seq s = seq) (db_finding_status db))
           ''memory_finding_status.finding_id, memory_finding_status.seq''
           (find_finding db finding \<noteq> None \<and> (case fid of None \<Rightarrow> True | Some f \<Rightarrow> find_fact db f \<noteq> None))
           \<lparr>fs_finding_id = finding, fs_seq = seq, fs_status = status, fs_fact_id = fid,
            fs_created_at = now\<rparr> (db_finding_status db)))"

definition verifiable_kinds :: "string list" where
  "verifiable_kinds = [''conclusion'', ''example'', ''counterexample'', ''proof_attempt'']"

definition verify_finding :: "string \<Rightarrow> fact_for_promotion list \<Rightarrow> finding_row \<Rightarrow> state_db \<Rightarrow> state_db result" where
  "verify_finding now facts f db =
     (case find (\<lambda>x. normalize_sql (fp_statement_tex x) = normalize_sql (fn_claim f)) facts of
        None \<Rightarrow> Inr db
      | Some x \<Rightarrow>
          if map_option fs_status (latest_status db (fn_finding_id f)) = Some ''verified'' then Inr db
          else insert_status now (fn_finding_id f) ''verified'' (Some (fp_fact_id x)) db)"

definition verify_matching_findings :: "string \<Rightarrow> state_db \<Rightarrow> string \<Rightarrow> fact_for_promotion list \<Rightarrow> state_db result" where
  "verify_matching_findings now db run facts =
     fold_r (verify_finding now facts)
       (sort_key fn_finding_id (filter (\<lambda>f. fn_run_id f = run \<and> fn_verifiable f
            \<and> fn_kind f \<in> set verifiable_kinds) (db_findings db))) db"

definition msg_finding_bound :: string where
  "msg_finding_bound = ''Finding projection exceeds its fixed bound.''"

definition msg_finding_project :: string where
  "msg_finding_project = ''Finding run has no project.''"

definition msg_finding_other :: string where
  "msg_finding_other = ''Finding run belongs to another project.''"

definition msg_finding_data :: string where
  "msg_finding_data = ''Finding data is invalid.''"

definition finding_kinds :: "string list" where
  "finding_kinds = verifiable_kinds @ [''plan'', ''dead_end'', ''direction'', ''obstacle'']"

definition insert_finding :: "string \<Rightarrow> string \<Rightarrow> string \<Rightarrow> finding_for_storage \<Rightarrow> state_db \<Rightarrow> state_db result" where
  "insert_finding now project run f db =
     (if length (fz_finding_id f) \<noteq> 64 \<or> \<not> list_all is_ascii_hexdigit (fz_finding_id f)
        \<or> fz_claim f = '''' \<or> 8192 < length (fz_claim f) \<or> 8192 < length (fz_evidence f)
        \<or> fz_kind f \<notin> set finding_kinds
      then Inl (fact_conflict msg_finding_data)
      else if find_finding db (fz_finding_id f) \<noteq> None then Inr db
      else
      bind_r (insert_into False ''memory_findings.finding_id''
                (find_project db project \<noteq> None \<and> find_run db run \<noteq> None)
                \<lparr>fn_finding_id = fz_finding_id f, fn_project_id = project, fn_run_id = run,
                 fn_kind = fz_kind f, fn_claim = fz_claim f, fn_evidence = fz_evidence f,
                 fn_verifiable = fz_verifiable f, fn_links_json = fz_links_json f, fn_created_at = now\<rparr>
                (db_findings db)) (\<lambda>rows.
      let db = db\<lparr>db_findings := rows\<rparr> in
      map_ok (\<lambda>rows. db\<lparr>db_finding_status := rows\<rparr>)
        (insert_into (list_ex (\<lambda>s. fs_finding_id s = fz_finding_id f \<and> fs_seq s = 1) (db_finding_status db))
           ''memory_finding_status.finding_id, memory_finding_status.seq'' True
           \<lparr>fs_finding_id = fz_finding_id f, fs_seq = 1, fs_status = ''active'', fs_fact_id = None,
            fs_created_at = now\<rparr> (db_finding_status db))))"

definition insert_project_findings :: "string \<Rightarrow> state_db \<Rightarrow> string \<Rightarrow> string \<Rightarrow> string \<Rightarrow>
    finding_for_storage list \<Rightarrow> unit stored" where
  "insert_project_findings now db project run owner findings =
     (if 8192 < length findings then Inl (fact_conflict msg_finding_bound)
      else
      bind_r (get_project db project (Some owner)) (\<lambda>_.
      bind_r (get_project_run db run (Some owner)) (\<lambda>found.
      bind_r (ok_or found (fact_conflict msg_finding_project)) (\<lambda>p.
      if pj_project_id p \<noteq> project then Inl (fact_conflict msg_finding_other)
      else map_ok (\<lambda>db. ((), db)) (fold_r (insert_finding now project run) findings db)))))"

text \<open>A finding with its latest status.\<close>

definition list_project_findings :: "state_db \<Rightarrow> string \<Rightarrow> string \<Rightarrow> (finding_row \<times> finding_status_row) list result" where
  "list_project_findings db project owner =
     map_ok (\<lambda>_. take 1024 (List.map_filter (\<lambda>f. map_option (Pair f) (latest_status db (fn_finding_id f)))
         (sort_desc fn_created_at (sort_key fn_finding_id
            (filter (\<lambda>f. fn_project_id f = project) (db_findings db))))))
       (get_project db project (Some owner))"

section \<open>Reading the graph of facts\<close>

definition project_facts :: "state_db \<Rightarrow> string \<Rightarrow> fact_row list" where
  "project_facts db project =
     sort_key ft_fact_id (filter (\<lambda>f. ft_project_id f = project) (db_facts db))"

definition list_project_facts :: "state_db \<Rightarrow> string \<Rightarrow> string \<Rightarrow> (fact_row \<times> bool) list result" where
  "list_project_facts db project owner =
     map_ok (\<lambda>_. map (\<lambda>f. (f, fact_revoked db (ft_fact_id f))) (project_facts db project))
       (get_project db project (Some owner))"

definition active_project_fact_ids :: "state_db \<Rightarrow> string \<Rightarrow> string \<Rightarrow> string set result" where
  "active_project_fact_ids db project owner =
     map_ok (\<lambda>facts. set (map (ft_fact_id \<circ> fst) (filter (\<lambda>(_, revoked). \<not> revoked) facts)))
       (list_project_facts db project owner)"

definition memory_fact_predecessors :: "state_db \<Rightarrow> string \<Rightarrow> string \<Rightarrow> string list" where
  "memory_fact_predecessors db project fid =
     (if list_ex (\<lambda>f. ft_fact_id f = fid \<and> ft_project_id f = project) (db_facts db)
      then sort (fact_predecessors db fid) else [])"

section \<open>Revocation\<close>

definition msg_revocation :: string where
  "msg_revocation = ''Actor and a bounded reason are required.''"

definition msg_unknown_fact :: string where
  "msg_unknown_fact = ''Unknown fact.''"

text \<open>From a fact to the facts of the project that have it as a predecessor.\<close>

definition dependents_graph :: "state_db \<Rightarrow> string \<Rightarrow> string graph" where
  "dependents_graph db project =
     map (\<lambda>f. (ft_fact_id f,
         map fg_fact_id (filter (\<lambda>e. fg_predecessor_id e = ft_fact_id f
            \<and> list_ex (\<lambda>x. ft_fact_id x = fg_fact_id e \<and> ft_project_id x = project) (db_facts db))
           (db_fact_edges db)))) (db_facts db)"

definition revoke_finding :: "string \<Rightarrow> string \<Rightarrow> state_db \<Rightarrow> state_db result" where
  "revoke_finding now finding db = insert_status now finding ''superseded'' None db"

definition linked_findings :: "state_db \<Rightarrow> string \<Rightarrow> string list" where
  "linked_findings db fid =
     sort (map fs_finding_id (filter (\<lambda>s. fs_fact_id s = Some fid \<and> fs_status s = ''verified''
        \<and> fs_seq s = finding_seq db (fs_finding_id s)) (db_finding_status db)))"

definition revoke_fact :: "string \<Rightarrow> string \<Rightarrow> string \<Rightarrow> string \<Rightarrow> string list \<times> state_db \<Rightarrow>
    (string list \<times> state_db) result" where
  "revoke_fact now actor reason fid st =
     (case st of (ids, db) \<Rightarrow>
        if fact_revoked db fid then Inr (ids, db)
        else
        bind_r (insert_into False ''fact_revocations'' (find_fact db fid \<noteq> None)
                  \<lparr>fv_fact_id = fid, fv_reason = reason, fv_actor = actor, fv_created_at = now\<rparr>
                  (db_revocations db)) (\<lambda>rows.
        let db = db\<lparr>db_revocations := rows\<rparr> in
        bind_r (fold_r (revoke_finding now) (linked_findings db fid) db) (\<lambda>db.
        Inr (ids @ [fid], db))))"

definition revoke_project_fact :: "string \<Rightarrow> state_db \<Rightarrow> string \<Rightarrow> string \<Rightarrow> string \<Rightarrow> (string \<times> string list) stored" where
  "revoke_project_fact now db fid actor reason =
     (if is_blank actor \<or> is_blank reason \<or> 4096 < length reason
      then Inl (with_category Validation (error_new ''INVALID_FACT_REVOCATION'' msg_revocation))
      else
      bind_r (ok_or (find_fact db fid)
         (with_category NotFound (error_new ''FACT_NOT_FOUND'' msg_unknown_fact))) (\<lambda>root.
      let project = ft_project_id root;
          descendants = sorted_list_of_set (dependency_closure fid (dependents_graph db project)) in
      bind_r (fold_r (revoke_fact now actor reason) descendants ([], db)) (\<lambda>(ids, db).
      Inr ((project, ids), db))))"

section \<open>Promotion of a verified run\<close>

datatype promotion_outcome =
    NotRequested
  | AlreadyPromoted revision_row
  | PromotionConflict "string option" "string option"
  | Promoted revision_row

definition msg_fact_target :: string where
  "msg_fact_target = ''Final fact does not match the promoted claim.''"

definition msg_dependency :: string where
  "msg_dependency = ''Proof manifest dependency is not a revision in the project.''"

definition update_project_run :: "string \<Rightarrow> (project_run_row \<Rightarrow> project_run_row) \<Rightarrow> state_db \<Rightarrow> state_db" where
  "update_project_run run f db =
     db\<lparr>db_project_runs := update_rows (\<lambda>p. pj_run_id p = run) f (db_project_runs db)\<rparr>"

definition set_promotion :: "string \<Rightarrow> string \<Rightarrow> json \<Rightarrow> string \<Rightarrow> state_db \<Rightarrow> state_db" where
  "set_promotion now status promotion run db =
     update_project_run run (\<lambda>p. p\<lparr>pj_promotion_status := status, pj_promotion := promotion,
       pj_updated_at := now\<rparr>) db"

definition conflict_json :: "string option \<Rightarrow> string option \<Rightarrow> json" where
  "conflict_json expected actual = JObject
     [(''current_revision_id'', json_opt_string actual),
      (''expected_base_revision_id'', json_opt_string expected), (''status'', JString ''conflict'')]"

definition promotion_conditions :: "string list \<Rightarrow> string list" where
  "promotion_conditions conditions = fold bs_insert (filter (\<lambda>c. c \<noteq> '''') (map trim conditions)) []"

definition manifest_dependencies :: "json \<Rightarrow> string list" where
  "manifest_dependencies manifest =
     (case Option.bind (json_get manifest ''dependency_revision_ids'') as_array of
        None \<Rightarrow> [] | Some xs \<Rightarrow> List.map_filter as_str xs)"

text \<open>\<open>INSERT OR IGNORE\<close> of an edge between revisions.\<close>

definition add_claim_edge :: "string \<Rightarrow> string \<Rightarrow> string \<Rightarrow> string \<Rightarrow> string \<Rightarrow> state_db \<Rightarrow> state_db result" where
  "add_claim_edge now project source target kind db =
     (if list_ex (\<lambda>e. ce_from_revision_id e = source \<and> ce_to_revision_id e = target \<and> ce_edge_type e = kind)
           (db_claim_edges db)
      then Inr db
      else
      map_ok (\<lambda>rows. db\<lparr>db_claim_edges := rows\<rparr>)
        (insert_into False ''claim_edges''
           (find_project db project \<noteq> None \<and> find_revision db source \<noteq> None \<and> find_revision db target \<noteq> None)
           \<lparr>ce_edge_id = next_rowid (db_claim_edges db), ce_project_id = project,
            ce_from_revision_id = source, ce_to_revision_id = target, ce_edge_type = kind,
            ce_created_at = now\<rparr> (db_claim_edges db)))"

definition revision_in_project :: "state_db \<Rightarrow> string \<Rightarrow> string \<Rightarrow> bool" where
  "revision_in_project db project revision \<longleftrightarrow>
     list_ex (\<lambda>r. rv_revision_id r = revision
        \<and> list_ex (\<lambda>c. cl_claim_id c = rv_claim_id r \<and> cl_project_id c = project) (db_claims db)) (db_revisions db)"

definition promote_dependency :: "string \<Rightarrow> string \<Rightarrow> string \<Rightarrow> bool \<Rightarrow> string \<Rightarrow> state_db \<Rightarrow> state_db result" where
  "promote_dependency now project revision with_facts dependency db =
     (if \<not> revision_in_project db project dependency
      then Inl (with_details (JObject [(''revision_id'', JString dependency)])
             (with_category Validation (error_new ''DEPENDENCY_NOT_IN_PROJECT'' msg_dependency)))
      else if with_facts then Inr db
      else add_claim_edge now project revision dependency ''depends_on'' db)"

definition promote_facts :: "string \<Rightarrow> state_db \<Rightarrow> string \<Rightarrow> string \<Rightarrow> string \<Rightarrow> fact_for_promotion list option \<Rightarrow>
    string option stored" where
  "promote_facts now db project run statement facts =
     (case facts of
        None \<Rightarrow> Inr (None, db)
      | Some fs \<Rightarrow>
          bind_r (insert_promoted_facts now db project run fs) (\<lambda>(fid, db).
          if normalize_sql (fp_statement_tex (last fs)) \<noteq> normalize_sql statement
          then Inl (with_category Validation (error_new ''FACT_TARGET_MISMATCH'' msg_fact_target))
          else map_ok (\<lambda>db. (Some fid, db)) (verify_matching_findings now db run fs)))"

text \<open>The transaction reads the active revision again: another connection may have changed it.
  It writes the revision, or the conflict it found.\<close>

datatype promotion_write = Conflicting "string option" | Written string

definition promote_revision :: "string \<Rightarrow> state_db \<Rightarrow> string \<Rightarrow> string \<Rightarrow> string \<Rightarrow> string option \<Rightarrow> string \<Rightarrow>
    string \<Rightarrow> string list \<Rightarrow> string list \<Rightarrow> fact_for_promotion list option \<Rightarrow> promotion_write stored" where
  "promote_revision now db run project claim expected statement proof_sha conditions dependencies facts =
     (let active = active_revision db claim; active_id = map_option rv_revision_id active in
      if active_id \<noteq> expected
      then Inr (Conflicting active_id,
             set_promotion now ''conflict'' (conflict_json expected active_id) run db)
      else
      let n = next_revision_number active; revision = revision_id_of claim n in
      bind_r (promote_facts now (supersede active db) project run statement facts) (\<lambda>(fid, db).
      bind_r (insert_revision
                \<lparr>rv_revision_id = revision, rv_claim_id = claim, rv_revision_number = n,
                 rv_statement_tex = statement,
                 rv_evidence_status = (if conditions = [] then ''VERIFIED'' else ''CONDITIONAL''),
                 rv_lifecycle_status = ''ACTIVE'', rv_source_run_id = Some run,
                 rv_proof_sha256 = Some proof_sha, rv_conditions = conditions,
                 rv_metadata = JObject [(''workflow_protocol_version'', JNumber (PosInt 2))],
                 rv_created_at = now, rv_fact_id = fid\<rparr> db) (\<lambda>db.
      bind_r (fold_r (promote_dependency now project revision (facts \<noteq> None)) dependencies db) (\<lambda>db.
      bind_r (case active of
                None \<Rightarrow> Inr db
              | Some a \<Rightarrow> add_claim_edge now project revision (rv_revision_id a) ''supersedes'' db) (\<lambda>db.
      Inr (Written revision, update_project_run run (\<lambda>p. p\<lparr>pj_promotion_status := ''promoted'',
             pj_promoted_revision_id := Some revision,
             pj_promotion := JObject [(''revision_id'', JString revision), (''status'', JString ''promoted'')],
             pj_updated_at := now\<rparr>) db))))))"

definition promote_run_inner :: "string \<Rightarrow> state_db \<Rightarrow> string \<Rightarrow> string \<Rightarrow> string \<Rightarrow> string \<Rightarrow> string list \<Rightarrow> json \<Rightarrow>
    fact_for_promotion list option \<Rightarrow> promotion_outcome stored" where
  "promote_run_inner now db run owner statement proof_sha conditions manifest facts =
     bind_r (get_project_run db run (Some owner)) (\<lambda>found.
     case found of
       None \<Rightarrow> Inr (NotRequested, db)
     | Some p \<Rightarrow>
         (case (if pj_register_result p then pj_target_claim_id p else None) of
            None \<Rightarrow> Inr (NotRequested,
              set_promotion now ''not_requested'' (JObject [(''status'', JString ''not_requested'')]) run db)
          | Some claim \<Rightarrow>
              (case pj_promoted_revision_id p of
                 Some revision \<Rightarrow>
                   bind_r (get_claim_revision db revision (Some owner)) (\<lambda>r. Inr (AlreadyPromoted r, db))
               | None \<Rightarrow>
                   bind_r (current_claim_revision db claim owner) (\<lambda>active.
                   let current_id = map_option rv_revision_id active; expected = pj_base_revision_id p in
                   if current_id \<noteq> expected
                   then Inr (PromotionConflict expected current_id,
                          set_promotion now ''conflict'' (conflict_json expected current_id) run db)
                   else
                   bind_r (promote_revision now db run (pj_project_id p) claim expected statement proof_sha
                             (promotion_conditions conditions) (manifest_dependencies manifest) facts) (\<lambda>(written, db).
                   case written of
                     Conflicting actual \<Rightarrow> Inr (PromotionConflict expected actual, db)
                   | Written revision \<Rightarrow>
                       bind_r (get_claim_revision db revision (Some owner)) (\<lambda>r. Inr (Promoted r, db)))))))"

definition promote_verified_run :: "string \<Rightarrow> state_db \<Rightarrow> string \<Rightarrow> string \<Rightarrow> string \<Rightarrow> string \<Rightarrow> string list \<Rightarrow>
    json \<Rightarrow> promotion_outcome stored" where
  "promote_verified_run now db run owner statement proof_sha conditions manifest =
     promote_run_inner now db run owner statement proof_sha conditions manifest None"

definition promote_verified_run_with_facts :: "string \<Rightarrow> state_db \<Rightarrow> string \<Rightarrow> string \<Rightarrow> string \<Rightarrow> string \<Rightarrow>
    string list \<Rightarrow> json \<Rightarrow> fact_for_promotion list \<Rightarrow> promotion_outcome stored" where
  "promote_verified_run_with_facts now db run owner statement proof_sha conditions manifest facts =
     promote_run_inner now db run owner statement proof_sha conditions manifest (Some facts)"

end
