(* ===== verification/Creation_Records.thy ===== *)
theory Creation_Records
  imports Store_Registry
begin

text \<open>
  The records a creation starts from (\<open>crates/mtm-storage/src/creation_records.rs\<close>): the run, its
  link to a project with a snapshot, and its references, written in one transaction. A digest of
  the rows and one of the material make the transaction repeatable: a second call with the same
  material finds the rows as they were or refuses.
\<close>

record creation_reference =
  rn_name :: string
  rn_content :: string
  rn_source :: string

record creation_material =
  cm_problem_id :: string
  cm_metadata :: json
  cm_project_id :: "string option"
  cm_target_claim_id :: "string option"
  cm_workflow_mode :: string
  cm_register_result :: bool
  cm_references :: "creation_reference list"

definition material_to_json :: "creation_material \<Rightarrow> json" where
  "material_to_json m = JObject
     [(''metadata'', cm_metadata m), (''problem_id'', JString (cm_problem_id m)),
      (''project_id'', json_opt_string (cm_project_id m)),
      (''references'', JArray (map (\<lambda>r. JObject [(''content'', JString (rn_content r)),
          (''name'', JString (rn_name r)), (''source'', JString (rn_source r))]) (cm_references m))),
      (''register_result'', JBool (cm_register_result m)),
      (''target_claim_id'', json_opt_string (cm_target_claim_id m)),
      (''workflow_mode'', JString (cm_workflow_mode m))]"

section \<open>The digest of the rows\<close>

definition run_to_json :: "run_row \<Rightarrow> json" where
  "run_to_json r = JObject
     [(''created_at'', JString (rr_created_at r)), (''epoch'', i64_json (rr_epoch r)),
      (''latex_passed'', JBool (rr_latex_passed r)), (''metadata'', rr_metadata r),
      (''owner_id'', JString (rr_owner_id r)), (''problem_id'', JString (rr_problem_id r)),
      (''round_index'', i64_json (rr_round_index r)), (''run_id'', JString (rr_run_id r)),
      (''sealed'', JBool (rr_sealed r)), (''state'', JString (rr_state r)),
      (''status'', JString (rr_status r)), (''transition_seq'', i64_json (rr_transition_seq r)),
      (''updated_at'', JString (rr_updated_at r)), (''verdict'', json_opt_string (rr_verdict r))]"

text \<open>The other tables are projected column by column, as they are stored.\<close>

definition project_run_to_json :: "token_codec \<Rightarrow> project_run_row \<Rightarrow> json" where
  "project_run_to_json k p = JObject
     [(''base_revision_id'', json_opt_string (pj_base_revision_id p)),
      (''created_at'', JString (pj_created_at p)),
      (''effective_workflow_mode'', JString (pj_effective_workflow_mode p)),
      (''project_id'', JString (pj_project_id p)),
      (''project_snapshot_id'', JString (pj_project_snapshot_id p)),
      (''promoted_revision_id'', json_opt_string (pj_promoted_revision_id p)),
      (''promotion_json'', JString (tk_print k (pj_promotion p))),
      (''promotion_status'', JString (pj_promotion_status p)),
      (''register_result'', JNumber (PosInt (if pj_register_result p then 1 else 0))),
      (''requested_workflow_mode'', JString (pj_requested_workflow_mode p)),
      (''run_id'', JString (pj_run_id p)),
      (''target_claim_id'', json_opt_string (pj_target_claim_id p)),
      (''updated_at'', JString (pj_updated_at p))]"

definition snapshot_to_json :: "token_codec \<Rightarrow> project_snapshot_row \<Rightarrow> json" where
  "snapshot_to_json k s = JObject
     [(''created_at'', JString (ps_created_at s)), (''owner_id'', JString (ps_owner_id s)),
      (''project_id'', JString (ps_project_id s)),
      (''revisions_json'', JString (tk_print k (ps_revisions s))),
      (''snapshot_id'', JString (ps_snapshot_id s)),
      (''snapshot_sha256'', JString (ps_snapshot_sha256 s))]"

definition reference_to_json :: "token_codec \<Rightarrow> reference_row \<Rightarrow> json" where
  "reference_to_json k r = JObject
     [(''arxiv_id'', JString (rf_arxiv_id r)), (''content_sha256'', JString (rf_content_sha256 r)),
      (''created_at'', JString (rf_created_at r)), (''doi'', JString (rf_doi r)),
      (''identity_key'', JString (rf_identity_key r)),
      (''metadata_json'', JString (tk_print k (rf_metadata r))),
      (''paper_id'', JString (rf_paper_id r)), (''project_id'', json_opt_string (rf_project_id r)),
      (''provider'', JString (rf_provider r)), (''reference_id'', JString (rf_reference_id r)),
      (''run_id'', JString (rf_run_id r)), (''source_sha256'', JString (rf_source_sha256 r)),
      (''source_state'', JString (rf_source_state r)), (''source_uri'', JString (rf_source_uri r)),
      (''theorem_id'', JString (rf_theorem_id r)), (''title'', JString (rf_title r)),
      (''updated_at'', JString (rf_updated_at r))]"

definition source_to_json :: "token_codec \<Rightarrow> source_snapshot_row \<Rightarrow> json" where
  "source_to_json k s = JObject
     [(''content_sha256'', JString (ss_content_sha256 s)), (''content_type'', JString (ss_content_type s)),
      (''created_at'', JString (ss_created_at s)),
      (''metadata_json'', JString (tk_print k (ss_metadata s))),
      (''provider'', JString (ss_provider s)), (''reference_id'', JString (ss_reference_id s)),
      (''source_snapshot_id'', JString (ss_source_snapshot_id s)), (''source_uri'', JString (ss_source_uri s))]"

definition bounded_items :: "json list \<Rightarrow> json result" where
  "bounded_items items = (if 129 < length items then Inl creation_invalid else Inr (JArray items))"

definition projection :: "token_codec \<Rightarrow> state_db \<Rightarrow> string \<Rightarrow> (string \<times> run_row) result" where
  "projection k db run =
     bind_r (ok_or (find_run db run) creation_invalid) (\<lambda>row.
     if rr_state row \<noteq> ''created'' \<or> rr_transition_seq row \<noteq> 0 \<or> rr_status row \<noteq> ''active''
     then Inl creation_invalid
     else
       let links = filter (\<lambda>p. pj_run_id p = run) (db_project_runs db);
           snapshots = filter (\<lambda>s. list_ex (\<lambda>p. pj_project_snapshot_id p = ps_snapshot_id s) links)
                         (db_project_snapshots db);
           references = sort_key rf_reference_id (filter (\<lambda>r. rf_run_id r = run) (db_references db));
           sources = sort_key ss_source_snapshot_id (filter (\<lambda>s.
                       list_ex (\<lambda>r. rf_reference_id r = ss_reference_id s) references) (db_source_snapshots db)) in
       bind_r (traverse_r bounded_items
          [map (project_run_to_json k) links, map (snapshot_to_json k) snapshots,
           map (reference_to_json k) references, map (source_to_json k) sources]) (\<lambda>tables.
       Inr (tk_sha256 k (tk_print k (JArray (run_to_json row # tables))), row)))"

section \<open>The records\<close>

definition prepare_project :: "token_codec \<Rightarrow> creation_material \<Rightarrow> creation_receipt_row \<Rightarrow> state_db \<Rightarrow>
    ((string \<times> string option) option \<times> state_db) result" where
  "prepare_project k m row db =
     (case cm_project_id m of
        None \<Rightarrow> Inr (None, db)
      | Some project \<Rightarrow>
          bind_r (ok_or (find_project db project) creation_invalid) (\<lambda>p.
          if pr_owner_id p \<noteq> cr_owner_id row then Inl creation_invalid
          else
          bind_r (case cm_target_claim_id m of
                    None \<Rightarrow> Inr None
                  | Some claim \<Rightarrow>
                      bind_r (ok_or (find_claim db claim) creation_invalid) (\<lambda>c.
                      if cl_project_id c \<noteq> project then Inl creation_invalid
                      else Inr (map_option rv_revision_id (active_revision db claim)))) (\<lambda>base.
          if 4096 < length (shown_revisions db project) then Inl creation_invalid
          else
            let revisions = JArray (map revision_to_json (shown_revisions db project));
                shown = tk_print k revisions; snapshot = ''ps-'' @ cr_execution_id row in
            if 8 * 1024 * 1024 < length shown then Inl creation_invalid
            else
            bind_r (insert_snapshot \<lparr>ps_snapshot_id = snapshot, ps_project_id = project,
                      ps_owner_id = cr_owner_id row, ps_revisions = revisions,
                      ps_snapshot_sha256 = tk_sha256 k shown, ps_created_at = cr_created_at row\<rparr> db) (\<lambda>db.
            Inr (Some (snapshot, base), db)))))"

definition inline_reference :: "token_codec \<Rightarrow> creation_material \<Rightarrow> creation_receipt_row \<Rightarrow> nat \<Rightarrow>
    creation_reference \<Rightarrow> reference_row" where
  "inline_reference k m row index r =
     (let digest = tk_sha256 k (rn_content r) in
      \<lparr>rf_reference_id = ''ref-'' @ cr_execution_id row @ ''-'' @ show_nat index, rf_run_id = cr_run_id row,
       rf_project_id = cm_project_id m, rf_identity_key = ''inline:'' @ rn_name r @ '':'' @ digest,
       rf_provider = ''inline'', rf_title = rn_name r, rf_paper_id = '''', rf_arxiv_id = '''', rf_doi = '''',
       rf_theorem_id = '''', rf_source_uri = rn_source r, rf_source_state = ''candidate'',
       rf_source_sha256 = digest, rf_content_sha256 = digest,
       rf_metadata = JObject [(''size'', JNumber (PosInt (length (rn_content r)))), (''vault_name'', JString (rn_name r))],
       rf_created_at = cr_created_at row, rf_updated_at = cr_created_at row\<rparr>)"

definition inline_source :: "token_codec \<Rightarrow> creation_receipt_row \<Rightarrow> nat \<Rightarrow> creation_reference \<Rightarrow> source_snapshot_row" where
  "inline_source k row index r =
     \<lparr>ss_source_snapshot_id = ''source-'' @ cr_execution_id row @ ''-'' @ show_nat index,
      ss_reference_id = ''ref-'' @ cr_execution_id row @ ''-'' @ show_nat index, ss_provider = ''inline'',
      ss_source_uri = rn_source r, ss_content_sha256 = tk_sha256 k (rn_content r),
      ss_content_type = ''text/plain'',
      ss_metadata = JObject [(''content'', JString (rn_content r)), (''vault_name'', JString (rn_name r))],
      ss_created_at = cr_created_at row\<rparr>"

definition insert_inline :: "token_codec \<Rightarrow> creation_material \<Rightarrow> creation_receipt_row \<Rightarrow> nat \<times> creation_reference \<Rightarrow>
    string list \<times> state_db \<Rightarrow> (string list \<times> state_db) result" where
  "insert_inline k m row entry st =
     (case (entry, st) of ((index, r), (names, db)) \<Rightarrow>
        if rn_name r \<in> set names then Inl creation_invalid
        else
        bind_r (insert_reference (inline_reference k m row index r) db) (\<lambda>db.
        bind_r (insert_source (inline_source k row index r) db) (\<lambda>db.
        Inr (rn_name r # names, db))))"

definition insert_references :: "token_codec \<Rightarrow> creation_material \<Rightarrow> creation_receipt_row \<Rightarrow> state_db \<Rightarrow> state_db result" where
  "insert_references k m row db =
     map_ok snd (fold_r (insert_inline k m row) (List.enumerate 0 (cm_references m)) ([], db))"

definition insert_created_run :: "creation_material \<Rightarrow> creation_receipt_row \<Rightarrow> string option \<Rightarrow> state_db \<Rightarrow> state_db result" where
  "insert_created_run m row snapshot db =
     (let metadata = JObject (bt_insert ''project_snapshot_id'' (json_opt_string snapshot)
                        (parse_object_or_empty (cm_metadata m))) in
      map_ok (\<lambda>rows. db\<lparr>db_runs := rows\<rparr>)
        (insert_into (find_run db (cr_run_id row) \<noteq> None) ''runs.run_id'' True
           (new_run (cr_run_id row) (cm_problem_id m) (cr_owner_id row) ''created'' metadata (cr_created_at row))
           (db_runs db)))"

definition msg_creation_database :: string where
  "msg_creation_database = ''Initialization database facts changed; no records were replaced.''"

definition write_creation :: "token_codec \<Rightarrow> creation_material \<Rightarrow> string \<Rightarrow> creation_receipt_row \<Rightarrow> state_db \<Rightarrow> run_row stored" where
  "write_creation k m material_hash row db =
     (let run = cr_run_id row in
      bind_r (prepare_project k m row db) (\<lambda>(project, db).
      bind_r (insert_created_run m row (map_option fst project) db) (\<lambda>db.
      bind_r (case (project, cm_project_id m) of
                (Some (snapshot, base), Some p) \<Rightarrow>
                  insert_project_run (new_project_run (cr_created_at row) run p snapshot (cm_target_claim_id m)
                    base (cm_workflow_mode m) (if cm_workflow_mode m = ''full'' then ''full'' else ''pending'')
                    (cm_register_result m)) db
              | _ \<Rightarrow> Inr db) (\<lambda>db.
      bind_r (insert_references k m row db) (\<lambda>db.
      bind_r (projection k db run) (\<lambda>(digest, created).
      let P = (\<lambda>i. ci_run_id i = run \<and> ci_database_sha256 i = None) in
      if matching P (db_initializations db) \<noteq> 1 then Inl creation_invalid
      else Inr (created, db\<lparr>db_initializations := update_rows P
             (\<lambda>i. i\<lparr>ci_material_sha256 := Some material_hash, ci_database_sha256 := Some digest\<rparr>)
             (db_initializations db)\<rparr>)))))))"

definition prepare_creation_records :: "token_codec \<Rightarrow> state_db \<Rightarrow> creation_receipt_row \<Rightarrow> creation_material \<Rightarrow> run_row stored" where
  "prepare_creation_records k db expected m =
     (let encoded = tk_print k (material_to_json m); run = cr_run_id expected in
      if 16 * 1024 * 1024 < length encoded \<or> 128 < length (cm_references m) \<or> \<not> is_object (cm_metadata m)
        \<or> \<not> validate_registry_id (cm_problem_id m) \<or> cm_workflow_mode m \<notin> {''auto'', ''compact'', ''full''}
        \<or> (cm_target_claim_id m \<noteq> None \<and> cm_project_id m = None)
      then Inl creation_invalid
      else
      let material_hash = tk_sha256 k encoded in
      bind_r (bind_r (find_creation db (cr_owner_id expected) (cr_key_sha256 expected)) (\<lambda>r. ok_or r creation_invalid)) (\<lambda>row.
      if cr_status row \<noteq> ''pending'' \<or> cr_run_id row \<noteq> run \<or> cr_execution_id row \<noteq> cr_execution_id expected
        \<or> cr_request_sha256 row \<noteq> cr_request_sha256 expected
        \<or> cr_workspace_sha256 row \<noteq> cr_workspace_sha256 expected
      then Inl creation_invalid
      else
      bind_r (ok_or (find (\<lambda>i. ci_run_id i = run) (db_initializations db)) creation_invalid) (\<lambda>ck.
      case ci_database_sha256 ck of
        Some saved \<Rightarrow>
          if ci_material_sha256 ck \<noteq> Some material_hash
          then Inl (creation_conflict ''CREATION_DATABASE_CONFLICT'' msg_creation_database)
          else
          bind_r (projection k db run) (\<lambda>(digest, created).
          if digest \<noteq> saved then Inl (creation_conflict ''CREATION_DATABASE_CONFLICT'' msg_creation_database)
          else Inr (created, db))
      | None \<Rightarrow>
          if find_run db run \<noteq> None \<or> ci_material_sha256 ck \<noteq> None then Inl creation_invalid
          else write_creation k m material_hash row db)))"

end
