(* ===== verification/Store_Frames.thy ===== *)
theory Store_Frames
  imports Store_Steps Fact_Memory Creation_Records
begin

text \<open>
  The operations of the registry, the fact memory and the creation records leave the tables of the
  protocol alone, except for the run a creation inserts.
\<close>

section \<open>The registry\<close>

lemma protocol_of_registry [protocol_simps]:
  "protocol_of (db\<lparr>db_projects := a\<rparr>) = protocol_of db"
  "protocol_of (db\<lparr>db_claims := b\<rparr>) = protocol_of db"
  "protocol_of (db\<lparr>db_revisions := c\<rparr>) = protocol_of db"
  "protocol_of (db\<lparr>db_claim_edges := d\<rparr>) = protocol_of db"
  "protocol_of (db\<lparr>db_project_snapshots := e\<rparr>) = protocol_of db"
  "protocol_of (db\<lparr>db_references := f\<rparr>) = protocol_of db"
  "protocol_of (db\<lparr>db_source_snapshots := g\<rparr>) = protocol_of db"
  "protocol_of (db\<lparr>db_facts := h\<rparr>) = protocol_of db"
  "protocol_of (db\<lparr>db_fact_edges := i\<rparr>) = protocol_of db"
  "protocol_of (db\<lparr>db_revocations := j\<rparr>) = protocol_of db"
  "protocol_of (db\<lparr>db_findings := k\<rparr>) = protocol_of db"
  "protocol_of (db\<lparr>db_finding_status := l\<rparr>) = protocol_of db"
  by (simp_all add: protocol_of_def)

lemma fold_r_same:
  assumes "fold_r f xs s = Inr s'" "\<And>x s s'. f x s = Inr s' \<Longrightarrow> R s' = R s"
  shows "R s' = R s"
  using assms(1)
proof (induction xs arbitrary: s)
  case (Cons x xs)
  then show ?case using assms(2) by (auto simp: bind_r_eq_Inr)
qed simp

lemma create_project_same:
  assumes "create_project now fresh db owner title project metadata = Inr (p, db')"
  shows "protocol_of db' = protocol_of db"
  using assms unfolding create_project_def Let_def
  by (auto simp: bind_r_eq_Inr protocol_simps split: if_splits sum.splits)

lemma create_claim_same:
  assumes "create_claim now fresh db owner project title claim metadata = Inr (c, db')"
  shows "protocol_of db' = protocol_of db"
  using assms unfolding create_claim_def Let_def
  by (auto simp: bind_r_eq_Inr protocol_simps split: if_splits sum.splits)

lemma insert_revision_same: "insert_revision row db = Inr db' \<Longrightarrow> protocol_of db' = protocol_of db"
  by (auto simp: insert_revision_def protocol_simps split: if_splits)

lemma supersede_same [protocol_simps]: "protocol_of (supersede active db) = protocol_of db"
  by (simp add: supersede_def protocol_simps split: option.splits)

lemma create_open_claim_revision_same:
  assumes "create_open_claim_revision now db owner claim statement conditions base = Inr (r, db')"
  shows "protocol_of db' = protocol_of db"
  using assms unfolding create_open_claim_revision_def Let_def
  by (auto simp: bind_r_eq_Inr protocol_simps dest!: insert_revision_same split: if_splits)

lemma insert_snapshot_same: "insert_snapshot row db = Inr db' \<Longrightarrow> protocol_of db' = protocol_of db"
  by (auto simp: insert_snapshot_def protocol_simps)

lemma create_project_snapshot_same:
  assumes "create_project_snapshot k now fresh db project owner = Inr (s, db')"
  shows "protocol_of db' = protocol_of db"
  using assms unfolding create_project_snapshot_def Let_def
  by (auto simp: bind_r_eq_Inr dest!: insert_snapshot_same)

lemma insert_project_run_same: "insert_project_run row db = Inr db' \<Longrightarrow> protocol_of db' = protocol_of db"
  by (auto simp: insert_project_run_def protocol_simps)

lemma link_run_to_project_same:
  assumes "link_run_to_project now db run owner project snapshot target base requested effective register = Inr (p, db')"
  shows "protocol_of db' = protocol_of db"
  using assms unfolding link_run_to_project_def
  by (auto simp: bind_r_eq_Inr dest!: insert_project_run_same)

lemma set_project_run_mode_same:
  "set_project_run_mode now db run mode = Inr (u, db') \<Longrightarrow> protocol_of db' = protocol_of db"
  by (auto simp: set_project_run_mode_def protocol_simps)

lemma write_proof_manifest_same:
  "write_proof_manifest k now db run manifest = Inr (m, db') \<Longrightarrow> protocol_of db' = protocol_of db"
  by (auto simp: write_proof_manifest_def Let_def dest!: manifest_on_same)

lemma insert_reference_same: "insert_reference row db = Inr db' \<Longrightarrow> protocol_of db' = protocol_of db"
  by (auto simp: insert_reference_def protocol_simps split: if_splits)

lemma register_reference_same:
  assumes "register_reference now fresh db described = Inr (r, db')"
  shows "protocol_of db' = protocol_of db"
  using assms unfolding register_reference_def Let_def
  by (auto simp: bind_r_eq_Inr dest!: insert_reference_same split: option.splits)

lemma insert_source_same: "insert_source row db = Inr db' \<Longrightarrow> protocol_of db' = protocol_of db"
  by (auto simp: insert_source_def protocol_simps)

lemma create_source_snapshot_same:
  assumes "create_source_snapshot k now fresh db reference provider uri content content_type metadata = Inr (s, db')"
  shows "protocol_of db' = protocol_of db"
  using assms unfolding create_source_snapshot_def Let_def
  by (auto simp: bind_r_eq_Inr protocol_simps dest!: insert_source_same)

lemma write_reference_audit_same:
  assumes "write_reference_audit now db run a = Inr (r, db')"
  shows "protocol_of db' = protocol_of db"
  using assms unfolding write_reference_audit_def
  by (auto simp: bind_r_eq_Inr dest!: audit_on_same split: if_splits)

section \<open>The fact memory\<close>

lemma insert_fact_edge_same: "insert_fact_edge fid p db = Inr db' \<Longrightarrow> protocol_of db' = protocol_of db"
  by (auto simp: insert_fact_edge_def protocol_simps split: if_splits)

lemma insert_new_fact_same: "insert_new_fact now project run f db = Inr db' \<Longrightarrow> protocol_of db' = protocol_of db"
  unfolding insert_new_fact_def
  by (auto simp: bind_r_eq_Inr protocol_simps dest!: fold_r_same [where R = protocol_of, OF _ insert_fact_edge_same])

lemma promote_fact_same:
  assumes "promote_fact now project run f st = Inr st'"
  shows "protocol_of (snd st') = protocol_of (snd st)"
  using assms unfolding promote_fact_def
  by (auto simp: bind_r_eq_Inr dest!: insert_new_fact_same split: prod.splits if_splits option.splits)

lemma insert_promoted_facts_same:
  assumes "insert_promoted_facts now db project run facts = Inr (fid, db')"
  shows "protocol_of db' = protocol_of db"
  using assms fold_r_same [where R = "protocol_of \<circ> snd" and f = "promote_fact now project run" and s = "([], db)"]
    promote_fact_same
  unfolding insert_promoted_facts_def by (fastforce simp: bind_r_eq_Inr split: if_splits)

lemma insert_status_same: "insert_status now finding status fid db = Inr db' \<Longrightarrow> protocol_of db' = protocol_of db"
  by (auto simp: insert_status_def Let_def protocol_simps)

lemma verify_matching_findings_same:
  assumes "verify_matching_findings now db run facts = Inr db'"
  shows "protocol_of db' = protocol_of db"
proof -
  have "verify_finding now facts f db = Inr db' \<Longrightarrow> protocol_of db' = protocol_of db" for f db db'
    by (auto simp: verify_finding_def dest!: insert_status_same split: option.splits if_splits)
  then show ?thesis using assms unfolding verify_matching_findings_def by (rule fold_r_same [rotated]) blast
qed

lemma insert_project_findings_same:
  assumes "insert_project_findings now db project run owner findings = Inr (u, db')"
  shows "protocol_of db' = protocol_of db"
proof -
  have one: "insert_finding now project run f db = Inr db' \<Longrightarrow> protocol_of db' = protocol_of db" for f db db'
    by (auto simp: insert_finding_def Let_def bind_r_eq_Inr protocol_simps split: if_splits)
  show ?thesis using assms unfolding insert_project_findings_def
    by (auto simp: bind_r_eq_Inr dest!: fold_r_same [where R = protocol_of, OF _ one] split: if_splits)
qed

lemma revoke_fact_same:
  assumes "revoke_fact now actor reason fid st = Inr st'"
  shows "protocol_of (snd st') = protocol_of (snd st)"
proof -
  have one: "revoke_finding now finding db = Inr db' \<Longrightarrow> protocol_of db' = protocol_of db" for finding db db'
    by (simp add: revoke_finding_def insert_status_same)
  show ?thesis using assms unfolding revoke_fact_def Let_def
    by (auto simp: bind_r_eq_Inr protocol_simps dest!: fold_r_same [where R = protocol_of, OF _ one]
        split: prod.splits if_splits)
qed

lemma revoke_project_fact_same:
  assumes "revoke_project_fact now db fid actor reason = Inr (r, db')"
  shows "protocol_of db' = protocol_of db"
  using assms fold_r_same [where R = "protocol_of \<circ> snd" and f = "revoke_fact now actor reason" and s = "([], db)"]
    revoke_fact_same
  unfolding revoke_project_fact_def Let_def by (fastforce simp: bind_r_eq_Inr split: if_splits)

lemma promote_dependency_same:
  "promote_dependency now project revision with_facts dependency db = Inr db' \<Longrightarrow> protocol_of db' = protocol_of db"
  by (auto simp: promote_dependency_def add_claim_edge_def protocol_simps split: if_splits)

lemma add_claim_edge_same:
  "add_claim_edge now project source target kind db = Inr db' \<Longrightarrow> protocol_of db' = protocol_of db"
  by (auto simp: add_claim_edge_def protocol_simps split: if_splits)

lemma promote_facts_same:
  "promote_facts now db project run statement facts = Inr (fid, db') \<Longrightarrow> protocol_of db' = protocol_of db"
  by (auto simp: promote_facts_def bind_r_eq_Inr split: option.splits if_splits
      dest!: insert_promoted_facts_same verify_matching_findings_same)

lemma set_promotion_same [protocol_simps]:
  "protocol_of (update_project_run run f db) = protocol_of db"
  "protocol_of (set_promotion now status promotion run db) = protocol_of db"
  by (simp_all add: set_promotion_def update_project_run_def protocol_simps)

lemma promote_revision_same:
  assumes "promote_revision now db run project claim expected statement sha conditions dependencies facts = Inr (w, db')"
  shows "protocol_of db' = protocol_of db"
  using assms unfolding promote_revision_def Let_def
  by (auto simp: bind_r_eq_Inr protocol_simps split: if_splits option.splits
      dest!: promote_facts_same insert_revision_same add_claim_edge_same
        fold_r_same [where R = protocol_of, OF _ promote_dependency_same])

lemma promote_run_inner_same:
  assumes "promote_run_inner now db run owner statement sha conditions manifest facts = Inr (x, db')"
  shows "protocol_of db' = protocol_of db"
  using assms unfolding promote_run_inner_def Let_def
  apply (elim take_apart)
  subgoal premises p for found
    using p(2)
    by (auto simp: bind_r_eq_Inr protocol_simps split: if_splits option.splits promotion_write.splits)
      (metis promote_revision_same promotion_write.exhaust)
  done

section \<open>The records of a creation\<close>

lemma prepare_project_same:
  "prepare_project k m row db = Inr (p, db') \<Longrightarrow> protocol_of db' = protocol_of db"
  unfolding prepare_project_def Let_def
  by (auto simp: bind_r_eq_Inr split: option.splits if_splits dest!: insert_snapshot_same)

lemma insert_references_same:
  assumes "insert_references k m row db = Inr db'"
  shows "protocol_of db' = protocol_of db"
proof -
  have one: "insert_inline k m row entry st = Inr st' \<Longrightarrow> protocol_of (snd st') = protocol_of (snd st)" for entry st st'
    by (auto simp: insert_inline_def bind_r_eq_Inr split: prod.splits if_splits
        dest!: insert_reference_same insert_source_same)
  show ?thesis using assms fold_r_same [where R = "protocol_of \<circ> snd" and s = "([], db)", OF _ ] one
    unfolding insert_references_def by (fastforce simp: map_ok_eq_Inr)
qed

lemma insert_created_run_evolves:
  assumes "insert_created_run m row snapshot db = Inr db'"
  shows "evolves db db'"
proof -
  let ?row = "new_run (cr_run_id row) (cm_problem_id m) (cr_owner_id row) ''created''
    (JObject (bt_insert ''project_snapshot_id'' (json_opt_string snapshot) (parse_object_or_empty (cm_metadata m))))
    (cr_created_at row)"
  have "find_run db (cr_run_id row) = None" and db': "db' = db\<lparr>db_runs := db_runs db @ [?row]\<rparr>"
    using assms by (auto simp: insert_created_run_def)
  then have "cr_run_id row \<notin> rr_run_id ` set (db_runs db)" by (auto simp: find_run_def find_key_None)
  then show ?thesis unfolding db'
    using protocol_move.new_run [of ?row "protocol_of db"]
    by (intro evolves_move) (simp add: protocol_simps new_run_def)
qed

lemma write_creation_evolves:
  assumes "write_creation k m h row db = Inr (r, db')"
  shows "evolves db db'"
  using assms unfolding write_creation_def Let_def
  apply (elim take_apart)
  subgoal premises p for pr project db1 db2 db3 db4 dg digest created
  proof -
    have "evolves db db1" using prepare_project_same p(1,2) by (intro evolves_same) simp
    moreover have "evolves db1 db2" using p(3) by (rule insert_created_run_evolves)
    moreover have "evolves db2 db3" using p(7) insert_project_run_same
      by (intro evolves_same) (auto split: option.splits prod.splits)
    moreover have "evolves db3 db4" using p(4) insert_references_same by (intro evolves_same) blast
    moreover have "evolves db4 db'" using p(10) by (intro evolves_same) (auto simp: protocol_simps)
    ultimately show ?thesis by (meson evolves_trans)
  qed
  done

lemma prepare_creation_records_evolves:
  assumes "prepare_creation_records k db expected m = Inr (r, db')"
  shows "evolves db db'"
  using assms unfolding prepare_creation_records_def Let_def
  by (auto simp: bind_r_eq_Inr split: if_splits option.splits dest: write_creation_evolves)

end
