(* ===== verification/Store_System.thy ===== *)
theory Store_System
  imports Store_Frames
begin

text \<open>
  The databases the program can reach: from the empty one, by any sequence of the operations of the
  store with any arguments, clocks and identifiers, one operation after the other. An execution id
  drawn for a reservation is not the trace of a recorded transition (the program draws 128 random
  bits for it).

  Most operations are one transaction. A few read before it (\<open>issue\<close> reads the run and the domain,
  \<open>promote_run_inner\<close> the active revision): that no other connection writes in between is assumed
  here. \<open>validate\<close> and \<open>recheck_authority\<close> read epoch, state and domain again, so what they accept
  does not rest on that.

  Every operation evolves the protocol, so the invariant of \<open>Store_Protocol\<close> holds of every reachable
  database, and what \<open>protocol_keeps\<close> lists survives every later operation.
\<close>

inductive store_step :: "token_codec \<Rightarrow> string \<Rightarrow> state_db \<Rightarrow> state_db \<Rightarrow> bool" where
  step_create_run: "create_run now db run problem owner st metadata = Inr (x, db') \<Longrightarrow>
     store_step k secret db db'"
| step_update_run_metadata: "update_run_metadata now db run updates = Inr (x, db') \<Longrightarrow>
     store_step k secret db db'"
| step_create_domain: "create_domain now db domain run role snapshot order_index metadata = Inr (x, db') \<Longrightarrow>
     store_step k secret db db'"
| step_seal_domain: "seal_domain now db domain = Inr (x, db') \<Longrightarrow>
     store_step k secret db db'"
| step_create_branch: "create_branch now db branch run plan domain snapshot order_index metadata = Inr (x, db') \<Longrightarrow>
     store_step k secret db db'"
| step_update_branch_status: "update_branch_status now db branch status path = Inr (x, db') \<Longrightarrow>
     store_step k secret db db'"
| step_add_steering: "add_steering now db run owner note = Inr (x, db') \<Longrightarrow>
     store_step k secret db db'"
| step_consume_steering: "consume_steering now db run limit = Inr (x, db') \<Longrightarrow>
     store_step k secret db db'"
| step_issue: "issue k secret default_ttl now nonce db run domain role permissions trace ttl = Inr (x, db') \<Longrightarrow>
     store_step k secret db db'"
| step_revoke: "revoke k secret now db token why trace = Inr (x, db') \<Longrightarrow>
     store_step k secret db db'"
| step_reserve_submission: "reserve_submission now unix execution db auth workspace request = Inr (x, db') \<Longrightarrow>
     execution \<notin> tr_trace_id ` set (db_transitions db) \<Longrightarrow>
     store_step k secret db db'"
| step_activate_submission: "activate_submission unix db reservation auth writes = Inr (x, db') \<Longrightarrow>
     store_step k secret db db'"
| step_checkpoint_submission_write: "checkpoint_submission_write db ex accepted = Inr (x, db') \<Longrightarrow>
     store_step k secret db db'"
| step_begin_submission_write: "begin_submission_write unix db ex index evidence = Inr (x, db') \<Longrightarrow>
     store_step k secret db db'"
| step_arm_submission_commit: "arm_submission_commit db ex = Inr (x, db') \<Longrightarrow>
     store_step k secret db db'"
| step_record_submission_outcome: "record_submission_outcome now db reservation r = Inr (x, db') \<Longrightarrow>
     store_step k secret db db'"
| step_reconcile_unstarted_submission: "reconcile_unstarted_submission now db receipt = Inr (x, db') \<Longrightarrow>
     store_step k secret db db'"
| step_reconcile_caller_writes: "reconcile_caller_writes now db recovery observed = Inr (x, db') \<Longrightarrow>
     store_step k secret db db'"
| step_enroll_atomic_action: "enroll_atomic_action unix db c trace kind = Inr (x, db') \<Longrightarrow>
     store_step k secret db db'"
| step_enroll_restartable_action: "enroll_restartable_action unix db c trace action = Inr (x, db') \<Longrightarrow>
     store_step k secret db db'"
| step_write_submission_proof_manifest: "write_submission_proof_manifest k now unix db ex index manifest = Inr (x, db') \<Longrightarrow>
     store_step k secret db db'"
| step_write_submission_reference_audit: "write_submission_reference_audit now unix db ex index audit = Inr (x, db') \<Longrightarrow>
     store_step k secret db db'"
| step_transition_run: "transition_run now db t = Inr (x, db') \<Longrightarrow>
     store_step k secret db db'"
| step_transition_task: "transition_task k now unix db c task = Inr (x, db') \<Longrightarrow>
     store_step k secret db db'"
| step_complete_latex_gate: "complete_latex_gate now db t expected result = Inr (x, db') \<Longrightarrow>
     store_step k secret db db'"
| step_complete_branch_preparation: "complete_branch_preparation now db p = Inr (x, db') \<Longrightarrow>
     store_step k secret db db'"
| step_reserve_creation: "reserve_creation now execution db owner identity proposed = Inr (x, db') \<Longrightarrow>
     store_step k secret db db'"
| step_prepare_creation_records: "prepare_creation_records k db expected m = Inr (x, db') \<Longrightarrow>
     store_step k secret db db'"
| step_create_project: "create_project now fresh db owner title project metadata = Inr (x, db') \<Longrightarrow>
     store_step k secret db db'"
| step_create_claim: "create_claim now fresh db owner project title claim metadata = Inr (x, db') \<Longrightarrow>
     store_step k secret db db'"
| step_create_open_claim_revision: "create_open_claim_revision now db owner claim statement conditions base = Inr (x, db') \<Longrightarrow>
     store_step k secret db db'"
| step_create_project_snapshot: "create_project_snapshot k now fresh db project owner = Inr (x, db') \<Longrightarrow>
     store_step k secret db db'"
| step_link_run_to_project: "link_run_to_project now db run owner project snapshot target base requested effective register = Inr (x, db') \<Longrightarrow>
     store_step k secret db db'"
| step_set_project_run_mode: "set_project_run_mode now db run mode = Inr (x, db') \<Longrightarrow>
     store_step k secret db db'"
| step_write_proof_manifest: "write_proof_manifest k now db run manifest = Inr (x, db') \<Longrightarrow>
     store_step k secret db db'"
| step_register_reference: "register_reference now fresh db described = Inr (x, db') \<Longrightarrow>
     store_step k secret db db'"
| step_create_source_snapshot: "create_source_snapshot k now fresh db reference provider uri content content_type metadata = Inr (x, db') \<Longrightarrow>
     store_step k secret db db'"
| step_write_reference_audit: "write_reference_audit now db run audit = Inr (x, db') \<Longrightarrow>
     store_step k secret db db'"
| step_insert_project_findings: "insert_project_findings now db project run owner findings = Inr (x, db') \<Longrightarrow>
     store_step k secret db db'"
| step_revoke_project_fact: "revoke_project_fact now db fid actor why = Inr (x, db') \<Longrightarrow>
     store_step k secret db db'"
| step_promote_run_inner: "promote_run_inner now db run owner statement sha conditions manifest facts = Inr (x, db') \<Longrightarrow>
     store_step k secret db db'"

lemma submission_writes_evolve:
  "write_submission_proof_manifest k now unix db ex index manifest = Inr (x, db') \<Longrightarrow> evolves db db'"
  "write_submission_reference_audit now unix db ex index a = Inr (y, db') \<Longrightarrow> evolves db db'"
  unfolding write_submission_proof_manifest_def write_submission_reference_audit_def Let_def
  by (auto split: if_splits simp: bind_r_eq_Inr elim!: database_submission_evolves
      dest!: manifest_on_same audit_on_same)

lemmas operation_evolves =
  create_run_evolves update_run_metadata_evolves create_domain_evolves seal_domain_evolves
  create_branch_evolves update_branch_status_evolves add_steering_evolves consume_steering_evolves
  issue_evolves revoke_evolves reserve_submission_evolves activate_submission_evolves
  checkpoint_submission_write_evolves begin_submission_write_evolves arm_submission_commit_evolves
  record_submission_outcome_evolves reconcile_unstarted_evolves reconcile_caller_writes_evolves
  enroll_atomic_action_evolves enroll_restartable_action_evolves submission_writes_evolve
  transition_on_evolves [folded transition_run_def] transition_task_evolves
  complete_latex_gate_evolves complete_branch_preparation_evolves reserve_creation_evolves
  prepare_creation_records_evolves

lemmas registry_same =
  create_project_same create_claim_same create_open_claim_revision_same create_project_snapshot_same
  link_run_to_project_same set_project_run_mode_same write_proof_manifest_same register_reference_same
  create_source_snapshot_same write_reference_audit_same insert_project_findings_same
  revoke_project_fact_same promote_run_inner_same

lemma store_step_evolves: "store_step k secret db db' \<Longrightarrow> evolves db db'"
  by (induction rule: store_step.induct)
    ((rule operation_evolves registry_same [THEN evolves_same]; assumption)+)

definition reachable :: "token_codec \<Rightarrow> string \<Rightarrow> state_db \<Rightarrow> bool" where
  "reachable k secret db \<longleftrightarrow> (store_step k secret)\<^sup>*\<^sup>* empty_db db"

lemma steps_evolve: "(store_step k secret)\<^sup>*\<^sup>* db db' \<Longrightarrow> evolves db db'"
  by (induction rule: rtranclp_induct) (auto dest: store_step_evolves intro: evolves_trans)

lemma empty_db_good: "protocol_inv (protocol_of empty_db)"
  by (simp add: protocol_inv_def keys_ok_def rows_ok_def once_ok_def protocol_of_def empty_db_def)

lemma reachable_good: "reachable k secret db \<Longrightarrow> protocol_inv (protocol_of db)"
  unfolding reachable_def using steps_evolve evolves_good empty_db_good by blast

lemma reachable_step: "reachable k secret db \<Longrightarrow> store_step k secret db db' \<Longrightarrow> reachable k secret db'"
  unfolding reachable_def by (rule rtranclp.rtrancl_into_rtrancl)

lemma steps_keep:
  assumes "reachable k secret db" "(store_step k secret)\<^sup>*\<^sup>* db db'"
  shows "protocol_keeps (protocol_of db) (protocol_of db')"
  using steps_evolve [OF assms(2)] reachable_good [OF assms(1)] store.keeps_moves
  by (auto simp: evolves_def)

end
