(* ===== verification/Capability_Checks.thy ===== *)
theory Capability_Checks
  imports Capability
begin

text \<open>
  What a validated capability means: \<open>capability_grants\<close> says when a request is allowed, without the
  order of the checks and their errors, and \<open>validate\<close> is shown to decide it. A token fresh from
  \<open>issue\<close> is granted what its permissions say.
\<close>

section \<open>The specification\<close>

text \<open>A token is a body and its signature around a dot, and the body is the payload.\<close>

definition signed_payload :: "token_codec \<Rightarrow> string \<Rightarrow> string \<Rightarrow> json \<Rightarrow> bool" where
  "signed_payload k secret token payload \<longleftrightarrow>
     valid_token_shape token
     \<and> (\<exists>body signature bytes. token = body @ CHR ''.'' # signature \<and> CHR ''.'' \<notin> set body
          \<and> tk_decode k signature = Some (tk_mac k secret body)
          \<and> tk_decode k body = Some bytes \<and> tk_parse k bytes = Some payload)"

definition registered :: "int \<Rightarrow> state_db \<Rightarrow> capability_claims \<Rightarrow> bool" where
  "registered now db c \<longleftrightarrow>
     (\<exists>row. find_capability db (ca_nonce c) = Some row \<and> record_matches_claims row c
        \<and> \<not> cp_revoked row \<and> now \<le> ca_expires_at c)"

definition current_run :: "string \<Rightarrow> state_db \<Rightarrow> capability_claims \<Rightarrow> bool" where
  "current_run owner db c \<longleftrightarrow>
     (\<exists>run. find_run db (ca_run_id c) = Some run \<and> ca_owner_id c = owner \<and> rr_owner_id run = owner
        \<and> rr_epoch run = ca_epoch c \<and> rr_state run = state_as_str (ca_issued_state c))"

definition permitted :: "state_db \<Rightarrow> capability_claims \<Rightarrow> string \<Rightarrow> string \<Rightarrow> bool" where
  "permitted db c action resource \<longleftrightarrow>
     (\<exists>d. find_domain db (ca_domain_id c) = Some d \<and> dm_status d = ''open''
        \<and> dm_run_id d = ca_run_id c \<and> dm_role d = role_as_str (ca_role c)
        \<and> (\<exists>p. p \<in> set (ca_permissions c) \<and> globs p (action @ '':'' @ resource))
        \<and> authorize_role_resource (ca_role c) (ca_issued_state c) action resource (dm_metadata d) = Inr ())"

definition capability_grants :: "token_codec \<Rightarrow> string \<Rightarrow> int \<Rightarrow> state_db \<Rightarrow> string \<Rightarrow> string \<Rightarrow> string \<Rightarrow>
    string \<Rightarrow> string option \<Rightarrow> capability_claims \<Rightarrow> bool" where
  "capability_grants k secret now db token owner action resource expected_run c \<longleftrightarrow>
     (\<exists>payload. signed_payload k secret token payload \<and> claims_from_payload payload = Inr c)
     \<and> expected_run \<in> {None, Some (ca_run_id c)}
     \<and> registered now db c \<and> current_run owner db c \<and> permitted db c action resource"

section \<open>The checks decide it\<close>

lemma ok_or_Inr: "ok_or x e = Inr y \<longleftrightarrow> x = Some y"
  by (cases x) auto

lemma split_once_iff: "split_once c s = Some (a, b) \<longleftrightarrow> s = a @ c # b \<and> c \<notin> set a"
proof
  assume "s = a @ c # b \<and> c \<notin> set a"
  then show "split_once c s = Some (a, b)" by (induction a arbitrary: s) auto
qed (rule split_once_Some)

text \<open>The version and the shape of the payload are checked twice: by the decoder and with the
  other fields.\<close>

lemma claims_version:
  assumes "claims_from_payload payload = Inr c"
  shows "Option.bind (json_get payload ''v'') as_i64 = Some 1" "is_object payload"
proof -
  obtain obj where obj: "payload = JObject obj"
    using assms unfolding claims_from_payload_def by (cases payload) auto
  then show "is_object payload" by (simp add: is_object_iff)
  have "Option.bind (obj_get obj ''v'') as_i64 = Some 1"
    using assms unfolding claims_from_payload_def obj
    by (elim bind_rE guard_InrE) (simp_all add: ok_or_Inr)
  then show "Option.bind (json_get payload ''v'') as_i64 = Some 1" by (simp add: obj)
qed

lemma decode_token_iff:
  assumes "claims_from_payload payload = Inr c"
  shows "decode_token k secret token = Inr payload \<longleftrightarrow> signed_payload k secret token payload"
proof
  assume "decode_token k secret token = Inr payload"
  then show "signed_payload k secret token payload"
    unfolding decode_token_def signed_payload_def
    by (elim bind_rE guard_InrE case_prod_InrE) (auto simp: ok_or_Inr split_once_iff)
next
  assume "signed_payload k secret token payload"
  then obtain body signature bytes where
      "valid_token_shape token" "split_once (CHR ''.'') token = Some (body, signature)"
      "tk_decode k signature = Some (tk_mac k secret body)"
      "tk_decode k body = Some bytes" "tk_parse k bytes = Some payload"
    unfolding signed_payload_def split_once_iff by blast
  then show "decode_token k secret token = Inr payload"
    using claims_version [OF assms] by (simp add: decode_token_def)
qed

lemma validate_record_iff: "validate_record now db c = Inr () \<longleftrightarrow> registered now db c"
proof (cases "find_capability db (ca_nonce c)")
  case (Some row)
  have "record_matches_claims row c \<Longrightarrow> cp_expires_at row = ca_expires_at c" by (simp add: record_matches_claims_def)
  then show ?thesis using Some by (auto simp: validate_record_def registered_def get_capability_def)
qed (simp add: validate_record_def registered_def get_capability_def)

lemma parse_workflow_state_iff: "parse_workflow_state run = Inr st \<longleftrightarrow> rr_state run = state_as_str st"
  by (auto simp: parse_workflow_state_def parse_state_def ok_or_Inr state.parse_iff)

lemma validate_run_iff:
  "validate_run owner db c = Inr st \<longleftrightarrow> current_run owner db c \<and> st = ca_issued_state c"
proof (cases "find_run db (ca_run_id c)")
  case (Some run)
  have "parse_workflow_state run = Inr (ca_issued_state c) \<longleftrightarrow> rr_state run = state_as_str (ca_issued_state c)"
    by (rule parse_workflow_state_iff)
  then show ?thesis using Some
    by (cases "parse_workflow_state run") (auto simp: validate_run_def current_run_def get_run_def)
qed (simp add: validate_run_def current_run_def get_run_def)

lemma validate_access_iff:
  "validate_access db c (ca_issued_state c) action resource = Inr () \<longleftrightarrow> permitted db c action resource"
proof (cases "find_domain db (ca_domain_id c)")
  case (Some d)
  then show ?thesis
    by (auto simp: validate_access_def permitted_def get_domain_def wildcard_match_iff list_ex_iff)
qed (simp add: validate_access_def permitted_def get_domain_def)

lemma validate_inner_iff:
  "validate_inner k secret now db token owner action resource expected_run = Inr c
   \<longleftrightarrow> capability_grants k secret now db token owner action resource expected_run c"
proof -
  have "validate_inner k secret now db token owner action resource expected_run = Inr c
    \<longleftrightarrow> (\<exists>payload. decode_token k secret token = Inr payload \<and> claims_from_payload payload = Inr c)
     \<and> expected_run \<in> {None, Some (ca_run_id c)} \<and> validate_record now db c = Inr ()
     \<and> (\<exists>st. validate_run owner db c = Inr st \<and> validate_access db c st action resource = Inr ())"
    by (cases expected_run) (auto simp: validate_inner_def bind_r_eq_Inr)
  moreover have "(\<exists>payload. decode_token k secret token = Inr payload \<and> claims_from_payload payload = Inr c)
    \<longleftrightarrow> (\<exists>payload. signed_payload k secret token payload \<and> claims_from_payload payload = Inr c)"
    using decode_token_iff by metis
  ultimately show ?thesis
    by (simp add: capability_grants_def validate_record_iff validate_run_iff validate_access_iff)
qed

text \<open>
  C33. A request with a token is allowed exactly when the token is the signed encoding of claims that
  name the expected run, the claims are those of a registered capability that is neither revoked nor
  expired, the run is the principal's, in the epoch and the state the claims name, and the domain is
  open, of that run and role, with a permission whose wildcard pattern covers the action on the
  resource and no rule of the role against it. The order of the checks does not matter for that.
\<close>

theorem validate_exact:
  "fst (validate k secret now db token owner action resource trace expected_run) = Inr c
   \<longleftrightarrow> capability_grants k secret now db token owner action resource expected_run c"
  unfolding validate_inner_iff [symmetric] by (auto simp: validate_def Let_def split: sum.splits)

section \<open>The roles are confined\<close>

text \<open>
  Whatever its permissions say, a validated capability acts only for the role the workflow is
  waiting for: a verifier reaches nothing private to the generation, a branch no other branch, the
  sealed branches are open to the join only, and a finalizer commits only.
\<close>

theorem roles_are_confined:
  assumes "fst (validate k secret now db token owner action resource trace expected_run) = Inr c"
  shows "role_for_state (ca_issued_state c) = Some (ca_role c)
    \<and> \<not> (ca_role c = RoleVerifier \<and> generation_private resource)
    \<and> \<not> (ca_role c \<noteq> RoleJoin \<and> starts_with ''branch:sealed:'' resource)
    \<and> \<not> (ca_role c = RoleFinalizer \<and> action \<noteq> ''commit'')
    \<and> \<not> (ca_role c = RoleBranch \<and> starts_with ''branch:'' resource \<and> resource \<noteq> ''branch:self''
         \<and> (\<nexists>d. find_domain db (ca_domain_id c) = Some d \<and> resource = ''branch:'' @ domain_branch (dm_metadata d)))"
proof -
  have "validate_inner k secret now db token owner action resource expected_run = Inr c"
    using assms by (auto simp: validate_def Let_def split: sum.splits)
  then obtain d where d: "find_domain db (ca_domain_id c) = Some d"
    "authorize_role_resource (ca_role c) (ca_issued_state c) action resource (dm_metadata d) = Inr ()"
    by (auto simp: validate_inner_iff capability_grants_def permitted_def)
  then show ?thesis by (auto simp: authorize_role_resource_def split: if_splits)
qed

end
