(* ===== verification/Store_Demo.thy ===== *)
theory Store_Demo
  imports Store_System Capability_Checks
begin

text \<open>
  A short history of the store at concrete values, for the witnesses: a run with its generator
  domain, a capability issued for it, a submission reserved, started, armed and committed.
\<close>

definition demo_body :: string where
  "demo_body = replicate 80 (CHR ''a'')"

definition demo_claims :: capability_claims where
  "demo_claims = \<lparr>ca_nonce = ''n'', ca_run_id = ''run-1'', ca_owner_id = ''alice'',
     ca_domain_id = ''d-1'', ca_role = RoleGenerator, ca_epoch = 1, ca_issued_state = Assess,
     ca_permissions = [''commit:workflow'', ''read:*''], ca_issued_at = 100, ca_expires_at = 700\<rparr>"

text \<open>A codec for the one payload \<open>demo_claims\<close>.\<close>

definition demo_codec :: token_codec where
  "demo_codec = \<lparr>tk_encode = (\<lambda>x. if x = ''payload'' then demo_body else ''b''),
     tk_decode = (\<lambda>s. if s = demo_body then Some ''payload'' else if s = ''b'' then Some ''mac'' else None),
     tk_mac = (\<lambda>_ _. ''mac''), tk_print = (\<lambda>_. ''payload''),
     tk_parse = (\<lambda>_. Some (claims_to_payload demo_claims)),
     tk_sha256 = (\<lambda>_. replicate 64 (CHR ''f''))\<rparr>"

definition demo_digest :: string where
  "demo_digest = replicate 64 (CHR ''f'')"

definition demo_token :: string where
  "demo_token = demo_body @ ''.b''"

definition demo_run :: state_db where
  "demo_run = empty_db\<lparr>db_runs := [new_run ''run-1'' ''p'' ''alice'' ''assess'' (JObject []) ''t0'']\<rparr>"

definition demo_domain :: domain_row where
  "demo_domain = \<lparr>dm_domain_id = ''d-1'', dm_run_id = ''run-1'', dm_role = ''generator'',
     dm_status = ''open'', dm_snapshot_id = None, dm_order_index = None, dm_metadata = JObject [],
     dm_created_at = ''t1'', dm_sealed_at = None\<rparr>"

definition demo_open :: state_db where
  "demo_open = demo_run\<lparr>db_domains := [demo_domain]\<rparr>"

definition demo_capability :: capability_row where
  "demo_capability = \<lparr>cp_nonce = ''n'', cp_run_id = ''run-1'', cp_domain_id = ''d-1'',
     cp_role = ''generator'', cp_epoch = 1, cp_issued_state = ''assess'',
     cp_permissions = [''commit:workflow'', ''read:*''], cp_issued_at = 100, cp_expires_at = 700,
     cp_revoked = False, cp_revoked_at = None, cp_revoke_reason = None\<rparr>"

definition demo_issued :: state_db where
  "demo_issued = demo_open\<lparr>db_capabilities := [demo_capability]\<rparr>"

definition demo_receipt :: step_receipt_row where
  "demo_receipt = \<lparr>sr_capability_sha256 = demo_digest, sr_owner_id = ''alice'',
     sr_workspace_sha256 = demo_digest, sr_request_sha256 = demo_digest, sr_run_id = ''run-1'',
     sr_domain_id = ''d-1'', sr_role = ''generator'', sr_epoch = 1, sr_issued_state = ''assess'',
     sr_status = ''pending'', sr_result = None, sr_created_at = ''t2'', sr_completed_at = None\<rparr>"

definition demo_checkpoint :: "string \<Rightarrow> int option \<Rightarrow> checkpoint_row" where
  "demo_checkpoint phase writes = \<lparr>ck_capability_sha256 = demo_digest, ck_execution_id = ''e-1'',
     ck_phase = phase, ck_expected_writes = writes, ck_accepted_writes = 0, ck_atomic_action = None\<rparr>"

definition demo_reserved :: state_db where
  "demo_reserved = demo_issued\<lparr>db_receipts := [demo_receipt],
     db_checkpoints := [demo_checkpoint ''prepared'' None]\<rparr>"

definition demo_running :: state_db where
  "demo_running = demo_reserved\<lparr>db_checkpoints := [demo_checkpoint ''running'' (Some 0)],
     db_journals := [\<lparr>jn_capability_sha256 = demo_digest, jn_marker = Between\<rparr>]\<rparr>"

definition demo_armed :: state_db where
  "demo_armed = demo_running\<lparr>db_checkpoints := [demo_checkpoint ''commit_ready'' (Some 0)]\<rparr>"

definition demo_auth :: authorized_submission where
  "demo_auth = \<lparr>as_claims = demo_claims, as_fingerprint = demo_digest\<rparr>"

definition demo_reservation :: submission_receipt where
  "demo_reservation = \<lparr>re_capability_sha256 = demo_digest, re_owner_id = ''alice'',
     re_workspace_sha256 = demo_digest, re_request_sha256 = demo_digest, re_run_id = ''run-1'',
     re_domain_id = ''d-1'', re_role = RoleGenerator, re_epoch = 1, re_issued_state = Assess,
     re_status = ''pending'', re_result = None, re_created_at = ''t2'', re_completed_at = None\<rparr>"

definition demo_execution :: submission_execution where
  "demo_execution = \<lparr>ex_id = ''e-1'', ex_fingerprint = demo_digest, ex_claims = demo_claims\<rparr>"

definition demo_transition :: move_request where
  "demo_transition = \<lparr>tn_run_id = ''run-1'', tn_expected_state = ''assess'',
     tn_after_state = ''explore'', tn_trace_id = ''e-1'', tn_actor = ''generator'', tn_reason = ''ready'',
     tn_evidence = JObject [], tn_increment_epoch = True, tn_status = None, tn_latex_passed = None,
     tn_verdict = None, tn_sealed = None, tn_round_delta = 0\<rparr>"

definition demo_task :: task_transition where
  "demo_task = \<lparr>tt_transition = demo_transition, tt_expected_metadata = None, tt_metadata_updates = [],
     tt_project_mode = None, tt_branch = None, tt_restartable = None\<rparr>"

definition demo_done :: state_db where
  "demo_done = demo_armed\<lparr>db_runs := [move_row ''t3'' demo_transition 2 1 0 (hd (db_runs demo_run)) (hd (db_runs demo_run))],
     db_domains := [seal_row ''t3'' demo_domain],
     db_capabilities := [revoke_row ''t3'' ''domain_sealed'' demo_capability],
     db_transitions := [\<lparr>tr_id = 1, tr_run_id = ''run-1'', tr_sequence = 1, tr_trace_id = ''e-1'',
        tr_before_state = ''assess'', tr_after_state = ''explore'', tr_actor = ''generator'',
        tr_reason = ''ready'', tr_evidence = JObject [], tr_created_at = ''t3''\<rparr>],
     db_receipts := [complete_row \<lparr>sub_disposition = Applied, sub_state = Explore, sub_writes_applied = 0,
        sub_complete = True, sub_error_code = None\<rparr> ''t3'' demo_receipt]\<rparr>"

section \<open>The history runs\<close>

lemma demo_create: "create_run ''t0'' empty_db ''run-1'' ''p'' ''alice'' ''assess'' (JObject []) = Inr (hd (db_runs demo_run), demo_run)"
  by code_simp

lemma demo_create_domain:
  "create_domain ''t1'' demo_run ''d-1'' ''run-1'' ''generator'' None None (JObject []) = Inr (demo_domain, demo_open)"
  by code_simp

lemma demo_issue:
  "issue demo_codec ''secret'' 600 100 ''n'' demo_open ''run-1'' ''d-1'' RoleGenerator
     [''read:*'', ''commit:workflow''] ''tr'' None
   = Inr ((demo_token, issued_event demo_codec ''tr'' demo_token demo_claims), demo_issued)"
  by code_simp

lemma demo_digest_ok [simp]: "valid_digest demo_digest" "length demo_digest = 64"
  unfolding demo_digest_def valid_digest_def by (simp_all add: list_all_length is_ascii_digit_def byte_of_def)

lemma demo_names [simp]:
  "role_from_wire ''generator'' = Some RoleGenerator" "state_from_wire ''assess'' = Some Assess"
  "state_from_wire ''explore'' = Some Explore"
  by (simp_all add: role.parse_iff state.parse_iff)

lemma demo_claims_simps [simp]:
  "ca_nonce demo_claims = ''n''" "ca_run_id demo_claims = ''run-1''" "ca_owner_id demo_claims = ''alice''"
  "ca_domain_id demo_claims = ''d-1''" "ca_role demo_claims = RoleGenerator" "ca_epoch demo_claims = 1"
  "ca_issued_state demo_claims = Assess" "ca_expires_at demo_claims = 700"
  "as_claims demo_auth = demo_claims" "as_fingerprint demo_auth = demo_digest"
  by (simp_all add: demo_claims_def demo_auth_def)

lemma demo_decode: "decode_receipt demo_receipt = Inr demo_reservation"
  by (simp add: demo_receipt_def decode_receipt_def decode_result_def demo_reservation_def)

lemma demo_tables [simp]:
  "db_runs demo_issued = [new_run ''run-1'' ''p'' ''alice'' ''assess'' (JObject []) ''t0'']"
  "db_domains demo_issued = [demo_domain]" "db_capabilities demo_issued = [demo_capability]"
  "db_receipts demo_issued = []" "db_checkpoints demo_issued = []" "db_transitions demo_issued = []"
  "db_journals demo_issued = []"
  by (simp_all add: demo_issued_def demo_open_def demo_run_def empty_db_def)

lemma demo_find [simp]: "find_run demo_issued ''run-1'' = Some (new_run ''run-1'' ''p'' ''alice'' ''assess'' (JObject []) ''t0'')" "find_domain demo_issued ''d-1'' = Some demo_domain"
  "find_capability demo_issued ''n'' = Some demo_capability"
  by (simp_all add: find_run_def new_run_def find_domain_def find_capability_def demo_domain_def demo_capability_def)

lemma demo_authority: "recheck_authority demo_issued demo_claims 200 = Inr ()" by code_simp

lemma demo_reserve: "reserve_submission ''t2'' 200 ''e-1'' demo_issued demo_auth demo_digest demo_digest = Inr (Reserved demo_reservation, demo_reserved)"
proof -
  have a: "insert_receipt ''t2'' demo_issued demo_auth demo_digest demo_digest = Inr (demo_issued\<lparr>db_receipts := [demo_receipt]\<rparr>)"
    by (simp add: insert_receipt_def demo_receipt_def)
  show ?thesis
  by (simp add: reserve_submission_def read_receipt_def matching_def insert_checkpoint_def insert_into_def require_receipt_def max_receipts_total_def max_receipts_per_run_def
      demo_authority a demo_decode demo_reserved_def find_checkpoint_def demo_checkpoint_def)
    (simp add: demo_receipt_def)
qed

lemma demo_same_tables [simp]:
  "db_receipts demo_reserved = [demo_receipt]" "db_checkpoints demo_reserved = [demo_checkpoint ''prepared'' None]"
  "db_journals demo_reserved = []" "db_journals demo_running = [\<lparr>jn_capability_sha256 = demo_digest, jn_marker = Between\<rparr>]"
  "db_receipts demo_running = [demo_receipt]" "db_checkpoints demo_running = [demo_checkpoint ''running'' (Some 0)]"
  "db_receipts demo_armed = [demo_receipt]" "db_checkpoints demo_armed = [demo_checkpoint ''commit_ready'' (Some 0)]"
  "db_journals demo_armed = [\<lparr>jn_capability_sha256 = demo_digest, jn_marker = Between\<rparr>]"
  by (simp_all add: demo_armed_def demo_running_def demo_reserved_def)

lemma demo_checkpoint_simps [simp]:
  "ck_capability_sha256 (demo_checkpoint ph w) = demo_digest" "ck_execution_id (demo_checkpoint ph w) = ''e-1''"
  "ck_phase (demo_checkpoint ph w) = ph" "ck_expected_writes (demo_checkpoint ph w) = w"
  "ck_accepted_writes (demo_checkpoint ph w) = 0"
  by (simp_all add: demo_checkpoint_def)

lemma demo_receipt_simps [simp]:
  "sr_capability_sha256 demo_receipt = demo_digest" "sr_owner_id demo_receipt = ''alice''"
  "sr_run_id demo_receipt = ''run-1''" "receipt_pending demo_receipt"
  by (simp_all add: demo_receipt_def receipt_pending_def)

lemma demo_reservation_simps [simp]:
  "re_capability_sha256 demo_reservation = demo_digest" "re_owner_id demo_reservation = ''alice''"
  "re_run_id demo_reservation = ''run-1''" "re_result demo_reservation = None"
  "receipt_matches_claims demo_reservation demo_claims"
  "check_binding demo_reservation (re_workspace_sha256 demo_reservation) (re_request_sha256 demo_reservation) = Inr ()"
  by (simp_all add: demo_reservation_def receipt_matches_claims_def check_binding_def)

lemma demo_reserved_authority: "recheck_authority demo_reserved demo_claims 200 = Inr ()" by code_simp

lemma demo_activate: "activate_submission 200 demo_reserved demo_reservation demo_auth 0 = Inr (demo_execution, demo_running)"
proof -
  have c: "current demo_reserved demo_reservation = Inr demo_reservation"
    by (simp add: current_def require_receipt_def read_receipt_def demo_decode)
  show ?thesis
    by (simp add: activate_submission_def demo_reserved_authority c update_checkpoint_def matching_def update_rows_def enroll_def insert_into_def find_journal_def find_checkpoint_def
       demo_execution_def demo_running_def) (simp add: demo_reserved_def demo_checkpoint_def)
qed
lemma demo_arm: "arm_submission_commit demo_running demo_execution = Inr ((), demo_armed)"
    by (simp add: arm_submission_commit_def update_checkpoint_def matching_def update_rows_def require_between_def pending_receipt_def
       demo_execution_def) (simp add: demo_armed_def demo_running_def demo_checkpoint_def)

lemma demo_armed_authority: "recheck_authority demo_armed demo_claims 300 = Inr ()" by code_simp

lemma demo_commit: "transition_task demo_codec ''t3'' 300 demo_armed demo_claims demo_task = Inr (hd (db_runs demo_done), demo_done)"
proof -
  have 1: "check_task_of demo_armed demo_claims demo_task = Inr demo_armed"
    by (simp add: check_task_of_def demo_task_def demo_transition_def check_task_def check_task_with_marker_def
       execution_row_def demo_decode commit_ready_def require_between_def)
  have 2: "seal_task_domain ''t3'' demo_armed demo_claims = Inr (demo_armed\<lparr>db_domains := [seal_row ''t3'' demo_domain],
     db_capabilities := [revoke_row ''t3'' ''domain_sealed'' demo_capability]\<rparr>)"
    by code_simp
  let ?db = "demo_armed\<lparr>db_domains := [seal_row ''t3'' demo_domain],
     db_capabilities := [revoke_row ''t3'' ''domain_sealed'' demo_capability]\<rparr>"
  let ?row = "new_run ''run-1'' ''p'' ''alice'' ''assess'' (JObject []) ''t0''"
  have runs: "db_runs demo_armed = [?row]" "db_transitions demo_armed = []" "db_creations demo_armed = []"
     "db_capabilities demo_armed = [demo_capability]"
     by (simp_all add: demo_armed_def demo_running_def demo_reserved_def demo_issued_def demo_open_def demo_run_def empty_db_def)
  let ?new = "\<lparr>tr_id = 1, tr_run_id = ''run-1'', tr_sequence = 1, tr_trace_id = ''e-1'',
        tr_before_state = ''assess'', tr_after_state = ''explore'', tr_actor = ''generator'',
        tr_reason = ''ready'', tr_evidence = JObject [], tr_created_at = ''t3''\<rparr>"
  let ?db4 = "?db\<lparr>db_runs := [move_row ''t3'' demo_transition 2 1 0 ?row ?row], db_transitions := [?new]\<rparr>"
  have row [simp]: "rr_run_id ?row = ''run-1''" "rr_state ?row = ''assess''" "rr_epoch ?row = 1" "rr_transition_seq ?row = 0"
     "rr_round_index ?row = 0" "rr_owner_id ?row = ''alice''" by (simp_all add: new_run_def)
  have tn [simp]: "tn_run_id demo_transition = ''run-1''" "tn_trace_id demo_transition = ''e-1''" "tn_expected_state demo_transition = ''assess''"
    "tn_after_state demo_transition = ''explore''" "tn_increment_epoch demo_transition" "tn_round_delta demo_transition = 0"
    "tn_actor demo_transition = ''generator''" "tn_reason demo_transition = ''ready''" "tn_evidence demo_transition = JObject []"
    by (simp_all add: demo_transition_def)
  let ?x = "\<lparr>sub_disposition = Applied, sub_state = Explore, sub_writes_applied = 0,
        sub_complete = True, sub_error_code = None\<rparr>"
  have v: "result_validate ?x = Inr ()" by (simp add: result_validate_def)
  have d: "decode_receipt (complete_row ?x ''t3'' demo_receipt) = Inr (demo_reservation\<lparr>re_status := ''completed'',
       re_result := Some ?x, re_completed_at := Some ''t3''\<rparr>)"
    by (simp add: complete_row_def demo_receipt_def decode_receipt_def decode_result_def demo_reservation_def v result_text_fits [OF v])
  have 5: "complete_where (\<lambda>row. sr_capability_sha256 row = demo_digest \<and> sr_owner_id row = ''alice'' \<and> sr_run_id row = ''run-1'')
       ?x ''t3'' ?db4 = Inr demo_done"
    by (simp add: complete_where_def matching_def update_rows_def demo_done_def demo_run_def)
  have dr: "db_receipts demo_done = [complete_row ?x ''t3'' demo_receipt]" by (simp add: demo_done_def)
  have 6: "current demo_done demo_reservation = Inr (demo_reservation\<lparr>re_status := ''completed'',
       re_result := Some ?x, re_completed_at := Some ''t3''\<rparr>)"
     by (simp add: current_def require_receipt_def read_receipt_def dr d) (simp add: complete_row_def check_binding_def)
  have 4: "record_transition ''t3'' ?db4 demo_transition ?row = Inr demo_done"
    by (simp add: record_transition_def execution_row_def demo_decode execution_checkpoint_def commit_ready_def as_nat_def
      finish_on_def result_validate_def 5 6) (simp add: demo_reservation_def)
  have mv: "rr_run_id (move_row a t e q n r r') = rr_run_id r'" for a t e q n r r' by (simp add: move_row_def)
  have rv: "revoke_where ''t3'' ''run_epoch_advanced'' (\<lambda>c. cp_run_id c = ''run-1'') ?db4 = ?db4"
    by (simp add: revoke_where_def update_rows_def)
  have dn: "db_runs demo_done = [move_row ''t3'' demo_transition 2 1 0 ?row ?row]" by (simp add: demo_done_def demo_run_def)
  have 3: "transition_on ''t3'' ?db demo_transition = Inr (hd (db_runs demo_done), demo_done)"
     by (simp add: transition_on_def run_on_def find_run_def runs checked_add_def i64_range_def update_rows_def
       insert_transition_def insert_into_def next_rowid_def record_initialization_def mv rv 4 dn)
  have tt: "tt_transition demo_task = demo_transition" "tt_expected_metadata demo_task = None"
    "tt_metadata_updates demo_task = []" "tt_project_mode demo_task = None" "tt_branch demo_task = None"
    by (simp_all add: demo_task_def)
  show ?thesis
    by (simp add: transition_task_def demo_armed_authority 1 2 3 run_on_def find_run_def runs tt
       task_metadata_def demo_codec_def)
qed

lemma demo_steps:
  "store_step demo_codec ''secret'' empty_db demo_run" "store_step demo_codec ''secret'' demo_run demo_open"
  "store_step demo_codec ''secret'' demo_open demo_issued" "store_step demo_codec ''secret'' demo_issued demo_reserved"
  "store_step demo_codec ''secret'' demo_reserved demo_running" "store_step demo_codec ''secret'' demo_running demo_armed"
  "store_step demo_codec ''secret'' demo_armed demo_done"
  by (rule step_create_run step_create_domain step_issue step_reserve_submission step_activate_submission
      step_arm_submission_commit step_transition_task,
      rule demo_create demo_create_domain demo_issue demo_reserve demo_activate demo_arm demo_commit, simp?)+

lemma demo_reachable:
  "reachable demo_codec ''secret'' demo_issued" "reachable demo_codec ''secret'' demo_armed"
  "reachable demo_codec ''secret'' demo_done"
proof -
  have "reachable demo_codec ''secret'' empty_db" by (simp add: reachable_def)
  then show 1: "reachable demo_codec ''secret'' demo_issued" using demo_steps reachable_step by blast
  then show 2: "reachable demo_codec ''secret'' demo_armed" using demo_steps reachable_step by blast
  then show "reachable demo_codec ''secret'' demo_done" using demo_steps reachable_step by blast
qed

end
