(* ===== verification/Store_Promises.thy ===== *)
theory Store_Promises
  imports Store_Demo
begin

text \<open>
  What the store promises of every database it can reach, and of every database it can reach from
  there. The proofs read the invariant and the relation of \<open>Store_Protocol\<close> off the tables.
\<close>

section \<open>Reading the protocol\<close>

lemma reachable_keys:
  assumes "reachable k secret db"
  shows "distinct (map rr_run_id (db_runs db))" "distinct (map dm_domain_id (db_domains db))"
    "distinct (map cp_nonce (db_capabilities db))"
  using reachable_good [OF assms] by (simp_all add: protocol_inv_def keys_ok_def protocol_simps)

lemma reachable_steps: "reachable k secret db \<Longrightarrow> (store_step k secret)\<^sup>*\<^sup>* db db' \<Longrightarrow> reachable k secret db'"
  unfolding reachable_def by (rule rtranclp_trans)

section \<open>Invariants\<close>

text \<open>
  C34. In every reachable database a capability that is not revoked belongs to the current epoch of an
  existing run and to an open domain of that run: advancing the epoch and sealing a domain leave no
  capability of theirs alive.
\<close>

theorem live_capabilities_are_current:
  assumes "reachable k secret db" "c \<in> set (db_capabilities db)" "\<not> cp_revoked c"
  shows "\<exists>r d. find_run db (cp_run_id c) = Some r \<and> rr_epoch r = cp_epoch c
    \<and> find_domain db (cp_domain_id c) = Some d \<and> dm_status d = ''open'' \<and> dm_run_id d = cp_run_id c"
proof -
  have "live_in (protocol_of db) c"
    using reachable_good [OF assms(1)] assms(2,3)
    by (auto simp: protocol_inv_def rows_ok_def list_all_iff protocol_simps)
  then obtain r d where rd: "r \<in> set (db_runs db)" "rr_run_id r = cp_run_id c" "rr_epoch r = cp_epoch c"
    "d \<in> set (db_domains db)" "dm_domain_id d = cp_domain_id c" "dm_status d = ''open''" "dm_run_id d = cp_run_id c"
    by (auto simp: live_in_def protocol_simps)
  then show ?thesis
    using find_key [OF reachable_keys(1) [OF assms(1)] rd(1,2)]
      find_key [OF reachable_keys(2) [OF assms(1)] rd(4,5)]
    unfolding find_run_def find_domain_def by blast
qed

lemma demo_capability_live: "demo_capability \<in> set (db_capabilities demo_armed)" "\<not> cp_revoked demo_capability"
  by (simp_all add: demo_armed_def demo_running_def demo_reserved_def demo_capability_def)

theorem live_capabilities_are_current_witness:
  "\<exists>r d. find_run demo_armed ''run-1'' = Some r \<and> rr_epoch r = 1
    \<and> find_domain demo_armed ''d-1'' = Some d \<and> dm_status d = ''open'' \<and> dm_run_id d = ''run-1''"
  using live_capabilities_are_current [OF demo_reachable(2) demo_capability_live]
  by (simp add: demo_capability_def)

text \<open>
  C35. In every reachable database a run has at most one submission whose outcome is unknown, and the
  execution of a submission has moved the workflow at most once, and not at all while its receipt is
  pending.
\<close>

theorem submissions_move_once:
  assumes "reachable k secret db" "ck \<in> set (db_checkpoints db)"
  shows "matching (\<lambda>r. sr_run_id r = run \<and> receipt_pending r) (db_receipts db) \<le> 1
    \<and> matching (\<lambda>t. tr_trace_id t = ck_execution_id ck) (db_transitions db)
        \<le> (if pending_receipt db (ck_capability_sha256 ck) then 0 else 1)"
proof -
  have "pending_in (db_receipts db) f = pending_receipt db f" for f
    by (auto simp: pending_in_def pending_receipt_def list_ex_iff)
  then show ?thesis using reachable_good [OF assms(1)] assms(2)
    by (auto simp: protocol_inv_def once_ok_def list_all_iff protocol_simps matching_def moves_of_def)
qed

theorem submissions_move_once_witness:
  "matching (\<lambda>t. tr_trace_id t = ''e-1'') (db_transitions demo_armed) \<le> 0
   \<and> matching (\<lambda>t. tr_trace_id t = ''e-1'') (db_transitions demo_done) \<le> 1"
proof -
  have "demo_checkpoint ''commit_ready'' (Some 0) \<in> set (db_checkpoints demo_armed)"
    "demo_checkpoint ''commit_ready'' (Some 0) \<in> set (db_checkpoints demo_done)"
    by (simp_all add: demo_done_def)
  moreover have "pending_receipt demo_armed demo_digest" by (simp add: pending_receipt_def)
  ultimately show ?thesis
    using submissions_move_once [OF demo_reachable(2)] submissions_move_once [OF demo_reachable(3)]
    by (fastforce split: if_splits)
qed

text \<open>
  In every reachable database the recorded transitions of a run are numbered from 1 without a gap,
  their number is the run's counter, and they form a path through the states that ends in the state
  the run is in.
\<close>

theorem histories_are_paths:
  assumes "reachable k secret db" "find_run db run = Some r"
  shows "map tr_sequence (run_history (db_transitions db) run)
      = map (\<lambda>i. int i + 1) [0..<length (run_history (db_transitions db) run)]
    \<and> rr_transition_seq r = int (length (run_history (db_transitions db) run))
    \<and> (\<exists>s. follows s (run_history (db_transitions db) run) (rr_state r))"
proof -
  have "r \<in> set (db_runs db)" "rr_run_id r = run"
    using assms(2) by (auto simp: find_run_def dest: find_Some_set)
  then show ?thesis using reachable_good [OF assms(1)]
    by (auto simp: protocol_inv_def rows_ok_def list_all_iff protocol_simps history_ok_def)
qed

lemma demo_done_run: "find_run demo_done ''run-1'' = Some (hd (db_runs demo_done))"
  by (simp add: find_run_def demo_done_def demo_run_def move_row_def new_run_def)

theorem histories_are_paths_witness:
  "find_run demo_done ''run-1'' = Some (hd (db_runs demo_done))
   \<and> rr_transition_seq (hd (db_runs demo_done)) = int (length (run_history (db_transitions demo_done) ''run-1''))"
  using histories_are_paths [OF demo_reachable(3) demo_done_run] demo_done_run by simp

section \<open>What is never taken back\<close>

text \<open>
  C36. Nothing an operation records is taken back by a later one: transitions are only appended, a
  completed receipt and a revoked capability stay as they are, and a run keeps its owner and never
  returns to an earlier epoch.
\<close>

theorem records_are_never_taken_back:
  assumes "reachable k secret db" "(store_step k secret)\<^sup>*\<^sup>* db db'"
  shows "prefix (db_transitions db) (db_transitions db')
    \<and> {r \<in> set (db_receipts db). \<not> receipt_pending r} \<subseteq> set (db_receipts db')
    \<and> {c \<in> set (db_capabilities db). cp_revoked c} \<subseteq> set (db_capabilities db')
    \<and> kept_in not_behind (db_runs db) (db_runs db')"
  using steps_keep [OF assms]
  by (fastforce simp: protocol_keeps_def protocol_simps kept_in_def receipt_kept_def grant_kept_def)

theorem records_are_never_taken_back_witness:
  "prefix (db_transitions demo_issued) (db_transitions demo_done)
   \<and> kept_in not_behind (db_runs demo_issued) (db_runs demo_done)"
proof -
  have "(store_step demo_codec ''secret'')\<^sup>*\<^sup>* demo_issued demo_done"
    using demo_steps(4-7) by (meson converse_rtranclp_into_rtranclp rtranclp.rtrancl_refl)
  then show ?thesis using records_are_never_taken_back [OF demo_reachable(1)] by blast
qed

lemma recheck_authority_registered:
  assumes "recheck_authority db c now = Inr ()"
  obtains row where "find_capability db (ca_nonce c) = Some row" "record_matches_claims row c"
  using assms that by (auto simp: recheck_authority_def split: option.splits if_splits)

lemma evolves_grant:
  assumes "evolves db db'" "protocol_inv (protocol_of db)" "row \<in> set (db_capabilities db)"
  obtains row' where "row' \<in> set (db_capabilities db')" "grant_kept row row'"
proof -
  have "protocol_keeps (protocol_of db) (protocol_of db')"
    using assms(1,2) store.keeps_moves by (auto simp: evolves_def)
  then show ?thesis using assms(3) that by (auto simp: protocol_keeps_def kept_in_def protocol_simps)
qed

lemma grant_kept_same:
  "grant_kept c c' \<Longrightarrow> cp_nonce c' = cp_nonce c \<and> cp_domain_id c' = cp_domain_id c"
  by (cases c, cases c') (auto simp: grant_kept_def same_grant_def)

lemma seal_task_domain_revokes:
  assumes "seal_task_domain now db c = Inr db'" "row \<in> set (db_capabilities db)" "cp_domain_id row = ca_domain_id c"
  obtains row' where "row' \<in> set (db_capabilities db')" "cp_nonce row' = cp_nonce row" "cp_revoked row'"
proof -
  let ?P = "\<lambda>x. cp_domain_id x = ca_domain_id c \<and> \<not> cp_revoked x"
  have "db_capabilities db' = update_rows ?P (revoke_row now ''domain_sealed'') (db_capabilities db)"
    using assms(1) by (auto simp: seal_task_domain_def Let_def revoke_where_def split: if_splits)
  then have "(if ?P row then revoke_row now ''domain_sealed'' row else row) \<in> set (db_capabilities db')"
    using assms(2) by (simp only: set_update_rows) (rule imageI)
  then show ?thesis using that assms(3) by (cases "cp_revoked row") auto
qed

lemma sealed_task_revokes:
  assumes "transition_task k now unix db c task = Inr (r, db')" "protocol_inv (protocol_of db)"
  obtains row where "row \<in> set (db_capabilities db')" "cp_nonce row = ca_nonce c" "cp_revoked row"
proof -
  let ?t = "tt_transition task"
  obtain db1 before db2 db3 db4 where
      inc: "tn_increment_epoch ?t" "tn_run_id ?t = ca_run_id c"
    and a: "recheck_authority db c unix = Inr ()" "check_task_of db c task = Inr db1"
    and m: "task_metadata now db1 (ca_run_id c) before (tt_metadata_updates task) = Inr db2"
    and b: "(case tt_branch task of None \<Rightarrow> Inr (case tt_project_mode task of None \<Rightarrow> db2
                | Some mode \<Rightarrow> update_project_mode now db2 (ca_run_id c) mode)
              | Some b \<Rightarrow> seal_branch now (case tt_project_mode task of None \<Rightarrow> db2
                | Some mode \<Rightarrow> update_project_mode now db2 (ca_run_id c) mode) c b (tn_after_state ?t)) = Inr db3"
    and s: "seal_task_domain now db3 c = Inr db4" and t: "transition_on now db4 ?t = Inr (r, db')"
    using assms(1) unfolding transition_task_def Let_def by (elim take_apart) auto
  obtain row where row: "find_capability db (ca_nonce c) = Some row" "record_matches_claims row c"
    using recheck_authority_registered [OF a(1)] .
  have "evolves db db3"
  proof -
    have "evolves db db1" by (rule check_task_of_evolves) (rule a(2))
    moreover have "evolves db1 db2" by (rule task_metadata_evolves) (rule m)
    moreover have "protocol_of db3 = protocol_of db2"
      using b seal_branch_same by (auto simp: update_project_mode_def protocol_simps split: option.splits)
    ultimately show ?thesis using evolves_trans evolves_same by metis
  qed
  moreover have row0: "row \<in> set (db_capabilities db)" "cp_nonce row = ca_nonce c"
    using row(1) by (auto simp: find_capability_def dest: find_Some_set)
  ultimately obtain row3 where row3: "row3 \<in> set (db_capabilities db3)" "grant_kept row row3"
    and 3: "protocol_inv (protocol_of db3)"
    using evolves_grant assms(2) evolves_good by metis
  have g: "cp_nonce row3 = ca_nonce c" "cp_domain_id row3 = ca_domain_id c"
    using grant_kept_same [OF row3(2)] row0(2) row(2) by (simp_all add: record_matches_claims_def)
  obtain row4 where row4: "row4 \<in> set (db_capabilities db4)" "cp_nonce row4 = ca_nonce c" "cp_revoked row4"
    using seal_task_domain_revokes [OF s row3(1) g(2)] g(1) by metis
  have "protocol_inv (protocol_of db4)" using seal_task_domain_evolves [OF s] 3 evolves_good by blast
  then obtain row5 where "row5 \<in> set (db_capabilities db')" "grant_kept row4 row5"
    using evolves_grant [OF transition_on_evolves [OF t] _ row4(1)] by blast
  then show ?thesis using that row4(2,3) by (auto simp: grant_kept_def)
qed


lemma revoked_not_granted:
  assumes "reachable k secret db" "row \<in> set (db_capabilities db)" "cp_nonce row = ca_nonce c" "cp_revoked row"
  shows "\<not> capability_grants k secret now db token owner action resource expected_run c"
  using find_key [OF reachable_keys(3) [OF assms(1)] assms(2,3)] assms(4)
  by (auto simp: capability_grants_def registered_def find_capability_def)

text \<open>
  C37. A capability is spent by the transition it commits: after \<open>transition_task\<close>, whatever happens
  next, no token with its claims is accepted again for anything.
\<close>

theorem spent_capability_is_denied:
  assumes "reachable k secret db" "transition_task k now unix db c task = Inr (r, db')"
    "(store_step k secret)\<^sup>*\<^sup>* db' db''"
  shows "fst (validate k secret later db'' token owner action resource trace expected_run) \<noteq> Inr c"
proof -
  obtain row where row: "row \<in> set (db_capabilities db')" "cp_nonce row = ca_nonce c" "cp_revoked row"
    using sealed_task_revokes [OF assms(2) reachable_good [OF assms(1)]] .
  have "reachable k secret db'" using reachable_step [OF assms(1) step_transition_task] assms(2) .
  moreover have "reachable k secret db''" using reachable_steps calculation assms(3) .
  ultimately obtain row'' where "row'' \<in> set (db_capabilities db'')" "grant_kept row row''"
    using evolves_grant [OF steps_evolve [OF assms(3)] reachable_good row(1)] by blast
  then have "\<not> capability_grants k secret later db'' token owner action resource expected_run c"
    using revoked_not_granted [OF \<open>reachable k secret db''\<close>] row(2,3) by (auto simp: grant_kept_def)
  then show ?thesis
    unfolding validate_inner_iff [symmetric] by (auto simp: validate_def Let_def split: sum.splits)
qed

theorem spent_capability_is_denied_witness:
  "transition_task demo_codec ''t3'' 300 demo_armed demo_claims demo_task = Inr (hd (db_runs demo_done), demo_done)
   \<and> fst (validate demo_codec ''secret'' 400 demo_done demo_token ''alice'' ''commit'' ''workflow'' ''tr'' None)
     \<noteq> Inr demo_claims"
  using spent_capability_is_denied [OF demo_reachable(2) demo_commit rtranclp.rtrancl_refl] demo_commit by blast

section \<open>The store refines the protocol\<close>



section \<open>A fresh token is accepted\<close>

text \<open>
  C39. A token just issued is accepted, until it expires, for every action on a resource that one of its
  permissions covers and the role may do, when the encoding, the signature and the serialization of
  that one token can be read back.
\<close>

theorem issued_token_is_accepted:
  assumes "issue k secret default_ttl now nonce db run domain role permissions trace ttl = Inr ((token, event), db')"
    and "find_run db run = Some row" "find_domain db domain = Some d" "rr_state row = state_as_str st"
    and c: "c = issue_claims now nonce (issue_ttl ttl default_ttl) row run domain role st permissions"
    and "claims_ok c" "later \<le> ca_expires_at c"
    and body: "body = tk_encode k (tk_print k (claims_to_payload c))"
    and "tk_decode k body = Some (tk_print k (claims_to_payload c))"
      "tk_parse k (tk_print k (claims_to_payload c)) = Some (claims_to_payload c)"
      "tk_decode k (tk_encode k (tk_mac k secret body)) = Some (tk_mac k secret body)"
      "valid_token_shape token" "CHR ''.'' \<notin> set body"
    and "list_ex (\<lambda>p. wildcard_match p (action @ '':'' @ resource)) (ca_permissions c)"
      "authorize_role_resource role st action resource (dm_metadata d) = Inr ()"
  shows "fst (validate k secret later db' token (rr_owner_id row) action resource trace (Some run)) = Inr c"
proof -
  have p: "parse_workflow_state row = Inr st" using assms(4) by (simp add: parse_workflow_state_iff)
  have run: "rr_run_id row = run" using assms(2) by (auto simp: find_run_def dest: find_Some_set)
  let ?row = "\<lparr>cp_nonce = ca_nonce c, cp_run_id = ca_run_id c, cp_domain_id = ca_domain_id c,
     cp_role = role_as_str (ca_role c), cp_epoch = ca_epoch c, cp_issued_state = state_as_str (ca_issued_state c),
     cp_permissions = ca_permissions c, cp_issued_at = ca_issued_at c, cp_expires_at = ca_expires_at c,
     cp_revoked = False, cp_revoked_at = None, cp_revoke_reason = None\<rparr>"
  have i: "dm_run_id d = run \<and> dm_role d = role_as_str role \<and> dm_status d = ''open''
    \<and> find_capability db (ca_nonce c) = None \<and> token = body @ CHR ''.'' # tk_encode k (tk_mac k secret body)
    \<and> db' = db\<lparr>db_capabilities := db_capabilities db @ [?row]\<rparr>"
    using assms(1) unfolding issue_def Let_def
    apply (elim take_apart)
    subgoal premises q for row' d' st' u db1 y
    proof -
      have 1: "row' = row" using q(1) assms(2) by (simp add: get_run_def)
      have 2: "d' = d" using q(2) assms(3) by (simp add: get_domain_def)
      have 3: "st' = st" using q(5) p unfolding 1 by simp
      have "find_capability db (ca_nonce c) = None" "y = db\<lparr>db_capabilities := db_capabilities db @ [?row]\<rparr>"
        using q(7,8) unfolding 1 3 c [symmetric] by (auto simp: insert_capability_def)
      moreover have "token = encode_token k secret (claims_to_payload c)" "db' = y"
        using q(9) unfolding 1 3 c [symmetric] by simp_all
      ultimately show ?thesis
        using q(3,4) unfolding 2 by (simp add: encode_token_def Let_def body)
    qed
    done
  have find: "find_capability db' (ca_nonce c) = Some ?row"
    using i unfolding find_capability_def by (simp add: find_append)
  have "signed_payload k secret token (claims_to_payload c)"
    using assms(9-13) i by (auto simp: signed_payload_def)
  moreover have "registered later db' c"
    using find assms(7) by (simp add: registered_def record_matches_claims_def)
  moreover have "current_run (rr_owner_id row) db' c"
    using assms(2,4) i run by (simp add: current_run_def find_run_def c issue_claims_def)
  moreover have "permitted db' c action resource"
    using assms(3,14,15) i by (auto simp: permitted_def find_domain_def c issue_claims_def wildcard_match_iff list_ex_iff)
  ultimately have "capability_grants k secret later db' token (rr_owner_id row) action resource (Some run) c"
    using claims_roundtrip [OF assms(6)] by (auto simp: capability_grants_def c issue_claims_def)
  then show ?thesis unfolding validate_inner_iff [symmetric] by (simp add: validate_def Let_def)
qed


lemma demo_issued_claims:
  "demo_claims = issue_claims 100 ''n'' (issue_ttl None 600) (hd (db_runs demo_open)) ''run-1'' ''d-1''
     RoleGenerator Assess [''read:*'', ''commit:workflow'']"
  by code_simp

lemma demo_open_rows:
  "find_run demo_open ''run-1'' = Some (hd (db_runs demo_open))" "find_domain demo_open ''d-1'' = Some demo_domain"
  "rr_state (hd (db_runs demo_open)) = state_as_str Assess" "rr_owner_id (hd (db_runs demo_open)) = ''alice''"
  by code_simp+

lemma demo_codec_reads:
  "demo_body = tk_encode demo_codec (tk_print demo_codec (claims_to_payload demo_claims))"
  "tk_decode demo_codec demo_body = Some (tk_print demo_codec (claims_to_payload demo_claims))"
  "tk_parse demo_codec (tk_print demo_codec (claims_to_payload demo_claims)) = Some (claims_to_payload demo_claims)"
  "tk_decode demo_codec (tk_encode demo_codec (tk_mac demo_codec ''secret'' demo_body))
     = Some (tk_mac demo_codec ''secret'' demo_body)"
  "CHR ''.'' \<notin> set demo_body"
  by (simp_all add: demo_codec_def demo_body_def eval_nat_numeral)

lemma demo_token_shape: "valid_token_shape demo_token"
  by code_simp

theorem issued_token_is_accepted_witness:
  "fst (validate demo_codec ''secret'' 650 demo_issued demo_token ''alice'' ''read'' ''problem'' ''tr'' (Some ''run-1''))
   = Inr demo_claims"
proof -
  have ok: "claims_ok demo_claims" "(650::int) \<le> ca_expires_at demo_claims"
    by (simp_all add: claims_ok_def demo_claims_def i64_range_def)
  have granted: "list_ex (\<lambda>p. wildcard_match p (''read'' @ '':'' @ ''problem'')) (ca_permissions demo_claims)"
    "authorize_role_resource RoleGenerator Assess ''read'' ''problem'' (dm_metadata demo_domain) = Inr ()"
    by code_simp+
  show ?thesis
    using issued_token_is_accepted [OF demo_issue demo_open_rows(1-3) demo_issued_claims ok demo_codec_reads(1-4)
        demo_token_shape demo_codec_reads(5) granted] demo_open_rows(4) by simp
qed

end
