(* ===== verification/Fact_Soundness.thy ===== *)
theory Fact_Soundness
  imports Fact_Memory
begin

text \<open>
  The fact memory never shows an active fact that rests on a revoked one. The invariant
  \<open>memory_ok\<close> says it for the direct predecessors, with what makes it inductive: identifiers are
  unique, a predecessor is older than the fact and of its project, and only facts are revoked.
  Promotion and revocation keep it, the two operations that write facts. \<open>Fact_Promises\<close> carries it to
  every database the store can reach.
\<close>

section \<open>The invariant\<close>

definition rests_on :: "state_db \<Rightarrow> (string \<times> string) set" where
  "rests_on db = (\<lambda>e. (fg_fact_id e, fg_predecessor_id e)) ` set (db_fact_edges db)"

definition fact_ids :: "state_db \<Rightarrow> string list" where
  "fact_ids db = map ft_fact_id (db_facts db)"

definition older :: "string list \<Rightarrow> string \<Rightarrow> string \<Rightarrow> bool" where
  "older xs p f \<longleftrightarrow> (\<exists>ys zs. xs = ys @ f # zs \<and> p \<in> set ys)"

definition same_project :: "state_db \<Rightarrow> string \<Rightarrow> string \<Rightarrow> bool" where
  "same_project db f p \<longleftrightarrow>
     (\<exists>a b. find_fact db f = Some a \<and> find_fact db p = Some b \<and> ft_project_id a = ft_project_id b)"

definition memory_ok :: "state_db \<Rightarrow> bool" where
  "memory_ok db \<longleftrightarrow> distinct (fact_ids db)
     \<and> (\<forall>(f, p) \<in> rests_on db. older (fact_ids db) p f \<and> same_project db f p
          \<and> (fact_revoked db p \<longrightarrow> fact_revoked db f))
     \<and> (\<forall>f. fact_revoked db f \<longrightarrow> f \<in> set (fact_ids db))"

lemma older_append: "older xs p f \<Longrightarrow> older (xs @ ys) p f"
  by (force simp: older_def)

lemma older_last: "p \<in> set xs \<Longrightarrow> older (xs @ [f]) p f"
  by (force simp: older_def)

lemma older_in: "older xs p f \<Longrightarrow> p \<in> set xs \<and> f \<in> set xs"
  by (auto simp: older_def)

text \<open>The place of an identifier in the table.\<close>

definition place :: "string list \<Rightarrow> string \<Rightarrow> nat" where
  "place xs x = length (takeWhile (\<lambda>y. y \<noteq> x) xs)"

lemma older_place: "distinct xs \<Longrightarrow> older xs p f \<Longrightarrow> place xs p < place xs f"
  by (auto simp: older_def place_def takeWhile_append dest!: split_list)

lemma rests_on_acyclic:
  assumes "memory_ok db"
  shows "acyclic (rests_on db)"
proof -
  have "(rests_on db)\<inverse> \<subseteq> measure (place (fact_ids db))"
    using assms older_place by (fastforce simp: memory_ok_def)
  then have "wf ((rests_on db)\<inverse>)" by (rule wf_subset [OF wf_measure])
  then show ?thesis using wf_acyclic acyclic_converse by blast
qed

lemma find_fact_in: "find_fact db f \<noteq> None \<longleftrightarrow> f \<in> set (fact_ids db)"
  by (auto simp: find_fact_def fact_ids_def find_None_iff)

section \<open>Promotion\<close>

lemma insert_fact_edges:
  assumes "fold_r (insert_fact_edge fid) ps db = Inr db'"
  shows "db' = db\<lparr>db_fact_edges := db_fact_edges db @ map (\<lambda>p. \<lparr>fg_fact_id = fid, fg_predecessor_id = p\<rparr>) ps\<rparr>"
  using assms
proof (induction ps arbitrary: db)
  case (Cons p ps)
  from Cons.prems obtain db1 where
      1: "insert_fact_edge fid p db = Inr db1" "fold_r (insert_fact_edge fid) ps db1 = Inr db'"
    by (auto simp: bind_r_eq_Inr)
  then show ?case using Cons.IH [OF 1(2)] by (auto simp: insert_fact_edge_def split: if_splits)
qed simp

lemma insert_new_fact_memory:
  assumes "insert_new_fact now project run f db = Inr db'"
  obtains row where "ft_fact_id row = fp_fact_id f" "ft_project_id row = project"
    "fp_fact_id f \<notin> set (fact_ids db)" "db_facts db' = db_facts db @ [row]"
    "db_revocations db' = db_revocations db"
    "rests_on db' = rests_on db \<union> Pair (fp_fact_id f) ` set (fp_predecessors f)"
  using assms unfolding insert_new_fact_def
  apply (elim bind_rE)
  subgoal premises p for rows
    using p(2,3) insert_fact_edges [OF p(3)] find_fact_in [of db "fp_fact_id f"]
    by (auto simp: rests_on_def image_Un image_image intro!: p(1))
  done

lemma checked_predecessors:
  assumes "check_all (check_predecessor db project) ps = Inr u" "p \<in> set ps"
  shows "\<not> fact_revoked db p \<and> (\<exists>row. find_fact db p = Some row \<and> ft_project_id row = project)"
proof -
  have "is_ok (check_predecessor db project p)" using assms check_all_ok by force
  then show ?thesis by (auto simp: check_predecessor_def ensure_def split: option.splits if_splits)
qed

lemma promote_fact_memory_ok:
  assumes "promote_fact now project run f (batch, db) = Inr (batch', db')" "memory_ok db"
  shows "memory_ok db'"
  using assms(1) unfolding promote_fact_def prod.case
  apply (elim bind_rE guard_InrE)
  subgoal premises p for u db1
  proof (cases "find_fact db (fp_fact_id f)")
    case (Some row)
    then show ?thesis using p assms(2) by (auto split: if_splits)
  next
    case None
    have ins: "insert_new_fact now project run f db = Inr db'" using p None by auto
    obtain row where row: "ft_fact_id row = fp_fact_id f" "ft_project_id row = project"
      "fp_fact_id f \<notin> set (fact_ids db)" "db_facts db' = db_facts db @ [row]"
      "db_revocations db' = db_revocations db"
      "rests_on db' = rests_on db \<union> Pair (fp_fact_id f) ` set (fp_predecessors f)"
      using insert_new_fact_memory [OF ins] .
    have ids: "fact_ids db' = fact_ids db @ [fp_fact_id f]" using row(1,4) by (simp add: fact_ids_def)
    have rev: "fact_revoked db' x = fact_revoked db x" for x using row(5) by (simp add: fact_revoked_def)
    have find: "find_fact db' x = (case find_fact db x of None \<Rightarrow> if x = fp_fact_id f then Some row else None | Some r \<Rightarrow> Some r)" for x
      using row(1,4) by (auto simp: find_fact_def find_append split: option.splits)
    have "older (fact_ids db') q g \<and> same_project db' g q \<and> (fact_revoked db' q \<longrightarrow> fact_revoked db' g)"
      if "(g, q) \<in> rests_on db'" for g q
    proof (cases "(g, q) \<in> rests_on db")
      case True
      then show ?thesis using assms(2) unfolding ids rev
        by (auto simp: memory_ok_def same_project_def find older_append split: option.splits)
    next
      case False
      then have g: "g = fp_fact_id f" and q: "q \<in> set (fp_predecessors f)" using that row(6) by auto
      obtain r where r: "find_fact db q = Some r" "ft_project_id r = project" "\<not> fact_revoked db q"
        using checked_predecessors [OF _ q] p by blast
      then have "q \<in> set (fact_ids db)" using find_fact_in by force
      then show ?thesis using r None row(2) unfolding g ids rev by (simp add: older_last same_project_def find)
    qed
    then show ?thesis using assms(2) row(3) unfolding memory_ok_def ids rev by auto
  qed
  done

section \<open>Revocation\<close>

lemma fold_revoke_finding_same:
  assumes "fold_r (revoke_finding now) fs db = Inr db'"
  shows "db_facts db' = db_facts db \<and> db_fact_edges db' = db_fact_edges db \<and> db_revocations db' = db_revocations db"
  by (rule fold_r_invariant [OF assms]) (auto simp: revoke_finding_def insert_status_def Let_def)

lemma revoke_fact_memory:
  assumes "revoke_fact now actor reason fid (ids, db) = Inr (ids', db')"
  shows "db_facts db' = db_facts db \<and> db_fact_edges db' = db_fact_edges db
    \<and> (\<forall>x. fact_revoked db' x \<longleftrightarrow> fact_revoked db x \<or> x = fid) \<and> fid \<in> set (fact_ids db) \<union> {x. fact_revoked db x}"
  using assms unfolding revoke_fact_def Let_def prod.case
  by (auto simp: bind_r_eq_Inr fact_revoked_def find_fact_in [symmetric] split: if_splits dest!: fold_revoke_finding_same)

lemma revoke_facts_memory:
  assumes "fold_r (revoke_fact now actor reason) fs (ids, db) = Inr (ids', db')"
  shows "db_facts db' = db_facts db \<and> db_fact_edges db' = db_fact_edges db
    \<and> (\<forall>x. fact_revoked db' x \<longleftrightarrow> fact_revoked db x \<or> x \<in> set fs)
    \<and> set fs \<subseteq> set (fact_ids db) \<union> {x. fact_revoked db x}"
  using assms
proof (induction fs arbitrary: ids db)
  case (Cons f fs)
  from Cons.prems obtain ids1 db1 where
      1: "revoke_fact now actor reason f (ids, db) = Inr (ids1, db1)"
        "fold_r (revoke_fact now actor reason) fs (ids1, db1) = Inr (ids', db')"
    by (auto simp: bind_r_eq_Inr)
  have "fact_ids db1 = fact_ids db" using revoke_fact_memory [OF 1(1)] by (simp add: fact_ids_def)
  then show ?case using Cons.IH [OF 1(2)] revoke_fact_memory [OF 1(1)] by auto
qed simp

text \<open>What the search of a revocation reaches.\<close>

lemma adj_dependents:
  "g \<in> set (adj (dependents_graph db project) p) \<longleftrightarrow>
     p \<in> set (fact_ids db) \<and> (g, p) \<in> rests_on db
     \<and> (\<exists>x \<in> set (db_facts db). ft_fact_id x = g \<and> ft_project_id x = project)"
proof -
  let ?F = "\<lambda>i. map fg_fact_id (filter (\<lambda>e. fg_predecessor_id e = i
            \<and> list_ex (\<lambda>x. ft_fact_id x = fg_fact_id e \<and> ft_project_id x = project) (db_facts db))
           (db_fact_edges db))"
  have "map_of (map (\<lambda>f. (ft_fact_id f, ?F (ft_fact_id f))) facts) p
      = (if p \<in> ft_fact_id ` set facts then Some (?F p) else None)" for facts :: "fact_row list"
    by (induction facts) auto
  then have "adj (dependents_graph db project) p = (if p \<in> set (fact_ids db) then ?F p else [])"
    by (simp add: adj_def dependents_graph_def fact_ids_def)
  then show ?thesis by (auto simp: rests_on_def list_ex_iff)
qed

lemma find_fact_unique:
  "distinct (fact_ids db) \<Longrightarrow> x \<in> set (db_facts db) \<Longrightarrow> ft_fact_id x = f \<Longrightarrow> find_fact db f = Some x"
  unfolding fact_ids_def find_fact_def by (rule find_key)

lemma find_fact_Some: "find_fact db f = Some x \<Longrightarrow> x \<in> set (db_facts db) \<and> ft_fact_id x = f"
  by (auto simp: find_fact_def find_Some_iff)

lemma finite_dependents: "finite (dependency_closure i (dependents_graph db project))"
proof (rule finite_subset)
  show "dependency_closure i (dependents_graph db project) \<subseteq> insert i (set (fact_ids db))"
    by (auto simp: dependency_closure_reach edges_def adj_dependents fact_ids_def elim: rtranclE)
qed simp

lemma dependents_closed:
  assumes "memory_ok db" "find_fact db i = Some r" "(g, p) \<in> rests_on db"
    "p \<in> dependency_closure i (dependents_graph db (ft_project_id r))"
  shows "g \<in> dependency_closure i (dependents_graph db (ft_project_id r))"
proof -
  let ?G = "dependents_graph db (ft_project_id r)"
  have reach: "(i, p) \<in> (edges ?G)\<^sup>*" using assms(4) by (simp add: dependency_closure_reach)
  have "\<exists>b. find_fact db p = Some b \<and> ft_project_id b = ft_project_id r"
    using reach
  proof (cases rule: rtranclE)
    case base
    then show ?thesis using assms(2) by simp
  next
    case (step q)
    then obtain x where "x \<in> set (db_facts db)" "ft_fact_id x = p" "ft_project_id x = ft_project_id r"
      by (auto simp: edges_def adj_dependents)
    then show ?thesis using assms(1) find_fact_unique by (auto simp: memory_ok_def)
  qed
  moreover obtain a b where "find_fact db g = Some a" "find_fact db p = Some b" "ft_project_id a = ft_project_id b"
    using assms(1,3) by (auto simp: memory_ok_def same_project_def)
  ultimately have "g \<in> set (adj ?G p)"
    using assms(3) find_fact_in [of db p] find_fact_Some unfolding adj_dependents by fastforce
  then show ?thesis
    using reach by (auto simp: dependency_closure_reach edges_def intro: rtrancl_into_rtrancl)
qed

lemma revoke_project_fact_memory_ok:
  assumes "revoke_project_fact now db fid actor reason = Inr (r, db')" "memory_ok db"
  shows "memory_ok db'"
proof -
  obtain root ids where root: "find_fact db fid = Some root"
    and fold: "fold_r (revoke_fact now actor reason)
      (sorted_list_of_set (dependency_closure fid (dependents_graph db (ft_project_id root)))) ([], db) = Inr (ids, db')"
    using assms(1) unfolding revoke_project_fact_def Let_def
    by (auto simp: bind_r_eq_Inr split: if_splits)
  let ?D = "set (sorted_list_of_set (dependency_closure fid (dependents_graph db (ft_project_id root))))"
  have D: "?D = dependency_closure fid (dependents_graph db (ft_project_id root))"
    by (simp add: finite_dependents)
  note m = revoke_facts_memory [OF fold]
  have same: "fact_ids db' = fact_ids db" "rests_on db' = rests_on db" "find_fact db' = find_fact db"
    "fact_revoked db' x \<longleftrightarrow> fact_revoked db x \<or> x \<in> ?D" for x
    using m by (auto simp: fact_ids_def rests_on_def find_fact_def)
  have "g \<in> ?D" if "(g, p) \<in> rests_on db" "p \<in> ?D" for g p
    using dependents_closed [OF assms(2) root that(1)] that(2) unfolding D .
  moreover have "?D \<subseteq> set (fact_ids db)"
    using m assms(2) by (auto simp: memory_ok_def)
  ultimately show ?thesis
    using assms(2) unfolding memory_ok_def same same_project_def by blast
qed

section \<open>The promotion of a run\<close>

definition memory_of :: "state_db \<Rightarrow> fact_row list \<times> fact_edge_row list \<times> fact_revocation_row list" where
  "memory_of db = (db_facts db, db_fact_edges db, db_revocations db)"

lemma memory_ok_same: "memory_of db' = memory_of db \<Longrightarrow> memory_ok db \<Longrightarrow> memory_ok db'"
  by (simp add: memory_of_def memory_ok_def fact_ids_def rests_on_def same_project_def find_fact_def fact_revoked_def)

lemma insert_promoted_facts_memory_ok:
  assumes "insert_promoted_facts now db project run facts = Inr (fid, db')" "memory_ok db"
  shows "memory_ok db'"
proof -
  obtain ids where "fold_r (promote_fact now project run) facts ([], db) = Inr (ids, db')"
    using assms(1) by (auto simp: insert_promoted_facts_def bind_r_eq_Inr split: if_splits)
  then have "memory_ok (snd (ids, db'))"
  proof (rule fold_r_invariant [where P = "\<lambda>st. memory_ok (snd st)"])
    show "memory_ok (snd ([], db))" using assms(2) by simp
  next
    fix x s s' assume "memory_ok (snd s)" "promote_fact now project run x s = Inr s'"
    then show "memory_ok (snd s')" by (cases s; cases s') (auto intro: promote_fact_memory_ok)
  qed
  then show ?thesis by simp
qed

lemma verify_matching_findings_memory:
  assumes "verify_matching_findings now db run facts = Inr db'"
  shows "memory_of db' = memory_of db"
  using assms unfolding verify_matching_findings_def
  by (rule fold_r_invariant) (auto simp: memory_of_def verify_finding_def insert_status_def Let_def
      split: option.splits if_splits)

lemma promotion_writes_memory:
  "memory_of (supersede active db) = memory_of db"
  "memory_of (update_project_run run f db) = memory_of db"
  "insert_revision row db = Inr db' \<Longrightarrow> memory_of db' = memory_of db"
  "add_claim_edge now project source target kind db = Inr db' \<Longrightarrow> memory_of db' = memory_of db"
  "promote_dependency now project revision with_facts dependency db = Inr db' \<Longrightarrow> memory_of db' = memory_of db"
  by (auto simp: memory_of_def supersede_def update_project_run_def insert_revision_def
      add_claim_edge_def promote_dependency_def split: option.splits if_splits)

lemma promote_facts_memory_ok:
  assumes "promote_facts now db project run statement facts = Inr (fid, db')" "memory_ok db"
  shows "memory_ok db'"
  using assms insert_promoted_facts_memory_ok verify_matching_findings_memory memory_ok_same
  by (auto simp: promote_facts_def bind_r_eq_Inr split: option.splits if_splits)

lemma promote_revision_memory_ok:
  assumes "promote_revision now db run project claim expected statement sha conditions dependencies facts = Inr (w, db')"
    "memory_ok db"
  shows "memory_ok db'"
proof (cases "map_option rv_revision_id (active_revision db claim) = expected")
  case False
  then show ?thesis using assms promotion_writes_memory(2) memory_ok_same
    by (auto simp: promote_revision_def Let_def set_promotion_def)
next
  case True
  then obtain fid db1 row db2 revision db3 db4 f where
      a: "promote_facts now (supersede (active_revision db claim) db) project run statement facts = Inr (fid, db1)"
    and b: "insert_revision row db1 = Inr db2"
    and c: "fold_r (promote_dependency now project revision (facts \<noteq> None)) dependencies db2 = Inr db3"
    and d: "(case active_revision db claim of None \<Rightarrow> Inr db3
        | Some a \<Rightarrow> add_claim_edge now project revision (rv_revision_id a) ''supersedes'' db3) = Inr db4"
    and e: "db' = update_project_run run f db4"
    using assms(1) unfolding promote_revision_def Let_def
    by (simp only: True simp_thms if_False) (elim take_apart, auto)
  have "memory_ok (supersede (active_revision db claim) db)"
    using promotion_writes_memory(1) assms(2) by (rule memory_ok_same)
  then have "memory_ok db1" using promote_facts_memory_ok [OF a] by blast
  moreover have "memory_of db2 = memory_of db1" using b by (rule promotion_writes_memory)
  moreover have "memory_of db3 = memory_of db2"
    using c by (rule fold_r_invariant) (auto dest: promotion_writes_memory(5))
  moreover have "memory_of db4 = memory_of db3" using d promotion_writes_memory(4) by (auto split: option.splits)
  moreover have "memory_of db' = memory_of db4" unfolding e by (rule promotion_writes_memory)
  ultimately show ?thesis using memory_ok_same by metis
qed

lemma promote_run_inner_memory_ok:
  assumes "promote_run_inner now db run owner statement sha conditions manifest facts = Inr (x, db')" "memory_ok db"
  shows "memory_ok db'"
proof -
  have same: "memory_ok (set_promotion now status promotion run db)" for status promotion
    using promotion_writes_memory(2) assms(2) unfolding set_promotion_def by (rule memory_ok_same)
  show ?thesis
    using assms(1) unfolding promote_run_inner_def Let_def
    apply (elim take_apart)
    subgoal premises p for found
      using p(2) assms(2) same promote_revision_memory_ok
      by (auto simp: bind_r_eq_Inr split: if_splits option.splits promotion_write.splits)
        (metis promotion_write.exhaust)
    done
qed

end
