(* ===== verification/Fact_Promises.thy ===== *)
theory Fact_Promises
  imports Store_Demo Fact_Soundness
begin

text \<open>
  Every database the store can reach has a sound fact memory: the operations other than promotion
  and revocation leave the facts, their edges and their revocations as they are.
\<close>

section \<open>What leaves the fact memory alone\<close>

named_theorems memory_simps

lemma memory_of_update [memory_simps]:
  "memory_of (db\<lparr>db_runs := a\<rparr>) = memory_of db" "memory_of (db\<lparr>db_domains := b\<rparr>) = memory_of db"
  "memory_of (db\<lparr>db_capabilities := c\<rparr>) = memory_of db" "memory_of (db\<lparr>db_branches := d\<rparr>) = memory_of db"
  "memory_of (db\<lparr>db_steering := e\<rparr>) = memory_of db" "memory_of (db\<lparr>db_transitions := f\<rparr>) = memory_of db"
  "memory_of (db\<lparr>db_projects := g\<rparr>) = memory_of db" "memory_of (db\<lparr>db_claims := h\<rparr>) = memory_of db"
  "memory_of (db\<lparr>db_project_snapshots := i\<rparr>) = memory_of db" "memory_of (db\<lparr>db_project_runs := j\<rparr>) = memory_of db"
  "memory_of (db\<lparr>db_manifests := l\<rparr>) = memory_of db" "memory_of (db\<lparr>db_references := m\<rparr>) = memory_of db"
  "memory_of (db\<lparr>db_source_snapshots := n\<rparr>) = memory_of db" "memory_of (db\<lparr>db_audits := u\<rparr>) = memory_of db"
  "memory_of (db\<lparr>db_receipts := p\<rparr>) = memory_of db" "memory_of (db\<lparr>db_checkpoints := q\<rparr>) = memory_of db"
  "memory_of (db\<lparr>db_journals := r\<rparr>) = memory_of db" "memory_of (db\<lparr>db_creations := s\<rparr>) = memory_of db"
  "memory_of (db\<lparr>db_initializations := t\<rparr>) = memory_of db" "memory_of (db\<lparr>db_findings := v\<rparr>) = memory_of db"
  "memory_of (db\<lparr>db_finding_status := w\<rparr>) = memory_of db"
  by (simp_all add: memory_of_def)

lemma workflow_writes_leave:
  "insert_domain now db domain run role snapshot order_index metadata = Inr db' \<Longrightarrow> memory_of db' = memory_of db"
  "insert_branch now db branch run plan domain snap i metadata = Inr db' \<Longrightarrow> memory_of db' = memory_of db"
  "insert_capability db nonce run domain role epoch st permissions iat expires = Inr (u, db') \<Longrightarrow> memory_of db' = memory_of db"
  "insert_receipt now db auth workspace request = Inr db' \<Longrightarrow> memory_of db' = memory_of db"
  "insert_checkpoint db fingerprint execution = Inr db' \<Longrightarrow> memory_of db' = memory_of db"
  "complete_where P x now db = Inr db' \<Longrightarrow> memory_of db' = memory_of db"
  "update_checkpoint Q f e db = Inr db' \<Longrightarrow> memory_of db' = memory_of db"
  "enroll db fingerprint = Inr db' \<Longrightarrow> memory_of db' = memory_of db"
  "accept db fingerprint = Inr db' \<Longrightarrow> memory_of db' = memory_of db"
  "set_marker J m db = Inr db' \<Longrightarrow> memory_of db' = memory_of db"
  "manifest_on now db run manifest digest = Inr db' \<Longrightarrow> memory_of db' = memory_of db"
  "audit_on now db run a = Inr (row, db') \<Longrightarrow> memory_of db' = memory_of db"
  "insert_transition now db t seq = Inr db' \<Longrightarrow> memory_of db' = memory_of db"
  "record_initialization now db t before = Inr db' \<Longrightarrow> memory_of db' = memory_of db"
  "task_metadata now db run before updates = Inr db' \<Longrightarrow> memory_of db' = memory_of db"
  "seal_branch now db cl b after = Inr db' \<Longrightarrow> memory_of db' = memory_of db"
  "seal_task_domain now db cl = Inr db' \<Longrightarrow> memory_of db' = memory_of db"
  by (auto simp: memory_simps bind_r_eq_Inr Let_def insert_domain_def insert_branch_def insert_capability_def
      insert_receipt_def insert_checkpoint_def complete_where_def update_checkpoint_def enroll_def accept_def
      set_marker_def manifest_on_def audit_on_def insert_transition_def record_initialization_def
      task_metadata_def seal_branch_def seal_task_domain_def revoke_where_def split: if_splits option.splits)

lemma registry_writes_leave:
  "insert_snapshot s db = Inr db' \<Longrightarrow> memory_of db' = memory_of db"
  "insert_project_run p db = Inr db' \<Longrightarrow> memory_of db' = memory_of db"
  "insert_reference r db = Inr db' \<Longrightarrow> memory_of db' = memory_of db"
  "insert_source o' db = Inr db' \<Longrightarrow> memory_of db' = memory_of db"
  "insert_creation db c = Inr db' \<Longrightarrow> memory_of db' = memory_of db"
  "insert_initialization db run = Inr db' \<Longrightarrow> memory_of db' = memory_of db"
  "insert_created_run m row snapshot db = Inr db' \<Longrightarrow> memory_of db' = memory_of db"
  "insert_finding now project run f db = Inr db' \<Longrightarrow> memory_of db' = memory_of db"
  by (auto simp: memory_simps bind_r_eq_Inr Let_def insert_snapshot_def insert_project_run_def
      insert_reference_def insert_source_def insert_creation_def insert_initialization_def
      insert_created_run_def insert_finding_def split: if_splits option.splits)

lemmas writes_leave = workflow_writes_leave registry_writes_leave

lemma finish_on_leaves: "finish_on db receipt x now = Inr (r, db') \<Longrightarrow> memory_of db' = memory_of db"
  by (auto simp: finish_on_def bind_r_eq_Inr dest!: writes_leave)

lemma record_transition_leaves: "record_transition now db t before = Inr db' \<Longrightarrow> memory_of db' = memory_of db"
  unfolding record_transition_def
  by (auto simp: bind_r_eq_Inr split: option.splits if_splits dest!: finish_on_leaves)

lemma transition_on_leaves:
  assumes "transition_on now db t = Inr (r, db')"
  shows "memory_of db' = memory_of db"
  using assms unfolding transition_on_def Let_def
  apply (elim take_apart)
  subgoal premises p
    using p by (auto simp: memory_simps revoke_where_def split: if_splits
        dest!: writes_leave record_transition_leaves)
  done

lemma database_submission_leaves:
  assumes "database_submission now db ex index resource mutation = Inr (r, db')"
    and "\<And>db r db'. mutation db = Inr (r, db') \<Longrightarrow> memory_of db' = memory_of db"
  shows "memory_of db' = memory_of db"
  using assms(1) unfolding database_submission_def Let_def
  by (elim take_apart) (auto dest!: writes_leave assms(2))

lemma check_task_of_leaves: "check_task_of db c task = Inr db' \<Longrightarrow> memory_of db' = memory_of db"
  by (auto simp: check_task_of_def consume_restartable_task_def clear_restartable_action_def bind_r_eq_Inr
      split: option.splits if_splits dest!: writes_leave)

lemma insert_prepared_leaves: "insert_prepared now p b db = Inr db' \<Longrightarrow> memory_of db' = memory_of db"
  by (auto simp: insert_prepared_def bind_r_eq_Inr split: if_splits dest!: writes_leave)

lemma insert_references_leaves:
  assumes "insert_references k m row db = Inr db'"
  shows "memory_of db' = memory_of db"
proof -
  have one: "insert_inline k m row entry st = Inr st' \<Longrightarrow> memory_of (snd st') = memory_of (snd st)" for entry st st'
    by (auto simp: insert_inline_def bind_r_eq_Inr split: prod.splits if_splits dest!: writes_leave)
  show ?thesis using assms fold_r_same [where R = "memory_of \<circ> snd" and s = "([], db)"] one
    unfolding insert_references_def by (fastforce simp: map_ok_eq_Inr)
qed

lemma prepare_project_leaves: "prepare_project k m row db = Inr (p, db') \<Longrightarrow> memory_of db' = memory_of db"
  unfolding prepare_project_def Let_def
  by (auto simp: bind_r_eq_Inr split: option.splits if_splits dest!: writes_leave)

lemma write_creation_leaves:
  assumes "write_creation k m h row db = Inr (r, db')"
  shows "memory_of db' = memory_of db"
  using assms unfolding write_creation_def Let_def
  apply (elim take_apart)
  subgoal premises p for pr project
    using p by (auto simp: memory_simps split: option.splits prod.splits
        dest!: writes_leave prepare_project_leaves insert_references_leaves)
  done

section \<open>The operations\<close>

lemma workflow_operations_leave:
  "create_run now db run problem owner st metadata = Inr (x1, db') \<Longrightarrow> memory_of db' = memory_of db"
  "update_run_metadata now db run updates = Inr (x2, db') \<Longrightarrow> memory_of db' = memory_of db"
  "create_domain now db domain run role snapshot order_index metadata = Inr (x3, db') \<Longrightarrow> memory_of db' = memory_of db"
  "seal_domain now db domain = Inr (x4, db') \<Longrightarrow> memory_of db' = memory_of db"
  "create_branch now db branch run plan domain snap i metadata = Inr (x5, db') \<Longrightarrow> memory_of db' = memory_of db"
  "update_branch_status now db branch status path = Inr (x6, db') \<Longrightarrow> memory_of db' = memory_of db"
  "add_steering now db run owner note = Inr (x7, db') \<Longrightarrow> memory_of db' = memory_of db"
  "consume_steering now db run limit = Inr (x8, db') \<Longrightarrow> memory_of db' = memory_of db"
  "issue k secret default_ttl unix nonce db run domain wrole permissions trace ttl = Inr (x9, db') \<Longrightarrow> memory_of db' = memory_of db"
  "revoke k secret now db token why trace = Inr (x10, db') \<Longrightarrow> memory_of db' = memory_of db"
  unfolding create_run_def update_run_metadata_def create_domain_def seal_domain_def create_branch_def
    update_branch_status_def add_steering_def consume_steering_def issue_def revoke_def revoke_capability_def Let_def
  by (auto simp: memory_simps revoke_where_def bind_r_eq_Inr split: if_splits sum.splits dest!: writes_leave)

lemma submission_operations_leave:
  "reserve_submission now unix execution db auth workspace request = Inr (x1, db') \<Longrightarrow> memory_of db' = memory_of db"
  "activate_submission unix db reservation auth writes = Inr (x2, db') \<Longrightarrow> memory_of db' = memory_of db"
  "checkpoint_submission_write db ex accepted = Inr (x3, db') \<Longrightarrow> memory_of db' = memory_of db"
  "begin_submission_write unix db ex index evidence = Inr (x4, db') \<Longrightarrow> memory_of db' = memory_of db"
  "arm_submission_commit db ex = Inr (x5, db') \<Longrightarrow> memory_of db' = memory_of db"
  "record_submission_outcome now db reservation r = Inr (x6, db') \<Longrightarrow> memory_of db' = memory_of db"
  "reconcile_unstarted_submission now db receipt = Inr (x7, db') \<Longrightarrow> memory_of db' = memory_of db"
  "reconcile_caller_writes now db recovery observed = Inr (x8, db') \<Longrightarrow> memory_of db' = memory_of db"
  "enroll_atomic_action unix db c trace kind = Inr (x9, db') \<Longrightarrow> memory_of db' = memory_of db"
  "enroll_restartable_action unix db c trace action = Inr (x10, db') \<Longrightarrow> memory_of db' = memory_of db"
  unfolding reserve_submission_def activate_submission_def checkpoint_submission_write_def
    begin_submission_write_def arm_submission_commit_def record_submission_outcome_def
    reconcile_unstarted_submission_def reconcile_caller_writes_def enroll_atomic_action_def
    enroll_restartable_action_def Let_def
  by (auto simp: bind_r_eq_Inr split: if_splits option.splits dest!: writes_leave finish_on_leaves)

lemma submission_writes_leave:
  "write_submission_proof_manifest k now unix db ex index manifest = Inr (x1, db') \<Longrightarrow> memory_of db' = memory_of db"
  "write_submission_reference_audit now unix db ex index a = Inr (x2, db') \<Longrightarrow> memory_of db' = memory_of db"
  unfolding write_submission_proof_manifest_def write_submission_reference_audit_def Let_def
  by (auto simp: bind_r_eq_Inr split: if_splits elim!: database_submission_leaves dest!: writes_leave)

lemma transition_task_leaves:
  assumes "transition_task k now unix db c task = Inr (r, db')"
  shows "memory_of db' = memory_of db"
  using assms unfolding transition_task_def Let_def
  apply (elim take_apart)
  subgoal premises p
    using p by (auto simp: memory_simps update_project_mode_def split: option.splits
        dest!: writes_leave check_task_of_leaves transition_on_leaves)
  done

lemma complete_branch_preparation_leaves:
  assumes "complete_branch_preparation now db p = Inr (r, db')"
  shows "memory_of db' = memory_of db"
  using assms unfolding complete_branch_preparation_def Let_def
  by (elim take_apart) (auto simp: memory_simps store_metadata_def
      dest!: transition_on_leaves fold_r_same [where R = memory_of, OF _ insert_prepared_leaves])

lemma transitions_leave:
  "transition_run now db t = Inr (x1, db') \<Longrightarrow> memory_of db' = memory_of db"
  "complete_latex_gate now db t expected latex = Inr (x2, db') \<Longrightarrow> memory_of db' = memory_of db"
  "reserve_creation now execution db owner identity proposed = Inr (x3, db') \<Longrightarrow> memory_of db' = memory_of db"
  "prepare_creation_records k db row m = Inr (x4, db') \<Longrightarrow> memory_of db' = memory_of db"
  unfolding transition_run_def complete_latex_gate_def reserve_creation_def prepare_creation_records_def Let_def
  by (auto simp: memory_simps store_metadata_def bind_r_eq_Inr split: if_splits option.splits
      dest!: writes_leave transition_on_leaves write_creation_leaves)

lemma registry_operations_leave:
  "create_project now fresh db owner title proj metadata = Inr (x1, db') \<Longrightarrow> memory_of db' = memory_of db"
  "create_claim now fresh db owner project title claim metadata = Inr (x2, db') \<Longrightarrow> memory_of db' = memory_of db"
  "create_open_claim_revision now db owner cl statement conditions base = Inr (x3, db') \<Longrightarrow> memory_of db' = memory_of db"
  "create_project_snapshot k now fresh db project owner = Inr (x4, db') \<Longrightarrow> memory_of db' = memory_of db"
  "link_run_to_project now db run owner project snapshot target base requested effective register = Inr (x5, db') \<Longrightarrow>
     memory_of db' = memory_of db"
  "set_project_run_mode now db run mode = Inr (x6, db') \<Longrightarrow> memory_of db' = memory_of db"
  "write_proof_manifest k now db run manifest = Inr (x7, db') \<Longrightarrow> memory_of db' = memory_of db"
  "register_reference now fresh db described = Inr (x8, db') \<Longrightarrow> memory_of db' = memory_of db"
  "create_source_snapshot k now fresh db reference provider uri content content_type data = Inr (x9, db') \<Longrightarrow>
     memory_of db' = memory_of db"
  "write_reference_audit now db run audit = Inr (x10, db') \<Longrightarrow> memory_of db' = memory_of db"
  unfolding create_project_def create_claim_def create_open_claim_revision_def create_project_snapshot_def
    link_run_to_project_def set_project_run_mode_def write_proof_manifest_def register_reference_def
    create_source_snapshot_def write_reference_audit_def Let_def
  by (auto simp: memory_simps promotion_writes_memory(1) bind_r_eq_Inr split: if_splits sum.splits option.splits
      dest!: writes_leave promotion_writes_memory(3))

lemma insert_project_findings_leaves:
  assumes "insert_project_findings now db project run owner findings = Inr (u, db')"
  shows "memory_of db' = memory_of db"
  using assms fold_r_same [where R = memory_of and f = "insert_finding now project run"] registry_writes_leave(8)
  unfolding insert_project_findings_def by (fastforce simp: bind_r_eq_Inr split: if_splits)

lemmas operations_leave = workflow_operations_leave submission_operations_leave submission_writes_leave
  transition_task_leaves complete_branch_preparation_leaves transitions_leave registry_operations_leave
  insert_project_findings_leaves

lemma store_step_memory_ok:
  assumes "store_step k secret db db'" "memory_ok db"
  shows "memory_ok db'"
proof (cases "memory_of db' = memory_of db")
  case True
  then show ?thesis using assms(2) by (rule memory_ok_same)
next
  case False
  with assms show ?thesis
    by cases (auto dest: operations_leave intro: promote_run_inner_memory_ok revoke_project_fact_memory_ok)
qed

lemma empty_memory_ok: "memory_ok empty_db"
  by (simp add: memory_ok_def fact_ids_def rests_on_def fact_revoked_def empty_db_def)

lemma reachable_memory_ok: "reachable k secret db \<Longrightarrow> memory_ok db"
  unfolding reachable_def
  by (induction rule: rtranclp_induct) (rule empty_memory_ok, rule store_step_memory_ok)

section \<open>Active facts rest on active facts\<close>

text \<open>
  C40. In every reachable database the facts rest on each other without a cycle and within one project,
  and an active fact rests, over any number of predecessors, on active facts only: a revocation takes
  everything with it that was derived from the fact, and nothing can be promoted on a revoked one.
\<close>

theorem active_facts_rest_on_active_facts:
  assumes "reachable k secret db"
  shows "acyclic (rests_on db)
    \<and> (\<forall>f p. (f, p) \<in> (rests_on db)\<^sup>+ \<longrightarrow> same_project db f p \<and> (fact_revoked db f \<or> \<not> fact_revoked db p))"
proof -
  have ok: "memory_ok db" using assms by (rule reachable_memory_ok)
  have "same_project db f p \<and> (fact_revoked db p \<longrightarrow> fact_revoked db f)" if "(f, p) \<in> (rests_on db)\<^sup>+" for f p
    using that
  proof (induction rule: trancl_induct)
    case (base y)
    then show ?case using ok by (auto simp: memory_ok_def)
  next
    case (step y z)
    then have "same_project db y z \<and> (fact_revoked db z \<longrightarrow> fact_revoked db y)"
      using ok by (auto simp: memory_ok_def)
    then show ?case using step.IH by (auto simp: same_project_def)
  qed
  then show ?thesis using rests_on_acyclic [OF ok] by blast
qed

text \<open>A history at concrete values: a run promotes two facts, and the first is revoked.\<close>

definition demo_fact :: "string \<Rightarrow> string list \<Rightarrow> fact_for_promotion" where
  "demo_fact i ps = \<lparr>fp_fact_id = i, fp_statement_tex = ''s'', fp_proof_tex = ''p'', fp_intuition = '''',
     fp_glossary_json = ''[]'', fp_predecessors = ps\<rparr>"

definition demo_revoked :: "(string \<times> string list) stored" where
  "demo_revoked =
     bind_r (create_project ''t0'' '''' empty_db ''alice'' ''t'' (Some ''q'') (JObject [])) (\<lambda>(_, db).
     bind_r (create_claim ''t0'' '''' db ''alice'' ''q'' ''t'' (Some ''c'') (JObject [])) (\<lambda>(_, db).
     bind_r (create_run ''t0'' db ''r'' ''p'' ''alice'' ''finalized'' (JObject [])) (\<lambda>(_, db).
     bind_r (create_project_snapshot demo_codec ''t0'' ''1'' db ''q'' ''alice'') (\<lambda>(_, db).
     bind_r (link_run_to_project ''t0'' db ''r'' ''alice'' ''q'' ''ps-1'' (Some ''c'') None ''full'' ''full'' True) (\<lambda>(_, db).
     bind_r (promote_run_inner ''t1'' db ''r'' ''alice'' ''s'' ''h'' [] JNull
       (Some [demo_fact ''00000000000000aa'' [], demo_fact ''00000000000000bb'' [''00000000000000aa'']])) (\<lambda>(_, db).
     revoke_project_fact ''t2'' db ''00000000000000aa'' ''alice'' ''wrong''))))))"

lemma reachable_empty: "reachable k secret empty_db"
  by (simp add: reachable_def)

lemmas reachable_by = reachable_step [OF _ step_create_project] reachable_step [OF _ step_create_claim]
  reachable_step [OF _ step_create_run] reachable_step [OF _ step_create_project_snapshot]
  reachable_step [OF _ step_link_run_to_project] reachable_step [OF _ step_promote_run_inner]
  reachable_step [OF _ step_revoke_project_fact]

lemma demo_revoked_reachable:
  assumes "demo_revoked = Inr (x, db)"
  shows "reachable demo_codec secret db"
  using assms unfolding demo_revoked_def
  apply (elim take_apart)
  apply simp
  apply (erule reachable_by [rotated])+
  apply (rule reachable_empty)
  done

lemma is_ok_projr: "is_ok r \<Longrightarrow> r = Inr (fst (projr r), snd (projr r))"
  by (cases r) auto

lemma demo_revoked_ok: "is_ok demo_revoked"
  by code_simp

theorem active_facts_rest_on_active_facts_witness:
  "\<exists>x db. demo_revoked = Inr (x, db) \<and> fact_revoked db ''00000000000000aa'' \<and> fact_revoked db ''00000000000000bb''
     \<and> acyclic (rests_on db)"
proof -
  obtain x db where d: "demo_revoked = Inr (x, db)" using is_ok_projr [OF demo_revoked_ok] by blast
  have "(''00000000000000bb'', ''00000000000000aa'') \<in> rests_on (snd (projr demo_revoked))"
    "fact_revoked (snd (projr demo_revoked)) ''00000000000000aa''"
    by code_simp+
  then have "fact_revoked db ''00000000000000aa''" "(''00000000000000bb'', ''00000000000000aa'') \<in> rests_on db"
    by (simp_all add: d)
  then show ?thesis
    using active_facts_rest_on_active_facts [OF demo_revoked_reachable [OF d]] d by blast
qed

end
