(* ===== verification/Spec2Isabelle.thy ===== *)
theory Spec2Isabelle
  imports Prelude Json Contracts Path_Policy Splice Patch_Parse Patch_Update Patch_Legacy
    Shell_Segments Shell_Candidates Command_Policy Native_Arguments Native_Policy Schema
    Graph_Search Strong_Components Kahn Fact_Graph Workflow_Kernel Verification
    Research_Types Research_Graph Research_Graph_Laws Research_State Research_State_Laws
    Research_Projection Research_Routes Research_Advice
    Protocol_Fields Protocol_Plans Protocol_Records
    Legacy_Support Legacy_Plans Legacy_Records Legacy_Events Legacy_Normalize Legacy_Laws Legacy_Sound
    Store_Tables Store_Runs Capability_Claims Capability Submission_Records Submission Creation
    Task_Transitions Store_Protocol Store_Steps Store_Registry Fact_Memory Creation_Records
    Store_Frames Store_System Capability_Checks Store_Demo Store_Promises Fact_Soundness Fact_Promises
begin

text \<open>
  A verification development for MTM, a gateway that lets a language model work in a sandboxed
  workspace and drive a workflow of mathematical research. The Rust crates are under
  \<open>src/crates/\<close>; this library models the parts that decide something and leaves the effects (files,
  processes, HTTP) outside.

  \<^bold>\<open>The parts and where they are modelled.\<close>

  \<^item> \<open>mtm-contracts\<close>: the error value \<open>ReCtmError\<close> and the wire enumerations, in \<open>Contracts\<close>; JSON
    values and their canonical form in \<open>Json\<close>. Fallible functions return \<open>error + 'a\<close> and are composed
    with \<open>bind_r\<close> of \<open>Prelude\<close>, which stands for the \<open>?\<close> of the source.
  \<^item> \<open>mtm-core\<close>, tool calls: the path check (\<open>Path_Policy\<close>), the patch format and the two patch engines
    (\<open>Patch_Parse\<close>, \<open>Patch_Update\<close>, \<open>Patch_Legacy\<close> over the specification of an edit in \<open>Splice\<close>), the
    scanner of shell commands and the executables a command can be seen to run (\<open>Shell_Segments\<close>,
    \<open>Shell_Candidates\<close>), the risks of a command (\<open>Command_Policy\<close>), the parsing of tool arguments
    (\<open>Native_Arguments\<close>), the permission decision (\<open>Native_Policy\<close>), and the JSON schema subset
    (\<open>Schema\<close>). A tool call is parsed, classified from facts about its executables or paths, and then
    evaluated against the grants; the theories follow this order.
  \<^item> \<open>mtm-workflow\<close>, the state machine of a run: the transition table (\<open>Workflow_Kernel\<close>), the report
    of the verifier with the verification and finalization gates of the engine (\<open>Verification\<close>).
  \<^item> \<open>mtm-workflow\<close>, facts and research: the graph of facts (\<open>Fact_Graph\<close>), the types of the research
    state (\<open>Research_Types\<close>) and its dependency graph (\<open>Research_Graph\<close>, with its laws in
    \<open>Research_Graph_Laws\<close>), over the searches and the ordering loop they share (\<open>Graph_Search\<close>,
    \<open>Strong_Components\<close>, \<open>Kahn\<close>); the projector \<open>analyze\<close> and \<open>project\<close> (\<open>Research_State\<close>) with what holds of
    the state it derives (\<open>Research_State_Laws\<close>, \<open>Research_Projection\<close>, \<open>Research_Routes\<close>), and the advice
    given on that state (\<open>Research_Advice\<close>).
  \<^item> \<open>mtm-workflow\<close>, what becomes of a submission: protocol 3 (\<open>research_state/protocol.rs\<close>) with the scope of
    known plans, nodes and references (\<open>Protocol_Fields\<close>), the normalization of plans with the search for a
    cycle (\<open>Protocol_Plans\<close>), and the records and their stamp (\<open>Protocol_Records\<close>); and the normalization of
    the recorded history into a snapshot (\<open>research_state/normalize.rs\<close>) in \<open>Legacy_Support\<close>,
    \<open>Legacy_Plans\<close>, \<open>Legacy_Records\<close>, \<open>Legacy_Events\<close> and \<open>Legacy_Normalize\<close>: one state \<open>norm_state\<close> stands for
    the maps and vectors the functions share. \<open>Legacy_Laws\<close> has its invariant and \<open>Legacy_Sound\<close> what the
    projector can still refuse.

  \<^item> \<open>mtm-storage\<close>, the state database: a table is the list of its rows and a statement one of three
    operations on such lists (\<open>Store_Tables\<close>). Over them the operations of \<open>StateStore\<close>: runs, domains,
    branches and steering (\<open>Store_Runs\<close>), projects, claims, references and audits (\<open>Store_Registry\<close>), the
    fact memory with the promotion of a verified run (\<open>Fact_Memory\<close>), the receipts and records of a
    creation (\<open>Creation\<close>, \<open>Creation_Records\<close>), the submission protocol with its write journal and its
    recovery (\<open>Submission_Records\<close>, \<open>Submission\<close>) and the transitions of a run (\<open>Task_Transitions\<close>).
    Capabilities, the signed tokens that carry authority, are in \<open>Capability_Claims\<close> and \<open>Capability\<close>.
    A request is validated against the database, reserved, activated, journalled, armed and committed
    by a transition that revokes its capability and completes its receipt.
  \<^item> \<open>mtm-storage\<close>, what it promises: \<open>Store_Protocol\<close> has the abstract protocol, its invariant and what no
    move takes back, as an interpretation of the locale \<open>monotone_system\<close>; \<open>Store_Steps\<close> and \<open>Store_Frames\<close>
    show that every operation is a sequence of its moves; \<open>Store_System\<close> has the reachable databases,
    \<open>Store_Promises\<close> the properties of them, with a concrete history in \<open>Store_Demo\<close>. \<open>Capability_Checks\<close>
    says when a request is allowed; \<open>Fact_Soundness\<close> and \<open>Fact_Promises\<close> that no active fact rests on a
    revoked one.

  \<^bold>\<open>Conventions.\<close> A string is a list of bytes, as \<open>char\<close>; a slice of the source at a byte index is
  \<open>take\<close> and \<open>drop\<close>. A \<open>BTreeMap\<close> is an association list sorted by its keys and a \<open>BTreeSet\<close> a sorted
  list (\<open>bt_insert\<close>, \<open>bs_insert\<close>), or a set where only membership is asked. Counters that the
  source adds with saturation use \<open>sat_add\<close>; those it checks have the check written out.

  \<^bold>\<open>Parameters.\<close> The regex engine, \<open>shell_words\<close>, Unicode lowercasing, SHA-256, the printing of
  floating-point numbers, the serializer of the research state (\<open>to_vec\<close>), the \<open>Debug\<close> rendering of a
  string (\<open>debug\<close>), the encoding, signing and serialization of tokens (the record \<open>token_codec\<close>), the clock
  and every identifier drawn at random, and what the vault and the store hold are arguments of the definitions that use them.

  \<^bold>\<open>Termination and fuel.\<close> Recursions over nested shell scripts use the depth bound of the source as
  fuel (\<open>candidates_fuel\<close>), which suffices for every input (\<open>fuel_suffices\<close>); the searches of a graph
  terminate by the number of its unvisited nodes, as does the search for a cycle in a plan
  (\<open>visit_all\<close>); the spread of issues (\<open>propagate\<close>) by the issues that are still open; the ordering loop is a \<open>while_option\<close> whose end is
  proved from its invariant.

  \<^bold>\<open>The database.\<close> A transaction that fails leaves the database as it was, so an operation returns the
  new one only beside its result; operations run one after the other. A column whose text the program
  serialized itself holds the JSON value. No operation deletes a row. A reachable database is one that
  any sequence of operations, with any arguments, clocks and identifiers, makes of the empty one, where
  the execution id drawn for a reservation is new among the traces of the recorded transitions.

  \<^bold>\<open>Not modelled.\<close> Opening and migrating the database file, its snapshot and digest, a failing clock or
  random source, process control and the sandbox command line,
  the HTTP and OAuth front end, the command line, and the parts of the workflow engine that read and
  write the vault and the store: what they compute is an effect of a database file, the operating system or
  the network.
\<close>

end
